(* ===== verification/Prelude.thy ===== *)
theory Prelude
  imports Main
begin

text \<open>
  Shared ground of the development: the transaction monad in which every service method
  is written, its proof rules, and the lemmas on lists and on rows kept in lists that the
  components share.

  A service method runs inside one Postgres transaction. It either throws, and then the
  transaction rolls back, or it answers with a value and a new database. Its model is a
  function from the database to a sum: \<open>Inl\<close> the error, \<open>Inr\<close> the value and the
  state after it.
\<close>

named_theorems tx_simps \<open>unfolding equations of the transaction combinators\<close>
named_theorems tx_keep \<open>introduction rules for tx_keeps\<close>
named_theorems tx_fix \<open>introduction rules for tx_fixes\<close>
named_theorems row_simps \<open>rewriting rules for rows kept in lists\<close>

section \<open>The transaction monad\<close>

type_synonym ('s, 'e, 'a) tx = "'s \<Rightarrow> 'e + ('a \<times> 's)"

definition tx_ret :: "'a \<Rightarrow> ('s, 'e, 'a) tx" where
  "tx_ret a = (\<lambda>s. Inr (a, s))"

definition tx_throw :: "'e \<Rightarrow> ('s, 'e, 'a) tx" where
  "tx_throw e = (\<lambda>s. Inl e)"

definition tx_bind :: "('s, 'e, 'a) tx \<Rightarrow> ('a \<Rightarrow> ('s, 'e, 'b) tx) \<Rightarrow> ('s, 'e, 'b) tx" where
  "tx_bind m f = (\<lambda>s. case m s of Inl e \<Rightarrow> Inl e | Inr (a, s') \<Rightarrow> f a s')"

definition tx_get :: "('s \<Rightarrow> 'a) \<Rightarrow> ('s, 'e, 'a) tx" where
  "tx_get f = (\<lambda>s. Inr (f s, s))"

definition tx_modify :: "('s \<Rightarrow> 's) \<Rightarrow> ('s, 'e, unit) tx" where
  "tx_modify f = (\<lambda>s. Inr ((), f s))"

definition tx_guard :: "bool \<Rightarrow> 'e \<Rightarrow> ('s, 'e, unit) tx" where
  "tx_guard b e = (if b then tx_ret () else tx_throw e)"

definition tx_lift :: "'e + 'a \<Rightarrow> ('s, 'e, 'a) tx" where
  "tx_lift r = (case r of Inl e \<Rightarrow> tx_throw e | Inr a \<Rightarrow> tx_ret a)"

text \<open>A \<open>for\<close> loop over a list whose body may throw, collecting what each turn answers.\<close>

fun tx_mapM :: "('a \<Rightarrow> ('s, 'e, 'b) tx) \<Rightarrow> 'a list \<Rightarrow> ('s, 'e, 'b list) tx" where
  "tx_mapM f [] = tx_ret []"
| "tx_mapM f (x # xs) =
     tx_bind (f x) (\<lambda>y. tx_bind (tx_mapM f xs) (\<lambda>ys. tx_ret (y # ys)))"

text \<open>The same loop for its effect only.\<close>

fun tx_iter :: "('a \<Rightarrow> ('s, 'e, unit) tx) \<Rightarrow> 'a list \<Rightarrow> ('s, 'e, unit) tx" where
  "tx_iter f [] = tx_ret ()"
| "tx_iter f (x # xs) = tx_bind (f x) (\<lambda>_. tx_iter f xs)"

text \<open>Pure error handling, for the request parsers, which touch no state.\<close>

definition e_bind :: "'e + 'a \<Rightarrow> ('a \<Rightarrow> 'e + 'b) \<Rightarrow> 'e + 'b" where
  "e_bind r f = (case r of Inl e \<Rightarrow> Inl e | Inr a \<Rightarrow> f a)"

fun e_mapM :: "('a \<Rightarrow> 'e + 'b) \<Rightarrow> 'a list \<Rightarrow> 'e + 'b list" where
  "e_mapM f [] = Inr []"
| "e_mapM f (x # xs) = e_bind (f x) (\<lambda>y. e_bind (e_mapM f xs) (\<lambda>ys. Inr (y # ys)))"

lemma e_bind_simps [simp]:
  "e_bind (Inl e) f = Inl e"
  "e_bind (Inr a) f = f a"
  by (simp_all add: e_bind_def)

lemma e_bind_Inr [simp]: "e_bind r f = Inr b \<longleftrightarrow> (\<exists>a. r = Inr a \<and> f a = Inr b)"
  by (cases r) simp_all

lemma e_mapM_Inr:
  "e_mapM f xs = Inr ys \<Longrightarrow> length ys = length xs \<and> (\<forall>i < length xs. f (xs ! i) = Inr (ys ! i))"
proof (induction xs arbitrary: ys)
  case Nil
  then show ?case by simp
next
  case (Cons x xs)
  then obtain y zs where y: "f x = Inr y" and zs: "e_mapM f xs = Inr zs" and ys: "ys = y # zs"
    by auto
  from Cons.IH [OF zs] y ys show ?case
    by (auto simp: nth_Cons split: nat.splits)
qed

subsection \<open>Running the combinators\<close>

lemma tx_run [simp, tx_simps]:
  "tx_ret a s = Inr (a, s)"
  "tx_throw e s = Inl e"
  "tx_get f s = Inr (f s, s)"
  "tx_modify g s = Inr ((), g s)"
  by (simp_all add: tx_ret_def tx_throw_def tx_get_def tx_modify_def)

lemma tx_bind_Inl_run: "m s = Inl e \<Longrightarrow> tx_bind m f s = Inl e"
  by (simp add: tx_bind_def)

lemma tx_bind_Inr_run: "m s = Inr (a, s') \<Longrightarrow> tx_bind m f s = f a s'"
  by (simp add: tx_bind_def)

lemma tx_bind_run [simp, tx_simps]:
  "tx_bind (tx_ret a) f s = f a s"
  "tx_bind (tx_throw e) f s = Inl e"
  "tx_bind (tx_get g) f s = f (g s) s"
  "tx_bind (tx_modify h) k s = k () (h s)"
  by (simp_all add: tx_bind_def)

lemma tx_guard_run [simp, tx_simps]:
  "tx_guard b e s = (if b then Inr ((), s) else Inl e)"
  "tx_bind (tx_guard b e) f s = (if b then f () s else Inl e)"
  by (simp_all add: tx_guard_def tx_bind_def)

lemma tx_lift_run [simp, tx_simps]:
  "tx_lift (Inl e) s = Inl e"
  "tx_lift (Inr a) s = Inr (a, s)"
  "tx_bind (tx_lift (Inl e)) f s = Inl e"
  "tx_bind (tx_lift (Inr a)) f s = f a s"
  by (simp_all add: tx_lift_def tx_bind_def)

lemma if_Inr_Inl [simp]:
  "((if b then r else Inl e) = Inr y) \<longleftrightarrow> b \<and> r = Inr y"
  "((if b then Inr x else Inl e) = Inl d) \<longleftrightarrow> \<not> b \<and> e = d"
  by auto

lemma tx_lift_Inr [simp]: "tx_lift r s = Inr (a, s') \<longleftrightarrow> r = Inr a \<and> s' = s"
  by (cases r) auto

lemma tx_bind_Inr [simp]:
  "tx_bind m f s = Inr x \<longleftrightarrow> (\<exists>a s'. m s = Inr (a, s') \<and> f a s' = Inr x)"
  by (auto simp: tx_bind_def split: sum.splits prod.splits)

lemma tx_bindE [elim!]:
  assumes "tx_bind m f s = Inr x"
  obtains a s' where "m s = Inr (a, s')" "f a s' = Inr x"
  using assms by auto

lemma tx_bind_assoc: "tx_bind (tx_bind m f) g = tx_bind m (\<lambda>x. tx_bind (f x) g)"
  by (rule ext) (auto simp: tx_bind_def split: sum.splits)

subsection \<open>What a method preserves\<close>

text \<open>\<open>tx_keeps I m\<close>: whenever the method commits, it keeps \<open>I\<close>.\<close>

definition tx_keeps :: "('s \<Rightarrow> bool) \<Rightarrow> ('s, 'e, 'a) tx \<Rightarrow> bool" where
  "tx_keeps I m \<longleftrightarrow> (\<forall>s a s'. I s \<longrightarrow> m s = Inr (a, s') \<longrightarrow> I s')"

lemma tx_keepsI: "(\<And>s a s'. I s \<Longrightarrow> m s = Inr (a, s') \<Longrightarrow> I s') \<Longrightarrow> tx_keeps I m"
  by (auto simp: tx_keeps_def)

lemma tx_keepsD: "tx_keeps I m \<Longrightarrow> I s \<Longrightarrow> m s = Inr (a, s') \<Longrightarrow> I s'"
  by (auto simp: tx_keeps_def)

lemma tx_keeps_ret [tx_keep]: "tx_keeps I (tx_ret a)"
  by (simp add: tx_keeps_def)

lemma tx_keeps_throw [tx_keep]: "tx_keeps I (tx_throw e)"
  by (simp add: tx_keeps_def)

lemma tx_keeps_get [tx_keep]: "tx_keeps I (tx_get f)"
  by (simp add: tx_keeps_def)

lemma tx_keeps_guard [tx_keep]: "tx_keeps I (tx_guard b e)"
  by (simp add: tx_keeps_def)

lemma tx_keeps_lift [tx_keep]: "tx_keeps I (tx_lift r)"
  by (cases r) (simp_all add: tx_keeps_def)

lemma tx_keeps_modify: "(\<And>s. I s \<Longrightarrow> I (f s)) \<Longrightarrow> tx_keeps I (tx_modify f)"
  by (simp add: tx_keeps_def)

lemma tx_keeps_bind [tx_keep]:
  "tx_keeps I m \<Longrightarrow> (\<And>a. tx_keeps I (f a)) \<Longrightarrow> tx_keeps I (tx_bind m f)"
  unfolding tx_keeps_def by (metis tx_bind_Inr)

lemma tx_keeps_if [tx_keep]:
  "(b \<Longrightarrow> tx_keeps I m) \<Longrightarrow> (\<not> b \<Longrightarrow> tx_keeps I m') \<Longrightarrow> tx_keeps I (if b then m else m')"
  by simp

lemma tx_keeps_case_option [tx_keep]:
  "(x = None \<Longrightarrow> tx_keeps I m) \<Longrightarrow> (\<And>a. x = Some a \<Longrightarrow> tx_keeps I (f a)) \<Longrightarrow>
   tx_keeps I (case x of None \<Rightarrow> m | Some a \<Rightarrow> f a)"
  by (cases x) auto

lemma tx_keeps_case_prod [tx_keep]:
  "(\<And>a b. p = (a, b) \<Longrightarrow> tx_keeps I (f a b)) \<Longrightarrow> tx_keeps I (case p of (a, b) \<Rightarrow> f a b)"
  by (cases p) auto

lemma tx_keeps_let [tx_keep]: "tx_keeps I (k x) \<Longrightarrow> tx_keeps I (let y = x in k y)"
  by simp

lemma tx_keeps_mapM [tx_keep]:
  "(\<And>x. x \<in> set xs \<Longrightarrow> tx_keeps I (f x)) \<Longrightarrow> tx_keeps I (tx_mapM f xs)"
  by (induction xs) (auto intro!: tx_keep)

lemma tx_keeps_iter [tx_keep]:
  "(\<And>x. x \<in> set xs \<Longrightarrow> tx_keeps I (f x)) \<Longrightarrow> tx_keeps I (tx_iter f xs)"
  by (induction xs) (auto intro!: tx_keep)

text \<open>
  \<open>tx_fixes f m\<close>: whenever the method commits, it leaves what \<open>f\<close> reads as it was.
  This is the frame of a method; \<open>f\<close> is usually one table.
\<close>

definition tx_fixes :: "('s \<Rightarrow> 'b) \<Rightarrow> ('s, 'e, 'a) tx \<Rightarrow> bool" where
  "tx_fixes f m \<longleftrightarrow> (\<forall>s a s'. m s = Inr (a, s') \<longrightarrow> f s' = f s)"

lemma tx_fixesD: "tx_fixes f m \<Longrightarrow> m s = Inr (a, s') \<Longrightarrow> f s' = f s"
  by (auto simp: tx_fixes_def)

lemma tx_fixesI: "(\<And>s a s'. m s = Inr (a, s') \<Longrightarrow> f s' = f s) \<Longrightarrow> tx_fixes f m"
  by (auto simp: tx_fixes_def)

lemma tx_fixes_basic [tx_fix]:
  "tx_fixes f (tx_ret a)" "tx_fixes f (tx_throw e)" "tx_fixes f (tx_get g)"
  "tx_fixes f (tx_guard b e)" "tx_fixes f (tx_lift r)"
  by (simp_all add: tx_fixes_def)

lemma tx_fixes_modify [tx_fix]: "(\<And>s. f (g s) = f s) \<Longrightarrow> tx_fixes f (tx_modify g)"
  by (simp add: tx_fixes_def)

lemma tx_fixes_bind [tx_fix]:
  "tx_fixes f m \<Longrightarrow> (\<And>a. tx_fixes f (k a)) \<Longrightarrow> tx_fixes f (tx_bind m k)"
  unfolding tx_fixes_def by (metis tx_bind_Inr)

lemma tx_fixes_if [tx_fix]:
  "(b \<Longrightarrow> tx_fixes f m) \<Longrightarrow> (\<not> b \<Longrightarrow> tx_fixes f m') \<Longrightarrow> tx_fixes f (if b then m else m')"
  by simp

lemma tx_fixes_case_option [tx_fix]:
  "(x = None \<Longrightarrow> tx_fixes f m) \<Longrightarrow> (\<And>a. x = Some a \<Longrightarrow> tx_fixes f (k a)) \<Longrightarrow>
   tx_fixes f (case x of None \<Rightarrow> m | Some a \<Rightarrow> k a)"
  by (cases x) auto

lemma tx_fixes_case_prod [tx_fix]:
  "(\<And>a b. p = (a, b) \<Longrightarrow> tx_fixes f (k a b)) \<Longrightarrow> tx_fixes f (case p of (a, b) \<Rightarrow> k a b)"
  by (cases p) auto

lemma tx_fixes_let [tx_fix]: "tx_fixes f (k x) \<Longrightarrow> tx_fixes f (let y = x in k y)"
  by simp

lemma tx_fixes_mapM [tx_fix]:
  "(\<And>x. x \<in> set xs \<Longrightarrow> tx_fixes f (k x)) \<Longrightarrow> tx_fixes f (tx_mapM k xs)"
  by (induction xs) (auto intro!: tx_fix)

lemma tx_fixes_iter [tx_fix]:
  "(\<And>x. x \<in> set xs \<Longrightarrow> tx_fixes f (k x)) \<Longrightarrow> tx_fixes f (tx_iter k xs)"
  by (induction xs) (auto intro!: tx_fix)

lemma tx_keeps_if_fixed: "tx_fixes f m \<Longrightarrow> tx_keeps (\<lambda>s. P (f s)) m"
  by (simp add: tx_fixes_def tx_keeps_def)

text \<open>A method that only reads leaves the state as it found it.\<close>

definition tx_pure :: "('s, 'e, 'a) tx \<Rightarrow> bool" where
  "tx_pure m \<longleftrightarrow> (\<forall>s a s'. m s = Inr (a, s') \<longrightarrow> s' = s)"

lemma tx_pureD: "tx_pure m \<Longrightarrow> m s = Inr (a, s') \<Longrightarrow> s' = s"
  by (auto simp: tx_pure_def)

lemma tx_pure_keeps: "tx_pure m \<Longrightarrow> tx_keeps I m"
  by (auto simp: tx_pure_def tx_keeps_def)

section \<open>Rows kept in lists\<close>

text \<open>
  A table is the list of its rows in insertion order. \<open>row_of\<close> is \<open>SELECT \<dots> WHERE key = k\<close>
  on a primary key, \<open>upd_where\<close> is \<open>UPDATE \<dots> WHERE\<close>.
\<close>

definition row_of :: "('r \<Rightarrow> 'k) \<Rightarrow> 'k \<Rightarrow> 'r list \<Rightarrow> 'r option" where
  "row_of key k rows = find (\<lambda>r. key r = k) rows"

definition upd_where :: "('r \<Rightarrow> bool) \<Rightarrow> ('r \<Rightarrow> 'r) \<Rightarrow> 'r list \<Rightarrow> 'r list" where
  "upd_where p f rows = map (\<lambda>r. if p r then f r else r) rows"

definition has_key :: "('r \<Rightarrow> 'k) \<Rightarrow> 'k \<Rightarrow> 'r list \<Rightarrow> bool" where
  "has_key key k rows \<longleftrightarrow> k \<in> set (map key rows)"

lemma row_of_simps [simp]:
  "row_of key k [] = None"
  "row_of key k (r # rs) = (if key r = k then Some r else row_of key k rs)"
  by (simp_all add: row_of_def)

lemma upd_where_simps [simp]:
  "upd_where p f [] = []"
  "upd_where p f (r # rs) = (if p r then f r else r) # upd_where p f rs"
  by (simp_all add: upd_where_def)

lemma has_key_simps [simp]:
  "has_key key k [] = False"
  "has_key key k (r # rs) = (key r = k \<or> has_key key k rs)"
  by (auto simp: has_key_def)

lemma upd_where_append [simp]: "upd_where p f (xs @ ys) = upd_where p f xs @ upd_where p f ys"
  by (simp add: upd_where_def)

lemma length_upd_where [simp]: "length (upd_where p f rows) = length rows"
  by (simp add: upd_where_def)

lemma row_of_None [row_simps]: "row_of key k rows = None \<longleftrightarrow> \<not> has_key key k rows"
  by (induction rows) auto

lemma row_of_Some_has_key: "row_of key k rows = Some r \<Longrightarrow> has_key key k rows"
  using row_of_None [of key k rows] by auto

lemma row_of_SomeD: "row_of key k rows = Some r \<Longrightarrow> r \<in> set rows \<and> key r = k"
  by (induction rows) (auto split: if_splits)

lemma row_of_unique:
  "distinct (map key rows) \<Longrightarrow> r \<in> set rows \<Longrightarrow> row_of key (key r) rows = Some r"
  by (induction rows) (auto simp: image_iff)

lemma row_of_append:
  "row_of key k (xs @ ys) = (case row_of key k xs of None \<Rightarrow> row_of key k ys | Some r \<Rightarrow> Some r)"
  by (induction xs) auto

lemma has_key_append [simp]: "has_key key k (xs @ ys) \<longleftrightarrow> has_key key k xs \<or> has_key key k ys"
  by (auto simp: has_key_def)

lemma upd_where_id: "(\<And>r. r \<in> set rows \<Longrightarrow> \<not> p r) \<Longrightarrow> upd_where p f rows = rows"
  by (induction rows) auto

lemma upd_where_missing: "\<not> has_key key k rows \<Longrightarrow> upd_where (\<lambda>r. key r = k) f rows = rows"
  by (induction rows) auto

lemma set_upd_whereD: "r \<in> set (upd_where p f rows) \<Longrightarrow>
    (r \<in> set rows \<and> \<not> p r) \<or> (\<exists>r0 \<in> set rows. p r0 \<and> r = f r0)"
  by (auto simp: upd_where_def split: if_splits)

lemma count_upd:
  assumes "\<And>r. r \<in> set rs \<Longrightarrow> p r \<Longrightarrow> q (f r) \<Longrightarrow> q r"
  shows "length (filter q (upd_where p f rs)) \<le> length (filter q rs)"
  using assms by (induction rs) (auto simp: le_SucI)

text \<open>
  An UPDATE that leaves the primary key alone. Every UPDATE statement of the program is
  one; the components interpret this locale on theirs.
\<close>

locale keyed_update =
  fixes key :: "'r \<Rightarrow> 'k" and f :: "'r \<Rightarrow> 'r"
  assumes key_fixed: "key (f r) = key r"
begin

lemma keys_upd: "map key (upd_where p f rows) = map key rows"
  by (induction rows) (auto simp: key_fixed)

lemma has_key_upd: "has_key key k (upd_where p f rows) = has_key key k rows"
  by (simp add: has_key_def keys_upd del: set_map)

lemma distinct_upd: "distinct (map key (upd_where p f rows)) = distinct (map key rows)"
  by (simp add: keys_upd)

lemma row_of_upd_same:
  "row_of key k (upd_where (\<lambda>r. key r = k) f rows) = map_option f (row_of key k rows)"
  by (induction rows) (auto simp: key_fixed)

lemma row_of_upd_other:
  "j \<noteq> k \<Longrightarrow> row_of key j (upd_where (\<lambda>r. key r = k) f rows) = row_of key j rows"
  by (induction rows) (auto simp: key_fixed)

lemma row_of_upd:
  "row_of key j (upd_where (\<lambda>r. key r = k) f rows) =
     (if j = k then map_option f (row_of key k rows) else row_of key j rows)"
  by (simp add: row_of_upd_same row_of_upd_other)

end

subsection \<open>Sums over rows\<close>

abbreviation sum_by :: "('r \<Rightarrow> int) \<Rightarrow> 'r list \<Rightarrow> int" where
  "sum_by f rows \<equiv> sum_list (map f rows)"

lemma sum_by_nonneg: "(\<And>r. r \<in> set rows \<Longrightarrow> 0 \<le> f r) \<Longrightarrow> 0 \<le> sum_by f rows"
  by (induction rows) (auto simp: add_nonneg_nonneg)

lemma sum_by_filter_upd_where:
  assumes "\<And>r. p r \<Longrightarrow> q (g r) = q r \<and> f (g r) = f r"
  shows "sum_by f (filter q (upd_where p g rows)) = sum_by f (filter q rows)"
  by (induction rows) (auto simp: assms)

lemma sum_by_filter_le:
  "(\<And>r. r \<in> set rows \<Longrightarrow> 0 \<le> f r) \<Longrightarrow> sum_by f (filter p rows) \<le> sum_by f rows"
  by (induction rows) (auto simp: add_increasing)

lemma sum_by_filter_mono:
  "(\<And>r. r \<in> set rows \<Longrightarrow> 0 \<le> f r) \<Longrightarrow> (\<And>r. r \<in> set rows \<Longrightarrow> p r \<Longrightarrow> q r) \<Longrightarrow>
   sum_by f (filter p rows) \<le> sum_by f (filter q rows)"
  by (induction rows) (auto simp: add_increasing)

subsection \<open>Grouping\<close>

text \<open>
  \<open>first_seen\<close> lists the keys of a list in the order they first appear, which is the order
  of a JavaScript \<open>Map\<close> or \<open>Set\<close> filled from it.
\<close>

fun first_seen :: "'k list \<Rightarrow> 'k list" where
  "first_seen [] = []"
| "first_seen (x # xs) = x # filter (\<lambda>y. y \<noteq> x) (first_seen xs)"

lemma set_first_seen [simp]: "set (first_seen xs) = set xs"
  by (induction xs) auto

lemma distinct_first_seen [simp]: "distinct (first_seen xs)"
  by (induction xs) auto

lemma first_seen_distinct: "distinct xs \<Longrightarrow> first_seen xs = xs"
  by (induction xs) (auto simp: filter_id_conv)

lemma sum_list_distinct_single:
  fixes f :: "'k \<Rightarrow> int"
  assumes "distinct ks"
  shows "sum_list (map (\<lambda>k. if k = k0 then f k else 0) ks) = (if k0 \<in> set ks then f k0 else 0)"
  using assms by (induction ks) auto

lemma sum_by_groups:
  fixes f :: "'r \<Rightarrow> int"
  assumes "distinct ks" and "\<And>r. r \<in> set rows \<Longrightarrow> key r \<in> set ks"
  shows "sum_list (map (\<lambda>k. sum_by f (filter (\<lambda>r. key r = k) rows)) ks) = sum_by f rows"
  using assms(2)
proof (induction rows)
  case Nil
  then show ?case by (simp add: sum_list_0)
next
  case (Cons r rows)
  have "(\<lambda>k. sum_by f (filter (\<lambda>x. key x = k) (r # rows))) =
        (\<lambda>k. (if k = key r then f r else 0) + sum_by f (filter (\<lambda>x. key x = k) rows))"
    by auto
  then show ?case
    using Cons sum_list_distinct_single [OF assms(1), of "key r" "\<lambda>_. f r"]
    by (simp add: sum_list_addf)
qed

end
