(* ===== verification/Js_Number.thy ===== *)
theory Js_Number
  imports Complex_Main Prelude
begin

text \<open>
  JavaScript numbers. A \<open>number\<close> is an IEEE 754 double; every operation answers the double
  nearest to the exact result, ties to even. \<open>fl\<close> is that rounding on the reals, for the
  exponent range the program's amounts live in (no overflow, no subnormals). The lemmas
  say when the rounding can be forgotten: integers up to \<open>2 ^ 53\<close> are exact, and
  \<open>Math.round\<close> and \<open>Math.floor\<close> of a quotient are the integer division the code means,
  as long as the numerator stays below \<open>2 ^ 52\<close>.
\<close>

section \<open>Rounding to a double\<close>

text \<open>Nearest integer, ties to even.\<close>

definition rne :: "real \<Rightarrow> int" where
  "rne y = (let n = \<lfloor>y\<rfloor>; d = y - of_int n in
     if d < 1 / 2 then n else if 1 / 2 < d then n + 1 else if even n then n else n + 1)"

text \<open>The exponent of the last of the 53 bits of a double near \<open>x\<close>.\<close>

definition ulp_exp :: "real \<Rightarrow> int" where
  "ulp_exp x = \<lfloor>log 2 \<bar>x\<bar>\<rfloor> - 52"

definition fl :: "real \<Rightarrow> real" where
  "fl x = (if x = 0 then 0
           else of_int (rne (x / 2 powr of_int (ulp_exp x))) * 2 powr of_int (ulp_exp x))"

lemma rne_of_int [simp]: "rne (of_int n) = n"
  by (simp add: rne_def)

lemma rne_numeral [simp]: "rne (numeral w) = numeral w"
  by (metis of_int_numeral rne_of_int)

lemma rne_error: "\<bar>of_int (rne y) - y\<bar> \<le> 1 / 2"
  unfolding rne_def Let_def by (auto simp: abs_if) linarith+

lemma rne_mono:
  assumes "x \<le> y"
  shows "rne x \<le> rne y"
proof (cases "\<lfloor>x\<rfloor> = \<lfloor>y\<rfloor>")
  case True
  then show ?thesis using assms unfolding rne_def Let_def by auto
next
  case False
  with assms have "\<lfloor>x\<rfloor> + 1 \<le> \<lfloor>y\<rfloor>"
    using floor_mono [OF assms] by linarith
  moreover have "rne x \<le> \<lfloor>x\<rfloor> + 1" "\<lfloor>y\<rfloor> \<le> rne y"
    by (simp_all add: rne_def Let_def)
  ultimately show ?thesis by linarith
qed

lemma rne_ge: "of_int n \<le> y \<Longrightarrow> n \<le> rne y"
  using rne_mono [of "of_int n" y] by simp

lemma rne_le: "y \<le> of_int n \<Longrightarrow> rne y \<le> n"
  using rne_mono [of y "of_int n"] by simp

lemma rne_neg: "rne (- y) = - rne y"
proof (cases "y = of_int \<lfloor>y\<rfloor>")
  case True
  then show ?thesis by (metis of_int_minus rne_of_int)
next
  case False
  then have f: "\<lfloor>- y\<rfloor> = - \<lfloor>y\<rfloor> - 1"
    using floor_less_iff [of y] by linarith
  show ?thesis
    unfolding rne_def Let_def f by auto
qed

lemma fl_zero [simp]: "fl 0 = 0"
  by (simp add: fl_def)

lemma ulp_exp_neg [simp]: "ulp_exp (- x) = ulp_exp x"
  by (simp add: ulp_exp_def)

lemma fl_neg: "fl (- x) = - fl x"
  by (simp add: fl_def rne_neg)

lemma ulp_bounds:
  assumes "0 < x"
  shows "2 ^ 52 \<le> x / 2 powr of_int (ulp_exp x)" "x / 2 powr of_int (ulp_exp x) < 2 ^ 53"
proof -
  let ?k = "\<lfloor>log 2 x\<rfloor>"
  have e: "(2 :: real) powr of_int (ulp_exp x) = 2 powr of_int ?k / 2 ^ 52"
    using assms by (simp add: ulp_exp_def powr_diff)
  have lo: "2 powr of_int ?k \<le> x"
    using assms by (metis of_int_floor_le one_less_numeral_iff powr_le_iff semiring_norm(76))
  have "log 2 x < of_int ?k + 1" by linarith
  then have "2 powr log 2 x < 2 powr (of_int ?k + 1)"
    by (intro powr_less_mono) simp_all
  then have hi: "x < 2 powr (of_int ?k + 1)"
    using assms by simp
  show "2 ^ 52 \<le> x / 2 powr of_int (ulp_exp x)"
    using lo by (simp add: e field_simps)
  show "x / 2 powr of_int (ulp_exp x) < 2 ^ 53"
    using hi by (simp add: e field_simps powr_add)
qed

lemma fl_pos_bounds:
  assumes "0 < x"
  shows "2 powr of_int (ulp_exp x + 52) \<le> fl x" "fl x \<le> 2 powr of_int (ulp_exp x + 53)"
proof -
  let ?e = "ulp_exp x"
  have "(2 ^ 52 :: int) \<le> rne (x / 2 powr of_int ?e)"
    using ulp_bounds(1) [OF assms] by (intro rne_ge) simp
  then have "(2 ^ 52 :: real) \<le> of_int (rne (x / 2 powr of_int ?e))"
    by (metis of_int_le_iff of_int_numeral of_int_power)
  then show "2 powr of_int (?e + 52) \<le> fl x"
    using assms by (simp add: fl_def powr_add powr_realpow)
  have "rne (x / 2 powr of_int ?e) \<le> (2 ^ 53 :: int)"
    using ulp_bounds(2) [OF assms] by (intro rne_le) simp
  then have "of_int (rne (x / 2 powr of_int ?e)) \<le> (2 ^ 53 :: real)"
    by (metis of_int_le_iff of_int_numeral of_int_power)
  then show "fl x \<le> 2 powr of_int (?e + 53)"
    using assms by (simp add: fl_def powr_add powr_realpow)
qed

lemma fl_pos: "0 < x \<Longrightarrow> 0 < fl x"
  by (rule less_le_trans [OF _ fl_pos_bounds(1)]) simp_all

lemma fl_mono_pos:
  assumes "0 < x" "x \<le> y"
  shows "fl x \<le> fl y"
proof (cases "ulp_exp x = ulp_exp y")
  case True
  have "rne (x / 2 powr of_int (ulp_exp y)) \<le> rne (y / 2 powr of_int (ulp_exp y))"
    using assms by (intro rne_mono) (simp add: divide_right_mono)
  with assms True show ?thesis
    by (simp add: fl_def mult_right_mono)
next
  case False
  have "log 2 x \<le> log 2 y" using assms by simp
  then have "ulp_exp x \<le> ulp_exp y"
    using assms by (simp add: ulp_exp_def floor_mono)
  with False have "ulp_exp x + 53 \<le> ulp_exp y + 52" by linarith
  then have "2 powr of_int (ulp_exp x + 53) \<le> (2 :: real) powr of_int (ulp_exp y + 52)"
    by (intro powr_mono) (simp_all del: of_int_add)
  then show ?thesis
    using fl_pos_bounds(2) [of x] fl_pos_bounds(1) [of y] assms by linarith
qed

lemma fl_mono:
  assumes "x \<le> y"
  shows "fl x \<le> fl y"
proof -
  consider "0 < x" | "x \<le> 0" "0 \<le> y" | "y < 0" by linarith
  then show ?thesis
  proof cases
    case 1
    then show ?thesis using assms by (rule fl_mono_pos)
  next
    case 2
    have "fl x \<le> 0"
      using 2 fl_pos [of "- x"] by (cases "x = 0") (auto simp: fl_neg)
    moreover have "0 \<le> fl y"
      using 2 fl_pos [of y] by (cases "y = 0") auto
    ultimately show ?thesis by linarith
  next
    case 3
    with assms have "fl (- y) \<le> fl (- x)" by (intro fl_mono_pos) auto
    then show ?thesis by (simp add: fl_neg)
  qed
qed

lemma fl_error: "\<bar>fl x - x\<bar> \<le> \<bar>x\<bar> / 2 ^ 53"
proof (cases "x = 0")
  case False
  let ?u = "2 powr of_int (ulp_exp x) :: real"
  have "\<bar>of_int (rne (x / ?u)) - x / ?u\<bar> * ?u \<le> 1 / 2 * ?u"
    by (intro mult_right_mono rne_error) simp
  moreover have "\<bar>of_int (rne (x / ?u)) - x / ?u\<bar> * ?u = \<bar>fl x - x\<bar>"
  proof -
    have "\<bar>of_int (rne (x / ?u)) - x / ?u\<bar> * ?u = \<bar>(of_int (rne (x / ?u)) - x / ?u) * ?u\<bar>"
      by (simp add: abs_mult)
    also have "(of_int (rne (x / ?u)) - x / ?u) * ?u = fl x - x"
      using False by (simp add: fl_def left_diff_distrib)
    finally show ?thesis .
  qed
  moreover have "2 ^ 52 * ?u \<le> \<bar>x\<bar>"
    using ulp_bounds(1) [of "\<bar>x\<bar>"] False
    by (simp add: field_simps ulp_exp_def)
  ultimately show ?thesis by simp
qed simp

text \<open>Every \<open>m * 2 ^ k\<close> with \<open>\<bar>m\<bar> \<le> 2 ^ 53\<close> is a double.\<close>

lemma fl_representable_pos:
  assumes "x = of_int m * 2 powr of_int k" "0 < m" "m \<le> 2 ^ 53"
  shows "fl x = x"
proof -
  have x: "0 < x" using assms by simp
  have lx: "log 2 x = log 2 (of_int m) + of_int k"
    using assms by (simp add: log_mult)
  show ?thesis
  proof (cases "m = 2 ^ 53")
    case True
    have "log 2 ((2 :: real) ^ 53) = 53"
      by (simp only: log_pow_cancel)
    then have "log 2 x = 53 + of_int k"
      using True lx by simp
    then have e: "ulp_exp x = k + 1" using x by (simp add: ulp_exp_def)
    have q: "x / 2 powr of_int (k + 1) = of_int (2 ^ 52)"
      using True assms(1) by (simp add: powr_add)
    then have "fl x = of_int (rne (of_int (2 ^ 52))) * 2 powr of_int (k + 1)"
      using x e by (simp add: fl_def)
    then show ?thesis
      using q by (simp add: field_simps del: of_int_power)
  next
    case False
    with assms have "m < 2 ^ 53" by simp
    then have "(of_int m :: real) < 2 ^ 53"
      by (metis of_int_less_iff of_int_numeral of_int_power)
    then have "log 2 (of_int m) < 53"
      using assms(2) by (simp add: log_less_iff powr_realpow flip: powr_realpow)
    then have "\<lfloor>log 2 x\<rfloor> \<le> 52 + k" using lx by linarith
    then have e: "ulp_exp x \<le> k" using x by (simp add: ulp_exp_def)
    then obtain j where j: "k = ulp_exp x + int j" by (metis zle_iff_zadd)
    have "x / 2 powr of_int (ulp_exp x) = of_int (m * 2 ^ j)"
    proof -
      have "x = of_int m * (2 powr of_int (ulp_exp x) * 2 ^ j)"
        using assms(1) by (subst (asm) j) (simp add: powr_add powr_realpow)
      then have "x / 2 powr of_int (ulp_exp x) =
          of_int m * (2 powr of_int (ulp_exp x) * 2 ^ j) / 2 powr of_int (ulp_exp x)"
        by (rule arg_cong)
      then show ?thesis by simp
    qed
    then have r: "rne (x / 2 powr of_int (ulp_exp x)) = m * 2 ^ j"
      by (metis rne_of_int)
    show ?thesis
      using x \<open>x / 2 powr of_int (ulp_exp x) = of_int (m * 2 ^ j)\<close>
      by (simp add: fl_def r field_simps)
  qed
qed

lemma fl_representable:
  assumes "x = of_int m * 2 powr of_int k" "\<bar>m\<bar> \<le> 2 ^ 53"
  shows "fl x = x"
proof -
  consider "m = 0" | "0 < m" | "0 < - m" by linarith
  then show ?thesis
  proof cases
    case 3
    have "fl (- x) = - x"
      by (rule fl_representable_pos [of _ "- m" k]) (use assms 3 in auto)
    then show ?thesis by (simp add: fl_neg)
  qed (use assms in \<open>auto intro: fl_representable_pos\<close>)
qed

lemma fl_of_int: "\<bar>n\<bar> \<le> 2 ^ 53 \<Longrightarrow> fl (of_int n) = of_int n"
  by (rule fl_representable [of _ n 0]) simp_all

lemma fl_half: "\<bar>n\<bar> \<le> 2 ^ 53 \<Longrightarrow> fl (of_int n / 2) = of_int n / 2"
  by (rule fl_representable [of _ n "-1"]) (simp_all add: powr_minus)

section \<open>Operators and \<open>Math\<close> functions\<close>

text \<open>Operands and results are doubles; each operator rounds once.\<close>

definition js_add :: "real \<Rightarrow> real \<Rightarrow> real" where "js_add a b = fl (a + b)"
definition js_mul :: "real \<Rightarrow> real \<Rightarrow> real" where "js_mul a b = fl (a * b)"
definition js_div :: "real \<Rightarrow> real \<Rightarrow> real" where "js_div a b = fl (a / b)"

text \<open>\<open>Math.round\<close>: the nearest integer, ties towards plus infinity.\<close>

definition math_round :: "real \<Rightarrow> int" where "math_round x = \<lfloor>x + 1 / 2\<rfloor>"

definition math_floor :: "real \<Rightarrow> int" where "math_floor x = \<lfloor>x\<rfloor>"

text \<open>\<open>Math.round((a * b) / c)\<close> and \<open>Math.floor((a * b) / c)\<close> on integer operands.\<close>

definition round_mul_div :: "int \<Rightarrow> int \<Rightarrow> int \<Rightarrow> int" where
  "round_mul_div a b c = math_round (js_div (js_mul (of_int a) (of_int b)) (of_int c))"

definition floor_mul_div :: "int \<Rightarrow> int \<Rightarrow> int \<Rightarrow> int" where
  "floor_mul_div a b c = math_floor (js_div (js_mul (of_int a) (of_int b)) (of_int c))"

lemma math_round_of_int [simp]: "math_round (of_int n) = n"
  by (simp add: math_round_def floor_add_int [symmetric])

lemma js_mul_exact: "\<bar>a * b\<bar> \<le> 2 ^ 53 \<Longrightarrow> js_mul (of_int a) (of_int b) = of_int (a * b)"
  by (metis fl_of_int js_mul_def of_int_mult)

text \<open>
  The rounded quotient falls on the same side of every half-integer as the exact one: a
  half-integer is itself a double, and a quotient below it is below by at least \<open>1 / (2c)\<close>,
  more than the rounding can move it.
\<close>

lemma fl_quotient_error:
  fixes n c :: int
  assumes "0 < c" "\<bar>n\<bar> < 2 ^ 52"
  shows "\<bar>fl (of_int n / of_int c) - of_int n / of_int c\<bar> < 1 / (2 * of_int c)"
proof -
  have "(of_int \<bar>n\<bar> :: real) < 2 ^ 52"
    using assms(2) by (metis of_int_less_iff of_int_numeral of_int_power)
  then have "of_int \<bar>n\<bar> / 2 ^ 53 < (1 / 2 :: real)" by simp
  then have "of_int \<bar>n\<bar> / 2 ^ 53 / of_int c < (1 / 2 / of_int c :: real)"
    using assms(1) by (intro divide_strict_right_mono) simp_all
  moreover have "\<bar>of_int n / of_int c :: real\<bar> / 2 ^ 53 = of_int \<bar>n\<bar> / 2 ^ 53 / of_int c"
    using assms(1) by (simp add: abs_divide)
  moreover have "1 / 2 / of_int c = (1 / (2 * of_int c) :: real)" by simp
  ultimately have "\<bar>of_int n / of_int c :: real\<bar> / 2 ^ 53 < 1 / (2 * of_int c)"
    by (simp only:)
  then show ?thesis
    using fl_error [of "of_int n / of_int c"] by linarith
qed

lemma fl_quotient_less:
  fixes n c k :: int
  assumes "0 < c" "\<bar>n\<bar> < 2 ^ 52" "2 * n < k * c"
  shows "fl (of_int n / of_int c) < of_int k / 2"
proof -
  have "2 * n + 1 \<le> k * c" using assms(3) by simp
  then have "real_of_int (2 * n + 1) \<le> real_of_int (k * c)"
    by (rule of_int_le_iff [THEN iffD2])
  then have "2 * real_of_int n + 1 \<le> of_int k / 2 * (2 * of_int c)" by simp
  then have "(2 * real_of_int n + 1) / (2 * of_int c) \<le> of_int k / 2"
    using assms(1) by (intro iffD2 [OF pos_divide_le_eq]) simp_all
  moreover have "(2 * real_of_int n + 1) / (2 * of_int c) = of_int n / of_int c + 1 / (2 * of_int c)"
    by (simp add: add_divide_distrib)
  ultimately have "of_int n / of_int c + 1 / (2 * of_int c) \<le> (of_int k / 2 :: real)"
    by simp
  then show ?thesis
    using fl_quotient_error [OF assms(1,2)] by linarith
qed

lemma fl_quotient_ge:
  fixes n c k :: int
  assumes "0 < c" "\<bar>k\<bar> \<le> 2 ^ 53" "k * c \<le> 2 * n"
  shows "of_int k / 2 \<le> fl (of_int n / of_int c)"
proof -
  have "(of_int k * of_int c :: real) \<le> 2 * of_int n"
    using assms(3) by (metis of_int_le_iff of_int_mult of_int_numeral)
  then have "of_int k / 2 \<le> (of_int n / of_int c :: real)"
    using assms(1) by (simp add: pos_le_divide_eq)
  then have "fl (of_int k / 2) \<le> fl (of_int n / of_int c)"
    by (rule fl_mono)
  then show ?thesis
    by (simp only: fl_half [OF assms(2)])
qed

lemma div_bounds:
  fixes n c :: int
  assumes "0 < c"
  shows "n div c * c \<le> n" "n < (n div c + 1) * c"
proof -
  have "n = n div c * c + n mod c" "0 \<le> n mod c" "n mod c < c"
    using assms by simp_all
  then show "n div c * c \<le> n" "n < (n div c + 1) * c"
    unfolding distrib_right mult_1 by linarith+
qed

lemma half_div_bounds:
  fixes n c :: int
  assumes "0 < c"
  shows "(2 * ((2 * n + c) div (2 * c)) - 1) * c \<le> 2 * n"
    "2 * n < (2 * ((2 * n + c) div (2 * c)) + 1) * c"
  using div_bounds [of "2 * c" "2 * n + c"] assms by (simp_all add: algebra_simps)

lemma quotient_bound:
  fixes n c :: int
  assumes "0 < c" "\<bar>n\<bar> < 2 ^ 52"
  shows "\<bar>2 * ((2 * n + c) div (2 * c)) - 1\<bar> \<le> 2 ^ 53" "\<bar>2 * (n div c)\<bar> \<le> 2 ^ 53"
proof -
  define q where "q = (2 * n + c) div (2 * c)"
  define p where "p = n div c"
  have n: "n < 4503599627370496" "- 4503599627370496 < n" using assms(2) by simp_all
  note p = div_bounds [OF assms(1), of n, folded p_def]
    and q = half_div_bounds [OF assms(1), of n, folded q_def]
  have "2 * q - 1 \<le> 9007199254740992"
  proof (cases "0 < q")
    case True
    then have "(2 * q - 1) * 1 \<le> (2 * q - 1) * c"
      using assms(1) by (intro mult_left_mono) auto
    from order_trans [OF this q(1)] n(1) show ?thesis by simp
  qed linarith
  moreover have "- 9007199254740992 \<le> 2 * q - 1"
  proof (cases "q < 0")
    case True
    then have "(2 * q + 1) * c \<le> (2 * q + 1) * 1"
      using assms(1) by (intro mult_left_mono_neg) auto
    from less_le_trans [OF q(2) this] n(2) show ?thesis by simp
  qed linarith
  ultimately show "\<bar>2 * ((2 * n + c) div (2 * c)) - 1\<bar> \<le> 2 ^ 53"
    unfolding q_def [symmetric] by simp
  have "p \<le> 4503599627370496"
  proof (cases "0 \<le> p")
    case True
    then have "p * 1 \<le> p * c"
      using assms(1) by (intro mult_left_mono) auto
    from order_trans [OF this p(1)] n(1) show ?thesis by simp
  qed linarith
  moreover have "- 4503599627370496 \<le> p"
  proof (cases "p + 1 \<le> 0")
    case True
    then have "(p + 1) * c \<le> (p + 1) * 1"
      using assms(1) by (intro mult_left_mono_neg) auto
    from less_le_trans [OF p(2) this] n(2) show ?thesis by simp
  qed linarith
  ultimately show "\<bar>2 * (n div c)\<bar> \<le> 2 ^ 53"
    unfolding p_def [symmetric] by simp
qed

lemma round_quotient_exact:
  fixes n c :: int
  assumes "0 < c" "\<bar>n\<bar> < 2 ^ 52"
  shows "math_round (fl (of_int n / of_int c)) = (2 * n + c) div (2 * c)"
proof -
  let ?q = "(2 * n + c) div (2 * c)"
  note q = half_div_bounds [OF assms(1), of n]
  have "of_int (2 * ?q - 1) / 2 \<le> fl (of_int n / of_int c)"
    by (rule fl_quotient_ge [OF assms(1) quotient_bound(1) [OF assms] q(1)])
  moreover have "fl (of_int n / of_int c) < of_int (2 * ?q + 1) / 2"
    by (rule fl_quotient_less [OF assms q(2)])
  ultimately show ?thesis
    unfolding math_round_def by (intro floor_unique) (simp_all add: field_simps)
qed

lemma floor_quotient_exact:
  fixes n c :: int
  assumes "0 < c" "\<bar>n\<bar> < 2 ^ 52"
  shows "math_floor (fl (of_int n / of_int c)) = n div c"
proof -
  let ?q = "n div c"
  note q = div_bounds [OF assms(1), of n]
  have "of_int (2 * ?q) / 2 \<le> fl (of_int n / of_int c)"
    by (rule fl_quotient_ge [OF assms(1) quotient_bound(2) [OF assms]]) (use q(1) in simp)
  moreover have "fl (of_int n / of_int c) < of_int (2 * (?q + 1)) / 2"
    by (rule fl_quotient_less [OF assms]) (use q(2) in \<open>simp only: mult.assoc\<close>)
  ultimately show ?thesis
    unfolding math_floor_def by (intro floor_unique) simp_all
qed

lemma round_mul_div_exact:
  assumes "0 < c" "\<bar>a * b\<bar> < 2 ^ 52"
  shows "round_mul_div a b c = (2 * (a * b) + c) div (2 * c)"
  using assms round_quotient_exact [of c "a * b"]
  by (simp add: round_mul_div_def js_div_def js_mul_exact)

lemma floor_mul_div_exact:
  assumes "0 < c" "\<bar>a * b\<bar> < 2 ^ 52"
  shows "floor_mul_div a b c = (a * b) div c"
  using assms floor_quotient_exact [of c "a * b"]
  by (simp add: floor_mul_div_def js_div_def js_mul_exact)

text \<open>Without any bound: the rounded share of a non-negative amount is non-negative.\<close>

lemma fl_nonneg: "0 \<le> x \<Longrightarrow> 0 \<le> fl x"
  using fl_mono [of 0 x] by simp

lemma round_mul_div_nonneg:
  assumes "0 \<le> a" "0 \<le> b" "0 < c"
  shows "0 \<le> round_mul_div a b c"
proof -
  have "0 \<le> js_div (js_mul (of_int a) (of_int b)) (of_int c)"
    using assms by (simp add: js_div_def js_mul_def fl_nonneg)
  then show ?thesis by (simp add: round_mul_div_def math_round_def)
qed

lemma floor_mul_div_nonneg:
  assumes "0 \<le> a" "0 \<le> b" "0 < c"
  shows "0 \<le> floor_mul_div a b c"
proof -
  have "0 \<le> js_div (js_mul (of_int a) (of_int b)) (of_int c)"
    using assms by (simp add: js_div_def js_mul_def fl_nonneg)
  then show ?thesis by (simp add: floor_mul_div_def math_floor_def)
qed

text \<open>A whole share is itself, and a share grows with either factor, however large the product.\<close>

lemma round_mul_div_full:
  assumes "0 \<le> b" "b \<le> 10 ^ 14" "0 < c"
  shows "round_mul_div c b c = b"
proof -
  let ?x = "of_int c * of_int b :: real" and ?c = "of_int c :: real" and ?b = "of_int b :: real"
  have c: "0 < ?c" and b: "0 \<le> ?b" using assms by simp_all
  have "?b \<le> of_int (10 ^ 14)" using assms(2) by (intro of_int_le_iff [THEN iffD2])
  then have b14: "?b \<le> 10 ^ 14" by simp
  have "\<bar>fl ?x - ?x\<bar> \<le> ?x / 2 ^ 53" using fl_error [of ?x] c b by (simp add: abs_mult)
  then have "\<bar>fl ?x - ?x\<bar> / ?c \<le> ?x / 2 ^ 53 / ?c" using c by (intro divide_right_mono) simp_all
  moreover have "\<bar>fl ?x - ?x\<bar> / ?c = \<bar>fl ?x / ?c - ?b\<bar>"
  proof -
    have "fl ?x / ?c - ?b = (fl ?x - ?x) / ?c" using c by (simp add: diff_divide_distrib)
    then show ?thesis using c by (simp add: abs_divide)
  qed
  moreover have "?x / 2 ^ 53 / ?c = ?b / 2 ^ 53" using c by simp
  ultimately have p: "\<bar>fl ?x / ?c - ?b\<bar> \<le> ?b / 2 ^ 53" by (simp only:)
  moreover have "?b / 2 ^ 53 \<le> ?b" using b by simp
  ultimately have up: "fl ?x / ?c \<le> 2 * ?b" by linarith
  have up0: "0 \<le> fl ?x / ?c" using b c fl_nonneg [of ?x] by simp
  have "\<bar>fl (fl ?x / ?c) - fl ?x / ?c\<bar> \<le> 2 * ?b / 2 ^ 53"
  proof (rule order_trans [OF fl_error])
    show "\<bar>fl ?x / ?c\<bar> / 2 ^ 53 \<le> 2 * ?b / 2 ^ 53" 
      by (rule divide_right_mono) (use up up0 in linarith, simp)
  qed
  then have "\<bar>fl (fl ?x / ?c) - ?b\<bar> \<le> 3 * ?b / 2 ^ 53" using p by linarith
  also have "\<dots> < 1 / 2" using b14 by simp
  finally have "\<bar>fl (fl ?x / ?c) - ?b\<bar> < 1 / 2" .
  then have "\<lfloor>fl (fl ?x / ?c) + 1 / 2\<rfloor> = b"
    by (intro floor_unique; linarith)
  then show ?thesis by (simp add: round_mul_div_def math_round_def js_div_def js_mul_def)
qed

lemma round_mul_div_mono:
  assumes "a \<le> a'" "0 \<le> a" "0 \<le> b" "b \<le> b'" "0 < c"
  shows "round_mul_div a b c \<le> round_mul_div a' b' c"
proof -
  have "(of_int a * of_int b :: real) \<le> of_int a' * of_int b'"
    using assms by (intro mult_mono) simp_all
  then have "fl (of_int a * of_int b) / of_int c \<le> fl (of_int a' * of_int b') / of_int c"
    using fl_mono assms(5) by (simp add: divide_right_mono)
  then show ?thesis
    by (simp add: round_mul_div_def math_round_def js_div_def js_mul_def fl_mono floor_mono)
qed

lemma round_mul_div_commute: "round_mul_div a b c = round_mul_div b a c"
  by (simp add: round_mul_div_def js_mul_def mult.commute)

text \<open>A share of a part is at most the whole, on either side.\<close>

lemma round_mul_div_le:
  assumes "0 \<le> a" "a \<le> c" "0 \<le> b" "b \<le> 10 ^ 14" "0 < c"
  shows "round_mul_div a b c \<le> b"
  using round_mul_div_mono [of a c b b c] round_mul_div_full [of b c] assms by simp

end
