(* ===== verification/Js_Value.thy ===== *)
theory Js_Value
  imports Js_Number
begin

text \<open>
  The values a request body may hold, the errors the server answers with, and decimal
  text. A body arrives as parsed JSON: any of the constructors below can stand where a
  string or a number is expected, and the parsers test for it. Strings are their
  UTF-8 bytes; the white space that \<open>String.prototype.trim\<close> removes is the ASCII part
  of it. Numbers are doubles (\<open>Js_Number\<close>), with the three special
  values, since \<open>JSON.parse\<close> answers an infinity for a literal such as \<open>1e999\<close>.
\<close>

section \<open>Errors\<close>

text \<open>
  What the filter of \<open>src/server/src/common/http-exception.filter.ts\<close> renders: an
  \<open>HttpException\<close> is its status, its code and its details (messages, which are Thai or
  English prose, are left out); any other exception is a fault, \<open>500 INTERNAL_ERROR\<close>. \<open>DbErr\<close> is an
  error Postgres raised, with its SQLSTATE and the constraint it names, until some
  handler maps it.
\<close>

datatype detail =
    NoDetail
  | Field string
  | Totals int int
  | StockLines "(string \<times> int option \<times> int) list"
  | CreditLimit int int int
  | PriceLines "(string \<times> int \<times> int list) list"
  | RefundLines "(string \<times> int option \<times> int) list"
  | Cash int
  | ShiftRef string
  | Overpay int int int
  | IdClash string string
  | SaleRef "string option"
  | Instant int
  | LooseLines "int list"
  | Reason string
  | RetryAfter int
  | Unsynced int "int option"
  | DeviceRef "string option"

datatype err =
    HttpErr nat string detail
  | Fault string
  | DbErr string string

definition bad_request :: "string \<Rightarrow> err" where
  "bad_request field = HttpErr 400 ''BAD_REQUEST'' (Field field)"

definition client_id_reused :: "string \<Rightarrow> string \<Rightarrow> err" where
  "client_id_reused kind i = HttpErr 409 ''CLIENT_ID_REUSED'' (IdClash kind i)"

definition device_role_forbidden :: err where
  "device_role_forbidden = HttpErr 403 ''DEVICE_ROLE_FORBIDDEN'' NoDetail"

fun err_status :: "err \<Rightarrow> nat" where
  "err_status (HttpErr n _ _) = n"
| "err_status (Fault _) = 500"
| "err_status (DbErr _ _) = 500"

fun err_code :: "err \<Rightarrow> string" where
  "err_code (HttpErr _ c _) = c"
| "err_code (Fault _) = ''INTERNAL_ERROR''"
| "err_code (DbErr _ _) = ''INTERNAL_ERROR''"

section \<open>Values\<close>

datatype jsnum = Fin real | PosInf | NegInf | NaN

datatype jsval =
    JUndef
  | JNull
  | JBool bool
  | JNum jsnum
  | JStr string
  | JArr "jsval list"
  | JObj "(string \<times> jsval) list"

text \<open>Reading a property: an absent one is \<open>undefined\<close>; the last of two equal names wins.\<close>

definition get_prop :: "(string \<times> jsval) list \<Rightarrow> string \<Rightarrow> jsval" where
  "get_prop b k = (case map_of (rev b) k of None \<Rightarrow> JUndef | Some v \<Rightarrow> v)"

definition is_nullish :: "jsval \<Rightarrow> bool" where
  "is_nullish v \<longleftrightarrow> v = JUndef \<or> v = JNull"

text \<open>\<open>value ?? alternative\<close>\<close>

definition or_else :: "jsval \<Rightarrow> jsval \<Rightarrow> jsval" where
  "or_else v w = (if is_nullish v then w else v)"

text \<open>\<open>typeof v === 'number' && Number.isInteger(v)\<close>, with the integer it is.\<close>

definition js_integer :: "jsval \<Rightarrow> int option" where
  "js_integer v = (case v of JNum (Fin r) \<Rightarrow> if r = of_int \<lfloor>r\<rfloor> then Some \<lfloor>r\<rfloor> else None | _ \<Rightarrow> None)"

lemma js_integer_Some: "js_integer v = Some n \<longleftrightarrow> v = JNum (Fin (of_int n))"
  by (auto simp: js_integer_def split: jsval.splits jsnum.splits)

section \<open>Text\<close>

definition is_space :: "char \<Rightarrow> bool" where
  "is_space c \<longleftrightarrow> (let n = of_char c :: nat in (9 \<le> n \<and> n \<le> 13) \<or> n = 32)"

definition trim :: "string \<Rightarrow> string" where
  "trim s = rev (dropWhile is_space (rev (dropWhile is_space s)))"

lemma trim_id:
  assumes "s \<noteq> [] \<Longrightarrow> \<not> is_space (hd s) \<and> \<not> is_space (last s)"
  shows "trim s = s"
proof (cases "s = []")
  case False
  with assms have "dropWhile is_space s = s"
    by (cases s) auto
  moreover have "dropWhile is_space (rev s) = rev s"
    using False assms by (cases "rev s") (auto simp: hd_rev [symmetric])
  ultimately show ?thesis by (simp add: trim_def)
qed (simp add: trim_def)

lemma trim_idem: "trim (trim s) = trim s"
proof (rule trim_id)
  let ?a = "dropWhile is_space s"
  assume ne: "trim s \<noteq> []"
  then have "dropWhile is_space (rev ?a) \<noteq> []" by (simp add: trim_def)
  then have l: "\<not> is_space (hd (dropWhile is_space (rev ?a)))"
    by (metis hd_dropWhile)
  have a: "?a \<noteq> []" using ne by (auto simp: trim_def dest: set_dropWhileD)
  then have h: "\<not> is_space (hd ?a)" by (metis hd_dropWhile)
  obtain ys where ys: "?a = trim s @ ys"
    by (metis rev_append rev_rev_ident takeWhile_dropWhile_id trim_def)
  have "hd (trim s) = hd ?a" using ys ne by (metis hd_append2)
  with h l show "\<not> is_space (hd (trim s)) \<and> \<not> is_space (last (trim s))"
    by (simp add: trim_def last_rev)
qed

subsection \<open>Decimal digits\<close>

definition is_digit :: "char \<Rightarrow> bool" where
  "is_digit c \<longleftrightarrow> 48 \<le> (of_char c :: nat) \<and> (of_char c :: nat) \<le> 57"

definition digit_char :: "nat \<Rightarrow> char" where
  "digit_char d = char_of (48 + d)"

definition digit_val :: "char \<Rightarrow> nat" where
  "digit_val c = of_char c - 48"

lemma digit_val_char [simp]: "d < 10 \<Longrightarrow> digit_val (digit_char d) = d"
  by (simp add: digit_val_def digit_char_def of_char_of)

lemma is_digit_char [simp]: "d < 10 \<Longrightarrow> is_digit (digit_char d)"
  by (simp add: is_digit_def digit_char_def of_char_of)

lemma digit_not_space: "is_digit c \<Longrightarrow> \<not> is_space c"
  by (auto simp: is_digit_def is_space_def Let_def)

fun show_nat :: "nat \<Rightarrow> string" where
  "show_nat n = (if n < 10 then [digit_char n] else show_nat (n div 10) @ [digit_char (n mod 10)])"

declare show_nat.simps [simp del]

definition digits_val :: "string \<Rightarrow> nat" where
  "digits_val s = foldl (\<lambda>n c. 10 * n + digit_val c) 0 s"

lemma digits_val_snoc [simp]: "digits_val (s @ [c]) = 10 * digits_val s + digit_val c"
  by (simp add: digits_val_def)

lemma digits_val_Nil [simp]: "digits_val [] = 0"
  by (simp add: digits_val_def)

lemma show_nat_digits: "\<forall>c \<in> set (show_nat n). is_digit c"
proof (induction n rule: show_nat.induct)
  case (1 n)
  then show ?case by (subst show_nat.simps) auto
qed

lemma show_nat_nonempty: "show_nat n \<noteq> []"
  by (subst show_nat.simps) simp

lemma digits_val_show_nat [simp]: "digits_val (show_nat n) = n"
proof (induction n rule: show_nat.induct)
  case (1 n)
  show ?case
  proof (cases "n < 10")
    case True
    then have "show_nat n = [] @ [digit_char n]" by (subst show_nat.simps) simp
    then show ?thesis using True by (simp only: digits_val_snoc) simp
  next
    case False
    then show ?thesis using "1.IH" by (subst show_nat.simps) simp
  qed
qed

lemma show_nat_inj: "show_nat m = show_nat n \<Longrightarrow> m = n"
  by (metis digits_val_show_nat)

lemma length_show_nat_mono:
  assumes "0 < k" "n < 10 ^ k"
  shows "length (show_nat n) \<le> k"
  using assms
proof (induction n arbitrary: k rule: show_nat.induct)
  case (1 n)
  show ?case
  proof (cases "n < 10")
    case True
    then show ?thesis using 1 by (subst show_nat.simps) simp
  next
    case False
    with 1(3) have "k \<noteq> 1" by auto
    with 1(2) obtain j where k: "k = Suc j" "0 < j" by (cases k) auto
    with 1(3) have "n div 10 < 10 ^ j" by (simp add: less_mult_imp_div_less mult.commute)
    from 1(1) [OF False k(2) this] False k(1) show ?thesis by (subst show_nat.simps) simp
  qed
qed

text \<open>\<open>String(n).padStart(k, '0')\<close>\<close>

definition pad_start :: "nat \<Rightarrow> string \<Rightarrow> string" where
  "pad_start k s = replicate (k - length s) (digit_char 0) @ s"

lemma digits_val_zeros: "digits_val (replicate k (digit_char 0) @ s) = digits_val s"
  by (induction k) (simp_all add: digits_val_def)

lemma digits_val_pad [simp]: "digits_val (pad_start k s) = digits_val s"
  by (simp add: pad_start_def digits_val_zeros)

lemma pad_start_digits: "\<forall>c \<in> set s. is_digit c \<Longrightarrow> \<forall>c \<in> set (pad_start k s). is_digit c"
  by (auto simp: pad_start_def)

lemma length_pad_start: "length s \<le> k \<Longrightarrow> length (pad_start k s) = k"
  by (simp add: pad_start_def)

definition item_field :: "nat \<Rightarrow> string \<Rightarrow> string" where
  "item_field i f = ''items['' @ show_nat i @ ''].'' @ f"

section \<open>The hand-written validators\<close>

text \<open>The small validators every \<open>*.dto.ts\<close> repeats.\<close>

definition as_object :: "jsval \<Rightarrow> string \<Rightarrow> err + (string \<times> jsval) list" where
  "as_object v field = (case v of JObj b \<Rightarrow> Inr b | _ \<Rightarrow> Inl (bad_request field))"

definition required_string :: "jsval \<Rightarrow> string \<Rightarrow> err + string" where
  "required_string v field =
     (case v of JStr s \<Rightarrow> if trim s = [] then Inl (bad_request field) else Inr s
      | _ \<Rightarrow> Inl (bad_request field))"

definition optional_string :: "jsval \<Rightarrow> string \<Rightarrow> err + string option" where
  "optional_string v field =
     (if is_nullish v \<or> v = JStr [] then Inr None
      else case v of JStr s \<Rightarrow> Inr (Some s) | _ \<Rightarrow> Inl (bad_request field))"

definition boolean_or_false :: "jsval \<Rightarrow> string \<Rightarrow> err + bool" where
  "boolean_or_false v field =
     (if is_nullish v then Inr False
      else case v of JBool b \<Rightarrow> Inr b | _ \<Rightarrow> Inl (bad_request field))"

end
