(* ===== verification/Money.thy ===== *)
theory Money
  imports Js_Value
begin

text \<open>
  Money (\<open>common/money.ts\<close>) and the receiving cost rule (\<open>purchasing/weighted-average.ts\<close>).
  An amount is a decimal string on the wire, \<open>NUMERIC\<close> in Postgres and integer satang in
  the server. The lemmas show that no amount is lost in the conversions, and that is what
  lets the other theories keep the database's amounts as integers of satang.
\<close>

section \<open>Between text and satang\<close>

text \<open>\<open>NUMERIC(12,2)\<close>: ten digits before the point.\<close>

definition MAX_SATANG :: int where "MAX_SATANG = 999999999999"

text \<open>
  The test \<open>/^-?\d+(\.\d{1,2})?$/\<close>: a sign, the digits before the point and those after.
\<close>

definition split_decimal :: "string \<Rightarrow> (bool \<times> string \<times> string) option" where
  "split_decimal s =
     (let neg = (s \<noteq> [] \<and> hd s = CHR ''-''); r = (if neg then tl s else s);
          ds = takeWhile is_digit r; rest = dropWhile is_digit r in
      if ds = [] then None
      else case rest of
        [] \<Rightarrow> Some (neg, ds, [])
      | c # fs \<Rightarrow>
          if c = CHR ''.'' \<and> fs \<noteq> [] \<and> length fs \<le> 2 \<and> list_all is_digit fs
          then Some (neg, ds, fs) else None)"

text \<open>\<open>Number(text)\<close> of such a text: the double nearest to the decimal value.\<close>

definition decimal_value :: "bool \<times> string \<times> string \<Rightarrow> real" where
  "decimal_value d = (case d of (neg, ds, fs) \<Rightarrow>
     let v = of_nat (digits_val ds) + of_nat (digits_val fs) / 10 ^ length fs in
     if neg then - v else v)"

definition number_of_decimal :: "bool \<times> string \<times> string \<Rightarrow> real" where
  "number_of_decimal d = fl (decimal_value d)"

definition parse_money :: "jsval \<Rightarrow> string \<Rightarrow> err + int" where
  "parse_money v field =
     (case v of
        JNum (Fin x) \<Rightarrow>
          let satang = js_mul x 100 in
          if fl (1 / 10 ^ 6) < \<bar>fl (satang - of_int (math_round satang))\<bar>
          then Inl (bad_request field)
          else Inr (math_round satang)
      | JStr s \<Rightarrow>
          (case split_decimal (trim s) of
             None \<Rightarrow> Inl (bad_request field)
           | Some d \<Rightarrow> Inr (math_round (js_mul (number_of_decimal d) 100)))
      | _ \<Rightarrow> Inl (bad_request field))"

definition to_satang :: "jsval \<Rightarrow> string \<Rightarrow> err + int" where
  "to_satang v field =
     e_bind (parse_money v field) (\<lambda>satang.
       if MAX_SATANG < \<bar>satang\<bar> then Inl (bad_request field) else Inr satang)"

text \<open>
  A \<open>NUMERIC(_, 2)\<close> column holds a whole number of satang; \<open>pg\<close> hands it over as the
  decimal text, and \<open>satangOf\<close> reads it back.
\<close>

definition satang_of_number :: "real \<Rightarrow> int" where
  "satang_of_number x = math_round (js_mul x 100)"

definition satang_of :: "string \<Rightarrow> int option" where
  "satang_of s = map_option (\<lambda>d. satang_of_number (number_of_decimal d)) (split_decimal s)"

definition from_satang :: "int \<Rightarrow> string" where
  "from_satang n =
     (let abs = nat \<bar>n\<bar> in
      (if n < 0 then ''-'' else []) @ show_nat (abs div 100) @ ''.'' @
      pad_start 2 (show_nat (abs mod 100)))"

text \<open>Loyalty points.\<close>

definition points_for :: "int \<Rightarrow> int" where
  "points_for total_satang = math_floor (js_div (of_int total_satang) 1000)"

section \<open>No amount is lost\<close>

lemma satang_of_number_exact:
  fixes n :: int
  assumes "\<bar>n\<bar> \<le> 10 ^ 14"
  shows "satang_of_number (fl (of_int n / 100)) = n"
proof -
  have a: "\<bar>real_of_int n\<bar> \<le> 10 ^ 14"
    using assms by (metis of_int_abs of_int_le_iff of_int_numeral of_int_power)
  define x where "x = fl (of_int n / 100)"
  have e1: "\<bar>x - of_int n / 100\<bar> \<le> \<bar>real_of_int n / 100\<bar> / 2 ^ 53"
    unfolding x_def by (rule fl_error)
  have e2: "\<bar>fl (x * 100) - x * 100\<bar> \<le> \<bar>x * 100\<bar> / 2 ^ 53"
    by (rule fl_error)
  have "\<bar>real_of_int n / 100\<bar> / 2 ^ 53 \<le> 10 ^ 14 / 100 / 2 ^ 53"
    using a by (intro divide_right_mono) (simp_all add: abs_divide)
  from order_trans [OF e1 this] have e1': "\<bar>x - of_int n / 100\<bar> \<le> 1 / 9007"
    by (rule order_trans) simp
  have "\<bar>x * 100\<bar> \<le> 10 ^ 14 + 1" proof -
    have "x - of_int n / 100 \<le> 1 / 9007" "- (x - of_int n / 100) \<le> 1 / 9007"
      "real_of_int n \<le> 100000000000000" "- real_of_int n \<le> 100000000000000"
      using e1' a by (simp_all only: abs_le_iff) simp_all
    then show ?thesis unfolding abs_le_iff by simp
  qed
  then have "\<bar>x * 100\<bar> / 2 ^ 53 \<le> (10 ^ 14 + 1) / 2 ^ 53" by (rule divide_right_mono) simp
  from order_trans [OF e2 this] have e2': "\<bar>fl (x * 100) - x * 100\<bar> \<le> 1 / 50"
    by (rule order_trans) simp
  have "\<bar>fl (x * 100) - of_int n\<bar> < 1 / 2"
    using e1' e2' unfolding abs_le_iff abs_less_iff by linarith
  then have "\<lfloor>fl (x * 100) + 1 / 2\<rfloor> = n"
    by (intro floor_unique; linarith)
  then show ?thesis
    by (simp add: satang_of_number_def math_round_def js_mul_def x_def)
qed

lemma hd_show_nat: "is_digit (hd (show_nat n))"
  using show_nat_digits [of n] show_nat_nonempty [of n] by (metis hd_in_set)

lemma minus_not_digit [simp]: "\<not> is_digit CHR ''-''"
  and point_not_digit [simp]: "\<not> is_digit CHR ''.''"
  by (simp_all add: is_digit_def)

lemma split_from_satang:
  "split_decimal (from_satang n) =
     Some (n < 0, show_nat (nat \<bar>n\<bar> div 100), pad_start 2 (show_nat (nat \<bar>n\<bar> mod 100)))"
proof -
  define ds where "ds = show_nat (nat \<bar>n\<bar> div 100)"
  define fs where "fs = pad_start 2 (show_nat (nat \<bar>n\<bar> mod 100))"
  have ds: "ds \<noteq> []" "\<forall>c \<in> set ds. is_digit c" "is_digit (hd ds)"
    by (simp_all add: ds_def show_nat_nonempty show_nat_digits hd_show_nat)
  have "length (show_nat (nat \<bar>n\<bar> mod 100)) \<le> 2"
    by (rule length_show_nat_mono) simp_all
  then have fs: "length fs = 2" "list_all is_digit fs"
    using pad_start_digits [OF show_nat_digits] by (simp_all add: fs_def length_pad_start list_all_iff)
  have tw: "takeWhile is_digit (ds @ CHR ''.'' # fs) = ds"
    "dropWhile is_digit (ds @ CHR ''.'' # fs) = CHR ''.'' # fs"
    using ds by (simp_all add: takeWhile_append dropWhile_append)
  have "hd ds \<noteq> CHR ''-''" using ds(3) by auto
  then show ?thesis
    using ds fs tw
    by (simp add: from_satang_def split_decimal_def ds_def [symmetric] fs_def [symmetric] Let_def)
      (cases fs; simp)
qed

lemma decimal_value_from_satang:
  "decimal_value (n < 0, show_nat (nat \<bar>n\<bar> div 100), pad_start 2 (show_nat (nat \<bar>n\<bar> mod 100)))
     = of_int n / 100"
proof -
  define m where "m = nat \<bar>n\<bar>"
  have l: "length (pad_start 2 (show_nat (m mod 100))) = 2"
    by (intro length_pad_start length_show_nat_mono) simp_all
  have "real m = 100 * real (m div 100) + real (m mod 100)"
    by (metis mult_div_mod_eq of_nat_add of_nat_mult of_nat_numeral)
  then have "real (m div 100) + real (m mod 100) / 10 ^ 2 = real m / 100"
    by simp
  moreover have "real m = (if n < 0 then - of_int n else of_int n)"
    by (simp add: m_def)
  ultimately have "(let v = real (m div 100) + real (m mod 100) / 10 ^ 2 in
      if n < 0 then - v else v) = of_int n / 100"
    unfolding Let_def by (simp only:) simp
  then show ?thesis
    by (simp add: decimal_value_def m_def [symmetric] l del: power2_eq_square)
qed

lemma satang_of_from_satang: "\<bar>n\<bar> \<le> 10 ^ 14 \<Longrightarrow> satang_of (from_satang n) = Some n"
  by (simp add: satang_of_def split_from_satang number_of_decimal_def decimal_value_from_satang
      satang_of_number_exact)

lemma from_satang_trim: "trim (from_satang n) = from_satang n"
proof (rule trim_id)
  assume "from_satang n \<noteq> []"
  let ?fs = "pad_start 2 (show_nat (nat \<bar>n\<bar> mod 100))"
  have "\<forall>c \<in> set ?fs. is_digit c" by (intro pad_start_digits show_nat_digits)
  moreover have "?fs \<noteq> []" by (simp add: pad_start_def show_nat_nonempty)
  ultimately have l: "is_digit (last ?fs)" by (metis last_in_set)
  have "last (from_satang n) = last ?fs"
    using \<open>?fs \<noteq> []\<close> by (simp add: from_satang_def Let_def)
  moreover have "hd (from_satang n) = (if n < 0 then CHR ''-'' else hd (show_nat (nat \<bar>n\<bar> div 100)))"
    by (simp add: from_satang_def Let_def hd_append show_nat_nonempty)
  ultimately show "\<not> is_space (hd (from_satang n)) \<and> \<not> is_space (last (from_satang n))"
    using l digit_not_space hd_show_nat by (simp add: is_space_def [of "CHR ''-''"])
qed

lemma to_satang_from_satang:
  assumes "\<bar>n\<bar> \<le> MAX_SATANG"
  shows "to_satang (JStr (from_satang n)) field = Inr n"
proof -
  have "\<bar>n\<bar> \<le> 10 ^ 14" using assms by (simp add: MAX_SATANG_def)
  then have "math_round (js_mul (fl (of_int n / 100)) 100) = n"
    using satang_of_number_exact by (simp add: satang_of_number_def)
  then show ?thesis
    using assms
    by (simp add: to_satang_def parse_money_def from_satang_trim split_from_satang
        number_of_decimal_def decimal_value_from_satang)
qed

lemma to_satang_bound: "to_satang v field = Inr n \<Longrightarrow> \<bar>n\<bar> \<le> MAX_SATANG"
  by (auto simp: to_satang_def split: if_splits)

lemma from_satang_inj:
  assumes "from_satang m = from_satang n"
  shows "m = n"
proof -
  have "decimal_value (the (split_decimal (from_satang m))) =
        decimal_value (the (split_decimal (from_satang n)))"
    using assms by simp
  then show ?thesis
    by (simp add: split_from_satang decimal_value_from_satang)
qed

lemma points_for_exact: "\<bar>t\<bar> < 2 ^ 52 \<Longrightarrow> points_for t = t div 1000"
  using floor_quotient_exact [of 1000 t] by (simp add: points_for_def js_div_def)

lemma points_for_nonneg: "0 \<le> t \<Longrightarrow> 0 \<le> points_for t"
  by (simp add: points_for_def js_div_def math_floor_def fl_nonneg)

section \<open>The weighted average cost\<close>

text \<open>\<open>BigInt\<close> division truncates towards zero; \<open>Number\<close> of a \<open>BigInt\<close> rounds once.\<close>

definition bigint_div :: "int \<Rightarrow> int \<Rightarrow> int" where
  "bigint_div a b = sgn a * sgn b * (\<bar>a\<bar> div \<bar>b\<bar>)"

definition number_of_bigint :: "int \<Rightarrow> int" where
  "number_of_bigint n = math_round (fl (of_int n))"

definition weighted_average_cost_satang :: "int \<Rightarrow> int \<Rightarrow> int \<Rightarrow> int \<Rightarrow> int" where
  "weighted_average_cost_satang old_stock old_cost new_qty line_cost =
     (let effective = (if 0 < line_cost then line_cost else old_cost);
          total_qty = old_stock + new_qty in
      if total_qty \<le> 0 then effective
      else let numerator = old_stock * old_cost + new_qty * effective in
           number_of_bigint (bigint_div (numerator * 2 + total_qty) (2 * total_qty)))"

lemma number_of_bigint_exact: "\<bar>n\<bar> \<le> 2 ^ 53 \<Longrightarrow> number_of_bigint n = n"
  by (simp add: number_of_bigint_def fl_of_int)

lemma bigint_div_nonneg: "0 \<le> a \<Longrightarrow> 0 < b \<Longrightarrow> bigint_div a b = a div b"
  by (auto simp: bigint_div_def sgn_if)

lemma div_ge_of_mult_le:
  fixes n c k :: int
  assumes "0 < c" "k * c \<le> n"
  shows "k \<le> n div c"
proof -
  have "k * c < (n div c + 1) * c" using assms div_bounds(2) [of c n] by linarith
  then show ?thesis using assms(1) by simp
qed

lemma div_less_of_less_mult:
  fixes n c k :: int
  assumes "0 < c" "n < k * c"
  shows "n div c < k"
proof -
  have "n div c * c < k * c" using assms div_bounds(1) [of c n] by linarith
  then show ?thesis using assms(1) by simp
qed

text \<open>
  The average of amounts between two bounds stays between them, in the rounded integer
  arithmetic of the code.
\<close>

lemma average_between:
  fixes a b :: int
  assumes "0 \<le> s" "0 < q" "lo \<le> a" "a \<le> hi" "lo \<le> b" "b \<le> hi"
  shows "lo \<le> (2 * (s * a + q * b) + (s + q)) div (2 * (s + q))"
    "(2 * (s * a + q * b) + (s + q)) div (2 * (s + q)) \<le> hi"
proof -
  have t: "0 < s + q" and q: "0 \<le> q" using assms by simp_all
  have "lo * (s + q) \<le> s * a + q * b"
    using mult_left_mono [OF assms(3,1)] mult_left_mono [OF assms(5) q]
    by (simp add: algebra_simps)
  then have "lo * (2 * (s + q)) \<le> 2 * (s * a + q * b) + (s + q)"
    using t by (simp add: algebra_simps)
  from div_ge_of_mult_le [OF _ this] t
  show "lo \<le> (2 * (s * a + q * b) + (s + q)) div (2 * (s + q))" by simp
  have "s * a + q * b \<le> hi * (s + q)"
    using mult_left_mono [OF assms(4,1)] mult_left_mono [OF assms(6) q]
    by (simp add: algebra_simps)
  then have "2 * (s * a + q * b) + (s + q) < (hi + 1) * (2 * (s + q))"
    using t by (simp add: algebra_simps)
  from div_less_of_less_mult [OF _ this] t
  show "(2 * (s * a + q * b) + (s + q)) div (2 * (s + q)) \<le> hi" by simp
qed

lemma weighted_average_eq:
  assumes "0 \<le> s" "0 < q" "0 \<le> c" "c \<le> 2 ^ 53" "0 \<le> l" "l \<le> 2 ^ 53"
  defines "e \<equiv> if 0 < l then l else c"
  shows "weighted_average_cost_satang s c q l = (2 * (s * c + q * e) + (s + q)) div (2 * (s + q))"
proof -
  let ?avg = "(2 * (s * c + q * e) + (s + q)) div (2 * (s + q))"
  have e: "0 \<le> e" "e \<le> 2 ^ 53" using assms by (auto simp: e_def)
  have num: "0 \<le> s * c + q * e" using assms e by simp
  have t: "0 < 2 * (s + q)" "\<not> s + q \<le> 0" using assms by simp_all
  have "bigint_div ((s * c + q * e) * 2 + (s + q)) (2 * (s + q)) = ?avg"
    using num t by (subst bigint_div_nonneg) (simp_all add: mult.commute)
  moreover have "0 \<le> ?avg" "?avg \<le> 2 ^ 53"
    using average_between [of s q 0 c "2 ^ 53" e] assms e by simp_all
  then have "number_of_bigint ?avg = ?avg" by (intro number_of_bigint_exact) simp
  ultimately show ?thesis
    using t(2) by (simp add: weighted_average_cost_satang_def e_def [symmetric])
qed

section \<open>Properties\<close>

text \<open>
  C38. Money survives the wire and the column: the text written for an amount of satang is read
  back as that amount, both from a \<open>NUMERIC\<close> column (through a double) and from a request body.
\<close>

theorem money_round_trip:
  assumes "\<bar>n\<bar> \<le> 10 ^ 14"
  shows "satang_of (from_satang n) = Some n \<and>
    (\<bar>n\<bar> \<le> MAX_SATANG \<longrightarrow> to_satang (JStr (from_satang n)) field = Inr n)"
  using satang_of_from_satang [OF assms] to_satang_from_satang by blast

theorem money_round_trip_witness:
  "satang_of (from_satang (- 123456)) = Some (- 123456) \<and>
   to_satang (JStr (from_satang (- 123456))) ''total'' = Inr (- 123456)"
  using money_round_trip [of "- 123456" "''total''"] by (simp add: MAX_SATANG_def)

text \<open>
  C37. The cost after a receipt: it lies between the old cost and the cost received (the old cost
  when none was given) and is the exact weighted mean rounded to the nearest satang, in spite of
  the passage through \<open>BigInt\<close> and \<open>Number\<close>.
\<close>

theorem weighted_average_nearest:
  assumes "0 \<le> s" "0 < q" "0 \<le> c" "c \<le> 2 ^ 53" "0 \<le> l" "l \<le> 2 ^ 53"
  shows "let e = (if 0 < l then l else c); r = weighted_average_cost_satang s c q l in
    min c e \<le> r \<and> r \<le> max c e \<and> \<bar>2 * ((s + q) * r) - 2 * (s * c + q * e)\<bar> \<le> s + q"
proof -
  define e where "e = (if 0 < l then l else c)"
  define t where "t = s + q"
  define r where "r = weighted_average_cost_satang s c q l"
  have t: "0 < 2 * t" using assms by (simp add: t_def)
  have r: "r = (2 * (s * c + q * e) + t) div (2 * t)"
    unfolding r_def t_def e_def by (rule weighted_average_eq [OF assms])
  have "min c e \<le> r" "r \<le> max c e"
    using average_between [OF assms(1,2), of "min c e" c "max c e" e] by (simp_all add: r t_def)
  moreover have "\<bar>2 * (t * r) - 2 * (s * c + q * e)\<bar> \<le> t"
    using div_bounds [OF t, of "2 * (s * c + q * e) + t"] unfolding r [symmetric]
    by (simp add: algebra_simps abs_le_iff)
  ultimately show ?thesis by (simp add: e_def r_def t_def Let_def)
qed

theorem weighted_average_nearest_witness:
  "let r = weighted_average_cost_satang 3 1000 2 1500 in
     1000 \<le> r \<and> r \<le> 1500 \<and> \<bar>10 * r - 12000\<bar> \<le> 5"
  using weighted_average_nearest [of 3 2 1000 1500] by (simp add: Let_def)

text \<open>
  Loyalty points are one per ten whole baht of the total stored on the bill, never negative,
  for every total a column can hold.
\<close>

theorem points_per_ten_baht:
  assumes "0 \<le> t" "t < 2 ^ 52"
  shows "points_for t = t div 1000 \<and> 0 \<le> points_for t \<and> points_for t * 1000 \<le> t"
proof -
  have "points_for t = t div 1000" using points_for_exact [of t] assms by simp
  moreover have "0 \<le> t div 1000 \<and> t div 1000 * 1000 \<le> t"
    using div_bounds(1) [of 1000 t] assms(1) by (simp add: pos_imp_zdiv_nonneg_iff)
  ultimately show ?thesis by simp
qed

theorem points_per_ten_baht_witness: "points_for 123456 = 123"
  using points_per_ten_baht [of 123456] by simp

end
