(* ===== verification/Ids.thy ===== *)
theory Ids
  imports Js_Value "HOL-Library.Word"
begin

unbundle bit_operations_syntax

text \<open>
  Entity ids (\<open>common/ids.ts\<close>): the test every id from outside must pass, the parsers of
  optional and required ids, and the generator \<open>newUuid\<close> with its two module-level
  variables. Random bytes and the clock are arguments of the generator.
\<close>

type_synonym uuid = string

section \<open>The accepted form\<close>

definition is_hex :: "char \<Rightarrow> bool" where
  "is_hex c \<longleftrightarrow> is_digit c \<or> (97 \<le> (of_char c :: nat) \<and> (of_char c :: nat) \<le> 102)"

text \<open>\<open>/^[0-9a-f]{8}-[0-9a-f]{4}-[0-9a-f]{4}-[0-9a-f]{4}-[0-9a-f]{12}$/\<close>\<close>

definition uuid_shape :: "bool list" where
  "uuid_shape = replicate 8 True @ [False] @ replicate 4 True @ [False] @ replicate 4 True @
     [False] @ replicate 4 True @ [False] @ replicate 12 True"

definition is_uuid_text :: "string \<Rightarrow> bool" where
  "is_uuid_text s \<longleftrightarrow> list_all2 (\<lambda>hex c. if hex then is_hex c else c = CHR ''-'') uuid_shape s"

fun is_uuid :: "jsval \<Rightarrow> bool" where
  "is_uuid (JStr s) = is_uuid_text s"
| "is_uuid _ = False"

definition invalid_id :: "string \<Rightarrow> err" where
  "invalid_id field = HttpErr 400 ''INVALID_ID'' (Field field)"

definition parse_uuid :: "jsval \<Rightarrow> string \<Rightarrow> err + uuid" where
  "parse_uuid v field =
     (case v of JStr s \<Rightarrow> if is_uuid v then Inr s else Inl (invalid_id field)
      | _ \<Rightarrow> Inl (invalid_id field))"

definition assert_valid_tenant_id :: "jsval \<Rightarrow> err + unit" where
  "assert_valid_tenant_id v =
     (if is_uuid v then Inr () else Inl (HttpErr 400 ''INVALID_TENANT_ID'' NoDetail))"

definition optional_uuid :: "jsval \<Rightarrow> string \<Rightarrow> err + uuid option" where
  "optional_uuid v field =
     (if is_nullish v \<or> v = JStr [] then Inr None
      else e_bind (parse_uuid v field) (\<lambda>s. Inr (Some s)))"

definition required_uuid :: "jsval \<Rightarrow> string \<Rightarrow> err + uuid" where
  "required_uuid v field =
     (case v of JStr s \<Rightarrow> if trim s = [] then Inl (bad_request field) else parse_uuid v field
      | _ \<Rightarrow> Inl (bad_request field))"

lemma parse_uuid_Inr: "parse_uuid v field = Inr s \<longleftrightarrow> v = JStr s \<and> is_uuid_text s"
  by (auto simp: parse_uuid_def split: jsval.splits if_splits)

lemma required_uuid_Inr: "required_uuid v field = Inr s \<Longrightarrow> v = JStr s \<and> is_uuid_text s"
  by (auto simp: required_uuid_def parse_uuid_Inr split: jsval.splits if_splits)

lemma optional_uuid_Inr:
  "optional_uuid v field = Inr (Some s) \<Longrightarrow> v = JStr s \<and> is_uuid_text s"
  by (auto simp: optional_uuid_def parse_uuid_Inr split: if_splits)

section \<open>The generator\<close>

text \<open>The two variables of the module.\<close>

record id_state =
  last_ms :: nat
  seq :: nat

text \<open>
  The choice of the millisecond and the counter for one id, from the clock and two
  random bytes.
\<close>

definition next_stamp :: "nat \<Rightarrow> 16 word \<Rightarrow> id_state \<Rightarrow> id_state" where
  "next_stamp now rnd st =
     (if last_ms st < now then \<lparr>last_ms = now, seq = unat (rnd AND 0x7ff)\<rparr>
      else if 0xfff < seq st + 1 then \<lparr>last_ms = last_ms st + 1, seq = 0\<rparr>
      else st\<lparr>seq := seq st + 1\<rparr>)"

text \<open>\<open>b.writeUIntBE(lastMs, 0, 6)\<close>: six bytes, most significant first.\<close>

definition be_bytes :: "nat \<Rightarrow> nat \<Rightarrow> 8 word list" where
  "be_bytes k n = map (\<lambda>i. word_of_nat (n div 256 ^ (k - 1 - i))) [0..<k]"

definition uuid_bytes :: "id_state \<Rightarrow> 8 word list \<Rightarrow> 8 word list" where
  "uuid_bytes st rnd =
     be_bytes 6 (last_ms st) @
     [0x70 OR word_of_nat (seq st div 256), word_of_nat (seq st) AND 0xff,
      (rnd ! 8 AND 0x3f) OR 0x80] @ drop 9 rnd"

definition hex_digit :: "nat \<Rightarrow> char" where
  "hex_digit d = (if d < 10 then char_of (48 + d) else char_of (87 + d))"

definition hex_of :: "8 word list \<Rightarrow> string" where
  "hex_of bs = concat (map (\<lambda>b. [hex_digit (unat b div 16), hex_digit (unat b mod 16)]) bs)"

definition dashed :: "string \<Rightarrow> string" where
  "dashed h = take 8 h @ ''-'' @ take 4 (drop 8 h) @ ''-'' @ take 4 (drop 12 h) @ ''-'' @
     take 4 (drop 16 h) @ ''-'' @ drop 20 h"

text \<open>
  \<open>newUuid\<close>: \<open>writeUIntBE\<close> throws when the millisecond does not fit six bytes.
\<close>

definition new_uuid :: "nat \<Rightarrow> 16 word \<Rightarrow> 8 word list \<Rightarrow> id_state \<Rightarrow> err + uuid \<times> id_state" where
  "new_uuid now rnd2 rnd16 st =
     (let st' = next_stamp now rnd2 st in
      if 2 ^ 48 \<le> last_ms st' then Inl (Fault ''RangeError'')
      else Inr (dashed (hex_of (uuid_bytes st' rnd16)), st'))"

subsection \<open>Its ids have the accepted form\<close>

lemma byte_bound: "unat (b :: 8 word) < 256"
  by (rule less_le_trans [OF unsigned_less]) simp

lemma hex_digit_hex: "d < 16 \<Longrightarrow> is_hex (hex_digit d)"
  by (auto simp: is_hex_def is_digit_def hex_digit_def of_char_of)

lemma hex_of_hex: "\<forall>c \<in> set (hex_of bs). is_hex c"
proof -
  have "unat b div 16 < 16" for b :: "8 word"
    using byte_bound [of b] by simp
  then show ?thesis by (auto simp: hex_of_def intro!: hex_digit_hex)
qed

lemma length_hex_of: "length (hex_of bs) = 2 * length bs"
  by (induction bs) (simp_all add: hex_of_def)

lemma length_uuid_bytes: "length rnd = 16 \<Longrightarrow> length (uuid_bytes st rnd) = 16"
  by (simp add: uuid_bytes_def be_bytes_def)

lemma dashed_is_uuid:
  assumes "length h = 32" "\<forall>c \<in> set h. is_hex c"
  shows "is_uuid_text (dashed h)"
proof -
  have hex: "list_all2 (\<lambda>hex c. if hex then is_hex c else c = CHR ''-'') (replicate n True) xs"
    if "length xs = n" "set xs \<subseteq> set h" for n xs
    using that assms(2) by (auto simp: list_all2_conv_all_nth) (meson nth_mem subsetD)
  have "set (take m (drop k h)) \<subseteq> set h" for m k
    by (meson dual_order.trans set_drop_subset set_take_subset)
  then show ?thesis
    using assms(1) set_take_subset [of 8 h] set_drop_subset [of 20 h]
    unfolding is_uuid_text_def uuid_shape_def dashed_def
    by (intro list_all2_appendI hex) simp_all
qed

lemma new_uuid_form:
  assumes "new_uuid now r2 r16 st = Inr (u, st')" "length r16 = 16"
  shows "is_uuid_text u"
  using assms by (auto simp: new_uuid_def Let_def length_hex_of length_uuid_bytes hex_of_hex
      intro!: dashed_is_uuid split: if_splits)

subsection \<open>Its ids sort in the order they were minted\<close>

text \<open>
  The number an id stands for: Postgres orders \<open>uuid\<close> values by it, and JavaScript orders
  canonical lower-case texts the same way.
\<close>

definition hex_val :: "char \<Rightarrow> nat" where
  "hex_val c = (if is_digit c then of_char c - 48 else of_char c - 87)"

definition uuid_num :: "uuid \<Rightarrow> nat" where
  "uuid_num u = foldl (\<lambda>n c. 16 * n + hex_val c) 0 (filter is_hex u)"

definition bytes_num :: "8 word list \<Rightarrow> nat" where
  "bytes_num bs = foldl (\<lambda>n b. 256 * n + unat b) 0 bs"

definition id_inv :: "id_state \<Rightarrow> bool" where
  "id_inv st \<longleftrightarrow> seq st \<le> 0xfff"

lemma hex_val_digit [simp]: "d < 16 \<Longrightarrow> hex_val (hex_digit d) = d"
  by (auto simp: hex_val_def is_digit_def hex_digit_def of_char_of)

lemma foldl_hex_of:
  "foldl (\<lambda>n c. 16 * n + hex_val c) a (hex_of bs) = foldl (\<lambda>n b. 256 * n + unat b) a bs"
proof (induction bs arbitrary: a)
  case (Cons b bs)
  have "unat b div 16 < 16" using byte_bound [of b] by simp
  moreover have "16 * (16 * a + unat b div 16) + unat b mod 16 = 256 * a + unat b"
    using mult_div_mod_eq [of 16 "unat b"] by simp
  ultimately show ?case using Cons [of "256 * a + unat b"]
    by (simp add: hex_of_def add.commute [of "unat b"])
qed (simp add: hex_of_def)

lemma uuid_num_dashed:
  assumes "length h = 32" "\<forall>c \<in> set h. is_hex c"
  shows "uuid_num (dashed h) = foldl (\<lambda>n c. 16 * n + hex_val c) 0 h"
proof -
  have f: "filter is_hex (take m (drop k h)) = take m (drop k h)" "filter is_hex (drop k h) = drop k h"
    "filter is_hex (take m h) = take m h" for m k
    using assms(2) by (auto simp: filter_id_conv dest: in_set_takeD in_set_dropD)
  have d: "\<not> is_hex CHR ''-''" by (simp add: is_hex_def is_digit_def)
  have "take 8 h @ take 4 (drop 8 h) @ take 4 (drop 12 h) @ take 4 (drop 16 h) @ drop 20 h = h"
    using append_take_drop_id [of 8 h] append_take_drop_id [of 4 "drop 8 h"]
      append_take_drop_id [of 4 "drop 12 h"] append_take_drop_id [of 4 "drop 16 h"]
    by simp
  then show ?thesis by (simp add: uuid_num_def dashed_def f d)
qed

lemma foldl_bytes:
  "foldl (\<lambda>n b. 256 * n + unat b) a bs = a * 256 ^ length bs + bytes_num bs" for bs :: "8 word list"
proof (induction bs arbitrary: a)
  case (Cons b bs)
  have "bytes_num (b # bs) = unat b * 256 ^ length bs + bytes_num bs"
    using Cons [of "unat b"] by (simp add: bytes_num_def)
  moreover have "foldl (\<lambda>n b. 256 * n + unat b) a (b # bs) =
      (256 * a + unat b) * 256 ^ length bs + bytes_num bs"
    using Cons [of "256 * a + unat b"] by simp
  ultimately show ?case by (simp add: distrib_right)
qed (simp add: bytes_num_def)

lemma bytes_num_append: "bytes_num (as @ bs) = bytes_num as * 256 ^ length bs + bytes_num bs"
  using foldl_bytes [of "bytes_num as" bs] by (simp add: bytes_num_def)

lemma bytes_num_bound: "bytes_num bs < 256 ^ length bs"
proof (induction bs rule: rev_induct)
  case (snoc b bs)
  have "bytes_num (bs @ [b]) = 256 * bytes_num bs + unat b"
    by (simp add: bytes_num_append) (simp add: bytes_num_def)
  also have "\<dots> < 256 * bytes_num bs + 256" using byte_bound [of b] by simp
  also have "\<dots> \<le> 256 ^ length (bs @ [b])" using snoc by simp
  finally show ?case .
qed (simp add: bytes_num_def)

lemma be_bytes_Suc: "be_bytes (Suc k) n = be_bytes k (n div 256) @ [word_of_nat n]"
proof -
  have "n div 256 ^ (k - i) = n div 256 div 256 ^ (k - 1 - i)" if "i < k" for i
  proof -
    have "k - i = Suc (k - 1 - i)" using that by simp
    then show ?thesis by (metis div_mult2_eq power_Suc)
  qed
  then show ?thesis by (simp add: be_bytes_def)
qed

lemma bytes_num_be_bytes: "bytes_num (be_bytes k n) = n mod 256 ^ k"
proof (induction k arbitrary: n)
  case (Suc k)
  have "bytes_num [word_of_nat n] = n mod 256"
    by (simp add: bytes_num_def unat_of_nat)
  then show ?case
    by (simp add: be_bytes_Suc bytes_num_append Suc mod_mult2_eq)
qed (simp add: be_bytes_def bytes_num_def)

lemma version_byte:
  assumes "k < 16"
  shows "unat (0x70 OR word_of_nat k :: 8 word) = 112 + k"
proof -
  have "k \<in> set [0..<16]" using assms by simp
  then show ?thesis by (auto simp: upt_rec [of _ "16"] simp del: set_upt)
qed

definition stamp_num :: "id_state \<Rightarrow> nat" where
  "stamp_num st = last_ms st * 65536 + 0x7000 + seq st"

lemma uuid_bytes_split:
  assumes "length rnd = 16" "id_inv st" "last_ms st < 2 ^ 48"
  shows "\<exists>t < 256 ^ 8. bytes_num (uuid_bytes st rnd) = stamp_num st * 256 ^ 8 + t"
proof -
  let ?a = "be_bytes 6 (last_ms st)"
  let ?b = "[0x70 OR word_of_nat (seq st div 256), word_of_nat (seq st) AND 0xff] :: 8 word list"
  let ?t = "((rnd ! 8 AND 0x3f) OR 0x80) # drop 9 rnd"
  have "uuid_bytes st rnd = (?a @ ?b) @ ?t" by (simp add: uuid_bytes_def)
  moreover have "bytes_num ?a = last_ms st"
    using assms(3) by (simp add: bytes_num_be_bytes)
  moreover have "seq st div 256 < 16" using assms(2) by (auto simp: id_inv_def)
  then have "bytes_num ?b = 256 * (112 + seq st div 256) + seq st mod 256"
  proof -
    have ff: "(0xff :: 8 word) = - 1" by simp
    have "unat (word_of_nat (seq st) AND 0xff :: 8 word) = seq st mod 256"
      unfolding ff by (simp add: unat_of_nat)
    with version_byte [OF \<open>seq st div 256 < 16\<close>] show ?thesis
      by (simp add: bytes_num_def)
  qed
  then have "bytes_num ?b = 0x7000 + seq st"
    using mult_div_mod_eq [of 256 "seq st"] by simp
  moreover have t: "length ?t = 8" using assms(1) by simp
  ultimately have "bytes_num (uuid_bytes st rnd) = stamp_num st * 256 ^ 8 + bytes_num ?t"
    unfolding stamp_num_def by (simp only: bytes_num_append) simp
  with bytes_num_bound [of ?t] t show ?thesis by (metis (no_types, lifting))
qed

lemma new_uuid_num:
  assumes "new_uuid now r2 r16 st = Inr (u, st')" "length r16 = 16" "id_inv st'"
  shows "\<exists>t < 256 ^ 8. uuid_num u = stamp_num st' * 256 ^ 8 + t"
proof -
  have u: "u = dashed (hex_of (uuid_bytes st' r16))" "last_ms st' < 2 ^ 48"
    using assms(1) by (auto simp: new_uuid_def Let_def split: if_splits)
  have "uuid_num u = bytes_num (uuid_bytes st' r16)"
    unfolding u(1)
    by (subst uuid_num_dashed)
      (simp_all add: length_hex_of length_uuid_bytes assms(2) hex_of_hex foldl_hex_of bytes_num_def)
  with uuid_bytes_split [OF assms(2,3) u(2)] show ?thesis by simp
qed

lemma next_stamp_inv: "id_inv st \<Longrightarrow> id_inv (next_stamp now r st)"
proof -
  have "unat (r AND 0x7ff) \<le> unat (0x7ff :: 16 word)"
    by (metis word_and_le1 word_le_nat_alt)
  then have "unat (r AND 0x7ff) \<le> 0xfff" by simp
  then show "id_inv st \<Longrightarrow> id_inv (next_stamp now r st)"
    by (auto simp: id_inv_def next_stamp_def)
qed

lemma next_stamp_increases: "id_inv st \<Longrightarrow> stamp_num st < stamp_num (next_stamp now r st)"
  by (auto simp: id_inv_def next_stamp_def stamp_num_def)

text \<open>A run of the generator: the ids one process mints, in order.\<close>

fun mint_run :: "(nat \<times> 16 word \<times> 8 word list) list \<Rightarrow> id_state \<Rightarrow> err + uuid list" where
  "mint_run [] st = Inr []"
| "mint_run ((now, r2, r16) # rs) st =
     e_bind (new_uuid now r2 r16 st) (\<lambda>(u, st').
       e_bind (mint_run rs st') (\<lambda>us. Inr (u # us)))"

lemma mint_run_above:
  assumes "mint_run rs st = Inr us" "id_inv st" "\<forall>(n, r2, r16) \<in> set rs. length r16 = 16"
  shows "sorted_wrt (<) (map uuid_num us) \<and>
    (\<forall>u \<in> set us. (stamp_num st + 1) * 256 ^ 8 \<le> uuid_num u)"
  using assms
proof (induction rs arbitrary: st us)
  case Nil
  then show ?case by simp
next
  case (Cons r rs)
  obtain now r2 r16 where r: "r = (now, r2, r16)" by (cases r)
  with Cons.prems(1) obtain u st' us' where
    u: "new_uuid now r2 r16 st = Inr (u, st')" and us': "mint_run rs st' = Inr us'"
    and us: "us = u # us'" by auto
  have st': "st' = next_stamp now r2 st"
    using u by (auto simp: new_uuid_def Let_def split: if_splits)
  have inv: "id_inv st'" unfolding st' using Cons.prems(2) by (rule next_stamp_inv)
  have step: "stamp_num st + 1 \<le> stamp_num st'"
    using next_stamp_increases [OF Cons.prems(2)] by (simp add: st' Suc_le_eq)
  obtain t where t: "t < 256 ^ 8" "uuid_num u = stamp_num st' * 256 ^ 8 + t"
    using new_uuid_num [OF u _ inv] Cons.prems(3) r by auto
  from Cons.IH [OF us' inv] Cons.prems(3)
  have IH: "sorted_wrt (<) (map uuid_num us')"
    "\<forall>v \<in> set us'. (stamp_num st' + 1) * 256 ^ 8 \<le> uuid_num v" by auto
  have "uuid_num u < (stamp_num st' + 1) * 256 ^ 8" using t by simp
  with IH(2) have "\<forall>v \<in> set us'. uuid_num u < uuid_num v" by (meson less_le_trans)
  moreover have "(stamp_num st + 1) * 256 ^ 8 \<le> uuid_num u"
    using mult_le_mono1 [OF step, of "256 ^ 8"] t(2) by linarith
  moreover have "\<forall>v \<in> set us'. (stamp_num st + 1) * 256 ^ 8 \<le> uuid_num v"
    using IH(2) mult_le_mono1 [OF step, of "256 ^ 8"] by fastforce
  ultimately show ?case using IH(1) us by auto
qed

section \<open>Properties\<close>

text \<open>
  Whatever the clock does, the ids one process mints are UUIDs of the accepted form, and each
  is greater than every id minted before it, so inserts stay in key order and never collide.
\<close>

theorem minted_ids_increase:
  assumes "mint_run rs st = Inr us" "id_inv st" "\<forall>r \<in> set rs. length (snd (snd r)) = 16"
  shows "sorted_wrt (<) (map uuid_num us) \<and> list_all is_uuid_text us"
proof
  show "sorted_wrt (<) (map uuid_num us)"
    using mint_run_above [OF assms(1,2)] assms(3) by fastforce
  show "list_all is_uuid_text us"
    using assms
  proof (induction rs arbitrary: st us)
    case (Cons r rs)
    obtain n r2 r16 where r: "r = (n, r2, r16)" by (cases r)
    with Cons.prems(1) obtain u st' us' where u: "new_uuid n r2 r16 st = Inr (u, st')"
      and us': "mint_run rs st' = Inr us'" and us: "us = u # us'" by auto
    have "id_inv st'"
      using u next_stamp_inv [OF Cons.prems(2)] by (auto simp: new_uuid_def Let_def split: if_splits)
    with Cons.IH [OF us'] Cons.prems(3) have "list_all is_uuid_text us'" by simp
    moreover have "is_uuid_text u" using new_uuid_form [OF u] Cons.prems(3) r by auto
    ultimately show ?case by (simp add: us)
  qed simp
qed

theorem minted_ids_increase_witness:
  "\<exists>us. mint_run [(1000, 5, replicate 16 0), (900, 7, replicate 16 255)] \<lparr>last_ms = 0, seq = 0\<rparr> = Inr us \<and>
     length us = 2 \<and> sorted_wrt (<) (map uuid_num us) \<and> list_all is_uuid_text us"
proof -
  let ?rs = "[(1000, 5, replicate 16 0), (900, 7, replicate 16 255)] :: (nat \<times> 16 word \<times> 8 word list) list"
    and ?st = "\<lparr>last_ms = 0, seq = 0\<rparr>"
  have "\<exists>us. mint_run ?rs ?st = Inr us \<and> length us = 2"
    by (simp add: new_uuid_def next_stamp_def Let_def)
  then obtain us where us: "mint_run ?rs ?st = Inr us" "length us = 2" by blast
  show ?thesis
    using us minted_ids_increase [OF us(1)] by (auto simp: id_inv_def)
qed

end
