(* ===== verification/Js_Date.thy ===== *)
theory Js_Date
  imports Js_Value
begin

text \<open>
  \<open>Date.prototype.toISOString\<close>: the text of an instant, in milliseconds from 1970, as it goes into
  a JSON answer. Dates are the proleptic Gregorian calendar; a year outside 0 to 9999 is written
  with a sign and six digits.
\<close>

definition DAY_LENGTH_MS :: int where "DAY_LENGTH_MS = 86400000"

text \<open>
  The date of a day counted from 1970-01-01: years begin in March here, so that the leap day is the
  last of its year; 719468 days lie between 0000-03-01 and the epoch, 146097 in 400 years.
\<close>

definition civil :: "int \<Rightarrow> int \<times> int \<times> int" where
  "civil d =
     (let z = d + 719468; era = z div 146097; doe = z mod 146097;
          yoe = (doe - doe div 1460 + doe div 36524 - doe div 146096) div 365;
          doy = doe - (365 * yoe + yoe div 4 - yoe div 100);
          mp = (5 * doy + 2) div 153;
          m = (if mp < 10 then mp + 3 else mp - 9) in
      (yoe + 400 * era + (if m \<le> 2 then 1 else 0), m, doy - (153 * mp + 2) div 5 + 1))"

definition padded :: "nat \<Rightarrow> int \<Rightarrow> string" where
  "padded k n = pad_start k (show_nat (nat n))"

definition iso_year :: "int \<Rightarrow> string" where
  "iso_year y =
     (if 0 \<le> y \<and> y \<le> 9999 then padded 4 y else (if y < 0 then ''-'' else ''+'') @ padded 6 \<bar>y\<bar>)"

definition iso_string :: "int \<Rightarrow> string" where
  "iso_string t =
     (let r = t mod DAY_LENGTH_MS in
      case civil (t div DAY_LENGTH_MS) of (y, m, d) \<Rightarrow>
        iso_year y @ ''-'' @ padded 2 m @ ''-'' @ padded 2 d @ ''T'' @ padded 2 (r div 3600000) @ '':'' @
        padded 2 (r div 60000 mod 60) @ '':'' @ padded 2 (r div 1000 mod 60) @ ''.'' @ padded 3 (r mod 1000) @ ''Z'')"

lemma civil_samples:
  "civil 0 = (1970, 1, 1)" "civil (- 1) = (1969, 12, 31)" "civil 19782 = (2024, 2, 29)" "civil 2932897 = (10000, 1, 1)"
  by (code_simp)+

lemma digit_chars:
  "digit_char 0 = CHR ''0''" "digit_char 1 = CHR ''1''" "digit_char (Suc 0) = CHR ''1''" "digit_char 2 = CHR ''2''" "digit_char 3 = CHR ''3''"
  "digit_char 4 = CHR ''4''" "digit_char 5 = CHR ''5''" "digit_char 6 = CHR ''6''" "digit_char 7 = CHR ''7''"
  "digit_char 8 = CHR ''8''" "digit_char 9 = CHR ''9''"
  by (code_simp)+

lemma show_nats:
  "n < 10 \<Longrightarrow> show_nat n = [digit_char n]"
  "\<not> n < 10 \<Longrightarrow> show_nat n = show_nat (n div 10) @ [digit_char (n mod 10)]"
  by (simp_all add: show_nat.simps [of n])

lemma replicate_few: "replicate 2 c = [c, c]" "replicate 3 c = [c, c, c]"
  by (simp_all add: numeral_2_eq_2 numeral_3_eq_3)

lemma iso_samples:
  "iso_string 0 = ''1970-01-01T00:00:00.000Z''"
  "iso_string (- 1) = ''1969-12-31T23:59:59.999Z''"
  "iso_string 1709209845067 = ''2024-02-29T12:30:45.067Z''"
  "iso_string 253402300800000 = ''+010000-01-01T00:00:00.000Z''"
  by (simp_all add: iso_string_def civil_samples iso_year_def padded_def DAY_LENGTH_MS_def show_nats digit_chars
      pad_start_def replicate_few Let_def)

end
