(* ===== verification/Schema.thy ===== *)
theory Schema
  imports Money Ids Js_Date
begin

text \<open>
  The tables of one shop. Every statement of the program carries \<open>tenant_id = $1\<close> and
  every tenant-scoped key starts with the tenant, so the state is the slice of the
  database that belongs to the authorised tenant. A table is the list of its rows in
  insertion order; columns no modelled statement reads or writes are left out; amounts
  (\<open>NUMERIC(_,2)\<close>) are integers of satang, instants are milliseconds. The inserts below
  check the constraints of \<open>src/server/src/db/migrations\<close> in the order Postgres does
  (value ranges and CHECKs, then the primary key, then the other unique indexes, then the
  foreign keys) and raise what Postgres raises.
\<close>

section \<open>The method strings\<close>

text \<open>
  The payment and refund methods are stored as Thai text; these are the literals the
  program compares with (their UTF-8 bytes), and the type they are read into.
\<close>

definition cash_text :: string where
  "cash_text =
     [CHR 0xE0, CHR 0xB9, CHR 0x80, CHR 0xE0, CHR 0xB8, CHR 0x87, CHR 0xE0, CHR 0xB8, CHR
     0xB4, CHR 0xE0, CHR 0xB8, CHR 0x99, CHR 0xE0, CHR 0xB8, CHR 0xAA, CHR 0xE0, CHR 0xB8,
     CHR 0x94]"

definition qr_text :: string where
  "qr_text =
     [CHR 0xE0, CHR 0xB9, CHR 0x82, CHR 0xE0, CHR 0xB8, CHR 0xAD, CHR 0xE0, CHR 0xB8, CHR
     0x99, CHR 0x2F, CHR 0x51, CHR 0x52]"

definition credit_text :: string where
  "credit_text =
     [CHR 0xE0, CHR 0xB9, CHR 0x80, CHR 0xE0, CHR 0xB8, CHR 0x84, CHR 0xE0, CHR 0xB8, CHR
     0xA3, CHR 0xE0, CHR 0xB8, CHR 0x94, CHR 0xE0, CHR 0xB8, CHR 0xB4, CHR 0xE0, CHR 0xB8,
     CHR 0x95, CHR 0xE0, CHR 0xB8, CHR 0x8A, CHR 0xE0, CHR 0xB9, CHR 0x88, CHR 0xE0, CHR
     0xB8, CHR 0xB2, CHR 0xE0, CHR 0xB8, CHR 0x87]"

definition transfer_text :: string where
  "transfer_text =
     [CHR 0xE0, CHR 0xB9, CHR 0x82, CHR 0xE0, CHR 0xB8, CHR 0xAD, CHR 0xE0, CHR 0xB8, CHR
     0x99]"

definition deduct_text :: string where
  "deduct_text =
     [CHR 0xE0, CHR 0xB8, CHR 0xAB, CHR 0xE0, CHR 0xB8, CHR 0xB1, CHR 0xE0, CHR 0xB8, CHR
     0x81, CHR 0xE0, CHR 0xB8, CHR 0x88, CHR 0xE0, CHR 0xB8, CHR 0xB2, CHR 0xE0, CHR 0xB8,
     CHR 0x81, CHR 0xE0, CHR 0xB9, CHR 0x80, CHR 0xE0, CHR 0xB8, CHR 0x84, CHR 0xE0, CHR
     0xB8, CHR 0xA3, CHR 0xE0, CHR 0xB8, CHR 0x94, CHR 0xE0, CHR 0xB8, CHR 0xB4, CHR 0xE0,
     CHR 0xB8, CHR 0x95]"

datatype pay_method =
    Cash_Method
  | Transfer_QR
  | Mechanic_Credit
  | Transfer
  | Deduct_From_Credit
  | Other_Method string

definition method_of_text :: "string \<Rightarrow> pay_method" where
  "method_of_text s =
     (if s = cash_text then Cash_Method
      else if s = qr_text then Transfer_QR
      else if s = credit_text then Mechanic_Credit
      else if s = transfer_text then Transfer
      else if s = deduct_text then Deduct_From_Credit
      else Other_Method s)"

fun text_of_method :: "pay_method \<Rightarrow> string" where
  "text_of_method Cash_Method = cash_text"
| "text_of_method Transfer_QR = qr_text"
| "text_of_method Mechanic_Credit = credit_text"
| "text_of_method Transfer = transfer_text"
| "text_of_method Deduct_From_Credit = deduct_text"
| "text_of_method (Other_Method s) = s"

text \<open>Members of a JSON answer: money, a count, an instant, a value that may be missing.\<close>

definition js_text :: "string \<Rightarrow> int \<Rightarrow> string \<times> jsval" where
  "js_text k n = (k, JStr (from_satang n))"

definition js_int :: "int \<Rightarrow> jsval" where "js_int n = JNum (Fin (of_int n))"
definition js_date :: "int \<Rightarrow> jsval" where "js_date t = JStr (iso_string t)"

definition js_opt :: "('a \<Rightarrow> jsval) \<Rightarrow> 'a option \<Rightarrow> jsval" where
  "js_opt f x = (case x of None \<Rightarrow> JNull | Some v \<Rightarrow> f v)"

lemma method_texts_distinct [simp]:
  "qr_text \<noteq> cash_text" "credit_text \<noteq> cash_text" "credit_text \<noteq> qr_text"
  "cash_text \<noteq> qr_text" "cash_text \<noteq> credit_text" "qr_text \<noteq> credit_text"
  by (simp_all add: cash_text_def qr_text_def credit_text_def)

section \<open>Rows\<close>

record product =
  p_id :: uuid
  p_part_no :: string
  p_name :: string
  p_cost :: int
  p_stock :: int
  p_deleted :: bool
  p_name_th :: string
  p_category :: string
  p_brand :: string
  p_price :: int
  p_min_stock :: int
  p_compat :: "string option"
  p_image_key :: "string option"

record customer =
  c_id :: uuid
  c_points :: int
  c_total_spend :: int
  c_code :: string
  c_name :: string
  c_name_th :: string
  c_phone :: "string option"
  c_address :: "string option"
  c_deleted :: bool

record mechanic =
  m_id :: uuid
  m_credit_limit :: int
  m_credit_balance :: int
  m_total_sales :: int
  m_total_credit :: int
  m_total_discount :: int
  m_total_markup :: int
  m_code :: string
  m_name :: string
  m_name_th :: "string option"
  m_nickname :: "string option"
  m_shop_name :: "string option"
  m_phone :: "string option"
  m_note :: "string option"
  m_deleted :: bool

record sale =
  s_id :: uuid
  s_receipt_no :: string
  s_subtotal :: int
  s_discount :: int
  s_total :: int
  s_payment_method :: pay_method
  s_customer_id :: "uuid option"
  s_customer_name :: "string option"
  s_mechanic_id :: "uuid option"
  s_mechanic_name :: "string option"
  s_mechanic_delta :: "int option"
  s_points_granted :: int
  s_date :: int
  s_voided :: bool
  s_voided_at :: "int option"
  s_void_reason :: "string option"
  s_shift_id :: "uuid option"
  s_user_id :: "uuid option"
  s_device_id :: "uuid option"
  s_sold_offline :: bool
  s_payment_account_id :: "uuid option"

record sale_item =
  si_sale_id :: uuid
  si_line_no :: int
  si_product_id :: uuid
  si_part_no :: "string option"
  si_name :: string
  si_name_th :: "string option"
  si_qty :: int
  si_price :: int
  si_cost_at_sale :: "int option"

record credit_note =
  r_id :: uuid
  r_cn_no :: string
  r_sale_id :: uuid
  r_receipt_no :: string
  r_refund_subtotal :: int
  r_refund_discount :: int
  r_refund_total :: int
  r_refund_method :: pay_method
  r_reason :: string
  r_customer_id :: "uuid option"
  r_mechanic_id :: "uuid option"
  r_mechanic_name :: "string option"
  r_date :: int
  r_shift_id :: "uuid option"

record return_item =
  ri_return_id :: uuid
  ri_line_no :: int
  ri_product_id :: uuid
  ri_name :: string
  ri_qty :: int
  ri_price :: int
  ri_original_qty :: "int option"
  ri_cost_at_sale :: "int option"

datatype mv_kind = Mv_Sale | Mv_Return | Mv_Void | Mv_Receive | Mv_Adjust_In | Mv_Adjust_Out

record movement =
  mv_id :: uuid
  mv_product_id :: uuid
  mv_part_no :: string
  mv_name :: string
  mv_delta :: int
  mv_type :: mv_kind
  mv_note :: "string option"
  mv_stock_after :: int
  mv_ref_id :: "uuid option"
  mv_date :: int

record shift =
  sh_id :: uuid
  sh_date_str :: string
  sh_starting_cash :: int
  sh_opened_at :: int
  sh_closed_at :: "int option"
  sh_physical_cash :: "int option"
  sh_is_active :: bool
  sh_auto_archived :: bool
  sh_archived_at :: "int option"
  sh_opened_by :: "uuid option"
  sh_device_id :: "uuid option"

datatype flow = Flow_In | Flow_Out

record drawer_entry =
  de_id :: uuid
  de_shift_id :: uuid
  de_type :: flow
  de_amount :: int
  de_note :: string
  de_created_at :: int
  de_created_by :: "uuid option"

record credit_payment =
  cp_id :: uuid
  cp_receipt_no :: string
  cp_mechanic_id :: uuid
  cp_amount :: int
  cp_payment_method :: "pay_method option"
  cp_note :: "string option"
  cp_date :: int
  cp_shift_id :: "uuid option"

datatype po_status = Po_Open | Po_Received | Po_Cancelled

record purchase_order =
  po_id :: uuid
  po_no :: string
  po_supplier :: string
  po_status_of :: po_status
  po_created_at :: int
  po_received_at :: "int option"
  po_cancelled_at :: "int option"

record po_item =
  pi_po_id :: uuid
  pi_line_no :: int
  pi_part_no :: string
  pi_name :: string
  pi_qty :: int
  pi_cost :: int

datatype device_role = Pos_Device | Backoffice_Device

record device =
  d_id :: uuid
  d_no :: nat
  d_label :: string
  d_role :: device_role
  d_retired_at :: "int option"
  d_token_hash :: "string option"
  d_enrol_code_hash :: "string option"
  d_enrol_expires_at :: "int option"
  d_last_seen_at :: "int option"
  d_unsynced_ops :: int
  d_unsynced_reported_at :: "int option"

definition d_retired :: "device \<Rightarrow> bool" where
  "d_retired d \<longleftrightarrow> d_retired_at d \<noteq> None"

lemma d_retired_row [simp]:
  "d_retired \<lparr>d_id = i, d_no = n, d_label = l, d_role = r, d_retired_at = t, d_token_hash = h, d_enrol_code_hash = c,
     d_enrol_expires_at = x, d_last_seen_at = y, d_unsynced_ops = u, d_unsynced_reported_at = v\<rparr> \<longleftrightarrow> t \<noteq> None"
  by (simp add: d_retired_def)

text \<open>A pos device nobody has enrolled, for concrete instances.\<close>

abbreviation plain_device :: "uuid \<Rightarrow> nat \<Rightarrow> device" where
  "plain_device i n \<equiv> \<lparr>d_id = i, d_no = n, d_label = [], d_role = Pos_Device, d_retired_at = None, d_token_hash = None,
     d_enrol_code_hash = None, d_enrol_expires_at = None, d_last_seen_at = None, d_unsynced_ops = 0, d_unsynced_reported_at = None\<rparr>"

datatype doc_type = Receipt | Po | Quote | Cn | Cp

record doc_counter =
  dc_device :: uuid
  dc_type :: doc_type
  dc_period :: string
  dc_last :: nat

record audit_row =
  au_user :: "uuid option"
  au_device :: "uuid option"
  au_action :: string
  au_entity :: string
  au_entity_id :: uuid
  au_before :: "jsval option"
  au_after :: "jsval option"

record review_item =
  rv_id :: uuid
  rv_kind :: string
  rv_ref_id :: uuid
  rv_details :: jsval
  rv_created_at :: int
  rv_reviewed_at :: "int option"
  rv_reviewed_by :: "uuid option"

record category =
  cat_name :: string
  cat_position :: int

record supplier =
  su_id :: uuid
  su_product_id :: uuid
  su_name :: string
  su_unit_cost :: int
  su_freight :: int

datatype quote_status = Qt_Open | Qt_Converted | Qt_Expired | Qt_Cancelled

record quote =
  q_id :: uuid
  q_no :: string
  q_status :: quote_status
  q_date :: int
  q_valid_until :: int
  q_converted_at :: "int option"
  q_sale_id :: "uuid option"
  q_subtotal :: "int option"
  q_discount :: "int option"
  q_total :: "int option"
  q_customer_name :: "string option"
  q_customer_phone :: "string option"
  q_notes :: "string option"
  q_valid_days :: "int option"

record quote_item =
  qi_quote_id :: uuid
  qi_line_no :: int
  qi_product_id :: "uuid option"
  qi_name :: string
  qi_qty :: int
  qi_price :: int

record parked_sale =
  pk_id :: uuid
  pk_parked_at :: int
  pk_device_id :: "uuid option"
  pk_payload :: jsval

text \<open>The row of \<open>settings\<close>; the tax rate (\<open>NUMERIC(5,2)\<close>) is in hundredths of a percent.\<close>

record settings_row =
  st_shop_name :: string
  st_shop_name_en :: string
  st_tax_rate :: int
  st_quote_valid_days :: int
  st_address :: "string option"
  st_phone :: "string option"
  st_cashier_name :: "string option"
  st_tax_id :: "string option"
  st_branch_no :: "string option"
  st_updated_at :: int

datatype account_kind = Promptpay | Image_Account

text \<open>An image is its bytes.\<close>

record payment_account =
  pa_id :: uuid
  pa_nickname :: string
  pa_bank_code :: string
  pa_kind :: account_kind
  pa_promptpay_id :: "string option"
  pa_image :: "nat list option"
  pa_image_mime :: "string option"
  pa_is_default :: bool
  pa_sort_order :: int
  pa_created_at :: int
  pa_updated_at :: int
  pa_deleted_at :: "int option"

record shop_user =
  us_id :: uuid
  us_username :: string
  us_password_hash :: string
  us_role :: string
  us_display_name :: string
  us_is_active :: bool
  us_must_change_password :: bool
  us_temp_password_expires_at :: "int option"
  us_password_changed_at :: "int option"

record refresh_family =
  fm_id :: uuid
  fm_user_id :: uuid
  fm_device_id :: "uuid option"
  fm_current_jti :: uuid
  fm_previous_jti :: "uuid option"
  fm_rotated_at :: int
  fm_grace_used :: bool
  fm_revoked_at :: "int option"
  fm_expires_at :: int

datatype idem_status = Idem_In_Progress | Idem_Done | Idem_Failed

record idem_key =
  ik_key :: string
  ik_endpoint :: string
  ik_hash :: string
  ik_status :: idem_status
  ik_code :: "nat option"
  ik_body :: jsval
  ik_created_at :: int

text \<open>What runs after a commit: cache invalidations, metrics, queue jobs.\<close>

datatype hook = Invalidate string | Record_Document string | Record_Replay | Enqueue string uuid

section \<open>The state\<close>

record db =
  products :: "product list"
  customers :: "customer list"
  mechanics :: "mechanic list"
  sales :: "sale list"
  sale_items :: "sale_item list"
  returns :: "credit_note list"
  return_items :: "return_item list"
  movements :: "movement list"
  shifts :: "shift list"
  drawer_entries :: "drawer_entry list"
  credit_payments :: "credit_payment list"
  purchase_orders :: "purchase_order list"
  po_items :: "po_item list"
  devices :: "device list"
  doc_counters :: "doc_counter list"
  payment_accounts :: "payment_account list"
  audit_log :: "audit_row list"
  review_items :: "review_item list"
  categories :: "category list"
  suppliers :: "supplier list"
  quotes :: "quote list"
  quote_items :: "quote_item list"
  parked_sales :: "parked_sale list"
  settings :: "settings_row option"
  idem_keys :: "idem_key list"
  users :: "shop_user list"
  families :: "refresh_family list"
  tenant_status :: string
  tenant_names :: "string \<times> string"
  tenant_tz :: "string option"
  hooks :: "hook list"
  minted :: nat

type_synonym 'a op = "(db, err, 'a) tx"

text \<open>
  What the transaction gets from outside the database: Postgres's \<open>now()\<close> and
  JavaScript's \<open>new Date()\<close>, the ids
  \<open>newUuid\<close> draws (theory \<open>Ids\<close>), Postgres's calendar and case folding, and the
  \<open>DOC_NUMBER_FALLBACK\<close> setting.
\<close>

record env =
  now :: int
  js_now :: int
  mint :: "nat \<Rightarrow> uuid"
  period_at :: "string \<Rightarrow> int \<Rightarrow> string"
  day_at :: "string \<Rightarrow> int \<Rightarrow> string"
  pg_lower :: "string \<Rightarrow> string"
  fallback :: bool

record actor =
  a_user :: uuid
  a_device :: uuid

text \<open>A shop with nothing on file and a fixed environment: the concrete instances build on them.\<close>

definition blank_db :: db where
  "blank_db = \<lparr>products = [], customers = [], mechanics = [], sales = [], sale_items = [],
     returns = [], return_items = [], movements = [], shifts = [], drawer_entries = [],
     credit_payments = [], purchase_orders = [], po_items = [], devices = [], doc_counters = [],
     payment_accounts = [], audit_log = [], review_items = [], categories = [], suppliers = [], quotes = [],
     quote_items = [], parked_sales = [], settings = None, idem_keys = [], users = [], families = [],
     tenant_status = ''active'', tenant_names = ([], []), tenant_tz = Some ''Asia/Bangkok'',
     hooks = [], minted = 0\<rparr>"

definition sample_env :: env where
  "sample_env = \<lparr>now = 1000, js_now = 1000, mint = (\<lambda>n. replicate (n + 1) (CHR ''m'')),
     period_at = (\<lambda>z t. ''2569-10''), day_at = (\<lambda>z t. ''2026-10-03''), pg_lower = (\<lambda>s. s),
     fallback = True\<rparr>"

lemma blank_db_simps [simp]:
  "products blank_db = []" "customers blank_db = []" "mechanics blank_db = []" "sales blank_db = []"
  "sale_items blank_db = []" "returns blank_db = []" "return_items blank_db = []"
  "movements blank_db = []" "shifts blank_db = []" "drawer_entries blank_db = []"
  "credit_payments blank_db = []" "purchase_orders blank_db = []" "po_items blank_db = []"
  "devices blank_db = []" "doc_counters blank_db = []" "payment_accounts blank_db = []"
  "audit_log blank_db = []" "review_items blank_db = []" "categories blank_db = []" "suppliers blank_db = []"
  "quotes blank_db = []" "quote_items blank_db = []" "parked_sales blank_db = []" "settings blank_db = None"
  "idem_keys blank_db = []"
  "users blank_db = []" "families blank_db = []" "tenant_status blank_db = ''active''" "tenant_names blank_db = ([], [])"
  "tenant_tz blank_db = Some ''Asia/Bangkok''" "hooks blank_db = []" "minted blank_db = 0"
  by (simp_all add: blank_db_def)

lemma sample_env_simps [simp]:
  "now sample_env = 1000" "js_now sample_env = 1000" "mint sample_env n = replicate (n + 1) (CHR ''m'')"
  "period_at sample_env z t = ''2569-10''" "day_at sample_env z t = ''2026-10-03''"
  "pg_lower sample_env x = x" "fallback sample_env"
  by (simp_all add: sample_env_def)

definition fresh_id :: "env \<Rightarrow> uuid op" where
  "fresh_id e = (\<lambda>s. Inr (mint e (minted s), s\<lparr>minted := minted s + 1\<rparr>))"

definition add_hook :: "hook \<Rightarrow> unit op" where
  "add_hook h = tx_modify (\<lambda>s. s\<lparr>hooks := hooks s @ [h]\<rparr>)"

definition map_db_err :: "(err \<Rightarrow> err) \<Rightarrow> 'a op \<Rightarrow> 'a op" where
  "map_db_err f m = (\<lambda>s. case m s of Inl e \<Rightarrow> Inl (f e) | Inr r \<Rightarrow> Inr r)"

lemma map_db_err_Inr [simp]: "map_db_err f m s = Inr r \<longleftrightarrow> m s = Inr r"
  by (auto simp: map_db_err_def split: sum.splits)

lemma tx_keeps_map_db_err [tx_keep]: "tx_keeps I m \<Longrightarrow> tx_keeps I (map_db_err f m)"
  by (simp add: tx_keeps_def)

lemma tx_fixes_map_db_err [tx_fix]: "tx_fixes f m \<Longrightarrow> tx_fixes f (map_db_err g m)"
  by (simp add: tx_fixes_def)

lemma tx_fixes_fresh_id [tx_fix]:
  "(\<And>s n. f (s\<lparr>minted := n\<rparr>) = f s) \<Longrightarrow> tx_fixes f (fresh_id e)"
  by (simp add: tx_fixes_def fresh_id_def)

lemma tx_fixes_add_hook [tx_fix]:
  "(\<And>s h. f (s\<lparr>hooks := h\<rparr>) = f s) \<Longrightarrow> tx_fixes f (add_hook h)"
  by (simp add: tx_fixes_def add_hook_def)

text \<open>
  \<open>TenantService.runTx\<close> as its owner sees it: on an error nothing is kept; a transaction
  older than the commit ceiling (\<open>too_old\<close>) is rolled back with a fault; otherwise the state
  is committed and only then are the hooks taken off it to run.
\<close>

definition run_tx :: "bool \<Rightarrow> 'a op \<Rightarrow> db \<Rightarrow> (err + 'a) \<times> db \<times> hook list" where
  "run_tx too_old m s =
     (case m (s\<lparr>hooks := []\<rparr>) of
        Inl e \<Rightarrow> (Inl e, s, [])
      | Inr (a, s') \<Rightarrow>
          if too_old then (Inl (Fault ''CommitCeilingExceeded''), s, [])
          else (Inr a, s'\<lparr>hooks := hooks s\<rparr>, hooks s'))"

section \<open>Column ranges\<close>

definition INT4_MAX :: int where "INT4_MAX = 2147483647"

definition int4 :: "int \<Rightarrow> unit op" where
  "int4 n = tx_guard (- INT4_MAX - 1 \<le> n \<and> n \<le> INT4_MAX) (DbErr ''22003'' [])"

definition numeric_12_2 :: "int \<Rightarrow> unit op" where
  "numeric_12_2 n = tx_guard (\<bar>n\<bar> < 10 ^ 12) (DbErr ''22003'' [])"

definition numeric_14_2 :: "int \<Rightarrow> unit op" where
  "numeric_14_2 n = tx_guard (\<bar>n\<bar> < 10 ^ 14) (DbErr ''22003'' [])"

definition check :: "bool \<Rightarrow> string \<Rightarrow> unit op" where
  "check b name = tx_guard b (DbErr ''23514'' name)"

definition unique :: "bool \<Rightarrow> string \<Rightarrow> unit op" where
  "unique b name = tx_guard b (DbErr ''23505'' name)"

definition foreign_key :: "bool \<Rightarrow> string \<Rightarrow> unit op" where
  "foreign_key b name = tx_guard b (DbErr ''23503'' name)"

lemmas constraint_defs = int4_def numeric_12_2_def numeric_14_2_def check_def unique_def
  foreign_key_def

lemma tx_keeps_constraints [tx_keep]:
  "tx_keeps I (int4 n)" "tx_keeps I (numeric_12_2 n)" "tx_keeps I (numeric_14_2 n)"
  "tx_keeps I (check b c)" "tx_keeps I (unique b c)" "tx_keeps I (foreign_key b c)"
  by (simp_all add: constraint_defs tx_keeps_guard)

section \<open>Inserts\<close>

definition insert_sale_row :: "sale \<Rightarrow> unit op" where
  "insert_sale_row r =
     tx_bind (numeric_12_2 (s_subtotal r)) (\<lambda>_.
     tx_bind (numeric_12_2 (s_discount r)) (\<lambda>_.
     tx_bind (numeric_12_2 (s_total r)) (\<lambda>_.
     tx_bind (numeric_12_2 (case s_mechanic_delta r of None \<Rightarrow> 0 | Some d \<Rightarrow> d)) (\<lambda>_.
     tx_bind (int4 (s_points_granted r)) (\<lambda>_.
     tx_bind (check (s_payment_account_id r = None \<or> s_payment_method r = Transfer_QR)
                ''ck_sales_payment_account_qr'') (\<lambda>_.
     tx_bind (tx_get id) (\<lambda>s.
     tx_bind (unique (\<not> has_key s_id (s_id r) (sales s)) ''sales_pkey'') (\<lambda>_.
     tx_bind (unique (\<not> has_key s_receipt_no (s_receipt_no r) (sales s))
                ''sales_tenant_id_receipt_no_key'') (\<lambda>_.
     tx_bind (foreign_key (case s_customer_id r of None \<Rightarrow> True
                | Some c \<Rightarrow> has_key c_id c (customers s)) ''sales_tenant_id_customer_id_fkey'') (\<lambda>_.
     tx_bind (foreign_key (case s_mechanic_id r of None \<Rightarrow> True
                | Some m \<Rightarrow> has_key m_id m (mechanics s)) ''sales_tenant_id_mechanic_id_fkey'') (\<lambda>_.
     tx_bind (foreign_key (case s_payment_account_id r of None \<Rightarrow> True
                | Some a \<Rightarrow> has_key pa_id a (payment_accounts s)) ''fk_sales_payment_account'') (\<lambda>_.
     tx_modify (\<lambda>s. s\<lparr>sales := sales s @ [r]\<rparr>)))))))))))))"

definition insert_sale_item :: "sale_item \<Rightarrow> unit op" where
  "insert_sale_item r =
     tx_bind (int4 (si_line_no r)) (\<lambda>_.
     tx_bind (int4 (si_qty r)) (\<lambda>_.
     tx_bind (numeric_12_2 (si_price r)) (\<lambda>_.
     tx_bind (check (0 < si_qty r) ''sale_items_qty_check'') (\<lambda>_.
     tx_bind (tx_get id) (\<lambda>s.
     tx_bind (unique (\<not> has_key (\<lambda>i. (si_sale_id i, si_line_no i)) (si_sale_id r, si_line_no r)
                (sale_items s)) ''sale_items_pkey'') (\<lambda>_.
     tx_bind (foreign_key (has_key s_id (si_sale_id r) (sales s))
                ''sale_items_tenant_id_sale_id_fkey'') (\<lambda>_.
     tx_modify (\<lambda>s. s\<lparr>sale_items := sale_items s @ [r]\<rparr>))))))))"

definition insert_return_row :: "credit_note \<Rightarrow> unit op" where
  "insert_return_row r =
     tx_bind (numeric_12_2 (r_refund_subtotal r)) (\<lambda>_.
     tx_bind (numeric_12_2 (r_refund_discount r)) (\<lambda>_.
     tx_bind (numeric_12_2 (r_refund_total r)) (\<lambda>_.
     tx_bind (tx_get id) (\<lambda>s.
     tx_bind (unique (\<not> has_key r_id (r_id r) (returns s)) ''returns_pkey'') (\<lambda>_.
     tx_bind (unique (\<not> has_key r_cn_no (r_cn_no r) (returns s)) ''returns_tenant_id_cn_no_key'') (\<lambda>_.
     tx_bind (foreign_key (has_key s_id (r_sale_id r) (sales s)) ''returns_tenant_id_sale_id_fkey'') (\<lambda>_.
     tx_modify (\<lambda>s. s\<lparr>returns := returns s @ [r]\<rparr>))))))))"

definition insert_return_item :: "return_item \<Rightarrow> unit op" where
  "insert_return_item r =
     tx_bind (int4 (ri_qty r)) (\<lambda>_.
     tx_bind (numeric_12_2 (ri_price r)) (\<lambda>_.
     tx_bind (int4 (case ri_original_qty r of None \<Rightarrow> 0 | Some q \<Rightarrow> q)) (\<lambda>_.
     tx_bind (check (0 < ri_qty r) ''return_items_qty_check'') (\<lambda>_.
     tx_bind (tx_get id) (\<lambda>s.
     tx_bind (unique (\<not> has_key (\<lambda>i. (ri_return_id i, ri_line_no i)) (ri_return_id r, ri_line_no r)
                (return_items s)) ''return_items_pkey'') (\<lambda>_.
     tx_bind (foreign_key (has_key r_id (ri_return_id r) (returns s))
                ''return_items_tenant_id_return_id_fkey'') (\<lambda>_.
     tx_modify (\<lambda>s. s\<lparr>return_items := return_items s @ [r]\<rparr>))))))))"

text \<open>\<open>uq_movements_ref\<close>: one row per kind, document and product.\<close>

definition mv_ref_key :: "movement \<Rightarrow> mv_kind \<times> uuid option \<times> uuid" where
  "mv_ref_key v = (mv_type v, mv_ref_id v, mv_product_id v)"

definition insert_movement :: "movement \<Rightarrow> unit op" where
  "insert_movement v =
     tx_bind (int4 (mv_delta v)) (\<lambda>_.
     tx_bind (int4 (mv_stock_after v)) (\<lambda>_.
     tx_bind (tx_get id) (\<lambda>s.
     tx_bind (unique (\<not> has_key mv_id (mv_id v) (movements s)) ''movements_pkey'') (\<lambda>_.
     tx_bind (unique (mv_ref_id v = None \<or> \<not> has_key mv_ref_key (mv_ref_key v) (movements s))
                ''uq_movements_ref'') (\<lambda>_.
     tx_bind (foreign_key (has_key p_id (mv_product_id v) (products s))
                ''movements_tenant_id_product_id_fkey'') (\<lambda>_.
     tx_modify (\<lambda>s. s\<lparr>movements := movements s @ [v]\<rparr>)))))))"

text \<open>\<open>AuditService.log\<close> and \<open>ReviewItemsService.insertIn\<close>.\<close>

definition insert_audit :: "audit_row \<Rightarrow> unit op" where
  "insert_audit a = tx_modify (\<lambda>s. s\<lparr>audit_log := audit_log s @ [a]\<rparr>)"

definition insert_review_item :: "env \<Rightarrow> string \<Rightarrow> uuid \<Rightarrow> jsval \<Rightarrow> unit op" where
  "insert_review_item e kind ref details =
     tx_bind (fresh_id e) (\<lambda>i.
     tx_bind (tx_get id) (\<lambda>s.
     tx_bind (unique (\<not> has_key rv_id i (review_items s)) ''pk_owner_review_items'') (\<lambda>_.
     tx_modify (\<lambda>s. s\<lparr>review_items := review_items s @
       [\<lparr>rv_id = i, rv_kind = kind, rv_ref_id = ref, rv_details = details,
          rv_created_at = now e, rv_reviewed_at = None, rv_reviewed_by = None\<rparr>]\<rparr>))))"

text \<open>
  With \<open>ON CONFLICT DO NOTHING\<close>: three kinds have a partial unique index on their reference, so
  that a second item about the same document is not written.
\<close>

definition once_kinds :: "string list" where
  "once_kinds = [''receipt_renumbered'', ''quote_conflict'', ''drawer_overdrawn_offline'']"

definition review_clash :: "uuid \<Rightarrow> string \<Rightarrow> uuid \<Rightarrow> db \<Rightarrow> bool" where
  "review_clash i kind ref s \<longleftrightarrow> has_key rv_id i (review_items s) \<or>
     kind \<in> set once_kinds \<and> has_key (\<lambda>r. (rv_kind r, rv_ref_id r)) (kind, ref) (review_items s)"

definition insert_review_once :: "env \<Rightarrow> string \<Rightarrow> uuid \<Rightarrow> jsval \<Rightarrow> unit op" where
  "insert_review_once e kind ref details =
     tx_bind (fresh_id e) (\<lambda>i.
     tx_bind (tx_get (review_clash i kind ref)) (\<lambda>clash.
     if clash then tx_ret ()
     else tx_modify (\<lambda>s. s\<lparr>review_items := review_items s @
       [\<lparr>rv_id = i, rv_kind = kind, rv_ref_id = ref, rv_details = details,
          rv_created_at = now e, rv_reviewed_at = None, rv_reviewed_by = None\<rparr>]\<rparr>)))"

section \<open>Frames of the inserts\<close>

lemma tx_fixes_constraints [tx_fix]:
  "tx_fixes f (int4 n)" "tx_fixes f (numeric_12_2 n)" "tx_fixes f (numeric_14_2 n)"
  "tx_fixes f (check b c)" "tx_fixes f (unique b c)" "tx_fixes f (foreign_key b c)"
  by (simp_all add: constraint_defs tx_fixes_basic)

lemma tx_fixes_inserts [tx_fix]:
  "(\<And>s x. f (s\<lparr>sales := x\<rparr>) = f s) \<Longrightarrow> tx_fixes f (insert_sale_row b)"
  "(\<And>s x. f (s\<lparr>sale_items := x\<rparr>) = f s) \<Longrightarrow> tx_fixes f (insert_sale_item i)"
  "(\<And>s x. f (s\<lparr>returns := x\<rparr>) = f s) \<Longrightarrow> tx_fixes f (insert_return_row r)"
  "(\<And>s x. f (s\<lparr>return_items := x\<rparr>) = f s) \<Longrightarrow> tx_fixes f (insert_return_item j)"
  "(\<And>s x. f (s\<lparr>movements := x\<rparr>) = f s) \<Longrightarrow> tx_fixes f (insert_movement v)"
  "(\<And>s x. f (s\<lparr>audit_log := x\<rparr>) = f s) \<Longrightarrow> tx_fixes f (insert_audit a)"
  unfolding insert_sale_row_def insert_sale_item_def insert_return_row_def insert_return_item_def
    insert_movement_def insert_audit_def
  by (intro tx_fix; simp)+

lemma tx_fixes_insert_review_item [tx_fix]:
  "(\<And>s x. f (s\<lparr>review_items := x\<rparr>) = f s) \<Longrightarrow> (\<And>s n. f (s\<lparr>minted := n\<rparr>) = f s) \<Longrightarrow>
   tx_fixes f (insert_review_item e k i d)"
  unfolding insert_review_item_def by (intro tx_fix) simp_all

lemma tx_fixes_insert_review_once [tx_fix]:
  "(\<And>s x. f (s\<lparr>review_items := x\<rparr>) = f s) \<Longrightarrow> (\<And>s n. f (s\<lparr>minted := n\<rparr>) = f s) \<Longrightarrow>
   tx_fixes f (insert_review_once e k i d)"
  unfolding insert_review_once_def by (intro tx_fix) simp_all

end
