(* ===== verification/Sales_Dto.thy ===== *)
theory Sales_Dto
  imports Schema
begin

text \<open>
  The body of \<open>POST /sales\<close> (\<open>sales/sales.dto.ts\<close>): what the parser accepts, in the order it
  looks, and what a bill that came through it is known to be.
\<close>

section \<open>The bill\<close>

record sale_line =
  sl_line_no :: int
  sl_product_id :: uuid
  sl_part_no :: "string option"
  sl_name :: string
  sl_name_th :: "string option"
  sl_qty :: int
  sl_price :: int

record sale_party =
  sp_id :: uuid
  sp_receipt_no :: "string option"
  sp_payment_method :: pay_method
  sp_customer_id :: "uuid option"
  sp_customer_name :: "string option"
  sp_mechanic_id :: "uuid option"
  sp_mechanic_name :: "string option"
  sp_mechanic_delta :: "int option"
  sp_override :: bool
  sp_payment_account_id :: "uuid option"

record create_sale = sale_party +
  cs_subtotal :: int
  cs_discount :: int
  cs_total :: int
  cs_items :: "sale_line list"

text \<open>The two fields only the offline replay sets.\<close>

record sale_write = create_sale +
  sw_sold_offline :: bool
  sw_date :: "int option"

definition MAX_LINES :: nat where "MAX_LINES = 200"

definition PAYMENT_METHODS :: "string list" where
  "PAYMENT_METHODS = [cash_text, qr_text, credit_text]"

section \<open>The parser\<close>

definition parse_line_qty :: "jsval \<Rightarrow> nat \<Rightarrow> err + int" where
  "parse_line_qty v i =
     (case js_integer v of
        None \<Rightarrow> Inl (bad_request (item_field i ''qty''))
      | Some q \<Rightarrow> if q \<le> 0 \<or> 1000000 < q then Inl (bad_request (item_field i ''qty'')) else Inr q)"

definition parse_line_price :: "jsval \<Rightarrow> nat \<Rightarrow> err + int" where
  "parse_line_price v i =
     e_bind (to_satang v (item_field i ''price'')) (\<lambda>n.
       if n < 0 then Inl (bad_request (item_field i ''price'')) else Inr n)"

definition parse_line_no :: "jsval \<Rightarrow> nat \<Rightarrow> err + int" where
  "parse_line_no v i =
     (if v = JUndef then Inr (int i + 1)
      else case js_integer v of
             None \<Rightarrow> Inl (bad_request (item_field i ''lineNo''))
           | Some n \<Rightarrow> if n < 1 then Inl (bad_request (item_field i ''lineNo'')) else Inr n)"

definition parse_line :: "jsval \<times> nat \<Rightarrow> err + sale_line" where
  "parse_line = (\<lambda>(raw, i).
     e_bind (as_object raw (''items['' @ show_nat i @ '']'')) (\<lambda>l.
     e_bind (parse_line_qty (get_prop l ''qty'') i) (\<lambda>qty.
     e_bind (parse_line_no (get_prop l ''lineNo'') i) (\<lambda>line_no.
     e_bind (parse_line_price (get_prop l ''price'') i) (\<lambda>price.
     e_bind (required_uuid (get_prop l ''productId'') (item_field i ''productId'')) (\<lambda>p.
     e_bind (optional_string (get_prop l ''partNo'') (item_field i ''partNo'')) (\<lambda>part_no.
     e_bind (required_string (get_prop l ''name'') (item_field i ''name'')) (\<lambda>name.
     e_bind (optional_string (get_prop l ''nameTH'') (item_field i ''nameTH'')) (\<lambda>name_th.
     Inr \<lparr>sl_line_no = line_no, sl_product_id = p, sl_part_no = part_no, sl_name = name,
          sl_name_th = name_th, sl_qty = qty, sl_price = price\<rparr>)))))))))"

definition parse_lines :: "jsval list \<Rightarrow> err + sale_line list" where
  "parse_lines items =
     e_bind (e_mapM parse_line (zip items [0..<length items])) (\<lambda>ls.
       if distinct (map sl_line_no ls) then Inr ls else Inl (bad_request ''items[].lineNo''))"

definition parse_items_array :: "jsval \<Rightarrow> err + jsval list" where
  "parse_items_array v =
     (let items = (case v of JArr xs \<Rightarrow> xs | _ \<Rightarrow> []) in
      if items = [] then Inl (bad_request ''items'')
      else if MAX_LINES < length items then Inl (bad_request ''items'')
      else Inr items)"

definition required_payment_method :: "jsval \<Rightarrow> err + pay_method" where
  "required_payment_method v =
     e_bind (required_string v ''paymentMethod'') (\<lambda>m.
       if m \<in> set PAYMENT_METHODS then Inr (method_of_text m) else Inl (bad_request ''paymentMethod''))"

definition parse_payment_account_id :: "(string \<times> jsval) list \<Rightarrow> err + uuid option" where
  "parse_payment_account_id b =
     e_bind (optional_uuid (get_prop b ''paymentAccountId'') ''paymentAccountId'') (\<lambda>i.
       if i \<noteq> None \<and> get_prop b ''paymentMethod'' \<noteq> JStr qr_text
       then Inl (bad_request ''paymentAccountId'') else Inr i)"

definition replay_payment_account_id :: "jsval \<Rightarrow> err + uuid option" where
  "replay_payment_account_id body =
     e_bind (as_object body ''body'') (\<lambda>b.
       Inr (case get_prop b ''paymentAccountId'' of
              JStr i \<Rightarrow> if is_uuid (JStr i) \<and> get_prop b ''paymentMethod'' = JStr qr_text
                        then Some i else None
            | _ \<Rightarrow> None))"

definition parse_sale_party :: "(string \<times> jsval) list \<Rightarrow> err + sale_party" where
  "parse_sale_party b =
     e_bind (required_uuid (get_prop b ''id'') ''id'') (\<lambda>i.
     e_bind (optional_string (get_prop b ''receiptNo'') ''receiptNo'') (\<lambda>receipt_no.
     e_bind (required_payment_method (get_prop b ''paymentMethod'')) (\<lambda>meth.
     e_bind (optional_uuid (get_prop b ''customerId'') ''customerId'') (\<lambda>c.
     e_bind (optional_string (get_prop b ''customerName'') ''customerName'') (\<lambda>cname.
     e_bind (optional_uuid (get_prop b ''mechanicId'') ''mechanicId'') (\<lambda>m.
     e_bind (optional_string (get_prop b ''mechanicName'') ''mechanicName'') (\<lambda>mname.
     e_bind (if is_nullish (get_prop b ''mechanicDelta'') then Inr None
             else e_bind (to_satang (get_prop b ''mechanicDelta'') ''mechanicDelta'') (\<lambda>n. Inr (Some n))) (\<lambda>delta.
     e_bind (boolean_or_false (get_prop b ''overrideCreditLimit'') ''overrideCreditLimit'') (\<lambda>ov.
     e_bind (parse_payment_account_id b) (\<lambda>acct.
     Inr \<lparr>sp_id = i, sp_receipt_no = receipt_no, sp_payment_method = meth,
          sp_customer_id = c, sp_customer_name = cname, sp_mechanic_id = m, sp_mechanic_name = mname,
          sp_mechanic_delta = delta, sp_override = ov, sp_payment_account_id = acct\<rparr>))))))))))"

definition assert_money_makes_sense :: "int \<Rightarrow> int \<Rightarrow> int \<Rightarrow> err + unit" where
  "assert_money_makes_sense subtotal discount tot =
     (if discount < 0 then Inl (bad_request ''discount'')
      else if subtotal < 0 then Inl (bad_request ''subtotal'')
      else if tot < 0 then Inl (bad_request ''total'')
      else if subtotal < discount then Inl (bad_request ''discount'')
      else Inr ())"

definition parse_create_sale :: "jsval \<Rightarrow> err + create_sale" where
  "parse_create_sale body =
     e_bind (as_object body ''body'') (\<lambda>b.
     e_bind (parse_items_array (get_prop b ''items'')) (\<lambda>items.
     e_bind (to_satang (get_prop b ''subtotal'') ''subtotal'') (\<lambda>subtotal.
     e_bind (to_satang (or_else (get_prop b ''discount'') (JNum (Fin 0))) ''discount'') (\<lambda>discount.
     e_bind (to_satang (get_prop b ''total'') ''total'') (\<lambda>tot.
     e_bind (parse_sale_party b) (\<lambda>party.
     e_bind (parse_lines items) (\<lambda>ls.
     e_bind (assert_money_makes_sense subtotal discount tot) (\<lambda>_.
     Inr (sale_party.extend party
       (create_sale.fields subtotal discount tot ls))))))))))"

definition parse_sale_quote_id :: "jsval \<Rightarrow> err + uuid option" where
  "parse_sale_quote_id body =
     e_bind (as_object body ''body'') (\<lambda>b. optional_uuid (get_prop b ''quoteId'') ''quoteId'')"

section \<open>What a parsed bill is\<close>

definition wf_line :: "sale_line \<Rightarrow> bool" where
  "wf_line l \<longleftrightarrow> 1 \<le> sl_line_no l \<and> is_uuid_text (sl_product_id l) \<and> trim (sl_name l) \<noteq> [] \<and>
     1 \<le> sl_qty l \<and> sl_qty l \<le> 1000000 \<and> 0 \<le> sl_price l \<and> sl_price l \<le> MAX_SATANG"

definition wf_lines :: "sale_line list \<Rightarrow> bool" where
  "wf_lines ls \<longleftrightarrow> ls \<noteq> [] \<and> length ls \<le> MAX_LINES \<and> list_all wf_line ls \<and>
     distinct (map sl_line_no ls)"

definition wf_bill :: "'a create_sale_scheme \<Rightarrow> bool" where
  "wf_bill b \<longleftrightarrow> is_uuid_text (sp_id b) \<and> wf_lines (cs_items b) \<and>
     0 \<le> cs_discount b \<and> cs_discount b \<le> cs_subtotal b \<and> cs_subtotal b \<le> MAX_SATANG \<and>
     0 \<le> cs_total b \<and> cs_total b \<le> MAX_SATANG \<and>
     sp_payment_method b \<in> {Cash_Method, Transfer_QR, Mechanic_Credit} \<and>
     (sp_payment_account_id b \<noteq> None \<longrightarrow> sp_payment_method b = Transfer_QR) \<and>
     (case sp_mechanic_delta b of None \<Rightarrow> True | Some d \<Rightarrow> \<bar>d\<bar> \<le> MAX_SATANG)"

lemma parse_line_qty_Inr: "parse_line_qty v i = Inr q \<longleftrightarrow> v = JNum (Fin (of_int q)) \<and> 1 \<le> q \<and> q \<le> 1000000"
proof -
  have r: "js_integer (JNum (Fin (of_int q))) = Some q" for q by (subst js_integer_Some) simp
  show ?thesis
    by (cases "js_integer v") (auto simp: parse_line_qty_def r js_integer_Some)
qed

lemma parse_line_price_Inr: "parse_line_price v i = Inr n \<Longrightarrow> 0 \<le> n \<and> n \<le> MAX_SATANG"
  by (auto simp: parse_line_price_def dest!: to_satang_bound split: if_splits)

lemma parse_line_no_Inr: "parse_line_no v i = Inr n \<Longrightarrow> 1 \<le> n"
  by (auto simp: parse_line_no_def split: option.splits if_splits)

lemma required_string_Inr: "required_string v f = Inr s \<Longrightarrow> v = JStr s \<and> trim s \<noteq> []"
  by (auto simp: required_string_def split: jsval.splits if_splits)

lemma parse_line_wf: "parse_line x = Inr l \<Longrightarrow> wf_line l"
  by (auto simp: parse_line_def wf_line_def parse_line_qty_Inr
      dest: parse_line_price_Inr parse_line_no_Inr required_uuid_Inr required_string_Inr
      split: prod.splits)

lemma parse_lines_wf:
  assumes "parse_lines items = Inr ls"
  shows "list_all wf_line ls \<and> length ls = length items \<and> distinct (map sl_line_no ls)"
proof -
  have m: "e_mapM parse_line (zip items [0..<length items]) = Inr ls" and "distinct (map sl_line_no ls)"
    using assms by (auto simp: parse_lines_def split: if_splits)
  then show ?thesis
    using e_mapM_Inr [OF m] parse_line_wf by (fastforce simp: list_all_length)
qed

lemma required_payment_method_Inr:
  "required_payment_method v = Inr m \<Longrightarrow>
     m \<in> {Cash_Method, Transfer_QR, Mechanic_Credit} \<and> (v = JStr qr_text \<longrightarrow> m = Transfer_QR)"
  by (auto simp: required_payment_method_def PAYMENT_METHODS_def method_of_text_def
      dest: required_string_Inr split: if_splits)

lemma parse_sale_party_Inr:
  assumes "parse_sale_party b = Inr p"
  shows "is_uuid_text (sp_id p) \<and> sp_payment_method p \<in> {Cash_Method, Transfer_QR, Mechanic_Credit} \<and>
    (sp_payment_account_id p \<noteq> None \<longrightarrow> sp_payment_method p = Transfer_QR) \<and>
    (case sp_mechanic_delta p of None \<Rightarrow> True | Some d \<Rightarrow> \<bar>d\<bar> \<le> MAX_SATANG)"
  using assms
  by (auto simp: parse_sale_party_def parse_payment_account_id_def
      dest!: required_uuid_Inr required_payment_method_Inr to_satang_bound split: if_splits)

definition sample_uuid :: uuid where
  "sample_uuid = ''0190a000-0000-7000-8000-000000000000''"

lemma sample_uuid_ok: "is_uuid_text sample_uuid" "sample_uuid \<noteq> []" "trim sample_uuid \<noteq> []"
proof -
  show "is_uuid_text sample_uuid" "sample_uuid \<noteq> []"
    by (simp_all add: is_uuid_text_def uuid_shape_def sample_uuid_def is_hex_def is_digit_def numeral_eq_Suc)
  have "trim sample_uuid = sample_uuid"
    by (rule trim_id) (simp add: sample_uuid_def is_space_def)
  then show "trim sample_uuid \<noteq> []" by (simp add: sample_uuid_def)
qed

definition sample_body :: jsval where
  "sample_body = JObj [(''id'', JStr sample_uuid), (''paymentMethod'', JStr cash_text),
     (''subtotal'', JStr (from_satang 15000)), (''discount'', JStr (from_satang 0)), (''total'', JStr (from_satang 15000)),
     (''items'', JArr [JObj [(''productId'', JStr sample_uuid), (''name'', JStr ''pad''), (''qty'', JNum (Fin 3)),
       (''price'', JStr (from_satang 5000))]])]"

text \<open>
  C40. A parsed bill is well formed: between 1 and 200 lines with distinct positive numbers,
  whole quantities from 1 to 1,000,000, prices and totals from 0 to 9,999,999,999.99 baht, a
  discount no larger than the subtotal, a known payment method, UUIDs for ids, and a payment
  account only on a QR bill.
\<close>

theorem parsed_bill_well_formed:
  assumes "parse_create_sale body = Inr b"
  shows "wf_bill b"
proof -
  obtain f items sub disc tot party ls where
    items: "parse_items_array (get_prop f ''items'') = Inr items"
    and money: "to_satang (get_prop f ''subtotal'') ''subtotal'' = Inr sub"
      "to_satang (or_else (get_prop f ''discount'') (JNum (Fin 0))) ''discount'' = Inr disc"
      "to_satang (get_prop f ''total'') ''total'' = Inr tot"
    and party: "parse_sale_party f = Inr party" and ls: "parse_lines items = Inr ls"
    and sense: "assert_money_makes_sense sub disc tot = Inr ()"
    and b: "b = sale_party.extend party (create_sale.fields sub disc tot ls)"
    using assms by (auto simp: parse_create_sale_def)
  have "items \<noteq> [] \<and> length items \<le> MAX_LINES"
    using items by (auto simp: parse_items_array_def Let_def split: if_splits)
  then have "wf_lines ls"
    using parse_lines_wf [OF ls] by (auto simp: wf_lines_def)
  then show ?thesis
    using parse_sale_party_Inr [OF party] sense money [THEN to_satang_bound]
    by (auto simp: wf_bill_def b sale_party.defs create_sale.defs assert_money_makes_sense_def
        split: if_splits)
qed

theorem parsed_bill_well_formed_witness: "\<exists>b. parse_create_sale sample_body = Inr b \<and> wf_bill b"
proof -
  have money: "to_satang (JStr (from_satang n)) field = Inr n" if "\<bar>n\<bar> \<le> 15000" for n field
    using that to_satang_from_satang [of n field] by (simp add: MAX_SATANG_def)
  have qty: "js_integer (JNum (Fin 3)) = Some 3" using js_integer_Some [of "JNum (Fin 3)" 3] by simp
  have uuid: "required_uuid (JStr sample_uuid) field = Inr sample_uuid" for field
    by (simp add: required_uuid_def parse_uuid_def sample_uuid_ok)
  have nonempty: "trim ''pad'' \<noteq> []" "trim cash_text \<noteq> []"
    by (simp_all add: trim_def is_space_def cash_text_def)
  have "\<exists>b. parse_create_sale sample_body = Inr b"
    by (simp add: parse_create_sale_def sample_body_def as_object_def parse_items_array_def get_prop_def MAX_LINES_def
        Let_def money or_else_def is_nullish_def parse_sale_party_def uuid optional_string_def optional_uuid_def
        required_payment_method_def required_string_def nonempty PAYMENT_METHODS_def boolean_or_false_def
        parse_payment_account_id_def parse_lines_def parse_line_def parse_line_qty_def qty parse_line_no_def
        parse_line_price_def assert_money_makes_sense_def)
  then show ?thesis using parsed_bill_well_formed by blast
qed

end
