(* ===== verification/Returns_Dto.thy ===== *)
theory Returns_Dto
  imports Sales_Dto
begin

text \<open>
  The body of \<open>POST /returns\<close> (\<open>returns/returns.dto.ts\<close>) and what a parsed credit note is
  known to be.
\<close>

record return_line =
  rl_product_id :: uuid
  rl_name :: string
  rl_qty :: int
  rl_price :: int
  rl_original_qty :: "int option"

record create_return =
  rt_id :: "uuid option"
  rt_sale_id :: uuid
  rt_cn_no :: "string option"
  rt_refund_method :: pay_method
  rt_reason :: string
  rt_items :: "return_line list"

text \<open>The field only the offline replay sets.\<close>

record return_write = create_return +
  rw_date :: "int option"

definition REFUND_METHODS :: "string list" where
  "REFUND_METHODS = [cash_text, transfer_text, deduct_text]"

definition optional_count :: "jsval \<Rightarrow> string \<Rightarrow> err + int option" where
  "optional_count v field =
     (if is_nullish v then Inr None
      else case js_integer v of
             None \<Rightarrow> Inl (bad_request field)
           | Some n \<Rightarrow> if n < 0 then Inl (bad_request field) else Inr (Some n))"

definition required_refund_method :: "jsval \<Rightarrow> err + pay_method" where
  "required_refund_method v =
     e_bind (required_string v ''refundMethod'') (\<lambda>m.
       if m \<in> set REFUND_METHODS then Inr (method_of_text m) else Inl (bad_request ''refundMethod''))"

definition return_line_name :: "jsval \<Rightarrow> uuid \<Rightarrow> string" where
  "return_line_name v p = (case v of JStr n \<Rightarrow> if trim n \<noteq> [] then trim n else p | _ \<Rightarrow> p)"

definition parse_return_line :: "jsval \<times> nat \<Rightarrow> err + return_line" where
  "parse_return_line = (\<lambda>(raw, i).
     e_bind (as_object raw (''items['' @ show_nat i @ '']'')) (\<lambda>l.
     e_bind (parse_line_qty (get_prop l ''qty'') i) (\<lambda>qty.
     e_bind (parse_line_price (get_prop l ''price'') i) (\<lambda>price.
     e_bind (required_uuid (get_prop l ''productId'') (item_field i ''productId'')) (\<lambda>p.
     e_bind (optional_count (get_prop l ''originalQty'') (item_field i ''originalQty'')) (\<lambda>orig.
     Inr \<lparr>rl_product_id = p, rl_name = return_line_name (get_prop l ''name'') p, rl_qty = qty,
          rl_price = price, rl_original_qty = orig\<rparr>))))))"

definition parse_create_return :: "(jsval \<Rightarrow> string) \<Rightarrow> jsval \<Rightarrow> err + create_return" where
  "parse_create_return to_str body =
     e_bind (as_object body ''body'') (\<lambda>b.
     e_bind (parse_items_array (get_prop b ''items'')) (\<lambda>items.
     e_bind (optional_uuid (get_prop b ''id'') ''id'') (\<lambda>i.
     e_bind (required_uuid (get_prop b ''saleId'') ''saleId'') (\<lambda>sale.
     e_bind (optional_string (get_prop b ''cnNo'') ''cnNo'') (\<lambda>cn.
     e_bind (required_refund_method (get_prop b ''refundMethod'')) (\<lambda>meth.
     e_bind (e_mapM parse_return_line (zip items [0..<length items])) (\<lambda>ls.
     Inr \<lparr>rt_id = i, rt_sale_id = sale, rt_cn_no = cn, rt_refund_method = meth,
          rt_reason = (if is_nullish (get_prop b ''reason'') then []
            else case get_prop b ''reason'' of JStr t \<Rightarrow> t | v \<Rightarrow> to_str v),
          rt_items = ls\<rparr>)))))))"

section \<open>What a parsed credit note is\<close>

definition wf_return_line :: "return_line \<Rightarrow> bool" where
  "wf_return_line l \<longleftrightarrow> is_uuid_text (rl_product_id l) \<and> rl_name l \<noteq> [] \<and> 1 \<le> rl_qty l \<and> rl_qty l \<le> 1000000 \<and>
     0 \<le> rl_price l \<and> rl_price l \<le> MAX_SATANG \<and>
     (case rl_original_qty l of None \<Rightarrow> True | Some n \<Rightarrow> 0 \<le> n)"

definition wf_return :: "'a create_return_scheme \<Rightarrow> bool" where
  "wf_return d \<longleftrightarrow> is_uuid_text (rt_sale_id d) \<and>
     (case rt_id d of None \<Rightarrow> True | Some i \<Rightarrow> is_uuid_text i) \<and>
     rt_refund_method d \<in> {Cash_Method, Transfer, Deduct_From_Credit} \<and>
     rt_items d \<noteq> [] \<and> length (rt_items d) \<le> MAX_LINES \<and> list_all wf_return_line (rt_items d)"

lemma refund_texts [simp]:
  "transfer_text \<noteq> cash_text" "transfer_text \<noteq> qr_text" "transfer_text \<noteq> credit_text"
  "qr_text \<noteq> transfer_text" "credit_text \<noteq> transfer_text" "qr_text \<noteq> deduct_text" "credit_text \<noteq> deduct_text"
  "deduct_text \<noteq> cash_text" "deduct_text \<noteq> qr_text" "deduct_text \<noteq> credit_text" "deduct_text \<noteq> transfer_text"
  by (simp_all add: cash_text_def qr_text_def credit_text_def transfer_text_def deduct_text_def)

lemma required_refund_method_Inr:
  "required_refund_method v = Inr m \<Longrightarrow> m \<in> {Cash_Method, Transfer, Deduct_From_Credit}"
  by (auto simp: required_refund_method_def REFUND_METHODS_def method_of_text_def split: if_splits)

lemma optional_count_Inr: "optional_count v f = Inr (Some n) \<Longrightarrow> 0 \<le> n"
  by (auto simp: optional_count_def split: if_splits option.splits)

lemma uuid_text_nonempty: "is_uuid_text s \<Longrightarrow> s \<noteq> []"
  by (auto simp: is_uuid_text_def uuid_shape_def)

lemma parse_return_line_wf:
  assumes "parse_return_line x = Inr l"
  shows "wf_return_line l"
proof -
  obtain o' i p n where "optional_count o' (item_field i ''originalQty'') = Inr (rl_original_qty l)"
    "required_uuid p (item_field i ''productId'') = Inr (rl_product_id l)" "rl_name l = return_line_name n (rl_product_id l)"
    "1 \<le> rl_qty l" "rl_qty l \<le> 1000000" "0 \<le> rl_price l \<and> rl_price l \<le> MAX_SATANG"
    using assms by (auto simp: parse_return_line_def parse_line_qty_Inr dest: parse_line_price_Inr split: prod.splits)
  then show ?thesis
    using uuid_text_nonempty required_uuid_Inr
    by (auto simp: wf_return_line_def return_line_name_def dest: optional_count_Inr split: jsval.splits option.splits)
qed

section \<open>Properties\<close>

text \<open>
  A parsed credit note is well formed: one to 200 lines, each with a whole quantity from 1 to
  1,000,000, a price the columns hold and never negative, a non-empty name, and one of the three
  refund methods, so that no negative line can shrink what a credit note pays while it still puts
  goods back.
\<close>

theorem parsed_return_well_formed:
  assumes "parse_create_return to_str body = Inr d"
  shows "wf_return d"
proof -
  obtain b items where it: "parse_items_array (get_prop b ''items'') = Inr items"
    and ls: "e_mapM parse_return_line (zip items [0..<length items]) = Inr (rt_items d)"
    and rest: "optional_uuid (get_prop b ''id'') ''id'' = Inr (rt_id d)"
      "required_uuid (get_prop b ''saleId'') ''saleId'' = Inr (rt_sale_id d)"
      "required_refund_method (get_prop b ''refundMethod'') = Inr (rt_refund_method d)"
    using assms by (auto simp: parse_create_return_def)
  have "items \<noteq> [] \<and> length items \<le> MAX_LINES"
    using it by (auto simp: parse_items_array_def Let_def split: if_splits)
  moreover have "length (rt_items d) = length items" "list_all wf_return_line (rt_items d)"
    using e_mapM_Inr [OF ls] parse_return_line_wf by (simp, fastforce simp: list_all_length)
  ultimately show ?thesis
    using required_uuid_Inr [OF rest(2)] required_refund_method_Inr [OF rest(3)] rest(1)
    by (auto simp: wf_return_def dest: optional_uuid_Inr split: option.splits)
qed

definition sample_return_body :: jsval where
  "sample_return_body = JObj [(''saleId'', JStr sample_uuid), (''refundMethod'', JStr deduct_text),
     (''items'', JArr [JObj [(''productId'', JStr sample_uuid), (''qty'', JNum (Fin 3)),
       (''price'', JStr (from_satang 5000))]])]"

theorem parsed_return_well_formed_witness: "\<exists>d. parse_create_return (\<lambda>_. []) sample_return_body = Inr d \<and> wf_return d"
proof -
  have money: "to_satang (JStr (from_satang 5000)) field = Inr 5000" for field
    using to_satang_from_satang [of 5000 field] by (simp add: MAX_SATANG_def)
  have qty: "js_integer (JNum (Fin 3)) = Some 3" using js_integer_Some [of "JNum (Fin 3)" 3] by simp
  have uuid: "required_uuid (JStr sample_uuid) field = Inr sample_uuid" for field
    by (simp add: required_uuid_def parse_uuid_def sample_uuid_ok)
  have nonempty: "trim deduct_text \<noteq> []"
    by (simp add: trim_def is_space_def deduct_text_def)
  have "\<exists>d. parse_create_return (\<lambda>_. []) sample_return_body = Inr d"
    by (simp add: parse_create_return_def sample_return_body_def as_object_def parse_items_array_def get_prop_def
        MAX_LINES_def Let_def money is_nullish_def uuid optional_string_def optional_uuid_def
        required_refund_method_def required_string_def nonempty REFUND_METHODS_def parse_return_line_def
        parse_line_qty_def qty parse_line_price_def optional_count_def)
  then show ?thesis using parsed_return_well_formed by blast
qed

end
