(* ===== verification/Doc_Number.thy ===== *)
theory Doc_Number
  imports Schema
begin

text \<open>
  Document numbers (\<open>documents/doc-number.service.ts\<close>): the format printed on the paper,
  the validation of a number a till issued itself, and the counter row both paths move.
  The locale at the end is what the rest of the server relies on when it takes a number.
\<close>

section \<open>The format\<close>

fun doc_prefix :: "doc_type \<Rightarrow> string" where
  "doc_prefix Receipt = ''RC''"
| "doc_prefix Cn = ''CN''"
| "doc_prefix Po = ''PO''"
| "doc_prefix Quote = ''QT''"
| "doc_prefix Cp = ''CP''"

definition MAX_DOC_NO :: nat where "MAX_DOC_NO = 9999"

definition format_doc_number :: "doc_type \<Rightarrow> nat \<Rightarrow> string \<Rightarrow> nat \<Rightarrow> string" where
  "format_doc_number dt device_no period sn =
     doc_prefix dt @ pad_start 2 (show_nat device_no) @ ''-'' @ period @ ''-'' @
     pad_start 4 (show_nat sn)"

definition is_upper :: "char \<Rightarrow> bool" where
  "is_upper c \<longleftrightarrow> 65 \<le> (of_char c :: nat) \<and> (of_char c :: nat) \<le> 90"

text \<open>\<open>/^([A-Z]{2})(\d{2})-(\d{4}-\d{2})-(\d{4})$/\<close>\<close>

definition period_shape :: "(char \<Rightarrow> bool) list" where
  "period_shape = replicate 4 is_digit @ [\<lambda>c. c = CHR ''-''] @ replicate 2 is_digit"

definition doc_number_shape :: "(char \<Rightarrow> bool) list" where
  "doc_number_shape = replicate 2 is_upper @ replicate 2 is_digit @ [\<lambda>c. c = CHR ''-''] @
     period_shape @ [\<lambda>c. c = CHR ''-''] @ replicate 4 is_digit"

definition has_shape :: "(char \<Rightarrow> bool) list \<Rightarrow> string \<Rightarrow> bool" where
  "has_shape ps s \<longleftrightarrow> list_all2 (\<lambda>p c. p c) ps s"

definition doc_number_invalid :: err where
  "doc_number_invalid = HttpErr 400 ''DOC_NUMBER_INVALID'' NoDetail"

definition validate_doc_number :: "doc_type \<Rightarrow> nat \<Rightarrow> string \<Rightarrow> err + string \<times> nat" where
  "validate_doc_number dt caller_device_no doc_number =
     (if \<not> has_shape doc_number_shape doc_number then Inl doc_number_invalid
      else
        let prefix = take 2 doc_number; dev = take 2 (drop 2 doc_number);
            period = take 7 (drop 5 doc_number); sn_str = drop 13 doc_number;
            sn = digits_val sn_str in
        if prefix \<noteq> doc_prefix dt then Inl doc_number_invalid
        else if digits_val dev \<noteq> caller_device_no then Inl doc_number_invalid
        else if sn < 1 \<or> MAX_DOC_NO < sn then Inl doc_number_invalid
        else Inr (period, sn))"

section \<open>The counters\<close>

definition dc_key :: "doc_counter \<Rightarrow> uuid \<times> doc_type \<times> string" where
  "dc_key c = (dc_device c, dc_type c, dc_period c)"

definition last_no :: "db \<Rightarrow> uuid \<times> doc_type \<times> string \<Rightarrow> nat" where
  "last_no s k = (case row_of dc_key k (doc_counters s) of None \<Rightarrow> 0 | Some c \<Rightarrow> dc_last c)"

text \<open>
  \<open>INSERT \<dots> ON CONFLICT DO UPDATE SET last_no = f last_no\<close>, with the CHECK on the row
  written, answering the number in it.
\<close>

definition upsert_counter :: "uuid \<times> doc_type \<times> string \<Rightarrow> nat \<Rightarrow> (nat \<Rightarrow> nat) \<Rightarrow> nat op" where
  "upsert_counter k first f =
     tx_bind (tx_get (\<lambda>s. row_of dc_key k (doc_counters s))) (\<lambda>row.
       let n = (case row of None \<Rightarrow> first | Some c \<Rightarrow> f (dc_last c)) in
       tx_bind (check (n \<le> MAX_DOC_NO) ''doc_counters_last_no_check'') (\<lambda>_.
       tx_bind (tx_modify (\<lambda>s. s\<lparr>doc_counters :=
          (case row of
             None \<Rightarrow> doc_counters s @
               [\<lparr>dc_device = fst k, dc_type = fst (snd k), dc_period = snd (snd k), dc_last = first\<rparr>]
           | Some c \<Rightarrow> upd_where (\<lambda>c. dc_key c = k) (\<lambda>c. c\<lparr>dc_last := f (dc_last c)\<rparr>) (doc_counters s))\<rparr>))
       (\<lambda>_. tx_ret n)))"

definition device_no :: "uuid \<Rightarrow> nat op" where
  "device_no dev =
     tx_bind (tx_get (\<lambda>s. row_of d_id dev (devices s))) (\<lambda>row.
       case row of
         None \<Rightarrow> tx_throw device_role_forbidden
       | Some d \<Rightarrow> if d_retired d then tx_throw device_role_forbidden else tx_ret (d_no d))"

definition record_client_doc_number :: "uuid \<Rightarrow> doc_type \<Rightarrow> string \<Rightarrow> string op" where
  "record_client_doc_number dev dt doc_number =
     tx_bind (device_no dev) (\<lambda>no.
     tx_bind (tx_lift (validate_doc_number dt no doc_number)) (\<lambda>(period, sn).
     tx_bind (upsert_counter (dev, dt, period) sn (max sn)) (\<lambda>_.
     tx_ret doc_number)))"

definition doc_number_exhausted :: err where
  "doc_number_exhausted = HttpErr 409 ''DOC_NUMBER_EXHAUSTED'' NoDetail"

definition map_check_violation :: "err \<Rightarrow> err" where
  "map_check_violation e =
     (case e of DbErr code _ \<Rightarrow> if code = ''23514'' then doc_number_exhausted else e | _ \<Rightarrow> e)"

definition issue :: "env \<Rightarrow> uuid \<Rightarrow> doc_type \<Rightarrow> string op" where
  "issue e dev dt =
     tx_bind (device_no dev) (\<lambda>no.
     tx_bind (tx_get tenant_tz) (\<lambda>tz.
     case tz of
       None \<Rightarrow> tx_throw (Fault ''No document number allocated'')
     | Some zone \<Rightarrow>
         let period = period_at e zone (now e) in
         tx_bind (map_db_err map_check_violation (upsert_counter (dev, dt, period) 1 (\<lambda>n. n + 1)))
           (\<lambda>n. tx_ret (format_doc_number dt no period n))))"

definition resolve_doc_number :: "env \<Rightarrow> uuid \<Rightarrow> doc_type \<Rightarrow> string option \<Rightarrow> string op" where
  "resolve_doc_number e dev dt client_doc_number =
     (case client_doc_number of
        Some n \<Rightarrow>
          if trim n \<noteq> [] then record_client_doc_number dev dt (trim n)
          else if \<not> fallback e then tx_throw (HttpErr 400 ''DOC_NUMBER_REQUIRED'' NoDetail)
          else issue e dev dt
      | None \<Rightarrow>
          if \<not> fallback e then tx_throw (HttpErr 400 ''DOC_NUMBER_REQUIRED'' NoDetail)
          else issue e dev dt)"

section \<open>Facts about the format\<close>

lemma digits_val_inj:
  assumes "length s = length t" "list_all is_digit s" "list_all is_digit t" "digits_val s = digits_val t"
  shows "s = t"
  using assms
proof (induction s arbitrary: t rule: rev_induct)
  case (snoc c s)
  then obtain t' d where t: "t = t' @ [d]" by (cases t rule: rev_cases) auto
  have b: "digit_val c < 10" "digit_val d < 10"
    using snoc.prems t by (auto simp: is_digit_def digit_val_def)
  have v: "10 * digits_val s + digit_val c = 10 * digits_val t' + digit_val d"
    using snoc.prems(4) t by simp
  then have "digits_val s = digits_val t'" "digit_val c = digit_val d"
    using b by presburger+
  moreover have "c = d" if "digit_val c = digit_val d"
    using that snoc.prems(2,3) t
    by (auto simp: digit_val_def is_digit_def) (metis eq_diff_iff of_char_eq_iff)
  ultimately show ?case using snoc t by auto
qed simp

lemma pad_show_digits:
  assumes "list_all is_digit s" "length s = w" "0 < w"
  shows "pad_start w (show_nat (digits_val s)) = s"
proof (rule digits_val_inj)
  have "digits_val s < 10 ^ length s"
    using assms(1)
  proof (induction s rule: rev_induct)
    case (snoc c s)
    then have "digit_val c < 10" by (auto simp: is_digit_def digit_val_def)
    moreover have "digits_val s < 10 ^ length s" using snoc by simp
    ultimately show ?case by simp
  qed simp
  then have "length (show_nat (digits_val s)) \<le> w"
    using assms by (intro length_show_nat_mono) simp_all
  then show "length (pad_start w (show_nat (digits_val s))) = length s"
    using assms by (simp add: length_pad_start)
  show "list_all is_digit (pad_start w (show_nat (digits_val s)))"
    using pad_start_digits [OF show_nat_digits] by (simp add: list_all_iff)
qed (use assms in simp_all)

lemma pad_show_shape:
  assumes "0 < w" "n < 10 ^ w"
  shows "has_shape (replicate w is_digit) (pad_start w (show_nat n))"
proof -
  have "length (pad_start w (show_nat n)) = w"
    using assms by (intro length_pad_start length_show_nat_mono)
  moreover have "\<forall>c \<in> set (pad_start w (show_nat n)). is_digit c"
    by (intro pad_start_digits show_nat_digits)
  ultimately show ?thesis by (simp add: has_shape_def list_all2_conv_all_nth)
qed

lemma has_shape_append:
  "has_shape ps s \<Longrightarrow> has_shape qs t \<Longrightarrow> has_shape (ps @ qs) (s @ t)"
  by (simp add: has_shape_def list_all2_appendI)

lemma has_shape_length: "has_shape ps s \<Longrightarrow> length s = length ps"
  by (auto simp: has_shape_def dest: list_all2_lengthD)

lemma doc_number_split:
  assumes "has_shape doc_number_shape n"
  shows "n = take 2 n @ take 2 (drop 2 n) @ ''-'' @ take 7 (drop 5 n) @ ''-'' @ drop 13 n"
    "length n = 17" "list_all is_digit (take 2 (drop 2 n))" "list_all is_digit (drop 13 n)"
proof -
  show l: "length n = 17"
    using has_shape_length [OF assms] by (simp add: doc_number_shape_def period_shape_def)
  from l have "n = map (\<lambda>i. n ! i) [0..<17]" by (metis map_nth)
  then obtain a b c d e f g h i j k l m u p q r where
    n: "n = [a, b, c, d, e, f, g, h, i, j, k, l, m, u, p, q, r]"
    by (simp add: upt_rec)
  show "n = take 2 n @ take 2 (drop 2 n) @ ''-'' @ take 7 (drop 5 n) @ ''-'' @ drop 13 n"
    and "list_all is_digit (take 2 (drop 2 n))" and "list_all is_digit (drop 13 n)"
    using assms
    by (simp_all add: n has_shape_def doc_number_shape_def period_shape_def numeral_eq_Suc)
qed

lemma doc_prefix_length [simp]: "length (doc_prefix dt) = 2"
  by (cases dt) simp_all

lemma doc_prefix_upper: "has_shape (replicate 2 is_upper) (doc_prefix dt)"
  by (cases dt) (simp_all add: has_shape_def is_upper_def numeral_eq_Suc)

lemma validated_is_formatted:
  assumes "validate_doc_number dt no n = Inr (p, k)"
  shows "n = format_doc_number dt no p k \<and> 1 \<le> k \<and> k \<le> MAX_DOC_NO"
proof -
  have sh: "has_shape doc_number_shape n" and pre: "take 2 n = doc_prefix dt"
    and no: "digits_val (take 2 (drop 2 n)) = no" and p: "p = take 7 (drop 5 n)"
    and k: "k = digits_val (drop 13 n)" "1 \<le> k" "k \<le> MAX_DOC_NO"
    using assms by (auto simp: validate_doc_number_def Let_def split: if_splits)
  note d = doc_number_split [OF sh]
  have "pad_start 2 (show_nat no) = take 2 (drop 2 n)"
    using pad_show_digits [OF d(3), of 2] d(2) no by simp
  moreover have "pad_start 4 (show_nat k) = drop 13 n"
    using pad_show_digits [OF d(4), of 4] d(2) k(1) by simp
  ultimately have "n = format_doc_number dt no p k"
    using d(1) pre p by (simp add: format_doc_number_def)
  with k show ?thesis by simp
qed

lemma format_inj:
  assumes "format_doc_number dt no p k = format_doc_number dt no q j" "k \<le> MAX_DOC_NO" "j \<le> MAX_DOC_NO"
  shows "p = q \<and> k = j"
proof -
  have len: "length (pad_start 4 (show_nat i)) = 4" if "i \<le> MAX_DOC_NO" for i
    using that by (intro length_pad_start length_show_nat_mono) (simp_all add: MAX_DOC_NO_def)
  have "(p @ ''-'') @ pad_start 4 (show_nat k) = (q @ ''-'') @ pad_start 4 (show_nat j)"
    using assms(1) by (simp add: format_doc_number_def)
  then have "p @ ''-'' = q @ ''-''" "pad_start 4 (show_nat k) = pad_start 4 (show_nat j)"
    using append_eq_append_conv [of "pad_start 4 (show_nat k)" "pad_start 4 (show_nat j)"]
    by (simp_all add: len assms del: append_assoc)
  then show ?thesis by (metis append_same_eq digits_val_pad digits_val_show_nat)
qed

section \<open>Facts about the counters\<close>

definition counters_le :: "db \<Rightarrow> db \<Rightarrow> bool" where
  "counters_le s s' \<longleftrightarrow> (\<forall>k. last_no s k \<le> last_no s' k)"

lemma counters_le_refl [simp]: "counters_le s s"
  by (simp add: counters_le_def)

lemma counters_le_trans: "counters_le s t \<Longrightarrow> counters_le t u \<Longrightarrow> counters_le s u"
  unfolding counters_le_def by (meson order_trans)

interpretation counter_upd: keyed_update dc_key "\<lambda>c. c\<lparr>dc_last := f (dc_last c)\<rparr>" for f
  by unfold_locales (simp add: dc_key_def)

lemma upsert_counter_Inr:
  assumes "upsert_counter k first f s = Inr (n, s')"
  shows "\<exists>cs. s' = s\<lparr>doc_counters := cs\<rparr>"
    and "n = (case row_of dc_key k (doc_counters s) of None \<Rightarrow> first | Some c \<Rightarrow> f (dc_last c))"
    and "n \<le> MAX_DOC_NO" and "last_no s' k = n"
    and "j \<noteq> k \<Longrightarrow> last_no s' j = last_no s j"
proof -
  note a = assms [unfolded upsert_counter_def check_def Let_def, simplified]
  show "\<exists>cs. s' = s\<lparr>doc_counters := cs\<rparr>" using a by (auto split: if_splits)
  show n: "n = (case row_of dc_key k (doc_counters s) of None \<Rightarrow> first | Some c \<Rightarrow> f (dc_last c))"
    and "n \<le> MAX_DOC_NO" using a by (auto split: if_splits)
  have s': "s' = s\<lparr>doc_counters := (case row_of dc_key k (doc_counters s) of
      None \<Rightarrow> doc_counters s @
        [\<lparr>dc_device = fst k, dc_type = fst (snd k), dc_period = snd (snd k), dc_last = first\<rparr>]
    | Some c \<Rightarrow> upd_where (\<lambda>c. dc_key c = k) (\<lambda>c. c\<lparr>dc_last := f (dc_last c)\<rparr>) (doc_counters s))\<rparr>"
    using a by (auto split: if_splits)
  have new_key: "dc_key \<lparr>dc_device = fst i, dc_type = fst (snd i), dc_period = snd (snd i), dc_last = m\<rparr> = i"
    for i m by (simp add: dc_key_def)
  show "last_no s' k = n"
    unfolding s' n last_no_def
    by (cases "row_of dc_key k (doc_counters s)")
      (simp_all add: row_of_append counter_upd.row_of_upd new_key)
  show "last_no s' j = last_no s j" if "j \<noteq> k"
    unfolding s' last_no_def using that
    by (cases "row_of dc_key k (doc_counters s)"; cases "row_of dc_key j (doc_counters s)")
      (auto simp: row_of_append counter_upd.row_of_upd new_key)
qed

lemma upsert_counter_grows:
  assumes "upsert_counter k first f s = Inr (n, s')" "\<And>i. i \<le> f i"
  shows "counters_le s s'"
  unfolding counters_le_def
proof
  fix j
  note u = upsert_counter_Inr [OF assms(1)]
  show "last_no s j \<le> last_no s' j"
  proof (cases "j = k")
    case True
    then show ?thesis using u(2,4) assms(2) by (auto simp: last_no_def split: option.splits)
  next
    case False
    then show ?thesis using u(5) by simp
  qed
qed

lemma device_no_Inr:
  "device_no dev s = Inr (no, s') \<longleftrightarrow>
     s' = s \<and> (\<exists>d. row_of d_id dev (devices s) = Some d \<and> \<not> d_retired d \<and> no = d_no d)"
  by (auto simp: device_no_def split: option.splits if_splits)

lemma issue_Inr:
  assumes "issue e dev dt s = Inr (n, s')"
  obtains d zone where "row_of d_id dev (devices s) = Some d" "\<not> d_retired d"
    "tenant_tz s = Some zone"
    "n = format_doc_number dt (d_no d) (period_at e zone (now e))
       (last_no s (dev, dt, period_at e zone (now e)) + 1)"
    "last_no s (dev, dt, period_at e zone (now e)) + 1 \<le> MAX_DOC_NO"
    "last_no s' (dev, dt, period_at e zone (now e)) =
       last_no s (dev, dt, period_at e zone (now e)) + 1"
    "\<exists>cs. s' = s\<lparr>doc_counters := cs\<rparr>" "counters_le s s'"
proof -
  from assms obtain d zone k where d: "row_of d_id dev (devices s) = Some d" "\<not> d_retired d"
    and z: "tenant_tz s = Some zone"
    and u: "upsert_counter (dev, dt, period_at e zone (now e)) 1 (\<lambda>n. n + 1) s = Inr (k, s')"
    and n: "n = format_doc_number dt (d_no d) (period_at e zone (now e)) k"
    by (auto simp: issue_def device_no_Inr Let_def split: option.splits)
  have k: "k = last_no s (dev, dt, period_at e zone (now e)) + 1"
    using upsert_counter_Inr(2) [OF u] by (simp add: last_no_def split: option.splits)
  show thesis
    using that [OF d z] n k upsert_counter_Inr(1,3,4) [OF u] upsert_counter_grows [OF u] by simp
qed

lemma record_Inr:
  assumes "record_client_doc_number dev dt doc s = Inr (n, s')"
  obtains d p k where "row_of d_id dev (devices s) = Some d" "\<not> d_retired d" "n = doc"
    "n = format_doc_number dt (d_no d) p k" "1 \<le> k" "k \<le> MAX_DOC_NO"
    "k \<le> last_no s' (dev, dt, p)" "\<exists>cs. s' = s\<lparr>doc_counters := cs\<rparr>" "counters_le s s'"
proof -
  from assms obtain d p k j where d: "row_of d_id dev (devices s) = Some d" "\<not> d_retired d"
    and v: "validate_doc_number dt (d_no d) doc = Inr (p, k)"
    and u: "upsert_counter (dev, dt, p) k (max k) s = Inr (j, s')" and n: "n = doc"
    by (auto simp: record_client_doc_number_def device_no_Inr)
  have "k \<le> last_no s' (dev, dt, p)"
    using upsert_counter_Inr(2,4) [OF u] by (auto split: option.splits)
  then show thesis
    using that [OF d] validated_is_formatted [OF v] n upsert_counter_Inr(1) [OF u]
      upsert_counter_grows [OF u] by simp
qed

section \<open>The interface the documents use\<close>

text \<open>
  Whoever writes a document takes a number by some operation of which it relies on three
  things: nothing but the counters moves, no counter goes back, and the device is live.
\<close>

locale number_source =
  fixes take_number :: "string op" and dev :: uuid
  assumes only_counters: "take_number s = Inr (n, s') \<Longrightarrow> \<exists>cs. s' = s\<lparr>doc_counters := cs\<rparr>"
    and counters_grow: "take_number s = Inr (n, s') \<Longrightarrow> counters_le s s'"
    and live_device: "take_number s = Inr (n, s') \<Longrightarrow>
      \<exists>d. row_of d_id dev (devices s) = Some d \<and> \<not> d_retired d"
begin

text \<open>Any fact that does not read the counters survives the taking of a number.\<close>

lemma keeps_if_blind:
  assumes "\<And>s cs. I (s\<lparr>doc_counters := cs\<rparr>) = I s"
  shows "tx_keeps I take_number"
  using only_counters assms by (fastforce intro: tx_keepsI)

lemma reads_unchanged:
  assumes "take_number s = Inr (n, s')" "\<And>s cs. f (s\<lparr>doc_counters := cs\<rparr>) = f s"
  shows "f s' = f s"
  using only_counters [OF assms(1)] assms(2) by auto

lemma forbidden_device:
  assumes "row_of d_id dev (devices s) = None"
  shows "\<not> (\<exists>n s'. take_number s = Inr (n, s'))"
  using live_device assms by fastforce

end

interpretation issued: number_source "issue e dev dt" dev for e dev dt
  by unfold_locales (blast elim: issue_Inr)+

interpretation recorded: number_source "record_client_doc_number dev dt doc" dev for dev dt doc
  by unfold_locales (blast elim: record_Inr)+

lemma resolve_cases:
  "resolve_doc_number e dev dt c s = Inr r \<Longrightarrow>
     issue e dev dt s = Inr r \<or> (\<exists>doc. record_client_doc_number dev dt doc s = Inr r)"
  by (auto simp: resolve_doc_number_def split: option.splits if_splits)

interpretation resolved: number_source "resolve_doc_number e dev dt c" dev for e dev dt c
proof
  fix s n s'
  assume "resolve_doc_number e dev dt c s = Inr (n, s')"
  from resolve_cases [OF this]
  have r: "issue e dev dt s = Inr (n, s') \<or> (\<exists>doc. record_client_doc_number dev dt doc s = Inr (n, s'))" .
  show "\<exists>cs. s' = s\<lparr>doc_counters := cs\<rparr>"
    using r issued.only_counters recorded.only_counters by blast
  show "counters_le s s'"
    using r issued.counters_grow recorded.counters_grow by blast
  show "\<exists>d. row_of d_id dev (devices s) = Some d \<and> \<not> d_retired d"
    using r issued.live_device recorded.live_device by blast
qed

lemma tx_fixes_resolve [tx_fix]:
  "(\<And>s cs. f (s\<lparr>doc_counters := cs\<rparr>) = f s) \<Longrightarrow> tx_fixes f (resolve_doc_number e dev dt c)"
  "(\<And>s cs. f (s\<lparr>doc_counters := cs\<rparr>) = f s) \<Longrightarrow> tx_fixes f (issue e dev dt)"
  by (rule tx_fixesI, erule resolved.reads_unchanged issued.reads_unchanged, simp)+

lemma issued_above_taken:
  assumes "issue e dev dt s1 = Inr (n, s2) \<or> record_client_doc_number dev dt doc s1 = Inr (n, s2)"
    and "counters_le s2 s3" and "issue e' dev dt s3 = Inr (n', s4)"
    and "map_option d_no (row_of d_id dev (devices s3)) = map_option d_no (row_of d_id dev (devices s1))"
  shows "n' \<noteq> n"
proof -
  from assms(1) obtain d p k where d: "row_of d_id dev (devices s1) = Some d"
    and n: "n = format_doc_number dt (d_no d) p k" "k \<le> MAX_DOC_NO" "k \<le> last_no s2 (dev, dt, p)"
    by (auto elim!: issue_Inr record_Inr)
  from assms(3) obtain d' zone where d': "row_of d_id dev (devices s3) = Some d'"
    and n': "n' = format_doc_number dt (d_no d') (period_at e' zone (now e'))
       (last_no s3 (dev, dt, period_at e' zone (now e')) + 1)"
      "last_no s3 (dev, dt, period_at e' zone (now e')) + 1 \<le> MAX_DOC_NO"
    by (auto elim: issue_Inr)
  have same: "d_no d' = d_no d" using assms(4) d d' by simp
  show ?thesis
  proof
    assume "n' = n"
    with n n' same have "p = period_at e' zone (now e')" "k = last_no s3 (dev, dt, p) + 1"
      using format_inj by metis+
    moreover have "last_no s2 (dev, dt, p) \<le> last_no s3 (dev, dt, p)"
      using assms(2) by (simp add: counters_le_def)
    ultimately show False using n(3) by simp
  qed
qed

lemma doc_number_parses:
  assumes "no < 100" "has_shape period_shape p" "1 \<le> k" "k \<le> MAX_DOC_NO"
  shows "validate_doc_number dt no (format_doc_number dt no p k) = Inr (p, k)"
proof -
  let ?dev = "pad_start 2 (show_nat no)" and ?k = "pad_start 4 (show_nat k)"
  have len: "length ?dev = 2" "length ?k = 4" "length p = 7"
    using assms has_shape_length [OF assms(2)]
    by (auto intro!: length_pad_start length_show_nat_mono simp: MAX_DOC_NO_def period_shape_def)
  have "has_shape doc_number_shape (format_doc_number dt no p k)"
    unfolding format_doc_number_def doc_number_shape_def
    by (intro has_shape_append doc_prefix_upper pad_show_shape assms(2))
      (use assms in \<open>simp_all add: has_shape_def MAX_DOC_NO_def\<close>)
  moreover have "take 2 (format_doc_number dt no p k) = doc_prefix dt"
    "take 2 (drop 2 (format_doc_number dt no p k)) = ?dev"
    "take 7 (drop 5 (format_doc_number dt no p k)) = p" "drop 13 (format_doc_number dt no p k) = ?k"
    by (simp_all add: format_doc_number_def len)
  ultimately show ?thesis
    using assms(3,4) by (simp add: validate_doc_number_def Let_def)
qed

section \<open>Properties\<close>

text \<open>
  C39. The two directions of the number on the paper agree: a number formatted for a device, a month
  and a counter value is validated back to them, and whatever validates is the number the server
  itself would have formatted.
\<close>

theorem doc_number_round_trip:
  assumes "no < 100" "has_shape period_shape p" "1 \<le> k" "k \<le> MAX_DOC_NO"
  shows "validate_doc_number dt no (format_doc_number dt no p k) = Inr (p, k) \<and>
    (\<forall>n q j. validate_doc_number dt no n = Inr (q, j) \<longrightarrow> n = format_doc_number dt no q j)"
  using doc_number_parses [OF assms] validated_is_formatted by blast

theorem doc_number_round_trip_witness:
  "validate_doc_number Cn 7 (format_doc_number Cn 7 ''2569-10'' 42) = Inr (''2569-10'', 42)"
  using doc_number_round_trip [of 7 "''2569-10''" 42 Cn]
  by (simp add: has_shape_def period_shape_def numeral_eq_Suc is_digit_def MAX_DOC_NO_def)

text \<open>
  Issuing: a live device of a shop gets the number after the last one of its series this
  month and only the counter moves; at 9999 the answer is \<open>409 DOC_NUMBER_EXHAUSTED\<close>, never a
  number that wraps round.
\<close>

theorem issue_next_number:
  assumes "row_of d_id dev (devices s) = Some d" "\<not> d_retired d" "tenant_tz s = Some z"
  shows "let p = period_at e z (now e); k = last_no s (dev, dt, p) + 1 in
    (if k \<le> MAX_DOC_NO
     then (\<exists>cs. issue e dev dt s = Inr (format_doc_number dt (d_no d) p k, s\<lparr>doc_counters := cs\<rparr>) \<and>
            last_no (s\<lparr>doc_counters := cs\<rparr>) (dev, dt, p) = k)
     else issue e dev dt s = Inl doc_number_exhausted)"
proof -
  let ?p = "period_at e z (now e)"
  let ?key = "(dev, dt, ?p)"
  have dn: "device_no dev s = Inr (d_no d, s)" using assms by (simp add: device_no_Inr)
  have n: "(case row_of dc_key ?key (doc_counters s) of None \<Rightarrow> 1 | Some c \<Rightarrow> dc_last c + 1) = last_no s ?key + 1"
    by (simp add: last_no_def split: option.split)
  have run: "issue e dev dt s = (case upsert_counter ?key 1 (\<lambda>n. n + 1) s of
      Inl x \<Rightarrow> Inl (map_check_violation x)
    | Inr (k, s') \<Rightarrow> Inr (format_doc_number dt (d_no d) ?p k, s'))"
  proof -
    have "issue e dev dt s = tx_bind (map_db_err map_check_violation (upsert_counter ?key 1 (\<lambda>n. n + 1)))
        (\<lambda>n. tx_ret (format_doc_number dt (d_no d) ?p n)) s"
      by (simp add: issue_def tx_bind_Inr_run [where m = "device_no dev" and s = s, OF dn] assms(3) Let_def)
    then show ?thesis by (simp add: tx_bind_def map_db_err_def split: sum.split)
  qed
  show ?thesis
  proof (cases "last_no s ?key + 1 \<le> MAX_DOC_NO")
    case True
    then obtain s' where u: "upsert_counter ?key 1 (\<lambda>n. n + 1) s = Inr (last_no s ?key + 1, s')"
      using n True
      by (cases "row_of dc_key ?key (doc_counters s)") (simp_all add: upsert_counter_def Let_def check_def)
    with run upsert_counter_Inr(1,4) [OF u] True show ?thesis by (auto simp: Let_def)
  next
    case False
    then have "upsert_counter ?key 1 (\<lambda>n. n + 1) s = Inl (DbErr ''23514'' ''doc_counters_last_no_check'')"
      using n False
      by (cases "row_of dc_key ?key (doc_counters s)") (simp_all add: upsert_counter_def Let_def check_def)
    with run False show ?thesis by (simp add: Let_def map_check_violation_def)
  qed
qed

theorem issue_next_number_witness:
  "\<exists>s'. issue sample_env ''d'' Receipt (blank_db\<lparr>devices := [plain_device ''d'' 3],
       doc_counters := [\<lparr>dc_device = ''d'', dc_type = Receipt, dc_period = ''2569-10'', dc_last = 41\<rparr>]\<rparr>) =
     Inr (format_doc_number Receipt 3 ''2569-10'' 42, s')"
  using issue_next_number [where e = sample_env and dt = Receipt and dev = "''d''"
      and d = "plain_device ''d'' 3" and z = "''Asia/Bangkok''"
      and s = "blank_db\<lparr>devices := [plain_device ''d'' 3],
        doc_counters := [\<lparr>dc_device = ''d'', dc_type = Receipt, dc_period = ''2569-10'', dc_last = 41\<rparr>]\<rparr>"]
  by (auto simp: Let_def last_no_def dc_key_def MAX_DOC_NO_def)

end
