(* ===== verification/Shifts.thy ===== *)
theory Shifts
  imports Doc_Number
begin

text \<open>
  The cash drawer (\<open>shifts/shifts.service.ts\<close>, \<open>shifts/shifts.dto.ts\<close>) and the one rule
  for the cash it should hold (\<open>reports/drawer-cash.sql.ts\<close>). The locale \<open>shift_gate\<close> is
  what the money path relies on when it stamps a document with a shift.
\<close>

section \<open>Request bodies\<close>

definition cash :: "jsval \<Rightarrow> string \<Rightarrow> err + int" where
  "cash v field =
     (if is_nullish v \<or> v = JStr [] then Inl (bad_request field)
      else e_bind (to_satang v field) (\<lambda>n.
        if n < 0 then Inl (bad_request field) else Inr n))"

record shift_open_body =
  so_id :: "string option"
  so_starting_cash :: int

definition parse_shift_open :: "jsval \<Rightarrow> err + shift_open_body" where
  "parse_shift_open body =
     e_bind (as_object body ''body'') (\<lambda>b.
     e_bind (if is_nullish (get_prop b ''id'') then Inr None
             else e_bind (parse_uuid (get_prop b ''id'') ''id'') (\<lambda>i. Inr (Some i))) (\<lambda>i.
     e_bind (cash (get_prop b ''startingCash'') ''startingCash'') (\<lambda>c.
     Inr \<lparr>so_id = i, so_starting_cash = c\<rparr>)))"

record drawer_entry_body =
  db_id :: "string option"
  db_type :: flow
  db_amount :: int
  db_note :: "string option"

text \<open>The note is taken by \<open>String(b.note)\<close>; \<open>to_str\<close> is that conversion off strings.\<close>

definition parse_drawer_entry :: "(jsval \<Rightarrow> string) \<Rightarrow> jsval \<Rightarrow> err + drawer_entry_body" where
  "parse_drawer_entry to_str body =
     e_bind (as_object body ''body'') (\<lambda>b.
     e_bind (if get_prop b ''type'' = JStr ''in'' then Inr Flow_In
             else if get_prop b ''type'' = JStr ''out'' then Inr Flow_Out
             else Inl (bad_request ''type'')) (\<lambda>ty.
     e_bind (to_satang (get_prop b ''amount'') ''amount'') (\<lambda>n.
     if n \<le> 0 then Inl (bad_request ''amount'')
     else e_bind (optional_uuid (get_prop b ''id'') ''id'') (\<lambda>i.
       Inr \<lparr>db_id = i, db_type = ty, db_amount = n,
            db_note = (if is_nullish (get_prop b ''note'') then None
                       else Some (case get_prop b ''note'' of JStr t \<Rightarrow> t | v \<Rightarrow> to_str v))\<rparr>))))"

section \<open>The cash a drawer should hold\<close>

definition counted_sale :: "db \<Rightarrow> sale \<Rightarrow> bool" where
  "counted_sale s b \<longleftrightarrow> \<not> (s_voided b \<and> \<not> has_key r_sale_id (s_id b) (returns s))"

definition cash_sales :: "db \<Rightarrow> uuid \<Rightarrow> int" where
  "cash_sales s sh = sum_by s_total
     (filter (\<lambda>b. s_shift_id b = Some sh \<and> s_payment_method b = Cash_Method \<and> counted_sale s b) (sales s))"

definition cash_credit_payments :: "db \<Rightarrow> uuid \<Rightarrow> int" where
  "cash_credit_payments s sh = sum_by cp_amount
     (filter (\<lambda>p. cp_shift_id p = Some sh \<and> cp_payment_method p = Some Cash_Method) (credit_payments s))"

definition cash_refunds :: "db \<Rightarrow> uuid \<Rightarrow> int" where
  "cash_refunds s sh = sum_by r_refund_total
     (filter (\<lambda>r. r_shift_id r = Some sh \<and> r_refund_method r = Cash_Method) (returns s))"

definition drawer_flow :: "flow \<Rightarrow> db \<Rightarrow> uuid \<Rightarrow> int" where
  "drawer_flow dir s sh = sum_by de_amount
     (filter (\<lambda>d. de_shift_id d = sh \<and> de_type d = dir) (drawer_entries s))"

definition expected_cash :: "db \<Rightarrow> uuid \<Rightarrow> int" where
  "expected_cash s sh =
     (case row_of sh_id sh (shifts s) of
        None \<Rightarrow> 0
      | Some r \<Rightarrow> sh_starting_cash r + cash_sales s sh + cash_credit_payments s sh
                - cash_refunds s sh + drawer_flow Flow_In s sh - drawer_flow Flow_Out s sh)"

section \<open>Finding the drawer\<close>

text \<open>\<open>ORDER BY opened_at DESC LIMIT 1\<close>.\<close>

fun newest :: "shift list \<Rightarrow> shift option" where
  "newest [] = None"
| "newest (r # rs) =
     (case newest rs of
        None \<Rightarrow> Some r
      | Some q \<Rightarrow> if sh_opened_at r < sh_opened_at q then Some q else Some r)"

definition is_current :: "uuid \<Rightarrow> shift \<Rightarrow> bool" where
  "is_current dev r \<longleftrightarrow> sh_is_active r \<and> sh_device_id r = Some dev"

definition is_open :: "uuid \<Rightarrow> shift \<Rightarrow> bool" where
  "is_open dev r \<longleftrightarrow> is_current dev r \<and> sh_closed_at r = None"

definition no_open_shift :: err where
  "no_open_shift = HttpErr 409 ''NO_OPEN_SHIFT'' NoDetail"

definition current_shift_id_for :: "uuid \<Rightarrow> uuid option op" where
  "current_shift_id_for dev = tx_get (\<lambda>s. map_option sh_id (newest (filter (is_open dev) (shifts s))))"

definition require_open_shift_id_for :: "uuid \<Rightarrow> uuid op" where
  "require_open_shift_id_for dev =
     tx_bind (tx_get (\<lambda>s. newest (filter (is_open dev) (shifts s)))) (\<lambda>r.
       case r of None \<Rightarrow> tx_throw no_open_shift | Some q \<Rightarrow> tx_ret (sh_id q))"

definition lock_active :: "uuid \<Rightarrow> shift op" where
  "lock_active dev =
     tx_bind (tx_get (\<lambda>s. newest (filter (is_current dev) (shifts s)))) (\<lambda>r.
       case r of None \<Rightarrow> tx_throw no_open_shift | Some q \<Rightarrow> tx_ret q)"

text \<open>The rows of a shift's answer: the shift and its entries, newest first.\<close>

type_synonym shift_with_entries = "shift \<times> drawer_entry list"

definition with_entries :: "shift \<Rightarrow> shift_with_entries op" where
  "with_entries r = tx_get (\<lambda>s. (r, sort_key (\<lambda>d. - de_created_at d)
     (filter (\<lambda>d. de_shift_id d = sh_id r) (drawer_entries s))))"

definition current_shift :: "shift_with_entries option op" where
  "current_shift =
     tx_bind (tx_get (\<lambda>s. newest (filter sh_is_active (shifts s)))) (\<lambda>r.
       case r of
         None \<Rightarrow> tx_ret None
       | Some q \<Rightarrow> tx_bind (with_entries q) (\<lambda>a. tx_ret (Some a)))"

section \<open>Opening\<close>

definition archive :: "env \<Rightarrow> shift \<Rightarrow> bool op" where
  "archive e r =
     (let never_closed = (sh_closed_at r = None) in
      tx_bind (tx_modify (\<lambda>s. s\<lparr>shifts := upd_where (\<lambda>q. sh_id q = sh_id r)
        (\<lambda>q. q\<lparr>sh_is_active := False,
               sh_auto_archived := sh_auto_archived q \<or> never_closed,
               sh_archived_at := (case sh_archived_at q of None \<Rightarrow> Some (now e) | Some t \<Rightarrow> Some t)\<rparr>)
        (shifts s)\<rparr>)) (\<lambda>_. tx_ret never_closed))"

definition date_str_of :: "env \<Rightarrow> int \<Rightarrow> string op" where
  "date_str_of e t =
     tx_bind (tx_get tenant_tz) (\<lambda>tz.
       case tz of None \<Rightarrow> tx_throw (Fault ''Tenant not found'') | Some z \<Rightarrow> tx_ret (day_at e z t))"

text \<open>
  \<open>INSERT INTO shifts \<dots> ON CONFLICT \<dots> DO NOTHING RETURNING\<close>: the conflict target is the
  primary key when the client chose the id, the active-shift index otherwise; a clash on
  the other index is an error.
\<close>

definition active_clash :: "shift \<Rightarrow> db \<Rightarrow> bool" where
  "active_clash r s \<longleftrightarrow> sh_is_active r \<and> sh_device_id r \<noteq> None \<and>
     list_ex (\<lambda>q. sh_is_active q \<and> sh_device_id q = sh_device_id r) (shifts s)"

definition insert_shift :: "bool \<Rightarrow> shift \<Rightarrow> bool op" where
  "insert_shift by_id r =
     tx_bind (numeric_12_2 (sh_starting_cash r)) (\<lambda>_.
     tx_bind (tx_get id) (\<lambda>s.
       let pk = has_key sh_id (sh_id r) (shifts s); act = active_clash r s in
       if (if by_id then pk else act) then tx_ret False
       else
         tx_bind (unique (\<not> pk) ''shifts_pkey'') (\<lambda>_.
         tx_bind (unique (\<not> act) ''uq_shift_active'') (\<lambda>_.
         tx_bind (tx_modify (\<lambda>s. s\<lparr>shifts := shifts s @ [r]\<rparr>)) (\<lambda>_. tx_ret True)))))"

definition reviewed_shift :: "uuid \<Rightarrow> shift \<Rightarrow> jsval" where
  "reviewed_shift dev r = JObj
     [(''shiftId'', JStr (sh_id r)), (''deviceId'', JStr dev),
      (''startingCash'', JStr (from_satang (sh_starting_cash r))),
      (''openedAt'', JStr (iso_string (sh_opened_at r)))]"

definition live_device :: "uuid \<Rightarrow> unit op" where
  "live_device dev =
     tx_bind (tx_get (\<lambda>s. row_of d_id dev (devices s))) (\<lambda>d.
       case d of
         None \<Rightarrow> tx_throw device_role_forbidden
       | Some r \<Rightarrow> tx_guard (\<not> d_retired r) device_role_forbidden)"

definition archive_current :: "env \<Rightarrow> uuid \<Rightarrow> unit op" where
  "archive_current e dev =
     tx_bind (tx_get (\<lambda>s. newest (filter (is_current dev) (shifts s)))) (\<lambda>active.
       case active of
         None \<Rightarrow> tx_ret ()
       | Some r \<Rightarrow>
           tx_bind (archive e r) (\<lambda>uncounted.
             if uncounted
             then insert_review_item e ''shift_uncounted'' (sh_id r) (reviewed_shift dev r)
             else tx_ret ()))"

definition open_new :: "env \<Rightarrow> actor \<Rightarrow> string option \<Rightarrow> int \<Rightarrow> int option \<Rightarrow> shift_with_entries op" where
  "open_new e a shift_id starting_cash opened_at =
     tx_bind (archive_current e (a_device a)) (\<lambda>_.
     let t = (case opened_at of None \<Rightarrow> js_now e | Some t \<Rightarrow> t);
         by_id = (shift_id \<noteq> None \<and> shift_id \<noteq> Some []) in
     tx_bind (date_str_of e t) (\<lambda>day.
     tx_bind (case shift_id of None \<Rightarrow> fresh_id e | Some i \<Rightarrow> tx_ret i) (\<lambda>i.
     let r = \<lparr>sh_id = i, sh_date_str = day, sh_starting_cash = starting_cash, sh_opened_at = t,
              sh_closed_at = None, sh_physical_cash = None, sh_is_active = True,
              sh_auto_archived = False, sh_archived_at = None, sh_opened_by = Some (a_user a),
              sh_device_id = Some (a_device a)\<rparr> in
     tx_bind (insert_shift by_id r) (\<lambda>inserted.
     if inserted then with_entries r
     else
       tx_bind (tx_get (\<lambda>s. if by_id then row_of sh_id i (shifts s)
                            else find (is_current (a_device a)) (shifts s))) (\<lambda>winner.
       case winner of
         None \<Rightarrow> tx_throw (Fault ''Shift vanished between insert and read'')
       | Some w \<Rightarrow> with_entries w)))))"

definition open_in :: "env \<Rightarrow> actor \<Rightarrow> string option \<Rightarrow> int \<Rightarrow> int option \<Rightarrow> shift_with_entries op" where
  "open_in e a id_raw starting_cash opened_at =
     tx_bind (live_device (a_device a)) (\<lambda>_.
     let shift_id = (case id_raw of None \<Rightarrow> None | Some i \<Rightarrow> if i = [] then None else Some (trim i)) in
     tx_bind (tx_get (\<lambda>s. case shift_id of None \<Rightarrow> None
               | Some i \<Rightarrow> if i = [] then None else row_of sh_id i (shifts s))) (\<lambda>existing.
     case existing of
       Some r \<Rightarrow>
         tx_bind (tx_guard (sh_starting_cash r = starting_cash)
                    (client_id_reused ''shift.open'' (sh_id r))) (\<lambda>_. with_entries r)
     | None \<Rightarrow> open_new e a shift_id starting_cash opened_at))"

section \<open>Closing\<close>

definition shift_already_closed :: err where
  "shift_already_closed = HttpErr 409 ''SHIFT_ALREADY_CLOSED'' NoDetail"

definition close_in :: "env \<Rightarrow> uuid \<Rightarrow> int \<Rightarrow> shift_with_entries op" where
  "close_in e dev counted =
     tx_bind (lock_active dev) (\<lambda>r.
     tx_bind (tx_guard (sh_closed_at r = None) shift_already_closed) (\<lambda>_.
     tx_bind (numeric_12_2 counted) (\<lambda>_.
     let r' = r\<lparr>sh_closed_at := Some (now e), sh_physical_cash := Some counted\<rparr> in
     tx_bind (tx_modify (\<lambda>s. s\<lparr>shifts := upd_where (\<lambda>q. sh_id q = sh_id r)
        (\<lambda>q. q\<lparr>sh_closed_at := Some (now e), sh_physical_cash := Some counted\<rparr>) (shifts s)\<rparr>)) (\<lambda>_.
     with_entries r'))))"

definition close_for_retirement :: "env \<Rightarrow> uuid \<Rightarrow> int option \<Rightarrow> shift_with_entries option op" where
  "close_for_retirement e dev counted =
     tx_bind (tx_get (\<lambda>s. newest (filter (is_current dev) (shifts s)))) (\<lambda>row.
     case row of
       None \<Rightarrow> tx_ret None
     | Some r \<Rightarrow>
         tx_bind (if sh_closed_at r = None
                  then (case counted of
                          None \<Rightarrow> tx_throw (HttpErr 409 ''PHYSICAL_CASH_REQUIRED'' (ShiftRef (sh_id r)))
                        | Some n \<Rightarrow> close_in e dev n)
                  else with_entries r) (\<lambda>result.
         let fin = (\<lambda>q. q\<lparr>sh_is_active := False,
              sh_archived_at := (case sh_archived_at q of None \<Rightarrow> Some (now e) | Some t \<Rightarrow> Some t)\<rparr>) in
         tx_bind (tx_modify (\<lambda>s. s\<lparr>shifts := upd_where (\<lambda>q. sh_id q = sh_id r) fin (shifts s)\<rparr>)) (\<lambda>_.
         tx_ret (Some (fin (fst result), snd result)))))"

section \<open>Cash in and out\<close>

definition drawer_closed :: err where
  "drawer_closed = HttpErr 409 ''DRAWER_CLOSED'' NoDetail"

definition drawer_insufficient_cash :: "int \<Rightarrow> err" where
  "drawer_insufficient_cash n = HttpErr 409 ''DRAWER_INSUFFICIENT_CASH'' (Cash n)"

definition insert_drawer_entry :: "drawer_entry \<Rightarrow> unit op" where
  "insert_drawer_entry r =
     tx_bind (numeric_12_2 (de_amount r)) (\<lambda>_.
     tx_bind (check (0 < de_amount r) ''drawer_entries_amount_check'') (\<lambda>_.
     tx_bind (tx_get id) (\<lambda>s.
     tx_bind (unique (\<not> has_key de_id (de_id r) (drawer_entries s)) ''drawer_entries_pkey'') (\<lambda>_.
     tx_bind (foreign_key (has_key sh_id (de_shift_id r) (shifts s))
                ''drawer_entries_tenant_id_shift_id_fkey'') (\<lambda>_.
     tx_modify (\<lambda>s. s\<lparr>drawer_entries := drawer_entries s @ [r]\<rparr>))))))"

definition map_entry_id_conflict :: "uuid \<Rightarrow> err \<Rightarrow> err" where
  "map_entry_id_conflict i x =
     (case x of DbErr code _ \<Rightarrow> if code = ''23505'' then client_id_reused ''drawer.entry'' i else x
      | _ \<Rightarrow> x)"

definition add_new_entry :: "env \<Rightarrow> actor \<Rightarrow> string option \<Rightarrow> flow \<Rightarrow> int \<Rightarrow> string option \<Rightarrow> int option
    \<Rightarrow> bool \<Rightarrow> drawer_entry op" where
  "add_new_entry e a client_id ty amount note created_at offline_replay =
     tx_bind (lock_active (a_device a)) (\<lambda>r.
     tx_bind (tx_guard (sh_closed_at r = None) drawer_closed) (\<lambda>_.
     tx_bind (tx_get (\<lambda>s. expected_cash s (sh_id r))) (\<lambda>expected.
     tx_bind (tx_guard (\<not> (ty = Flow_Out \<and> \<not> offline_replay \<and> expected < amount))
                (drawer_insufficient_cash expected)) (\<lambda>_.
     tx_bind (case client_id of None \<Rightarrow> fresh_id e | Some i \<Rightarrow> tx_ret i) (\<lambda>i.
     let d = \<lparr>de_id = i, de_shift_id = sh_id r, de_type = ty, de_amount = amount,
              de_note = (case note of None \<Rightarrow> [] | Some n \<Rightarrow> n),
              de_created_at = (case created_at of None \<Rightarrow> now e | Some t \<Rightarrow> t),
              de_created_by = Some (a_user a)\<rparr> in
     tx_bind (map_db_err (map_entry_id_conflict i) (insert_drawer_entry d)) (\<lambda>_.
     tx_ret d))))))"

definition add_entry_in :: "env \<Rightarrow> actor \<Rightarrow> string option \<Rightarrow> flow \<Rightarrow> int \<Rightarrow> string option \<Rightarrow> int option
    \<Rightarrow> bool \<Rightarrow> drawer_entry op" where
  "add_entry_in e a id_raw ty amount note created_at offline_replay =
     (let client_id = (case id_raw of None \<Rightarrow> None | Some i \<Rightarrow> if trim i = [] then None else Some (trim i)) in
      tx_bind (tx_get (\<lambda>s. case client_id of None \<Rightarrow> None
                | Some i \<Rightarrow> row_of de_id i (drawer_entries s))) (\<lambda>existing.
      case existing of
        Some d \<Rightarrow>
          tx_bind (tx_guard (de_type d = ty \<and> de_amount d = amount)
                     (client_id_reused ''drawer.entry'' (de_id d))) (\<lambda>_. tx_ret d)
      | None \<Rightarrow> add_new_entry e a client_id ty amount note created_at offline_replay))"

section \<open>Facts about finding the drawer\<close>

lemma newest_None [simp]: "newest rs = None \<longleftrightarrow> rs = []"
  by (cases rs) (auto split: option.splits)

lemma newest_in: "newest rs = Some r \<Longrightarrow> r \<in> set rs"
  by (induction rs arbitrary: r) (auto split: option.splits if_splits)

lemma newest_max: "newest rs = Some r \<Longrightarrow> q \<in> set rs \<Longrightarrow> sh_opened_at q \<le> sh_opened_at r"
  by (induction rs arbitrary: r q) (fastforce split: option.splits if_splits)+

lemma newest_single [simp]: "newest [r] = Some r"
  by simp

lemma newest_filter: "newest (filter p rs) = Some r \<Longrightarrow> r \<in> set rs \<and> p r"
  using newest_in by fastforce

definition closed_shift :: "db \<Rightarrow> uuid \<Rightarrow> bool" where
  "closed_shift s i \<longleftrightarrow> (\<exists>r. row_of sh_id i (shifts s) = Some r \<and> sh_closed_at r \<noteq> None)"

section \<open>The interface of the money path\<close>

text \<open>
  A document takes the stamp of a drawer through a gate: an operation that changes nothing
  and whose stamp, when it gives one, is an open drawer of the caller's own device.
\<close>

locale shift_gate =
  fixes gate :: "'a op" and stamp :: "'a \<Rightarrow> uuid option" and dev :: uuid
  assumes gate_reads: "gate s = Inr (a, s') \<Longrightarrow> s' = s"
    and gate_open: "gate s = Inr (a, s') \<Longrightarrow> stamp a = Some i \<Longrightarrow>
      \<exists>r \<in> set (shifts s). sh_id r = i \<and> is_open dev r"
begin

lemma gate_fixes: "tx_fixes f gate"
  by (auto simp: tx_fixes_def dest: gate_reads)

lemma gate_keeps: "tx_keeps I gate"
  by (auto simp: tx_keeps_def dest: gate_reads)

lemma never_stamps_closed:
  assumes "gate s = Inr (a, s')" "distinct (map sh_id (shifts s))" "closed_shift s i"
  shows "stamp a \<noteq> Some i"
proof
  assume "stamp a = Some i"
  then obtain r where r: "r \<in> set (shifts s)" "sh_id r = i" "is_open dev r"
    using gate_open assms(1) by blast
  then have "row_of sh_id i (shifts s) = Some r"
    using row_of_unique assms(2) by metis
  then show False using assms(3) r(3) by (auto simp: closed_shift_def is_open_def)
qed

end

text \<open>The strict gate refuses rather than leave the stamp out.\<close>

locale strict_gate = shift_gate +
  assumes gate_stamps: "gate s = Inr (a, s') \<Longrightarrow> stamp a \<noteq> None"
    and gate_refuses: "gate s = Inl x \<Longrightarrow> x = no_open_shift \<and> (\<forall>r \<in> set (shifts s). \<not> is_open dev r)"
begin

lemma gate_total: "(\<exists>r \<in> set (shifts s). is_open dev r) \<Longrightarrow> \<exists>a. gate s = Inr (a, s)"
  using gate_refuses gate_reads by (cases "gate s") fastforce+

lemma gate_closed: "\<forall>r \<in> set (shifts s). \<not> is_open dev r \<Longrightarrow> gate s = Inl no_open_shift"
proof (cases "gate s")
  case (Inr p)
  then obtain a s' where g: "gate s = Inr (a, s')" by (cases p) auto
  moreover obtain i where "stamp a = Some i" using gate_stamps [OF g] by blast
  ultimately show "\<forall>r \<in> set (shifts s). \<not> is_open dev r \<Longrightarrow> gate s = Inl no_open_shift"
    using gate_open by blast
qed (use gate_refuses in auto)

end

interpretation required: strict_gate "require_open_shift_id_for dev" Some dev for dev
proof
  fix s a s' i x
  show "require_open_shift_id_for dev s = Inr (a, s') \<Longrightarrow> s' = s"
    by (auto simp: require_open_shift_id_for_def split: option.splits)
  show "require_open_shift_id_for dev s = Inr (a, s') \<Longrightarrow> Some a = Some i \<Longrightarrow>
      \<exists>r \<in> set (shifts s). sh_id r = i \<and> is_open dev r"
    by (auto simp: require_open_shift_id_for_def split: option.splits dest!: newest_filter)
  show "require_open_shift_id_for dev s = Inl x \<Longrightarrow>
      x = no_open_shift \<and> (\<forall>r \<in> set (shifts s). \<not> is_open dev r)"
    by (auto simp: require_open_shift_id_for_def filter_empty_conv split: option.splits)
qed simp

interpretation optional_gate: shift_gate "current_shift_id_for dev" "\<lambda>a. a" dev for dev
proof
  fix s a s' i
  show "current_shift_id_for dev s = Inr (a, s') \<Longrightarrow> s' = s"
    by (simp add: current_shift_id_for_def)
  show "current_shift_id_for dev s = Inr (a, s') \<Longrightarrow> a = Some i \<Longrightarrow>
      \<exists>r \<in> set (shifts s). sh_id r = i \<and> is_open dev r"
    by (auto simp: current_shift_id_for_def dest!: newest_filter)
qed

section \<open>One drawer per device\<close>

definition one_active :: "db \<Rightarrow> bool" where
  "one_active s \<longleftrightarrow>
     distinct (map sh_device_id (filter (\<lambda>r. sh_is_active r \<and> sh_device_id r \<noteq> None) (shifts s)))"

text \<open>The two keys of the table.\<close>

definition shifts_ok :: "db \<Rightarrow> bool" where
  "shifts_ok s \<longleftrightarrow> distinct (map sh_id (shifts s)) \<and> one_active s"

abbreviation active_devices :: "shift list \<Rightarrow> uuid option list" where
  "active_devices rs \<equiv> map sh_device_id (filter (\<lambda>r. sh_is_active r \<and> sh_device_id r \<noteq> None) rs)"

lemma active_devices_upd:
  assumes "\<And>r. sh_device_id (f r) = sh_device_id r" "\<And>r. sh_is_active (f r) \<Longrightarrow> sh_is_active r"
  shows "set (active_devices (upd_where p f rs)) \<subseteq> set (active_devices rs)"
proof (induction rs)
  case (Cons r rs)
  show ?case
    using Cons assms(1) [of r] assms(2) [of r] by (cases "p r"; cases "sh_is_active (f r)") auto
qed simp

lemma distinct_active_upd:
  assumes "\<And>r. sh_device_id (f r) = sh_device_id r" "\<And>r. sh_is_active (f r) \<Longrightarrow> sh_is_active r"
    and "distinct (active_devices rs)"
  shows "distinct (active_devices (upd_where p f rs))"
  using assms(3)
proof (induction rs)
  case (Cons r rs)
  have "distinct (active_devices rs)" using Cons.prems by (simp split: if_splits)
  then have IH: "distinct (active_devices (upd_where p f rs))" by (rule Cons.IH)
  have new: "sh_device_id r \<notin> set (active_devices (upd_where p f rs))"
    if "sh_is_active r" "sh_device_id r \<noteq> None"
    using that Cons.prems active_devices_upd [of f p rs] assms(1,2) by auto
  show ?case
    using IH new assms(1) [of r] assms(2) [of r]
    by (cases "p r"; cases "sh_is_active (f r)"; cases "sh_is_active r") auto
qed simp

lemma shifts_ok_upd:
  assumes "shifts_ok s" "\<And>r. sh_id (f r) = sh_id r" "\<And>r. sh_device_id (f r) = sh_device_id r"
    "\<And>r. sh_is_active (f r) \<Longrightarrow> sh_is_active r"
  shows "shifts_ok (s\<lparr>shifts := upd_where p f (shifts s)\<rparr>)"
proof -
  have "distinct (active_devices (upd_where p f (shifts s)))"
    by (rule distinct_active_upd) (use assms in \<open>simp_all add: shifts_ok_def one_active_def\<close>)
  moreover have "map sh_id (upd_where p f (shifts s)) = map sh_id (shifts s)"
    by (simp add: upd_where_def assms(2))
  ultimately show ?thesis
    using assms(1) by (simp add: shifts_ok_def one_active_def)
qed

lemma one_current:
  assumes "one_active s" "r \<in> set (shifts s)" "is_current dev r"
  shows "filter (is_current dev) (shifts s) = [r]"
proof -
  have "filter (is_current dev) rs = [r]"
    if "distinct (map sh_device_id (filter (\<lambda>r. sh_is_active r \<and> sh_device_id r \<noteq> None) rs))"
      "r \<in> set rs" for rs
    using that
  proof (induction rs)
    case (Cons q rs)
    show ?case
    proof (cases "is_current dev q")
      case True
      then have "\<forall>x \<in> set rs. \<not> is_current dev x"
        using Cons.prems(1) by (force simp: is_current_def)
      then have "r = q" and "filter (is_current dev) rs = []"
        using Cons.prems(2) assms(3) by (auto simp: filter_empty_conv)
      with True show ?thesis by simp
    next
      case False
      then have "r \<in> set rs" using Cons.prems(2) assms(3) by auto
      then show ?thesis using False Cons by (auto split: if_splits)
    qed
  qed simp
  then show ?thesis using assms by (simp add: one_active_def)
qed

section \<open>Opening replaces the drawer\<close>

definition retired_row :: "env \<Rightarrow> shift \<Rightarrow> shift" where
  "retired_row e r = r\<lparr>sh_is_active := False,
     sh_auto_archived := sh_auto_archived r \<or> sh_closed_at r = None,
     sh_archived_at := (case sh_archived_at r of None \<Rightarrow> Some (now e) | Some t \<Rightarrow> Some t)\<rparr>"

lemma retired_row_simps [simp]:
  "sh_id (retired_row e r) = sh_id r" "sh_device_id (retired_row e r) = sh_device_id r"
  "\<not> sh_is_active (retired_row e r)" "sh_closed_at (retired_row e r) = sh_closed_at r"
  "sh_starting_cash (retired_row e r) = sh_starting_cash r"
  by (simp_all add: retired_row_def)

lemma with_entries_Inr: "with_entries r s = Inr (a, s') \<longleftrightarrow>
    s' = s \<and> a = (r, sort_key (\<lambda>d. - de_created_at d) (filter (\<lambda>d. de_shift_id d = sh_id r) (drawer_entries s)))"
  by (auto simp: with_entries_def)

lemma insert_review_Inr: "insert_review_item e k i d s = Inr (u, s') \<Longrightarrow>
    \<exists>x. rv_ref_id x = i \<and> rv_kind x = k \<and>
      s' = s\<lparr>minted := minted s + 1, review_items := review_items s @ [x]\<rparr>"
  by (auto simp: insert_review_item_def fresh_id_def constraint_defs split: if_splits
      intro!: exI [of _ "\<lparr>rv_id = mint e (minted s), rv_kind = k, rv_ref_id = i, rv_details = d,
        rv_created_at = now e, rv_reviewed_at = None, rv_reviewed_by = None\<rparr>"])

lemma archive_current_Inr:
  assumes "shifts_ok s" "archive_current e dev s = Inr (u, s')"
  shows "shifts s' = map (\<lambda>q. if is_current dev q then retired_row e q else q) (shifts s)"
    and "\<exists>new. review_items s' = review_items s @ new \<and>
      map rv_ref_id new = map sh_id (filter (is_open dev) (shifts s)) \<and>
      (\<forall>x \<in> set new. rv_kind x = ''shift_uncounted'')"
proof -
  show "shifts s' = map (\<lambda>q. if is_current dev q then retired_row e q else q) (shifts s)"
  proof (cases "newest (filter (is_current dev) (shifts s))")
    case None
    then have "\<forall>q \<in> set (shifts s). \<not> is_current dev q" by (simp add: filter_empty_conv)
    with None show ?thesis using assms(2) by (auto simp: archive_current_def intro!: map_idI [symmetric])
  next
    case (Some r)
    then have r: "r \<in> set (shifts s)" "is_current dev r" by (auto dest: newest_filter)
    have f: "filter (is_current dev) (shifts s) = [r]"
      using one_current r assms(1) by (simp add: shifts_ok_def)
    have same: "q = r" if "q \<in> set (shifts s)" "sh_id q = sh_id r" for q
      using that r(1) assms(1) by (metis row_of_unique shifts_ok_def option.inject)
    have only: "q = r" if "q \<in> set (shifts s)" "is_current dev q" for q
    proof -
      have "q \<in> set (filter (is_current dev) (shifts s))" using that by simp
      then show ?thesis unfolding f by simp
    qed
    have "sh_id q = sh_id r \<longleftrightarrow> is_current dev q" if "q \<in> set (shifts s)" for q
      using same only that r(2) by blast
    moreover have "shifts s' = upd_where (\<lambda>q. sh_id q = sh_id r)
        (\<lambda>q. q\<lparr>sh_is_active := False, sh_auto_archived := sh_auto_archived q \<or> sh_closed_at r = None,
          sh_archived_at := (case sh_archived_at q of None \<Rightarrow> Some (now e) | Some t \<Rightarrow> Some t)\<rparr>) (shifts s)"
      using assms(2) Some
      by (auto simp: archive_current_def archive_def Let_def split: if_splits dest!: insert_review_Inr)
    ultimately show ?thesis
      using same by (auto simp: upd_where_def retired_row_def)
  qed
  show "\<exists>new. review_items s' = review_items s @ new \<and>
      map rv_ref_id new = map sh_id (filter (is_open dev) (shifts s)) \<and>
      (\<forall>x \<in> set new. rv_kind x = ''shift_uncounted'')"
  proof (cases "newest (filter (is_current dev) (shifts s))")
    case None
    then have "filter (is_open dev) (shifts s) = []" by (auto simp: filter_empty_conv is_open_def)
    with None show ?thesis using assms(2) by (auto simp: archive_current_def)
  next
    case (Some r)
    then have r: "r \<in> set (shifts s)" "is_current dev r" by (auto dest: newest_filter)
    have "filter (is_open dev) (shifts s) = filter (\<lambda>q. sh_closed_at q = None) (filter (is_current dev) (shifts s))"
      by (simp add: is_open_def [abs_def])
    also have "\<dots> = (if sh_closed_at r = None then [r] else [])"
      using one_current r assms(1) by (simp add: shifts_ok_def)
    finally show ?thesis
      using assms(2) Some
      by (auto simp: archive_current_def archive_def Let_def split: if_splits dest!: insert_review_Inr)
  qed
qed

lemma live_device_Inr: "live_device dev s = Inr (u, s') \<longleftrightarrow>
    s' = s \<and> (\<exists>d. row_of d_id dev (devices s) = Some d \<and> \<not> d_retired d)"
  by (auto simp: live_device_def split: option.splits)

lemma no_current_active: "\<forall>q \<in> set rs. \<not> is_current dev q \<Longrightarrow> Some dev \<notin> set (active_devices rs)"
  by (auto simp: is_current_def)

lemma archived_row_off: "shifts s1 = map (\<lambda>q. if is_current dev q then retired_row e q else q) (shifts s) \<Longrightarrow>
    \<forall>q \<in> set (shifts s1). \<not> is_current dev q"
  by (auto simp: is_current_def)

lemma open_new_Inr:
  assumes "shifts_ok s" "open_new e a si c t s = Inr ((r, es), s')"
    and "\<And>i. si = Some i \<Longrightarrow> i \<noteq> [] \<Longrightarrow> row_of sh_id i (shifts s) = None"
  shows "is_open (a_device a) r \<and> sh_starting_cash r = c \<and> (\<forall>i. si = Some i \<longrightarrow> sh_id r = i) \<and>
    \<not> has_key sh_id (sh_id r) (shifts s) \<and>
    shifts s' = map (\<lambda>q. if is_current (a_device a) q then retired_row e q else q) (shifts s) @ [r] \<and>
    (\<exists>new. review_items s' = review_items s @ new \<and>
      map rv_ref_id new = map sh_id (filter (is_open (a_device a)) (shifts s)) \<and>
      (\<forall>x \<in> set new. rv_kind x = ''shift_uncounted''))"
proof -
  let ?dev = "a_device a" and ?ids = "(case si of None \<Rightarrow> fresh_id e | Some i \<Rightarrow> tx_ret i)"
  obtain u s1 day i s2 b s3 where arch: "archive_current e ?dev s = Inr (u, s1)"
    and i: "?ids s1 = Inr (i, s2)"
    and ins: "insert_shift (si \<noteq> None \<and> si \<noteq> Some [])
       \<lparr>sh_id = i, sh_date_str = day, sh_starting_cash = c,
        sh_opened_at = (case t of None \<Rightarrow> js_now e | Some t \<Rightarrow> t), sh_closed_at = None,
        sh_physical_cash = None, sh_is_active = True, sh_auto_archived = False,
        sh_archived_at = None, sh_opened_by = Some (a_user a), sh_device_id = Some ?dev\<rparr> s2 = Inr (b, s3)"
    and fin: "b \<Longrightarrow> r = \<lparr>sh_id = i, sh_date_str = day, sh_starting_cash = c,
        sh_opened_at = (case t of None \<Rightarrow> js_now e | Some t \<Rightarrow> t), sh_closed_at = None,
        sh_physical_cash = None, sh_is_active = True, sh_auto_archived = False,
        sh_archived_at = None, sh_opened_by = Some (a_user a), sh_device_id = Some ?dev\<rparr> \<and> s' = s3"
    using assms(2)
    by (auto simp: open_new_def Let_def with_entries_Inr date_str_of_def split: option.splits if_splits)
  have s2: "shifts s2 = shifts s1" "review_items s2 = review_items s1"
    using i by (auto simp: fresh_id_def split: option.splits)
  note arch1 = archive_current_Inr [OF assms(1) arch]
  have keys: "map sh_id (shifts s1) = map sh_id (shifts s)"
    unfolding arch1(1) by (simp add: comp_def if_distrib cong: if_cong)
  have "si = Some i \<Longrightarrow> i \<noteq> [] \<Longrightarrow> \<not> has_key sh_id i (shifts s2)"
    using assms(3) keys s2(1) by (metis has_key_def row_of_None)
  moreover have "\<not> active_clash q s2" if "sh_device_id q = Some ?dev" for q
    using archived_row_off [OF arch1(1)] that s2(1)
    by (auto simp: active_clash_def is_current_def list_ex_iff)
  ultimately have b: b "shifts s3 = shifts s2 @ [r]" "\<not> has_key sh_id i (shifts s2)"
    and rv: "review_items s3 = review_items s2"
    using ins fin i
    by (auto simp: insert_shift_def constraint_defs Let_def split: if_splits option.splits)
  have "\<not> has_key sh_id i (shifts s)" using b(3) keys s2(1) by (metis has_key_def)
  then show ?thesis
    using fin [OF b(1)] b(2) s2 arch1 rv i
    by (auto simp: is_open_def is_current_def split: option.splits)
qed

lemma open_in_Inr:
  assumes "shifts_ok s" "open_in e a i c t s = Inr ((r, es), s')"
  shows "sh_starting_cash r = c \<and>
    (s' = s \<and> r \<in> set (shifts s) \<or>
     is_open (a_device a) r \<and> \<not> has_key sh_id (sh_id r) (shifts s) \<and>
     shifts s' = map (\<lambda>q. if is_current (a_device a) q then retired_row e q else q) (shifts s) @ [r] \<and>
     (\<exists>new. review_items s' = review_items s @ new \<and>
        map rv_ref_id new = map sh_id (filter (is_open (a_device a)) (shifts s)) \<and>
        (\<forall>x \<in> set new. rv_kind x = ''shift_uncounted'')))"
proof -
  let ?si = "case i of None \<Rightarrow> None | Some i \<Rightarrow> if i = [] then None else Some (trim i)"
  let ?found = "case ?si of None \<Rightarrow> None | Some i \<Rightarrow> if i = [] then None else row_of sh_id i (shifts s)"
  have step: "(case ?found of
       Some r \<Rightarrow> tx_bind (tx_guard (sh_starting_cash r = c) (client_id_reused ''shift.open'' (sh_id r)))
         (\<lambda>_. with_entries r)
     | None \<Rightarrow> open_new e a ?si c t) s = Inr ((r, es), s')"
    using assms(2) by (auto simp: open_in_def live_device_Inr Let_def)
  show ?thesis
  proof (cases ?found)
    case None
    then have "open_new e a ?si c t s = Inr ((r, es), s')" using step by simp
    moreover have "\<And>k. ?si = Some k \<Longrightarrow> k \<noteq> [] \<Longrightarrow> row_of sh_id k (shifts s) = None"
      using None by simp
    ultimately show ?thesis using open_new_Inr [OF assms(1)] by blast
  next
    case (Some q)
    then have "q \<in> set (shifts s)" by (auto split: option.splits if_splits dest: row_of_SomeD)
    with Some step show ?thesis by (auto simp: with_entries_Inr split: if_splits)
  qed
qed

lemma open_in_keeps: "tx_keeps shifts_ok (open_in e a i c t)"
proof (rule tx_keepsI)
  fix s x s'
  assume ok: "shifts_ok s" and run: "open_in e a i c t s = Inr (x, s')"
  obtain r es where x: "x = (r, es)" by (cases x)
  from open_in_Inr [OF ok run [unfolded x]] consider "s' = s" |
    "is_open (a_device a) r" "\<not> has_key sh_id (sh_id r) (shifts s)"
    "shifts s' = map (\<lambda>q. if is_current (a_device a) q then retired_row e q else q) (shifts s) @ [r]"
    by blast
  then show "shifts_ok s'"
  proof cases
    case 2
    let ?arch = "upd_where (is_current (a_device a)) (retired_row e) (shifts s)"
    have s': "shifts s' = ?arch @ [r]" using 2(3) by (simp add: upd_where_def)
    have "distinct (active_devices ?arch)"
      by (rule distinct_active_upd) (use ok in \<open>simp_all add: shifts_ok_def one_active_def\<close>)
    moreover have "\<forall>q \<in> set ?arch. \<not> is_current (a_device a) q"
      by (auto simp: upd_where_def is_current_def)
    then have "sh_device_id r \<notin> set (active_devices ?arch)"
      using no_current_active 2(1) by (simp add: is_open_def is_current_def)
    moreover have "map sh_id ?arch = map sh_id (shifts s)"
      by (simp add: upd_where_def comp_def if_distrib cong: if_cong)
    ultimately show ?thesis
      using ok 2(2) by (auto simp: shifts_ok_def one_active_def s' has_key_def simp del: set_map)
  qed (use ok in simp)
qed

section \<open>Closing, retiring, cash in and out\<close>

lemma lock_active_Inr: "lock_active dev s = Inr (r, s') \<longleftrightarrow>
    s' = s \<and> newest (filter (is_current dev) (shifts s)) = Some r"
  by (auto simp: lock_active_def split: option.splits)

lemma lock_active_current:
  "lock_active dev s = Inr (r, s') \<Longrightarrow> s' = s \<and> r \<in> set (shifts s) \<and> is_current dev r"
  by (auto simp: lock_active_Inr dest!: newest_filter)

interpretation close_upd: keyed_update sh_id
  "\<lambda>q. q\<lparr>sh_closed_at := Some t, sh_physical_cash := Some n\<rparr>" for t n
  by unfold_locales simp

interpretation retire_upd: keyed_update sh_id
  "\<lambda>q. q\<lparr>sh_is_active := False,
     sh_archived_at := (case sh_archived_at q of None \<Rightarrow> Some t | Some u \<Rightarrow> Some u)\<rparr>" for t
  by unfold_locales simp

interpretation archive_upd: keyed_update sh_id "retired_row e" for e
  by unfold_locales simp

lemma close_in_Inr:
  assumes "close_in e dev n s = Inr ((r', es), s')"
  obtains r where "r \<in> set (shifts s)" "is_open dev r"
    "r' = r\<lparr>sh_closed_at := Some (now e), sh_physical_cash := Some n\<rparr>"
    "s' = s\<lparr>shifts := upd_where (\<lambda>q. sh_id q = sh_id r)
       (\<lambda>q. q\<lparr>sh_closed_at := Some (now e), sh_physical_cash := Some n\<rparr>) (shifts s)\<rparr>"
  using assms
  by (auto simp: close_in_def Let_def constraint_defs with_entries_Inr is_open_def
      dest!: lock_active_current)

lemma close_in_keeps: "tx_keeps shifts_ok (close_in e dev n)"
proof (rule tx_keepsI)
  fix s x s'
  assume ok: "shifts_ok s" and run: "close_in e dev n s = Inr (x, s')"
  obtain r' es where x: "x = (r', es)" by (cases x)
  from run [unfolded x] show "shifts_ok s'"
  proof (rule close_in_Inr)
    fix r
    assume s': "s' = s\<lparr>shifts := upd_where (\<lambda>q. sh_id q = sh_id r)
       (\<lambda>q. q\<lparr>sh_closed_at := Some (now e), sh_physical_cash := Some n\<rparr>) (shifts s)\<rparr>"
    show ?thesis unfolding s' by (rule shifts_ok_upd [OF ok]) simp_all
  qed
qed

lemma close_for_retirement_Inr:
  assumes "close_for_retirement e dev counted s = Inr (a, s')"
  obtains (none) "a = None" "s' = s" "\<forall>r \<in> set (shifts s). \<not> is_current dev r"
  | (some) r s1 where "r \<in> set (shifts s)" "is_current dev r"
      "sh_closed_at r \<noteq> None \<and> s1 = s \<or>
       (\<exists>n x. counted = Some n \<and> sh_closed_at r = None \<and> close_in e dev n s = Inr (x, s1))"
      "s' = s1\<lparr>shifts := upd_where (\<lambda>q. sh_id q = sh_id r) (\<lambda>q. q\<lparr>sh_is_active := False,
         sh_archived_at := (case sh_archived_at q of None \<Rightarrow> Some (now e) | Some t \<Rightarrow> Some t)\<rparr>)
         (shifts s1)\<rparr>"
proof (cases "newest (filter (is_current dev) (shifts s))")
  case None
  then show thesis
    using assms none by (auto simp: close_for_retirement_def filter_empty_conv)
next
  case (Some r)
  then have "r \<in> set (shifts s)" "is_current dev r" by (auto dest: newest_filter)
  moreover obtain x s1 where
    "(if sh_closed_at r = None
      then (case counted of
              None \<Rightarrow> tx_throw (HttpErr 409 ''PHYSICAL_CASH_REQUIRED'' (ShiftRef (sh_id r)))
            | Some n \<Rightarrow> close_in e dev n)
      else with_entries r) s = Inr (x, s1)"
    and "s' = s1\<lparr>shifts := upd_where (\<lambda>q. sh_id q = sh_id r) (\<lambda>q. q\<lparr>sh_is_active := False,
         sh_archived_at := (case sh_archived_at q of None \<Rightarrow> Some (now e) | Some t \<Rightarrow> Some t)\<rparr>)
         (shifts s1)\<rparr>"
    using assms Some by (auto simp: close_for_retirement_def Let_def)
  ultimately show thesis
    by (intro some [of r s1]) (auto simp: with_entries_Inr split: if_splits option.splits)
qed

lemma close_for_retirement_keeps: "tx_keeps shifts_ok (close_for_retirement e dev counted)"
proof (rule tx_keepsI)
  fix s x s'
  assume ok: "shifts_ok s" and run: "close_for_retirement e dev counted s = Inr (x, s')"
  from run show "shifts_ok s'"
  proof (cases rule: close_for_retirement_Inr)
    case (some r s1)
    have ok1: "shifts_ok s1"
      using some(3) ok close_in_keeps by (auto dest: tx_keepsD)
    show ?thesis unfolding some(4) by (rule shifts_ok_upd [OF ok1]) simp_all
  qed (use ok in simp)
qed

lemma add_new_entry_Inr:
  assumes "add_new_entry e a ci ty n note t off s = Inr (d, s')"
  obtains r where "r \<in> set (shifts s)" "is_open (a_device a) r" "de_shift_id d = sh_id r"
    "de_type d = ty" "de_amount d = n" "0 < n" "\<not> has_key de_id (de_id d) (drawer_entries s)"
    "ty = Flow_Out \<Longrightarrow> \<not> off \<Longrightarrow> n \<le> expected_cash s (sh_id r)"
    "drawer_entries s' = drawer_entries s @ [d]" "shifts s' = shifts s" "sales s' = sales s"
    "returns s' = returns s" "credit_payments s' = credit_payments s"
proof -
  let ?ids = "case ci of None \<Rightarrow> fresh_id e | Some i \<Rightarrow> tx_ret i"
  obtain r i s1 where lock: "lock_active (a_device a) s = Inr (r, s)" and "sh_closed_at r = None"
    and cash: "\<not> (ty = Flow_Out \<and> \<not> off \<and> expected_cash s (sh_id r) < n)"
    and i: "?ids s = Inr (i, s1)"
    and d: "d = \<lparr>de_id = i, de_shift_id = sh_id r, de_type = ty, de_amount = n,
              de_note = (case note of None \<Rightarrow> [] | Some n \<Rightarrow> n),
              de_created_at = (case t of None \<Rightarrow> now e | Some t \<Rightarrow> t), de_created_by = Some (a_user a)\<rparr>"
    and ins: "insert_drawer_entry d s1 = Inr ((), s')"
    using assms by (auto simp: add_new_entry_def Let_def lock_active_Inr)
  have s1: "shifts s1 = shifts s" "drawer_entries s1 = drawer_entries s" "sales s1 = sales s"
    "returns s1 = returns s" "credit_payments s1 = credit_payments s"
    using i by (auto simp: fresh_id_def split: option.splits)
  show thesis
    using that [of r] lock_active_current [OF lock] \<open>sh_closed_at r = None\<close> cash s1 ins d
    by (auto simp: insert_drawer_entry_def constraint_defs is_open_def)
qed

lemma add_entry_in_Inr:
  assumes "add_entry_in e a i ty n note t off s = Inr (d, s')"
  shows "de_type d = ty \<and> de_amount d = n \<and>
    (s' = s \<and> d \<in> set (drawer_entries s) \<or>
     (\<exists>ci. add_new_entry e a ci ty n note t off s = Inr (d, s')))"
  using assms add_new_entry_Inr
  by (fastforce simp: add_entry_in_def Let_def split: option.splits if_splits
      dest: row_of_SomeD elim: add_new_entry_Inr)

lemma add_entry_in_shifts: "tx_fixes shifts (add_entry_in e a i ty n note t off)"
  by (rule tx_fixesI) (auto dest!: add_entry_in_Inr elim: add_new_entry_Inr)

section \<open>A closed drawer's books\<close>

definition takings :: "db \<Rightarrow> uuid \<Rightarrow> int" where
  "takings s i = cash_sales s i + cash_credit_payments s i - cash_refunds s i
     + drawer_flow Flow_In s i - drawer_flow Flow_Out s i"

definition closed_books :: "db \<Rightarrow> uuid \<Rightarrow> (int \<times> int option \<times> int option) option" where
  "closed_books s i = (case row_of sh_id i (shifts s) of None \<Rightarrow> None
     | Some r \<Rightarrow> Some (expected_cash s i, sh_closed_at r, sh_physical_cash r))"

definition books_frozen :: "db \<Rightarrow> db \<Rightarrow> bool" where
  "books_frozen s s' \<longleftrightarrow>
     (\<forall>i. closed_shift s i \<longrightarrow> closed_shift s' i \<and> closed_books s' i = closed_books s i)"

lemma expected_cash_takings:
  "row_of sh_id i (shifts s) = Some r \<Longrightarrow> expected_cash s i = sh_starting_cash r + takings s i"
  by (simp add: expected_cash_def takings_def)

lemma books_frozen_refl [simp]: "books_frozen s s"
  by (simp add: books_frozen_def)

lemma books_frozen_trans: "books_frozen s t \<Longrightarrow> books_frozen t u \<Longrightarrow> books_frozen s u"
  by (simp add: books_frozen_def)

lemma books_frozenI:
  assumes "\<And>i r. row_of sh_id i (shifts s) = Some r \<Longrightarrow> sh_closed_at r \<noteq> None \<Longrightarrow>
      \<exists>r'. row_of sh_id i (shifts s') = Some r' \<and> sh_closed_at r' = sh_closed_at r \<and>
        sh_physical_cash r' = sh_physical_cash r \<and> sh_starting_cash r' = sh_starting_cash r"
    and "\<And>i. closed_shift s i \<Longrightarrow> takings s' i = takings s i"
  shows "books_frozen s s'"
  unfolding books_frozen_def
proof (intro allI impI)
  fix i
  assume c: "closed_shift s i"
  then obtain r where r: "row_of sh_id i (shifts s) = Some r" "sh_closed_at r \<noteq> None"
    by (auto simp: closed_shift_def)
  with assms(1) obtain r' where r': "row_of sh_id i (shifts s') = Some r'"
    "sh_closed_at r' = sh_closed_at r" "sh_physical_cash r' = sh_physical_cash r"
    "sh_starting_cash r' = sh_starting_cash r" by blast
  show "closed_shift s' i \<and> closed_books s' i = closed_books s i"
    using r r' assms(2) [OF c] expected_cash_takings [OF r(1)] expected_cash_takings [OF r'(1)]
    by (simp add: closed_shift_def closed_books_def)
qed

lemma takings_cong:
  "sales s' = sales s \<Longrightarrow> returns s' = returns s \<Longrightarrow> credit_payments s' = credit_payments s \<Longrightarrow>
   drawer_entries s' = drawer_entries s \<Longrightarrow> takings s' i = takings s i"
  by (simp add: takings_def cash_sales_def cash_credit_payments_def cash_refunds_def
      drawer_flow_def counted_sale_def)

lemma takings_new_entry:
  assumes "drawer_entries s' = drawer_entries s @ [d]" "sales s' = sales s"
    "returns s' = returns s" "credit_payments s' = credit_payments s"
  shows "takings s' i = takings s i + (if de_shift_id d = i
    then (case de_type d of Flow_In \<Rightarrow> de_amount d | Flow_Out \<Rightarrow> - de_amount d) else 0)"
  using assms
  by (simp add: takings_def cash_sales_def cash_credit_payments_def cash_refunds_def
      drawer_flow_def counted_sale_def split: flow.split)

lemma open_not_closed:
  "shifts_ok s \<Longrightarrow> r \<in> set (shifts s) \<Longrightarrow> is_open dev r \<Longrightarrow> \<not> closed_shift s (sh_id r)"
  using row_of_unique [of sh_id "shifts s" r]
  by (auto simp: shifts_ok_def closed_shift_def is_open_def)

lemma tx_fixes_open_in:
  assumes "\<And>s x. f (s\<lparr>shifts := x\<rparr>) = f s" "\<And>s x. f (s\<lparr>review_items := x\<rparr>) = f s"
    "\<And>s x. f (s\<lparr>minted := x\<rparr>) = f s"
  shows "tx_fixes f (open_in e a i c t)"
  unfolding open_in_def open_new_def archive_current_def archive_def live_device_def date_str_of_def
    insert_shift_def with_entries_def
  by (intro tx_fix; simp add: assms)

lemma open_in_frozen:
  assumes "shifts_ok s" "open_in e a i c t s = Inr (x, s')"
  shows "books_frozen s s'"
proof -
  obtain r es where x: "x = (r, es)" by (cases x)
  have tables: "sales s' = sales s" "returns s' = returns s"
    "credit_payments s' = credit_payments s" "drawer_entries s' = drawer_entries s"
    by (rule tx_fixesD [OF tx_fixes_open_in assms(2)]; simp)+
  from open_in_Inr [OF assms(1) assms(2) [unfolded x]] consider "s' = s" |
    "\<not> has_key sh_id (sh_id r) (shifts s)"
    "shifts s' = upd_where (is_current (a_device a)) (retired_row e) (shifts s) @ [r]"
    by (auto simp: upd_where_def)
  then show ?thesis
  proof cases
    case 2
    have row: "row_of sh_id j (upd_where (is_current (a_device a)) (retired_row e) rs) =
        map_option (\<lambda>q. if is_current (a_device a) q then retired_row e q else q) (row_of sh_id j rs)" for j rs
      by (induction rs) auto
    show ?thesis
      by (rule books_frozenI)
        (auto simp: 2(2) row_of_append row retired_row_def takings_cong [OF tables])
  qed simp
qed

lemma close_in_frozen:
  assumes "shifts_ok s" "close_in e dev n s = Inr (x, s')"
  shows "books_frozen s s'"
proof -
  obtain r' es where x: "x = (r', es)" by (cases x)
  from assms(2) [unfolded x] show ?thesis
  proof (rule close_in_Inr)
    fix r
    assume r: "r \<in> set (shifts s)" "is_open dev r"
      and s': "s' = s\<lparr>shifts := upd_where (\<lambda>q. sh_id q = sh_id r)
       (\<lambda>q. q\<lparr>sh_closed_at := Some (now e), sh_physical_cash := Some n\<rparr>) (shifts s)\<rparr>"
    have row: "row_of sh_id (sh_id r) (shifts s) = Some r"
      using assms(1) r(1) row_of_unique by (metis shifts_ok_def)
    show ?thesis
    proof (rule books_frozenI)
      fix i q
      assume q: "row_of sh_id i (shifts s) = Some q" "sh_closed_at q \<noteq> None"
      then have "i \<noteq> sh_id r" using row r(2) by (auto simp: is_open_def)
      with q show "\<exists>r'. row_of sh_id i (shifts s') = Some r' \<and> sh_closed_at r' = sh_closed_at q \<and>
          sh_physical_cash r' = sh_physical_cash q \<and> sh_starting_cash r' = sh_starting_cash q"
        by (simp add: s' close_upd.row_of_upd)
    next
      fix i
      show "takings s' i = takings s i" by (rule takings_cong) (simp_all add: s')
    qed
  qed
qed

lemma close_for_retirement_frozen:
  assumes "shifts_ok s" "close_for_retirement e dev counted s = Inr (x, s')"
  shows "books_frozen s s'"
  using assms(2)
proof (cases rule: close_for_retirement_Inr)
  case (some r s1)
  have "books_frozen s s1"
    using some(3) close_in_frozen assms(1) by auto
  moreover have "books_frozen s1 s'"
  proof (rule books_frozenI)
    fix i
    show "takings s' i = takings s1 i" by (rule takings_cong) (simp_all add: some(4))
  qed (auto simp: some(4) retire_upd.row_of_upd)
  ultimately show ?thesis by (rule books_frozen_trans)
qed simp

lemma add_entry_in_frozen:
  assumes "shifts_ok s" "add_entry_in e a i ty n note t off s = Inr (d, s')"
  shows "books_frozen s s'"
proof -
  from add_entry_in_Inr [OF assms(2)] consider "s' = s" |
    ci where "add_new_entry e a ci ty n note t off s = Inr (d, s')" by blast
  then show ?thesis
  proof cases
    case 2
    then show ?thesis
    proof (rule add_new_entry_Inr)
      fix r
      assume r: "r \<in> set (shifts s)" "is_open (a_device a) r" "de_shift_id d = sh_id r"
        and "shifts s' = shifts s" "drawer_entries s' = drawer_entries s @ [d]" "sales s' = sales s"
        "returns s' = returns s" "credit_payments s' = credit_payments s"
      moreover have "\<not> closed_shift s (de_shift_id d)"
        using open_not_closed assms(1) r by metis
      ultimately show ?thesis
        by (intro books_frozenI) (auto simp: takings_new_entry)
    qed
  qed simp
qed

section \<open>A concrete drawer\<close>

definition one_drawer :: db where
  "one_drawer = blank_db\<lparr>
     devices := [plain_device ''d'' 1],
     shifts := [\<lparr>sh_id = ''s'', sh_date_str = ''2026-10-03'', sh_starting_cash = 50000, sh_opened_at = 1,
       sh_closed_at = None, sh_physical_cash = None, sh_is_active = True, sh_auto_archived = False,
       sh_archived_at = None, sh_opened_by = None, sh_device_id = Some ''d''\<rparr>]\<rparr>"

lemma one_drawer_ok: "shifts_ok one_drawer"
  by (simp add: one_drawer_def shifts_ok_def one_active_def)

section \<open>Properties\<close>

text \<open>
  C32. Opening the drawer: with the keys of the table in order, a successful open either
  answers a shift already on file with the same opening cash and changes nothing, or files
  one new open shift of the caller's device with that cash; every drawer the device had
  current before is archived, with \<open>auto_archived\<close> set iff it was never closed, and each
  uncounted one, and nothing else, leaves a \<open>shift_uncounted\<close> item for the owner.
\<close>

theorem open_replaces_drawer:
  assumes "shifts_ok s" "open_in e a i c t s = Inr ((r, es), s')"
  shows "sh_starting_cash r = c \<and> shifts_ok s' \<and>
    (s' = s \<and> r \<in> set (shifts s) \<or>
     is_open (a_device a) r \<and> \<not> has_key sh_id (sh_id r) (shifts s) \<and>
     shifts s' = map (\<lambda>q. if is_current (a_device a) q then retired_row e q else q) (shifts s) @ [r] \<and>
     (\<exists>new. review_items s' = review_items s @ new \<and>
        map rv_ref_id new = map sh_id (filter (is_open (a_device a)) (shifts s)) \<and>
        (\<forall>x \<in> set new. rv_kind x = ''shift_uncounted'')))"
  using open_in_Inr [OF assms] tx_keepsD [OF open_in_keeps assms] by blast

theorem open_replaces_drawer_witness:
  "\<exists>r es s'. open_in sample_env \<lparr>a_user = ''u'', a_device = ''d''\<rparr> None 20000 None one_drawer = Inr ((r, es), s') \<and>
     sh_starting_cash r = 20000 \<and> shifts_ok s'"
proof -
  have "\<exists>r es s'. open_in sample_env \<lparr>a_user = ''u'', a_device = ''d''\<rparr> None 20000 None one_drawer = Inr ((r, es), s')"
    by (simp add: open_in_def open_new_def one_drawer_def live_device_def archive_current_def archive_def is_current_def
        insert_review_item_def date_str_of_def insert_shift_def active_clash_def with_entries_def constraint_defs
        fresh_id_def Let_def ex_bool_eq)
  then show ?thesis using open_replaces_drawer [OF one_drawer_ok] by blast
qed

text \<open>
  Cash in and out: an entry that is not a replay lands on an open drawer of the
  caller's device and moves its expected cash by exactly its amount; an online cash-out
  leaves the drawer expecting a non-negative amount.
\<close>

theorem cash_entry_moves_drawer:
  assumes "shifts_ok s" "add_entry_in e a i ty n note t off s = Inr (d, s')"
    and "d \<notin> set (drawer_entries s)"
  shows "\<not> closed_shift s (de_shift_id d) \<and> 0 < n \<and>
    expected_cash s' (de_shift_id d) = expected_cash s (de_shift_id d)
      + (case ty of Flow_In \<Rightarrow> n | Flow_Out \<Rightarrow> - n) \<and>
    (ty = Flow_Out \<and> \<not> off \<longrightarrow> 0 \<le> expected_cash s' (de_shift_id d))"
proof -
  obtain ci where "add_new_entry e a ci ty n note t off s = Inr (d, s')"
    using add_entry_in_Inr [OF assms(2)] assms(3) by blast
  then show ?thesis
  proof (rule add_new_entry_Inr)
    fix r
    assume r: "r \<in> set (shifts s)" "is_open (a_device a) r" "de_shift_id d = sh_id r"
      and new: "drawer_entries s' = drawer_entries s @ [d]" "sales s' = sales s"
        "returns s' = returns s" "credit_payments s' = credit_payments s"
      and d: "de_type d = ty" "de_amount d = n" "0 < n" "shifts s' = shifts s"
        "ty = Flow_Out \<Longrightarrow> \<not> off \<Longrightarrow> n \<le> expected_cash s (sh_id r)"
    have row: "row_of sh_id (sh_id r) (shifts s) = Some r"
      using assms(1) r(1) row_of_unique by (metis shifts_ok_def)
    then have row': "row_of sh_id (sh_id r) (shifts s') = Some r" by (simp add: d(4))
    have eq: "expected_cash s' (sh_id r) = expected_cash s (sh_id r)
        + (case ty of Flow_In \<Rightarrow> n | Flow_Out \<Rightarrow> - n)"
      using expected_cash_takings [OF row] expected_cash_takings [OF row']
        takings_new_entry [OF new, of "sh_id r"] d(1,2) r(3) by (simp split: flow.split)
    show ?thesis
      using eq d(3,5) r(3) open_not_closed [OF assms(1) r(1,2)] by auto
  qed
qed

theorem cash_entry_moves_drawer_witness:
  "\<exists>d s'. add_entry_in sample_env \<lparr>a_user = ''u'', a_device = ''d''\<rparr> None Flow_Out 20000 None None False one_drawer = Inr (d, s') \<and>
     0 \<le> expected_cash s' (de_shift_id d)"
proof -
  have "\<exists>d s'. add_entry_in sample_env \<lparr>a_user = ''u'', a_device = ''d''\<rparr> None Flow_Out 20000 None None False one_drawer = Inr (d, s')"
    by (simp add: add_entry_in_def add_new_entry_def one_drawer_def lock_active_def is_current_def expected_cash_def
        cash_sales_def cash_refunds_def cash_credit_payments_def drawer_flow_def fresh_id_def insert_drawer_entry_def
        constraint_defs map_db_err_def Let_def)
  moreover have "drawer_entries one_drawer = []" by (simp add: one_drawer_def)
  ultimately show ?thesis using cash_entry_moves_drawer [OF one_drawer_ok] by fastforce
qed

end
