(* ===== verification/Stock.thy ===== *)
theory Stock
  imports Schema
begin

text \<open>
  The shelf and its log: what an operation that moves stock does to \<open>products\<close> and
  \<open>movements\<close>, stated once for sales, voids, credit notes and receipts. The locale
  \<open>stock_writer\<close> is the contract each of them keeps: no unit moves without a log row.
\<close>

section \<open>Moving stock\<close>

text \<open>Every product moved by what \<open>g\<close> says of its id.\<close>

definition stock_moved :: "(uuid \<Rightarrow> int) \<Rightarrow> product list \<Rightarrow> product list" where
  "stock_moved g ps = map (\<lambda>p. p\<lparr>p_stock := p_stock p + g (p_id p)\<rparr>) ps"

lemma stock_moved_id [simp]: "stock_moved (\<lambda>_. 0) ps = ps"
  by (simp add: stock_moved_def)

lemma stock_moved_comp: "stock_moved g (stock_moved h ps) = stock_moved (\<lambda>k. h k + g k) ps"
  by (simp add: stock_moved_def comp_def add.assoc)

lemma stock_moved_one:
  "upd_where (\<lambda>p. p_id p = i) (\<lambda>p. p\<lparr>p_stock := p_stock p + q\<rparr>) ps = stock_moved (\<lambda>k. if k = i then q else 0) ps"
  by (auto simp: stock_moved_def upd_where_def)

lemma row_of_stock_moved:
  "row_of p_id k (stock_moved g ps) = map_option (\<lambda>p. p\<lparr>p_stock := p_stock p + g k\<rparr>) (row_of p_id k ps)"
  by (induction ps) (auto simp: stock_moved_def)

lemma keys_stock_moved [simp]: "map p_id (stock_moved g ps) = map p_id ps"
  by (simp add: stock_moved_def comp_def)

lemma has_key_stock_moved [simp]: "has_key p_id k (stock_moved g ps) = has_key p_id k ps"
  by (simp add: has_key_def del: set_map)

lemma stock_moved_cong:
  "(\<And>p. p \<in> set ps \<Longrightarrow> g (p_id p) = h (p_id p)) \<Longrightarrow> stock_moved g ps = stock_moved h ps"
  by (simp add: stock_moved_def)

section \<open>The shelf and the log\<close>

definition on_hand :: "db \<Rightarrow> uuid \<Rightarrow> int" where
  "on_hand s k = (case row_of p_id k (products s) of None \<Rightarrow> 0 | Some p \<Rightarrow> p_stock p)"

abbreviation logged_rows :: "movement list \<Rightarrow> uuid \<Rightarrow> int" where
  "logged_rows vs k \<equiv> sum_by mv_delta (filter (\<lambda>v. mv_product_id v = k) vs)"

definition logged :: "db \<Rightarrow> uuid \<Rightarrow> int" where
  "logged s k = logged_rows (movements s) k"

text \<open>What was on the shelf before the first log row.\<close>

definition opening_stock :: "db \<Rightarrow> uuid \<Rightarrow> int" where
  "opening_stock s k = on_hand s k - logged s k"

lemma on_hand_moved:
  assumes "products s' = stock_moved g (products s)" "\<And>k. g k \<noteq> 0 \<Longrightarrow> has_key p_id k (products s)"
  shows "on_hand s' k = on_hand s k + g k"
  using assms(2) [of k] row_of_None [of p_id k "products s"]
  by (auto simp: on_hand_def assms(1) row_of_stock_moved split: option.split)

definition moves_logged :: "db \<Rightarrow> db \<Rightarrow> bool" where
  "moves_logged s s' \<longleftrightarrow> (\<exists>vs. movements s' = movements s @ vs \<and>
     (\<forall>k. on_hand s' k = on_hand s k + logged_rows vs k))"

lemma moves_loggedI:
  "movements s' = movements s @ vs \<Longrightarrow> (\<And>k. on_hand s' k = on_hand s k + logged_rows vs k) \<Longrightarrow>
   moves_logged s s'"
  by (auto simp: moves_logged_def)

lemma moves_logged_refl [simp]: "moves_logged s s"
  by (simp add: moves_logged_def)

lemma moves_logged_trans: "moves_logged s t \<Longrightarrow> moves_logged t u \<Longrightarrow> moves_logged s u"
  unfolding moves_logged_def
proof (elim exE conjE)
  fix vs ws
  assume "movements t = movements s @ vs" "movements u = movements t @ ws"
    and "\<forall>k. on_hand t k = on_hand s k + logged_rows vs k"
    and "\<forall>k. on_hand u k = on_hand t k + logged_rows ws k"
  then show "\<exists>vs. movements u = movements s @ vs \<and> (\<forall>k. on_hand u k = on_hand s k + logged_rows vs k)"
    by (intro exI [of _ "vs @ ws"]) simp
qed

lemma moves_logged_same:
  "products s' = products s \<Longrightarrow> movements s' = movements s \<Longrightarrow> moves_logged s s'"
  by (simp add: moves_logged_def on_hand_def)

lemma moves_logged_opening: "moves_logged s s' \<Longrightarrow> opening_stock s' k = opening_stock s k"
  by (auto simp: moves_logged_def opening_stock_def logged_def)

text \<open>The contract of an operation that moves stock.\<close>

locale stock_writer =
  fixes mover :: "'a op"
  assumes writes_logged: "mover s = Inr (a, s') \<Longrightarrow> moves_logged s s'"
begin

lemma keeps_opening: "mover s = Inr (a, s') \<Longrightarrow> opening_stock s' k = opening_stock s k"
  using writes_logged moves_logged_opening by blast

lemma log_grows: "mover s = Inr (a, s') \<Longrightarrow> \<exists>vs. movements s' = movements s @ vs"
  by (drule writes_logged) (auto simp: moves_logged_def)

lemma keeps_accounted: "tx_keeps (\<lambda>s. opening_stock s k = n) mover"
  using keeps_opening by (auto simp: tx_keeps_def)

end

text \<open>The same contract for an operation that relies on the keys of the tables being in order.\<close>

locale guarded_stock_writer =
  fixes mover :: "'a op" and inv :: "db \<Rightarrow> bool"
  assumes guarded_logged: "inv s \<Longrightarrow> mover s = Inr (a, s') \<Longrightarrow> moves_logged s s'"
begin

lemma guarded_keeps_opening: "inv s \<Longrightarrow> mover s = Inr (a, s') \<Longrightarrow> opening_stock s' k = opening_stock s k"
  using guarded_logged moves_logged_opening by blast

end

sublocale stock_writer \<subseteq> unguarded: guarded_stock_writer mover "\<lambda>_. True"
  by unfold_locales (rule writes_logged)

section \<open>Inserting log rows\<close>

lemma insert_movement_Inr:
  "insert_movement v s = Inr (u, s') \<Longrightarrow> s' = s\<lparr>movements := movements s @ [v]\<rparr> \<and>
     \<not> has_key mv_id (mv_id v) (movements s) \<and> has_key p_id (mv_product_id v) (products s) \<and>
     (mv_ref_id v \<noteq> None \<longrightarrow> \<not> has_key mv_ref_key (mv_ref_key v) (movements s))"
  by (auto simp: insert_movement_def constraint_defs)

lemma fresh_id_Inr [simp]: "fresh_id e s = Inr (i, s') \<longleftrightarrow> i = mint e (minted s) \<and> s' = s\<lparr>minted := minted s + 1\<rparr>"
  by (auto simp: fresh_id_def)

text \<open>
  A loop that writes one log row per item: the rows come out in order, are appended to the
  log, and nothing else moves but the id counter.
\<close>

lemma log_loop_Inr:
  assumes "tx_mapM f xs s = Inr (vs, s')"
    and "\<And>x s v s'. x \<in> set xs \<Longrightarrow> f x s = Inr (v, s') \<Longrightarrow>
      s' = s\<lparr>minted := minted s + 1, movements := movements s @ [v]\<rparr> \<and> P x v"
  shows "s' = s\<lparr>minted := minted s + length xs, movements := movements s @ vs\<rparr> \<and> list_all2 P xs vs"
  using assms
proof (induction xs arbitrary: s vs)
  case Nil
  then show ?case by simp
next
  case (Cons x xs)
  then obtain v s1 ws where v: "f x s = Inr (v, s1)" and ws: "tx_mapM f xs s1 = Inr (ws, s')"
    and vs: "vs = v # ws" by auto
  have "s' = s1\<lparr>minted := minted s1 + length xs, movements := movements s1 @ ws\<rparr> \<and> list_all2 P xs ws"
    by (rule Cons.IH [OF ws]) (use Cons.prems(2) in auto)
  then show ?case using Cons.prems(2) [of x s v s1] v vs by simp
qed

text \<open>None of the new rows stands for a document and product that was already logged.\<close>

lemma log_loop_new:
  assumes "tx_mapM f xs s = Inr (vs, s')"
    and "\<And>x s v s'. x \<in> set xs \<Longrightarrow> f x s = Inr (v, s') \<Longrightarrow>
      movements s' = movements s @ [v] \<and> \<not> has_key mv_ref_key (mv_ref_key v) (movements s)"
  shows "\<forall>v \<in> set vs. \<not> has_key mv_ref_key (mv_ref_key v) (movements s)"
  using assms
proof (induction xs arbitrary: s vs)
  case (Cons x xs)
  then obtain v s1 ws where v: "f x s = Inr (v, s1)" and ws: "tx_mapM f xs s1 = Inr (ws, s')"
    and vs: "vs = v # ws" by auto
  have "\<forall>v \<in> set ws. \<not> has_key mv_ref_key (mv_ref_key v) (movements s1)"
    by (rule Cons.IH [OF ws]) (use Cons.prems(2) in auto)
  then show ?case using Cons.prems(2) [of x s v s1] v vs by auto
qed simp

lemma logged_rows_all2:
  assumes "list_all2 (\<lambda>x v. mv_product_id v = key x \<and> mv_delta v = amount x) xs vs"
  shows "logged_rows vs k = sum_by amount (filter (\<lambda>x. key x = k) xs)"
  using assms by (induction rule: list_all2_induct) auto

end
