(* ===== verification/Sales.thy ===== *)
theory Sales
  imports Shifts Sales_Dto Stock
begin

text \<open>
  Ringing a bill up (\<open>sales/sales.service.ts\<close>): the checks, the stock, the document, the
  ledger and the answer of \<open>SalesService.create\<close>, statement by statement.
\<close>

section \<open>What the route answers\<close>

record mechanic_after =
  ma_id :: uuid
  ma_total_sales :: string
  ma_total_discount :: string
  ma_total_markup :: string
  ma_credit_balance :: string

record customer_after =
  ca_id :: uuid
  ca_points :: int
  ca_total_spend :: string

record sale_line_out =
  lo_line_no :: int
  lo_product_id :: uuid
  lo_cost_at_sale :: string

record create_sale_result =
  cr_id :: uuid
  cr_receipt_no :: string
  cr_total :: string
  cr_points_granted :: int
  cr_date :: int
  cr_shift_id :: "uuid option"
  cr_payment_account_id :: "uuid option"
  cr_products :: "(uuid \<times> int) list"
  cr_items :: "sale_line_out list"
  cr_movements :: "movement list"
  cr_balance_after :: "string option"
  cr_mechanic_after :: "mechanic_after option"
  cr_customer_after :: "customer_after option"

definition mechanic_out :: "mechanic \<Rightarrow> mechanic_after" where
  "mechanic_out m = \<lparr>ma_id = m_id m, ma_total_sales = from_satang (m_total_sales m),
     ma_total_discount = from_satang (m_total_discount m),
     ma_total_markup = from_satang (m_total_markup m),
     ma_credit_balance = from_satang (m_credit_balance m)\<rparr>"

definition customer_out :: "customer \<Rightarrow> customer_after" where
  "customer_out c = \<lparr>ca_id = c_id c, ca_points = c_points c,
     ca_total_spend = from_satang (c_total_spend c)\<rparr>"

section \<open>The arithmetic of the bill\<close>

definition TOTAL_TOLERANCE_SATANG :: int where "TOTAL_TOLERANCE_SATANG = 1"

text \<open>\<open>sum + i.qty * i.priceSatang\<close> is computed in doubles.\<close>

definition computed_subtotal :: "(int \<times> int) list \<Rightarrow> real" where
  "computed_subtotal ls =
     foldl (\<lambda>sum (qty, price). js_add sum (js_mul (of_int qty) (of_int price))) 0 ls"

definition assert_sale_totals :: "(int \<times> int) list \<Rightarrow> int \<Rightarrow> int \<Rightarrow> int \<Rightarrow> err + unit" where
  "assert_sale_totals ls subtotal discount tot =
     (let sub = computed_subtotal ls;
          computed_total = js_add sub (- of_int discount);
          off = (of_int TOTAL_TOLERANCE_SATANG < \<bar>js_add sub (- of_int subtotal)\<bar> \<or>
                 of_int TOTAL_TOLERANCE_SATANG < \<bar>js_add computed_total (- of_int tot)\<bar>) in
      if off then Inl (HttpErr 409 ''TOTAL_MISMATCH'' (Totals \<lfloor>sub\<rfloor> \<lfloor>computed_total\<rfloor>)) else Inr ())"

abbreviation line_amounts :: "sale_line list \<Rightarrow> (int \<times> int) list" where
  "line_amounts ls \<equiv> map (\<lambda>l. (sl_qty l, sl_price l)) ls"

section \<open>What the bill demands\<close>

record demand =
  dm_product :: uuid
  dm_qty :: int
  dm_requested_name :: string

text \<open>One demand per product, in the order the products are first named.\<close>

definition aggregate :: "sale_line list \<Rightarrow> demand list" where
  "aggregate ls = map (\<lambda>p. let mine = filter (\<lambda>l. sl_product_id l = p) ls in
       \<lparr>dm_product = p, dm_qty = sum_by sl_qty mine, dm_requested_name = sl_name (hd mine)\<rparr>)
     (first_seen (map sl_product_id ls))"

definition lock_products :: "uuid list \<Rightarrow> product list op" where
  "lock_products ids = tx_get (\<lambda>s. filter (\<lambda>p. p_id p \<in> set ids \<and> \<not> p_deleted p) (products s))"

definition insufficient_stock :: "(uuid \<times> int option \<times> int) list \<Rightarrow> err" where
  "insufficient_stock ls = HttpErr 409 ''INSUFFICIENT_STOCK'' (StockLines ls)"

definition short_lines :: "demand list \<Rightarrow> product list \<Rightarrow> (uuid \<times> int option \<times> int) list" where
  "short_lines ds locked = concat (map (\<lambda>d.
     case row_of p_id (dm_product d) locked of
       None \<Rightarrow> [(dm_product d, None, dm_qty d)]
     | Some p \<Rightarrow> if p_stock p < dm_qty d then [(dm_product d, Some (p_stock p), dm_qty d)] else []) ds)"

definition assert_stock :: "demand list \<Rightarrow> product list \<Rightarrow> unit op" where
  "assert_stock ds locked =
     (let short = short_lines ds locked in tx_guard (short = []) (insufficient_stock short))"

text \<open>\<open>UPDATE products SET stock = stock - q WHERE id = \<dots> AND stock \<ge> q RETURNING stock\<close>.\<close>

definition take_stock :: "uuid \<Rightarrow> int \<Rightarrow> int op" where
  "take_stock i q =
     tx_bind (tx_get (\<lambda>s. row_of p_id i (products s))) (\<lambda>row.
       case row of
         None \<Rightarrow> tx_throw (Fault ''Stock underflow'')
       | Some p \<Rightarrow>
           tx_bind (tx_guard (q \<le> p_stock p) (Fault ''Stock underflow'')) (\<lambda>_.
           tx_bind (int4 (p_stock p - q)) (\<lambda>_.
           tx_bind (tx_modify (\<lambda>s. s\<lparr>products := upd_where (\<lambda>p. p_id p = i)
              (\<lambda>p. p\<lparr>p_stock := p_stock p - q\<rparr>) (products s)\<rparr>)) (\<lambda>_.
           tx_ret (p_stock p - q)))))"

definition deduct :: "demand list \<Rightarrow> (uuid \<times> int) list op" where
  "deduct ds = tx_mapM (\<lambda>d.
     tx_bind (take_stock (dm_product d) (dm_qty d)) (\<lambda>n. tx_ret (dm_product d, n))) ds"

section \<open>The mechanic's limit\<close>

definition credit_limit_exceeded :: "int \<Rightarrow> int \<Rightarrow> int \<Rightarrow> err" where
  "credit_limit_exceeded cap bal new = HttpErr 409 ''CREDIT_LIMIT_EXCEEDED'' (CreditLimit cap bal new)"

text \<open>The answer is the limit and the balance before, when the bill went past the limit on the flag.\<close>

definition lock_mechanic_and_check_limit :: "'a create_sale_scheme \<Rightarrow> (int \<times> int) option op" where
  "lock_mechanic_and_check_limit dto =
     (case sp_mechanic_id dto of
        None \<Rightarrow> tx_ret None
      | Some m \<Rightarrow>
          tx_bind (tx_get (\<lambda>s. row_of m_id m (mechanics s))) (\<lambda>row.
          case row of
            None \<Rightarrow> tx_ret None
          | Some r \<Rightarrow>
              if sp_payment_method dto \<noteq> Mechanic_Credit then tx_ret None
              else
                let cap = m_credit_limit r; bal = m_credit_balance r; new = bal + cs_total dto in
                if new \<le> cap then tx_ret None
                else tx_bind (tx_guard (sp_override dto) (credit_limit_exceeded cap bal new)) (\<lambda>_.
                       tx_ret (Some (cap, bal)))))"

section \<open>The payment account\<close>

definition resolve_payment_account :: "'a sale_write_scheme \<Rightarrow> uuid option op" where
  "resolve_payment_account dto =
     (case sp_payment_account_id dto of
        None \<Rightarrow> tx_ret None
      | Some i \<Rightarrow>
          if sp_payment_method dto \<noteq> Transfer_QR then tx_ret None
          else tx_bind (tx_get payment_accounts) (\<lambda>accts.
            if has_key pa_id i accts then tx_ret (Some i)
            else if sw_sold_offline dto then tx_ret None
            else tx_throw (HttpErr 400 ''PAYMENT_ACCOUNT_NOT_FOUND'' NoDetail)))"

section \<open>The document\<close>

definition sale_id_reused :: err where
  "sale_id_reused = HttpErr 409 ''SALE_ID_REUSED'' NoDetail"

definition sale_voided :: err where
  "sale_voided = HttpErr 409 ''SALE_VOIDED'' NoDetail"

definition is_infix :: "string \<Rightarrow> string \<Rightarrow> bool" where
  "is_infix pat s \<longleftrightarrow> list_ex (\<lambda>i. take (length pat) (drop i s) = pat) [0..<length s + 1]"

definition map_constraint_errors :: "err \<Rightarrow> err" where
  "map_constraint_errors x =
     (case x of
        DbErr code name \<Rightarrow>
          if code = ''23505'' then
            if is_infix ''receipt_no'' name then HttpErr 409 ''RECEIPT_NO_CONFLICT'' NoDetail
            else sale_id_reused
          else if code = ''23503'' then HttpErr 400 ''BAD_REQUEST'' (Field name)
          else x
      | _ \<Rightarrow> x)"

definition sale_row :: "env \<Rightarrow> 'a sale_write_scheme \<Rightarrow> actor \<Rightarrow> string \<Rightarrow> int \<Rightarrow> uuid \<Rightarrow> uuid option \<Rightarrow> sale" where
  "sale_row e dto a receipt_no points shift_id acct =
     \<lparr>s_id = sp_id dto, s_receipt_no = receipt_no, s_subtotal = cs_subtotal dto,
      s_discount = cs_discount dto, s_total = cs_total dto, s_payment_method = sp_payment_method dto,
      s_customer_id = sp_customer_id dto, s_customer_name = sp_customer_name dto,
      s_mechanic_id = sp_mechanic_id dto, s_mechanic_name = sp_mechanic_name dto,
      s_mechanic_delta = sp_mechanic_delta dto, s_points_granted = points,
      s_date = (case sw_date dto of None \<Rightarrow> now e | Some t \<Rightarrow> t),
      s_voided = False, s_voided_at = None, s_void_reason = None, s_shift_id = Some shift_id,
      s_user_id = Some (a_user a), s_device_id = Some (a_device a),
      s_sold_offline = sw_sold_offline dto, s_payment_account_id = acct\<rparr>"

definition insert_sale :: "env \<Rightarrow> 'a sale_write_scheme \<Rightarrow> actor \<Rightarrow> string \<Rightarrow> int \<Rightarrow> uuid \<Rightarrow> uuid option \<Rightarrow> int op" where
  "insert_sale e dto a receipt_no points shift_id acct =
     (let r = sale_row e dto a receipt_no points shift_id acct in
      tx_bind (map_db_err map_constraint_errors (insert_sale_row r)) (\<lambda>_. tx_ret (s_date r)))"

definition insert_lines :: "'a create_sale_scheme \<Rightarrow> product list \<Rightarrow> sale_line_out list op" where
  "insert_lines dto locked =
     tx_bind (tx_mapM (\<lambda>l.
       case row_of p_id (sl_product_id l) locked of
         None \<Rightarrow> tx_throw (Fault ''TypeError'')
       | Some p \<Rightarrow>
           tx_bind (insert_sale_item
             \<lparr>si_sale_id = sp_id dto, si_line_no = sl_line_no l, si_product_id = sl_product_id l,
              si_part_no = (case sl_part_no l of None \<Rightarrow> Some (p_part_no p) | Some n \<Rightarrow> Some n),
              si_name = sl_name l, si_name_th = sl_name_th l, si_qty = sl_qty l,
              si_price = sl_price l, si_cost_at_sale = Some (p_cost p)\<rparr>) (\<lambda>_.
           tx_ret \<lparr>lo_line_no = sl_line_no l, lo_product_id = sl_product_id l,
                   lo_cost_at_sale = from_satang (p_cost p)\<rparr>)) (cs_items dto)) (\<lambda>out.
     tx_ret (sort_key lo_line_no out))"

definition insert_sale_movement :: "env \<Rightarrow> uuid \<Rightarrow> product list \<Rightarrow> (uuid \<times> int) list \<Rightarrow> demand \<Rightarrow> movement op" where
  "insert_sale_movement e sale_id locked stock_after d =
     (case row_of p_id (dm_product d) locked of
        None \<Rightarrow> tx_throw (Fault ''TypeError'')
      | Some p \<Rightarrow>
          tx_bind (fresh_id e) (\<lambda>i.
          let v = \<lparr>mv_id = i, mv_product_id = dm_product d, mv_part_no = p_part_no p,
                   mv_name = p_name p, mv_delta = - dm_qty d, mv_type = Mv_Sale, mv_note = None,
                   mv_stock_after = the (map_of stock_after (dm_product d)),
                   mv_ref_id = Some sale_id, mv_date = now e\<rparr> in
          tx_bind (insert_movement v) (\<lambda>_. tx_ret v)))"

definition insert_movements :: "env \<Rightarrow> uuid \<Rightarrow> demand list \<Rightarrow> product list \<Rightarrow> (uuid \<times> int) list \<Rightarrow> movement list op" where
  "insert_movements e sale_id ds locked stock_after =
     tx_mapM (insert_sale_movement e sale_id locked stock_after) ds"

section \<open>The ledger\<close>

definition apply_customer :: "'a create_sale_scheme \<Rightarrow> int \<Rightarrow> customer_after option op" where
  "apply_customer dto points =
     (case sp_customer_id dto of
        None \<Rightarrow> tx_ret None
      | Some i \<Rightarrow>
          tx_bind (tx_get (\<lambda>s. row_of c_id i (customers s))) (\<lambda>row.
          case row of
            None \<Rightarrow> tx_ret None
          | Some c \<Rightarrow>
              let f = (\<lambda>c. c\<lparr>c_points := max 0 (c_points c + points),
                             c_total_spend := max 0 (c_total_spend c + cs_total dto)\<rparr>) in
              tx_bind (int4 (c_points c + points)) (\<lambda>_.
              tx_bind (numeric_14_2 (max 0 (c_total_spend c + cs_total dto))) (\<lambda>_.
              tx_bind (tx_modify (\<lambda>s. s\<lparr>customers := upd_where (\<lambda>c. c_id c = i) f (customers s)\<rparr>)) (\<lambda>_.
              tx_ret (Some (customer_out (f c))))))))"

definition mechanic_moved :: "int \<Rightarrow> int \<Rightarrow> int \<Rightarrow> int \<Rightarrow> mechanic \<Rightarrow> mechanic" where
  "mechanic_moved dsales ddiscount dmarkup dbalance m =
     m\<lparr>m_total_sales := max 0 (m_total_sales m + dsales),
       m_total_discount := max 0 (m_total_discount m + ddiscount),
       m_total_markup := max 0 (m_total_markup m + dmarkup),
       m_credit_balance := max 0 (m_credit_balance m + dbalance)\<rparr>"

text \<open>\<open>UPDATE mechanics SET total_sales = GREATEST(0, \<dots>), \<dots> RETURNING\<close>.\<close>

definition move_mechanic :: "uuid \<Rightarrow> (mechanic \<Rightarrow> mechanic) \<Rightarrow> mechanic option op" where
  "move_mechanic i f =
     tx_bind (tx_get (\<lambda>s. row_of m_id i (mechanics s))) (\<lambda>row.
       case row of
         None \<Rightarrow> tx_ret None
       | Some m \<Rightarrow>
           tx_bind (numeric_14_2 (m_total_sales (f m))) (\<lambda>_.
           tx_bind (numeric_14_2 (m_total_discount (f m))) (\<lambda>_.
           tx_bind (numeric_14_2 (m_total_markup (f m))) (\<lambda>_.
           tx_bind (numeric_14_2 (m_credit_balance (f m))) (\<lambda>_.
           tx_bind (tx_modify (\<lambda>s. s\<lparr>mechanics := upd_where (\<lambda>m. m_id m = i) f (mechanics s)\<rparr>)) (\<lambda>_.
           tx_ret (Some (f m))))))))"

definition apply_mechanic :: "'a create_sale_scheme \<Rightarrow> mechanic option op" where
  "apply_mechanic dto =
     (case sp_mechanic_id dto of
        None \<Rightarrow> tx_ret None
      | Some i \<Rightarrow>
          let delta = (case sp_mechanic_delta dto of None \<Rightarrow> 0 | Some d \<Rightarrow> d) in
          move_mechanic i (mechanic_moved (cs_total dto)
            (if delta < 0 then - delta else 0) (if 0 < delta then delta else 0)
            (if sp_payment_method dto = Mechanic_Credit then cs_total dto else 0)))"

definition record_override :: "env \<Rightarrow> 'a sale_write_scheme \<Rightarrow> actor \<Rightarrow> int \<times> int \<Rightarrow> mechanic \<Rightarrow> unit op" where
  "record_override e dto a ov m =
     tx_bind (insert_audit
       \<lparr>au_user = Some (a_user a), au_device = Some (a_device a),
        au_action = ''sale.credit_limit_override'', au_entity = ''mechanic'', au_entity_id = m_id m,
        au_before = None,
        au_after = Some (JObj [(''saleId'', JStr (sp_id dto)), js_text ''total'' (cs_total dto),
          js_text ''creditLimit'' (fst ov), js_text ''creditBalanceBefore'' (snd ov),
          js_text ''creditBalanceAfter'' (m_credit_balance m)])\<rparr>) (\<lambda>_.
     if sw_sold_offline dto
     then insert_review_item e ''credit_override'' (sp_id dto)
       (JObj [(''saleId'', JStr (sp_id dto)), (''mechanicId'', JStr (m_id m)),
         js_text ''total'' (cs_total dto), js_text ''creditLimit'' (fst ov),
         js_text ''creditBalanceAfter'' (m_credit_balance m)])
     else tx_ret ())"

section \<open>The replay\<close>

definition stock_of :: "db \<Rightarrow> uuid list \<Rightarrow> (uuid \<times> int) list" where
  "stock_of s ids = concat (map (\<lambda>i. case row_of p_id i (products s) of
     None \<Rightarrow> [] | Some p \<Rightarrow> [(i, p_stock p)]) ids)"

definition sale_movements_of :: "db \<Rightarrow> uuid \<Rightarrow> uuid list \<Rightarrow> movement list" where
  "sale_movements_of s sale_id ids = concat (map (\<lambda>i.
     case row_of mv_product_id i
       (filter (\<lambda>v. mv_type v = Mv_Sale \<and> mv_ref_id v = Some sale_id) (movements s)) of
       None \<Rightarrow> [] | Some v \<Rightarrow> [v]) ids)"

text \<open>
  \<open>existingSale\<close>: \<open>items\<close> are the request's own lines when the route has them; the stored
  lines give the order otherwise.
\<close>

definition existing_sale :: "uuid \<Rightarrow> int \<Rightarrow> bool \<Rightarrow> sale_line list option \<Rightarrow> create_sale_result option op" where
  "existing_sale sale_id tot sold_offline items =
     tx_bind (tx_get id) (\<lambda>s.
     case row_of s_id sale_id (sales s) of
       None \<Rightarrow> tx_ret None
     | Some b \<Rightarrow>
         tx_bind (tx_guard (s_total b = tot) sale_id_reused) (\<lambda>_.
         tx_bind (tx_guard (\<not> (s_voided b \<and> \<not> sold_offline)) sale_voided) (\<lambda>_.
         let ls = sort_key si_line_no (filter (\<lambda>i. si_sale_id i = sale_id) (sale_items s));
             ids = (case items of Some is \<Rightarrow> map dm_product (aggregate is)
                    | None \<Rightarrow> first_seen (map si_product_id ls));
             cust = (case s_customer_id b of None \<Rightarrow> None | Some c \<Rightarrow> row_of c_id c (customers s));
             mech = (case s_mechanic_id b of None \<Rightarrow> None | Some m \<Rightarrow> row_of m_id m (mechanics s)) in
         tx_ret (Some
           \<lparr>cr_id = sale_id, cr_receipt_no = s_receipt_no b, cr_total = from_satang (s_total b),
            cr_points_granted = s_points_granted b, cr_date = s_date b, cr_shift_id = s_shift_id b,
            cr_payment_account_id = s_payment_account_id b,
            cr_products = stock_of s ids,
            cr_items = map (\<lambda>l. \<lparr>lo_line_no = si_line_no l, lo_product_id = si_product_id l,
              lo_cost_at_sale = from_satang (case si_cost_at_sale l of None \<Rightarrow> 0 | Some c \<Rightarrow> c)\<rparr>) ls,
            cr_movements = sale_movements_of s sale_id ids,
            cr_balance_after = map_option (\<lambda>m. from_satang (m_credit_balance m)) mech,
            cr_mechanic_after = map_option mechanic_out mech,
            cr_customer_after = map_option customer_out cust\<rparr>))))"

section \<open>The transaction\<close>

text \<open>The ledger, the trace of an override and the hooks.\<close>

definition settle_sale :: "env \<Rightarrow> 'a sale_write_scheme \<Rightarrow> actor \<Rightarrow> (int \<times> int) option \<Rightarrow> int \<Rightarrow>
    (customer_after option \<times> mechanic option) op" where
  "settle_sale e dto a ov points =
     tx_bind (apply_customer dto points) (\<lambda>cust.
     tx_bind (apply_mechanic dto) (\<lambda>mech.
     tx_bind (case ov of None \<Rightarrow> tx_ret ()
              | Some v \<Rightarrow> (case mech of None \<Rightarrow> tx_ret () | Some m \<Rightarrow> record_override e dto a v m)) (\<lambda>_.
     tx_bind (add_hook (Invalidate ''products'')) (\<lambda>_.
     tx_bind (if sp_customer_id dto \<noteq> None then add_hook (Invalidate ''customers'') else tx_ret ()) (\<lambda>_.
     tx_bind (if sp_mechanic_id dto \<noteq> None then add_hook (Invalidate ''mechanics'') else tx_ret ()) (\<lambda>_.
     tx_bind (add_hook (Record_Document ''sale'')) (\<lambda>_.
     tx_bind (add_hook (Enqueue ''sale-created'' (sp_id dto))) (\<lambda>_.
     tx_ret (cust, mech)))))))))"

text \<open>The number, the document and the answer.\<close>

definition file_sale :: "env \<Rightarrow> 'a sale_write_scheme \<Rightarrow> actor \<Rightarrow> uuid \<Rightarrow> uuid option \<Rightarrow>
    (int \<times> int) option \<Rightarrow> demand list \<Rightarrow> product list \<Rightarrow> (uuid \<times> int) list \<Rightarrow> create_sale_result op" where
  "file_sale e dto a shift_id acct ov ds locked stock_after =
     tx_bind (resolve_doc_number e (a_device a) Receipt (sp_receipt_no dto)) (\<lambda>receipt_no.
     let points = points_for (cs_total dto) in
     tx_bind (insert_sale e dto a receipt_no points shift_id acct) (\<lambda>date.
     tx_bind (insert_lines dto locked) (\<lambda>items.
     tx_bind (insert_movements e (sp_id dto) ds locked stock_after) (\<lambda>mvs.
     tx_bind (settle_sale e dto a ov points) (\<lambda>(cust, mech).
     tx_ret
       \<lparr>cr_id = sp_id dto, cr_receipt_no = receipt_no, cr_total = from_satang (cs_total dto),
        cr_points_granted = points, cr_date = date, cr_shift_id = Some shift_id,
        cr_payment_account_id = acct,
        cr_products = map (\<lambda>d. (dm_product d, the (map_of stock_after (dm_product d)))) ds,
        cr_items = items, cr_movements = mvs,
        cr_balance_after = map_option (\<lambda>m. from_satang (m_credit_balance m)) mech,
        cr_mechanic_after = map_option mechanic_out mech, cr_customer_after = cust\<rparr>)))))"

text \<open>Everything after the checks.\<close>

definition write_sale :: "env \<Rightarrow> 'a sale_write_scheme \<Rightarrow> actor \<Rightarrow> uuid \<Rightarrow> uuid option \<Rightarrow>
    (int \<times> int) option \<Rightarrow> demand list \<Rightarrow> product list \<Rightarrow> create_sale_result op" where
  "write_sale e dto a shift_id acct ov ds locked =
     tx_bind (deduct ds) (file_sale e dto a shift_id acct ov ds locked)"

definition create_in :: "env \<Rightarrow> 'a sale_write_scheme \<Rightarrow> actor \<Rightarrow> create_sale_result op" where
  "create_in e dto a =
     tx_bind (tx_lift (assert_sale_totals (line_amounts (cs_items dto)) (cs_subtotal dto)
                (cs_discount dto) (cs_total dto))) (\<lambda>_.
     tx_bind (existing_sale (sp_id dto) (cs_total dto) (sw_sold_offline dto) (Some (cs_items dto))) (\<lambda>existing.
     case existing of
       Some r \<Rightarrow> tx_ret r
     | None \<Rightarrow>
         tx_bind (require_open_shift_id_for (a_device a)) (\<lambda>shift_id.
         tx_bind (resolve_payment_account dto) (\<lambda>acct.
         tx_bind (lock_mechanic_and_check_limit dto) (\<lambda>ov.
         let ds = aggregate (cs_items dto) in
         tx_bind (lock_products (map dm_product ds)) (\<lambda>locked.
         tx_bind (assert_stock ds locked) (\<lambda>_.
         write_sale e dto a shift_id acct ov ds locked)))))))"

section \<open>Frames\<close>

lemma tx_fixes_take_stock [tx_fix]:
  "(\<And>s x. f (s\<lparr>products := x\<rparr>) = f s) \<Longrightarrow> tx_fixes f (take_stock i q)"
  unfolding take_stock_def by (intro tx_fix; simp)

lemma tx_fixes_deduct [tx_fix]:
  "(\<And>s x. f (s\<lparr>products := x\<rparr>) = f s) \<Longrightarrow> tx_fixes f (deduct ds)"
  unfolding deduct_def by (intro tx_fix; simp)

lemma tx_fixes_insert_sale [tx_fix]:
  "(\<And>s x. f (s\<lparr>sales := x\<rparr>) = f s) \<Longrightarrow> tx_fixes f (insert_sale e dto a n pts sid acct)"
  unfolding insert_sale_def by (intro tx_fix; simp)

lemma tx_fixes_insert_lines [tx_fix]:
  "(\<And>s x. f (s\<lparr>sale_items := x\<rparr>) = f s) \<Longrightarrow> tx_fixes f (insert_lines dto locked)"
  unfolding insert_lines_def by (intro tx_fix; simp)

lemma tx_fixes_insert_movements [tx_fix]:
  "(\<And>s x. f (s\<lparr>movements := x\<rparr>) = f s) \<Longrightarrow> (\<And>s x. f (s\<lparr>minted := x\<rparr>) = f s) \<Longrightarrow>
   tx_fixes f (insert_movements e i ds locked sa)"
  unfolding insert_movements_def insert_sale_movement_def by (intro tx_fix; simp)

lemma tx_fixes_move_mechanic [tx_fix]:
  "(\<And>s x. f (s\<lparr>mechanics := x\<rparr>) = f s) \<Longrightarrow> tx_fixes f (move_mechanic i g)"
  unfolding move_mechanic_def by (intro tx_fix; simp)

lemma tx_fixes_settle [tx_fix]:
  assumes "\<And>s x. f (s\<lparr>customers := x\<rparr>) = f s" "\<And>s x. f (s\<lparr>mechanics := x\<rparr>) = f s"
    "\<And>s x. f (s\<lparr>audit_log := x\<rparr>) = f s" "\<And>s x. f (s\<lparr>review_items := x\<rparr>) = f s"
    "\<And>s x. f (s\<lparr>minted := x\<rparr>) = f s" "\<And>s x. f (s\<lparr>hooks := x\<rparr>) = f s"
  shows "tx_fixes f (settle_sale e dto a ov pts)"
  unfolding settle_sale_def apply_customer_def apply_mechanic_def record_override_def
  by (intro tx_fix; simp add: assms)

section \<open>What each step writes\<close>

abbreviation demanded :: "demand list \<Rightarrow> uuid \<Rightarrow> int" where
  "demanded ds k \<equiv> sum_by dm_qty (filter (\<lambda>d. dm_product d = k) ds)"

lemma take_stock_Inr: "take_stock i q s = Inr (n, s') \<Longrightarrow> has_key p_id i (products s) \<and>
    q \<le> on_hand s i \<and> n = on_hand s i - q \<and>
    s' = s\<lparr>products := stock_moved (\<lambda>k. if k = i then - q else 0) (products s)\<rparr>"
  using stock_moved_one [of i "- q" "products s"]
  by (auto simp: take_stock_def constraint_defs on_hand_def row_of_Some_has_key split: option.splits)

lemma deduct_Inr:
  assumes "deduct ds s = Inr (out, s')"
  shows "s' = s\<lparr>products := stock_moved (\<lambda>k. - demanded ds k) (products s)\<rparr> \<and>
    (\<forall>d \<in> set ds. has_key p_id (dm_product d) (products s)) \<and>
    (distinct (map dm_product ds) \<longrightarrow>
      out = map (\<lambda>d. (dm_product d, on_hand s (dm_product d) - dm_qty d)) ds \<and>
      (\<forall>d \<in> set ds. dm_qty d \<le> on_hand s (dm_product d)))"
  using assms
proof (induction ds arbitrary: s out)
  case Nil
  then show ?case by (simp add: deduct_def)
next
  case (Cons d ds)
  then obtain n s1 out' where n: "take_stock (dm_product d) (dm_qty d) s = Inr (n, s1)"
    and rest: "deduct ds s1 = Inr (out', s')" and out: "out = (dm_product d, n) # out'"
    by (auto simp: deduct_def)
  note t = take_stock_Inr [OF n] and IH = Cons.IH [OF rest]
  have other: "on_hand s1 k = on_hand s k" if "k \<noteq> dm_product d" for k
    using that t by (simp add: on_hand_def row_of_stock_moved split: option.split)
  have eq: "products s' = stock_moved (\<lambda>k. - demanded (d # ds) k) (products s)"
    using t IH by (auto simp: stock_moved_comp intro!: stock_moved_cong)
  have others: "\<forall>x \<in> set ds. on_hand s1 (dm_product x) = on_hand s (dm_product x)"
    if "distinct (map dm_product (d # ds))"
    using that other by (metis distinct.simps(2) image_eqI list.set_map list.simps(9))
  have "out = map (\<lambda>d. (dm_product d, on_hand s (dm_product d) - dm_qty d)) (d # ds) \<and>
      (\<forall>x \<in> set (d # ds). dm_qty x \<le> on_hand s (dm_product x))"
    if "distinct (map dm_product (d # ds))"
    using that others [OF that] t IH out by simp
  moreover have "s' = s\<lparr>products := stock_moved (\<lambda>k. - demanded (d # ds) k) (products s)\<rparr>"
    using eq t IH by (auto simp del: filter.simps)
  moreover have "\<forall>x \<in> set (d # ds). has_key p_id (dm_product x) (products s)"
    using t IH by simp
  ultimately show ?case by blast
qed

lemma demanded_distinct:
  "distinct (map dm_product ds) \<Longrightarrow> d \<in> set ds \<Longrightarrow> demanded ds (dm_product d) = dm_qty d"
proof (induction ds)
  case (Cons x ds)
  have "filter (\<lambda>y. dm_product y = dm_product x) ds = []"
    using Cons.prems(1) by (auto simp: filter_empty_conv image_iff)
  then show ?case using Cons by auto
qed simp

lemma distinct_aggregate [simp]: "distinct (map dm_product (aggregate ls))"
  by (simp add: aggregate_def Let_def comp_def)

lemma products_aggregate: "map dm_product (aggregate ls) = first_seen (map sl_product_id ls)"
  by (simp add: aggregate_def Let_def comp_def)

lemma demanded_aggregate:
  "demanded (aggregate ls) k = sum_by sl_qty (filter (\<lambda>l. sl_product_id l = k) ls)"
proof (cases "k \<in> sl_product_id ` set ls")
  case True
  then have "k \<in> set (map dm_product (aggregate ls))" unfolding products_aggregate by simp
  then obtain d where d: "d \<in> set (aggregate ls)" "dm_product d = k" by auto
  then have "dm_qty d = sum_by sl_qty (filter (\<lambda>l. sl_product_id l = k) ls)"
    by (auto simp: aggregate_def Let_def)
  then show ?thesis using demanded_distinct [OF distinct_aggregate d(1)] d(2) by simp
next
  case False
  then have "filter (\<lambda>d. dm_product d = k) (aggregate ls) = []"
    "filter (\<lambda>l. sl_product_id l = k) ls = []"
    by (auto simp: aggregate_def Let_def filter_empty_conv)
  then show ?thesis by simp
qed

definition stored_line :: "uuid \<Rightarrow> product list \<Rightarrow> sale_line \<Rightarrow> sale_item \<Rightarrow> bool" where
  "stored_line sale_id locked l i \<longleftrightarrow> si_sale_id i = sale_id \<and> si_line_no i = sl_line_no l \<and>
     si_product_id i = sl_product_id l \<and> si_qty i = sl_qty l \<and> si_price i = sl_price l \<and>
     si_cost_at_sale i = map_option p_cost (row_of p_id (sl_product_id l) locked) \<and>
     has_key p_id (sl_product_id l) locked"

definition line_out :: "sale_item \<Rightarrow> sale_line_out" where
  "line_out i = \<lparr>lo_line_no = si_line_no i, lo_product_id = si_product_id i,
     lo_cost_at_sale = from_satang (case si_cost_at_sale i of None \<Rightarrow> 0 | Some c \<Rightarrow> c)\<rparr>"

lemma insert_sale_item_Inr:
  "insert_sale_item i s = Inr (u, s') \<Longrightarrow> s' = s\<lparr>sale_items := sale_items s @ [i]\<rparr> \<and> 0 < si_qty i"
  by (auto simp: insert_sale_item_def constraint_defs)

lemma insert_lines_Inr:
  assumes "insert_lines dto locked s = Inr (out, s')"
  obtains new where "s' = s\<lparr>sale_items := sale_items s @ new\<rparr>"
    "list_all2 (stored_line (sp_id dto) locked) (cs_items dto) new"
    "out = sort_key lo_line_no (map line_out new)"
proof -
  define f where "f = (\<lambda>l :: sale_line. case row_of p_id (sl_product_id l) locked of
         None \<Rightarrow> tx_throw (Fault ''TypeError'')
       | Some p \<Rightarrow>
           tx_bind (insert_sale_item
             \<lparr>si_sale_id = sp_id dto, si_line_no = sl_line_no l, si_product_id = sl_product_id l,
              si_part_no = (case sl_part_no l of None \<Rightarrow> Some (p_part_no p) | Some n \<Rightarrow> Some n),
              si_name = sl_name l, si_name_th = sl_name_th l, si_qty = sl_qty l,
              si_price = sl_price l, si_cost_at_sale = Some (p_cost p)\<rparr>) (\<lambda>_.
           tx_ret \<lparr>lo_line_no = sl_line_no l, lo_product_id = sl_product_id l,
                   lo_cost_at_sale = from_satang (p_cost p)\<rparr>))"
  obtain outs where outs: "tx_mapM f (cs_items dto) s = Inr (outs, s')" and out: "out = sort_key lo_line_no outs"
    using assms by (auto simp: insert_lines_def f_def)
  have one: "\<exists>i. s' = s\<lparr>sale_items := sale_items s @ [i]\<rparr> \<and> stored_line (sp_id dto) locked l i \<and> x = line_out i"
    if run: "f l s = Inr (x, s')" for l s x s'
  proof -
    obtain p where p: "row_of p_id (sl_product_id l) locked = Some p"
      using run by (cases "row_of p_id (sl_product_id l) locked") (simp_all add: f_def)
    show ?thesis
      using run by (auto simp: f_def p stored_line_def line_out_def row_of_Some_has_key [OF p]
          dest!: insert_sale_item_Inr)
  qed
  have "\<exists>new. s' = s\<lparr>sale_items := sale_items s @ new\<rparr> \<and>
      list_all2 (stored_line (sp_id dto) locked) ls new \<and> outs = map line_out new"
    if "tx_mapM f ls s = Inr (outs, s')" for ls outs s s'
    using that
  proof (induction ls arbitrary: s outs)
    case (Cons l ls)
    then obtain x s1 xs where x: "f l s = Inr (x, s1)" and xs: "tx_mapM f ls s1 = Inr (xs, s')"
      and o: "outs = x # xs" by auto
    obtain i where i: "s1 = s\<lparr>sale_items := sale_items s @ [i]\<rparr>" "stored_line (sp_id dto) locked l i" "x = line_out i"
      using one [OF x] by blast
    obtain new where "s' = s1\<lparr>sale_items := sale_items s1 @ new\<rparr>"
      "list_all2 (stored_line (sp_id dto) locked) ls new" "xs = map line_out new"
      using Cons.IH [OF xs] by blast
    then show ?case using i o by (intro exI [of _ "i # new"]) simp
  qed (simp add: exI [of _ "[]"])
  with outs out show thesis using that by blast
qed

definition demand_logged :: "env \<Rightarrow> uuid \<Rightarrow> (uuid \<times> int) list \<Rightarrow> demand \<Rightarrow> movement \<Rightarrow> bool" where
  "demand_logged e sale_id sa d v \<longleftrightarrow> mv_product_id v = dm_product d \<and> mv_delta v = - dm_qty d \<and>
     mv_type v = Mv_Sale \<and> mv_ref_id v = Some sale_id \<and> mv_date v = now e \<and>
     mv_stock_after v = the (map_of sa (dm_product d))"

lemma insert_movements_Inr:
  assumes "insert_movements e i ds locked sa s = Inr (vs, s')"
  shows "s' = s\<lparr>minted := minted s + length ds, movements := movements s @ vs\<rparr> \<and>
    list_all2 (demand_logged e i sa) ds vs"
  by (rule log_loop_Inr [OF assms [unfolded insert_movements_def]])
    (auto simp: insert_sale_movement_def demand_logged_def Let_def split: option.splits
      dest!: insert_movement_Inr)

lemma insert_sale_Inr: "insert_sale e dto a n pts sid acct s = Inr (d, s') \<Longrightarrow>
    s' = s\<lparr>sales := sales s @ [sale_row e dto a n pts sid acct]\<rparr> \<and>
    d = s_date (sale_row e dto a n pts sid acct) \<and> \<not> has_key s_id (sp_id dto) (sales s) \<and>
    \<not> has_key s_receipt_no n (sales s)"
  by (auto simp: insert_sale_def insert_sale_row_def constraint_defs Let_def sale_row_def)

section \<open>What a sale writes\<close>

abbreviation live_products :: "db \<Rightarrow> product list" where
  "live_products s \<equiv> filter (\<lambda>p. \<not> p_deleted p) (products s)"

text \<open>How many of a product the bill's lines sell.\<close>

abbreviation sold_qty :: "sale_line list \<Rightarrow> uuid \<Rightarrow> int" where
  "sold_qty ls k \<equiv> sum_by sl_qty (filter (\<lambda>l. sl_product_id l = k) ls)"

text \<open>The tables a new bill leaves behind, whoever reads them.\<close>

definition sale_written :: "env \<Rightarrow> 'a sale_write_scheme \<Rightarrow> actor \<Rightarrow> db \<Rightarrow> create_sale_result \<Rightarrow> db \<Rightarrow> bool" where
  "sale_written e dto a s r s' \<longleftrightarrow>
     \<not> has_key s_id (sp_id dto) (sales s) \<and>
     products s' = stock_moved (\<lambda>k. - sold_qty (cs_items dto) k) (products s) \<and>
     (\<forall>l \<in> set (cs_items dto). has_key p_id (sl_product_id l) (products s) \<and>
        0 \<le> on_hand s' (sl_product_id l)) \<and>
     (\<exists>sid acct. sales s' = sales s @ [sale_row e dto a (cr_receipt_no r) (points_for (cs_total dto)) sid acct] \<and>
        (\<exists>q \<in> set (shifts s). sh_id q = sid \<and> is_open (a_device a) q)) \<and>
     (\<exists>new. sale_items s' = sale_items s @ new \<and> cr_items r = sort_key lo_line_no (map line_out new) \<and>
        list_all2 (stored_line (sp_id dto) (live_products s)) (cs_items dto) new) \<and>
     movements s' = movements s @ cr_movements r \<and>
     list_all2 (\<lambda>d v. mv_product_id v = dm_product d \<and> mv_delta v = - dm_qty d \<and> mv_type v = Mv_Sale \<and>
       mv_ref_id v = Some (sp_id dto) \<and> mv_stock_after v = on_hand s' (dm_product d))
       (aggregate (cs_items dto)) (cr_movements r)"

lemma write_sale_Inr:
  assumes "write_sale e dto a sid acct ov (aggregate (cs_items dto)) locked s = Inr (r, s')"
  obtains sa n s1 new vs s5 cust mech where
    "deduct (aggregate (cs_items dto)) s = Inr (sa, s1)" "cr_receipt_no r = n"
    "products s' = products s1" "sales s' = sales s @ [sale_row e dto a n (points_for (cs_total dto)) sid acct]"
    "\<not> has_key s_id (sp_id dto) (sales s)"
    "sale_items s' = sale_items s @ new" "list_all2 (stored_line (sp_id dto) locked) (cs_items dto) new"
    "cr_items r = sort_key lo_line_no (map line_out new)"
    "movements s' = movements s @ vs" "list_all2 (demand_logged e (sp_id dto) sa) (aggregate (cs_items dto)) vs"
    "cr_movements r = vs"
    "settle_sale e dto a ov (points_for (cs_total dto)) s5 = Inr ((cust, mech), s')"
    "customers s5 = customers s" "mechanics s5 = mechanics s" "audit_log s5 = audit_log s"
    "r = \<lparr>cr_id = sp_id dto, cr_receipt_no = n, cr_total = from_satang (cs_total dto),
        cr_points_granted = points_for (cs_total dto),
        cr_date = s_date (sale_row e dto a n (points_for (cs_total dto)) sid acct), cr_shift_id = Some sid,
        cr_payment_account_id = acct,
        cr_products = map (\<lambda>d. (dm_product d, the (map_of sa (dm_product d)))) (aggregate (cs_items dto)),
        cr_items = sort_key lo_line_no (map line_out new), cr_movements = vs,
        cr_balance_after = map_option (\<lambda>m. from_satang (m_credit_balance m)) mech,
        cr_mechanic_after = map_option mechanic_out mech, cr_customer_after = cust\<rparr>"
    "\<forall>v \<in> set vs. \<not> has_key mv_ref_key (mv_ref_key v) (movements s)"
proof -
  let ?ds = "aggregate (cs_items dto)" and ?pts = "points_for (cs_total dto)"
  obtain sa s1 n s2 d s3 items s4 vs s5 cust mech where
    ded: "deduct ?ds s = Inr (sa, s1)"
    and num: "resolve_doc_number e (a_device a) Receipt (sp_receipt_no dto) s1 = Inr (n, s2)"
    and ins: "insert_sale e dto a n ?pts sid acct s2 = Inr (d, s3)"
    and lin: "insert_lines dto locked s3 = Inr (items, s4)"
    and mov: "insert_movements e (sp_id dto) ?ds locked sa s4 = Inr (vs, s5)"
    and fin: "settle_sale e dto a ov ?pts s5 = Inr ((cust, mech), s')"
    and r: "r = \<lparr>cr_id = sp_id dto, cr_receipt_no = n, cr_total = from_satang (cs_total dto),
        cr_points_granted = ?pts, cr_date = d, cr_shift_id = Some sid, cr_payment_account_id = acct,
        cr_products = map (\<lambda>d. (dm_product d, the (map_of sa (dm_product d)))) ?ds,
        cr_items = items, cr_movements = vs,
        cr_balance_after = map_option (\<lambda>m. from_satang (m_credit_balance m)) mech,
        cr_mechanic_after = map_option mechanic_out mech, cr_customer_after = cust\<rparr>"
    using assms by (auto simp: write_sale_def file_sale_def Let_def)
  obtain new where new: "s4 = s3\<lparr>sale_items := sale_items s3 @ new\<rparr>"
    "list_all2 (stored_line (sp_id dto) locked) (cs_items dto) new"
    "items = sort_key lo_line_no (map line_out new)"
    using insert_lines_Inr [OF lin] by blast
  note i = insert_sale_Inr [OF ins] and m = insert_movements_Inr [OF mov]
  have s1: "sales s1 = sales s" "sale_items s1 = sale_items s" "movements s1 = movements s"
    "customers s1 = customers s" "mechanics s1 = mechanics s" "audit_log s1 = audit_log s"
    by (rule tx_fixesD [OF tx_fixes_deduct ded]; simp)+
  have s2: "products s2 = products s1" "sales s2 = sales s1" "sale_items s2 = sale_items s1"
    "movements s2 = movements s1" "customers s2 = customers s1" "mechanics s2 = mechanics s1"
    "audit_log s2 = audit_log s1"
    by (rule tx_fixesD [OF tx_fixes_resolve(1) num]; simp)+
  have s5: "products s5 = products s2" "sales s5 = sales s2 @ [sale_row e dto a n ?pts sid acct]"
    "sale_items s5 = sale_items s2 @ new" "movements s5 = movements s2 @ vs"
    "customers s5 = customers s2" "mechanics s5 = mechanics s2" "audit_log s5 = audit_log s2"
    using i m new(1) by simp_all
  have s': "products s' = products s5" "sales s' = sales s5" "sale_items s' = sale_items s5" "movements s' = movements s5"
    by (rule tx_fixesD [OF tx_fixes_settle fin]; simp)+
  have fresh: "\<forall>v \<in> set vs. \<not> has_key mv_ref_key (mv_ref_key v) (movements s4)"
    by (rule log_loop_new [OF mov [unfolded insert_movements_def]])
      (auto simp: insert_sale_movement_def Let_def split: option.splits dest!: insert_movement_Inr)
  show thesis
  proof (rule that [OF ded])
    show "list_all2 (stored_line (sp_id dto) locked) (cs_items dto) new" by (rule new(2))
    show "settle_sale e dto a ov ?pts s5 = Inr ((cust, mech), s')" by (rule fin)
    show "list_all2 (demand_logged e (sp_id dto) sa) ?ds vs" using m by blast
    show "\<not> has_key s_id (sp_id dto) (sales s)" using i s1 s2 by simp
    show "\<forall>v \<in> set vs. \<not> has_key mv_ref_key (mv_ref_key v) (movements s)"
      using fresh i new(1) s1 s2 by simp
    show "r = \<lparr>cr_id = sp_id dto, cr_receipt_no = n, cr_total = from_satang (cs_total dto),
        cr_points_granted = ?pts, cr_date = s_date (sale_row e dto a n ?pts sid acct), cr_shift_id = Some sid,
        cr_payment_account_id = acct,
        cr_products = map (\<lambda>d. (dm_product d, the (map_of sa (dm_product d)))) ?ds,
        cr_items = sort_key lo_line_no (map line_out new), cr_movements = vs,
        cr_balance_after = map_option (\<lambda>m. from_satang (m_credit_balance m)) mech,
        cr_mechanic_after = map_option mechanic_out mech, cr_customer_after = cust\<rparr>"
      using r i new(3) by simp
  qed (simp_all add: s1 s2 s5 s' r new(3))
qed

lemma existing_sale_None:
  "existing_sale i n off is s = Inr (None, s') \<longleftrightarrow> s' = s \<and> \<not> has_key s_id i (sales s)"
  using row_of_None [of s_id i "sales s"]
  by (auto simp: existing_sale_def Let_def split: option.splits)

lemma row_of_locked:
  "k \<in> set ids \<Longrightarrow> row_of p_id k (filter (\<lambda>p. p_id p \<in> set ids \<and> \<not> p_deleted p) ps) =
     row_of p_id k (filter (\<lambda>p. \<not> p_deleted p) ps)"
  by (induction ps) auto

lemma has_key_locked:
  "k \<in> set ids \<Longrightarrow> has_key p_id k (filter (\<lambda>p. p_id p \<in> set ids \<and> \<not> p_deleted p) ps) =
     has_key p_id k (filter (\<lambda>p. \<not> p_deleted p) ps)"
  by (induction ps) auto

lemma stored_line_locked:
  "list_all2 (stored_line i (filter (\<lambda>p. p_id p \<in> set ids \<and> \<not> p_deleted p) ps)) ls new \<Longrightarrow>
   set (map sl_product_id ls) \<subseteq> set ids \<Longrightarrow>
   list_all2 (stored_line i (filter (\<lambda>p. \<not> p_deleted p) ps)) ls new"
proof (erule list.rel_mono_strong)
  fix l j
  assume "set (map sl_product_id ls) \<subseteq> set ids" "l \<in> set ls"
    and "stored_line i (filter (\<lambda>p. p_id p \<in> set ids \<and> \<not> p_deleted p) ps) l j"
  then show "stored_line i (filter (\<lambda>p. \<not> p_deleted p) ps) l j"
    using row_of_locked [of "sl_product_id l" ids ps] has_key_locked [of "sl_product_id l" ids ps]
    by (simp add: stored_line_def image_subset_iff)
qed

lemma create_in_Inr:
  assumes "create_in e dto a s = Inr (r, s')"
  obtains (replay) "s' = s" "has_key s_id (sp_id dto) (sales s)"
      "existing_sale (sp_id dto) (cs_total dto) (sw_sold_offline dto) (Some (cs_items dto)) s = Inr (Some r, s)"
  | (new) sid acct ov where "\<not> has_key s_id (sp_id dto) (sales s)"
      "require_open_shift_id_for (a_device a) s = Inr (sid, s)"
      "lock_mechanic_and_check_limit dto s = Inr (ov, s)"
      "write_sale e dto a sid acct ov (aggregate (cs_items dto))
         (filter (\<lambda>p. p_id p \<in> set (map dm_product (aggregate (cs_items dto))) \<and> \<not> p_deleted p) (products s)) s
       = Inr (r, s')"
proof -
  obtain x s1 where ex: "existing_sale (sp_id dto) (cs_total dto) (sw_sold_offline dto) (Some (cs_items dto)) s = Inr (x, s1)"
    and rest: "(case x of Some r \<Rightarrow> tx_ret r | None \<Rightarrow>
         tx_bind (require_open_shift_id_for (a_device a)) (\<lambda>shift_id.
         tx_bind (resolve_payment_account dto) (\<lambda>acct.
         tx_bind (lock_mechanic_and_check_limit dto) (\<lambda>ov.
         let ds = aggregate (cs_items dto) in
         tx_bind (lock_products (map dm_product ds)) (\<lambda>locked.
         tx_bind (assert_stock ds locked) (\<lambda>_.
         write_sale e dto a shift_id acct ov ds locked)))))) s1 = Inr (r, s')"
    using assms by (auto simp: create_in_def)
  show thesis
  proof (cases x)
    case None
    then have s1: "s1 = s" "\<not> has_key s_id (sp_id dto) (sales s)"
      using ex existing_sale_None by auto
    have pure: "tx_fixes id (resolve_payment_account dto)" "tx_fixes id (lock_mechanic_and_check_limit dto)"
      unfolding resolve_payment_account_def lock_mechanic_and_check_limit_def by (intro tx_fix)+
    from rest None s1(1) obtain sid s2 acct s3 ov s4 where
      "require_open_shift_id_for (a_device a) s = Inr (sid, s2)" "resolve_payment_account dto s2 = Inr (acct, s3)"
      "lock_mechanic_and_check_limit dto s3 = Inr (ov, s4)"
      "write_sale e dto a sid acct ov (aggregate (cs_items dto))
         (filter (\<lambda>p. p_id p \<in> set (map dm_product (aggregate (cs_items dto))) \<and> \<not> p_deleted p) (products s4)) s4
       = Inr (r, s')"
      by (auto simp: Let_def lock_products_def assert_stock_def simp del: set_map)
    moreover have "s2 = s" using calculation(1) required.gate_reads by blast
    moreover have "s3 = s2" using tx_fixesD [OF pure(1) calculation(2)] by simp
    moreover have "s4 = s3" using tx_fixesD [OF pure(2) calculation(3)] by simp
    ultimately show thesis using new s1(2) by auto
  next
    case (Some q)
    then show thesis
      using rest ex replay by (auto simp: existing_sale_def Let_def row_of_Some_has_key split: option.splits)
  qed
qed

lemma create_in_written:
  assumes "create_in e dto a s = Inr (r, s')" "\<not> has_key s_id (sp_id dto) (sales s)"
  shows "sale_written e dto a s r s'"
  using assms(1)
proof (cases rule: create_in_Inr)
  case (new sid acct ov)
  let ?ds = "aggregate (cs_items dto)"
  let ?locked = "filter (\<lambda>p. p_id p \<in> set (map dm_product ?ds) \<and> \<not> p_deleted p) (products s)"
  from new(4) obtain sa n s1 items vs where w: "deduct ?ds s = Inr (sa, s1)" "cr_receipt_no r = n"
    "products s' = products s1" "sales s' = sales s @ [sale_row e dto a n (points_for (cs_total dto)) sid acct]"
    "sale_items s' = sale_items s @ items" "list_all2 (stored_line (sp_id dto) ?locked) (cs_items dto) items"
    "cr_items r = sort_key lo_line_no (map line_out items)"
    "movements s' = movements s @ vs" "list_all2 (demand_logged e (sp_id dto) sa) ?ds vs" "cr_movements r = vs"
    by (rule write_sale_Inr)
  note d = deduct_Inr [OF w(1)]
  have prods: "products s' = stock_moved (\<lambda>k. - demanded ?ds k) (products s)" using d w(3) by simp
  have sa: "sa = map (\<lambda>d. (dm_product d, on_hand s (dm_product d) - dm_qty d)) ?ds"
    and enough: "\<forall>d \<in> set ?ds. dm_qty d \<le> on_hand s (dm_product d)"
    and keys: "\<forall>d \<in> set ?ds. has_key p_id (dm_product d) (products s)"
    using d by simp_all
  have hand: "on_hand s' (dm_product d) = on_hand s (dm_product d) - dm_qty d" if "d \<in> set ?ds" for d
    using that keys row_of_None [of p_id "dm_product d" "products s"] demanded_distinct [OF distinct_aggregate that]
    by (auto simp: on_hand_def prods row_of_stock_moved split: option.split)
  have after: "the (map_of sa (dm_product d)) = on_hand s' (dm_product d)" if "d \<in> set ?ds" for d
  proof -
    have "map_of sa (dm_product d) = Some (on_hand s (dm_product d) - dm_qty d)"
      using that unfolding sa by (intro map_of_is_SomeI) (auto simp: comp_def)
    then show ?thesis using hand [OF that] by simp
  qed
  have prodset: "dm_product ` set ?ds = sl_product_id ` set (cs_items dto)"
    using arg_cong [OF products_aggregate [of "cs_items dto"], of set] by simp
  have lines: "has_key p_id (sl_product_id l) (products s) \<and> 0 \<le> on_hand s' (sl_product_id l)"
    if l: "l \<in> set (cs_items dto)" for l
  proof -
    have "sl_product_id l \<in> dm_product ` set ?ds" unfolding prodset using l by simp
    then obtain d where "d \<in> set ?ds" "dm_product d = sl_product_id l" by auto
    then show ?thesis using keys hand enough by fastforce
  qed
  have stored: "list_all2 (stored_line (sp_id dto) (live_products s)) (cs_items dto) items"
    by (rule stored_line_locked [OF w(6)]) (use prodset in auto)
  have logs: "list_all2 (\<lambda>d v. mv_product_id v = dm_product d \<and> mv_delta v = - dm_qty d \<and>
      mv_type v = Mv_Sale \<and> mv_ref_id v = Some (sp_id dto) \<and> mv_stock_after v = on_hand s' (dm_product d)) ?ds vs"
    using w(9) by (rule list.rel_mono_strong) (simp add: demand_logged_def after)
  have gate: "\<exists>q \<in> set (shifts s). sh_id q = sid \<and> is_open (a_device a) q"
    using required.gate_open [OF new(2)] by simp
  show ?thesis
    unfolding sale_written_def
  proof (intro conjI)
    show "products s' = stock_moved (\<lambda>k. - sold_qty (cs_items dto) k) (products s)"
      using prods by (simp add: demanded_aggregate)
    show "\<exists>sid acct. sales s' = sales s @
        [sale_row e dto a (cr_receipt_no r) (points_for (cs_total dto)) sid acct] \<and>
        (\<exists>q \<in> set (shifts s). sh_id q = sid \<and> is_open (a_device a) q)"
      using w(2,4) gate by blast
    show "\<exists>new. sale_items s' = sale_items s @ new \<and> cr_items r = sort_key lo_line_no (map line_out new) \<and>
        list_all2 (stored_line (sp_id dto) (live_products s)) (cs_items dto) new"
      using w(5,7) stored by blast
    show "\<forall>l \<in> set (cs_items dto). has_key p_id (sl_product_id l) (products s) \<and>
        0 \<le> on_hand s' (sl_product_id l)"
      using lines by blast
    show "list_all2 (\<lambda>d v. mv_product_id v = dm_product d \<and> mv_delta v = - dm_qty d \<and>
      mv_type v = Mv_Sale \<and> mv_ref_id v = Some (sp_id dto) \<and> mv_stock_after v = on_hand s' (dm_product d))
      ?ds (cr_movements r)" using logs w(10) by simp
  qed (use new(1) w(8,10) in simp_all)
qed (use assms(2) in simp)

section \<open>The doubles of the totals check are exact enough\<close>

abbreviation exact_subtotal :: "(int \<times> int) list \<Rightarrow> int" where
  "exact_subtotal ls \<equiv> sum_by (\<lambda>(q, p). q * p) ls"

lemma fl_ge_big: "2 ^ 53 \<le> x \<Longrightarrow> 2 ^ 53 \<le> fl x"
  using fl_mono [of "2 ^ 53" x] fl_of_int [of "2 ^ 53"] by simp

lemma js_mul_cases:
  assumes "0 \<le> q" "0 \<le> p"
  shows "if q * p \<le> 2 ^ 53 then js_mul (of_int q) (of_int p) = of_int (q * p)
    else 2 ^ 53 \<le> js_mul (of_int q) (of_int p)"
proof (cases "q * p \<le> 2 ^ 53")
  case True
  then show ?thesis using js_mul_exact [of q p] assms by simp
next
  case False
  then have "real_of_int (2 ^ 53) \<le> real_of_int (q * p)" by (subst of_int_le_iff) simp
  then show ?thesis using fl_ge_big [of "of_int q * of_int p"] False by (simp add: js_mul_def)
qed

abbreviation add_lines :: "real \<Rightarrow> (int \<times> int) list \<Rightarrow> real" where
  "add_lines acc ls \<equiv> foldl (\<lambda>sum (qty, price). js_add sum (js_mul (of_int qty) (of_int price))) acc ls"

lemma computed_subtotal_from:
  assumes "list_all (\<lambda>(q, p). 0 \<le> q \<and> 0 \<le> p) ls" "0 \<le> A"
    and "if A \<le> 2 ^ 53 then acc = of_int A else 2 ^ 53 \<le> acc"
  shows "if A + exact_subtotal ls \<le> 2 ^ 53 then add_lines acc ls = of_int (A + exact_subtotal ls)
    else 2 ^ 53 \<le> add_lines acc ls"
  using assms
proof (induction ls arbitrary: A acc)
  case (Cons l ls)
  obtain q p where l: "l = (q, p)" by (cases l)
  have qp: "0 \<le> q" "0 \<le> p" "0 \<le> q * p" using Cons.prems(1) l by auto
  let ?m = "js_mul (of_int q) (of_int p)" and ?A = "A + q * p"
  have m: "if q * p \<le> 2 ^ 53 then ?m = of_int (q * p) else 2 ^ 53 \<le> ?m" by (rule js_mul_cases [OF qp(1,2)])
  have step: "if ?A \<le> 2 ^ 53 then js_add acc ?m = of_int ?A else 2 ^ 53 \<le> js_add acc ?m"
  proof (cases "?A \<le> 2 ^ 53")
    case True
    then have "A \<le> 2 ^ 53" "q * p \<le> 2 ^ 53" using Cons.prems(2) qp(3) by linarith+
    then show ?thesis
      using m Cons.prems(3) True fl_of_int [of ?A] Cons.prems(2) qp(3) by (simp add: js_add_def)
  next
    case False
    have nonneg: "0 \<le> acc" "0 \<le> ?m"
      using Cons.prems(2,3) m qp(3) by (auto split: if_splits simp flip: of_int_mult)
    have "2 ^ 53 \<le> acc + ?m"
    proof (cases "A \<le> 2 ^ 53 \<and> q * p \<le> 2 ^ 53")
      case True
      then have "acc + ?m = of_int ?A" using m Cons.prems(3) by simp
      moreover have "real_of_int (2 ^ 53) \<le> real_of_int ?A"
        using False by (subst of_int_le_iff) simp
      ultimately show ?thesis by simp
    next
      case False
      then have "2 ^ 53 \<le> acc \<or> 2 ^ 53 \<le> ?m" using m Cons.prems(3) by auto
      then show ?thesis using nonneg by linarith
    qed
    then show ?thesis using False fl_ge_big by (simp add: js_add_def)
  qed
  have "0 \<le> ?A" using Cons.prems(2) qp(3) by simp
  from Cons.IH [OF _ this step] Cons.prems(1) show ?case
    by (auto simp: l add.assoc split: if_splits)
qed (simp split: if_splits)

lemma computed_subtotal_cases:
  assumes "list_all (\<lambda>(q, p). 0 \<le> q \<and> 0 \<le> p) ls"
  shows "if exact_subtotal ls \<le> 2 ^ 53 then computed_subtotal ls = of_int (exact_subtotal ls)
    else 2 ^ 53 \<le> computed_subtotal ls"
  unfolding computed_subtotal_def using computed_subtotal_from [OF assms, of 0 0] by (simp split: if_splits)

lemma exact_subtotal_nonneg: "list_all (\<lambda>(q, p). 0 \<le> q \<and> 0 \<le> p) ls \<Longrightarrow> 0 \<le> exact_subtotal ls"
  by (induction ls) auto

lemma js_add_exact: "\<bar>a + b\<bar> \<le> 2 ^ 53 \<Longrightarrow> js_add (of_int a) (of_int b) = of_int (a + b)"
  using fl_of_int [of "a + b"] by (simp add: js_add_def)

section \<open>Frame, log and books of a sale\<close>

lemma tx_fixes_create_in:
  assumes "\<And>s x. f (s\<lparr>products := x\<rparr>) = f s" "\<And>s x. f (s\<lparr>sales := x\<rparr>) = f s"
    "\<And>s x. f (s\<lparr>sale_items := x\<rparr>) = f s" "\<And>s x. f (s\<lparr>movements := x\<rparr>) = f s"
    "\<And>s x. f (s\<lparr>customers := x\<rparr>) = f s" "\<And>s x. f (s\<lparr>mechanics := x\<rparr>) = f s"
    "\<And>s x. f (s\<lparr>doc_counters := x\<rparr>) = f s" "\<And>s x. f (s\<lparr>audit_log := x\<rparr>) = f s"
    "\<And>s x. f (s\<lparr>review_items := x\<rparr>) = f s" "\<And>s x. f (s\<lparr>minted := x\<rparr>) = f s"
    "\<And>s x. f (s\<lparr>hooks := x\<rparr>) = f s"
  shows "tx_fixes f (create_in e dto a)"
proof -
  have w: "tx_fixes f (write_sale e dto a sid acct ov ds locked)" for sid acct ov ds locked
    unfolding write_sale_def file_sale_def by (intro tx_fix; simp add: assms)
  show ?thesis
    unfolding create_in_def existing_sale_def resolve_payment_account_def
      lock_mechanic_and_check_limit_def lock_products_def assert_stock_def
    by (intro tx_fix w required.gate_fixes; simp add: assms)
qed

lemma create_in_logged:
  assumes "create_in e dto a s = Inr (r, s')"
  shows "moves_logged s s'"
proof (cases "has_key s_id (sp_id dto) (sales s)")
  case True
  with assms show ?thesis by (auto elim: create_in_Inr)
next
  case False
  have w: "sale_written e dto a s r s'" by (rule create_in_written [OF assms False])
  show ?thesis
  proof (rule moves_loggedI)
    show "movements s' = movements s @ cr_movements r" using w by (simp add: sale_written_def)
    fix k
    have keys: "has_key p_id k (products s)" if sold: "- sold_qty (cs_items dto) k \<noteq> 0" for k
    proof -
      have "filter (\<lambda>l. sl_product_id l = k) (cs_items dto) \<noteq> []" using sold by auto
      then obtain l where "l \<in> set (cs_items dto)" "sl_product_id l = k" by (auto simp: filter_empty_conv)
      then show ?thesis using w by (auto simp: sale_written_def)
    qed
    have "on_hand s' k = on_hand s k - sold_qty (cs_items dto) k"
      using on_hand_moved [OF _ keys, of s'] w by (simp add: sale_written_def)
    moreover have "logged_rows (cr_movements r) k = - sold_qty (cs_items dto) k"
    proof -
      have "list_all2 (\<lambda>d v. mv_product_id v = dm_product d \<and> mv_delta v = - dm_qty d)
          (aggregate (cs_items dto)) (cr_movements r)"
        using w by (auto simp: sale_written_def elim!: list.rel_mono_strong)
      from logged_rows_all2 [OF this, of k] show ?thesis
        by (simp add: demanded_aggregate [symmetric] uminus_sum_list_map comp_def)
    qed
    ultimately show "on_hand s' k = on_hand s k + logged_rows (cr_movements r) k" by simp
  qed
qed

interpretation sale_writer: stock_writer "create_in e dto a" for e dto a
  by unfold_locales (rule create_in_logged)

lemma takings_new_sale:
  assumes "sales s' = sales s @ [b]" "s_shift_id b \<noteq> Some i" "returns s' = returns s"
    "credit_payments s' = credit_payments s" "drawer_entries s' = drawer_entries s"
  shows "takings s' i = takings s i"
  using assms
  by (simp add: takings_def cash_sales_def cash_credit_payments_def cash_refunds_def
      drawer_flow_def counted_sale_def)

lemma create_in_frozen:
  assumes "shifts_ok s" "create_in e dto a s = Inr (r, s')"
  shows "books_frozen s s'"
proof (cases "has_key s_id (sp_id dto) (sales s)")
  case True
  with assms(2) show ?thesis by (auto elim: create_in_Inr)
next
  case False
  then obtain b sid q where b: "sales s' = sales s @ [b]" "s_shift_id b = Some sid"
    "q \<in> set (shifts s)" "sh_id q = sid" "is_open (a_device a) q"
    using create_in_written [OF assms(2)] by (auto simp: sale_written_def sale_row_def)
  have fr: "returns s' = returns s" "credit_payments s' = credit_payments s"
    "drawer_entries s' = drawer_entries s" "shifts s' = shifts s"
    by (rule tx_fixesD [OF tx_fixes_create_in assms(2)]; simp)+
  show ?thesis
  proof (rule books_frozenI)
    fix i
    assume "closed_shift s i"
    then have "sid \<noteq> i" using open_not_closed [OF assms(1) b(3,5)] b(4) by auto
    then show "takings s' i = takings s i"
      using takings_new_sale [OF b(1) _ fr(1-3)] b(2) by simp
  qed (auto simp: fr(4))
qed

end
