(* ===== verification/Sales_Facts.thy ===== *)
theory Sales_Facts
  imports Sales
begin

text \<open>
  What ringing a bill up guarantees: the totals check, the stock, the limit, the refusals and
  the replay of \<open>SalesService.create\<close>.
\<close>

section \<open>The ledger\<close>

interpretation mech_upd: keyed_update m_id "mechanic_moved a b c d" for a b c d
  by unfold_locales (simp add: mechanic_moved_def)

lemma move_mechanic_Inr:
  assumes "move_mechanic i f s = Inr (m, s')" "\<And>r. m_id (f r) = m_id r"
  shows "m = map_option f (row_of m_id i (mechanics s)) \<and> row_of m_id i (mechanics s') = m \<and>
    (\<forall>j. j \<noteq> i \<longrightarrow> row_of m_id j (mechanics s') = row_of m_id j (mechanics s)) \<and>
    (\<exists>ms. s' = s\<lparr>mechanics := ms\<rparr>)"
proof -
  show ?thesis
  proof (cases "row_of m_id i (mechanics s)")
    case None
    then show ?thesis using assms(1) by (auto simp: move_mechanic_def intro: exI [of _ "mechanics s"])
  next
    case (Some r)
    have upd: "row_of m_id j (upd_where (\<lambda>m. m_id m = i) f ms) =
        (if j = i then map_option f (row_of m_id j ms) else row_of m_id j ms)" for j ms
      by (induction ms) (auto simp: assms(2))
    show ?thesis
      using assms(1) Some by (auto simp: move_mechanic_def constraint_defs upd)
  qed
qed

definition sale_on_tab :: "'a create_sale_scheme \<Rightarrow> mechanic \<Rightarrow> mechanic" where
  "sale_on_tab dto = (let delta = (case sp_mechanic_delta dto of None \<Rightarrow> 0 | Some d \<Rightarrow> d) in
     mechanic_moved (cs_total dto) (if delta < 0 then - delta else 0) (if 0 < delta then delta else 0)
       (if sp_payment_method dto = Mechanic_Credit then cs_total dto else 0))"

lemma sale_on_tab_id [simp]: "m_id (sale_on_tab dto m) = m_id m"
  by (simp add: sale_on_tab_def Let_def mechanic_moved_def)

lemma apply_mechanic_Inr:
  assumes "apply_mechanic dto s = Inr (mech, s')"
  shows "mech = (case sp_mechanic_id dto of None \<Rightarrow> None | Some i \<Rightarrow> row_of m_id i (mechanics s')) \<and>
    (\<forall>i. sp_mechanic_id dto = Some i \<longrightarrow> mech = map_option (sale_on_tab dto) (row_of m_id i (mechanics s))) \<and>
    (\<exists>ms. s' = s\<lparr>mechanics := ms\<rparr>)"
proof (cases "sp_mechanic_id dto")
  case None
  then show ?thesis using assms by (auto simp: apply_mechanic_def intro: exI [of _ "mechanics s"])
next
  case (Some i)
  then have "move_mechanic i (sale_on_tab dto) s = Inr (mech, s')"
    using assms by (simp add: apply_mechanic_def sale_on_tab_def Let_def)
  from move_mechanic_Inr [OF this] Some show ?thesis by simp
qed

lemma apply_customer_Inr:
  assumes "apply_customer dto pts s = Inr (cust, s')"
  shows "cust = (case sp_customer_id dto of None \<Rightarrow> None
      | Some c \<Rightarrow> map_option customer_out (row_of c_id c (customers s'))) \<and>
    (\<exists>cs. s' = s\<lparr>customers := cs\<rparr>)"
proof (cases "sp_customer_id dto")
  case None
  then show ?thesis using assms by (auto simp: apply_customer_def intro: exI [of _ "customers s"])
next
  case (Some i)
  have upd: "row_of c_id i (upd_where (\<lambda>c. c_id c = i) (\<lambda>c. c\<lparr>c_points := p c, c_total_spend := q c\<rparr>) cs) =
      map_option (\<lambda>c. c\<lparr>c_points := p c, c_total_spend := q c\<rparr>) (row_of c_id i cs)" for p q cs
    by (induction cs) auto
  show ?thesis
  proof (cases "row_of c_id i (customers s)")
    case None
    with Some assms show ?thesis
      by (auto simp: apply_customer_def intro: exI [of _ "customers s"])
  next
    case (Some c)
    with \<open>sp_customer_id dto = Some i\<close> assms show ?thesis
      by (auto simp: apply_customer_def constraint_defs Let_def upd)
  qed
qed

definition override_row :: "'a sale_write_scheme \<Rightarrow> actor \<Rightarrow> int \<times> int \<Rightarrow> mechanic \<Rightarrow> audit_row" where
  "override_row dto a ov m =
     \<lparr>au_user = Some (a_user a), au_device = Some (a_device a),
      au_action = ''sale.credit_limit_override'', au_entity = ''mechanic'', au_entity_id = m_id m,
      au_before = None,
      au_after = Some (JObj [(''saleId'', JStr (sp_id dto)), js_text ''total'' (cs_total dto),
        js_text ''creditLimit'' (fst ov), js_text ''creditBalanceBefore'' (snd ov),
        js_text ''creditBalanceAfter'' (m_credit_balance m)])\<rparr>"

lemma record_override_Inr:
  assumes "record_override e dto a ov m s = Inr (u, s')"
  shows "audit_log s' = audit_log s @ [override_row dto a ov m] \<and> mechanics s' = mechanics s \<and>
    customers s' = customers s"
proof -
  obtain s1 where s1: "s1 = s\<lparr>audit_log := audit_log s @ [override_row dto a ov m]\<rparr>"
    and r: "(if sw_sold_offline dto
     then insert_review_item e ''credit_override'' (sp_id dto)
       (JObj [(''saleId'', JStr (sp_id dto)), (''mechanicId'', JStr (m_id m)),
         js_text ''total'' (cs_total dto), js_text ''creditLimit'' (fst ov),
         js_text ''creditBalanceAfter'' (m_credit_balance m)])
     else tx_ret ()) s1 = Inr (u, s')"
    using assms by (auto simp: record_override_def insert_audit_def override_row_def)
  have "audit_log s' = audit_log s1 \<and> mechanics s' = mechanics s1 \<and> customers s' = customers s1"
    using r by (cases "sw_sold_offline dto") (auto dest!: insert_review_Inr)
  then show ?thesis by (simp add: s1)
qed

lemma settle_sale_Inr:
  assumes "settle_sale e dto a ov pts s = Inr ((cust, mech), s')"
  shows "cust = (case sp_customer_id dto of None \<Rightarrow> None
      | Some c \<Rightarrow> map_option customer_out (row_of c_id c (customers s')))"
    "mech = (case sp_mechanic_id dto of None \<Rightarrow> None | Some i \<Rightarrow> row_of m_id i (mechanics s'))"
    "sp_mechanic_id dto = Some i \<Longrightarrow> mech = map_option (sale_on_tab dto) (row_of m_id i (mechanics s))"
    "audit_log s' = audit_log s @ (case ov of None \<Rightarrow> [] | Some v \<Rightarrow>
       (case mech of None \<Rightarrow> [] | Some m \<Rightarrow> [override_row dto a v m]))"
proof -
  obtain s1 s2 s3 where c: "apply_customer dto pts s = Inr (cust, s1)"
    and m: "apply_mechanic dto s1 = Inr (mech, s2)"
    and o3: "(case ov of None \<Rightarrow> tx_ret () | Some v \<Rightarrow>
        (case mech of None \<Rightarrow> tx_ret () | Some m \<Rightarrow> record_override e dto a v m)) s2 = Inr ((), s3)"
    and h: "\<exists>hs. s' = s3\<lparr>hooks := hs\<rparr>"
    using assms by (auto simp: settle_sale_def add_hook_def split: if_splits)
  note cc = apply_customer_Inr [OF c] and mm = apply_mechanic_Inr [OF m]
  have o: "audit_log s3 = audit_log s2 @ (case ov of None \<Rightarrow> [] | Some v \<Rightarrow>
       (case mech of None \<Rightarrow> [] | Some m \<Rightarrow> [override_row dto a v m])) \<and>
       mechanics s3 = mechanics s2 \<and> customers s3 = customers s2"
    using o3 by (auto split: option.splits dest: record_override_Inr)
  have eqs: "customers s' = customers s1" "mechanics s' = mechanics s2" "audit_log s' = audit_log s3"
    "mechanics s1 = mechanics s" "audit_log s2 = audit_log s"
    using cc mm o h by auto
  show "cust = (case sp_customer_id dto of None \<Rightarrow> None
      | Some c \<Rightarrow> map_option customer_out (row_of c_id c (customers s')))"
    unfolding eqs using cc by blast
  show "mech = (case sp_mechanic_id dto of None \<Rightarrow> None | Some i \<Rightarrow> row_of m_id i (mechanics s'))"
    unfolding eqs using mm by blast
  show "sp_mechanic_id dto = Some i \<Longrightarrow> mech = map_option (sale_on_tab dto) (row_of m_id i (mechanics s))"
    using mm unfolding eqs by blast
  show "audit_log s' = audit_log s @ (case ov of None \<Rightarrow> [] | Some v \<Rightarrow>
       (case mech of None \<Rightarrow> [] | Some m \<Rightarrow> [override_row dto a v m]))"
    unfolding eqs using o eqs(5) by simp
qed

section \<open>The replay gives the same answer\<close>

definition lines_have_bill :: "db \<Rightarrow> bool" where
  "lines_have_bill s \<longleftrightarrow> (\<forall>i \<in> set (sale_items s). has_key s_id (si_sale_id i) (sales s))"

lemma insort_key_map: "insort_key f (g x) (map g xs) = map g (insort_key (\<lambda>y. f (g y)) x xs)"
  by (induction xs) auto

lemma sort_key_map: "sort_key f (map g xs) = map g (sort_key (\<lambda>y. f (g y)) xs)"
  by (induction xs) (auto simp: insort_key_map)

lemma concat_single: "(\<And>x. x \<in> set xs \<Longrightarrow> f x = [g x]) \<Longrightarrow> concat (map f xs) = map g xs"
  by (induction xs) auto

lemma row_of_filter_skip:
  "(\<And>v. v \<in> set old \<Longrightarrow> mv_product_id v \<noteq> k) \<Longrightarrow> row_of mv_product_id k (old @ vs) = row_of mv_product_id k vs"
  by (induction old) auto

lemma row_of_logged:
  assumes "list_all2 (\<lambda>d v. mv_product_id v = dm_product d) ds vs" "distinct (map dm_product ds)"
  shows "concat (map (\<lambda>d. case row_of mv_product_id (dm_product d) vs of None \<Rightarrow> [] | Some v \<Rightarrow> [v]) ds) = vs"
proof -
  have "map (\<lambda>d. case row_of mv_product_id (dm_product d) vs of None \<Rightarrow> [] | Some v \<Rightarrow> [v]) ds = map (\<lambda>v. [v]) vs"
  proof (rule nth_equalityI)
    have len: "length vs = length ds" using assms(1) by (auto dest: list_all2_lengthD)
    then show "length (map (\<lambda>d. case row_of mv_product_id (dm_product d) vs of None \<Rightarrow> [] | Some v \<Rightarrow> [v]) ds) =
        length (map (\<lambda>v. [v]) vs)" by simp
    fix n
    assume "n < length (map (\<lambda>d. case row_of mv_product_id (dm_product d) vs of None \<Rightarrow> [] | Some v \<Rightarrow> [v]) ds)"
    then have n: "n < length ds" by simp
    have keys: "map mv_product_id vs = map dm_product ds"
      using assms(1) len by (auto simp: list_all2_conv_all_nth intro!: nth_equalityI)
    have "row_of mv_product_id (mv_product_id (vs ! n)) vs = Some (vs ! n)"
      using row_of_unique [of mv_product_id vs "vs ! n"] keys assms(2) n len by simp
    moreover have "mv_product_id (vs ! n) = dm_product (ds ! n)"
      using assms(1) n by (auto simp: list_all2_conv_all_nth)
    ultimately show "map (\<lambda>d. case row_of mv_product_id (dm_product d) vs of None \<Rightarrow> [] | Some v \<Rightarrow> [v]) ds ! n =
        map (\<lambda>v. [v]) vs ! n" using n len by simp
  qed
  then show ?thesis by (simp add: concat_map_singleton)
qed

lemma line_out_of_stored: "map line_out xs = map (\<lambda>l. \<lparr>lo_line_no = si_line_no l, lo_product_id = si_product_id l,
    lo_cost_at_sale = from_satang (case si_cost_at_sale l of None \<Rightarrow> 0 | Some c \<Rightarrow> c)\<rparr>) xs"
  by (simp add: line_out_def)

lemma existing_after_create:
  assumes "create_in e dto a s = Inr (r, s')" "\<not> has_key s_id (sp_id dto) (sales s)" "lines_have_bill s"
  shows "existing_sale (sp_id dto) (cs_total dto) off (Some (cs_items dto)) s' = Inr (Some r, s')"
  using assms(1)
proof (cases rule: create_in_Inr)
  case (new sid acct ov)
  let ?ds = "aggregate (cs_items dto)"
  let ?b = "\<lambda>n. sale_row e dto a n (points_for (cs_total dto)) sid acct"
  have w0: "sale_written e dto a s r s'" by (rule create_in_written [OF assms(1,2)])
  from new(4) obtain sa n s1 items vs s5 cust mech where w: "deduct ?ds s = Inr (sa, s1)"
    "products s' = products s1" "sales s' = sales s @ [?b n]"
    "sale_items s' = sale_items s @ items"
    "list_all2 (stored_line (sp_id dto) (filter (\<lambda>p. p_id p \<in> set (map dm_product ?ds) \<and> \<not> p_deleted p) (products s)))
       (cs_items dto) items"
    "movements s' = movements s @ vs" "list_all2 (demand_logged e (sp_id dto) sa) ?ds vs"
    "settle_sale e dto a ov (points_for (cs_total dto)) s5 = Inr ((cust, mech), s')"
    "r = \<lparr>cr_id = sp_id dto, cr_receipt_no = n, cr_total = from_satang (cs_total dto),
        cr_points_granted = points_for (cs_total dto), cr_date = s_date (?b n), cr_shift_id = Some sid,
        cr_payment_account_id = acct,
        cr_products = map (\<lambda>d. (dm_product d, the (map_of sa (dm_product d)))) ?ds,
        cr_items = sort_key lo_line_no (map line_out items), cr_movements = vs,
        cr_balance_after = map_option (\<lambda>m. from_satang (m_credit_balance m)) mech,
        cr_mechanic_after = map_option mechanic_out mech, cr_customer_after = cust\<rparr>"
    "\<forall>v \<in> set vs. \<not> has_key mv_ref_key (mv_ref_key v) (movements s)"
    by (rule write_sale_Inr) blast
  have row: "row_of s_id (sp_id dto) (sales s') = Some (?b n)"
    using assms(2) row_of_None [of s_id "sp_id dto" "sales s"] by (simp add: w(3) row_of_append sale_row_def)
  have ids: "filter (\<lambda>i. si_sale_id i = sp_id dto) (sale_items s') = items"
  proof -
    have "filter (\<lambda>i. si_sale_id i = sp_id dto) (sale_items s) = []"
      using assms(2,3) by (auto simp: lines_have_bill_def filter_empty_conv)
    moreover have "filter (\<lambda>i. si_sale_id i = sp_id dto) items = items"
      using w(5) by (auto simp: list_all2_conv_all_nth stored_line_def filter_id_conv in_set_conv_nth)
    ultimately show ?thesis by (simp add: w(4))
  qed
  have prods: "stock_of s' (map dm_product ?ds) = map (\<lambda>d. (dm_product d, the (map_of sa (dm_product d)))) ?ds"
  proof -
    have each: "row_of p_id (dm_product d) (products s') \<noteq> None \<and> the (map_of sa (dm_product d)) = on_hand s' (dm_product d)"
      if "d \<in> set ?ds" for d
    proof -
      have "list_all2 (\<lambda>d v. the (map_of sa (dm_product d)) = on_hand s' (dm_product d)) ?ds vs"
      proof -
        have "list_all2 (\<lambda>d v. mv_stock_after v = on_hand s' (dm_product d)) ?ds vs"
          using w0 w(9) by (auto simp: sale_written_def elim!: list.rel_mono_strong)
        then show ?thesis using w(7)
          by (auto simp: list_all2_conv_all_nth demand_logged_def)
      qed
      then have "the (map_of sa (dm_product d)) = on_hand s' (dm_product d)"
        using that by (auto simp: list_all2_conv_all_nth in_set_conv_nth)
      moreover have "has_key p_id (dm_product d) (products s)"
        using deduct_Inr [OF w(1)] that by blast
      then have "row_of p_id (dm_product d) (products s') \<noteq> None"
        using deduct_Inr [OF w(1)] by (simp add: w(2) row_of_None)
      ultimately show ?thesis by blast
    qed
    have "stock_of s' (map dm_product ?ds) = concat (map (\<lambda>d. case row_of p_id (dm_product d) (products s') of
        None \<Rightarrow> [] | Some p \<Rightarrow> [(dm_product d, p_stock p)]) ?ds)"
      by (simp add: stock_of_def comp_def)
    also have "\<dots> = map (\<lambda>d. (dm_product d, the (map_of sa (dm_product d)))) ?ds"
      by (rule concat_single) (use each in \<open>fastforce simp: on_hand_def split: option.splits\<close>)
    finally show ?thesis .
  qed
  have movs: "sale_movements_of s' (sp_id dto) (map dm_product ?ds) = vs"
  proof -
    let ?old = "filter (\<lambda>v. mv_type v = Mv_Sale \<and> mv_ref_id v = Some (sp_id dto)) (movements s)"
    have vs: "list_all2 (\<lambda>d v. mv_product_id v = dm_product d) ?ds vs"
      using w(7) by (auto simp: demand_logged_def elim!: list.rel_mono_strong)
    have all: "filter (\<lambda>v. mv_type v = Mv_Sale \<and> mv_ref_id v = Some (sp_id dto)) vs = vs"
      using w(7) by (auto simp: list_all2_conv_all_nth demand_logged_def filter_id_conv in_set_conv_nth)
    have skip: "row_of mv_product_id (dm_product d) (?old @ vs) = row_of mv_product_id (dm_product d) vs"
      if d: "d \<in> set ?ds" for d
    proof (rule row_of_filter_skip)
      fix v
      assume v: "v \<in> set ?old"
      obtain m where m: "m < length ?ds" "d = ?ds ! m" using d by (auto simp: in_set_conv_nth)
      have "vs ! m \<in> set vs" "mv_ref_key (vs ! m) = (Mv_Sale, Some (sp_id dto), dm_product d)"
        using w(7) m by (auto simp: list_all2_conv_all_nth demand_logged_def mv_ref_key_def)
      then have "\<not> has_key mv_ref_key (Mv_Sale, Some (sp_id dto), dm_product d) (movements s)"
        using w(10) by metis
      then show "mv_product_id v \<noteq> dm_product d"
        using v by (auto simp: has_key_def mv_ref_key_def image_iff)
    qed
    have "sale_movements_of s' (sp_id dto) (map dm_product ?ds) =
        concat (map (\<lambda>d. case row_of mv_product_id (dm_product d) (?old @ vs) of None \<Rightarrow> [] | Some v \<Rightarrow> [v]) ?ds)"
      by (simp add: sale_movements_of_def w(6) all comp_def)
    also have "\<dots> = concat (map (\<lambda>d. case row_of mv_product_id (dm_product d) vs of None \<Rightarrow> [] | Some v \<Rightarrow> [v]) ?ds)"
      by (intro arg_cong [of _ _ concat] map_cong refl) (simp add: skip)
    also have "\<dots> = vs" by (rule row_of_logged [OF vs distinct_aggregate])
    finally show ?thesis .
  qed
  have items: "map (\<lambda>l. \<lparr>lo_line_no = si_line_no l, lo_product_id = si_product_id l,
      lo_cost_at_sale = from_satang (case si_cost_at_sale l of None \<Rightarrow> 0 | Some c \<Rightarrow> c)\<rparr>) (sort_key si_line_no items) =
      sort_key lo_line_no (map line_out items)"
    unfolding sort_key_map line_out_of_stored by (simp add: line_out_def)
  note st = settle_sale_Inr [OF w(8)]
  show ?thesis
    unfolding existing_sale_def Let_def
    using row ids prods movs items st(1,2)
    by (simp add: w(9) sale_row_def cong: option.case_cong) (auto split: option.splits)
qed (use assms(2) in simp)

section \<open>The totals check\<close>

lemma totals_check_iff:
  assumes "list_all (\<lambda>(q, p). 0 \<le> q \<and> 0 \<le> p) ls" "0 \<le> sub" "sub \<le> MAX_SATANG"
    "0 \<le> disc" "disc \<le> MAX_SATANG" "0 \<le> tot" "tot \<le> MAX_SATANG"
  shows "assert_sale_totals ls sub disc tot =
    (if \<bar>exact_subtotal ls - sub\<bar> \<le> 1 \<and> \<bar>exact_subtotal ls - disc - tot\<bar> \<le> 1 then Inr ()
     else assert_sale_totals ls sub disc tot) \<and>
    (assert_sale_totals ls sub disc tot = Inr () \<longrightarrow>
       \<bar>exact_subtotal ls - sub\<bar> \<le> 1 \<and> \<bar>exact_subtotal ls - disc - tot\<bar> \<le> 1)"
proof (cases "exact_subtotal ls \<le> 2 ^ 53")
  case True
  let ?S = "exact_subtotal ls"
  have S: "0 \<le> ?S" by (rule exact_subtotal_nonneg [OF assms(1)])
  have c: "computed_subtotal ls = of_int ?S" using computed_subtotal_cases [OF assms(1)] True by simp
  have a: "js_add (of_int ?S) (- of_int sub) = of_int (?S - sub)"
    "js_add (of_int ?S) (- of_int disc) = of_int (?S - disc)"
    "js_add (of_int (?S - disc)) (- of_int tot) = of_int (?S - disc - tot)"
    using js_add_exact [of ?S "- sub"] js_add_exact [of ?S "- disc"] js_add_exact [of "?S - disc" "- tot"]
      True S assms by (simp_all add: MAX_SATANG_def)
  have "\<bar>real_of_int n\<bar> \<le> 1 \<longleftrightarrow> \<bar>n\<bar> \<le> 1" for n :: int by linarith
  then have r: "1 < \<bar>real_of_int n\<bar> \<longleftrightarrow> \<not> \<bar>n\<bar> \<le> 1" for n :: int by (meson not_less)
  show ?thesis
    unfolding assert_sale_totals_def Let_def c a TOTAL_TOLERANCE_SATANG_def of_int_1 r by auto
next
  case False
  have "2 ^ 53 \<le> computed_subtotal ls" using computed_subtotal_cases [OF assms(1)] False by simp
  then have "2 ^ 53 - of_int sub \<le> computed_subtotal ls + - of_int sub" by simp
  then have "fl (2 ^ 53 - of_int sub) \<le> js_add (computed_subtotal ls) (- of_int sub)"
    unfolding js_add_def by (rule fl_mono)
  moreover have "fl (2 ^ 53 - of_int sub) = 2 ^ 53 - of_int sub"
    using fl_of_int [of "2 ^ 53 - sub"] assms(2,3) by (simp add: MAX_SATANG_def)
  moreover have "2 < 2 ^ 53 - real_of_int sub"
  proof -
    have "real_of_int sub \<le> real_of_int MAX_SATANG" using assms(3) by simp
    then show ?thesis by (simp add: MAX_SATANG_def)
  qed
  ultimately have "1 < \<bar>js_add (computed_subtotal ls) (- of_int sub)\<bar>" by linarith
  then show ?thesis
    using False assms(3) by (simp add: assert_sale_totals_def Let_def TOTAL_TOLERANCE_SATANG_def MAX_SATANG_def)
qed

section \<open>A concrete shop\<close>

definition sample_shop :: db where
  "sample_shop = blank_db\<lparr>
     products := [\<lparr>p_id = ''p'', p_part_no = ''A-1'', p_name = ''pad'', p_cost = 4000, p_stock = 10, p_deleted = False,
       p_name_th = [], p_category = ''brakes'', p_brand = [], p_price = 10000, p_min_stock = 0, p_compat = None, p_image_key = None\<rparr>],
     mechanics := [\<lparr>m_id = ''m'', m_credit_limit = 100000, m_credit_balance = 20000, m_total_sales = 0,
       m_total_credit = 0, m_total_discount = 0, m_total_markup = 0,
       m_code = ''M001'', m_name = ''Chai'', m_name_th = None, m_nickname = None, m_shop_name = None, m_phone = None,
       m_note = None, m_deleted = False\<rparr>],
     devices := [plain_device ''d'' 1],
     shifts := [\<lparr>sh_id = ''s'', sh_date_str = ''2026-10-03'', sh_starting_cash = 50000, sh_opened_at = 1,
       sh_closed_at = None, sh_physical_cash = None, sh_is_active = True, sh_auto_archived = False,
       sh_archived_at = None, sh_opened_by = None, sh_device_id = Some ''d''\<rparr>]\<rparr>"

definition sample_actor :: actor where
  "sample_actor = \<lparr>a_user = ''u'', a_device = ''d''\<rparr>"

definition sample_bill :: sale_write where
  "sample_bill = \<lparr>sp_id = ''b'', sp_receipt_no = None, sp_payment_method = Mechanic_Credit,
     sp_customer_id = None, sp_customer_name = None, sp_mechanic_id = Some ''m'', sp_mechanic_name = None,
     sp_mechanic_delta = None, sp_override = False, sp_payment_account_id = None,
     cs_subtotal = 15000, cs_discount = 1000, cs_total = 14000,
     cs_items = [\<lparr>sl_line_no = 1, sl_product_id = ''p'', sl_part_no = None, sl_name = ''pad'', sl_name_th = None,
       sl_qty = 3, sl_price = 5000\<rparr>], sw_sold_offline = False, sw_date = None\<rparr>"

lemma sample_totals: "assert_sale_totals [(3, 5000)] 15000 1000 14000 = Inr ()"
  using totals_check_iff [of "[(3, 5000)]" 15000 1000 14000] by (simp add: MAX_SATANG_def)

lemmas sale_defs = create_in_def existing_sale_def require_open_shift_id_for_def resolve_payment_account_def
  lock_mechanic_and_check_limit_def lock_products_def assert_stock_def short_lines_def write_sale_def file_sale_def
  deduct_def take_stock_def resolve_doc_number_def issue_def device_no_def upsert_counter_def
  insert_sale_def sale_row_def insert_sale_row_def insert_lines_def insert_sale_item_def
  insert_movements_def insert_sale_movement_def insert_movement_def settle_sale_def apply_customer_def
  apply_mechanic_def move_mechanic_def mechanic_moved_def add_hook_def fresh_id_def constraint_defs
  aggregate_def map_db_err_def

lemma sample_runs: "\<exists>r s'. create_in sample_env sample_bill sample_actor sample_shop = Inr (r, s')"
  by (simp add: sale_defs sample_bill_def sample_actor_def sample_shop_def sample_totals Let_def
      is_open_def is_current_def MAX_DOC_NO_def points_for_exact INT4_MAX_def)

lemma sample_shop_fresh: "\<not> has_key s_id (sp_id sample_bill) (sales sample_shop)" "lines_have_bill sample_shop"
  "distinct (map p_id (products sample_shop))"
  by (simp_all add: sample_shop_def lines_have_bill_def)

section \<open>No bill crashes the sale\<close>

definition not_a_crash :: "err \<Rightarrow> bool" where
  "not_a_crash x \<longleftrightarrow> x \<noteq> Fault ''Stock underflow'' \<and> x \<noteq> Fault ''TypeError''"

definition tx_errs :: "(err \<Rightarrow> bool) \<Rightarrow> 'a op \<Rightarrow> bool" where
  "tx_errs P m \<longleftrightarrow> (\<forall>s x. m s = Inl x \<longrightarrow> P x)"

named_theorems tx_err \<open>introduction rules for tx_errs\<close>

lemma tx_errsD: "tx_errs P m \<Longrightarrow> m s = Inl x \<Longrightarrow> P x"
  by (auto simp: tx_errs_def)

lemma tx_bind_Inl: "tx_bind m f s = Inl x \<longleftrightarrow> m s = Inl x \<or> (\<exists>a s'. m s = Inr (a, s') \<and> f a s' = Inl x)"
  by (auto simp: tx_bind_def split: sum.splits)

lemma tx_errs_basic [tx_err]:
  "tx_errs P (tx_ret a)" "tx_errs P (tx_get g)" "tx_errs P (tx_modify h)" "P e \<Longrightarrow> tx_errs P (tx_throw e)"
  "P e \<Longrightarrow> tx_errs P (tx_guard b e)" "tx_errs P (fresh_id en)" "tx_errs P (add_hook hk)"
  by (auto simp: tx_errs_def tx_guard_def fresh_id_def add_hook_def)

lemma tx_errs_bind [tx_err]: "tx_errs P m \<Longrightarrow> (\<And>a. tx_errs P (f a)) \<Longrightarrow> tx_errs P (tx_bind m f)"
  unfolding tx_errs_def by (metis tx_bind_Inl)

lemma tx_errs_split [tx_err]:
  "(b \<Longrightarrow> tx_errs P m) \<Longrightarrow> (\<not> b \<Longrightarrow> tx_errs P m') \<Longrightarrow> tx_errs P (if b then m else m')"
  "(x = None \<Longrightarrow> tx_errs P m) \<Longrightarrow> (\<And>a. x = Some a \<Longrightarrow> tx_errs P (f a)) \<Longrightarrow>
   tx_errs P (case x of None \<Rightarrow> m | Some a \<Rightarrow> f a)"
  "tx_errs P (k y) \<Longrightarrow> tx_errs P (let z = y in k z)"
  by (cases x; simp)+

lemma tx_errs_pair [tx_err]: "(\<And>a b. p = (a, b) \<Longrightarrow> tx_errs P (f a b)) \<Longrightarrow> tx_errs P (case p of (a, b) \<Rightarrow> f a b)"
  by (cases p) auto

lemma tx_errs_mapM [tx_err]: "(\<And>x. x \<in> set xs \<Longrightarrow> tx_errs P (f x)) \<Longrightarrow> tx_errs P (tx_mapM f xs)"
  by (induction xs) (auto intro!: tx_err)

lemma tx_errs_lift [tx_err]: "(\<And>x. r = Inl x \<Longrightarrow> P x) \<Longrightarrow> tx_errs P (tx_lift r)"
  by (cases r) (simp_all add: tx_errs_def)

lemma tx_errs_constraints [tx_err]:
  "(\<And>c n. P (DbErr c n)) \<Longrightarrow> tx_errs P (int4 i)" "(\<And>c n. P (DbErr c n)) \<Longrightarrow> tx_errs P (numeric_12_2 i)"
  "(\<And>c n. P (DbErr c n)) \<Longrightarrow> tx_errs P (numeric_14_2 i)" "(\<And>c n. P (DbErr c n)) \<Longrightarrow> tx_errs P (check b m)"
  "(\<And>c n. P (DbErr c n)) \<Longrightarrow> tx_errs P (unique b m)" "(\<And>c n. P (DbErr c n)) \<Longrightarrow> tx_errs P (foreign_key b m)"
  by (auto simp: constraint_defs intro: tx_err)

lemma tx_errs_map_db_err [tx_err]:
  "tx_errs (\<lambda>x. P (f x)) m \<Longrightarrow> tx_errs P (map_db_err f m)"
  by (auto simp: tx_errs_def map_db_err_def split: sum.splits)

lemma crash_free [simp]:
  "not_a_crash (HttpErr n c d)" "not_a_crash (DbErr c m)"
  "not_a_crash (Fault ''No document number allocated'')"
  by (simp_all add: not_a_crash_def)

lemma crash_free_maps [simp]:
  "not_a_crash x \<Longrightarrow> not_a_crash (map_constraint_errors x)" "not_a_crash x \<Longrightarrow> not_a_crash (map_check_violation x)"
  by (auto simp: map_constraint_errors_def map_check_violation_def sale_id_reused_def
      doc_number_exhausted_def not_a_crash_def split: err.splits)

lemma crash_free_named [simp]:
  "not_a_crash sale_id_reused" "not_a_crash sale_voided" "not_a_crash no_open_shift"
  "not_a_crash device_role_forbidden" "not_a_crash doc_number_invalid" "not_a_crash (insufficient_stock ls)"
  "not_a_crash (credit_limit_exceeded a b c)"
  by (simp_all add: sale_id_reused_def sale_voided_def no_open_shift_def device_role_forbidden_def
      doc_number_invalid_def insufficient_stock_def credit_limit_exceeded_def)

lemma validate_errs: "validate_doc_number dt no n = Inl x \<Longrightarrow> not_a_crash x"
  by (auto simp: validate_doc_number_def Let_def split: if_splits)

lemma resolve_no_crash: "tx_errs not_a_crash (resolve_doc_number e dev dt c)"
  unfolding resolve_doc_number_def issue_def record_client_doc_number_def device_no_def upsert_counter_def
  by (intro tx_err; simp add: validate_errs)

lemma settle_no_crash: "tx_errs not_a_crash (settle_sale e dto a ov pts)"
  unfolding settle_sale_def apply_customer_def apply_mechanic_def move_mechanic_def record_override_def
    insert_audit_def insert_review_item_def
  by (intro tx_err; simp)

lemma insert_sale_no_crash: "tx_errs not_a_crash (insert_sale e dto a n pts sid acct)"
  unfolding insert_sale_def insert_sale_row_def by (intro tx_err; simp)

lemma deduct_no_crash:
  assumes "distinct (map dm_product ds)"
    and "\<forall>d \<in> set ds. has_key p_id (dm_product d) (products s) \<and> dm_qty d \<le> on_hand s (dm_product d)"
    and "deduct ds s = Inl x"
  shows "not_a_crash x"
  using assms
proof (induction ds arbitrary: s)
  case Nil
  then show ?case by (simp add: deduct_def)
next
  case (Cons d ds)
  from Cons.prems(3) consider "take_stock (dm_product d) (dm_qty d) s = Inl x" |
    n s1 where "take_stock (dm_product d) (dm_qty d) s = Inr (n, s1)" "deduct ds s1 = Inl x"
    by (auto simp: deduct_def tx_bind_Inl)
  then show ?case
  proof cases
    case 1
    obtain p where "row_of p_id (dm_product d) (products s) = Some p"
      using Cons.prems(2) row_of_None [of p_id "dm_product d" "products s"] by fastforce
    with 1 Cons.prems(2) show ?thesis
      by (auto simp: take_stock_def on_hand_def constraint_defs tx_guard_def split: if_splits)
  next
    case 2
    note t = take_stock_Inr [OF 2(1)]
    have "on_hand s1 (dm_product c) = on_hand s (dm_product c)" if c: "c \<in> set ds" for c
    proof -
      have "dm_product c \<noteq> dm_product d" using c Cons.prems(1) by (auto simp: image_iff)
      then show ?thesis using t by (auto simp: on_hand_def row_of_stock_moved split: option.split)
    qed
    then show ?thesis
      using Cons.IH [OF _ _ 2(2)] Cons.prems(1,2) t by simp
  qed
qed

lemma insert_lines_no_crash:
  assumes "\<forall>l \<in> set (cs_items dto). row_of p_id (sl_product_id l) locked \<noteq> None"
  shows "tx_errs not_a_crash (insert_lines dto locked)"
  unfolding insert_lines_def insert_sale_item_def
  by (intro tx_err; use assms in simp)

lemma insert_movements_no_crash:
  assumes "\<forall>d \<in> set ds. row_of p_id (dm_product d) locked \<noteq> None"
  shows "tx_errs not_a_crash (insert_movements e i ds locked sa)"
  unfolding insert_movements_def insert_sale_movement_def insert_movement_def
  by (intro tx_err; use assms in simp)

lemma short_lines_none:
  assumes "short_lines ds locked = []" "d \<in> set ds"
  obtains p where "row_of p_id (dm_product d) locked = Some p" "dm_qty d \<le> p_stock p"
proof -
  have "(case row_of p_id (dm_product d) locked of None \<Rightarrow> [(dm_product d, None, dm_qty d)]
     | Some p \<Rightarrow> if p_stock p < dm_qty d then [(dm_product d, Some (p_stock p), dm_qty d)] else []) = []"
    using assms by (auto simp: short_lines_def)
  then show thesis using that by (auto split: option.splits if_splits)
qed

lemma row_of_filtered: "distinct (map p_id ps) \<Longrightarrow> row_of p_id k (filter q ps) = Some p \<Longrightarrow> row_of p_id k ps = Some p"
  using row_of_unique [of p_id ps p] by (auto dest!: row_of_SomeD)

abbreviation locked_for :: "db \<Rightarrow> sale_line list \<Rightarrow> product list" where
  "locked_for s ls \<equiv> filter (\<lambda>p. p_id p \<in> set (map dm_product (aggregate ls)) \<and> \<not> p_deleted p) (products s)"

lemma checks_pure:
  "tx_fixes id (existing_sale i n off is)" "tx_fixes id (resolve_payment_account dto)"
  "tx_fixes id (lock_mechanic_and_check_limit dto)"
  unfolding existing_sale_def resolve_payment_account_def lock_mechanic_and_check_limit_def
  by (intro tx_fix)+

lemma create_in_stages:
  obtains x where "create_in e dto a s = Inl x"
      "assert_sale_totals (line_amounts (cs_items dto)) (cs_subtotal dto) (cs_discount dto) (cs_total dto) = Inl x \<or>
       existing_sale (sp_id dto) (cs_total dto) (sw_sold_offline dto) (Some (cs_items dto)) s = Inl x \<or>
       require_open_shift_id_for (a_device a) s = Inl x \<or> resolve_payment_account dto s = Inl x \<or>
       lock_mechanic_and_check_limit dto s = Inl x"
  | r where "create_in e dto a s = Inr (r, s)" "has_key s_id (sp_id dto) (sales s)"
  | sid acct ov where "\<not> has_key s_id (sp_id dto) (sales s)"
      "assert_sale_totals (line_amounts (cs_items dto)) (cs_subtotal dto) (cs_discount dto) (cs_total dto) = Inr ()"
      "require_open_shift_id_for (a_device a) s = Inr (sid, s)" "resolve_payment_account dto s = Inr (acct, s)"
      "lock_mechanic_and_check_limit dto s = Inr (ov, s)"
      "create_in e dto a s = (let ds = aggregate (cs_items dto); locked = locked_for s (cs_items dto) in
         if short_lines ds locked = [] then write_sale e dto a sid acct ov ds locked s
         else Inl (insufficient_stock (short_lines ds locked)))"
proof -
  let ?tot = "assert_sale_totals (line_amounts (cs_items dto)) (cs_subtotal dto) (cs_discount dto) (cs_total dto)"
  let ?ex = "existing_sale (sp_id dto) (cs_total dto) (sw_sold_offline dto) (Some (cs_items dto))"
  have pure: "\<And>r s'. ?ex s = Inr (r, s') \<Longrightarrow> s' = s" "\<And>r s'. resolve_payment_account dto s = Inr (r, s') \<Longrightarrow> s' = s"
    "\<And>r s'. lock_mechanic_and_check_limit dto s = Inr (r, s') \<Longrightarrow> s' = s"
    using checks_pure [THEN tx_fixesD] by (metis id_apply)+
  show thesis
  proof (cases ?tot)
    case (Inl x)
    then show thesis using that(1) [of x] by (simp add: create_in_def)
  next
    case (Inr u)
    then have tot: "?tot = Inr ()" by simp
    show thesis
    proof (cases "?ex s")
      case (Inl x)
      then show thesis using that(1) [of x] tot by (simp add: create_in_def tx_bind_Inl_run)
    next
      case (Inr q)
      then obtain ex where ex: "?ex s = Inr (ex, s)" using pure(1) by (cases q) auto
      show thesis
      proof (cases ex)
        case (Some r)
        have "has_key s_id (sp_id dto) (sales s)"
          using ex existing_sale_None Some by (auto simp: existing_sale_def Let_def row_of_Some_has_key split: option.splits)
        then show thesis using that(2) [of r] tot ex Some by (simp add: create_in_def tx_bind_Inr_run [of ?ex])
      next
        case None
        then have new: "\<not> has_key s_id (sp_id dto) (sales s)" using ex existing_sale_None by auto
        note go = tx_bind_Inr_run [of ?ex, OF ex [unfolded None]]
        show thesis
        proof (cases "require_open_shift_id_for (a_device a) s")
          case (Inl x)
          then show thesis using that(1) [of x] tot by (simp add: create_in_def go tx_bind_Inl_run)
        next
          case (Inr q)
          then obtain sid where sid: "require_open_shift_id_for (a_device a) s = Inr (sid, s)"
            using required.gate_reads by (cases q) auto
          note go2 = tx_bind_Inr_run [of "require_open_shift_id_for (a_device a)", OF sid]
          show thesis
          proof (cases "resolve_payment_account dto s")
            case (Inl x)
            then show thesis using that(1) [of x] tot by (simp add: create_in_def go go2 tx_bind_Inl_run)
          next
            case (Inr q)
            then obtain acct where acct: "resolve_payment_account dto s = Inr (acct, s)"
              using pure(2) by (cases q) auto
            note go3 = tx_bind_Inr_run [of "resolve_payment_account dto", OF acct]
            show thesis
            proof (cases "lock_mechanic_and_check_limit dto s")
              case (Inl x)
              then show thesis using that(1) [of x] tot by (simp add: create_in_def go go2 go3 tx_bind_Inl_run)
            next
              case (Inr q)
              then obtain ov where ov: "lock_mechanic_and_check_limit dto s = Inr (ov, s)"
                using pure(3) by (cases q) auto
              note go4 = tx_bind_Inr_run [of "lock_mechanic_and_check_limit dto", OF ov]
              show thesis
                by (rule that(3) [OF new tot sid acct ov])
                  (simp add: create_in_def tot go go2 go3 go4 lock_products_def assert_stock_def Let_def)
            qed
          qed
        qed
      qed
    qed
  qed
qed

lemma write_sale_no_crash:
  assumes "distinct (map p_id (products s))" "short_lines (aggregate (cs_items dto)) (locked_for s (cs_items dto)) = []"
    and "write_sale e dto a sid acct ov (aggregate (cs_items dto)) (locked_for s (cs_items dto)) s = Inl x"
  shows "not_a_crash x"
proof -
  let ?ds = "aggregate (cs_items dto)" and ?locked = "locked_for s (cs_items dto)"
  have both: "row_of p_id (dm_product d) ?locked \<noteq> None \<and>
      has_key p_id (dm_product d) (products s) \<and> dm_qty d \<le> on_hand s (dm_product d)"
    if d: "d \<in> set ?ds" for d
  proof -
    from short_lines_none [OF assms(2) d] obtain q where
      q: "row_of p_id (dm_product d) ?locked = Some q" "dm_qty d \<le> p_stock q" .
    have "row_of p_id (dm_product d) (products s) = Some q" by (rule row_of_filtered [OF assms(1) q(1)])
    then show ?thesis using q by (simp add: on_hand_def row_of_Some_has_key)
  qed
  then have locked: "\<forall>d \<in> set ?ds. row_of p_id (dm_product d) ?locked \<noteq> None" by blast
  have mem: "sl_product_id l \<in> dm_product ` set ?ds" if "l \<in> set (cs_items dto)" for l
    using that arg_cong [OF products_aggregate [of "cs_items dto"], of set] by simp
  have "\<forall>k \<in> dm_product ` set ?ds. row_of p_id k ?locked \<noteq> None" using locked by blast
  then have lines: "\<forall>l \<in> set (cs_items dto). row_of p_id (sl_product_id l) ?locked \<noteq> None"
    using mem by blast
  have filed: "tx_errs not_a_crash (file_sale e dto a sid acct ov ?ds ?locked sa)" for sa
    unfolding file_sale_def
    by (intro tx_err resolve_no_crash insert_sale_no_crash insert_lines_no_crash [OF lines]
        insert_movements_no_crash [OF locked] settle_no_crash)
  from assms(3) show ?thesis
    using deduct_no_crash [OF distinct_aggregate] both tx_errsD [OF filed]
    by (auto simp: write_sale_def tx_bind_Inl)
qed

lemma create_in_no_crash:
  assumes "distinct (map p_id (products s))" "create_in e dto a s = Inl x"
  shows "not_a_crash x"
  using create_in_stages [of e dto a s]
proof cases
  case (1 y)
  have pre: "tx_errs not_a_crash (existing_sale i n off is)"
    "tx_errs not_a_crash (require_open_shift_id_for dev)" "tx_errs not_a_crash (resolve_payment_account dto)"
    "tx_errs not_a_crash (lock_mechanic_and_check_limit dto)" for i n off "is" dev
    unfolding existing_sale_def require_open_shift_id_for_def resolve_payment_account_def
      lock_mechanic_and_check_limit_def by (intro tx_err; simp)+
  have "not_a_crash y" if "assert_sale_totals ls sub d t = Inl y" for ls sub d t y
    using that by (auto simp: assert_sale_totals_def Let_def split: if_splits)
  then show ?thesis using 1 assms(2) pre [THEN tx_errsD] by auto
next
  case 2
  then show ?thesis using assms(2) by simp
next
  case (3 sid acct ov)
  show ?thesis
  proof (cases "short_lines (aggregate (cs_items dto)) (locked_for s (cs_items dto)) = []")
    case True
    then have "write_sale e dto a sid acct ov (aggregate (cs_items dto)) (locked_for s (cs_items dto)) s = Inl x"
      using 3(6) assms(2) by (simp add: Let_def)
    then show ?thesis by (rule write_sale_no_crash [OF assms(1) True])
  next
    case False
    then show ?thesis using 3(6) assms(2) by (auto simp: Let_def)
  qed
qed

section \<open>Properties\<close>

text \<open>
  C1. What a new bill does: it is filed under its id, stamped with an open drawer of the caller's
  device, its lines are stored with the cost of the products as they stood, every product's stock
  goes down by exactly what its lines sell (summed over the lines, none below zero), and the log
  gets one \<open>sale\<close> row per product with that amount and the stock left.
\<close>

theorem sale_moves_stock:
  assumes "create_in e dto a s = Inr (r, s')" "\<not> has_key s_id (sp_id dto) (sales s)"
  shows "products s' = stock_moved (\<lambda>k. - sold_qty (cs_items dto) k) (products s) \<and>
    (\<forall>l \<in> set (cs_items dto). 0 \<le> on_hand s' (sl_product_id l)) \<and>
    (\<exists>b q. sales s' = sales s @ [b] \<and> s_id b = sp_id dto \<and> s_total b = cs_total dto \<and> \<not> s_voided b \<and>
       s_points_granted b = points_for (cs_total dto) \<and>
       q \<in> set (shifts s) \<and> is_open (a_device a) q \<and> s_shift_id b = Some (sh_id q)) \<and>
    (\<exists>new. sale_items s' = sale_items s @ new \<and>
       list_all2 (stored_line (sp_id dto) (live_products s)) (cs_items dto) new) \<and>
    (\<exists>vs. movements s' = movements s @ vs \<and> map mv_product_id vs = first_seen (map sl_product_id (cs_items dto)) \<and>
       (\<forall>v \<in> set vs. mv_type v = Mv_Sale \<and> mv_ref_id v = Some (sp_id dto) \<and>
          mv_delta v = - sold_qty (cs_items dto) (mv_product_id v) \<and>
          mv_stock_after v = on_hand s' (mv_product_id v)))"
proof -
  have w: "sale_written e dto a s r s'" by (rule create_in_written [OF assms])
  let ?vs = "cr_movements r"
  have rows: "list_all2 (\<lambda>d v. mv_product_id v = dm_product d \<and> mv_delta v = - dm_qty d \<and> mv_type v = Mv_Sale \<and>
       mv_ref_id v = Some (sp_id dto) \<and> mv_stock_after v = on_hand s' (dm_product d))
       (aggregate (cs_items dto)) ?vs"
    using w by (auto simp: sale_written_def)
  have "map mv_product_id ?vs = map dm_product (aggregate (cs_items dto))"
    using rows by (auto simp: list_all2_conv_all_nth intro!: nth_equalityI)
  then have keys: "map mv_product_id ?vs = first_seen (map sl_product_id (cs_items dto))"
    by (simp only: products_aggregate)
  have each: "mv_type v = Mv_Sale \<and> mv_ref_id v = Some (sp_id dto) \<and>
      mv_delta v = - sold_qty (cs_items dto) (mv_product_id v) \<and>
      mv_stock_after v = on_hand s' (mv_product_id v)" if v: "v \<in> set ?vs" for v
  proof -
    obtain n where n: "n < length ?vs" "v = ?vs ! n" using v by (auto simp: in_set_conv_nth)
    let ?d = "aggregate (cs_items dto) ! n"
    have d: "?d \<in> set (aggregate (cs_items dto))" "mv_product_id v = dm_product ?d" "mv_delta v = - dm_qty ?d"
      "mv_type v = Mv_Sale" "mv_ref_id v = Some (sp_id dto)" "mv_stock_after v = on_hand s' (dm_product ?d)"
      using rows n by (auto simp: list_all2_conv_all_nth)
    then show ?thesis
      using demanded_distinct [OF distinct_aggregate d(1)] by (simp add: demanded_aggregate)
  qed
  show ?thesis
    using w keys each by (auto simp: sale_written_def sale_row_def)
qed

theorem sale_moves_stock_witness:
  "\<exists>r s'. create_in sample_env sample_bill sample_actor sample_shop = Inr (r, s') \<and>
     products s' = stock_moved (\<lambda>k. - sold_qty (cs_items sample_bill) k) (products sample_shop)"
proof -
  obtain r s' where run: "create_in sample_env sample_bill sample_actor sample_shop = Inr (r, s')"
    using sample_runs by blast
  then show ?thesis using sale_moves_stock [OF run sample_shop_fresh(1)] by blast
qed

text \<open>
  The totals check, done in doubles, decides exactly what it says: for amounts a column can
  hold and lines of non-negative quantity and price (even ones whose product overflows 53 bits), a
  bill passes iff its subtotal and its total are each within one satang of the exact integers.
\<close>

theorem totals_check_exact:
  assumes "list_all (\<lambda>(q, p). 0 \<le> q \<and> 0 \<le> p) ls" "0 \<le> sub" "sub \<le> MAX_SATANG"
    "0 \<le> disc" "disc \<le> MAX_SATANG" "0 \<le> tot" "tot \<le> MAX_SATANG"
  shows "assert_sale_totals ls sub disc tot = Inr () \<longleftrightarrow>
    \<bar>exact_subtotal ls - sub\<bar> \<le> 1 \<and> \<bar>exact_subtotal ls - disc - tot\<bar> \<le> 1"
  using totals_check_iff [OF assms] by metis

theorem totals_check_exact_witness:
  "assert_sale_totals [(3, 5000), (1, 999)] 16000 1000 14999 = Inr () \<and>
   assert_sale_totals [(1000000, 999999999999)] 15000 1000 14000 \<noteq> Inr ()"
  using totals_check_exact [of "[(3, 5000), (1, 999)]" 16000 1000 14999]
    totals_check_exact [of "[(1000000, 999999999999)]" 15000 1000 14000]
  by (simp add: MAX_SATANG_def)

text \<open>
  A bill that asks for more than there is gets one refusal naming every product that is short,
  in the order the bill first names them and with what is left of each: a product is named iff it
  is unknown (or deleted) or its stock is below the sum of the bill's lines for it.
\<close>

theorem short_bill_names_every_line:
  assumes "\<not> has_key s_id (sp_id dto) (sales s)" "distinct (map p_id (products s))"
    and "assert_sale_totals (line_amounts (cs_items dto)) (cs_subtotal dto) (cs_discount dto) (cs_total dto) = Inr ()"
    and "require_open_shift_id_for (a_device a) s = Inr (sid, s)" "resolve_payment_account dto s = Inr (acct, s)"
    and "lock_mechanic_and_check_limit dto s = Inr (ov, s)"
    and "l \<in> set (cs_items dto)" "\<forall>p \<in> set (live_products s). p_id p = sl_product_id l \<longrightarrow>
        p_stock p < sold_qty (cs_items dto) (sl_product_id l)"
  shows "\<exists>short. create_in e dto a s = Inl (insufficient_stock short) \<and>
    map fst short = filter (\<lambda>k. \<forall>p \<in> set (live_products s). p_id p = k \<longrightarrow> p_stock p < sold_qty (cs_items dto) k)
      (first_seen (map sl_product_id (cs_items dto))) \<and>
    (\<forall>(k, left, asked) \<in> set short. asked = sold_qty (cs_items dto) k \<and>
       left = map_option p_stock (row_of p_id k (live_products s)))"
proof -
  let ?ds = "aggregate (cs_items dto)" and ?locked = "locked_for s (cs_items dto)"
  let ?bad = "\<lambda>k. \<forall>p \<in> set (live_products s). p_id p = k \<longrightarrow> p_stock p < sold_qty (cs_items dto) k"
  let ?f = "\<lambda>d. case row_of p_id (dm_product d) ?locked of None \<Rightarrow> [(dm_product d, None, dm_qty d)]
       | Some p \<Rightarrow> if p_stock p < dm_qty d then [(dm_product d, Some (p_stock p), dm_qty d)] else []"
  have row: "row_of p_id (dm_product d) ?locked = row_of p_id (dm_product d) (live_products s)"
    if "d \<in> set ?ds" for d
    by (rule row_of_locked) (use that in simp)
  have qty: "dm_qty d = sold_qty (cs_items dto) (dm_product d)" if "d \<in> set ?ds" for d
    using demanded_distinct [OF distinct_aggregate that] by (simp add: demanded_aggregate)
  have dist: "distinct (map p_id (live_products s))" using assms(2) by (rule distinct_map_filter)
  have one: "?f d = (if ?bad (dm_product d)
      then [(dm_product d, map_option p_stock (row_of p_id (dm_product d) (live_products s)), sold_qty (cs_items dto) (dm_product d))]
      else [])" if d: "d \<in> set ?ds" for d
  proof (cases "row_of p_id (dm_product d) (live_products s)")
    case None
    then have "\<not> has_key p_id (dm_product d) (live_products s)" by (rule iffD1 [OF row_of_None])
    then have "p_id p \<noteq> dm_product d" if "p \<in> set (live_products s)" for p
      using that unfolding has_key_def by (metis image_eqI list.set_map)
    then have "?bad (dm_product d)" by blast
    then show ?thesis using None row [OF d] qty [OF d] by simp
  next
    case (Some p)
    have "?bad (dm_product d) \<longleftrightarrow> p_stock p < sold_qty (cs_items dto) (dm_product d)"
      using row_of_SomeD [OF Some] row_of_unique [OF dist] Some by fastforce
    then show ?thesis using Some row [OF d] qty [OF d] by simp
  qed
  define short where "short = short_lines ?ds ?locked"
  have short: "short = concat (map (\<lambda>d. if ?bad (dm_product d)
      then [(dm_product d, map_option p_stock (row_of p_id (dm_product d) (live_products s)), sold_qty (cs_items dto) (dm_product d))]
      else []) ?ds)"
    unfolding short_def short_lines_def by (intro arg_cong [of _ _ concat] map_cong refl one)
  have fsts: "map fst (concat (map (\<lambda>d. if P (dm_product d) then [(dm_product d, x d, y d)] else []) ds)) =
      filter P (map dm_product ds)" for P x y and ds :: "demand list"
    by (induction ds) auto
  have keys: "map fst short = filter ?bad (first_seen (map sl_product_id (cs_items dto)))"
    unfolding short products_aggregate [symmetric] by (rule fsts)
  have "sl_product_id l \<in> set (map fst short)"
    unfolding keys using assms(7,8) by simp
  then have "short \<noteq> []" by auto
  moreover have "\<forall>(k, left, asked) \<in> set short. asked = sold_qty (cs_items dto) k \<and>
       left = map_option p_stock (row_of p_id k (live_products s))"
    unfolding short by (auto split: if_splits)
  moreover have "create_in e dto a s = Inl (insufficient_stock short)"
    if "short \<noteq> []"
    using create_in_stages [of e dto a s]
  proof cases
    case 1
    moreover have "existing_sale (sp_id dto) (cs_total dto) (sw_sold_offline dto) (Some (cs_items dto)) s = Inr (None, s)"
      using assms(1) by (simp add: existing_sale_None)
    ultimately show ?thesis using assms(3-6) by simp
  next
    case 3
    then show ?thesis using that by (simp add: Let_def short_def)
  qed (use assms(1) in simp)
  ultimately show ?thesis using keys by blast
qed

theorem short_bill_names_every_line_witness:
  "\<exists>short. create_in sample_env (sample_bill\<lparr>cs_items := [\<lparr>sl_line_no = 1, sl_product_id = ''p'',
       sl_part_no = None, sl_name = ''pad'', sl_name_th = None, sl_qty = 30, sl_price = 500\<rparr>]\<rparr>)
     sample_actor sample_shop = Inl (insufficient_stock short) \<and> map fst short = [''p'']"
proof -
  define l where "l = \<lparr>sl_line_no = 1, sl_product_id = ''p'',
       sl_part_no = None, sl_name = ''pad'', sl_name_th = None, sl_qty = 30, sl_price = 500\<rparr>"
  define dto where "dto = sample_bill\<lparr>cs_items := [l]\<rparr>"
  have "assert_sale_totals [(30, 500)] 15000 1000 14000 = Inr ()"
    using totals_check_iff [of "[(30, 500)]" 15000 1000 14000] by (simp add: MAX_SATANG_def)
  then have t: "assert_sale_totals (line_amounts (cs_items dto)) (cs_subtotal dto) (cs_discount dto) (cs_total dto) = Inr ()"
    by (simp add: dto_def l_def sample_bill_def)
  have f: "\<not> has_key s_id (sp_id dto) (sales sample_shop)" by (simp add: sample_shop_def)
  have g: "require_open_shift_id_for (a_device sample_actor) sample_shop = Inr (''s'', sample_shop)"
    by (simp add: require_open_shift_id_for_def sample_shop_def sample_actor_def is_open_def is_current_def)
  have p: "resolve_payment_account dto sample_shop = Inr (None, sample_shop)"
    by (simp add: dto_def resolve_payment_account_def sample_bill_def)
  have c: "lock_mechanic_and_check_limit dto sample_shop = Inr (None, sample_shop)"
    by (simp add: dto_def lock_mechanic_and_check_limit_def sample_bill_def sample_shop_def Let_def)
  have mem: "l \<in> set (cs_items dto)" by (simp add: dto_def)
  have lo: "\<forall>p \<in> set (live_products sample_shop). p_id p = sl_product_id l \<longrightarrow>
      p_stock p < sold_qty (cs_items dto) (sl_product_id l)"
    by (simp add: sample_shop_def dto_def l_def)
  have "map fst short = [''p'']" if "map fst short = filter (\<lambda>k. \<forall>p \<in> set (live_products sample_shop).
      p_id p = k \<longrightarrow> p_stock p < sold_qty (cs_items dto) k) (first_seen (map sl_product_id (cs_items dto)))"
    for short :: "(uuid \<times> int option \<times> int) list"
    using that by (simp add: sample_shop_def dto_def l_def)
  with short_bill_names_every_line [OF f sample_shop_fresh(3) t g p c mem lo, of sample_env]
  have "\<exists>short. create_in sample_env dto sample_actor sample_shop = Inl (insufficient_stock short) \<and>
      map fst short = [''p'']" by blast
  then show ?thesis by (simp add: dto_def l_def)
qed

text \<open>
  C26. The internal assertions of the sale never fire: with distinct product ids, no bill whatever
  ends in the stock-underflow fault of the strict deduction or in a missing locked product; what
  the checks under the lock let through, the writes can carry out.
\<close>

theorem sale_never_underflows:
  assumes "distinct (map p_id (products s))"
  shows "create_in e dto a s \<noteq> Inl (Fault ''Stock underflow'') \<and> create_in e dto a s \<noteq> Inl (Fault ''TypeError'')"
  using create_in_no_crash [OF assms] by (auto simp: not_a_crash_def)

theorem sale_never_underflows_witness:
  "create_in sample_env sample_bill sample_actor sample_shop \<noteq> Inl (Fault ''Stock underflow'')"
  using sale_never_underflows [OF sample_shop_fresh(3), of sample_env sample_bill sample_actor] by blast

text \<open>
  C34. The credit limit: a new bill on a mechanic's tab adds exactly its total to the balance; it
  takes the balance past the limit only with the override flag, and then an audit row names the
  mechanic and the bill.
\<close>

theorem credit_limit_respected:
  assumes "create_in e dto a s = Inr (r, s')" "\<not> has_key s_id (sp_id dto) (sales s)"
    and "sp_payment_method dto = Mechanic_Credit" "sp_mechanic_id dto = Some i"
    and "row_of m_id i (mechanics s) = Some m" "0 \<le> m_credit_balance m" "0 \<le> cs_total dto"
  shows "\<exists>m'. row_of m_id i (mechanics s') = Some m' \<and> m_credit_balance m' = m_credit_balance m + cs_total dto \<and>
    (m_credit_balance m' \<le> m_credit_limit m \<and> audit_log s' = audit_log s \<or>
     m_credit_limit m < m_credit_balance m' \<and> sp_override dto \<and>
     audit_log s' = audit_log s @ [override_row dto a (m_credit_limit m, m_credit_balance m) m'])"
  using assms(1)
proof (cases rule: create_in_Inr)
  case (new sid acct ov)
  from new(4) obtain s5 cust mech where
    st: "settle_sale e dto a ov (points_for (cs_total dto)) s5 = Inr ((cust, mech), s')"
      "mechanics s5 = mechanics s" "audit_log s5 = audit_log s"
    by (rule write_sale_Inr) blast
  note fin = settle_sale_Inr [OF st(1)]
  have mech: "mech = Some (sale_on_tab dto m)" using fin(3) [OF assms(4)] assms(5) st(2) by simp
  have row: "row_of m_id i (mechanics s') = Some (sale_on_tab dto m)" using fin(2) assms(4) mech by simp
  have bal: "m_credit_balance (sale_on_tab dto m) = m_credit_balance m + cs_total dto"
    using assms(3,6,7) by (simp add: sale_on_tab_def Let_def mechanic_moved_def)
  have ov: "ov = (if m_credit_balance m + cs_total dto \<le> m_credit_limit m then None
      else Some (m_credit_limit m, m_credit_balance m))"
    and flag: "m_credit_limit m < m_credit_balance m + cs_total dto \<Longrightarrow> sp_override dto"
    using new(3) assms(3-5) by (auto simp: lock_mechanic_and_check_limit_def Let_def split: if_splits)
  show ?thesis
    using row bal fin(4) st(3) ov flag mech by (cases "m_credit_balance m + cs_total dto \<le> m_credit_limit m") auto
qed (use assms(2) in simp)

theorem credit_limit_respected_witness:
  "\<exists>r s' m'. create_in sample_env sample_bill sample_actor sample_shop = Inr (r, s') \<and>
     row_of m_id ''m'' (mechanics s') = Some m' \<and> m_credit_balance m' = 34000"
proof -
  obtain r s' where run: "create_in sample_env sample_bill sample_actor sample_shop = Inr (r, s')"
    using sample_runs by blast
  show ?thesis
    using credit_limit_respected [OF run sample_shop_fresh(1), of "''m''" "hd (mechanics sample_shop)"] run
    by (auto simp: sample_bill_def sample_shop_def)
qed

end
