(* ===== verification/Sale_Reads.thy ===== *)
theory Sale_Reads
  imports Schema "HOL-Library.Sublist" "HOL-Library.List_Lexorder" "HOL-Library.Char_ord"
begin

text \<open>
  The read side of selling (\<open>sales/sale-reads.service.ts\<close>): one bill with its lines, a page
  of bills, and how much of each product a bill has already had credited back.
\<close>

section \<open>One bill\<close>

text \<open>
  The answer keeps the row as it is stored; \<open>toHeader\<close> and \<open>attachItems\<close> only rename the
  columns and print the amounts.
\<close>

record sale_with_items =
  so_header :: sale
  so_items :: "sale_item list"

definition sale_not_found :: err where
  "sale_not_found = HttpErr 404 ''SALE_NOT_FOUND'' NoDetail"

definition lines_of :: "db \<Rightarrow> uuid \<Rightarrow> sale_item list" where
  "lines_of s i = filter (\<lambda>l. si_sale_id l = i) (sale_items s)"

definition attach_items :: "sale list \<Rightarrow> sale_with_items list op" where
  "attach_items rows = tx_get (\<lambda>s. map (\<lambda>b.
     \<lparr>so_header = b, so_items = sort_key si_line_no (lines_of s (s_id b))\<rparr>) rows)"

definition by_id_in :: "uuid \<Rightarrow> sale_with_items op" where
  "by_id_in i =
     tx_bind (tx_get (\<lambda>s. row_of s_id i (sales s))) (\<lambda>row.
     case row of
       None \<Rightarrow> tx_throw sale_not_found
     | Some b \<Rightarrow> tx_bind (attach_items [b]) (\<lambda>os. tx_ret (hd os)))"

section \<open>A page of bills\<close>

record sale_list_query =
  sq_search :: string
  sq_receipt_no :: string
  sq_from :: "int option"
  sq_to :: "int option"
  sq_customer_id :: "uuid option"
  sq_mechanic_id :: "uuid option"
  sq_page :: nat
  sq_limit :: nat

text \<open>\<open>value.replace(/[\\%_]/g, c => `\\${c}`)\<close>\<close>

fun escape_like :: "string \<Rightarrow> string" where
  "escape_like [] = []"
| "escape_like (c # cs) =
     (if c = CHR 0x5C \<or> c = CHR ''%'' \<or> c = CHR ''_'' then [CHR 0x5C, c] else [c]) @ escape_like cs"

text \<open>
  The SQL operator \<open>LIKE \<dots> ESCAPE '\'\<close>: \<open>%\<close> stands for any text, \<open>_\<close> for one character, and
  the escape character takes the next one as itself.
\<close>

fun sql_like :: "string \<Rightarrow> string \<Rightarrow> bool" where
  "sql_like [] t = (t = [])"
| "sql_like (c # cs) t =
     (if c = CHR ''%'' then sql_like cs t \<or> (case t of [] \<Rightarrow> False | _ # u \<Rightarrow> sql_like (c # cs) u)
      else if c = CHR 0x5C then
        (case (cs, t) of (d # ds, x # u) \<Rightarrow> x = d \<and> sql_like ds u | _ \<Rightarrow> False)
      else (case t of [] \<Rightarrow> False | x # u \<Rightarrow> (c = CHR ''_'' \<or> x = c) \<and> sql_like cs u))"

definition sql_ilike :: "env \<Rightarrow> string \<Rightarrow> string \<Rightarrow> bool" where
  "sql_ilike e pat t = sql_like (pg_lower e pat) (pg_lower e t)"

definition sale_matches :: "env \<Rightarrow> sale_list_query \<Rightarrow> sale \<Rightarrow> bool" where
  "sale_matches e q b \<longleftrightarrow>
     (sq_receipt_no q = [] \<or> s_receipt_no b = sq_receipt_no q) \<and>
     (sq_search q = [] \<or>
        (let pat = ''%'' @ escape_like (sq_search q) @ ''%'' in
         sql_ilike e pat (s_receipt_no b) \<or>
         (case s_customer_name b of None \<Rightarrow> False | Some n \<Rightarrow> sql_ilike e pat n))) \<and>
     (case sq_from q of None \<Rightarrow> True | Some t \<Rightarrow> t \<le> s_date b) \<and>
     (case sq_to q of None \<Rightarrow> True | Some t \<Rightarrow> s_date b \<le> t) \<and>
     (case sq_customer_id q of None \<Rightarrow> True | Some c \<Rightarrow> s_customer_id b = Some c) \<and>
     (case sq_mechanic_id q of None \<Rightarrow> True | Some m \<Rightarrow> s_mechanic_id b = Some m)"

text \<open>\<open>ORDER BY date DESC, id DESC\<close>\<close>

definition newest_sales :: "sale list \<Rightarrow> sale list" where
  "newest_sales rows = rev (sort_key s_date (sort_key s_id rows))"

definition sale_list_in :: "env \<Rightarrow> sale_list_query \<Rightarrow> (sale_with_items list \<times> nat) op" where
  "sale_list_in e q =
     tx_bind (tx_get (\<lambda>s. filter (sale_matches e q) (sales s))) (\<lambda>found.
     tx_bind (attach_items (take (sq_limit q) (drop ((sq_page q - 1) * sq_limit q) (newest_sales found)))) (\<lambda>os.
     tx_ret (os, length found)))"

section \<open>What has been credited back\<close>

definition returned_lines :: "db \<Rightarrow> uuid \<Rightarrow> return_item list" where
  "returned_lines s i = filter (\<lambda>l. \<exists>r \<in> set (returns s). r_id r = ri_return_id l \<and> r_sale_id r = i) (return_items s)"

definition refunded_qty_in :: "uuid \<Rightarrow> (uuid \<times> int) list op" where
  "refunded_qty_in i =
     tx_bind (tx_get id) (\<lambda>s.
     tx_bind (tx_guard (has_key s_id i (sales s)) sale_not_found) (\<lambda>_.
     let ls = returned_lines s i; ks = first_seen (map ri_product_id ls) in
     tx_bind (tx_iter (\<lambda>k. int4 (sum_by ri_qty (filter (\<lambda>l. ri_product_id l = k) ls))) ks) (\<lambda>_.
     tx_ret (map (\<lambda>k. (k, sum_by ri_qty (filter (\<lambda>l. ri_product_id l = k) ls))) ks))))"

section \<open>Reading changes nothing\<close>

lemma tx_fixes_reads [tx_fix]:
  "tx_fixes f (attach_items rows)" "tx_fixes f (by_id_in i)" "tx_fixes f (sale_list_in e q)"
  "tx_fixes f (refunded_qty_in i)"
  unfolding by_id_in_def sale_list_in_def refunded_qty_in_def attach_items_def by (intro tx_fix)+

lemma by_id_in_Inr: "by_id_in i s = Inr (out, s') \<longleftrightarrow> s' = s \<and>
    (\<exists>b. row_of s_id i (sales s) = Some b \<and>
       out = \<lparr>so_header = b, so_items = sort_key si_line_no (lines_of s i)\<rparr>)"
  by (auto simp: by_id_in_def attach_items_def split: option.splits dest: row_of_SomeD)

lemma like_suffix: "sql_like (''%'') t"
  by (induction t) auto

lemma like_escaped: "sql_like (escape_like v @ ''%'') t \<longleftrightarrow> prefix v t"
proof (induction v arbitrary: t)
  case Nil
  then show ?case using like_suffix by simp
next
  case (Cons c v)
  then show ?case by (cases t) auto
qed

lemma like_percent: "sql_like (CHR ''%'' # p) t \<longleftrightarrow> (\<exists>u. suffix u t \<and> sql_like p u)"
proof (induction t)
  case (Cons x t)
  then show ?case by (auto simp: suffix_Cons)
qed simp

lemma pages_append:
  fixes xs :: "'a list"
  shows "concat (map (\<lambda>p. take n (drop ((p - 1) * n) xs)) [1 ..< Suc k]) = take (k * n) xs"
proof (induction k)
  case (Suc k)
  have "concat (map (\<lambda>p. take n (drop ((p - 1) * n) xs)) [1 ..< Suc (Suc k)]) = take (k * n) xs @ take n (drop (k * n) xs)"
    using Suc by simp
  also have "\<dots> = take (Suc k * n) xs" by (simp add: take_add [symmetric] add.commute)
  finally show ?case .
qed simp

section \<open>Properties\<close>

text \<open>
  C40. What the clerk types into the search box is found literally: the pattern built from it
  matches exactly the texts that contain it, \<open>%\<close>, \<open>_\<close> and the backslash included.
\<close>

theorem search_is_literal:
  "sql_like (''%'' @ escape_like v @ ''%'') t \<longleftrightarrow> sublist v t"
  using like_percent [of "escape_like v @ ''%''" t]
  by (simp only: like_escaped append_Cons append_Nil) (auto simp: sublist_altdef' suffix_def prefix_def)

theorem search_is_literal_witness:
  "sql_like (''%'' @ escape_like ''5%'' @ ''%'') ''A5%B'' \<and> \<not> sql_like (''%'' @ escape_like ''5%'' @ ''%'') ''A55B''"
  using search_is_literal [of "''5%''" "''A5%B''"] search_is_literal [of "''5%''" "''A55B''"] by simp

text \<open>
  The pages of a list partition it: read one after the other they give every bill the
  query selects, once and newest first, and each page reports the same total.
\<close>

theorem pages_partition_list:
  assumes "0 < sq_limit q" "length (filter (sale_matches e q) (sales s)) \<le> k * sq_limit q"
  shows "\<exists>pages. (\<forall>p \<in> {1..k}. sale_list_in e (q\<lparr>sq_page := p\<rparr>) s =
            Inr ((pages p, length (filter (sale_matches e q) (sales s))), s)) \<and>
          map so_header (concat (map pages [1 ..< Suc k])) =
            newest_sales (filter (sale_matches e q) (sales s)) \<and>
          (\<forall>p. length (pages p) \<le> sq_limit q)"
proof -
  let ?found = "filter (sale_matches e q) (sales s)"
  define pages where "pages p = map (\<lambda>b. \<lparr>so_header = b, so_items = sort_key si_line_no (lines_of s (s_id b))\<rparr>)
    (take (sq_limit q) (drop ((p - 1) * sq_limit q) (newest_sales ?found)))" for p
  have same: "sale_matches e (q\<lparr>sq_page := p\<rparr>) = sale_matches e q" for p
    by (rule ext) (simp add: sale_matches_def)
  have "sale_list_in e (q\<lparr>sq_page := p\<rparr>) s = Inr ((pages p, length ?found), s)" for p
    by (simp add: sale_list_in_def attach_items_def same pages_def)
  moreover have "map so_header (concat (map pages [1 ..< Suc k])) = newest_sales ?found"
  proof -
    have "map so_header (concat (map pages [1 ..< Suc k])) =
        concat (map (\<lambda>p. take (sq_limit q) (drop ((p - 1) * sq_limit q) (newest_sales ?found))) [1 ..< Suc k])"
      by (simp add: pages_def map_concat comp_def del: upt_Suc)
    also have "\<dots> = newest_sales ?found"
      unfolding pages_append using assms(2) by (simp add: newest_sales_def)
    finally show ?thesis .
  qed
  moreover have "length (pages p) \<le> sq_limit q" for p by (simp add: pages_def)
  ultimately show ?thesis by blast
qed

definition two_bills :: db where
  "two_bills = (let b = \<lparr>s_id = ''1'', s_receipt_no = ''R1'', s_subtotal = 100, s_discount = 0,
     s_total = 100, s_payment_method = Cash_Method, s_customer_id = None, s_customer_name = None,
     s_mechanic_id = None, s_mechanic_name = None, s_mechanic_delta = None, s_points_granted = 0,
     s_date = 10, s_voided = False, s_voided_at = None, s_void_reason = None, s_shift_id = None,
     s_user_id = None, s_device_id = None, s_sold_offline = False, s_payment_account_id = None\<rparr> in
     blank_db\<lparr>sales := [b, b\<lparr>s_id := ''2'', s_receipt_no := ''R2'', s_date := 20\<rparr>]\<rparr>)"

theorem pages_partition_list_witness:
  "\<exists>pages. (\<forall>p \<in> {1..2}. sale_list_in sample_env \<lparr>sq_search = [], sq_receipt_no = [], sq_from = None,
      sq_to = None, sq_customer_id = None, sq_mechanic_id = None, sq_page = p, sq_limit = 1\<rparr> two_bills =
      Inr ((pages p, 2), two_bills)) \<and>
    map s_id (map so_header (concat (map pages [1 ..< 3]))) = [''2'', ''1'']"
proof -
  define q where "q = \<lparr>sq_search = [], sq_receipt_no = [], sq_from = None,
      sq_to = None, sq_customer_id = None, sq_mechanic_id = None, sq_page = 1, sq_limit = 1\<rparr>"
  have found: "filter (sale_matches sample_env q) (sales two_bills) = sales two_bills"
    by (simp add: q_def two_bills_def sale_matches_def)
  have "0 < sq_limit q" "length (filter (sale_matches sample_env q) (sales two_bills)) \<le> 2 * sq_limit q"
    unfolding found by (simp_all add: q_def two_bills_def)
  from pages_partition_list [OF this] obtain pages where p:
    "\<forall>p \<in> {1..2}. sale_list_in sample_env (q\<lparr>sq_page := p\<rparr>) two_bills = Inr ((pages p, length (sales two_bills)), two_bills)"
    "map so_header (concat (map pages [1 ..< 3])) = newest_sales (sales two_bills)"
    unfolding found by (auto simp: numeral_3_eq_3 numeral_2_eq_2)
  have "map s_id (newest_sales (sales two_bills)) = [''2'', ''1'']" "length (sales two_bills) = 2"
    by (simp_all add: newest_sales_def two_bills_def)
  with p show ?thesis by (intro exI [of _ pages]) (simp add: q_def)
qed

end
