(* ===== verification/Void_Sale.thy ===== *)
theory Void_Sale
  imports Sales_Facts Sale_Reads
begin

text \<open>
  The manual void (\<open>sales/void.service.ts\<close>): the checks, the stock put back, the ledger
  reversed in full, the bill marked and the audit row.
\<close>

section \<open>The operation\<close>

text \<open>
  \<open>UPDATE products SET stock = stock + q WHERE id = \<dots> RETURNING\<close> and the log row behind it,
  which the void and the credit note share; a product with no row at all is skipped. The answer
  is the log row, when there is one.
\<close>

definition restore_product :: "env \<Rightarrow> mv_kind \<Rightarrow> uuid \<Rightarrow> string option \<Rightarrow> uuid \<times> int \<Rightarrow> movement option op" where
  "restore_product e kind ref note = (\<lambda>(i, q).
     tx_bind (tx_get (\<lambda>s. row_of p_id i (products s))) (\<lambda>row.
     case row of
       None \<Rightarrow> tx_ret None
     | Some p \<Rightarrow>
         tx_bind (int4 (p_stock p + q)) (\<lambda>_.
         tx_bind (tx_modify (\<lambda>s. s\<lparr>products := upd_where (\<lambda>p. p_id p = i)
            (\<lambda>p. p\<lparr>p_stock := p_stock p + q\<rparr>) (products s)\<rparr>)) (\<lambda>_.
         tx_bind (fresh_id e) (\<lambda>mid.
         let v = \<lparr>mv_id = mid, mv_product_id = i, mv_part_no = p_part_no p, mv_name = p_name p,
            mv_delta = q, mv_type = kind, mv_note = note, mv_stock_after = p_stock p + q,
            mv_ref_id = Some ref, mv_date = now e\<rparr> in
         tx_bind (insert_movement v) (\<lambda>_. tx_ret (Some v)))))))"

text \<open>\<open>SELECT product_id, sum(qty)::int \<dots> GROUP BY product_id ORDER BY product_id\<close>\<close>

definition qty_of_lines :: "sale_item list \<Rightarrow> uuid \<Rightarrow> int" where
  "qty_of_lines ls k = sum_by si_qty (filter (\<lambda>l. si_product_id l = k) ls)"

definition sold_groups :: "uuid \<Rightarrow> (uuid \<times> int) list op" where
  "sold_groups i =
     tx_bind (tx_get (\<lambda>s. lines_of s i)) (\<lambda>ls.
     tx_mapM (\<lambda>k. tx_bind (int4 (qty_of_lines ls k)) (\<lambda>_. tx_ret (k, qty_of_lines ls k)))
       (sort (first_seen (map si_product_id ls))))"

definition restore_stock :: "env \<Rightarrow> uuid \<Rightarrow> unit op" where
  "restore_stock e i =
     tx_bind (sold_groups i) (\<lambda>items.
     tx_bind (tx_mapM (restore_product e Mv_Void i None) items) (\<lambda>_. tx_ret ()))"

text \<open>\<open>UPDATE customers SET points = GREATEST(0, points - g), total_spend = GREATEST(0, \<dots>)\<close>\<close>

definition customer_back :: "int \<Rightarrow> int \<Rightarrow> customer \<Rightarrow> customer" where
  "customer_back points amount c = c\<lparr>c_points := max 0 (c_points c - points),
     c_total_spend := max 0 (c_total_spend c - amount)\<rparr>"

definition take_customer_back :: "uuid \<Rightarrow> int \<Rightarrow> int \<Rightarrow> unit op" where
  "take_customer_back i points amount =
     tx_bind (tx_get (\<lambda>s. row_of c_id i (customers s))) (\<lambda>row.
     case row of
       None \<Rightarrow> tx_ret ()
     | Some c \<Rightarrow>
         tx_bind (int4 (c_points c - points)) (\<lambda>_.
         tx_bind (numeric_14_2 (max 0 (c_total_spend c - amount))) (\<lambda>_.
         tx_modify (\<lambda>s. s\<lparr>customers := upd_where (\<lambda>c. c_id c = i) (customer_back points amount) (customers s)\<rparr>))))"

definition reverse_ledger :: "sale \<Rightarrow> unit op" where
  "reverse_ledger b =
     tx_bind (case s_customer_id b of None \<Rightarrow> tx_ret ()
              | Some c \<Rightarrow> take_customer_back c (s_points_granted b) (s_total b)) (\<lambda>_.
     case s_mechanic_id b of
       None \<Rightarrow> tx_ret ()
     | Some m \<Rightarrow>
         let delta = (case s_mechanic_delta b of None \<Rightarrow> 0 | Some d \<Rightarrow> d) in
         tx_bind (move_mechanic m (mechanic_moved (- s_total b)
            (- (if delta < 0 then - delta else 0)) (- (if 0 < delta then delta else 0))
            (- (if s_payment_method b = Mechanic_Credit then s_total b else 0)))) (\<lambda>_. tx_ret ()))"

definition sale_has_returns :: err where
  "sale_has_returns = HttpErr 409 ''SALE_HAS_RETURNS'' NoDetail"

definition sale_not_in_open_shift :: err where
  "sale_not_in_open_shift = HttpErr 409 ''SALE_NOT_IN_OPEN_SHIFT'' NoDetail"

definition mark_voided :: "env \<Rightarrow> string \<Rightarrow> sale \<Rightarrow> sale" where
  "mark_voided e reason b = b\<lparr>s_voided := True, s_voided_at := Some (now e), s_void_reason := Some reason\<rparr>"

text \<open>Everything before the first write; the answer is the bill under its lock.\<close>

definition void_checks :: "uuid \<Rightarrow> actor \<Rightarrow> sale op" where
  "void_checks i a =
     tx_bind (tx_get (\<lambda>s. row_of s_id i (sales s))) (\<lambda>row.
     case row of
       None \<Rightarrow> tx_throw sale_not_found
     | Some b \<Rightarrow>
         tx_bind (tx_guard (\<not> s_voided b) sale_voided) (\<lambda>_.
         tx_bind (tx_get (\<lambda>s. length (filter (\<lambda>r. r_sale_id r = i) (returns s)))) (\<lambda>n.
         tx_bind (tx_guard (n = 0) sale_has_returns) (\<lambda>_.
         tx_bind (require_open_shift_id_for (a_device a)) (\<lambda>open_shift.
         tx_bind (tx_guard (s_shift_id b = Some open_shift) sale_not_in_open_shift) (\<lambda>_.
         tx_ret b))))))"

text \<open>The hooks, the mark on the bill, the audit row and the answer.\<close>

definition close_void :: "env \<Rightarrow> uuid \<Rightarrow> actor \<Rightarrow> string \<Rightarrow> sale \<Rightarrow> sale_with_items op" where
  "close_void e i a reason b =
     tx_bind (add_hook (Invalidate ''products'')) (\<lambda>_.
     tx_bind (if s_customer_id b \<noteq> None then add_hook (Invalidate ''customers'') else tx_ret ()) (\<lambda>_.
     tx_bind (if s_mechanic_id b \<noteq> None then add_hook (Invalidate ''mechanics'') else tx_ret ()) (\<lambda>_.
     tx_bind (add_hook (Record_Document ''void'')) (\<lambda>_.
     tx_bind (tx_modify (\<lambda>s. s\<lparr>sales := upd_where (\<lambda>b. s_id b = i) (mark_voided e reason) (sales s)\<rparr>)) (\<lambda>_.
     tx_bind (insert_audit
       \<lparr>au_user = Some (a_user a), au_device = Some (a_device a), au_action = ''sale.void'',
        au_entity = ''sales'', au_entity_id = i, au_before = None,
        au_after = Some (JObj [(''voidedAt'', JStr (iso_string (now e))), (''reason'', JStr reason)])\<rparr>) (\<lambda>_.
     by_id_in i))))))"

definition void_in :: "env \<Rightarrow> uuid \<Rightarrow> actor \<Rightarrow> string \<Rightarrow> sale_with_items op" where
  "void_in e i a reason =
     tx_bind (void_checks i a) (\<lambda>b.
     tx_bind (restore_stock e i) (\<lambda>_.
     tx_bind (reverse_ledger b) (\<lambda>_.
     close_void e i a reason b)))"

section \<open>Frames\<close>

lemma tx_fixes_restore_product [tx_fix]:
  assumes "\<And>s x. f (s\<lparr>products := x\<rparr>) = f s" "\<And>s x. f (s\<lparr>movements := x\<rparr>) = f s"
    "\<And>s x. f (s\<lparr>minted := x\<rparr>) = f s"
  shows "tx_fixes f (restore_product e kind ref note x)"
  unfolding restore_product_def by (cases x) (simp, intro tx_fix; simp add: assms)

lemma tx_fixes_reverse_ledger [tx_fix]:
  assumes "\<And>s x. f (s\<lparr>customers := x\<rparr>) = f s" "\<And>s x. f (s\<lparr>mechanics := x\<rparr>) = f s"
  shows "tx_fixes f (reverse_ledger b)"
  unfolding reverse_ledger_def take_customer_back_def by (intro tx_fix; simp add: assms)

lemma tx_fixes_void_checks [tx_fix]: "tx_fixes f (void_checks i a)"
  unfolding void_checks_def by (intro tx_fix required.gate_fixes)

lemma tx_fixes_restore_stock [tx_fix]:
  assumes "\<And>s x. f (s\<lparr>products := x\<rparr>) = f s" "\<And>s x. f (s\<lparr>movements := x\<rparr>) = f s"
    "\<And>s x. f (s\<lparr>minted := x\<rparr>) = f s"
  shows "tx_fixes f (restore_stock e i)"
  unfolding restore_stock_def sold_groups_def by (intro tx_fix; simp add: assms)

lemma tx_fixes_close_void [tx_fix]:
  assumes "\<And>s x. f (s\<lparr>sales := x\<rparr>) = f s" "\<And>s x. f (s\<lparr>audit_log := x\<rparr>) = f s"
    "\<And>s x. f (s\<lparr>hooks := x\<rparr>) = f s"
  shows "tx_fixes f (close_void e i a reason b)"
  unfolding close_void_def by (intro tx_fix; simp add: assms)

lemma tx_fixes_void_in [tx_fix]:
  assumes "\<And>s x. f (s\<lparr>products := x\<rparr>) = f s" "\<And>s x. f (s\<lparr>movements := x\<rparr>) = f s"
    "\<And>s x. f (s\<lparr>minted := x\<rparr>) = f s" "\<And>s x. f (s\<lparr>customers := x\<rparr>) = f s"
    "\<And>s x. f (s\<lparr>mechanics := x\<rparr>) = f s" "\<And>s x. f (s\<lparr>sales := x\<rparr>) = f s"
    "\<And>s x. f (s\<lparr>audit_log := x\<rparr>) = f s" "\<And>s x. f (s\<lparr>hooks := x\<rparr>) = f s"
  shows "tx_fixes f (void_in e i a reason)"
  unfolding void_in_def by (intro tx_fix; simp add: assms)

section \<open>What each step writes\<close>

definition restored_row :: "mv_kind \<Rightarrow> uuid \<Rightarrow> uuid \<times> int \<Rightarrow> movement \<Rightarrow> bool" where
  "restored_row kind ref x v \<longleftrightarrow> mv_product_id v = fst x \<and> mv_delta v = snd x \<and> mv_type v = kind \<and>
     mv_ref_id v = Some ref"

lemma restore_product_Inr:
  assumes "restore_product e kind ref note (i, q) s = Inr (v, s')"
  shows "if has_key p_id i (products s)
    then (\<exists>w. v = Some w \<and> restored_row kind ref (i, q) w \<and> mv_stock_after w = on_hand s i + q \<and>
      \<not> has_key mv_ref_key (kind, Some ref, i) (movements s) \<and>
      s' = s\<lparr>products := stock_moved (\<lambda>k. if k = i then q else 0) (products s),
             minted := minted s + 1, movements := movements s @ [w]\<rparr>)
    else v = None \<and> s' = s"
proof (cases "row_of p_id i (products s)")
  case None
  then show ?thesis using assms row_of_None [of p_id i "products s"] by (simp add: restore_product_def)
next
  case (Some p)
  then have "has_key p_id i (products s)" by (rule row_of_Some_has_key)
  then show ?thesis
    using assms Some stock_moved_one [of i q "products s"]
    by (auto simp: restore_product_def Let_def constraint_defs restored_row_def on_hand_def mv_ref_key_def
        dest!: insert_movement_Inr)
qed

abbreviation group_qty :: "(uuid \<times> int) list \<Rightarrow> uuid \<Rightarrow> int" where
  "group_qty xs k \<equiv> sum_by snd (filter (\<lambda>x. fst x = k) xs)"

lemma stock_moved_missing:
  assumes "\<not> has_key p_id i ps" "\<And>k. k \<noteq> i \<Longrightarrow> g k = h k"
  shows "stock_moved g ps = stock_moved h ps"
proof (rule stock_moved_cong)
  fix p
  assume "p \<in> set ps"
  then have "p_id p \<noteq> i" using assms(1) by (auto simp: has_key_def)
  then show "g (p_id p) = h (p_id p)" by (rule assms(2))
qed

lemma restore_loop_Inr:
  assumes "tx_mapM (restore_product e kind ref note) xs s = Inr (vs, s')"
  shows "\<exists>n ms. s' = s\<lparr>products := stock_moved (group_qty xs) (products s), minted := n, movements := movements s @ ms\<rparr> \<and>
    list_all2 (restored_row kind ref) (filter (\<lambda>x. has_key p_id (fst x) (products s)) xs) ms \<and>
    ms = concat (map (\<lambda>v. case v of None \<Rightarrow> [] | Some w \<Rightarrow> [w]) vs)"
  using assms
proof (induction xs arbitrary: s vs)
  case Nil
  then show ?case by (auto intro!: exI [of _ "minted s"])
next
  case (Cons x xs)
  obtain i q where x: "x = (i, q)" by (cases x)
  from Cons.prems obtain v s1 ws where v: "restore_product e kind ref note (i, q) s = Inr (v, s1)"
    and ws: "tx_mapM (restore_product e kind ref note) xs s1 = Inr (ws, s')" and vs: "vs = v # ws"
    by (auto simp: x)
  note one = restore_product_Inr [OF v]
  from Cons.IH [OF ws] obtain n ms where ms:
    "s' = s1\<lparr>products := stock_moved (group_qty xs) (products s1), minted := n, movements := movements s1 @ ms\<rparr>"
    "list_all2 (restored_row kind ref) (filter (\<lambda>x. has_key p_id (fst x) (products s1)) xs) ms"
    "ms = concat (map (\<lambda>v. case v of None \<Rightarrow> [] | Some w \<Rightarrow> [w]) ws)"
    by blast
  show ?case
  proof (cases "has_key p_id i (products s)")
    case True
    with one obtain w where w: "v = Some w" "restored_row kind ref (i, q) w"
      "s1 = s\<lparr>products := stock_moved (\<lambda>k. if k = i then q else 0) (products s), minted := minted s + 1,
         movements := movements s @ [w]\<rparr>" by auto
    have "stock_moved (group_qty xs) (products s1) = stock_moved (group_qty (x # xs)) (products s)"
      unfolding w(3) by (simp add: stock_moved_comp x) (rule stock_moved_cong, auto)
    then show ?thesis using ms w True x vs by (intro exI [of _ n] exI [of _ "w # ms"]) simp
  next
    case False
    then have "s1 = s" "v = None" using one by auto
    moreover have "stock_moved (group_qty xs) (products s) = stock_moved (group_qty (x # xs)) (products s)"
      by (rule stock_moved_missing [OF False]) (auto simp: x)
    ultimately show ?thesis using ms False x vs by (intro exI [of _ n] exI [of _ ms]) simp
  qed
qed

lemma restore_loop_logged:
  assumes "tx_mapM (restore_product e kind ref note) xs s = Inr (vs, s')"
  shows "moves_logged s s'"
proof -
  obtain n ms where m:
    "s' = s\<lparr>products := stock_moved (group_qty xs) (products s), minted := n, movements := movements s @ ms\<rparr>"
    "list_all2 (restored_row kind ref) (filter (\<lambda>x. has_key p_id (fst x) (products s)) xs) ms"
    using restore_loop_Inr [OF assms] by blast
  show ?thesis
  proof (rule moves_loggedI)
    show "movements s' = movements s @ ms" using m(1) by simp
    fix k
    have "list_all2 (\<lambda>x v. mv_product_id v = fst x \<and> mv_delta v = snd x)
        (filter (\<lambda>x. has_key p_id (fst x) (products s)) xs) ms"
      using m(2) by (rule list.rel_mono_strong) (simp add: restored_row_def)
    from logged_rows_all2 [OF this, of k]
    have rows: "logged_rows ms k = (if has_key p_id k (products s) then group_qty xs k else 0)"
      by (auto simp: conj_commute cong: conj_cong filter_cong)
    show "on_hand s' k = on_hand s k + logged_rows ms k"
      unfolding rows using row_of_None [of p_id k "products s"]
      by (auto simp: m(1) on_hand_def row_of_stock_moved split: option.split)
  qed
qed

lemma qty_loop_Inr: "tx_mapM (\<lambda>k. tx_bind (int4 (f k)) (\<lambda>_. tx_ret (k, f k))) ks s = Inr (g, s') \<Longrightarrow>
    s' = s \<and> g = map (\<lambda>k. (k, f k)) ks"
  by (induction ks arbitrary: g) (auto simp: constraint_defs)

lemma group_qty_map: "distinct ks \<Longrightarrow> group_qty (map (\<lambda>k. (k, f k)) ks) k = (if k \<in> set ks then f k else 0)"
  by (induction ks) (auto simp: filter_empty_conv)

lemma sold_groups_Inr:
  assumes "sold_groups i s = Inr (g, s')"
  shows "s' = s \<and> group_qty g = qty_of_lines (lines_of s i) \<and> distinct (map fst g)"
proof -
  let ?ks = "sort (first_seen (map si_product_id (lines_of s i)))"
  have g: "s' = s \<and> g = map (\<lambda>k. (k, qty_of_lines (lines_of s i) k)) ?ks"
    using assms by (auto simp: sold_groups_def dest: qty_loop_Inr)
  have none: "k \<notin> si_product_id ` set (lines_of s i) \<Longrightarrow> qty_of_lines (lines_of s i) k = 0" for k
  proof -
    assume "k \<notin> si_product_id ` set (lines_of s i)"
    then have "filter (\<lambda>l. si_product_id l = k) (lines_of s i) = []" by (auto simp: filter_empty_conv)
    then show ?thesis by (simp add: qty_of_lines_def)
  qed
  have "group_qty g = qty_of_lines (lines_of s i)"
    using g none by (intro ext) (simp add: group_qty_map)
  then show ?thesis using g by (simp add: comp_def)
qed

lemma restore_stock_Inr:
  assumes "restore_stock e i s = Inr (u, s')"
  obtains n ms where
    "s' = s\<lparr>products := stock_moved (qty_of_lines (lines_of s i)) (products s), minted := n, movements := movements s @ ms\<rparr>"
    "\<forall>v \<in> set ms. mv_type v = Mv_Void \<and> mv_ref_id v = Some i"
    "moves_logged s s'"
proof -
  obtain g s1 vs where g: "sold_groups i s = Inr (g, s1)"
    and vs: "tx_mapM (restore_product e Mv_Void i None) g s1 = Inr (vs, s')"
    using assms by (auto simp: restore_stock_def)
  note gg = sold_groups_Inr [OF g]
  obtain n ms where "s' = s1\<lparr>products := stock_moved (group_qty g) (products s1), minted := n, movements := movements s1 @ ms\<rparr>"
    "list_all2 (restored_row Mv_Void i) (filter (\<lambda>x. has_key p_id (fst x) (products s1)) g) ms"
    using restore_loop_Inr [OF vs] by blast
  moreover from this(2) have "\<forall>v \<in> set ms. mv_type v = Mv_Void \<and> mv_ref_id v = Some i"
    by (auto simp: list_all2_conv_all_nth restored_row_def in_set_conv_nth)
  ultimately show thesis using that gg restore_loop_logged [OF vs] by auto
qed

definition bill_off_tab :: "sale \<Rightarrow> mechanic \<Rightarrow> mechanic" where
  "bill_off_tab b = (let delta = (case s_mechanic_delta b of None \<Rightarrow> 0 | Some d \<Rightarrow> d) in
     mechanic_moved (- s_total b) (- (if delta < 0 then - delta else 0)) (- (if 0 < delta then delta else 0))
       (- (if s_payment_method b = Mechanic_Credit then s_total b else 0)))"

lemma take_customer_back_Inr: "take_customer_back c n t s = Inr (u, s') \<Longrightarrow>
    s' = s\<lparr>customers := upd_where (\<lambda>r. c_id r = c) (customer_back n t) (customers s)\<rparr>"
  using row_of_None [of c_id c "customers s"]
  by (auto simp: take_customer_back_def constraint_defs upd_where_missing split: option.splits)

lemma move_mechanic_upd: "move_mechanic i f s = Inr (m, s') \<Longrightarrow>
    s' = s\<lparr>mechanics := upd_where (\<lambda>r. m_id r = i) f (mechanics s)\<rparr>"
  using row_of_None [of m_id i "mechanics s"]
  by (auto simp: move_mechanic_def constraint_defs upd_where_missing split: option.splits)

text \<open>What the ledger looks like with the bill taken off it.\<close>

definition customers_without :: "sale \<Rightarrow> customer list \<Rightarrow> customer list" where
  "customers_without b cs = (case s_customer_id b of None \<Rightarrow> cs
     | Some c \<Rightarrow> upd_where (\<lambda>r. c_id r = c) (customer_back (s_points_granted b) (s_total b)) cs)"

definition mechanics_without :: "sale \<Rightarrow> mechanic list \<Rightarrow> mechanic list" where
  "mechanics_without b ms = (case s_mechanic_id b of None \<Rightarrow> ms
     | Some m \<Rightarrow> upd_where (\<lambda>r. m_id r = m) (bill_off_tab b) ms)"

lemma reverse_ledger_Inr:
  assumes "reverse_ledger b s = Inr (u, s')"
  shows "s' = s\<lparr>customers := customers_without b (customers s), mechanics := mechanics_without b (mechanics s)\<rparr>"
  using assms
  by (auto simp: reverse_ledger_def customers_without_def mechanics_without_def bill_off_tab_def Let_def
      dest!: take_customer_back_Inr move_mechanic_upd split: option.splits)

lemma void_checks_Inr: "void_checks i a s = Inr (b, s') \<longleftrightarrow> s' = s \<and> row_of s_id i (sales s) = Some b \<and>
    \<not> s_voided b \<and> \<not> has_key r_sale_id i (returns s) \<and>
    (\<exists>sid. require_open_shift_id_for (a_device a) s = Inr (sid, s) \<and> s_shift_id b = Some sid)"
  by (auto simp: void_checks_def has_key_def filter_empty_conv dest: required.gate_reads split: option.splits)

lemma hook_Inr: "add_hook h s = Inr (u, s') \<longleftrightarrow> s' = s\<lparr>hooks := hooks s @ [h]\<rparr>"
  "(if b then add_hook h else tx_ret ()) s = Inr (u, s') \<longleftrightarrow> s' = s\<lparr>hooks := hooks s @ (if b then [h] else [])\<rparr>"
  by (auto simp: add_hook_def)

lemma close_void_Inr:
  assumes "close_void e i a reason b s = Inr (out, s')"
  shows "sales s' = upd_where (\<lambda>b. s_id b = i) (mark_voided e reason) (sales s)"
    "so_items out = sort_key si_line_no (lines_of s i)"
    "row_of s_id i (sales s) = Some r \<Longrightarrow> so_header out = mark_voided e reason r"
proof -
  have upd: "row_of s_id i (upd_where (\<lambda>b. s_id b = i) (mark_voided e reason) bs) =
      map_option (mark_voided e reason) (row_of s_id i bs)" for bs
    by (induction bs) (auto simp: mark_voided_def)
  show "sales s' = upd_where (\<lambda>b. s_id b = i) (mark_voided e reason) (sales s)"
    "so_items out = sort_key si_line_no (lines_of s i)"
    "row_of s_id i (sales s) = Some r \<Longrightarrow> so_header out = mark_voided e reason r"
    using assms by (auto simp: close_void_def hook_Inr insert_audit_def by_id_in_Inr lines_of_def upd)
qed

text \<open>Everything a void writes.\<close>

lemma void_in_Inr:
  assumes "void_in e i a reason s = Inr (out, s')"
  obtains b sid ms where
    "row_of s_id i (sales s) = Some b" "\<not> s_voided b" "\<not> has_key r_sale_id i (returns s)"
    "require_open_shift_id_for (a_device a) s = Inr (sid, s)" "s_shift_id b = Some sid"
    "products s' = stock_moved (qty_of_lines (lines_of s i)) (products s)"
    "movements s' = movements s @ ms" "\<forall>v \<in> set ms. mv_type v = Mv_Void \<and> mv_ref_id v = Some i"
    "customers s' = customers_without b (customers s)" "mechanics s' = mechanics_without b (mechanics s)"
    "sales s' = upd_where (\<lambda>b. s_id b = i) (mark_voided e reason) (sales s)"
    "moves_logged s s'"
    "so_header out = mark_voided e reason b" "so_items out = sort_key si_line_no (lines_of s i)"
proof -
  from assms obtain b s0 s1 s2 where c: "void_checks i a s = Inr (b, s0)"
    and st: "restore_stock e i s0 = Inr ((), s1)" and le: "reverse_ledger b s1 = Inr ((), s2)"
    and fin: "close_void e i a reason b s2 = Inr (out, s')"
    by (auto simp: void_in_def)
  note c = c [unfolded void_checks_Inr]
  then have [simp]: "s0 = s" by blast
  obtain n ms where m: "s1 = s\<lparr>products := stock_moved (qty_of_lines (lines_of s i)) (products s), minted := n,
      movements := movements s @ ms\<rparr>" "\<forall>v \<in> set ms. mv_type v = Mv_Void \<and> mv_ref_id v = Some i" "moves_logged s s1"
    by (rule restore_stock_Inr [OF st [unfolded \<open>s0 = s\<close>]])
  have s2: "sales s2 = sales s" "sale_items s2 = sale_items s" "products s2 = products s1" "movements s2 = movements s1"
    "customers s2 = customers_without b (customers s)" "mechanics s2 = mechanics_without b (mechanics s)"
    by (simp_all add: reverse_ledger_Inr [OF le] m(1))
  have s': "products s' = products s2" "movements s' = movements s2" "customers s' = customers s2"
    "mechanics s' = mechanics s2"
    by (rule tx_fixesD [OF tx_fixes_close_void fin]; simp)+
  have log: "moves_logged s s'"
    by (rule moves_logged_trans [OF m(3)], rule moves_logged_same) (simp_all add: s' s2)
  from c obtain sid where sid: "require_open_shift_id_for (a_device a) s = Inr (sid, s)" "s_shift_id b = Some sid"
    by blast
  have ls: "lines_of s2 i = lines_of s i" by (simp add: lines_of_def s2)
  note z = close_void_Inr [OF fin]
  show thesis
    by (rule that [OF _ _ _ sid _ _ m(2) _ _ _ log]) (use c z in \<open>simp_all add: s' s2 ls m(1)\<close>)
qed

lemma void_in_logged: "void_in e i a reason s = Inr (out, s') \<Longrightarrow> moves_logged s s'"
  by (erule void_in_Inr)

interpretation void_writer: stock_writer "void_in e i a reason" for e i a reason
  by unfold_locales (rule void_in_logged)

lemma sum_by_filter_cong_upd:
  "(\<And>r. r \<in> set rows \<Longrightarrow> q (if p r then g r else r) = q r) \<Longrightarrow> (\<And>r. f (g r) = f r) \<Longrightarrow>
   sum_by f (filter q (upd_where p g rows)) = sum_by f (filter q rows)"
  by (induction rows) auto

lemma void_in_frozen:
  assumes "shifts_ok s" "distinct (map s_id (sales s))" "void_in e i a reason s = Inr (out, s')"
  shows "books_frozen s s'"
  using assms(3)
proof (rule void_in_Inr)
  fix b sid ms
  assume b: "row_of s_id i (sales s) = Some b" "require_open_shift_id_for (a_device a) s = Inr (sid, s)"
    "s_shift_id b = Some sid"
    and sl: "sales s' = upd_where (\<lambda>b. s_id b = i) (mark_voided e reason) (sales s)"
  have fr: "returns s' = returns s" "credit_payments s' = credit_payments s"
    "drawer_entries s' = drawer_entries s" "shifts s' = shifts s"
    by (rule tx_fixesD [OF tx_fixes_void_in assms(3)]; simp)+
  obtain q where q: "q \<in> set (shifts s)" "sh_id q = sid" "is_open (a_device a) q"
    using required.gate_open [OF b(2)] by auto
  have own: "r = b" if "r \<in> set (sales s)" "s_id r = i" for r
    using row_of_unique [OF assms(2) that(1)] that(2) b(1) by simp
  show ?thesis
  proof (rule books_frozenI)
    fix j
    assume "closed_shift s j"
    then have j: "sid \<noteq> j" using open_not_closed [OF assms(1) q(1,3)] q(2) by auto
    have same: "counted_sale s' = counted_sale s" by (rule ext) (simp add: counted_sale_def fr)
    have "cash_sales s' j = cash_sales s j"
      unfolding cash_sales_def sl same
      by (rule sum_by_filter_cong_upd) (use own b(3) j in \<open>auto simp: mark_voided_def\<close>)
    then show "takings s' j = takings s j"
      by (simp add: takings_def cash_credit_payments_def cash_refunds_def drawer_flow_def fr)
  qed (auto simp: fr(4))
qed

section \<open>A bill and its void cancel out\<close>

definition ledger_nonneg :: "db \<Rightarrow> bool" where
  "ledger_nonneg s \<longleftrightarrow> list_all (\<lambda>c. 0 \<le> c_points c \<and> 0 \<le> c_total_spend c) (customers s) \<and>
     list_all (\<lambda>m. 0 \<le> m_total_sales m \<and> 0 \<le> m_total_discount m \<and> 0 \<le> m_total_markup m \<and>
       0 \<le> m_credit_balance m) (mechanics s)"

definition customer_on :: "int \<Rightarrow> int \<Rightarrow> customer \<Rightarrow> customer" where
  "customer_on points amount c = c\<lparr>c_points := max 0 (c_points c + points),
     c_total_spend := max 0 (c_total_spend c + amount)\<rparr>"

lemma apply_customer_upd:
  assumes "apply_customer dto pts s = Inr (x, s')"
  shows "s' = s\<lparr>customers := (case sp_customer_id dto of None \<Rightarrow> customers s
    | Some i \<Rightarrow> upd_where (\<lambda>c. c_id c = i) (customer_on pts (cs_total dto)) (customers s))\<rparr>"
proof -
  have f: "customer_on pts (cs_total dto) = (\<lambda>c. c\<lparr>c_points := max 0 (c_points c + pts),
      c_total_spend := max 0 (c_total_spend c + cs_total dto)\<rparr>)"
    by (rule ext) (simp add: customer_on_def)
  show ?thesis
    using assms row_of_None [of c_id _ "customers s"] unfolding f
    by (auto simp: apply_customer_def constraint_defs Let_def upd_where_missing split: option.splits)
qed

lemma apply_mechanic_upd:
  assumes "apply_mechanic dto s = Inr (x, s')"
  shows "s' = s\<lparr>mechanics := (case sp_mechanic_id dto of None \<Rightarrow> mechanics s
    | Some i \<Rightarrow> upd_where (\<lambda>m. m_id m = i) (sale_on_tab dto) (mechanics s))\<rparr>"
proof (cases "sp_mechanic_id dto")
  case None
  then show ?thesis using assms by (simp add: apply_mechanic_def)
next
  case (Some i)
  then have "move_mechanic i (sale_on_tab dto) s = Inr (x, s')"
    using assms by (simp add: apply_mechanic_def sale_on_tab_def Let_def)
  from move_mechanic_upd [OF this] Some show ?thesis by simp
qed

lemma settle_ledger:
  assumes "settle_sale e dto a ov pts s = Inr ((cust, mech), s')"
  shows "customers s' = (case sp_customer_id dto of None \<Rightarrow> customers s
      | Some i \<Rightarrow> upd_where (\<lambda>c. c_id c = i) (customer_on pts (cs_total dto)) (customers s))"
    "mechanics s' = (case sp_mechanic_id dto of None \<Rightarrow> mechanics s
      | Some i \<Rightarrow> upd_where (\<lambda>m. m_id m = i) (sale_on_tab dto) (mechanics s))"
proof -
  let ?ov = "\<lambda>mech. case ov of None \<Rightarrow> tx_ret () | Some v \<Rightarrow>
    (case mech of None \<Rightarrow> tx_ret () | Some m \<Rightarrow> record_override e dto a v m)"
  obtain s1 s2 s3 where c: "apply_customer dto pts s = Inr (cust, s1)"
    and m: "apply_mechanic dto s1 = Inr (mech, s2)" and o3: "?ov mech s2 = Inr ((), s3)"
    and h: "customers s' = customers s3" "mechanics s' = mechanics s3"
    using assms by (auto simp: settle_sale_def hook_Inr)
  have o: "customers s3 = customers s2" "mechanics s3 = mechanics s2"
    using o3 by (auto split: option.splits dest: record_override_Inr)
  note c = apply_customer_upd [OF c] and m = apply_mechanic_upd [OF m]
  have ms: "mechanics s1 = mechanics s" using arg_cong [OF c, of mechanics] by simp
  show "customers s' = (case sp_customer_id dto of None \<Rightarrow> customers s
      | Some i \<Rightarrow> upd_where (\<lambda>c. c_id c = i) (customer_on pts (cs_total dto)) (customers s))"
    using arg_cong [OF c, of customers] arg_cong [OF m, of customers] by (simp add: h o)
  show "mechanics s' = (case sp_mechanic_id dto of None \<Rightarrow> mechanics s
      | Some i \<Rightarrow> upd_where (\<lambda>m. m_id m = i) (sale_on_tab dto) (mechanics s))"
    using arg_cong [OF m, of mechanics] unfolding h o by (simp add: ms split: option.split)
qed

lemma upd_where_cancel:
  "(\<And>r. r \<in> set rows \<Longrightarrow> p r \<Longrightarrow> p (f r) \<and> g (f r) = r) \<Longrightarrow> upd_where p g (upd_where p f rows) = rows"
  by (induction rows) auto

lemma customer_cancels:
  "0 \<le> c_points c \<Longrightarrow> 0 \<le> c_total_spend c \<Longrightarrow> 0 \<le> n \<Longrightarrow> 0 \<le> t \<Longrightarrow> customer_back n t (customer_on n t c) = c"
  by (simp add: customer_back_def customer_on_def)

lemma mechanic_cancels:
  "0 \<le> m_total_sales m \<Longrightarrow> 0 \<le> m_total_discount m \<Longrightarrow> 0 \<le> m_total_markup m \<Longrightarrow> 0 \<le> m_credit_balance m \<Longrightarrow>
   0 \<le> w \<Longrightarrow> 0 \<le> x \<Longrightarrow> 0 \<le> y \<Longrightarrow> 0 \<le> z \<Longrightarrow>
   mechanic_moved (- w) (- x) (- y) (- z) (mechanic_moved w x y z m) = m"
  by (simp add: mechanic_moved_def)

lemma sale_then_void_mechanic:
  assumes "list_all (\<lambda>m. 0 \<le> m_total_sales m \<and> 0 \<le> m_total_discount m \<and> 0 \<le> m_total_markup m \<and>
       0 \<le> m_credit_balance m) ms" "0 \<le> cs_total dto"
  shows "mechanics_without (sale_row e dto a n pts sid acct) (case sp_mechanic_id dto of None \<Rightarrow> ms
      | Some i \<Rightarrow> upd_where (\<lambda>m. m_id m = i) (sale_on_tab dto) ms) = ms"
proof (cases "sp_mechanic_id dto")
  case (Some i)
  have "bill_off_tab (sale_row e dto a n pts sid acct) (sale_on_tab dto m) = m" if "m \<in> set ms" for m
  proof -
    have "0 \<le> m_total_sales m" "0 \<le> m_total_discount m" "0 \<le> m_total_markup m" "0 \<le> m_credit_balance m"
      using assms(1) that by (auto simp: list_all_iff)
    then show ?thesis
      unfolding bill_off_tab_def sale_on_tab_def Let_def sale_row_def sale.simps
      by (rule mechanic_cancels) (use assms(2) in simp_all)
  qed
  then have "upd_where (\<lambda>m. m_id m = i) (bill_off_tab (sale_row e dto a n pts sid acct))
      (upd_where (\<lambda>m. m_id m = i) (sale_on_tab dto) ms) = ms"
    by (intro upd_where_cancel) simp
  then show ?thesis using Some by (simp add: mechanics_without_def sale_row_def)
qed (simp add: mechanics_without_def sale_row_def)

lemma sale_then_void_customer:
  assumes "list_all (\<lambda>c. 0 \<le> c_points c \<and> 0 \<le> c_total_spend c) cs" "0 \<le> cs_total dto" "0 \<le> pts"
  shows "customers_without (sale_row e dto a n pts sid acct) (case sp_customer_id dto of None \<Rightarrow> cs
      | Some i \<Rightarrow> upd_where (\<lambda>c. c_id c = i) (customer_on pts (cs_total dto)) cs) = cs"
proof (cases "sp_customer_id dto")
  case (Some i)
  have "upd_where (\<lambda>c. c_id c = i) (customer_back pts (cs_total dto))
      (upd_where (\<lambda>c. c_id c = i) (customer_on pts (cs_total dto)) cs) = cs"
    by (rule upd_where_cancel) (use assms in \<open>auto simp: list_all_iff customer_cancels, simp add: customer_on_def\<close>)
  then show ?thesis using Some by (simp add: customers_without_def sale_row_def)
qed (simp add: customers_without_def sale_row_def)

lemma new_lines:
  assumes "sale_items s1 = sale_items s @ new" "list_all2 (stored_line i locked) ls new"
    "lines_have_bill s" "\<not> has_key s_id i (sales s)"
  shows "lines_of s1 i = new" "qty_of_lines new k = sold_qty ls k"
proof -
  have "filter (\<lambda>j. si_sale_id j = i) (sale_items s) = []"
    using assms(3,4) by (auto simp: lines_have_bill_def filter_empty_conv)
  moreover have "filter (\<lambda>j. si_sale_id j = i) new = new"
    using assms(2) by (auto simp: list_all2_conv_all_nth stored_line_def filter_id_conv in_set_conv_nth)
  ultimately show "lines_of s1 i = new" by (simp add: lines_of_def assms(1))
  show "qty_of_lines new k = sold_qty ls k"
    using assms(2) unfolding qty_of_lines_def
    by (induction rule: list_all2_induct) (auto simp: stored_line_def)
qed

lemma stock_moved_back: "stock_moved g (stock_moved (\<lambda>k. - g k) ps) = ps"
  by (simp add: stock_moved_comp)

lemma void_after_create:
  assumes "create_in e dto a s = Inr (r, s1)" "\<not> has_key s_id (sp_id dto) (sales s)" "lines_have_bill s"
    "0 \<le> cs_total dto" "ledger_nonneg s" "void_in e' (sp_id dto) a' reason s1 = Inr (out, s2)"
  shows "products s2 = products s \<and> customers s2 = customers s \<and> mechanics s2 = mechanics s"
  using assms(1)
proof (cases rule: create_in_Inr)
  case (new sid acct ov)
  let ?ds = "aggregate (cs_items dto)"
  let ?pts = "points_for (cs_total dto)"
  from new(4) obtain sa n s0 items vs s5 cust mech where w: "deduct ?ds s = Inr (sa, s0)"
    "products s1 = products s0" "sales s1 = sales s @ [sale_row e dto a n ?pts sid acct]"
    "sale_items s1 = sale_items s @ items"
    "list_all2 (stored_line (sp_id dto) (filter (\<lambda>p. p_id p \<in> set (map dm_product ?ds) \<and> \<not> p_deleted p) (products s)))
       (cs_items dto) items"
    "settle_sale e dto a ov ?pts s5 = Inr ((cust, mech), s1)"
    "customers s5 = customers s" "mechanics s5 = mechanics s"
    by (rule write_sale_Inr)
  let ?b = "sale_row e dto a n ?pts sid acct"
  have b: "row_of s_id (sp_id dto) (sales s1) = Some ?b"
    using assms(2) by (simp add: w(3) row_of_append row_of_None [symmetric] sale_row_def)
  obtain b' where v: "row_of s_id (sp_id dto) (sales s1) = Some b'"
    "products s2 = stock_moved (qty_of_lines (lines_of s1 (sp_id dto))) (products s1)"
    "customers s2 = customers_without b' (customers s1)" "mechanics s2 = mechanics_without b' (mechanics s1)"
    by (rule void_in_Inr [OF assms(6)])
  have b': "b' = ?b" using v(1) b by simp
  have "products s1 = stock_moved (\<lambda>k. - sold_qty (cs_items dto) k) (products s)"
    using create_in_written [OF assms(1,2)] by (simp add: sale_written_def)
  moreover have "qty_of_lines (lines_of s1 (sp_id dto)) = sold_qty (cs_items dto)"
    using new_lines [OF w(4,5) assms(3,2)] by auto
  ultimately have "products s2 = products s" using v(2) stock_moved_back by simp
  moreover have "customers s2 = customers s"
    unfolding v(3) b' settle_ledger(1) [OF w(6)] w(7)
    by (rule sale_then_void_customer) (use assms(4,5) points_for_nonneg in \<open>auto simp: ledger_nonneg_def\<close>)
  moreover have "mechanics s2 = mechanics s"
    unfolding v(4) b' settle_ledger(2) [OF w(6)] w(8)
    by (rule sale_then_void_mechanic) (use assms(4,5) in \<open>auto simp: ledger_nonneg_def\<close>)
  ultimately show ?thesis by simp
qed (use assms(2) in simp)

section \<open>Properties\<close>

text \<open>
  C3. A bill followed by its void leaves no trace on the shelf or in the ledger: every product,
  every customer and every mechanic is back to exactly what it was before the sale.
\<close>

theorem void_undoes_sale:
  assumes "create_in e dto a s = Inr (r, s1)" "\<not> has_key s_id (sp_id dto) (sales s)" "lines_have_bill s"
    "0 \<le> cs_total dto" "ledger_nonneg s" "void_in e' (sp_id dto) a' reason s1 = Inr (out, s2)"
  shows "products s2 = products s \<and> customers s2 = customers s \<and> mechanics s2 = mechanics s"
  using void_after_create assms by blast

lemmas void_defs = void_in_def void_checks_def restore_stock_def sold_groups_def restore_product_def
  reverse_ledger_def take_customer_back_def close_void_def by_id_in_def attach_items_def lines_of_def
  qty_of_lines_def insert_audit_def mark_voided_def

lemma sample_void_runs: "\<exists>r s1 out s2. create_in sample_env sample_bill sample_actor sample_shop = Inr (r, s1) \<and>
    void_in sample_env (sp_id sample_bill) sample_actor ''typo'' s1 = Inr (out, s2)"
  by (simp add: void_defs sale_defs sample_bill_def sample_actor_def sample_shop_def sample_totals Let_def
      is_open_def is_current_def MAX_DOC_NO_def points_for_exact INT4_MAX_def mv_ref_key_def)

theorem void_undoes_sale_witness:
  "\<exists>r s1 out s2. create_in sample_env sample_bill sample_actor sample_shop = Inr (r, s1) \<and>
     void_in sample_env (sp_id sample_bill) sample_actor ''typo'' s1 = Inr (out, s2) \<and>
     products s2 = products sample_shop \<and> mechanics s2 = mechanics sample_shop"
proof -
  obtain r s1 out s2 where run: "create_in sample_env sample_bill sample_actor sample_shop = Inr (r, s1)"
    "void_in sample_env (sp_id sample_bill) sample_actor ''typo'' s1 = Inr (out, s2)"
    using sample_void_runs by blast
  have "0 \<le> cs_total sample_bill" "ledger_nonneg sample_shop"
    by (simp_all add: sample_bill_def ledger_nonneg_def sample_shop_def)
  then show ?thesis using void_undoes_sale [OF run(1) sample_shop_fresh(1,2) _ _ run(2)] run by blast
qed

text \<open>
  C35. A void that commits was allowed: the bill was on file, not yet voided, had no credit note
  against it and was stamped with an open drawer of the caller's own device. It puts back exactly
  what the bill's lines sold, logs the move under the bill, marks only that bill, and a second void
  of the same bill is refused as already voided, whoever asks.
\<close>

theorem void_once_from_open_drawer:
  assumes "void_in e i a reason s = Inr (out, s')"
  shows "\<exists>b q. row_of s_id i (sales s) = Some b \<and> \<not> s_voided b \<and> \<not> has_key r_sale_id i (returns s) \<and>
      q \<in> set (shifts s) \<and> is_open (a_device a) q \<and> s_shift_id b = Some (sh_id q) \<and>
      products s' = stock_moved (qty_of_lines (lines_of s i)) (products s) \<and>
      moves_logged s s' \<and>
      sales s' = upd_where (\<lambda>b. s_id b = i) (mark_voided e reason) (sales s) \<and>
      returns s' = returns s \<and> shifts s' = shifts s \<and> sale_items s' = sale_items s \<and>
      so_header out = mark_voided e reason b \<and>
      void_in e' i a' reason' s' = Inl sale_voided"
  using assms
proof (rule void_in_Inr)
  fix b sid ms
  assume b: "row_of s_id i (sales s) = Some b" "\<not> s_voided b" "\<not> has_key r_sale_id i (returns s)"
    "require_open_shift_id_for (a_device a) s = Inr (sid, s)" "s_shift_id b = Some sid"
    and w: "products s' = stock_moved (qty_of_lines (lines_of s i)) (products s)" "moves_logged s s'"
      "sales s' = upd_where (\<lambda>b. s_id b = i) (mark_voided e reason) (sales s)"
      "so_header out = mark_voided e reason b"
  obtain q where q: "q \<in> set (shifts s)" "sh_id q = sid" "is_open (a_device a) q"
    using required.gate_open [OF b(4)] by auto
  have fr: "returns s' = returns s" "shifts s' = shifts s" "sale_items s' = sale_items s"
    by (rule tx_fixesD [OF tx_fixes_void_in assms]; simp)+
  have "row_of s_id i (upd_where (\<lambda>b. s_id b = i) (mark_voided e reason) bs) =
      map_option (mark_voided e reason) (row_of s_id i bs)" for bs
    by (induction bs) (auto simp: mark_voided_def)
  then have "row_of s_id i (sales s') = Some (mark_voided e reason b)" using b(1) w(3) by simp
  then have "void_in e' i a' reason' s' = Inl sale_voided"
    by (simp add: void_in_def void_checks_def tx_bind_def mark_voided_def)
  with b q w fr show ?thesis by (intro exI [of _ b] exI [of _ q]) simp
qed

theorem void_once_from_open_drawer_witness:
  "\<exists>r s1 out s2. create_in sample_env sample_bill sample_actor sample_shop = Inr (r, s1) \<and>
     void_in sample_env (sp_id sample_bill) sample_actor ''typo'' s1 = Inr (out, s2) \<and>
     void_in sample_env (sp_id sample_bill) sample_actor ''again'' s2 = Inl sale_voided"
proof -
  obtain r s1 out s2 where run: "create_in sample_env sample_bill sample_actor sample_shop = Inr (r, s1)"
    "void_in sample_env (sp_id sample_bill) sample_actor ''typo'' s1 = Inr (out, s2)"
    using sample_void_runs by blast
  then show ?thesis using void_once_from_open_drawer [OF run(2)] by blast
qed

end
