(* ===== verification/Returns.thy ===== *)
theory Returns
  imports Returns_Dto Void_Sale
begin

text \<open>
  The credit note (\<open>returns/returns.service.ts\<close>): the replay, the over-refund guard, the money,
  the drawer stamp, the document, the stock put back, the ledger reversed in proportion and the
  bill voided once every unit is back.
\<close>

section \<open>What is asked, what was sold, what is already back\<close>

record return_demand =
  rd_product :: uuid
  rd_qty :: int
  rd_price :: int
  rd_original_qty :: "int option"
  rd_name :: string

text \<open>One demand per product and price, in the order the lines are first asked for.\<close>

definition aggregate_return :: "return_line list \<Rightarrow> return_demand list" where
  "aggregate_return ls = map (\<lambda>(p, n). let mine = filter (\<lambda>l. rl_product_id l = p \<and> rl_price l = n) ls in
       \<lparr>rd_product = p, rd_qty = sum_by rl_qty mine, rd_price = n,
        rd_original_qty = rl_original_qty (hd mine), rd_name = rl_name (hd mine)\<rparr>)
     (first_seen (map (\<lambda>l. (rl_product_id l, rl_price l)) ls))"

text \<open>What one product and price of the bill sold as.\<close>

record sold_group =
  sg_product :: uuid
  sg_price :: int
  sg_qty :: int
  sg_cost :: "int option"

definition sold_group_of :: "sale_item list \<Rightarrow> uuid \<times> int \<Rightarrow> sold_group" where
  "sold_group_of ls = (\<lambda>(p, n). let mine = filter (\<lambda>l. si_product_id l = p \<and> si_price l = n) ls in
     \<lparr>sg_product = p, sg_price = n, sg_qty = sum_by si_qty mine,
      sg_cost = si_cost_at_sale (hd (sort_key si_line_no mine))\<rparr>)"

text \<open>\<open>GROUP BY product_id, price ORDER BY product_id, price\<close>, the sums cast to \<open>int\<close>.\<close>

definition sold_lines :: "uuid \<Rightarrow> sold_group list op" where
  "sold_lines i =
     tx_bind (tx_get (\<lambda>s. lines_of s i)) (\<lambda>ls.
     tx_mapM (\<lambda>k. tx_bind (int4 (sg_qty (sold_group_of ls k))) (\<lambda>_. tx_ret (sold_group_of ls k)))
       (sort_key fst (sort_key snd (first_seen (map (\<lambda>l. (si_product_id l, si_price l)) ls)))))"

abbreviation sg_key :: "sold_group \<Rightarrow> uuid \<times> int" where
  "sg_key g \<equiv> (sg_product g, sg_price g)"

definition sold_of_product :: "sold_group list \<Rightarrow> uuid \<Rightarrow> int" where
  "sold_of_product sold p = sum_by sg_qty (filter (\<lambda>g. sg_product g = p) sold)"

definition returned_qty_at :: "return_item list \<Rightarrow> uuid \<times> int \<Rightarrow> int" where
  "returned_qty_at ls k = sum_by ri_qty (filter (\<lambda>l. (ri_product_id l, ri_price l) = k) ls)"

definition refunded_so_far :: "uuid \<Rightarrow> ((uuid \<times> int) \<times> int) list op" where
  "refunded_so_far i =
     tx_bind (tx_get (\<lambda>s. returned_lines s i)) (\<lambda>ls.
     tx_mapM (\<lambda>k. tx_bind (int4 (returned_qty_at ls k)) (\<lambda>_. tx_ret (k, returned_qty_at ls k)))
       (first_seen (map (\<lambda>l. (ri_product_id l, ri_price l)) ls)))"

definition refunded_at :: "((uuid \<times> int) \<times> int) list \<Rightarrow> uuid \<times> int \<Rightarrow> int" where
  "refunded_at rf k = (case map_of rf k of None \<Rightarrow> 0 | Some q \<Rightarrow> q)"

definition refunded_of_product :: "((uuid \<times> int) \<times> int) list \<Rightarrow> uuid \<Rightarrow> int" where
  "refunded_of_product rf p = sum_by snd (filter (\<lambda>x. fst (fst x) = p) rf)"

section \<open>The guard\<close>

definition mispriced :: "return_demand list \<Rightarrow> sold_group list \<Rightarrow> return_demand list" where
  "mispriced ds sold = filter (\<lambda>d. rd_product d \<in> sg_product ` set sold \<and>
     (rd_product d, rd_price d) \<notin> sg_key ` set sold) ds"

definition return_price_mismatch :: "return_demand list \<Rightarrow> sold_group list \<Rightarrow> err" where
  "return_price_mismatch bad sold = HttpErr 409 ''RETURN_PRICE_MISMATCH'' (PriceLines
     (map (\<lambda>d. (rd_product d, rd_price d, map sg_price (filter (\<lambda>g. sg_product g = rd_product d) sold))) bad))"

text \<open>How many more units of a demand's product and price the bill can give back.\<close>

definition remaining_for :: "sold_group list \<Rightarrow> ((uuid \<times> int) \<times> int) list \<Rightarrow> return_demand \<Rightarrow> int option" where
  "remaining_for sold rf d =
     (case row_of sg_key (rd_product d, rd_price d) sold of
        None \<Rightarrow> None
      | Some g \<Rightarrow> Some (min (sg_qty g - refunded_at rf (rd_product d, rd_price d))
          (sold_of_product sold (rd_product d) - refunded_of_product rf (rd_product d))))"

text \<open>
  The lines of the refusal: its message names each demand with what is left and what was asked,
  or says the bill does not have it.
\<close>

definition over_refund_lines :: "return_demand list \<Rightarrow> sold_group list \<Rightarrow> ((uuid \<times> int) \<times> int) list \<Rightarrow>
    (string \<times> int option \<times> int) list" where
  "over_refund_lines ds sold rf = concat (map (\<lambda>d.
     case remaining_for sold rf d of
       None \<Rightarrow> [(rd_name d, None, rd_qty d)]
     | Some left \<Rightarrow> if left < rd_qty d then [(rd_name d, Some left, rd_qty d)] else []) ds)"

definition over_refund :: "(string \<times> int option \<times> int) list \<Rightarrow> err" where
  "over_refund ls = HttpErr 409 ''OVER_REFUND'' (RefundLines ls)"

definition assert_refundable :: "return_demand list \<Rightarrow> sold_group list \<Rightarrow> ((uuid \<times> int) \<times> int) list \<Rightarrow> err + unit" where
  "assert_refundable ds sold rf =
     (let bad = mispriced ds sold in
      if bad \<noteq> [] then Inl (return_price_mismatch bad sold)
      else let ls = over_refund_lines ds sold rf in
        if ls \<noteq> [] then Inl (over_refund ls) else Inr ())"

section \<open>The money\<close>

record refund_amounts =
  ra_subtotal :: int
  ra_discount :: int
  ra_total :: int
  ra_sale_total :: int

text \<open>
  The sum runs in doubles, and so does the share; both are whole numbers of satang, and past the
  range where doubles are exact the header's column refuses the amount anyway.
\<close>

definition refund_amounts_for :: "return_demand list \<Rightarrow> sale \<Rightarrow> refund_amounts" where
  "refund_amounts_for ds b =
     (let sub = \<lfloor>computed_subtotal (map (\<lambda>d. (rd_qty d, rd_price d)) ds)\<rfloor>;
          disc = (if 0 < s_subtotal b then round_mul_div sub (s_discount b) (s_subtotal b) else 0) in
      \<lparr>ra_subtotal = sub, ra_discount = disc, ra_total = sub - disc, ra_sale_total = s_total b\<rparr>)"

section \<open>Before the first write\<close>

definition lock_sale_for_return :: "uuid \<Rightarrow> sale op" where
  "lock_sale_for_return i =
     tx_bind (tx_get (\<lambda>s. row_of s_id i (sales s))) (\<lambda>row.
     case row of
       None \<Rightarrow> tx_throw sale_not_found
     | Some b \<Rightarrow> tx_bind (tx_guard (\<not> s_voided b) sale_voided) (\<lambda>_. tx_ret b))"

definition refund_method_not_allowed :: err where
  "refund_method_not_allowed = HttpErr 409 ''REFUND_METHOD_NOT_ALLOWED'' NoDetail"

definition return_checks :: "'a create_return_scheme \<Rightarrow> (sale \<times> sold_group list) op" where
  "return_checks dto =
     tx_bind (lock_sale_for_return (rt_sale_id dto)) (\<lambda>b.
     tx_bind (tx_guard (\<not> (rt_refund_method dto = Deduct_From_Credit \<and> s_mechanic_id b = None))
                refund_method_not_allowed) (\<lambda>_.
     tx_bind (sold_lines (rt_sale_id dto)) (\<lambda>sold.
     tx_bind (refunded_so_far (rt_sale_id dto)) (\<lambda>rf.
     tx_bind (tx_lift (assert_refundable (aggregate_return (rt_items dto)) sold rf)) (\<lambda>_.
     tx_ret (b, sold))))))"

text \<open>A cash refund needs the device's open drawer; any other takes its stamp if there is one.\<close>

definition return_shift :: "pay_method \<Rightarrow> uuid \<Rightarrow> uuid option op" where
  "return_shift meth dev =
     (if meth = Cash_Method then tx_bind (require_open_shift_id_for dev) (\<lambda>i. tx_ret (Some i))
      else current_shift_id_for dev)"

section \<open>The document\<close>

definition return_row :: "env \<Rightarrow> 'a return_write_scheme \<Rightarrow> uuid \<Rightarrow> string \<Rightarrow> sale \<Rightarrow> refund_amounts \<Rightarrow> uuid option \<Rightarrow>
    credit_note" where
  "return_row e dto i cn b money shift_id =
     \<lparr>r_id = i, r_cn_no = cn, r_sale_id = rt_sale_id dto, r_receipt_no = s_receipt_no b,
      r_refund_subtotal = ra_subtotal money, r_refund_discount = ra_discount money,
      r_refund_total = ra_total money, r_refund_method = rt_refund_method dto, r_reason = rt_reason dto,
      r_customer_id = s_customer_id b, r_mechanic_id = s_mechanic_id b, r_mechanic_name = s_mechanic_name b,
      r_date = (case rw_date dto of None \<Rightarrow> now e | Some t \<Rightarrow> t), r_shift_id = shift_id\<rparr>"

definition map_return_errors :: "uuid \<Rightarrow> err \<Rightarrow> err" where
  "map_return_errors i x =
     (case x of
        DbErr code name \<Rightarrow>
          if code = ''23505'' \<and> is_infix ''cn_no'' name then HttpErr 409 ''RECEIPT_NO_CONFLICT'' NoDetail
          else if code = ''23505'' then client_id_reused ''return.create'' i
          else x
      | _ \<Rightarrow> x)"

definition insert_return :: "credit_note \<Rightarrow> unit op" where
  "insert_return r = map_db_err (map_return_errors (r_id r)) (insert_return_row r)"

text \<open>The lines, numbered from 1, each with the cost its product and price left the shop at.\<close>

definition return_item_row :: "uuid \<Rightarrow> sold_group list \<Rightarrow> nat \<times> return_demand \<Rightarrow> return_item" where
  "return_item_row i sold = (\<lambda>(n, d).
     \<lparr>ri_return_id = i, ri_line_no = int n + 1, ri_product_id = rd_product d, ri_name = rd_name d,
      ri_qty = rd_qty d, ri_price = rd_price d, ri_original_qty = rd_original_qty d,
      ri_cost_at_sale = (case row_of sg_key (rd_product d, rd_price d) sold of
         None \<Rightarrow> None | Some g \<Rightarrow> sg_cost g)\<rparr>)"

definition insert_return_lines :: "uuid \<Rightarrow> return_demand list \<Rightarrow> sold_group list \<Rightarrow> return_item list op" where
  "insert_return_lines i ds sold =
     tx_mapM (\<lambda>x. tx_bind (insert_return_item (return_item_row i sold x)) (\<lambda>_. tx_ret (return_item_row i sold x)))
       (zip [0..<length ds] ds)"

text \<open>One log row per product, whatever the prices.\<close>

definition return_groups :: "return_demand list \<Rightarrow> (uuid \<times> int) list" where
  "return_groups ds = map (\<lambda>p. (p, sum_by rd_qty (filter (\<lambda>d. rd_product d = p) ds)))
     (first_seen (map rd_product ds))"

definition restore_returned :: "env \<Rightarrow> uuid \<Rightarrow> return_demand list \<Rightarrow> movement list op" where
  "restore_returned e i ds =
     tx_bind (tx_mapM (restore_product e Mv_Return i None) (return_groups ds)) (\<lambda>vs.
     tx_ret (concat (map (\<lambda>v. case v of None \<Rightarrow> [] | Some w \<Rightarrow> [w]) vs)))"

section \<open>The ledger, in proportion\<close>

definition points_to_reverse :: "sale \<Rightarrow> refund_amounts \<Rightarrow> int" where
  "points_to_reverse b money =
     (let base = (if 0 < s_points_granted b then s_points_granted b else points_for (ra_sale_total money)) in
      if 0 < ra_sale_total money then floor_mul_div base (ra_total money) (ra_sale_total money) else 0)"

definition reverse_customer :: "sale \<Rightarrow> refund_amounts \<Rightarrow> customer_after option op" where
  "reverse_customer b money =
     (case s_customer_id b of
        None \<Rightarrow> tx_ret None
      | Some c \<Rightarrow>
          tx_bind (take_customer_back c (points_to_reverse b money) (ra_total money)) (\<lambda>_.
          tx_get (\<lambda>s. map_option customer_out (row_of c_id c (customers s)))))"

definition in_proportion :: "refund_amounts \<Rightarrow> int \<Rightarrow> int" where
  "in_proportion money n =
     (if 0 < ra_sale_total money then round_mul_div n (ra_total money) (ra_sale_total money) else 0)"

text \<open>
  The discount is assigned, from the base its row showed under the lock, the legacy
  \<open>total_credit\<close> where \<open>total_discount\<close> is zero.
\<close>

definition mechanic_refunded :: "sale \<Rightarrow> pay_method \<Rightarrow> refund_amounts \<Rightarrow> int \<Rightarrow> mechanic \<Rightarrow> mechanic" where
  "mechanic_refunded b meth money base m =
     (let delta = (case s_mechanic_delta b of None \<Rightarrow> 0 | Some d \<Rightarrow> d);
          reverse_credit = (if delta < 0 then in_proportion money (- delta) else 0);
          reverse_markup = (if 0 < delta then in_proportion money delta else 0);
          reduce_balance = (if meth = Deduct_From_Credit then ra_total money else 0) in
      m\<lparr>m_total_sales := max 0 (m_total_sales m - ra_total money),
        m_total_discount := max 0 (base - reverse_credit),
        m_total_markup := max 0 (m_total_markup m - reverse_markup),
        m_credit_balance := max 0 (m_credit_balance m - reduce_balance)\<rparr>)"

definition reverse_mechanic :: "sale \<Rightarrow> mechanic option \<Rightarrow> pay_method \<Rightarrow> refund_amounts \<Rightarrow> mechanic_after option op" where
  "reverse_mechanic b locked meth money =
     (case (s_mechanic_id b, locked) of
        (Some i, Some m) \<Rightarrow>
          let base = (if m_total_discount m \<noteq> 0 then m_total_discount m else m_total_credit m) in
          tx_bind (move_mechanic i (mechanic_refunded b meth money base)) (\<lambda>r. tx_ret (map_option mechanic_out r))
      | _ \<Rightarrow> tx_ret None)"

section \<open>The bill voided by its last unit\<close>

definition void_by_return :: "env \<Rightarrow> sale \<Rightarrow> sale" where
  "void_by_return e b = b\<lparr>s_voided := True, s_voided_at := Some (now e)\<rparr>"

definition auto_void :: "env \<Rightarrow> uuid \<Rightarrow> sold_group list \<Rightarrow> bool op" where
  "auto_void e i sold =
     tx_bind (refunded_so_far i) (\<lambda>rf.
     if sum_by snd rf < sum_by sg_qty sold then tx_ret False
     else tx_bind (tx_modify (\<lambda>s. s\<lparr>sales := upd_where (\<lambda>b. s_id b = i) (void_by_return e) (sales s)\<rparr>)) (\<lambda>_.
          tx_ret True))"

section \<open>The replay\<close>

record create_return_result =
  cn_note :: credit_note
  cn_items :: "return_item list"
  cn_sale_voided :: bool
  cn_products :: "(uuid \<times> int) list"
  cn_movements :: "movement list"
  cn_customer_after :: "customer_after option"
  cn_balance_after :: "string option"
  cn_mechanic_after :: "mechanic_after option"

definition same_lines :: "return_item list \<Rightarrow> return_demand list \<Rightarrow> bool" where
  "same_lines ls ds \<longleftrightarrow> length ls = length ds \<and>
     list_all (\<lambda>(l, d). ri_product_id l = rd_product d \<and> ri_qty l = rd_qty d \<and> ri_price l = rd_price d) (zip ls ds)"

definition notes_lines :: "db \<Rightarrow> uuid \<Rightarrow> return_item list" where
  "notes_lines s i = filter (\<lambda>l. ri_return_id l = i) (return_items s)"

definition return_movements_of :: "db \<Rightarrow> uuid \<Rightarrow> uuid list \<Rightarrow> movement list" where
  "return_movements_of s i ids = concat (map (\<lambda>k.
     case row_of mv_product_id k (filter (\<lambda>v. mv_type v = Mv_Return \<and> mv_ref_id v = Some i) (movements s)) of
       None \<Rightarrow> [] | Some v \<Rightarrow> [v]) ids)"

definition existing_return :: "uuid \<Rightarrow> 'a create_return_scheme \<Rightarrow> create_return_result option op" where
  "existing_return i dto =
     tx_bind (tx_get id) (\<lambda>s.
     case row_of r_id i (returns s) of
       None \<Rightarrow> tx_ret None
     | Some r \<Rightarrow>
         let ls = sort_key ri_line_no (notes_lines s i); ds = aggregate_return (rt_items dto) in
         tx_bind (tx_guard (r_sale_id r = rt_sale_id dto \<and> r_refund_method r = rt_refund_method dto \<and> same_lines ls ds)
                    (client_id_reused ''return.create'' i)) (\<lambda>_.
         let ids = first_seen (map rd_product ds);
             cust = (case r_customer_id r of None \<Rightarrow> None | Some c \<Rightarrow> row_of c_id c (customers s));
             mech = map_option mechanic_out
               (case r_mechanic_id r of None \<Rightarrow> None | Some m \<Rightarrow> row_of m_id m (mechanics s)) in
         tx_ret (Some
           \<lparr>cn_note = r, cn_items = ls,
            cn_sale_voided = (case row_of s_id (r_sale_id r) (sales s) of None \<Rightarrow> False | Some b \<Rightarrow> s_voided b),
            cn_products = stock_of s ids, cn_movements = return_movements_of s i ids,
            cn_customer_after = map_option customer_out cust,
            cn_balance_after = map_option ma_credit_balance mech, cn_mechanic_after = mech\<rparr>)))"

section \<open>The transaction\<close>

text \<open>The ledger, the bill and the hooks.\<close>

definition settle_return :: "env \<Rightarrow> 'a return_write_scheme \<Rightarrow> uuid \<Rightarrow> sale \<Rightarrow> mechanic option \<Rightarrow> refund_amounts \<Rightarrow>
    sold_group list \<Rightarrow> (customer_after option \<times> mechanic_after option \<times> bool) op" where
  "settle_return e dto i b mech money sold =
     tx_bind (reverse_customer b money) (\<lambda>cust.
     tx_bind (reverse_mechanic b mech (rt_refund_method dto) money) (\<lambda>m.
     tx_bind (auto_void e (rt_sale_id dto) sold) (\<lambda>voided.
     tx_bind (add_hook (Invalidate ''products'')) (\<lambda>_.
     tx_bind (if s_customer_id b \<noteq> None then add_hook (Invalidate ''customers'') else tx_ret ()) (\<lambda>_.
     tx_bind (if s_mechanic_id b \<noteq> None then add_hook (Invalidate ''mechanics'') else tx_ret ()) (\<lambda>_.
     tx_bind (add_hook (Record_Document ''return'')) (\<lambda>_.
     tx_bind (add_hook (Enqueue ''return-created'' i)) (\<lambda>_.
     tx_ret (cust, m, voided)))))))))"

text \<open>Everything after the number is issued.\<close>

definition file_return :: "env \<Rightarrow> 'a return_write_scheme \<Rightarrow> sale \<Rightarrow> sold_group list \<Rightarrow> uuid option \<Rightarrow> mechanic option \<Rightarrow>
    string \<Rightarrow> uuid \<Rightarrow> create_return_result op" where
  "file_return e dto b sold shift_id mech cn i =
     (let ds = aggregate_return (rt_items dto); money = refund_amounts_for ds b;
          r = return_row e dto i cn b money shift_id in
      tx_bind (insert_return r) (\<lambda>_.
      tx_bind (insert_return_lines i ds sold) (\<lambda>items.
      tx_bind (restore_returned e i ds) (\<lambda>mvs.
      tx_bind (settle_return e dto i b mech money sold) (\<lambda>(cust, m, voided).
      tx_ret \<lparr>cn_note = r, cn_items = items, cn_sale_voided = voided,
        cn_products = map (\<lambda>v. (mv_product_id v, mv_stock_after v)) mvs, cn_movements = mvs,
        cn_customer_after = cust, cn_balance_after = map_option ma_credit_balance m, cn_mechanic_after = m\<rparr>)))))"

definition return_new :: "env \<Rightarrow> 'a return_write_scheme \<Rightarrow> actor \<Rightarrow> create_return_result op" where
  "return_new e dto a =
     tx_bind (return_checks dto) (\<lambda>(b, sold).
     tx_bind (return_shift (rt_refund_method dto) (a_device a)) (\<lambda>shift_id.
     tx_bind (tx_get (\<lambda>s. case s_mechanic_id b of None \<Rightarrow> None | Some m \<Rightarrow> row_of m_id m (mechanics s))) (\<lambda>mech.
     tx_bind (resolve_doc_number e (a_device a) Cn (rt_cn_no dto)) (\<lambda>cn.
     tx_bind (case rt_id dto of None \<Rightarrow> fresh_id e | Some i \<Rightarrow> tx_ret i) (\<lambda>i.
     file_return e dto b sold shift_id mech cn i)))))"

definition return_in :: "env \<Rightarrow> 'a return_write_scheme \<Rightarrow> actor \<Rightarrow> create_return_result op" where
  "return_in e dto a =
     tx_bind (case rt_id dto of None \<Rightarrow> tx_ret None | Some i \<Rightarrow> existing_return i dto) (\<lambda>existing.
     case existing of Some r \<Rightarrow> tx_ret r | None \<Rightarrow> return_new e dto a)"

section \<open>A page of credit notes\<close>

record return_list_query =
  rq_sale_id :: "uuid option"
  rq_from :: "int option"
  rq_to :: "int option"
  rq_page :: nat
  rq_limit :: nat

definition return_matches :: "return_list_query \<Rightarrow> credit_note \<Rightarrow> bool" where
  "return_matches q r \<longleftrightarrow>
     (case rq_sale_id q of None \<Rightarrow> True | Some i \<Rightarrow> r_sale_id r = i) \<and>
     (case rq_from q of None \<Rightarrow> True | Some t \<Rightarrow> t \<le> r_date r) \<and>
     (case rq_to q of None \<Rightarrow> True | Some t \<Rightarrow> r_date r \<le> t)"

definition return_list_in :: "return_list_query \<Rightarrow> ((credit_note \<times> return_item list) list \<times> nat) op" where
  "return_list_in q =
     tx_bind (tx_get (\<lambda>s. filter (return_matches q) (returns s))) (\<lambda>found.
     tx_bind (tx_get (\<lambda>s. map (\<lambda>r. (r, sort_key ri_line_no (notes_lines s (r_id r))))
       (take (rq_limit q) (drop ((rq_page q - 1) * rq_limit q)
          (rev (sort_key r_date (sort_key r_id found))))))) (\<lambda>os.
     tx_ret (os, length found)))"

end
