(* ===== verification/Returns_Facts.thy ===== *)
theory Returns_Facts
  imports Returns
begin

text \<open>
  What a credit note guarantees: what the guard lets through, what is written, the goods and the
  money that can come back, the bill voided by its last unit and the drawer's books.
\<close>

section \<open>Frames\<close>

lemma tx_fixes_groups [tx_fix]: "tx_fixes f (sold_lines i)" "tx_fixes f (refunded_so_far i)"
  unfolding sold_lines_def refunded_so_far_def by (intro tx_fix)+

lemma tx_fixes_return_checks [tx_fix]: "tx_fixes f (return_checks dto)"
  unfolding return_checks_def lock_sale_for_return_def by (intro tx_fix)

lemma tx_fixes_return_shift [tx_fix]: "tx_fixes f (return_shift meth dev)"
  unfolding return_shift_def by (intro tx_fix required.gate_fixes optional_gate.gate_fixes)

lemma tx_fixes_existing_return [tx_fix]: "tx_fixes f (existing_return i dto)"
  unfolding existing_return_def Let_def by (intro tx_fix)

lemma tx_fixes_insert_return [tx_fix]:
  "(\<And>s x. f (s\<lparr>returns := x\<rparr>) = f s) \<Longrightarrow> tx_fixes f (insert_return r)"
  unfolding insert_return_def by (intro tx_fix; simp)

lemma tx_fixes_insert_return_lines [tx_fix]:
  "(\<And>s x. f (s\<lparr>return_items := x\<rparr>) = f s) \<Longrightarrow> tx_fixes f (insert_return_lines i ds sold)"
  unfolding insert_return_lines_def by (intro tx_fix; simp)

lemma tx_fixes_restore_returned [tx_fix]:
  assumes "\<And>s x. f (s\<lparr>products := x\<rparr>) = f s" "\<And>s x. f (s\<lparr>movements := x\<rparr>) = f s"
    "\<And>s x. f (s\<lparr>minted := x\<rparr>) = f s"
  shows "tx_fixes f (restore_returned e i ds)"
  unfolding restore_returned_def by (intro tx_fix; simp add: assms)

lemma tx_fixes_reverse [tx_fix]:
  "(\<And>s x. f (s\<lparr>customers := x\<rparr>) = f s) \<Longrightarrow> tx_fixes f (reverse_customer b money)"
  "(\<And>s x. f (s\<lparr>mechanics := x\<rparr>) = f s) \<Longrightarrow> tx_fixes f (reverse_mechanic b m meth money)"
  "(\<And>s x. f (s\<lparr>sales := x\<rparr>) = f s) \<Longrightarrow> tx_fixes f (auto_void e i sold)"
proof -
  show "(\<And>s x. f (s\<lparr>customers := x\<rparr>) = f s) \<Longrightarrow> tx_fixes f (reverse_customer b money)"
    unfolding reverse_customer_def take_customer_back_def by (intro tx_fix; simp)
  show "(\<And>s x. f (s\<lparr>mechanics := x\<rparr>) = f s) \<Longrightarrow> tx_fixes f (reverse_mechanic b m meth money)"
    unfolding reverse_mechanic_def prod.case by (intro tx_fix; simp)
  show "(\<And>s x. f (s\<lparr>sales := x\<rparr>) = f s) \<Longrightarrow> tx_fixes f (auto_void e i sold)"
    unfolding auto_void_def by (intro tx_fix; simp)
qed

lemma tx_fixes_settle_return [tx_fix]:
  assumes "\<And>s x. f (s\<lparr>customers := x\<rparr>) = f s" "\<And>s x. f (s\<lparr>mechanics := x\<rparr>) = f s"
    "\<And>s x. f (s\<lparr>sales := x\<rparr>) = f s" "\<And>s x. f (s\<lparr>hooks := x\<rparr>) = f s"
  shows "tx_fixes f (settle_return e dto i b mech money sold)"
  unfolding settle_return_def by (intro tx_fix; simp add: assms)

lemma tx_fixes_file_return [tx_fix]:
  assumes "\<And>s x. f (s\<lparr>customers := x\<rparr>) = f s" "\<And>s x. f (s\<lparr>mechanics := x\<rparr>) = f s"
    "\<And>s x. f (s\<lparr>sales := x\<rparr>) = f s" "\<And>s x. f (s\<lparr>hooks := x\<rparr>) = f s"
    "\<And>s x. f (s\<lparr>returns := x\<rparr>) = f s" "\<And>s x. f (s\<lparr>return_items := x\<rparr>) = f s"
    "\<And>s x. f (s\<lparr>products := x\<rparr>) = f s" "\<And>s x. f (s\<lparr>movements := x\<rparr>) = f s"
    "\<And>s x. f (s\<lparr>minted := x\<rparr>) = f s"
  shows "tx_fixes f (file_return e dto b sold sid mech cn i)"
  unfolding file_return_def Let_def by (intro tx_fix; simp add: assms)

lemma tx_fixes_return_in [tx_fix]:
  assumes "\<And>s x. f (s\<lparr>customers := x\<rparr>) = f s" "\<And>s x. f (s\<lparr>mechanics := x\<rparr>) = f s"
    "\<And>s x. f (s\<lparr>sales := x\<rparr>) = f s" "\<And>s x. f (s\<lparr>hooks := x\<rparr>) = f s"
    "\<And>s x. f (s\<lparr>returns := x\<rparr>) = f s" "\<And>s x. f (s\<lparr>return_items := x\<rparr>) = f s"
    "\<And>s x. f (s\<lparr>products := x\<rparr>) = f s" "\<And>s x. f (s\<lparr>movements := x\<rparr>) = f s"
    "\<And>s x. f (s\<lparr>minted := x\<rparr>) = f s" "\<And>s x. f (s\<lparr>doc_counters := x\<rparr>) = f s"
  shows "tx_fixes f (return_in e dto a)"
  unfolding return_in_def return_new_def by (intro tx_fix; simp add: assms)

section \<open>Groups\<close>

definition sold_at :: "db \<Rightarrow> uuid \<Rightarrow> uuid \<times> int \<Rightarrow> int" where
  "sold_at s i k = sum_by si_qty (filter (\<lambda>l. (si_product_id l, si_price l) = k) (lines_of s i))"

definition returned_at :: "db \<Rightarrow> uuid \<Rightarrow> uuid \<times> int \<Rightarrow> int" where
  "returned_at s i k = returned_qty_at (returned_lines s i) k"

lemma guarded_loop_Inr: "tx_mapM (\<lambda>k. tx_bind (int4 (g k)) (\<lambda>_. tx_ret (f k))) ks s = Inr (xs, s') \<Longrightarrow>
    s' = s \<and> xs = map f ks"
  by (induction ks arbitrary: xs) (auto simp: constraint_defs)

lemma row_of_map: "row_of key k (map f ks) = map_option f (find (\<lambda>x. key (f x) = k) ks)"
  by (induction ks) auto

lemma find_distinct: "find (\<lambda>x. x = k) ks = (if k \<in> set ks then Some k else None)"
  by (induction ks) auto

lemma sold_lines_Inr:
  assumes "sold_lines i s = Inr (sold, s')"
  shows "s' = s" "distinct (map sg_key sold)"
    "row_of sg_key k sold = (if \<exists>l \<in> set (lines_of s i). (si_product_id l, si_price l) = k
       then Some (sold_group_of (lines_of s i) k) else None)"
    "sum_by sg_qty sold = sum_by si_qty (lines_of s i)"
proof -
  let ?ls = "lines_of s i" and ?key = "\<lambda>l. (si_product_id l, si_price l)"
  let ?ks = "sort_key fst (sort_key snd (first_seen (map ?key ?ls)))"
  have r: "s' = s" "sold = map (sold_group_of ?ls) ?ks"
    using assms by (auto simp: sold_lines_def dest!: guarded_loop_Inr)
  have key: "sg_key (sold_group_of ?ls x) = x" for x
    by (simp add: sold_group_of_def Let_def split: prod.split)
  show "s' = s" by (rule r(1))
  show "distinct (map sg_key sold)" unfolding r(2) by (simp add: comp_def key)
  show "row_of sg_key k sold = (if \<exists>l \<in> set ?ls. ?key l = k then Some (sold_group_of ?ls k) else None)"
    unfolding r(2) row_of_map key by (auto simp: find_distinct)
  have "sum_by sg_qty sold = sum_list (map (\<lambda>k. sum_by si_qty (filter (\<lambda>l. ?key l = k) ?ls)) ?ks)"
    unfolding r(2) by (simp add: comp_def sold_group_of_def Let_def case_prod_unfold prod_eq_iff)
  also have "\<dots> = sum_by si_qty ?ls"
    by (rule sum_by_groups) auto
  finally show "sum_by sg_qty sold = sum_by si_qty ?ls" .
qed

lemma map_of_graph: "map_of (map (\<lambda>k. (k, f k)) ks) k = (if k \<in> set ks then Some (f k) else None)"
  by (induction ks) auto

lemma refunded_so_far_Inr:
  assumes "refunded_so_far i s = Inr (rf, s')"
  shows "s' = s" "refunded_at rf k = returned_at s i k"
    "sum_by snd rf = sum_by ri_qty (returned_lines s i)"
proof -
  let ?ls = "returned_lines s i" and ?key = "\<lambda>l. (ri_product_id l, ri_price l)"
  let ?ks = "first_seen (map ?key ?ls)"
  have r: "s' = s" "rf = map (\<lambda>k. (k, returned_qty_at ?ls k)) ?ks"
    using assms by (auto simp: refunded_so_far_def dest!: guarded_loop_Inr)
  show "s' = s" by (rule r(1))
  have "returned_qty_at ?ls k = 0" if "k \<notin> ?key ` set ?ls"
  proof -
    have "filter (\<lambda>l. ?key l = k) ?ls = []" using that by (auto simp: filter_empty_conv)
    then show ?thesis by (simp add: returned_qty_at_def)
  qed
  then show "refunded_at rf k = returned_at s i k"
    unfolding r(2) refunded_at_def map_of_graph returned_at_def by auto
  have "sum_by snd rf = sum_list (map (\<lambda>k. sum_by ri_qty (filter (\<lambda>l. ?key l = k) ?ls)) ?ks)"
    unfolding r(2) by (simp add: comp_def returned_qty_at_def)
  also have "\<dots> = sum_by ri_qty ?ls"
    by (rule sum_by_groups) auto
  finally show "sum_by snd rf = sum_by ri_qty ?ls" .
qed

lemma keys_aggregate_return: "map (\<lambda>d. (rd_product d, rd_price d)) (aggregate_return ls) =
    first_seen (map (\<lambda>l. (rl_product_id l, rl_price l)) ls)"
  by (simp add: aggregate_return_def Let_def comp_def case_prod_unfold)

lemma asked_at: "sum_by rd_qty (filter (\<lambda>d. (rd_product d, rd_price d) = k) (aggregate_return ls)) =
    sum_by rl_qty (filter (\<lambda>l. (rl_product_id l, rl_price l) = k) ls)"
proof -
  let ?key = "\<lambda>l. (rl_product_id l, rl_price l)"
  let ?g = "\<lambda>k. sum_by rl_qty (filter (\<lambda>l. ?key l = k) ls)"
  have "sum_by rd_qty (filter (\<lambda>d. (rd_product d, rd_price d) = k) (aggregate_return ls)) =
      sum_list (map (\<lambda>x. if x = k then ?g x else 0) (first_seen (map ?key ls)))"
    by (simp add: aggregate_return_def Let_def filter_map comp_def case_prod_unfold sum_list_map_filter' prod_eq_iff
        cong: conj_cong if_cong)
  also have "\<dots> = (if k \<in> ?key ` set ls then ?g k else 0)"
    by (subst sum_list_distinct_single) auto
  also have "\<dots> = ?g k"
  proof (cases "k \<in> ?key ` set ls")
    case False
    then have "filter (\<lambda>l. ?key l = k) ls = []" by (auto simp: filter_empty_conv)
    then show ?thesis using False by simp
  qed simp
  finally show ?thesis .
qed

section \<open>What the guard lets through\<close>

lemma assert_refundable_Inr:
  assumes "assert_refundable ds sold rf = Inr ()" "d \<in> set ds"
  obtains left where "remaining_for sold rf d = Some left" "rd_qty d \<le> left"
proof -
  have "over_refund_lines ds sold rf = []"
    using assms(1) by (auto simp: assert_refundable_def Let_def split: if_splits)
  then have "(case remaining_for sold rf d of
       None \<Rightarrow> [(rd_name d, None, rd_qty d)]
     | Some left \<Rightarrow> if left < rd_qty d then [(rd_name d, Some left, rd_qty d)] else []) = []"
    using assms(2) by (auto simp: over_refund_lines_def)
  then show thesis using that by (auto split: option.splits if_splits)
qed

lemma return_checks_Inr:
  assumes "return_checks dto s = Inr ((b, sold), s')"
  shows "s' = s" "row_of s_id (rt_sale_id dto) (sales s) = Some b" "\<not> s_voided b"
    "rt_refund_method dto = Deduct_From_Credit \<Longrightarrow> s_mechanic_id b \<noteq> None"
    "sold_lines (rt_sale_id dto) s = Inr (sold, s)"
    "\<And>d. d \<in> set (aggregate_return (rt_items dto)) \<Longrightarrow>
       (\<exists>l \<in> set (lines_of s (rt_sale_id dto)). (si_product_id l, si_price l) = (rd_product d, rd_price d)) \<and>
       rd_qty d + returned_at s (rt_sale_id dto) (rd_product d, rd_price d)
         \<le> sold_at s (rt_sale_id dto) (rd_product d, rd_price d)"
proof -
  obtain s0 s1 s2 rf where c: "lock_sale_for_return (rt_sale_id dto) s = Inr (b, s0)"
    "\<not> (rt_refund_method dto = Deduct_From_Credit \<and> s_mechanic_id b = None)"
    "sold_lines (rt_sale_id dto) s0 = Inr (sold, s1)" "refunded_so_far (rt_sale_id dto) s1 = Inr (rf, s2)"
    "assert_refundable (aggregate_return (rt_items dto)) sold rf = Inr ()" "s' = s2"
    using assms by (auto simp: return_checks_def)
  have l: "s0 = s" "row_of s_id (rt_sale_id dto) (sales s) = Some b" "\<not> s_voided b"
    using c(1) by (auto simp: lock_sale_for_return_def split: option.splits)
  have s1: "s1 = s" using sold_lines_Inr(1) [OF c(3)] l(1) by simp
  have s2: "s2 = s" using refunded_so_far_Inr(1) [OF c(4)] s1 by simp
  show "s' = s" "row_of s_id (rt_sale_id dto) (sales s) = Some b" "\<not> s_voided b"
    "rt_refund_method dto = Deduct_From_Credit \<Longrightarrow> s_mechanic_id b \<noteq> None"
    "sold_lines (rt_sale_id dto) s = Inr (sold, s)"
    using c s1 s2 l by auto
  fix d
  assume "d \<in> set (aggregate_return (rt_items dto))"
  with c(5) obtain left where left: "remaining_for sold rf d = Some left" "rd_qty d \<le> left"
    by (rule assert_refundable_Inr)
  then obtain g where g: "row_of sg_key (rd_product d, rd_price d) sold = Some g"
    "left \<le> sg_qty g - refunded_at rf (rd_product d, rd_price d)"
    by (auto simp: remaining_for_def split: option.splits)
  have grp: "\<exists>l \<in> set (lines_of s (rt_sale_id dto)). (si_product_id l, si_price l) = (rd_product d, rd_price d)"
    "g = sold_group_of (lines_of s (rt_sale_id dto)) (rd_product d, rd_price d)"
    using g(1) sold_lines_Inr(3) [OF c(3), of "(rd_product d, rd_price d)"] l(1) by (simp_all split: if_splits)
  have "sg_qty g = sold_at s (rt_sale_id dto) (rd_product d, rd_price d)"
    by (simp add: grp(2) sold_group_of_def sold_at_def Let_def)
  moreover have "refunded_at rf (rd_product d, rd_price d) = returned_at s (rt_sale_id dto) (rd_product d, rd_price d)"
    using refunded_so_far_Inr(2) [OF c(4)] s1 by simp
  ultimately show "(\<exists>l \<in> set (lines_of s (rt_sale_id dto)). (si_product_id l, si_price l) = (rd_product d, rd_price d)) \<and>
       rd_qty d + returned_at s (rt_sale_id dto) (rd_product d, rd_price d)
         \<le> sold_at s (rt_sale_id dto) (rd_product d, rd_price d)"
    using grp(1) g(2) left(2) by simp
qed

section \<open>What each step writes\<close>

lemma insert_return_Inr: "insert_return r s = Inr (u, s') \<Longrightarrow>
    s' = s\<lparr>returns := returns s @ [r]\<rparr> \<and> \<not> has_key r_id (r_id r) (returns s) \<and>
    \<not> has_key r_cn_no (r_cn_no r) (returns s) \<and> has_key s_id (r_sale_id r) (sales s)"
  by (auto simp: insert_return_def insert_return_row_def constraint_defs)

lemma insert_return_item_Inr: "insert_return_item j s = Inr (u, s') \<Longrightarrow>
    s' = s\<lparr>return_items := return_items s @ [j]\<rparr> \<and> 0 < ri_qty j"
  by (auto simp: insert_return_item_def constraint_defs)

lemma item_loop_Inr:
  assumes "tx_mapM g xs s = Inr (items, s')"
    and "\<And>x s y s'. g x s = Inr (y, s') \<Longrightarrow> y = f x \<and> s' = s\<lparr>return_items := return_items s @ [f x]\<rparr> \<and> 0 < ri_qty (f x)"
  shows "items = map f xs \<and> s' = s\<lparr>return_items := return_items s @ items\<rparr> \<and> (\<forall>j \<in> set items. 0 < ri_qty j)"
  using assms(1)
proof (induction xs arbitrary: s items)
  case (Cons x xs)
  then obtain y s1 js where y: "g x s = Inr (y, s1)" and js: "tx_mapM g xs s1 = Inr (js, s')"
    and items: "items = y # js" by auto
  from assms(2) [OF y] Cons.IH [OF js] items show ?case by simp
qed simp

lemma insert_return_lines_Inr:
  assumes "insert_return_lines i ds sold s = Inr (items, s')"
  shows "s' = s\<lparr>return_items := return_items s @ items\<rparr>"
    "items = map (return_item_row i sold) (zip [0..<length ds] ds)" "\<forall>j \<in> set items. 0 < ri_qty j"
proof -
  have "items = map (return_item_row i sold) (zip [0..<length ds] ds) \<and>
      s' = s\<lparr>return_items := return_items s @ items\<rparr> \<and> (\<forall>j \<in> set items. 0 < ri_qty j)"
    by (rule item_loop_Inr [OF assms [unfolded insert_return_lines_def]]) (auto dest!: insert_return_item_Inr)
  then show "s' = s\<lparr>return_items := return_items s @ items\<rparr>"
    "items = map (return_item_row i sold) (zip [0..<length ds] ds)" "\<forall>j \<in> set items. 0 < ri_qty j"
    by simp_all
qed

lemma reverse_customer_Inr:
  assumes "reverse_customer b money s = Inr (cust, s')"
  shows "\<exists>cs. s' = s\<lparr>customers := cs\<rparr>"
    "cust = (case s_customer_id b of None \<Rightarrow> None | Some c \<Rightarrow> map_option customer_out (row_of c_id c (customers s')))"
proof -
  show "\<exists>cs. s' = s\<lparr>customers := cs\<rparr>"
    "cust = (case s_customer_id b of None \<Rightarrow> None | Some c \<Rightarrow> map_option customer_out (row_of c_id c (customers s')))"
    using assms by (auto simp: reverse_customer_def dest!: take_customer_back_Inr split: option.splits
        intro: exI [of _ "customers s"])
qed

lemma reverse_mechanic_Inr:
  assumes "reverse_mechanic b mech meth money s = Inr (m, s')"
  shows "\<exists>ms. s' = s\<lparr>mechanics := ms\<rparr>"
proof (cases "s_mechanic_id b")
  case None
  then show ?thesis using assms by (auto simp: reverse_mechanic_def intro: exI [of _ "mechanics s"])
next
  case (Some i)
  then show ?thesis
    using assms by (auto simp: reverse_mechanic_def Let_def dest!: move_mechanic_upd split: option.splits
        intro: exI [of _ "mechanics s"])
qed

lemma auto_void_Inr:
  assumes "auto_void e i sold s = Inr (v, s')"
  shows "v \<longleftrightarrow> \<not> sum_by ri_qty (returned_lines s i) < sum_by sg_qty sold"
    "s' = s\<lparr>sales := (if v then upd_where (\<lambda>b. s_id b = i) (void_by_return e) (sales s) else sales s)\<rparr>"
proof -
  obtain rf s1 where rf: "refunded_so_far i s = Inr (rf, s1)"
    and r: "if sum_by snd rf < sum_by sg_qty sold then \<not> v \<and> s' = s1
      else v \<and> s' = s1\<lparr>sales := upd_where (\<lambda>b. s_id b = i) (void_by_return e) (sales s1)\<rparr>"
    using assms by (auto simp: auto_void_def split: if_splits)
  show "v \<longleftrightarrow> \<not> sum_by ri_qty (returned_lines s i) < sum_by sg_qty sold"
    "s' = s\<lparr>sales := (if v then upd_where (\<lambda>b. s_id b = i) (void_by_return e) (sales s) else sales s)\<rparr>"
    using r refunded_so_far_Inr(1,3) [OF rf] by (auto split: if_splits)
qed

lemma restore_returned_Inr:
  assumes "restore_returned e i ds s = Inr (mvs, s')"
  shows "\<exists>n. s' = s\<lparr>products := stock_moved (group_qty (return_groups ds)) (products s), minted := n, movements := movements s @ mvs\<rparr>"
    "list_all2 (restored_row Mv_Return i) (filter (\<lambda>x. has_key p_id (fst x) (products s)) (return_groups ds)) mvs"
    "moves_logged s s'"
proof -
  obtain vs where vs: "tx_mapM (restore_product e Mv_Return i None) (return_groups ds) s = Inr (vs, s')"
    and m: "mvs = concat (map (\<lambda>v. case v of None \<Rightarrow> [] | Some w \<Rightarrow> [w]) vs)"
    using assms by (auto simp: restore_returned_def)
  show "\<exists>n. s' = s\<lparr>products := stock_moved (group_qty (return_groups ds)) (products s), minted := n, movements := movements s @ mvs\<rparr>"
    "list_all2 (restored_row Mv_Return i) (filter (\<lambda>x. has_key p_id (fst x) (products s)) (return_groups ds)) mvs"
    using restore_loop_Inr [OF vs] m by auto
  show "moves_logged s s'" by (rule restore_loop_logged [OF vs])
qed

section \<open>What a credit note writes\<close>

lemma settle_return_Inr:
  assumes "settle_return e dto i b mech money sold s = Inr ((cust, m, v), s')"
  shows "v \<longleftrightarrow> \<not> sum_by ri_qty (returned_lines s (rt_sale_id dto)) < sum_by sg_qty sold"
    "sales s' = (if v then upd_where (\<lambda>b. s_id b = rt_sale_id dto) (void_by_return e) (sales s) else sales s)"
proof -
  obtain s1 s2 s3 where c: "reverse_customer b money s = Inr (cust, s1)"
    and m: "reverse_mechanic b mech (rt_refund_method dto) money s1 = Inr (m, s2)"
    and v: "auto_void e (rt_sale_id dto) sold s2 = Inr (v, s3)" and h: "sales s' = sales s3"
    using assms by (auto simp: settle_return_def hook_Inr)
  obtain cs where cs: "s1 = s\<lparr>customers := cs\<rparr>" using reverse_customer_Inr(1) [OF c] by blast
  obtain ms where ms: "s2 = s1\<lparr>mechanics := ms\<rparr>" using reverse_mechanic_Inr [OF m] by blast
  have same: "sales s2 = sales s" "returned_lines s2 (rt_sale_id dto) = returned_lines s (rt_sale_id dto)"
    by (simp_all add: cs ms returned_lines_def)
  show "v \<longleftrightarrow> \<not> sum_by ri_qty (returned_lines s (rt_sale_id dto)) < sum_by sg_qty sold"
    "sales s' = (if v then upd_where (\<lambda>b. s_id b = rt_sale_id dto) (void_by_return e) (sales s) else sales s)"
    using auto_void_Inr [OF v] h same by auto
qed

definition return_written :: "env \<Rightarrow> 'a return_write_scheme \<Rightarrow> sale \<Rightarrow> sold_group list \<Rightarrow> uuid option \<Rightarrow> uuid \<Rightarrow> db \<Rightarrow>
    create_return_result \<Rightarrow> db \<Rightarrow> bool" where
  "return_written e dto b sold sid i s r s' \<longleftrightarrow>
     (let ds = aggregate_return (rt_items dto) in
     \<not> has_key r_id i (returns s) \<and>
     (\<exists>cn. cn_note r = return_row e dto i cn b (refund_amounts_for ds b) sid) \<and>
     returns s' = returns s @ [cn_note r] \<and>
     cn_items r = map (return_item_row i sold) (zip [0..<length ds] ds) \<and>
     return_items s' = return_items s @ cn_items r \<and> (\<forall>j \<in> set (cn_items r). 0 < ri_qty j) \<and>
     products s' = stock_moved (group_qty (return_groups ds)) (products s) \<and>
     movements s' = movements s @ cn_movements r \<and>
     list_all2 (restored_row Mv_Return i) (filter (\<lambda>x. has_key p_id (fst x) (products s)) (return_groups ds)) (cn_movements r) \<and>
     moves_logged s s' \<and>
     (cn_sale_voided r \<longleftrightarrow> \<not> sum_by ri_qty (returned_lines s' (rt_sale_id dto)) < sum_by sg_qty sold) \<and>
     sales s' = (if cn_sale_voided r then upd_where (\<lambda>b. s_id b = rt_sale_id dto) (void_by_return e) (sales s)
       else sales s))"

lemma file_return_Inr:
  assumes "file_return e dto b sold sid mech cn i s = Inr (r, s')"
  shows "return_written e dto b sold sid i s r s'"
proof -
  let ?ds = "aggregate_return (rt_items dto)"
  let ?money = "refund_amounts_for ?ds b"
  let ?r = "return_row e dto i cn b ?money sid"
  obtain s1 items s2 mvs s3 cust m v where ins: "insert_return ?r s = Inr ((), s1)"
    and lin: "insert_return_lines i ?ds sold s1 = Inr (items, s2)"
    and mov: "restore_returned e i ?ds s2 = Inr (mvs, s3)"
    and fin: "settle_return e dto i b mech ?money sold s3 = Inr ((cust, m, v), s')"
    and r: "cn_note r = ?r" "cn_items r = items" "cn_sale_voided r = v" "cn_movements r = mvs"
    using assms by (auto simp: file_return_def Let_def)
  note a = insert_return_Inr [OF ins] and b = insert_return_lines_Inr [OF lin]
  obtain n where c: "s3 = s2\<lparr>products := stock_moved (group_qty (return_groups ?ds)) (products s2), minted := n,
      movements := movements s2 @ mvs\<rparr>" using restore_returned_Inr(1) [OF mov] by blast
  have s2: "s2 = s\<lparr>returns := returns s @ [?r], return_items := return_items s @ items\<rparr>"
    using a b(1) by simp
  have s': "returns s' = returns s3" "return_items s' = return_items s3" "products s' = products s3"
    "movements s' = movements s3"
    by (rule tx_fixesD [OF tx_fixes_settle_return fin]; simp)+
  have "moves_logged s s'"
  proof (rule moves_logged_trans [of s s2])
    show "moves_logged s s2" by (rule moves_logged_same) (simp_all add: s2)
    show "moves_logged s2 s'"
      by (rule moves_logged_trans [OF restore_returned_Inr(3) [OF mov]], rule moves_logged_same) (simp_all add: s')
  qed
  moreover have "returned_lines s3 (rt_sale_id dto) = returned_lines s' (rt_sale_id dto)"
    by (simp add: returned_lines_def s')
  moreover have "list_all2 (restored_row Mv_Return i)
      (filter (\<lambda>x. has_key p_id (fst x) (products s)) (return_groups ?ds)) mvs"
    using restore_returned_Inr(2) [OF mov] by (simp add: s2)
  moreover have "\<not> has_key r_id i (returns s)" using a by (simp add: return_row_def)
  ultimately show ?thesis
    using settle_return_Inr [OF fin] b(2,3) by (auto simp: return_written_def Let_def r s' c s2)
qed

lemma return_shift_Inr:
  assumes "return_shift meth dev s = Inr (sid, s')"
  shows "s' = s" "sid = Some q \<Longrightarrow> \<exists>r \<in> set (shifts s). sh_id r = q \<and> is_open dev r"
    "meth = Cash_Method \<Longrightarrow> sid \<noteq> None"
proof -
  show "s' = s" "sid = Some q \<Longrightarrow> \<exists>r \<in> set (shifts s). sh_id r = q \<and> is_open dev r"
    using assms required.gate_reads required.gate_open optional_gate.gate_reads optional_gate.gate_open
    by (auto simp: return_shift_def split: if_splits)
  show "meth = Cash_Method \<Longrightarrow> sid \<noteq> None"
    using assms by (auto simp: return_shift_def)
qed

lemma return_new_steps:
  assumes "return_new e dto a s = Inr (r, s')"
  obtains b sold s1 sid s2 mech cn s3 i s4 where "return_checks dto s = Inr ((b, sold), s1)"
    "return_shift (rt_refund_method dto) (a_device a) s1 = Inr (sid, s2)"
    "resolve_doc_number e (a_device a) Cn (rt_cn_no dto) s2 = Inr (cn, s3)"
    "(case rt_id dto of None \<Rightarrow> fresh_id e | Some i \<Rightarrow> tx_ret i) s3 = Inr (i, s4)"
    "file_return e dto b sold sid mech cn i s4 = Inr (r, s')"
proof -
  from assms obtain p s1 where p: "return_checks dto s = Inr (p, s1)"
    and r1: "(case p of (b, sold) \<Rightarrow> tx_bind (return_shift (rt_refund_method dto) (a_device a)) (\<lambda>shift_id.
       tx_bind (tx_get (\<lambda>s. case s_mechanic_id b of None \<Rightarrow> None | Some m \<Rightarrow> row_of m_id m (mechanics s))) (\<lambda>mech.
       tx_bind (resolve_doc_number e (a_device a) Cn (rt_cn_no dto)) (\<lambda>cn.
       tx_bind (case rt_id dto of None \<Rightarrow> fresh_id e | Some i \<Rightarrow> tx_ret i) (\<lambda>i.
       file_return e dto b sold shift_id mech cn i))))) s1 = Inr (r, s')"
    unfolding return_new_def by (rule tx_bindE)
  obtain b sold where bs: "p = (b, sold)" by (cases p)
  obtain sid s2 where sh: "return_shift (rt_refund_method dto) (a_device a) s1 = Inr (sid, s2)"
    and r2: "tx_bind (tx_get (\<lambda>s. case s_mechanic_id b of None \<Rightarrow> None | Some m \<Rightarrow> row_of m_id m (mechanics s))) (\<lambda>mech.
       tx_bind (resolve_doc_number e (a_device a) Cn (rt_cn_no dto)) (\<lambda>cn.
       tx_bind (case rt_id dto of None \<Rightarrow> fresh_id e | Some i \<Rightarrow> tx_ret i) (\<lambda>i.
       file_return e dto b sold sid mech cn i))) s2 = Inr (r, s')"
    using r1 unfolding bs prod.case by (rule tx_bindE)
  let ?mech = "case s_mechanic_id b of None \<Rightarrow> None | Some m \<Rightarrow> row_of m_id m (mechanics s2)"
  obtain cn s3 where cn: "resolve_doc_number e (a_device a) Cn (rt_cn_no dto) s2 = Inr (cn, s3)"
    and r3: "tx_bind (case rt_id dto of None \<Rightarrow> fresh_id e | Some i \<Rightarrow> tx_ret i) (\<lambda>i.
       file_return e dto b sold sid ?mech cn i) s3 = Inr (r, s')"
    using r2 unfolding tx_bind_run by (rule tx_bindE)
  from r3 obtain i s4 where "(case rt_id dto of None \<Rightarrow> fresh_id e | Some i \<Rightarrow> tx_ret i) s3 = Inr (i, s4)"
    "file_return e dto b sold sid ?mech cn i s4 = Inr (r, s')" by (rule tx_bindE)
  with p bs sh cn show thesis using that by blast
qed

lemma existing_return_reads: "existing_return i dto s = Inr (x, s') \<Longrightarrow> s' = s"
  using tx_fixesD [OF tx_fixes_existing_return [of id]] by fastforce

lemma existing_return_Some: "existing_return i dto s = Inr (Some r, s') \<Longrightarrow> has_key r_id i (returns s)"
proof (rule ccontr)
  assume "existing_return i dto s = Inr (Some r, s')" "\<not> has_key r_id i (returns s)"
  then show False using row_of_None [of r_id i "returns s"] by (simp add: existing_return_def)
qed

text \<open>A credit note is either a replay or new; a new one went through the checks.\<close>

lemma return_in_Inr:
  assumes "return_in e dto a s = Inr (r, s')"
  obtains (replay) i where "rt_id dto = Some i" "has_key r_id i (returns s)" "s' = s"
      "existing_return i dto s = Inr (Some r, s)"
  | (new) b sold sid i where "return_checks dto s = Inr ((b, sold), s)"
      "return_shift (rt_refund_method dto) (a_device a) s = Inr (sid, s)"
      "return_written e dto b sold sid i s r s'" "rt_id dto = None \<or> rt_id dto = Some i"
proof -
  obtain x s0 where x: "(case rt_id dto of None \<Rightarrow> tx_ret None | Some i \<Rightarrow> existing_return i dto) s = Inr (x, s0)"
    and rest: "(case x of Some r \<Rightarrow> tx_ret r | None \<Rightarrow> return_new e dto a) s0 = Inr (r, s')"
    using assms by (auto simp: return_in_def)
  have [simp]: "s0 = s"
    using x existing_return_reads by (auto split: option.splits)
  show thesis
  proof (cases x)
    case (Some q)
    have "r = q \<and> s' = s" using rest unfolding Some by simp
    then have q: "q = r" and s': "s' = s" by simp_all
    obtain i where i: "rt_id dto = Some i"
      using x Some by (cases "rt_id dto") simp_all
    have ex: "existing_return i dto s = Inr (Some r, s)" using x unfolding i Some q by simp
    show thesis by (rule replay [OF i existing_return_Some [OF ex] s' ex])
  next
    case None
    then have new_run: "return_new e dto a s = Inr (r, s')" using rest by simp
    obtain b sold s1 sid s2 mech cn s3 i s4 where c: "return_checks dto s = Inr ((b, sold), s1)"
      and sh: "return_shift (rt_refund_method dto) (a_device a) s1 = Inr (sid, s2)"
      and num: "resolve_doc_number e (a_device a) Cn (rt_cn_no dto) s2 = Inr (cn, s3)"
      and i: "(case rt_id dto of None \<Rightarrow> fresh_id e | Some i \<Rightarrow> tx_ret i) s3 = Inr (i, s4)"
      and f: "file_return e dto b sold sid mech cn i s4 = Inr (r, s')"
      by (rule return_new_steps [OF new_run])
    have s1: "s1 = s" and s2: "s2 = s"
      using return_checks_Inr(1) [OF c] return_shift_Inr(1) [OF sh] by simp_all
    have s3: "products s3 = products s" "sales s3 = sales s" "returns s3 = returns s" "return_items s3 = return_items s"
      "movements s3 = movements s"
      by (rule tx_fixesD [OF tx_fixes_resolve(1) num, unfolded s2]; simp)+
    have s4: "products s4 = products s" "sales s4 = sales s" "returns s4 = returns s" "return_items s4 = return_items s"
      "movements s4 = movements s"
      using i s3 by (auto split: option.splits)
    have "moves_logged s s4" by (rule moves_logged_same) (simp_all add: s4)
    then have "return_written e dto b sold sid i s r s'"
      using file_return_Inr [OF f] moves_logged_trans by (auto simp: return_written_def Let_def s4)
    then show thesis using new c sh i s1 s2 by (auto split: option.splits)
  qed
qed

lemma return_in_logged: "return_in e dto a s = Inr (r, s') \<Longrightarrow> moves_logged s s'"
  by (erule return_in_Inr) (auto simp: return_written_def Let_def)

interpretation return_writer: stock_writer "return_in e dto a" for e dto a
  by unfold_locales (rule return_in_logged)

section \<open>Nothing comes back twice\<close>

definition return_lines_have_note :: "db \<Rightarrow> bool" where
  "return_lines_have_note s \<longleftrightarrow> (\<forall>j \<in> set (return_items s). has_key r_id (ri_return_id j) (returns s))"

text \<open>Per bill, product and price, no more came back than was sold.\<close>

definition refunds_bounded :: "db \<Rightarrow> bool" where
  "refunds_bounded s \<longleftrightarrow> (\<forall>i k. returned_at s i k \<le> sold_at s i k)"

definition returns_ok :: "db \<Rightarrow> bool" where
  "returns_ok s \<longleftrightarrow> return_lines_have_note s \<and> refunds_bounded s"

lemma items_of_new_note:
  assumes "return_written e dto b sold sid i s r s'" "j \<in> set (cn_items r)"
  shows "ri_return_id j = i"
  using assms by (auto simp: return_written_def Let_def return_item_row_def split: prod.splits)

lemma note_of_new:
  assumes "return_written e dto b sold sid i s r s'"
  shows "r_id (cn_note r) = i" "r_sale_id (cn_note r) = rt_sale_id dto"
  using assms by (auto simp: return_written_def Let_def return_row_def)

lemma returned_lines_new:
  assumes "return_written e dto b sold sid i s r s'" "return_lines_have_note s"
  shows "returned_lines s' q = returned_lines s q @ (if q = rt_sale_id dto then cn_items r else [])"
proof -
  have w: "returns s' = returns s @ [cn_note r]" "return_items s' = return_items s @ cn_items r" "\<not> has_key r_id i (returns s)"
    using assms(1) by (auto simp: return_written_def Let_def)
  have old: "filter (\<lambda>l. \<exists>n \<in> set (returns s'). r_id n = ri_return_id l \<and> r_sale_id n = q) (return_items s) =
      filter (\<lambda>l. \<exists>n \<in> set (returns s). r_id n = ri_return_id l \<and> r_sale_id n = q) (return_items s)"
  proof (rule filter_cong [OF refl])
    fix l
    assume "l \<in> set (return_items s)"
    then have "ri_return_id l \<noteq> i" using assms(2) w(3) by (auto simp: return_lines_have_note_def)
    then show "(\<exists>n \<in> set (returns s'). r_id n = ri_return_id l \<and> r_sale_id n = q) =
        (\<exists>n \<in> set (returns s). r_id n = ri_return_id l \<and> r_sale_id n = q)"
      using note_of_new(1) [OF assms(1)] by (auto simp: w(1))
  qed
  have none: "n \<in> set (returns s) \<Longrightarrow> r_id n \<noteq> i" for n using w(3) by (auto simp: has_key_def)
  have new: "filter (\<lambda>l. \<exists>n \<in> set (returns s'). r_id n = ri_return_id l \<and> r_sale_id n = q) (cn_items r) =
      (if q = rt_sale_id dto then cn_items r else [])"
    using items_of_new_note [OF assms(1)] note_of_new [OF assms(1)] none
    by (auto simp: w(1) filter_id_conv filter_empty_conv)
  show ?thesis using old new by (simp add: returned_lines_def w(2))
qed

lemma asked_in_new:
  assumes "return_written e dto b sold sid i s r s'"
  shows "returned_qty_at (cn_items r) k = sum_by rd_qty (filter (\<lambda>d. (rd_product d, rd_price d) = k) (aggregate_return (rt_items dto)))"
    "sum_by ri_qty (cn_items r) = sum_by rd_qty (aggregate_return (rt_items dto))"
proof -
  have it: "cn_items r = map (return_item_row i sold) (zip [0..<length ds] ds)" if "ds = aggregate_return (rt_items dto)" for ds
    using assms that by (simp add: return_written_def Let_def)
  have gen: "sum_by ri_qty (filter (\<lambda>l. (ri_product_id l, ri_price l) = k) (map (return_item_row i sold) (zip ns ds))) =
      sum_by rd_qty (filter (\<lambda>d. (rd_product d, rd_price d) = k) ds)"
    "sum_by ri_qty (map (return_item_row i sold) (zip ns ds)) = sum_by rd_qty ds"
    if "length ns = length ds" for ns ds
    using that by (induction ns ds rule: list_induct2) (auto simp: return_item_row_def)
  show "returned_qty_at (cn_items r) k = sum_by rd_qty (filter (\<lambda>d. (rd_product d, rd_price d) = k) (aggregate_return (rt_items dto)))"
    unfolding returned_qty_at_def it [OF refl] by (rule gen) simp
  show "sum_by ri_qty (cn_items r) = sum_by rd_qty (aggregate_return (rt_items dto))"
    unfolding it [OF refl] by (rule gen) simp
qed

lemma single_demand:
  "distinct (map key ds) \<Longrightarrow> d \<in> set ds \<Longrightarrow> filter (\<lambda>x. key x = key d) ds = [d]"
proof (induction ds)
  case (Cons x ds)
  show ?case
  proof (cases "d = x")
    case True
    then have "filter (\<lambda>y. key y = key d) ds = []" using Cons.prems(1) by (auto simp: filter_empty_conv image_iff)
    then show ?thesis using True by simp
  next
    case False
    then show ?thesis using Cons by (auto simp: image_iff)
  qed
qed simp

lemma return_in_bounded:
  assumes "returns_ok s" "return_in e dto a s = Inr (r, s')"
  shows "returns_ok s'"
  using assms(2)
proof (cases rule: return_in_Inr)
  case (new b sold sid i)
  let ?ds = "aggregate_return (rt_items dto)"
  have owned: "return_lines_have_note s" and bound: "returned_at s q k \<le> sold_at s q k" for q k
    using assms(1) unfolding returns_ok_def refunds_bounded_def by blast+
  have w: "returns s' = returns s @ [cn_note r]" "return_items s' = return_items s @ cn_items r"
    using new(3) by (auto simp: return_written_def Let_def)
  have "return_lines_have_note s'"
    using owned items_of_new_note [OF new(3)] note_of_new(1) [OF new(3)]
    by (auto simp: return_lines_have_note_def w)
  moreover have "returned_at s' q k \<le> sold_at s' q k" for q k
  proof -
    have items: "sale_items s' = sale_items s"
      by (rule tx_fixesD [OF tx_fixes_return_in assms(2)]) simp_all
    then have sold: "sold_at s' q k = sold_at s q k" by (simp add: sold_at_def lines_of_def)
    have split: "returned_at s' q k = returned_at s q k + (if q = rt_sale_id dto then returned_qty_at (cn_items r) k else 0)"
      unfolding returned_at_def returned_lines_new [OF new(3) owned] by (simp add: returned_qty_at_def)
    have "returned_qty_at (cn_items r) k + returned_at s (rt_sale_id dto) k \<le> sold_at s (rt_sale_id dto) k"
    proof (cases "\<exists>d \<in> set ?ds. (rd_product d, rd_price d) = k")
      case True
      then obtain d where d: "d \<in> set ?ds" "(rd_product d, rd_price d) = k" by blast
      have "filter (\<lambda>x. (rd_product x, rd_price x) = k) ?ds = [d]"
        using single_demand [of "\<lambda>d. (rd_product d, rd_price d)" ?ds d] d by (simp add: keys_aggregate_return)
      then show ?thesis
        using return_checks_Inr(6) [OF new(1) d(1)] asked_in_new(1) [OF new(3), of k] d(2) by simp
    next
      case False
      then have "filter (\<lambda>x. (rd_product x, rd_price x) = k) ?ds = []" by (auto simp: filter_empty_conv)
      then show ?thesis using asked_in_new(1) [OF new(3), of k] bound by simp
    qed
    then show ?thesis using split sold bound [of q k] by auto
  qed
  ultimately show ?thesis unfolding returns_ok_def refunds_bounded_def by blast
qed (use assms(1) in simp)

section \<open>A closed drawer's books under a credit note\<close>

lemma cash_sales_same:
  assumes "\<And>b. b \<in> set bs \<Longrightarrow> c (f b) = d b \<and> s_total (f b) = s_total b"
  shows "sum_by s_total (filter c (map f bs)) = sum_by s_total (filter d bs)"
  using assms by (induction bs) auto

lemma return_in_frozen:
  assumes "shifts_ok s" "distinct (map s_id (sales s))" "return_in e dto a s = Inr (r, s')"
  shows "books_frozen s s'"
  using assms(3)
proof (cases rule: return_in_Inr)
  case (new b sold sid i)
  note c = return_checks_Inr [OF new(1)]
  have w: "returns s' = returns s @ [cn_note r]" "r_shift_id (cn_note r) = sid"
    "sales s' = (if cn_sale_voided r then upd_where (\<lambda>b. s_id b = rt_sale_id dto) (void_by_return e) (sales s) else sales s)"
    using new(3) by (auto simp: return_written_def Let_def return_row_def)
  have fr: "shifts s' = shifts s" "credit_payments s' = credit_payments s" "drawer_entries s' = drawer_entries s"
    by (rule tx_fixesD [OF tx_fixes_return_in assms(3)]; simp)+
  have own: "x = b" if "x \<in> set (sales s)" "s_id x = rt_sale_id dto" for x
    using row_of_unique [OF assms(2) that(1)] that(2) c(2) by simp
  define f where "f x = (if cn_sale_voided r \<and> s_id x = rt_sale_id dto then void_by_return e x else x)" for x
  have sl: "sales s' = map f (sales s)"
    unfolding w(3) f_def by (simp add: upd_where_def)
  have counted: "counted_sale s' (f x) = counted_sale s x" if "x \<in> set (sales s)" for x
  proof (cases "s_id x = rt_sale_id dto")
    case True
    then have "\<not> s_voided x" using own [OF that] c(3) by simp
    then show ?thesis
      using True note_of_new(2) [OF new(3)] by (simp add: counted_sale_def f_def void_by_return_def w(1))
  next
    case False
    then show ?thesis using note_of_new(2) [OF new(3)] by (simp add: counted_sale_def f_def w(1))
  qed
  show ?thesis
  proof (rule books_frozenI)
    fix j
    assume j: "closed_shift s j"
    have "sid \<noteq> Some j"
    proof
      assume "sid = Some j"
      then obtain q where "q \<in> set (shifts s)" "sh_id q = j" "is_open (a_device a) q"
        using return_shift_Inr(2) [OF new(2)] by blast
      then show False using open_not_closed [OF assms(1)] j by blast
    qed
    then have refunds: "cash_refunds s' j = cash_refunds s j"
      by (simp add: cash_refunds_def w)
    have "cash_sales s' j = cash_sales s j"
      unfolding cash_sales_def sl
      by (rule cash_sales_same) (use counted in \<open>auto simp: f_def void_by_return_def\<close>)
    with refunds show "takings s' j = takings s j"
      by (simp add: takings_def cash_credit_payments_def drawer_flow_def fr)
  qed (auto simp: fr(1))
qed simp

section \<open>The money\<close>

lemma exact_subtotal_demands: "exact_subtotal (map (\<lambda>d. (rd_qty d, rd_price d)) ds) = sum_by (\<lambda>d. rd_qty d * rd_price d) ds"
  by (simp add: comp_def)

lemma refund_subtotal_exact:
  assumes "list_all (\<lambda>d. 0 \<le> rd_qty d \<and> 0 \<le> rd_price d) ds" "sum_by (\<lambda>d. rd_qty d * rd_price d) ds \<le> 2 ^ 53"
  shows "ra_subtotal (refund_amounts_for ds b) = sum_by (\<lambda>d. rd_qty d * rd_price d) ds"
proof -
  have "list_all (\<lambda>(q, p). 0 \<le> q \<and> 0 \<le> p) (map (\<lambda>d. (rd_qty d, rd_price d)) ds)"
    using assms(1) by (auto simp: list_all_iff)
  from computed_subtotal_cases [OF this] assms(2)
  have "computed_subtotal (map (\<lambda>d. (rd_qty d, rd_price d)) ds) = of_int (sum_by (\<lambda>d. rd_qty d * rd_price d) ds)"
    by (simp only: exact_subtotal_demands if_True)
  then show ?thesis by (simp add: refund_amounts_for_def Let_def)
qed

lemma refund_money_bounds:
  assumes "list_all (\<lambda>d. 0 \<le> rd_qty d \<and> 0 \<le> rd_price d) ds"
    and X: "X = sum_by (\<lambda>d. rd_qty d * rd_price d) ds" "X \<le> s_subtotal b"
    and b: "0 \<le> s_discount b" "s_discount b \<le> s_subtotal b" "0 < s_subtotal b" "s_subtotal b \<le> MAX_SATANG"
  shows "ra_subtotal (refund_amounts_for ds b) = X \<and> 0 \<le> ra_discount (refund_amounts_for ds b) \<and>
    ra_discount (refund_amounts_for ds b) \<le> s_discount b \<and>
    0 \<le> ra_total (refund_amounts_for ds b) \<and> ra_total (refund_amounts_for ds b) \<le> X \<and>
    (X = s_subtotal b \<longrightarrow> ra_total (refund_amounts_for ds b) = s_subtotal b - s_discount b)"
proof -
  let ?m = "refund_amounts_for ds b"
  have big: "s_subtotal b \<le> 10 ^ 14" "s_discount b \<le> 10 ^ 14" using b by (simp_all add: MAX_SATANG_def)
  have sub: "ra_subtotal ?m = X"
    unfolding X(1) by (rule refund_subtotal_exact [OF assms(1)]) (use X big in simp)
  have X0: "0 \<le> X" unfolding X(1) by (rule sum_by_nonneg) (use assms(1) in \<open>auto simp: list_all_iff\<close>)
  have disc: "ra_discount ?m = round_mul_div X (s_discount b) (s_subtotal b)" "ra_total ?m = X - ra_discount ?m"
    using sub b(3) by (simp_all add: refund_amounts_for_def Let_def)
  have "0 \<le> round_mul_div X (s_discount b) (s_subtotal b)" by (rule round_mul_div_nonneg) (use X0 b in simp_all)
  moreover have "round_mul_div X (s_discount b) (s_subtotal b) \<le> s_discount b"
    by (rule round_mul_div_le) (use X0 X b big in simp_all)
  moreover have "round_mul_div X (s_discount b) (s_subtotal b) \<le> X"
    unfolding round_mul_div_commute [of X] by (rule round_mul_div_le) (use X0 X b big in simp_all)
  moreover have "X = s_subtotal b \<longrightarrow> round_mul_div X (s_discount b) (s_subtotal b) = s_discount b"
    using round_mul_div_full [OF b(1) big(2) b(3)] by simp
  ultimately show ?thesis
    using sub disc by simp
qed

section \<open>The last unit\<close>

lemma all_back_iff:
  assumes "\<forall>k. returned_at s i k \<le> sold_at s i k"
  shows "\<not> sum_by ri_qty (returned_lines s i) < sum_by si_qty (lines_of s i) \<longleftrightarrow>
    (\<forall>k. returned_at s i k = sold_at s i k)"
proof -
  let ?sk = "\<lambda>l. (si_product_id l, si_price l)" and ?rk = "\<lambda>l. (ri_product_id l, ri_price l)"
  define ks where "ks = first_seen (map ?sk (lines_of s i) @ map ?rk (returned_lines s i))"
  have sold: "sum_by si_qty (lines_of s i) = sum_by (sold_at s i) ks"
    unfolding sold_at_def ks_def by (rule sum_by_groups [symmetric]) auto
  have given: "sum_by ri_qty (returned_lines s i) = sum_by (returned_at s i) ks"
    unfolding returned_at_def returned_qty_at_def ks_def by (rule sum_by_groups [symmetric]) auto
  have diff: "sum_by (sold_at s i) ks - sum_by (returned_at s i) ks = sum_by (\<lambda>k. sold_at s i k - returned_at s i k) ks"
    by (simp add: sum_list_subtractf)
  have zero: "sum_by (\<lambda>k. sold_at s i k - returned_at s i k) ks = 0 \<longleftrightarrow> (\<forall>k \<in> set ks. sold_at s i k = returned_at s i k)"
    by (subst sum_list_nonneg_eq_0_iff) (auto simp del: split_paired_All simp: assms)
  have nonneg: "0 \<le> sum_by (\<lambda>k. sold_at s i k - returned_at s i k) ks"
    by (rule sum_by_nonneg) (simp only: diff_ge_0_iff_ge assms)
  have out: "sold_at s i k = returned_at s i k" if "k \<notin> set ks" for k
  proof -
    have "filter (\<lambda>l. ?sk l = k) (lines_of s i) = []" "filter (\<lambda>l. ?rk l = k) (returned_lines s i) = []"
      using that by (auto simp: ks_def filter_empty_conv)
    then show ?thesis by (simp add: sold_at_def returned_at_def returned_qty_at_def)
  qed
  have "\<not> sum_by ri_qty (returned_lines s i) < sum_by si_qty (lines_of s i) \<longleftrightarrow>
      sum_by (\<lambda>k. sold_at s i k - returned_at s i k) ks = 0"
    using sold given diff nonneg by linarith
  also have "\<dots> \<longleftrightarrow> (\<forall>k. returned_at s i k = sold_at s i k)"
    unfolding zero using out by metis
  finally show ?thesis .
qed

text \<open>A voided bill takes no further note: one the server has not filed yet is refused, with an id of its own or without.\<close>

lemma voided_bill_takes_no_return:
  assumes "row_of s_id (rt_sale_id dto) (sales s) = Some b" "s_voided b"
    and "rt_id dto = None \<or> \<not> has_key r_id (the (rt_id dto)) (returns s)"
  shows "return_in e dto a s = Inl sale_voided"
proof -
  have "row_of r_id i (returns s) = None" if "rt_id dto = Some i" for i
    using assms(3) that row_of_None [of r_id i "returns s"] by simp
  then show ?thesis
    using assms(1,2)
    by (cases "rt_id dto") (simp_all add: return_in_def return_new_def return_checks_def lock_sale_for_return_def
      existing_return_def tx_bind_def)
qed

lemma row_of_void_by_return:
  "row_of s_id i (upd_where (\<lambda>b. s_id b = i) (void_by_return e) bs) = map_option (void_by_return e) (row_of s_id i bs)"
  by (induction bs) (auto simp: void_by_return_def)

section \<open>A concrete credit note\<close>

definition billed_shop :: db where
  "billed_shop = sample_shop\<lparr>
     sales := [\<lparr>s_id = ''b'', s_receipt_no = ''R1'', s_subtotal = 15000, s_discount = 1000, s_total = 14000,
       s_payment_method = Mechanic_Credit, s_customer_id = None, s_customer_name = None, s_mechanic_id = Some ''m'',
       s_mechanic_name = None, s_mechanic_delta = Some 500, s_points_granted = 14, s_date = 5, s_voided = False,
       s_voided_at = None, s_void_reason = None, s_shift_id = Some ''s'', s_user_id = None, s_device_id = Some ''d'',
       s_sold_offline = False, s_payment_account_id = None\<rparr>],
     sale_items := [\<lparr>si_sale_id = ''b'', si_line_no = 1, si_product_id = ''p'', si_part_no = None, si_name = ''pad'',
       si_name_th = None, si_qty = 3, si_price = 5000, si_cost_at_sale = Some 4000\<rparr>]\<rparr>"

definition sample_return :: "int \<Rightarrow> return_write" where
  "sample_return q = \<lparr>rt_id = Some ''r'', rt_sale_id = ''b'', rt_cn_no = None, rt_refund_method = Deduct_From_Credit,
     rt_reason = [], rt_items = [\<lparr>rl_product_id = ''p'', rl_name = ''pad'', rl_qty = q, rl_price = 5000,
       rl_original_qty = None\<rparr>], rw_date = None\<rparr>"

lemmas return_defs = return_in_def return_new_def existing_return_def return_checks_def lock_sale_for_return_def
  sold_lines_def sold_group_of_def refunded_so_far_def returned_lines_def lines_of_def assert_refundable_def
  mispriced_def over_refund_lines_def remaining_for_def sold_of_product_def refunded_of_product_def refunded_at_def
  returned_qty_at_def return_shift_def current_shift_id_for_def resolve_doc_number_def issue_def device_no_def
  upsert_counter_def file_return_def insert_return_def insert_return_row_def return_row_def insert_return_lines_def
  return_item_row_def insert_return_item_def restore_returned_def return_groups_def restore_product_def
  insert_movement_def settle_return_def reverse_customer_def reverse_mechanic_def mechanic_refunded_def
  move_mechanic_def auto_void_def add_hook_def constraint_defs map_db_err_def aggregate_return_def

lemma sample_money: "refund_amounts_for [\<lparr>rd_product = ''p'', rd_qty = q, rd_price = 5000, rd_original_qty = None,
    rd_name = ''pad''\<rparr>] (hd (sales billed_shop)) =
    \<lparr>ra_subtotal = q * 5000, ra_discount = round_mul_div (q * 5000) 1000 15000,
     ra_total = q * 5000 - round_mul_div (q * 5000) 1000 15000, ra_sale_total = 14000\<rparr>" if "0 \<le> q" "q \<le> 3" for q
proof -
  let ?ds = "[\<lparr>rd_product = ''p'', rd_qty = q, rd_price = 5000, rd_original_qty = None, rd_name = ''pad''\<rparr>]"
  have "ra_subtotal (refund_amounts_for ?ds (hd (sales billed_shop))) = sum_by (\<lambda>d. rd_qty d * rd_price d) ?ds"
    by (rule refund_subtotal_exact) (use that in simp_all)
  then show ?thesis by (simp add: refund_amounts_for_def Let_def billed_shop_def)
qed

lemma sample_return_runs: "\<exists>r s'. return_in sample_env (sample_return 3) sample_actor billed_shop = Inr (r, s')"
  using sample_money [of 3]
  by (simp add: return_defs sample_return_def billed_shop_def sample_shop_def sample_actor_def Let_def
      is_open_def is_current_def MAX_DOC_NO_def INT4_MAX_def mv_ref_key_def in_proportion_def
      round_mul_div_exact ex_bool_eq)

lemma billed_shop_ok: "returns_ok billed_shop" "distinct (map s_id (sales billed_shop))" "shifts_ok billed_shop"
proof -
  have "sold_at billed_shop q k = (if q = ''b'' \<and> k = (''p'', 5000) then 3 else 0)" for q k
    by (auto simp: sold_at_def lines_of_def billed_shop_def)
  then show "returns_ok billed_shop"
    by (simp add: returns_ok_def refunds_bounded_def return_lines_have_note_def returned_at_def returned_qty_at_def
        returned_lines_def billed_shop_def sample_shop_def)
qed (simp_all add: billed_shop_def sample_shop_def shifts_ok_def one_active_def)

lemma lines_of_same: "sale_items s' = sale_items s \<Longrightarrow> lines_of s' i = lines_of s i" "sale_items s' = sale_items s \<Longrightarrow> sold_at s' i k = sold_at s i k"
  by (simp_all add: lines_of_def sold_at_def)

lemma return_voids_iff:
  assumes "returns_ok s" "return_in e dto a s = Inr (r, s')" "return_checks dto s = Inr ((b, sold), s)"
    "return_written e dto b sold sid i s r s'"
  shows "cn_sale_voided r \<longleftrightarrow> (\<forall>k. returned_at s' (rt_sale_id dto) k = sold_at s' (rt_sale_id dto) k)"
proof -
  have items: "sale_items s' = sale_items s"
    by (rule tx_fixesD [OF tx_fixes_return_in assms(2)]) simp_all
  have "sum_by sg_qty sold = sum_by si_qty (lines_of s' (rt_sale_id dto))"
    using sold_lines_Inr(4) [OF return_checks_Inr(5) [OF assms(3)]] lines_of_same(1) [OF items] by simp
  moreover have "\<forall>k. returned_at s' (rt_sale_id dto) k \<le> sold_at s' (rt_sale_id dto) k"
    using return_in_bounded [OF assms(1,2)] unfolding returns_ok_def refunds_bounded_def by blast
  moreover have "cn_sale_voided r \<longleftrightarrow> \<not> sum_by ri_qty (returned_lines s' (rt_sale_id dto)) < sum_by sg_qty sold"
    using assms(4) by (simp add: return_written_def Let_def)
  ultimately show ?thesis using all_back_iff by simp
qed

text \<open>A new note voids the bill exactly when everything on it has come back, and marks it then.\<close>

lemma new_note_voids:
  assumes "returns_ok s" "return_in e dto a s = Inr (r, s')" "rt_id dto = None \<or> \<not> has_key r_id (the (rt_id dto)) (returns s)"
  shows "cn_sale_voided r \<longleftrightarrow> (\<forall>k. returned_at s' (rt_sale_id dto) k = sold_at s' (rt_sale_id dto) k)"
    "\<exists>b b'. row_of s_id (rt_sale_id dto) (sales s) = Some b \<and> \<not> s_voided b \<and>
      row_of s_id (rt_sale_id dto) (sales s') = Some b' \<and> s_voided b' = cn_sale_voided r"
proof -
  obtain b sold sid i where new: "return_checks dto s = Inr ((b, sold), s)" "return_written e dto b sold sid i s r s'"
    using assms(2) by (rule return_in_Inr) (use assms(3) in auto)
  note c = return_checks_Inr [OF new(1)]
  show "cn_sale_voided r \<longleftrightarrow> (\<forall>k. returned_at s' (rt_sale_id dto) k = sold_at s' (rt_sale_id dto) k)"
    by (rule return_voids_iff [OF assms(1,2) new])
  have sl: "sales s' = (if cn_sale_voided r then upd_where (\<lambda>b. s_id b = rt_sale_id dto) (void_by_return e) (sales s) else sales s)"
    using new(2) by (simp add: return_written_def Let_def)
  then obtain b' where "row_of s_id (rt_sale_id dto) (sales s') = Some b'" "s_voided b' = cn_sale_voided r"
    using c(2,3) by (cases "cn_sale_voided r") (simp_all add: row_of_void_by_return void_by_return_def)
  then show "\<exists>b b'. row_of s_id (rt_sale_id dto) (sales s) = Some b \<and> \<not> s_voided b \<and>
      row_of s_id (rt_sale_id dto) (sales s') = Some b' \<and> s_voided b' = cn_sale_voided r"
    using c(2,3) by blast
qed

lemma asked_product: "sum_by rd_qty (filter (\<lambda>d. rd_product d = p) (aggregate_return ls)) =
    sum_by rl_qty (filter (\<lambda>l. rl_product_id l = p) ls)"
proof -
  let ?key = "\<lambda>l. (rl_product_id l, rl_price l)" and ?mine = "filter (\<lambda>l. rl_product_id l = p) ls"
  let ?ks = "filter (\<lambda>k. fst k = p) (first_seen (map ?key ls))"
  have "sum_by rd_qty (filter (\<lambda>d. rd_product d = p) (aggregate_return ls)) =
      sum_list (map (\<lambda>k. sum_by rl_qty (filter (\<lambda>l. rl_product_id l = fst k \<and> rl_price l = snd k) ls)) ?ks)"
    by (simp add: aggregate_return_def Let_def filter_map comp_def case_prod_unfold)
  also have "\<dots> = sum_list (map (\<lambda>k. sum_by rl_qty (filter (\<lambda>l. ?key l = k) ?mine)) ?ks)"
    by (intro arg_cong [of _ _ sum_list] map_cong refl) (auto simp: prod_eq_iff)
  also have "\<dots> = sum_by rl_qty ?mine"
    by (rule sum_by_groups) auto
  finally show ?thesis .
qed

lemma group_qty_return_groups: "group_qty (return_groups ds) p = sum_by rd_qty (filter (\<lambda>d. rd_product d = p) ds)"
proof -
  have "group_qty (return_groups ds) p = (if p \<in> rd_product ` set ds then sum_by rd_qty (filter (\<lambda>d. rd_product d = p) ds) else 0)"
    unfolding return_groups_def by (subst group_qty_map) simp_all
  moreover have "filter (\<lambda>d. rd_product d = p) ds = []" if "p \<notin> rd_product ` set ds"
    using that by (auto simp: filter_empty_conv)
  ultimately show ?thesis by auto
qed

lemma hd_sorted_in: "xs \<noteq> [] \<Longrightarrow> hd (sort_key f xs) \<in> set xs"
  by (metis hd_in_set length_0_conv length_sort set_sort)

text \<open>Every stored line takes its cost from a line of the bill with its product and price.\<close>

lemma returned_line_cost:
  assumes "return_checks dto s = Inr ((b, sold), s)" "return_written e dto b sold sid i s r s'" "j \<in> set (cn_items r)"
  shows "\<exists>l \<in> set (lines_of s (rt_sale_id dto)). si_product_id l = ri_product_id j \<and> si_price l = ri_price j \<and>
    si_cost_at_sale l = ri_cost_at_sale j"
proof -
  let ?ls = "lines_of s (rt_sale_id dto)"
  obtain n d where d: "d \<in> set (aggregate_return (rt_items dto))" "j = return_item_row i sold (n, d)"
    using assms(2,3) by (auto simp: return_written_def Let_def dest: set_zip_rightD)
  note c = return_checks_Inr(6) [OF assms(1) d(1)]
  let ?mine = "filter (\<lambda>l. si_product_id l = rd_product d \<and> si_price l = rd_price d) ?ls"
  have "?mine \<noteq> []" using c by (auto simp: filter_empty_conv)
  then have "hd (sort_key si_line_no ?mine) \<in> set ?mine" by (rule hd_sorted_in)
  moreover have "row_of sg_key (rd_product d, rd_price d) sold = Some (sold_group_of ?ls (rd_product d, rd_price d))"
    using sold_lines_Inr(3) [OF return_checks_Inr(5) [OF assms(1)], of "(rd_product d, rd_price d)"] c by (simp only: if_True)
  then have "ri_cost_at_sale j = si_cost_at_sale (hd (sort_key si_line_no ?mine))"
    by (simp add: d(2) return_item_row_def sold_group_of_def Let_def)
  ultimately show ?thesis
    by (intro bexI [of _ "hd (sort_key si_line_no ?mine)"]) (auto simp: d(2) return_item_row_def)
qed

definition one_unit :: return_demand where
  "one_unit = \<lparr>rd_product = ''p'', rd_qty = 1, rd_price = 100, rd_original_qty = None, rd_name = ''pad''\<rparr>"

definition two_prices :: "sold_group list" where
  "two_prices = [\<lparr>sg_product = ''p'', sg_price = 7000, sg_qty = 1, sg_cost = None\<rparr>,
     \<lparr>sg_product = ''p'', sg_price = 8500, sg_qty = 1, sg_cost = None\<rparr>]"

section \<open>Properties\<close>

text \<open>
  C2. Nothing comes back twice: as long as, per bill, product and price, no more has come back than
  was sold, no credit note, however many lines name the product, breaks that.
\<close>

theorem refunds_never_exceed_sale:
  assumes "returns_ok s" "return_in e dto a s = Inr (r, s')"
  shows "returns_ok s'"
  using return_in_bounded assms by blast

theorem refunds_never_exceed_sale_witness:
  "\<exists>r s'. return_in sample_env (sample_return 3) sample_actor billed_shop = Inr (r, s') \<and> returns_ok s'"
  using sample_return_runs refunds_never_exceed_sale [OF billed_shop_ok(1)] by metis

text \<open>
  C36. What a new credit note does: it is filed against a bill that is on file and not voided, its cash
  comes out of an open drawer of the caller's device, every line is priced as the bill sold that
  product, the goods asked for go back on the shelf, and every unit that moved is in the log.
\<close>

theorem credit_note_effect:
  assumes "return_in e dto a s = Inr (r, s')" "rt_id dto = None \<or> \<not> has_key r_id (the (rt_id dto)) (returns s)"
  shows "returns s' = returns s @ [cn_note r] \<and> r_sale_id (cn_note r) = rt_sale_id dto \<and>
    return_items s' = return_items s @ cn_items r \<and>
    (\<forall>j \<in> set (cn_items r). 0 < ri_qty j \<and> (\<exists>l \<in> set (lines_of s (rt_sale_id dto)).
       si_product_id l = ri_product_id j \<and> si_price l = ri_price j \<and> si_cost_at_sale l = ri_cost_at_sale j)) \<and>
    products s' = stock_moved (\<lambda>p. sum_by rl_qty (filter (\<lambda>l. rl_product_id l = p) (rt_items dto))) (products s) \<and>
    moves_logged s s' \<and>
    (rt_refund_method dto = Cash_Method \<longrightarrow> (\<exists>q \<in> set (shifts s). is_open (a_device a) q \<and> r_shift_id (cn_note r) = Some (sh_id q))) \<and>
    (\<exists>b. row_of s_id (rt_sale_id dto) (sales s) = Some b \<and> \<not> s_voided b \<and>
       (rt_refund_method dto = Deduct_From_Credit \<longrightarrow> s_mechanic_id b \<noteq> None))"
  using assms(1)
proof (cases rule: return_in_Inr)
  case (new b sold sid i)
  let ?ds = "aggregate_return (rt_items dto)"
  note c = return_checks_Inr [OF new(1)]
  have w: "returns s' = returns s @ [cn_note r]" "return_items s' = return_items s @ cn_items r"
    "\<forall>j \<in> set (cn_items r). 0 < ri_qty j" "moves_logged s s'" "r_shift_id (cn_note r) = sid"
    "products s' = stock_moved (group_qty (return_groups ?ds)) (products s)"
    using new(3) by (auto simp: return_written_def Let_def return_row_def)
  have "group_qty (return_groups ?ds) = (\<lambda>p. sum_by rl_qty (filter (\<lambda>l. rl_product_id l = p) (rt_items dto)))"
    by (rule ext) (simp only: group_qty_return_groups asked_product)
  moreover have "\<exists>q \<in> set (shifts s). is_open (a_device a) q \<and> sid = Some (sh_id q)" if "rt_refund_method dto = Cash_Method"
    using return_shift_Inr(2,3) [OF new(2)] that by blast
  ultimately show ?thesis
    using w note_of_new(2) [OF new(3)] returned_line_cost [OF new(1,3)] c(2,3,4) by auto
qed (use assms(2) in simp)

theorem credit_note_effect_witness:
  "\<exists>r s'. return_in sample_env (sample_return 3) sample_actor billed_shop = Inr (r, s') \<and>
     products s' = stock_moved (\<lambda>p. if p = ''p'' then 3 else 0) (products billed_shop)"
proof -
  obtain r s' where run: "return_in sample_env (sample_return 3) sample_actor billed_shop = Inr (r, s')"
    using sample_return_runs by blast
  have "\<not> has_key r_id (the (rt_id (sample_return 3))) (returns billed_shop)"
    by (simp add: billed_shop_def sample_shop_def)
  moreover have "(\<lambda>p. sum_by rl_qty (filter (\<lambda>l. rl_product_id l = p) (rt_items (sample_return 3)))) =
      (\<lambda>p. if p = ''p'' then 3 else 0)"
    by (rule ext) (simp add: sample_return_def)
  ultimately show ?thesis using credit_note_effect [OF run] run by auto
qed

text \<open>
  The money of a credit note stays within the bill's: for lines worth no more than the bill's
  subtotal, its discount lies between zero and the bill's discount, what it pays between zero and
  what its lines are worth, and one that takes everything back pays the subtotal less the discount,
  to the satang, although the share is computed in doubles.
\<close>

theorem refund_money_within_bill:
  assumes "list_all (\<lambda>d. 0 \<le> rd_qty d \<and> 0 \<le> rd_price d) ds"
    "sum_by (\<lambda>d. rd_qty d * rd_price d) ds \<le> s_subtotal b"
    "0 \<le> s_discount b" "s_discount b \<le> s_subtotal b" "0 < s_subtotal b" "s_subtotal b \<le> MAX_SATANG"
  shows "ra_subtotal (refund_amounts_for ds b) = sum_by (\<lambda>d. rd_qty d * rd_price d) ds \<and>
    0 \<le> ra_discount (refund_amounts_for ds b) \<and> ra_discount (refund_amounts_for ds b) \<le> s_discount b \<and>
    0 \<le> ra_total (refund_amounts_for ds b) \<and>
    ra_total (refund_amounts_for ds b) \<le> sum_by (\<lambda>d. rd_qty d * rd_price d) ds \<and>
    (sum_by (\<lambda>d. rd_qty d * rd_price d) ds = s_subtotal b \<longrightarrow>
      ra_total (refund_amounts_for ds b) = s_subtotal b - s_discount b)"
  using refund_money_bounds [OF assms(1) refl assms(2-6)] by blast

theorem refund_money_within_bill_witness:
  "ra_total (refund_amounts_for [\<lparr>rd_product = ''p'', rd_qty = 3, rd_price = 5000, rd_original_qty = None,
     rd_name = ''pad''\<rparr>] (hd (sales billed_shop))) = 14000"
  using refund_money_within_bill [of "[\<lparr>rd_product = ''p'', rd_qty = 3, rd_price = 5000, rd_original_qty = None,
     rd_name = ''pad''\<rparr>]" "hd (sales billed_shop)"]
  by (simp add: billed_shop_def MAX_SATANG_def)

text \<open>
  The per-line guard alone does not bound a product over all its prices: with a unit already back
  at a price the bill never charged (an imported credit note), one credit note naming the product at
  both its prices passes, and more units come back than were sold.
\<close>

theorem imported_price_lets_too_much_back:
  "\<exists>ds rf. assert_refundable ds two_prices rf = Inr () \<and>
     sold_of_product two_prices ''p'' < refunded_of_product rf ''p'' + sum_by rd_qty ds"
proof -
  let ?ds = "[one_unit\<lparr>rd_price := 8500\<rparr>, one_unit\<lparr>rd_price := 7000\<rparr>]" and ?rf = "[((''p'', 8000), 1)]"
  have "assert_refundable ?ds two_prices ?rf = Inr () \<and>
      sold_of_product two_prices ''p'' < refunded_of_product ?rf ''p'' + sum_by rd_qty ?ds"
    by (simp add: assert_refundable_def mispriced_def over_refund_lines_def remaining_for_def two_prices_def
        one_unit_def sold_of_product_def refunded_of_product_def refunded_at_def)
  then show ?thesis by blast
qed

end
