(* ===== verification/Catalogue_Dto.thy ===== *)
theory Catalogue_Dto
  imports Schema
begin

text \<open>
  The bodies of the catalogue writes (\<open>products/catalogue.dto.ts\<close>): products, stock
  corrections, categories and suppliers, and the small validators the purchase orders share.
  A partial patch is a record of options: \<open>None\<close> is a field the client did not send.
\<close>

section \<open>Validators\<close>

definition has_prop :: "(string \<times> jsval) list \<Rightarrow> string \<Rightarrow> bool" where
  "has_prop b k \<longleftrightarrow> k \<in> set (map fst b)"

definition string_or_empty :: "jsval \<Rightarrow> string \<Rightarrow> err + string" where
  "string_or_empty v field =
     (if is_nullish v then Inr []
      else case v of JStr s \<Rightarrow> Inr s | _ \<Rightarrow> Inl (bad_request field))"

text \<open>Unlike the one of the sale body, this one keeps an empty string.\<close>

definition nullable_string :: "jsval \<Rightarrow> string \<Rightarrow> err + string option" where
  "nullable_string v field =
     (if is_nullish v then Inr None
      else case v of JStr s \<Rightarrow> Inr (Some s) | _ \<Rightarrow> Inl (bad_request field))"

definition integer_field :: "jsval \<Rightarrow> string \<Rightarrow> int \<Rightarrow> err + int" where
  "integer_field v field least =
     (case js_integer v of
        None \<Rightarrow> Inl (bad_request field)
      | Some n \<Rightarrow> if n < least \<or> INT4_MAX < n then Inl (bad_request field) else Inr n)"

text \<open>The amount goes on as the text \<open>fromSatang\<close> writes; here it stays an integer of satang.\<close>

definition non_negative_money :: "jsval \<Rightarrow> string \<Rightarrow> err + int" where
  "non_negative_money v field =
     e_bind (to_satang v field) (\<lambda>n. if n < 0 then Inl (bad_request field) else Inr n)"

definition part_no_field :: "jsval \<Rightarrow> err + string" where
  "part_no_field v = e_bind (required_string v ''partNo'') (\<lambda>s. Inr (trim s))"

section \<open>Products\<close>

record product_create =
  pr_part_no :: string
  pr_name :: string
  pr_name_th :: string
  pr_category :: string
  pr_brand :: string
  pr_price :: int
  pr_cost :: int
  pr_stock :: int
  pr_min_stock :: int
  pr_compat :: "string option"

definition parse_product_create :: "jsval \<Rightarrow> err + product_create" where
  "parse_product_create body =
     e_bind (as_object body ''body'') (\<lambda>b.
     e_bind (part_no_field (get_prop b ''partNo'')) (\<lambda>pn.
     e_bind (required_string (get_prop b ''name'') ''name'') (\<lambda>n.
     e_bind (string_or_empty (get_prop b ''nameTH'') ''nameTH'') (\<lambda>th.
     e_bind (string_or_empty (get_prop b ''category'') ''category'') (\<lambda>cat.
     e_bind (string_or_empty (get_prop b ''brand'') ''brand'') (\<lambda>br.
     e_bind (non_negative_money (or_else (get_prop b ''price'') (JStr ''0.00'')) ''price'') (\<lambda>price.
     e_bind (non_negative_money (or_else (get_prop b ''cost'') (JStr ''0.00'')) ''cost'') (\<lambda>cost.
     e_bind (integer_field (or_else (get_prop b ''stock'') (JNum (Fin 0))) ''stock'' 0) (\<lambda>st.
     e_bind (integer_field (or_else (get_prop b ''minStock'') (JNum (Fin 0))) ''minStock'' (- INT4_MAX)) (\<lambda>ms.
     e_bind (nullable_string (get_prop b ''compat'') ''compat'') (\<lambda>co.
     Inr \<lparr>pr_part_no = pn, pr_name = n, pr_name_th = th, pr_category = cat, pr_brand = br, pr_price = price,
          pr_cost = cost, pr_stock = st, pr_min_stock = ms, pr_compat = co\<rparr>)))))))))))"

record product_patch =
  pp_part_no :: "string option"
  pp_name :: "string option"
  pp_name_th :: "string option"
  pp_category :: "string option"
  pp_brand :: "string option"
  pp_price :: "int option"
  pp_cost :: "int option"
  pp_min_stock :: "int option"
  pp_compat :: "string option option"

text \<open>\<open>if (has(b, k)) out.k = f(b.k)\<close>\<close>

definition if_sent :: "(string \<times> jsval) list \<Rightarrow> string \<Rightarrow> (jsval \<Rightarrow> err + 'a) \<Rightarrow> err + 'a option" where
  "if_sent b k f = (if has_prop b k then e_bind (f (get_prop b k)) (\<lambda>v. Inr (Some v)) else Inr None)"

definition parse_product_patch :: "jsval \<Rightarrow> err + product_patch" where
  "parse_product_patch body =
     e_bind (as_object body ''body'') (\<lambda>b.
     e_bind (if_sent b ''partNo'' part_no_field) (\<lambda>pn.
     e_bind (if_sent b ''name'' (\<lambda>v. required_string v ''name'')) (\<lambda>n.
     e_bind (if_sent b ''nameTH'' (\<lambda>v. string_or_empty v ''nameTH'')) (\<lambda>th.
     e_bind (if_sent b ''category'' (\<lambda>v. string_or_empty v ''category'')) (\<lambda>cat.
     e_bind (if_sent b ''brand'' (\<lambda>v. string_or_empty v ''brand'')) (\<lambda>br.
     e_bind (if_sent b ''price'' (\<lambda>v. non_negative_money v ''price'')) (\<lambda>price.
     e_bind (if_sent b ''cost'' (\<lambda>v. non_negative_money v ''cost'')) (\<lambda>cost.
     e_bind (if_sent b ''minStock'' (\<lambda>v. integer_field v ''minStock'' (- INT4_MAX))) (\<lambda>ms.
     e_bind (if_sent b ''compat'' (\<lambda>v. nullable_string v ''compat'')) (\<lambda>co.
     Inr \<lparr>pp_part_no = pn, pp_name = n, pp_name_th = th, pp_category = cat, pp_brand = br, pp_price = price,
          pp_cost = cost, pp_min_stock = ms, pp_compat = co\<rparr>))))))))))"

section \<open>Stock corrections\<close>

datatype adjustment_type = Adjustment_In | Adjustment_Out

record stock_adjustment =
  sa_delta :: int
  sa_type :: adjustment_type
  sa_note :: "string option"

definition adjustment_type_of :: "jsval \<Rightarrow> adjustment_type option" where
  "adjustment_type_of v =
     (if v = JStr ''adjustment-in'' then Some Adjustment_In
      else if v = JStr ''adjustment-out'' then Some Adjustment_Out else None)"

definition parse_stock_adjustment :: "jsval \<Rightarrow> err + stock_adjustment" where
  "parse_stock_adjustment body =
     e_bind (as_object body ''body'') (\<lambda>b.
     e_bind (if is_nullish (get_prop b ''delta'') then Inl (bad_request ''delta'')
             else integer_field (get_prop b ''delta'') ''delta'' (- INT4_MAX)) (\<lambda>d.
     case adjustment_type_of (get_prop b ''type'') of
       None \<Rightarrow> Inl (bad_request ''type'')
     | Some ty \<Rightarrow>
         if (0 < d \<and> ty = Adjustment_Out) \<or> (d < 0 \<and> ty = Adjustment_In) then Inl (bad_request ''type'')
         else e_bind (nullable_string (get_prop b ''note'') ''note'') (\<lambda>n.
           Inr \<lparr>sa_delta = d, sa_type = ty, sa_note = n\<rparr>)))"

section \<open>Categories and suppliers\<close>

definition parse_category_create :: "jsval \<Rightarrow> err + string" where
  "parse_category_create body =
     e_bind (as_object body ''body'') (\<lambda>b.
     e_bind (required_string (get_prop b ''name'') ''name'') (\<lambda>n. Inr (trim n)))"

record supplier_create =
  sc_product_id :: uuid
  sc_name :: string
  sc_unit_cost :: int
  sc_freight :: int

definition parse_supplier_create :: "jsval \<Rightarrow> err + supplier_create" where
  "parse_supplier_create body =
     e_bind (as_object body ''body'') (\<lambda>b.
     e_bind (required_uuid (get_prop b ''productId'') ''productId'') (\<lambda>p.
     e_bind (required_string (get_prop b ''name'') ''name'') (\<lambda>n.
     e_bind (non_negative_money (get_prop b ''unitCost'') ''unitCost'') (\<lambda>u.
     e_bind (non_negative_money (or_else (get_prop b ''freight'') (JStr ''0.00'')) ''freight'') (\<lambda>f.
     Inr \<lparr>sc_product_id = p, sc_name = n, sc_unit_cost = u, sc_freight = f\<rparr>)))))"

record supplier_patch =
  sup_product_id :: "uuid option"
  sup_name :: "string option"
  sup_unit_cost :: "int option"
  sup_freight :: "int option"

definition parse_supplier_patch :: "jsval \<Rightarrow> err + supplier_patch" where
  "parse_supplier_patch body =
     e_bind (as_object body ''body'') (\<lambda>b.
     e_bind (if_sent b ''productId'' (\<lambda>v. required_uuid v ''productId'')) (\<lambda>p.
     e_bind (if_sent b ''name'' (\<lambda>v. required_string v ''name'')) (\<lambda>n.
     e_bind (if_sent b ''unitCost'' (\<lambda>v. non_negative_money v ''unitCost'')) (\<lambda>u.
     e_bind (if_sent b ''freight'' (\<lambda>v. non_negative_money v ''freight'')) (\<lambda>f.
     Inr \<lparr>sup_product_id = p, sup_name = n, sup_unit_cost = u, sup_freight = f\<rparr>)))))"

section \<open>Facts\<close>

lemma integer_field_Inr:
  "integer_field v f least = Inr n \<longleftrightarrow> v = JNum (Fin (of_int n)) \<and> least \<le> n \<and> n \<le> INT4_MAX"
proof -
  have "integer_field v f least = Inr n \<longleftrightarrow> js_integer v = Some n \<and> least \<le> n \<and> n \<le> INT4_MAX"
    by (auto simp: integer_field_def split: option.splits)
  then show ?thesis by (simp add: js_integer_Some)
qed

lemma non_negative_money_Inr:
  "non_negative_money v f = Inr n \<Longrightarrow> 0 \<le> n \<and> n \<le> MAX_SATANG"
  using to_satang_bound [of v f n] by (auto simp: non_negative_money_def split: if_splits)

lemma required_string_given: "required_string v f = Inr s \<Longrightarrow> v = JStr s \<and> trim s \<noteq> []"
  by (auto simp: required_string_def split: jsval.splits if_splits)

lemma part_no_field_Inr: "part_no_field v = Inr s \<Longrightarrow> s \<noteq> [] \<and> trim s = s"
  by (auto simp: part_no_field_def trim_idem dest: required_string_given)

lemma if_sent_Inr: "if_sent b k f = Inr (Some v) \<Longrightarrow> f (get_prop b k) = Inr v"
  by (auto simp: if_sent_def split: if_splits)

definition product_create_ok :: "product_create \<Rightarrow> bool" where
  "product_create_ok p \<longleftrightarrow> pr_part_no p \<noteq> [] \<and> trim (pr_part_no p) = pr_part_no p \<and>
     0 \<le> pr_price p \<and> pr_price p \<le> MAX_SATANG \<and> 0 \<le> pr_cost p \<and> pr_cost p \<le> MAX_SATANG \<and>
     0 \<le> pr_stock p \<and> pr_stock p \<le> INT4_MAX \<and> \<bar>pr_min_stock p\<bar> \<le> INT4_MAX"

lemma parse_product_create_ok: "parse_product_create body = Inr p \<Longrightarrow> product_create_ok p"
  by (auto simp: parse_product_create_def product_create_ok_def integer_field_Inr
      dest: part_no_field_Inr non_negative_money_Inr)

definition adjustment_ok :: "stock_adjustment \<Rightarrow> bool" where
  "adjustment_ok a \<longleftrightarrow> \<bar>sa_delta a\<bar> \<le> INT4_MAX \<and> (0 < sa_delta a \<longrightarrow> sa_type a = Adjustment_In) \<and>
     (sa_delta a < 0 \<longrightarrow> sa_type a = Adjustment_Out)"

lemma parse_stock_adjustment_ok: "parse_stock_adjustment body = Inr a \<Longrightarrow> adjustment_ok a"
  unfolding parse_stock_adjustment_def e_bind_Inr
proof (elim exE conjE)
  fix b d
  assume d: "(if is_nullish (get_prop b ''delta'') then Inl (bad_request ''delta'')
      else integer_field (get_prop b ''delta'') ''delta'' (- INT4_MAX)) = Inr d"
    and r: "(case adjustment_type_of (get_prop b ''type'') of None \<Rightarrow> Inl (bad_request ''type'')
     | Some ty \<Rightarrow> if (0 < d \<and> ty = Adjustment_Out) \<or> (d < 0 \<and> ty = Adjustment_In) then Inl (bad_request ''type'')
         else e_bind (nullable_string (get_prop b ''note'') ''note'') (\<lambda>n.
           Inr \<lparr>sa_delta = d, sa_type = ty, sa_note = n\<rparr>)) = Inr a"
  have "\<bar>d\<bar> \<le> INT4_MAX" using d by (auto simp: integer_field_Inr split: if_splits)
  then show "adjustment_ok a"
    using r by (cases "sa_type a") (auto simp: adjustment_ok_def split: option.splits if_splits)
qed

end
