(* ===== verification/Purchasing.thy ===== *)
theory Purchasing
  imports Returns_Facts Catalogue_Dto
begin

text \<open>
  Purchase orders (\<open>purchasing/purchase-orders.dto.ts\<close>, \<open>purchasing/purchase-orders.service.ts\<close>):
  \<open>open\<close>, then \<open>received\<close> (which raises stock and moves the average cost) or \<open>cancelled\<close>.
\<close>

section \<open>Request bodies\<close>

record po_line_create =
  pl_part_no :: string
  pl_name :: string
  pl_qty :: int
  pl_cost :: int

record po_create =
  pc_supplier :: string
  pc_items :: "po_line_create list"

definition parse_po_line :: "nat \<times> jsval \<Rightarrow> err + po_line_create" where
  "parse_po_line = (\<lambda>(i, raw).
     e_bind (as_object raw ''body'') (\<lambda>l.
     e_bind (required_string (get_prop l ''partNo'') (item_field i ''partNo'')) (\<lambda>pn.
     e_bind (string_or_empty (get_prop l ''name'') (item_field i ''name'')) (\<lambda>n.
     e_bind (integer_field (get_prop l ''qty'') (item_field i ''qty'') 1) (\<lambda>q.
     e_bind (non_negative_money (get_prop l ''cost'') (item_field i ''cost'')) (\<lambda>c.
     Inr \<lparr>pl_part_no = trim pn, pl_name = n, pl_qty = q, pl_cost = c\<rparr>))))))"

definition parse_po_create :: "jsval \<Rightarrow> err + po_create" where
  "parse_po_create body =
     e_bind (as_object body ''body'') (\<lambda>b.
     e_bind (required_string (get_prop b ''supplier'') ''supplier'') (\<lambda>sup.
     case get_prop b ''items'' of
       JArr (x # xs) \<Rightarrow>
         e_bind (e_mapM parse_po_line (enumerate 0 (x # xs))) (\<lambda>ls.
         Inr \<lparr>pc_supplier = sup, pc_items = ls\<rparr>)
     | _ \<Rightarrow> Inl (bad_request ''items'')))"

definition po_status_of_text :: "string \<Rightarrow> po_status option" where
  "po_status_of_text t =
     (if t = ''open'' then Some Po_Open else if t = ''received'' then Some Po_Received
      else if t = ''cancelled'' then Some Po_Cancelled else None)"

definition parse_po_status :: "string option \<Rightarrow> err + po_status option" where
  "parse_po_status raw =
     (case raw of
        None \<Rightarrow> Inr None
      | Some t \<Rightarrow>
          if t = [] then Inr None
          else case po_status_of_text t of None \<Rightarrow> Inl (bad_request ''status'') | Some p \<Rightarrow> Inr (Some p))"

section \<open>Reading\<close>

record purchase_order_out =
  pu_header :: purchase_order
  pu_lines :: "po_item list"

text \<open>\<open>ORDER BY line_no\<close>\<close>

definition po_lines_of :: "db \<Rightarrow> uuid \<Rightarrow> po_item list" where
  "po_lines_of s i = sort_key pi_line_no (filter (\<lambda>l. pi_po_id l = i) (po_items s))"

definition to_purchase_order :: "purchase_order \<Rightarrow> purchase_order_out op" where
  "to_purchase_order r = tx_get (\<lambda>s. \<lparr>pu_header = r, pu_lines = po_lines_of s (po_id r)\<rparr>)"

definition po_not_found :: err where "po_not_found = HttpErr 404 ''PO_NOT_FOUND'' NoDetail"
definition po_already_received :: err where "po_already_received = HttpErr 409 ''PO_ALREADY_RECEIVED'' NoDetail"
definition po_cancelled_err :: err where "po_cancelled_err = HttpErr 409 ''PO_CANCELLED'' NoDetail"

definition lock_po :: "uuid \<Rightarrow> purchase_order op" where
  "lock_po i =
     tx_bind (tx_get (\<lambda>s. row_of po_id i (purchase_orders s))) (\<lambda>row.
     case row of None \<Rightarrow> tx_throw po_not_found | Some r \<Rightarrow> tx_ret r)"

definition po_get_in :: "uuid \<Rightarrow> purchase_order_out op" where
  "po_get_in i = tx_bind (lock_po i) to_purchase_order"

text \<open>\<open>ORDER BY created_at DESC, id DESC\<close>\<close>

definition newest_orders :: "purchase_order list \<Rightarrow> purchase_order list" where
  "newest_orders ps = sort_key (\<lambda>p. - po_created_at p) (rev (sort_key po_id ps))"

definition po_list_in :: "po_status option \<Rightarrow> nat \<Rightarrow> nat \<Rightarrow> (purchase_order_out list \<times> nat) op" where
  "po_list_in status page limit =
     tx_get (\<lambda>s. let hits = filter (\<lambda>p. case status of None \<Rightarrow> True | Some st \<Rightarrow> po_status_of p = st)
           (purchase_orders s) in
       (map (\<lambda>p. \<lparr>pu_header = p, pu_lines = po_lines_of s (po_id p)\<rparr>)
          (take limit (drop ((page - 1) * limit) (newest_orders hits))), length hits))"

section \<open>Creating\<close>

definition insert_po :: "purchase_order \<Rightarrow> unit op" where
  "insert_po r =
     tx_bind (tx_get id) (\<lambda>s.
     tx_bind (unique (\<not> has_key po_id (po_id r) (purchase_orders s)) ''purchase_orders_pkey'') (\<lambda>_.
     tx_bind (unique (\<not> has_key po_no (po_no r) (purchase_orders s)) ''purchase_orders_tenant_id_po_no_key'') (\<lambda>_.
     tx_modify (\<lambda>s. s\<lparr>purchase_orders := purchase_orders s @ [r]\<rparr>))))"

definition insert_po_item :: "po_item \<Rightarrow> unit op" where
  "insert_po_item r =
     tx_bind (int4 (pi_line_no r)) (\<lambda>_.
     tx_bind (int4 (pi_qty r)) (\<lambda>_.
     tx_bind (numeric_12_2 (pi_cost r)) (\<lambda>_.
     tx_bind (check (0 < pi_qty r) ''po_items_qty_check'') (\<lambda>_.
     tx_bind (check (0 \<le> pi_cost r) ''po_items_cost_check'') (\<lambda>_.
     tx_bind (tx_get id) (\<lambda>s.
     tx_bind (unique (\<not> has_key (\<lambda>i. (pi_po_id i, pi_line_no i)) (pi_po_id r, pi_line_no r) (po_items s))
        ''po_items_pkey'') (\<lambda>_.
     tx_bind (foreign_key (has_key po_id (pi_po_id r) (purchase_orders s)) ''po_items_tenant_id_po_id_fkey'') (\<lambda>_.
     tx_modify (\<lambda>s. s\<lparr>po_items := po_items s @ [r]\<rparr>)))))))))"

definition po_item_of :: "uuid \<Rightarrow> nat \<times> po_line_create \<Rightarrow> po_item" where
  "po_item_of i = (\<lambda>(n, l). \<lparr>pi_po_id = i, pi_line_no = int n, pi_part_no = pl_part_no l, pi_name = pl_name l,
     pi_qty = pl_qty l, pi_cost = pl_cost l\<rparr>)"

definition po_create_in :: "env \<Rightarrow> po_create \<Rightarrow> uuid \<Rightarrow> purchase_order_out op" where
  "po_create_in e input dev =
     tx_bind (issue e dev Po) (\<lambda>no.
     tx_bind (fresh_id e) (\<lambda>i.
     let r = \<lparr>po_id = i, po_no = no, po_supplier = pc_supplier input, po_status_of = Po_Open,
        po_created_at = now e, po_received_at = None, po_cancelled_at = None\<rparr>;
         ls = map (po_item_of i) (enumerate 1 (pc_items input)) in
     tx_bind (insert_po r) (\<lambda>_.
     tx_bind (tx_iter insert_po_item ls) (\<lambda>_.
     tx_ret \<lparr>pu_header = r, pu_lines = sort_key pi_line_no ls\<rparr>))))"

section \<open>Receiving\<close>

text \<open>
  The state of one matched product while the lines are applied. JavaScript keeps it as an object
  that \<open>byKey\<close> and \<open>byId\<close> share; here \<open>byKey\<close> holds the id, which is what the sharing amounts to.
\<close>

record running =
  rn_id :: uuid
  rn_part_no :: string
  rn_name :: string
  rn_stock_before :: int
  rn_cost_before :: int
  rn_stock :: int
  rn_cost :: int
  rn_delta :: int

definition running_of :: "product \<Rightarrow> running" where
  "running_of p = \<lparr>rn_id = p_id p, rn_part_no = p_part_no p, rn_name = p_name p, rn_stock_before = p_stock p,
     rn_cost_before = p_cost p, rn_stock = p_stock p, rn_cost = p_cost p, rn_delta = 0\<rparr>"

text \<open>
  The locked rows: one per live product and line spelling whose lower-cased part numbers agree,
  in product order.
\<close>

definition locked_parts :: "env \<Rightarrow> string list \<Rightarrow> db \<Rightarrow> (product \<times> string) list" where
  "locked_parts e keys s =
     concat (map (\<lambda>p. map (Pair p) (filter (\<lambda>k. pg_lower e (p_part_no p) = pg_lower e k) keys))
       (sort_key p_id (filter (\<lambda>p. \<not> p_deleted p) (products s))))"

text \<open>\<open>byKey\<close>: the last row of a spelling wins. \<open>byId\<close>: the products in the order they come.\<close>

definition by_key :: "(product \<times> string) list \<Rightarrow> string \<Rightarrow> uuid option" where
  "by_key rows k = map_option p_id (map_of (rev (map (\<lambda>(p, k). (k, p)) rows)) k)"

definition by_id :: "(product \<times> string) list \<Rightarrow> running list" where
  "by_id rows = map (\<lambda>i. running_of (fst (hd (filter (\<lambda>r. p_id (fst r) = i) rows))))
     (first_seen (map (\<lambda>r. p_id (fst r)) rows))"

definition receive_line :: "po_item \<Rightarrow> running \<Rightarrow> running" where
  "receive_line l r = r\<lparr>rn_cost := weighted_average_cost_satang (rn_stock r) (rn_cost r) (pi_qty l) (pi_cost l),
     rn_stock := rn_stock r + pi_qty l, rn_delta := rn_delta r + pi_qty l\<rparr>"

text \<open>The loop over the lines; the answer is the running states and the spellings without a product.\<close>

fun apply_lines :: "(string \<Rightarrow> uuid option) \<Rightarrow> po_item list \<Rightarrow> running list \<Rightarrow> err + running list \<times> string list" where
  "apply_lines key [] rs = Inr (rs, [])"
| "apply_lines key (l # ls) rs =
     (case key (pi_part_no l) of
        None \<Rightarrow> e_bind (apply_lines key ls rs) (\<lambda>(rs, un). Inr (rs, pi_part_no l # un))
      | Some i \<Rightarrow>
          if list_ex (\<lambda>r. rn_id r = i \<and> INT4_MAX < rn_stock r + pi_qty l) rs then Inl (bad_request ''stock'')
          else apply_lines key ls (upd_where (\<lambda>r. rn_id r = i) (receive_line l) rs))"

text \<open>A satang amount as JavaScript interpolates the number of baht: \<open>120\<close>, \<open>133.33\<close>, \<open>120.5\<close>.\<close>

definition js_number :: "int \<Rightarrow> string" where
  "js_number n =
     (let a = nat \<bar>n\<bar>; c = a mod 100 in
      (if n < 0 then ''-'' else []) @ show_nat (a div 100) @
      (if c = 0 then []
       else if c mod 10 = 0 then ''.'' @ show_nat (c div 10)
       else ''.'' @ pad_start 2 (show_nat c)))"

text \<open>The UTF-8 bytes of the literal pieces of the note.\<close>

definition note_from :: string where
  "note_from = [CHR 0x20, CHR 0xE0, CHR 0xB8, CHR 0x88, CHR 0xE0, CHR 0xB8, CHR 0xB2, CHR 0xE0, CHR 0xB8, CHR 0x81, CHR 0x20]"

definition note_cost :: string where
  "note_cost = [CHR 0x20, CHR 0xC2, CHR 0xB7, CHR 0x20, CHR 0xE0, CHR 0xB8, CHR 0x97, CHR 0xE0, CHR 0xB8, CHR 0xB8,
     CHR 0xE0, CHR 0xB8, CHR 0x99, CHR 0xE0, CHR 0xB9, CHR 0x83, CHR 0xE0, CHR 0xB8, CHR 0xAB, CHR 0xE0, CHR 0xB8,
     CHR 0xA1, CHR 0xE0, CHR 0xB9, CHR 0x88, CHR 0x20, CHR 0xE0, CHR 0xB8, CHR 0xBF]"

definition receipt_note :: "purchase_order \<Rightarrow> int \<Rightarrow> string" where
  "receipt_note po cost = ''PO '' @ po_no po @ note_from @ po_supplier po @ note_cost @ js_number cost"

definition put_running :: "running \<Rightarrow> product \<Rightarrow> product" where
  "put_running r p = p\<lparr>p_stock := rn_stock r, p_cost := rn_cost r\<rparr>"

text \<open>One product and its log row.\<close>

definition write_received :: "env \<Rightarrow> purchase_order \<Rightarrow> running \<Rightarrow> movement op" where
  "write_received e po r =
     tx_bind (int4 (rn_stock r)) (\<lambda>_.
     tx_bind (numeric_12_2 (rn_cost r)) (\<lambda>_.
     tx_bind (check (0 \<le> rn_cost r) ''products_cost_check'') (\<lambda>_.
     tx_bind (check (0 \<le> rn_stock r) ''products_stock_check'') (\<lambda>_.
     tx_bind (tx_modify (\<lambda>s. s\<lparr>products := upd_where (\<lambda>p. p_id p = rn_id r) (put_running r) (products s)\<rparr>)) (\<lambda>_.
     tx_bind (fresh_id e) (\<lambda>mid.
     let v = \<lparr>mv_id = mid, mv_product_id = rn_id r, mv_part_no = rn_part_no r, mv_name = rn_name r,
        mv_delta = rn_delta r, mv_type = Mv_Receive, mv_note = Some (receipt_note po (rn_cost r)),
        mv_stock_after = rn_stock r, mv_ref_id = Some (po_id po), mv_date = now e\<rparr> in
     tx_bind (insert_movement v) (\<lambda>_. tx_ret v)))))))"

record receive_result =
  rc_po_id :: uuid
  rc_received_at :: int
  rc_updated :: "(uuid \<times> string \<times> int \<times> string) list"
  rc_unmatched :: "string list"
  rc_movements :: "movement list"


definition updated_out :: "running \<Rightarrow> uuid \<times> string \<times> int \<times> string" where
  "updated_out r = (rn_id r, rn_part_no r, rn_stock r, from_satang (rn_cost r))"

definition audit_before :: "running \<Rightarrow> jsval" where
  "audit_before r = JObj [(''id'', JStr (rn_id r)), (''stock'', JNum (Fin (of_int (rn_stock_before r)))),
     (''cost'', JStr (from_satang (rn_cost_before r)))]"

definition audit_after :: "running \<Rightarrow> jsval" where
  "audit_after r = JObj [(''productId'', JStr (rn_id r)), (''partNo'', JStr (rn_part_no r)),
     (''stockAfter'', JNum (Fin (of_int (rn_stock r)))), (''costAfter'', JStr (from_satang (rn_cost r)))]"

definition receipt_audit :: "uuid \<Rightarrow> uuid option \<Rightarrow> uuid \<Rightarrow> running list \<Rightarrow> string list \<Rightarrow> audit_row" where
  "receipt_audit user dev i touched unmatched =
     \<lparr>au_user = Some user, au_device = dev, au_action = ''po.receive'', au_entity = ''purchase_order'',
      au_entity_id = i, au_before = Some (JObj [(''products'', JArr (map audit_before touched))]),
      au_after = Some (JObj [(''products'', JArr (map audit_after touched)),
        (''unmatched'', JArr (map JStr unmatched))])\<rparr>"

definition mark_received :: "env \<Rightarrow> purchase_order \<Rightarrow> purchase_order" where
  "mark_received e p = p\<lparr>po_status_of := Po_Received, po_received_at := Some (now e)\<rparr>"

definition receivable :: "uuid \<Rightarrow> purchase_order op" where
  "receivable i =
     tx_bind (lock_po i) (\<lambda>po.
     tx_bind (tx_guard (po_status_of po \<noteq> Po_Received) po_already_received) (\<lambda>_.
     tx_bind (tx_guard (po_status_of po \<noteq> Po_Cancelled) po_cancelled_err) (\<lambda>_. tx_ret po)))"

text \<open>What the lines come to: the running states after them and the unmatched spellings.\<close>

definition tally :: "env \<Rightarrow> uuid \<Rightarrow> db \<Rightarrow> err + running list \<times> string list" where
  "tally e i s =
     (let ls = po_lines_of s i; rows = locked_parts e (first_seen (map pi_part_no ls)) s in
      apply_lines (by_key rows) ls (by_id rows))"

definition touched_of :: "running list \<Rightarrow> running list" where
  "touched_of rs = sort_key rn_id (filter (\<lambda>r. 0 < rn_delta r) rs)"

definition receive_in :: "env \<Rightarrow> uuid \<Rightarrow> uuid \<Rightarrow> uuid option \<Rightarrow> receive_result op" where
  "receive_in e i user dev =
     tx_bind (receivable i) (\<lambda>po.
     tx_bind (tx_get (tally e i)) (\<lambda>t.
     tx_bind (tx_lift t) (\<lambda>(rs, unmatched).
     let touched = touched_of rs in
     tx_bind (tx_mapM (write_received e po) touched) (\<lambda>vs.
     tx_bind (tx_modify (\<lambda>s. s\<lparr>purchase_orders := upd_where (\<lambda>p. po_id p = i) (mark_received e) (purchase_orders s)\<rparr>)) (\<lambda>_.
     tx_bind (insert_audit (receipt_audit user dev i touched unmatched)) (\<lambda>_.
     tx_bind (if touched \<noteq> [] then add_hook (Invalidate ''products'') else tx_ret ()) (\<lambda>_.
     tx_ret \<lparr>rc_po_id = i, rc_received_at = now e, rc_updated = map updated_out touched, rc_unmatched = unmatched,
        rc_movements = vs\<rparr>)))))))"

section \<open>Cancelling and deleting\<close>

definition mark_cancelled :: "env \<Rightarrow> purchase_order \<Rightarrow> purchase_order" where
  "mark_cancelled e p = p\<lparr>po_status_of := Po_Cancelled, po_cancelled_at := Some (now e)\<rparr>"

definition po_cancel_in :: "env \<Rightarrow> uuid \<Rightarrow> purchase_order_out op" where
  "po_cancel_in e i =
     tx_bind (lock_po i) (\<lambda>po.
     tx_bind (tx_guard (po_status_of po \<noteq> Po_Received) po_already_received) (\<lambda>_.
     tx_bind (if po_status_of po = Po_Open
              then tx_bind (tx_modify (\<lambda>s. s\<lparr>purchase_orders := upd_where (\<lambda>p. po_id p = i) (mark_cancelled e)
                     (purchase_orders s)\<rparr>)) (\<lambda>_. tx_ret (mark_cancelled e po))
              else tx_ret po) to_purchase_order))"

text \<open>\<open>po_items\<close> goes with its order: \<open>ON DELETE CASCADE\<close>.\<close>

definition po_delete_in :: "uuid \<Rightarrow> uuid op" where
  "po_delete_in i =
     tx_bind (tx_get (\<lambda>s. row_of po_id i (purchase_orders s))) (\<lambda>row.
     case row of
       None \<Rightarrow> tx_ret i
     | Some po \<Rightarrow>
         tx_bind (tx_guard (po_status_of po \<noteq> Po_Received) po_already_received) (\<lambda>_.
         tx_bind (tx_modify (\<lambda>s. s\<lparr>purchase_orders := filter (\<lambda>p. po_id p \<noteq> i) (purchase_orders s),
            po_items := filter (\<lambda>l. pi_po_id l \<noteq> i) (po_items s)\<rparr>)) (\<lambda>_.
         tx_ret i)))"

end
