(* ===== verification/Purchasing_Facts.thy ===== *)
theory Purchasing_Facts
  imports Purchasing
begin

text \<open>
  What the purchase-order operations write, and the properties of a receipt: what goes on the
  shelf, what happens to the cost, and that an order is received once.
\<close>

section \<open>Applying the lines\<close>

definition lines_for :: "(string \<Rightarrow> uuid option) \<Rightarrow> po_item list \<Rightarrow> uuid \<Rightarrow> po_item list" where
  "lines_for key ls i = filter (\<lambda>l. key (pi_part_no l) = Some i) ls"

definition receive_lines :: "po_item list \<Rightarrow> running \<Rightarrow> running" where
  "receive_lines ls r = foldl (\<lambda>r l. receive_line l r) r ls"

interpretation running_upd: keyed_update rn_id "receive_line l" for l
  by unfold_locales (simp add: receive_line_def)

lemma receive_lines_simps [simp]:
  "receive_lines [] r = r" "receive_lines (l # ls) r = receive_lines ls (receive_line l r)"
  by (simp_all add: receive_lines_def)

lemma receive_line_fields [simp]:
  "rn_id (receive_line l r) = rn_id r" "rn_part_no (receive_line l r) = rn_part_no r"
  "rn_name (receive_line l r) = rn_name r" "rn_stock (receive_line l r) = rn_stock r + pi_qty l"
  "rn_delta (receive_line l r) = rn_delta r + pi_qty l"
  "rn_stock_before (receive_line l r) = rn_stock_before r" "rn_cost_before (receive_line l r) = rn_cost_before r"
  by (simp_all add: receive_line_def)

lemma receive_lines_fields [simp]:
  "rn_id (receive_lines ls r) = rn_id r" "rn_part_no (receive_lines ls r) = rn_part_no r"
  "rn_name (receive_lines ls r) = rn_name r" "rn_stock (receive_lines ls r) = rn_stock r + sum_by pi_qty ls"
  "rn_delta (receive_lines ls r) = rn_delta r + sum_by pi_qty ls"
  "rn_stock_before (receive_lines ls r) = rn_stock_before r" "rn_cost_before (receive_lines ls r) = rn_cost_before r"
  by (induction ls arbitrary: r) (simp_all add: add.assoc)

lemma apply_lines_Inr:
  "apply_lines key ls rs = Inr (rs', un) \<Longrightarrow>
   rs' = map (\<lambda>r. receive_lines (lines_for key ls (rn_id r)) r) rs \<and>
   un = map pi_part_no (filter (\<lambda>l. key (pi_part_no l) = None) ls)"
proof (induction ls arbitrary: rs un)
  case Nil
  then show ?case by (simp add: lines_for_def)
next
  case (Cons l ls)
  show ?case
  proof (cases "key (pi_part_no l)")
    case None
    with Cons.prems obtain un' where "apply_lines key ls rs = Inr (rs', un')" "un = pi_part_no l # un'" by auto
    with Cons.IH [of rs un'] None show ?thesis by (simp add: lines_for_def)
  next
    case (Some i)
    with Cons.prems have "apply_lines key ls (upd_where (\<lambda>r. rn_id r = i) (receive_line l) rs) = Inr (rs', un)"
      by (simp split: if_splits)
    from Cons.IH [OF this] Some show ?thesis by (simp add: lines_for_def upd_where_def)
  qed
qed

text \<open>The cost never leaves an interval that holds the old cost and every cost given on a line.\<close>

lemma receive_lines_cost:
  assumes "0 \<le> rn_stock r" "lo \<le> rn_cost r" "rn_cost r \<le> hi" "0 \<le> lo" "hi \<le> 2 ^ 53"
    and "\<forall>l \<in> set ls. 0 < pi_qty l \<and> 0 \<le> pi_cost l \<and> (0 < pi_cost l \<longrightarrow> lo \<le> pi_cost l \<and> pi_cost l \<le> hi)"
  shows "lo \<le> rn_cost (receive_lines ls r) \<and> rn_cost (receive_lines ls r) \<le> hi"
  using assms
proof (induction ls arbitrary: r)
  case (Cons l ls)
  have l: "0 < pi_qty l" "0 \<le> pi_cost l" "0 < pi_cost l \<Longrightarrow> lo \<le> pi_cost l \<and> pi_cost l \<le> hi"
    using Cons.prems(6) by auto
  define c where "c = (if 0 < pi_cost l then pi_cost l else rn_cost r)"
  have c: "lo \<le> c" "c \<le> hi" using l(3) Cons.prems(2,3) by (auto simp: c_def)
  have "pi_cost l \<le> 2 ^ 53" using l Cons.prems(4,5) by (cases "0 < pi_cost l") auto
  then have "rn_cost (receive_line l r) =
      (2 * (rn_stock r * rn_cost r + pi_qty l * c) + (rn_stock r + pi_qty l)) div (2 * (rn_stock r + pi_qty l))"
    using weighted_average_eq [of "rn_stock r" "pi_qty l" "rn_cost r" "pi_cost l"] Cons.prems l
    by (simp add: receive_line_def c_def)
  with average_between [OF Cons.prems(1) l(1) Cons.prems(2,3) c]
  have "lo \<le> rn_cost (receive_line l r)" "rn_cost (receive_line l r) \<le> hi" by simp_all
  then show ?case using Cons.IH [of "receive_line l r"] Cons.prems l by simp
qed simp

section \<open>Which product a line reaches\<close>

definition live_matches :: "env \<Rightarrow> db \<Rightarrow> po_item \<Rightarrow> uuid \<Rightarrow> bool" where
  "live_matches e s l k \<longleftrightarrow> list_ex (\<lambda>p. \<not> p_deleted p \<and> p_id p = k \<and>
     pg_lower e (p_part_no p) = pg_lower e (pi_part_no l)) (products s)"

text \<open>The keys of \<open>products\<close>: the primary key and \<open>uq_products_partno_ci\<close>.\<close>

definition products_keyed :: "db \<Rightarrow> bool" where
  "products_keyed s \<longleftrightarrow> distinct (map p_id (products s))"

definition part_nos_unique :: "env \<Rightarrow> db \<Rightarrow> bool" where
  "part_nos_unique e s \<longleftrightarrow>
     distinct (map (\<lambda>p. pg_lower e (p_part_no p)) (filter (\<lambda>p. \<not> p_deleted p) (products s)))"

lemma locked_parts_mem:
  "(p, k) \<in> set (locked_parts e keys s) \<longleftrightarrow>
     p \<in> set (products s) \<and> \<not> p_deleted p \<and> k \<in> set keys \<and> pg_lower e (p_part_no p) = pg_lower e k"
  by (auto simp: locked_parts_def)

lemma by_key_Some: "by_key rows k = Some i \<Longrightarrow> \<exists>p. (p, k) \<in> set rows \<and> p_id p = i"
  by (auto simp: by_key_def dest!: map_of_SomeD)

lemma by_key_None: "by_key rows k = None \<longleftrightarrow> (\<forall>p. (p, k) \<notin> set rows)"
  by (auto simp: by_key_def map_of_eq_None_iff image_iff split: prod.splits)

lemma distinct_map_eq: "distinct (map f xs) \<Longrightarrow> x \<in> set xs \<Longrightarrow> y \<in> set xs \<Longrightarrow> f x = f y \<Longrightarrow> x = y"
  by (metis distinct_map inj_onD)

lemma by_key_locked:
  assumes "part_nos_unique e s" "pi_part_no l \<in> set keys"
  shows "by_key (locked_parts e keys s) (pi_part_no l) = Some k \<longleftrightarrow> live_matches e s l k"
proof
  assume "by_key (locked_parts e keys s) (pi_part_no l) = Some k"
  then show "live_matches e s l k"
    by (auto simp: live_matches_def list_ex_iff locked_parts_mem dest!: by_key_Some)
next
  assume "live_matches e s l k"
  then obtain p where p: "p \<in> set (products s)" "\<not> p_deleted p" "p_id p = k"
    "pg_lower e (p_part_no p) = pg_lower e (pi_part_no l)"
    by (auto simp: live_matches_def list_ex_iff)
  then have "by_key (locked_parts e keys s) (pi_part_no l) \<noteq> None"
    using assms(2) by (auto simp: by_key_None locked_parts_mem)
  then obtain j where j: "by_key (locked_parts e keys s) (pi_part_no l) = Some j" by auto
  then obtain q where q: "q \<in> set (products s)" "\<not> p_deleted q" "p_id q = j"
    "pg_lower e (p_part_no q) = pg_lower e (pi_part_no l)"
    by (auto simp: locked_parts_mem dest!: by_key_Some)
  have "q = p"
    using distinct_map_eq [OF assms(1) [unfolded part_nos_unique_def], of q p] p q by simp
  then show "by_key (locked_parts e keys s) (pi_part_no l) = Some k" using j q p by simp
qed

text \<open>The running states stand for distinct products, each live and read as it is on the shelf.\<close>

lemma hd_filter:
  assumes "x \<in> set xs" "P x"
  shows "hd (filter P xs) \<in> set xs" "P (hd (filter P xs))"
proof -
  have "filter P xs \<noteq> []" using assms by (auto simp: filter_empty_conv)
  then have "hd (filter P xs) \<in> set (filter P xs)" by (rule hd_in_set)
  then show "hd (filter P xs) \<in> set xs" "P (hd (filter P xs))" by simp_all
qed

lemma rn_id_running_of [simp]: "rn_id (running_of p) = p_id p"
  by (simp add: running_of_def)

lemma by_id_ids: "map rn_id (by_id rows) = first_seen (map (\<lambda>r. p_id (fst r)) rows)"
  unfolding by_id_def map_map
proof (rule map_idI)
  fix i
  assume "i \<in> set (first_seen (map (\<lambda>r. p_id (fst r)) rows))"
  then obtain r where "r \<in> set rows" "p_id (fst r) = i" by auto
  from hd_filter(2) [of r rows "\<lambda>r. p_id (fst r) = i", OF this]
  show "(rn_id \<circ> (\<lambda>i. running_of (fst (hd (filter (\<lambda>r. p_id (fst r) = i) rows))))) i = i" by simp
qed

lemma by_id_distinct: "distinct (map rn_id (by_id rows))"
  by (simp add: by_id_ids)

lemma by_id_mem:
  assumes "r \<in> set (by_id (locked_parts e keys s))" "products_keyed s"
  shows "\<exists>p. row_of p_id (rn_id r) (products s) = Some p \<and> \<not> p_deleted p \<and> r = running_of p"
proof -
  let ?rows = "locked_parts e keys s"
  from assms(1) obtain x where x: "x \<in> set ?rows"
    "r = running_of (fst (hd (filter (\<lambda>r. p_id (fst r) = p_id (fst x)) ?rows)))"
    by (auto simp: by_id_def)
  define y where "y = hd (filter (\<lambda>r. p_id (fst r) = p_id (fst x)) ?rows)"
  have "y \<in> set ?rows" unfolding y_def by (rule hd_filter(1) [OF x(1)]) simp
  then have "fst y \<in> set (products s)" "\<not> p_deleted (fst y)"
    using locked_parts_mem [of "fst y" "snd y" e keys s] by auto
  then show ?thesis
    using row_of_unique [of p_id "products s" "fst y"] assms(2) x(2) by (simp add: y_def [symmetric] products_keyed_def)
qed

lemma by_id_complete:
  assumes "p \<in> set (products s)" "\<not> p_deleted p" "k \<in> set keys" "pg_lower e (p_part_no p) = pg_lower e k"
  shows "p_id p \<in> set (map rn_id (by_id (locked_parts e keys s)))"
proof -
  have "(p, k) \<in> set (locked_parts e keys s)" using assms by (simp add: locked_parts_mem)
  then show ?thesis unfolding by_id_ids by (simp add: rev_image_eqI)
qed

section \<open>Writing the products\<close>

definition put_all :: "running list \<Rightarrow> product list \<Rightarrow> product list" where
  "put_all rs ps = fold (\<lambda>r. upd_where (\<lambda>p. p_id p = rn_id r) (put_running r)) rs ps"

interpretation put_upd: keyed_update p_id "put_running r" for r
  by unfold_locales (simp add: put_running_def)

lemma put_all_simps [simp]:
  "put_all [] ps = ps"
  "put_all (r # rs) ps = put_all rs (upd_where (\<lambda>p. p_id p = rn_id r) (put_running r) ps)"
  by (simp_all add: put_all_def)

lemma keys_put_all: "map p_id (put_all rs ps) = map p_id ps"
  by (induction rs arbitrary: ps) (simp_all add: put_upd.keys_upd)

lemma row_of_put_all:
  "distinct (map rn_id rs) \<Longrightarrow> row_of p_id k (put_all rs ps) =
     map_option (\<lambda>p. case row_of rn_id k rs of None \<Rightarrow> p | Some r \<Rightarrow> put_running r p) (row_of p_id k ps)"
proof (induction rs arbitrary: ps)
  case (Cons r rs)
  show ?case
  proof (cases "rn_id r = k")
    case True
    then have "row_of rn_id k rs = None" using Cons.prems by (auto simp: row_of_None has_key_def)
    then show ?thesis using Cons True by (simp add: put_upd.row_of_upd option.map_comp comp_def option.map_ident)
  next
    case False
    then show ?thesis using Cons by (simp add: put_upd.row_of_upd)
  qed
qed (simp add: option.map_ident)

lemma write_received_Inr:
  assumes "write_received e po r s = Inr (v, s')"
  shows "s' = s\<lparr>products := upd_where (\<lambda>p. p_id p = rn_id r) (put_running r) (products s),
      minted := minted s + 1, movements := movements s @ [v]\<rparr> \<and>
    restored_row Mv_Receive (po_id po) (rn_id r, rn_delta r) v \<and>
    \<not> has_key mv_ref_key (Mv_Receive, Some (po_id po), rn_id r) (movements s)"
  using assms
  by (auto simp: write_received_def constraint_defs restored_row_def mv_ref_key_def Let_def
      dest!: insert_movement_Inr)

lemma write_loop_Inr:
  assumes "tx_mapM (write_received e po) rs s = Inr (vs, s')"
  shows "s' = s\<lparr>products := put_all rs (products s), minted := minted s + length rs, movements := movements s @ vs\<rparr> \<and>
    list_all2 (\<lambda>r v. restored_row Mv_Receive (po_id po) (rn_id r, rn_delta r) v) rs vs"
  using assms
proof (induction rs arbitrary: s vs)
  case (Cons r rs)
  then obtain v s1 ws where v: "write_received e po r s = Inr (v, s1)"
    and ws: "tx_mapM (write_received e po) rs s1 = Inr (ws, s')" and vs: "vs = v # ws" by auto
  from Cons.IH [OF ws] write_received_Inr [OF v] vs show ?case by simp
qed simp

section \<open>A receipt\<close>

definition order_lines_ok :: "db \<Rightarrow> bool" where
  "order_lines_ok s \<longleftrightarrow> list_all (\<lambda>l. 0 < pi_qty l \<and> 0 \<le> pi_cost l \<and> pi_cost l \<le> MAX_SATANG) (po_items s)"

text \<open>What an order brings in of a product, and the lines nothing on the shelf answers to.\<close>

definition ordered_qty :: "env \<Rightarrow> db \<Rightarrow> uuid \<Rightarrow> uuid \<Rightarrow> int" where
  "ordered_qty e s i k = sum_by pi_qty (filter (\<lambda>l. live_matches e s l k) (po_lines_of s i))"

definition unmatched_lines :: "env \<Rightarrow> db \<Rightarrow> uuid \<Rightarrow> po_item list" where
  "unmatched_lines e s i = filter (\<lambda>l. \<not> list_ex (\<lambda>p. \<not> p_deleted p \<and>
     pg_lower e (p_part_no p) = pg_lower e (pi_part_no l)) (products s)) (po_lines_of s i)"

lemma lines_for_locked:
  assumes "part_nos_unique e s" "set (map pi_part_no ls) \<subseteq> set keys"
  shows "lines_for (by_key (locked_parts e keys s)) ls k = filter (\<lambda>l. live_matches e s l k) ls"
  unfolding lines_for_def
proof (rule filter_cong)
  fix l
  assume "l \<in> set ls"
  then have "pi_part_no l \<in> set keys" using assms(2) by auto
  then show "(by_key (locked_parts e keys s) (pi_part_no l) = Some k) = live_matches e s l k"
    by (rule by_key_locked [OF assms(1)])
qed simp

definition tally_row :: "env \<Rightarrow> uuid \<Rightarrow> db \<Rightarrow> product \<Rightarrow> running" where
  "tally_row e i s p = receive_lines (filter (\<lambda>l. live_matches e s l (p_id p)) (po_lines_of s i)) (running_of p)"

text \<open>The touched states: one per live product the order brings something of.\<close>

lemma tally_Inr:
  assumes "tally e i s = Inr (rs, un)" "part_nos_unique e s" "products_keyed s"
  shows "distinct (map rn_id rs)" "un = map pi_part_no (unmatched_lines e s i)"
    "\<And>r. r \<in> set rs \<Longrightarrow> \<exists>p. row_of p_id (rn_id r) (products s) = Some p \<and> r = tally_row e i s p"
    "\<And>k. ordered_qty e s i k \<noteq> 0 \<Longrightarrow> has_key rn_id k rs"
proof -
  let ?ls = "po_lines_of s i"
  let ?keys = "first_seen (map pi_part_no ?ls)"
  let ?rows = "locked_parts e ?keys s"
  have a: "rs = map (\<lambda>r. receive_lines (lines_for (by_key ?rows) ?ls (rn_id r)) r) (by_id ?rows)"
    "un = map pi_part_no (filter (\<lambda>l. by_key ?rows (pi_part_no l) = None) ?ls)"
    using apply_lines_Inr [of "by_key ?rows" ?ls "by_id ?rows" rs un] assms(1) by (simp_all add: tally_def Let_def)
  have ids: "map rn_id rs = map rn_id (by_id ?rows)" by (simp add: a(1))
  show "distinct (map rn_id rs)" unfolding ids by (rule by_id_distinct)
  have "by_key ?rows (pi_part_no l) = None \<longleftrightarrow> \<not> list_ex (\<lambda>p. \<not> p_deleted p \<and>
      pg_lower e (p_part_no p) = pg_lower e (pi_part_no l)) (products s)" if "l \<in> set ?ls" for l
    using that by (auto simp: by_key_None locked_parts_mem list_ex_iff)
  then show "un = map pi_part_no (unmatched_lines e s i)"
    unfolding a(2) unmatched_lines_def by (simp cong: filter_cong)
  have lf: "lines_for (by_key ?rows) ?ls k = filter (\<lambda>l. live_matches e s l k) ?ls" for k
    by (rule lines_for_locked [OF assms(2)]) simp
  show "\<exists>p. row_of p_id (rn_id r) (products s) = Some p \<and> r = tally_row e i s p" if "r \<in> set rs" for r
  proof -
    from that obtain q where q: "q \<in> set (by_id ?rows)" "r = receive_lines (filter (\<lambda>l. live_matches e s l (rn_id q)) ?ls) q"
      unfolding a(1) lf by auto
    with by_id_mem [OF q(1) assms(3)] show ?thesis by (auto simp: tally_row_def)
  qed
  show "has_key rn_id k rs" if "ordered_qty e s i k \<noteq> 0" for k
  proof -
    from that have "filter (\<lambda>l. live_matches e s l k) ?ls \<noteq> []" by (auto simp: ordered_qty_def)
    then obtain l p where "l \<in> set ?ls" "p \<in> set (products s)" "\<not> p_deleted p" "p_id p = k"
      "pg_lower e (p_part_no p) = pg_lower e (pi_part_no l)"
      by (auto simp: filter_empty_conv live_matches_def list_ex_iff)
    then have "k \<in> set (map rn_id (by_id ?rows))" using by_id_complete [of p s "pi_part_no l" ?keys e] by auto
    then show ?thesis by (simp add: has_key_def flip: ids set_map)
  qed
qed

lemma sum_by_row:
  "distinct (map key xs) \<Longrightarrow>
   sum_by f (filter (\<lambda>x. key x = k) xs) = (case row_of key k xs of None \<Rightarrow> 0 | Some x \<Rightarrow> f x)"
proof (induction xs)
  case (Cons x xs)
  show ?case
  proof (cases "key x = k")
    case True
    then have "row_of key k xs = None" using Cons.prems by (auto simp: row_of_None has_key_def)
    then show ?thesis using Cons True by simp
  qed (use Cons in simp)
qed simp

lemma po_lines_of_ok: "order_lines_ok s \<Longrightarrow> l \<in> set (po_lines_of s i) \<Longrightarrow>
    0 < pi_qty l \<and> 0 \<le> pi_cost l \<and> pi_cost l \<le> MAX_SATANG"
  by (auto simp: order_lines_ok_def po_lines_of_def list_all_iff)

lemma touched_distinct: "distinct (map rn_id rs) \<Longrightarrow> distinct (map rn_id (touched_of rs))"
  unfolding touched_of_def by (simp add: distinct_map inj_on_def)

lemma touched_row:
  assumes "tally e i s = Inr (rs, un)" "part_nos_unique e s" "products_keyed s" "order_lines_ok s"
  shows "case row_of rn_id k (touched_of rs) of
      None \<Rightarrow> ordered_qty e s i k = 0
    | Some r \<Rightarrow> (\<exists>p. row_of p_id k (products s) = Some p \<and> r = tally_row e i s p \<and> rn_delta r = ordered_qty e s i k \<and>
        rn_stock r = p_stock p + ordered_qty e s i k)"
proof -
  note t = tally_Inr [OF assms(1-3)]
  have delta: "\<exists>p. row_of p_id (rn_id r) (products s) = Some p \<and> r = tally_row e i s p \<and>
      rn_delta r = ordered_qty e s i (rn_id r) \<and> rn_stock r = p_stock p + ordered_qty e s i (rn_id r)" if "r \<in> set rs" for r
    using t(3) [OF that] by (auto simp: tally_row_def ordered_qty_def running_of_def dest: row_of_SomeD)
  have "0 \<le> ordered_qty e s i k"
    unfolding ordered_qty_def by (rule sum_by_nonneg) (use po_lines_of_ok [OF assms(4)] in force)
  show ?thesis
  proof (cases "row_of rn_id k (touched_of rs)")
    case None
    have "ordered_qty e s i k = 0"
    proof (rule ccontr)
      assume n: "ordered_qty e s i k \<noteq> 0"
      then obtain r where r: "r \<in> set rs" "rn_id r = k" using t(4) by (auto simp: has_key_def)
      with delta [OF r(1)] n \<open>0 \<le> ordered_qty e s i k\<close> have "r \<in> set (touched_of rs)" by (auto simp: touched_of_def)
      with None r(2) show False by (auto simp: row_of_None has_key_def)
    qed
    then show ?thesis using None by simp
  next
    case (Some r)
    then have "r \<in> set rs" "rn_id r = k" by (auto simp: touched_of_def dest!: row_of_SomeD)
    then show ?thesis using delta [of r] Some by auto
  qed
qed

lemma receivable_Inr:
  "receivable i s = Inr (po, s') \<longleftrightarrow> s' = s \<and> row_of po_id i (purchase_orders s) = Some po \<and> po_status_of po = Po_Open"
  by (cases "row_of po_id i (purchase_orders s)"; cases "po_status_of po")
    (auto simp: receivable_def lock_po_def)

lemma receive_in_Inr:
  assumes "receive_in e i u d s = Inr (r, s')"
  obtains po rs un vs where "row_of po_id i (purchase_orders s) = Some po" "po_status_of po = Po_Open"
    "tally e i s = Inr (rs, un)"
    "list_all2 (\<lambda>r v. restored_row Mv_Receive i (rn_id r, rn_delta r) v) (touched_of rs) vs"
    "products s' = put_all (touched_of rs) (products s)" "movements s' = movements s @ vs"
    "purchase_orders s' = upd_where (\<lambda>p. po_id p = i) (mark_received e) (purchase_orders s)"
    "audit_log s' = audit_log s @ [receipt_audit u d i (touched_of rs) un]" "rc_unmatched r = un" "rc_movements r = vs"
proof -
  from assms [unfolded receive_in_def] obtain po s1 where po1: "receivable i s = Inr (po, s1)"
    and rest: "tx_bind (tx_get (tally e i)) (\<lambda>t. tx_bind (tx_lift t) (\<lambda>(rs, unmatched).
     let touched = touched_of rs in
     tx_bind (tx_mapM (write_received e po) touched) (\<lambda>vs.
     tx_bind (tx_modify (\<lambda>s. s\<lparr>purchase_orders := upd_where (\<lambda>p. po_id p = i) (mark_received e) (purchase_orders s)\<rparr>)) (\<lambda>_.
     tx_bind (insert_audit (receipt_audit u d i touched unmatched)) (\<lambda>_.
     tx_bind (if touched \<noteq> [] then add_hook (Invalidate ''products'') else tx_ret ()) (\<lambda>_.
     tx_ret \<lparr>rc_po_id = i, rc_received_at = now e, rc_updated = map updated_out touched, rc_unmatched = unmatched,
        rc_movements = vs\<rparr>)))))) s1 = Inr (r, s')" by (rule tx_bindE)
  have po: "s1 = s" "row_of po_id i (purchase_orders s) = Some po" "po_status_of po = Po_Open"
    using po1 by (simp_all add: receivable_Inr)
  obtain rs un where t: "tally e i s = Inr (rs, un)" using rest po(1) by (cases "tally e i s") auto
  obtain vs s2 where l: "tx_mapM (write_received e po) (touched_of rs) s = Inr (vs, s2)"
    and s': "products s' = products s2" "movements s' = movements s2"
      "purchase_orders s' = upd_where (\<lambda>p. po_id p = i) (mark_received e) (purchase_orders s2)"
      "audit_log s' = audit_log s2 @ [receipt_audit u d i (touched_of rs) un]" "rc_unmatched r = un" "rc_movements r = vs"
    using rest unfolding po(1)
    by (cases "tx_mapM (write_received e po) (touched_of rs) s")
      (auto simp: t tx_bind_def insert_audit_def add_hook_def Let_def split: if_splits)
  have "po_id po = i" using row_of_SomeD [OF po(2)] by simp
  with write_loop_Inr [OF l] show thesis
    by (intro that [OF po(2,3) t, of vs]) (simp_all add: s')
qed

text \<open>What a receipt does to the shelf, on the specification's side.\<close>

lemma receive_in_shelf:
  assumes "receive_in e i u d s = Inr (r, s')" "products_keyed s" "part_nos_unique e s" "order_lines_ok s"
  shows "on_hand s' k = on_hand s k + ordered_qty e s i k \<and> moves_logged s s' \<and> products_keyed s'"
proof -
  obtain rs un vs where w: "tally e i s = Inr (rs, un)"
    "list_all2 (\<lambda>r v. restored_row Mv_Receive i (rn_id r, rn_delta r) v) (touched_of rs) vs"
    "products s' = put_all (touched_of rs) (products s)" "movements s' = movements s @ vs"
    by (rule receive_in_Inr [OF assms(1)])
  note dist = touched_distinct [OF tally_Inr(1) [OF w(1) assms(3,2)]]
  note row = touched_row [OF w(1) assms(3,2,4)]
  have shelf: "on_hand s' k = on_hand s k + ordered_qty e s i k" for k
    using row [of k]
    by (auto simp: on_hand_def w(3) row_of_put_all [OF dist] put_running_def split: option.splits)
  have "list_all2 (\<lambda>r v. mv_product_id v = rn_id r \<and> mv_delta v = rn_delta r) (touched_of rs) vs"
    using w(2) by (rule list.rel_mono_strong) (simp add: restored_row_def)
  then have log: "logged_rows vs k = ordered_qty e s i k" for k
    using row [of k] sum_by_row [OF dist, of rn_delta k] logged_rows_all2 [of rn_id rn_delta "touched_of rs" vs k]
    by (auto split: option.splits)
  have "on_hand s' k = on_hand s k + logged_rows vs k" for k by (simp only: shelf log)
  then have "moves_logged s s'" by (rule moves_loggedI [OF w(4)])
  with shelf show ?thesis using assms(2) by (simp add: products_keyed_def w(3) keys_put_all)
qed

lemma receive_in_cost:
  assumes "receive_in e i u d s = Inr (r, s')" "products_keyed s" "part_nos_unique e s" "order_lines_ok s"
    and "row_of p_id k (products s) = Some p" "0 \<le> p_stock p"
  obtains q where "row_of p_id k (products s') = Some q"
    "q = p \<or> p_cost q = rn_cost (tally_row e i s p) \<and> p_stock q = p_stock p + ordered_qty e s i k"
    "ordered_qty e s i k = 0 \<Longrightarrow> q = p"
proof -
  obtain rs un vs where w: "tally e i s = Inr (rs, un)"
    "products s' = put_all (touched_of rs) (products s)"
    by (rule receive_in_Inr [OF assms(1)])
  note dist = touched_distinct [OF tally_Inr(1) [OF w(1) assms(3,2)]]
  show thesis
  proof (cases "row_of rn_id k (touched_of rs)")
    case None
    then show thesis using that [of p] by (simp add: w(2) row_of_put_all [OF dist] assms(5))
  next
    case (Some x)
    then have x: "x = tally_row e i s p" "rn_stock x = p_stock p + ordered_qty e s i k" "rn_delta x = ordered_qty e s i k"
      using touched_row [OF w(1) assms(3,2,4), of k] assms(5) by auto
    have "x \<in> set (touched_of rs)" using row_of_SomeD [OF Some] by simp
    then have "0 < rn_delta x" by (simp add: touched_of_def)
    with that [of "put_running x p"] x Some show thesis
      by (simp add: w(2) row_of_put_all [OF dist] assms(5)) (simp add: put_running_def)
  qed
qed

section \<open>Frames\<close>

lemma tx_fixes_receive_in:
  assumes "\<And>s x. f (s\<lparr>products := x\<rparr>) = f s" "\<And>s x. f (s\<lparr>movements := x\<rparr>) = f s"
    "\<And>s x. f (s\<lparr>minted := x\<rparr>) = f s" "\<And>s x. f (s\<lparr>purchase_orders := x\<rparr>) = f s"
    "\<And>s x. f (s\<lparr>audit_log := x\<rparr>) = f s" "\<And>s x. f (s\<lparr>hooks := x\<rparr>) = f s"
  shows "tx_fixes f (receive_in e i u d)"
  unfolding receive_in_def receivable_def lock_po_def write_received_def
  by (intro tx_fix; simp add: assms)

lemma tx_fixes_po_create_in:
  assumes "\<And>s x. f (s\<lparr>doc_counters := x\<rparr>) = f s" "\<And>s x. f (s\<lparr>minted := x\<rparr>) = f s"
    "\<And>s x. f (s\<lparr>purchase_orders := x\<rparr>) = f s" "\<And>s x. f (s\<lparr>po_items := x\<rparr>) = f s"
  shows "tx_fixes f (po_create_in e input dev)"
  unfolding po_create_in_def insert_po_def insert_po_item_def
  by (intro tx_fix; simp add: assms)

lemma tx_fixes_po_cancel_in:
  assumes "\<And>s x. f (s\<lparr>purchase_orders := x\<rparr>) = f s"
  shows "tx_fixes f (po_cancel_in e i)"
  unfolding po_cancel_in_def to_purchase_order_def lock_po_def by (intro tx_fix; simp add: assms)

lemma tx_fixes_po_delete_in:
  assumes "\<And>s x y. f (s\<lparr>purchase_orders := x, po_items := y\<rparr>) = f s"
  shows "tx_fixes f (po_delete_in i)"
  unfolding po_delete_in_def by (intro tx_fix; simp add: assms)

section \<open>The life of an order\<close>

text \<open>The order operations as one step relation over the database.\<close>

inductive order_step :: "db \<Rightarrow> db \<Rightarrow> bool" where
  order_created: "po_create_in e input dev s = Inr (x, s') \<Longrightarrow> order_step s s'"
| order_received: "receive_in e i u d s = Inr (x, s') \<Longrightarrow> order_step s s'"
| order_cancelled: "po_cancel_in e i s = Inr (x, s') \<Longrightarrow> order_step s s'"
| order_deleted: "po_delete_in i s = Inr (x, s') \<Longrightarrow> order_step s s'"

inductive_cases order_stepE: "order_step s s'"

text \<open>An order that no longer moves: received, with its stamp, and its lines as they were.\<close>

definition settled_order :: "uuid \<Rightarrow> purchase_order \<Rightarrow> po_item list \<Rightarrow> db \<Rightarrow> bool" where
  "settled_order i po ls s \<longleftrightarrow> row_of po_id i (purchase_orders s) = Some po \<and> po_status_of po = Po_Received \<and>
     po_lines_of s i = ls"

interpretation receive_mark: keyed_update po_id "mark_received e" for e
  by unfold_locales (simp add: mark_received_def)

interpretation cancel_mark: keyed_update po_id "mark_cancelled e" for e
  by unfold_locales (simp add: mark_cancelled_def)

lemma insert_po_items_Inr:
  "tx_iter insert_po_item ls s = Inr (u, s') \<Longrightarrow> s' = s\<lparr>po_items := po_items s @ ls\<rparr> \<and>
     list_all (\<lambda>l. 0 < pi_qty l \<and> 0 \<le> pi_cost l \<and> pi_cost l \<le> MAX_SATANG) ls"
proof (induction ls arbitrary: s)
  case (Cons l ls)
  then obtain s1 where one: "insert_po_item l s = Inr ((), s1)" and rest: "tx_iter insert_po_item ls s1 = Inr (u, s')"
    by auto
  have "s1 = s\<lparr>po_items := po_items s @ [l]\<rparr>" "0 < pi_qty l" "0 \<le> pi_cost l" "pi_cost l \<le> MAX_SATANG"
    using one by (auto simp: insert_po_item_def constraint_defs MAX_SATANG_def)
  then show ?case using Cons.IH [OF rest] by simp
qed simp

lemma po_create_Inr:
  assumes "po_create_in e input dev s = Inr (r, s')"
  obtains po where "po_status_of po = Po_Open" "\<not> has_key po_id (po_id po) (purchase_orders s)"
    "purchase_orders s' = purchase_orders s @ [po]"
    "po_items s' = po_items s @ map (po_item_of (po_id po)) (enumerate 1 (pc_items input))"
    "order_lines_ok s \<Longrightarrow> order_lines_ok s'" "pu_header r = po"
proof -
  from assms [unfolded po_create_in_def] obtain no s1 where n: "issue e dev Po s = Inr (no, s1)"
    and rest: "(tx_bind (fresh_id e) (\<lambda>i.
     let r = \<lparr>po_id = i, po_no = no, po_supplier = pc_supplier input, po_status_of = Po_Open,
        po_created_at = now e, po_received_at = None, po_cancelled_at = None\<rparr>;
         ls = map (po_item_of i) (enumerate 1 (pc_items input)) in
     tx_bind (insert_po r) (\<lambda>_.
     tx_bind (tx_iter insert_po_item ls) (\<lambda>_.
     tx_ret \<lparr>pu_header = r, pu_lines = sort_key pi_line_no ls\<rparr>)))) s1 = Inr (r, s')"
    by (rule tx_bindE)
  have s1: "purchase_orders s1 = purchase_orders s" "po_items s1 = po_items s"
    by (rule issued.reads_unchanged [OF n]; simp)+
  let ?i = "mint e (minted s1)"
  let ?po = "\<lparr>po_id = ?i, po_no = no, po_supplier = pc_supplier input, po_status_of = Po_Open,
      po_created_at = now e, po_received_at = None, po_cancelled_at = None\<rparr>"
  let ?ls = "map (po_item_of ?i) (enumerate 1 (pc_items input))"
  from rest obtain s2 s3 where p: "insert_po ?po (s1\<lparr>minted := minted s1 + 1\<rparr>) = Inr ((), s2)"
    and l: "tx_iter insert_po_item ?ls s2 = Inr ((), s3)" and r: "s' = s3" "pu_header r = ?po"
    by (auto simp: Let_def)
  have s2: "purchase_orders s2 = purchase_orders s @ [?po]" "po_items s2 = po_items s"
    "\<not> has_key po_id ?i (purchase_orders s)"
    using p s1 by (auto simp: insert_po_def constraint_defs)
  from insert_po_items_Inr [OF l] s2 r show thesis
    by (intro that [of ?po]) (simp_all add: order_lines_ok_def)
qed

lemma po_cancel_Inr:
  assumes "po_cancel_in e i s = Inr (r, s')"
  shows "s' = s \<or> s' = s\<lparr>purchase_orders := upd_where (\<lambda>p. po_id p = i) (mark_cancelled e) (purchase_orders s)\<rparr> \<and>
    (\<exists>po. row_of po_id i (purchase_orders s) = Some po \<and> po_status_of po = Po_Open)"
  using assms
  by (auto simp: po_cancel_in_def lock_po_def to_purchase_order_def split: option.splits if_splits)

lemma po_delete_Inr:
  assumes "po_delete_in i s = Inr (r, s')"
  shows "s' = s \<or> s' = s\<lparr>purchase_orders := filter (\<lambda>p. po_id p \<noteq> i) (purchase_orders s),
      po_items := filter (\<lambda>l. pi_po_id l \<noteq> i) (po_items s)\<rparr> \<and>
    (\<exists>po. row_of po_id i (purchase_orders s) = Some po \<and> po_status_of po \<noteq> Po_Received)"
  using assms by (auto simp: po_delete_in_def split: option.splits)

lemma receive_in_orders:
  assumes "receive_in e i u d s = Inr (r, s')"
  shows "(\<exists>po. row_of po_id i (purchase_orders s) = Some po \<and> po_status_of po = Po_Open) \<and>
    purchase_orders s' = upd_where (\<lambda>p. po_id p = i) (mark_received e) (purchase_orders s) \<and> po_items s' = po_items s"
proof -
  have "po_items s' = po_items s" by (rule tx_fixesD [OF tx_fixes_receive_in assms]; simp)
  then show ?thesis by - (rule receive_in_Inr [OF assms], blast)
qed

lemma row_of_filter_other: "i \<noteq> j \<Longrightarrow> row_of key i (filter (\<lambda>r. key r \<noteq> j) rows) = row_of key i rows"
  by (induction rows) auto

lemma order_step_keeps_settled:
  assumes "order_step s s'" "settled_order i po ls s"
  shows "settled_order i po ls s'"
  using assms(1)
proof cases
  case (order_created e input dev x)
  then obtain p where p: "\<not> has_key po_id (po_id p) (purchase_orders s)" "purchase_orders s' = purchase_orders s @ [p]"
    "po_items s' = po_items s @ map (po_item_of (po_id p)) (enumerate 1 (pc_items input))"
    by (rule po_create_Inr)
  have "po_id p \<noteq> i" using p(1) assms(2) by (auto simp: settled_order_def row_of_None [symmetric])
  then have "filter (\<lambda>l. pi_po_id l = i) (map (po_item_of (po_id p)) (enumerate 1 (pc_items input))) = []"
    by (auto simp: filter_empty_conv po_item_of_def)
  then show ?thesis using assms(2) p by (simp add: settled_order_def row_of_append po_lines_of_def)
next
  case (order_received e j u d x)
  from receive_in_orders [OF this] assms(2) have "j \<noteq> i" by (auto simp: settled_order_def)
  with receive_in_orders [OF order_received] assms(2) show ?thesis
    by (simp add: settled_order_def receive_mark.row_of_upd po_lines_of_def)
next
  case (order_cancelled e j x)
  from po_cancel_Inr [OF this] assms(2) show ?thesis
    by (cases "i = j") (auto simp: settled_order_def cancel_mark.row_of_upd po_lines_of_def)
next
  case (order_deleted j x)
  from po_delete_Inr [OF this] assms(2) show ?thesis
    by (cases "i = j") (auto simp: settled_order_def row_of_filter_other po_lines_of_def conj_commute cong: conj_cong)
qed

lemma settled_reach: "order_step\<^sup>*\<^sup>* s s' \<Longrightarrow> settled_order i po ls s \<Longrightarrow> settled_order i po ls s'"
  by (induction rule: rtranclp_induct) (auto intro: order_step_keeps_settled)

lemma settled_refusals:
  assumes "settled_order i po ls s"
  shows "receive_in e i u d s = Inl po_already_received" "po_cancel_in e i s = Inl po_already_received"
    "po_delete_in i s = Inl po_already_received"
  using assms
  by (simp_all add: settled_order_def receive_in_def receivable_def lock_po_def po_cancel_in_def po_delete_in_def tx_bind_def)

lemma receive_in_settles:
  assumes "receive_in e i u d s = Inr (r, s')"
  shows "\<exists>po. row_of po_id i (purchase_orders s) = Some po \<and> po_status_of po = Po_Open \<and>
    settled_order i (mark_received e po) (po_lines_of s i) s'"
proof -
  obtain po where po: "row_of po_id i (purchase_orders s) = Some po" "po_status_of po = Po_Open"
    "purchase_orders s' = upd_where (\<lambda>p. po_id p = i) (mark_received e) (purchase_orders s)" "po_items s' = po_items s"
    using receive_in_orders [OF assms] by blast
  have "po_status_of (mark_received e po) = Po_Received" by (simp add: mark_received_def)
  moreover have "row_of po_id i (purchase_orders s') = Some (mark_received e po)"
    by (simp only: po(1,3) receive_mark.row_of_upd_same option.map)
  moreover have "po_lines_of s' i = po_lines_of s i" by (simp only: po_lines_of_def po(4))
  ultimately show ?thesis using po(1,2) unfolding settled_order_def by blast
qed

section \<open>The drawer's books\<close>

lemma books_frozen_untouched:
  "shifts s' = shifts s \<Longrightarrow> sales s' = sales s \<Longrightarrow> returns s' = returns s \<Longrightarrow>
   credit_payments s' = credit_payments s \<Longrightarrow> drawer_entries s' = drawer_entries s \<Longrightarrow> books_frozen s s'"
  by (rule books_frozenI) (simp, rule takings_cong)

lemma order_step_fixes:
  assumes "order_step s s'" "\<And>s x. f (s\<lparr>products := x\<rparr>) = f s" "\<And>s x. f (s\<lparr>movements := x\<rparr>) = f s"
    "\<And>s x. f (s\<lparr>minted := x\<rparr>) = f s" "\<And>s x. f (s\<lparr>purchase_orders := x\<rparr>) = f s"
    "\<And>s x. f (s\<lparr>audit_log := x\<rparr>) = f s" "\<And>s x. f (s\<lparr>hooks := x\<rparr>) = f s"
    "\<And>s x. f (s\<lparr>doc_counters := x\<rparr>) = f s" "\<And>s x. f (s\<lparr>po_items := x\<rparr>) = f s"
  shows "f s' = f s"
  using assms(1)
proof cases
  case order_created
  show ?thesis by (rule tx_fixesD [OF tx_fixes_po_create_in order_created]) (simp_all add: assms)
next
  case order_received
  show ?thesis by (rule tx_fixesD [OF tx_fixes_receive_in order_received]) (simp_all add: assms)
next
  case order_cancelled
  show ?thesis by (rule tx_fixesD [OF tx_fixes_po_cancel_in order_cancelled]) (simp_all add: assms)
next
  case order_deleted
  show ?thesis by (rule tx_fixesD [OF tx_fixes_po_delete_in order_deleted]) (simp_all add: assms)
qed

lemma order_step_frozen: "order_step s s' \<Longrightarrow> books_frozen s s'"
  by (rule books_frozen_untouched; erule order_step_fixes; simp)

section \<open>A concrete order\<close>

definition ordering_shop :: db where
  "ordering_shop = sample_shop\<lparr>
     purchase_orders := [\<lparr>po_id = ''o'', po_no = ''PO1-2569-10-0001'', po_supplier = ''S'', po_status_of = Po_Open,
       po_created_at = 5, po_received_at = None, po_cancelled_at = None\<rparr>],
     po_items := [\<lparr>pi_po_id = ''o'', pi_line_no = 1, pi_part_no = ''A-1'', pi_name = ''pad'', pi_qty = 10, pi_cost = 5000\<rparr>,
       \<lparr>pi_po_id = ''o'', pi_line_no = 2, pi_part_no = ''Z-9'', pi_name = ''?'', pi_qty = 4, pi_cost = 0\<rparr>]\<rparr>"

lemma ordering_shop_ok:
  "products_keyed ordering_shop" "part_nos_unique sample_env ordering_shop" "order_lines_ok ordering_shop"
  by (simp_all add: ordering_shop_def sample_shop_def products_keyed_def part_nos_unique_def order_lines_ok_def MAX_SATANG_def)

lemma ordering_shop_average: "weighted_average_cost_satang 10 4000 10 5000 = 4500"
  using weighted_average_eq [of 10 10 4000 5000] by simp

lemma ordering_shop_tally:
  "\<exists>x. tally sample_env ''o'' ordering_shop = Inr ([x], [''Z-9'']) \<and> rn_id x = ''p'' \<and> rn_stock x = 20 \<and> rn_cost x = 4500 \<and>
     rn_delta x = 10"
  by (simp add: tally_def po_lines_of_def locked_parts_def by_key_def by_id_def ordering_shop_def sample_shop_def running_of_def
      receive_line_def ordering_shop_average INT4_MAX_def)

lemma ordering_shop_receives: "\<exists>r s'. receive_in sample_env ''o'' ''u'' None ordering_shop = Inr (r, s')"
proof -
  obtain x where x: "tally sample_env ''o'' ordering_shop = Inr ([x], [''Z-9''])" "rn_id x = ''p''" "rn_stock x = 20"
    "rn_cost x = 4500" "rn_delta x = 10" using ordering_shop_tally by blast
  have "\<exists>po. receivable ''o'' ordering_shop = Inr (po, ordering_shop)"
    by (simp add: receivable_Inr ordering_shop_def)
  then obtain po where po: "receivable ''o'' ordering_shop = Inr (po, ordering_shop)" by blast
  have "\<exists>v s1. write_received sample_env po x ordering_shop = Inr (v, s1)"
    by (simp add: write_received_def constraint_defs insert_movement_def x INT4_MAX_def Let_def ordering_shop_def sample_shop_def
        put_running_def)
  then obtain v s1 where v: "write_received sample_env po x ordering_shop = Inr (v, s1)" by blast
  show ?thesis
    by (simp add: receive_in_def po x touched_of_def v insert_audit_def add_hook_def Let_def)
qed

section \<open>Properties\<close>

text \<open>The shelf's contract, on the receipt: it needs the keys of the tables in order.\<close>

interpretation receipt_writer: guarded_stock_writer "receive_in e i u d"
    "\<lambda>s. products_keyed s \<and> part_nos_unique e s \<and> order_lines_ok s" for e i u d
  by unfold_locales (simp add: receive_in_shelf)

text \<open>
  C27. A receipt puts on the shelf exactly what the order's lines say, spread over the live products
  whose part number is the line's in Postgres's lower case: the stock of every product grows by the
  quantities of the lines that reach it and every move is in the log; the lines that reach no live
  product are the ones answered as unmatched; the order is received with this instant and a second
  receipt of it is refused.
\<close>

theorem receipt_fills_shelf:
  assumes "products_keyed s" "part_nos_unique e s" "order_lines_ok s" "receive_in e i u d s = Inr (r, s')"
  shows "(\<forall>k. on_hand s' k = on_hand s k + ordered_qty e s i k) \<and> opening_stock s' k = opening_stock s k \<and>
    rc_unmatched r = map pi_part_no (unmatched_lines e s i) \<and>
    (\<exists>po. row_of po_id i (purchase_orders s) = Some po \<and> po_status_of po = Po_Open \<and>
       settled_order i (mark_received e po) (po_lines_of s i) s') \<and>
    receive_in e' i u' d' s' = Inl po_already_received"
proof -
  obtain rs un where t: "tally e i s = Inr (rs, un)" "rc_unmatched r = un"
    by (rule receive_in_Inr [OF assms(4)])
  obtain po where po: "row_of po_id i (purchase_orders s) = Some po" "po_status_of po = Po_Open"
    "settled_order i (mark_received e po) (po_lines_of s i) s'"
    using receive_in_settles [OF assms(4)] by blast
  have "opening_stock s' k = opening_stock s k"
    by (rule receipt_writer.guarded_keeps_opening [OF _ assms(4)]) (simp add: assms)
  with tally_Inr(2) [OF t(1) assms(2,1)] t(2) po settled_refusals(1) [OF po(3)]
    receive_in_shelf [OF assms(4,1-3)] show ?thesis by blast
qed

theorem receipt_fills_shelf_witness:
  "\<exists>r s'. receive_in sample_env ''o'' ''u'' None ordering_shop = Inr (r, s') \<and> on_hand s' ''p'' = 20 \<and>
     rc_unmatched r = [''Z-9'']"
proof -
  obtain r s' where run: "receive_in sample_env ''o'' ''u'' None ordering_shop = Inr (r, s')"
    using ordering_shop_receives by blast
  have "on_hand ordering_shop ''p'' + ordered_qty sample_env ordering_shop ''o'' ''p'' = 20"
    "map pi_part_no (unmatched_lines sample_env ordering_shop ''o'') = [''Z-9'']"
    by (simp_all add: on_hand_def ordered_qty_def po_lines_of_def live_matches_def unmatched_lines_def ordering_shop_def sample_shop_def)
  then show ?thesis using receipt_fills_shelf [OF ordering_shop_ok run] run by auto
qed

text \<open>
  The cost of a product after a receipt stays in any interval that holds its cost before and
  every cost given on a line that reached it, however many lines name the part and however often
  the average is rounded; a line entered without a cost cannot pull it down.
\<close>

theorem receipt_cost_between:
  assumes "products_keyed s" "part_nos_unique e s" "order_lines_ok s" "receive_in e i u d s = Inr (r, s')"
    and "row_of p_id k (products s) = Some p" "0 \<le> p_stock p" "0 \<le> lo" "hi \<le> MAX_SATANG"
    and "lo \<le> p_cost p" "p_cost p \<le> hi"
    and "\<forall>l \<in> set (po_lines_of s i). live_matches e s l k \<and> 0 < pi_cost l \<longrightarrow> lo \<le> pi_cost l \<and> pi_cost l \<le> hi"
  shows "\<exists>q. row_of p_id k (products s') = Some q \<and> lo \<le> p_cost q \<and> p_cost q \<le> hi"
proof -
  obtain q where q: "row_of p_id k (products s') = Some q"
    "q = p \<or> p_cost q = rn_cost (tally_row e i s p) \<and> p_stock q = p_stock p + ordered_qty e s i k"
    by (rule receive_in_cost [OF assms(4,1-3,5,6)])
  have "p_id p = k" using row_of_SomeD [OF assms(5)] by simp
  then have "lo \<le> rn_cost (tally_row e i s p) \<and> rn_cost (tally_row e i s p) \<le> hi"
    unfolding tally_row_def using assms(6-11) po_lines_of_ok [OF assms(3)]
    by (intro receive_lines_cost) (auto simp: running_of_def MAX_SATANG_def)
  with q assms(9,10) show ?thesis by auto
qed

theorem receipt_cost_between_witness:
  "\<exists>r s' q. receive_in sample_env ''o'' ''u'' None ordering_shop = Inr (r, s') \<and>
     row_of p_id ''p'' (products s') = Some q \<and> 4000 \<le> p_cost q \<and> p_cost q \<le> 5000"
proof -
  obtain r s' where run: "receive_in sample_env ''o'' ''u'' None ordering_shop = Inr (r, s')"
    using ordering_shop_receives by blast
  obtain p where p: "row_of p_id ''p'' (products ordering_shop) = Some p" "p_stock p = 10" "p_cost p = 4000"
    by (simp add: ordering_shop_def sample_shop_def)
  have "\<forall>l \<in> set (po_lines_of ordering_shop ''o''). live_matches sample_env ordering_shop l ''p'' \<and> 0 < pi_cost l \<longrightarrow>
      4000 \<le> pi_cost l \<and> pi_cost l \<le> 5000"
    by (simp add: po_lines_of_def ordering_shop_def)
  with receipt_cost_between [OF ordering_shop_ok run p(1), of 4000 5000] p run show ?thesis by (auto simp: MAX_SATANG_def)
qed

text \<open>
  A received order is final: whatever sequence of creations, receipts, cancellations and
  deletions follows, the order is still on file, received at the same instant with the same lines,
  and receiving, cancelling or deleting it is refused as already received.
\<close>

theorem received_order_is_final:
  assumes "receive_in e i u d s = Inr (r, s1)" "order_step\<^sup>*\<^sup>* s1 s2"
  shows "\<exists>po. row_of po_id i (purchase_orders s) = Some po \<and> settled_order i (mark_received e po) (po_lines_of s i) s2 \<and>
    receive_in e' i u' d' s2 = Inl po_already_received \<and> po_cancel_in e' i s2 = Inl po_already_received \<and>
    po_delete_in i s2 = Inl po_already_received"
  using receive_in_settles [OF assms(1)] settled_reach [OF assms(2)] settled_refusals by blast

theorem received_order_is_final_witness:
  "\<exists>r s'. receive_in sample_env ''o'' ''u'' None ordering_shop = Inr (r, s') \<and> po_delete_in ''o'' s' = Inl po_already_received"
proof -
  obtain r s' where run: "receive_in sample_env ''o'' ''u'' None ordering_shop = Inr (r, s')"
    using ordering_shop_receives by blast
  then show ?thesis using received_order_is_final [OF run rtranclp.rtrancl_refl] by blast
qed

end
