(* ===== verification/Keyset.thy ===== *)
theory Keyset
  imports Sale_Reads "HOL-Library.Product_Lexorder" "HOL-Library.Multiset"
begin

text \<open>
  The incremental read behind \<open>?updatedSince=&afterId=\<close>, which products, customers and mechanics
  share: a page of the rows changed after a cursor, in \<open>(updated_at, id)\<close> order, and the cursor
  of the last row of the page. \<open>updated_at\<close> is a column the other operations of the model do not
  keep, so it comes in as the function \<open>stamp\<close>.
\<close>

section \<open>The read\<close>

type_synonym cursor = "int \<times> uuid option"

text \<open>\<open>updated_at > $t\<close>, or \<open>(updated_at, id) > ($t, $id)\<close> when the reader sent the id too.\<close>

definition after_cursor :: "('r \<Rightarrow> int) \<Rightarrow> ('r \<Rightarrow> uuid) \<Rightarrow> cursor \<Rightarrow> 'r \<Rightarrow> bool" where
  "after_cursor stamp key c r =
     (case c of (t, None) \<Rightarrow> t < stamp r | (t, Some i) \<Rightarrow> t < stamp r \<or> (t = stamp r \<and> i < key r))"

definition keyset_page :: "('r \<Rightarrow> int) \<Rightarrow> ('r \<Rightarrow> uuid) \<Rightarrow> cursor \<Rightarrow> nat \<Rightarrow> nat \<Rightarrow> 'r list \<Rightarrow> 'r list" where
  "keyset_page stamp key c page limit rows =
     take limit (drop ((page - 1) * limit)
       (sort_key (\<lambda>r. (stamp r, key r)) (filter (after_cursor stamp key c) rows)))"

definition next_cursor :: "('r \<Rightarrow> int) \<Rightarrow> ('r \<Rightarrow> uuid) \<Rightarrow> 'r list \<Rightarrow> cursor option" where
  "next_cursor stamp key rows = (if rows = [] then None else Some (stamp (last rows), Some (key (last rows))))"

section \<open>The reader\<close>

lemma after_next:
  assumes "after_cursor stamp key c x" "after_cursor stamp key (stamp x, Some (key x)) y"
  shows "after_cursor stamp key c y"
  using assms by (auto simp: after_cursor_def split: option.splits prod.splits)

lemma last_page_mem:
  assumes "keyset_page stamp key c page limit rows \<noteq> []"
  shows "last (keyset_page stamp key c page limit rows) \<in> set (filter (after_cursor stamp key c) rows)"
proof -
  let ?all = "sort_key (\<lambda>r. (stamp r, key r)) (filter (after_cursor stamp key c) rows)"
  have "last (keyset_page stamp key c page limit rows) \<in> set (keyset_page stamp key c page limit rows)"
    using assms by (rule last_in_set)
  then have "last (keyset_page stamp key c page limit rows) \<in> set ?all"
    unfolding keyset_page_def using set_take_subset set_drop_subset by fastforce
  then show ?thesis by simp
qed

text \<open>
  One pass of a reader: it follows the cursor from request to request until a page comes back shorter
  than the limit (the protocol of \<open>server/README.md\<close>). Other transactions commit between the requests, so each
  of them reads a table of its own; the answer is the pages read and the table the last one was read from,
  \<open>None\<close> when the requests gave out before the pass was done.
\<close>

fun sync_pass :: "('r \<Rightarrow> int) \<Rightarrow> ('r \<Rightarrow> uuid) \<Rightarrow> nat \<Rightarrow> cursor \<Rightarrow> 'r list list \<Rightarrow> ('r list list \<times> 'r list) option" where
  "sync_pass stamp key limit c [] = None"
| "sync_pass stamp key limit c (t # ts) =
     (let pg = keyset_page stamp key c 1 limit t in
      if length pg < limit then Some ([pg], t)
      else case next_cursor stamp key pg of
          None \<Rightarrow> None
        | Some c' \<Rightarrow> map_option (\<lambda>(pgs, u). (pg # pgs, u)) (sync_pass stamp key limit c' ts))"

text \<open>
  No row commits late: what a later request finds that the table before did not have is stamped after the
  cursor the reader had reached by then.
\<close>

fun on_time :: "('r \<Rightarrow> int) \<Rightarrow> ('r \<Rightarrow> uuid) \<Rightarrow> nat \<Rightarrow> cursor \<Rightarrow> 'r list list \<Rightarrow> bool" where
  "on_time stamp key limit c (t # u # ts) =
     (case next_cursor stamp key (keyset_page stamp key c 1 limit t) of
        None \<Rightarrow> True
      | Some c' \<Rightarrow> (\<forall>r \<in> set u. r \<in> set t \<or> after_cursor stamp key c' r) \<and> on_time stamp key limit c' (u # ts))"
| "on_time stamp key limit c ts = True"

lemma sorted_le_last: "sorted (map f ys) \<Longrightarrow> x \<in> set ys \<Longrightarrow> f x \<le> f (last ys)"
  by (induction ys) auto

lemma sorted_after_take:
  fixes f :: "'r \<Rightarrow> 'k :: linorder"
  assumes "sorted (map f xs)" "distinct (map f xs)" "take n xs \<noteq> []"
  shows "filter (\<lambda>x. f (last (take n xs)) < f x) xs = drop n xs"
proof -
  let ?l = "f (last (take n xs))"
  have split: "xs = take n xs @ drop n xs" by simp
  have app: "sorted (map f (take n xs) @ map f (drop n xs))" "distinct (map f (take n xs) @ map f (drop n xs))"
    using assms(1,2) by (simp_all flip: map_append)
  have "last (take n xs) \<in> set (take n xs)" using assms(3) by (rule last_in_set)
  then have mem: "?l \<in> set (map f (take n xs))" unfolding set_map by (rule imageI)
  have l: "?l < f y" if "y \<in> set (drop n xs)" for y
  proof -
    have y: "f y \<in> set (map f (drop n xs))" unfolding set_map using that by (rule imageI)
    have "\<forall>a \<in> set (map f (take n xs)). \<forall>b \<in> set (map f (drop n xs)). a \<le> b"
      using app(1) unfolding sorted_append by (elim conjE)
    from bspec [OF bspec [OF this mem] y] have "?l \<le> f y" .
    moreover have "?l \<noteq> f y"
    proof
      assume "?l = f y"
      then have "?l \<in> set (map f (take n xs)) \<inter> set (map f (drop n xs))" using mem y by (metis IntI)
      then show False using app(2) unfolding distinct_append by (elim conjE) (rule emptyE, simp only:)
    qed
    ultimately show ?thesis by (rule order.not_eq_order_implies_strict [rotated])
  qed
  have s: "sorted (map f (take n xs))" using app(1) by (simp add: sorted_append)
  have "f x \<le> ?l" if "x \<in> set (take n xs)" for x by (rule sorted_le_last [OF s that])
  then have "filter (\<lambda>x. ?l < f x) (take n xs) = []" by (auto simp: filter_empty_conv not_less)
  moreover have "filter (\<lambda>x. ?l < f x) (drop n xs) = drop n xs" using l by (simp add: filter_id_conv)
  ultimately show ?thesis by (subst split) (simp only: filter_append append_Nil)
qed

lemma after_some_key: "after_cursor stamp key (t, Some i) r \<longleftrightarrow> (t, i) < (stamp r, key r)"
  by (auto simp: after_cursor_def less_prod_def)

text \<open>What is still to read after a page is what was there without the page.\<close>

lemma walk_step:
  assumes "distinct (map key rows)" "keyset_page stamp key c 1 limit rows = pg" "pg \<noteq> []"
  shows "sort_key (\<lambda>r. (stamp r, key r)) (filter (after_cursor stamp key (stamp (last pg), Some (key (last pg)))) rows) =
    drop limit (sort_key (\<lambda>r. (stamp r, key r)) (filter (after_cursor stamp key c) rows))"
proof -
  let ?f = "\<lambda>r. (stamp r, key r)"
  let ?xs = "sort_key ?f (filter (after_cursor stamp key c) rows)"
  let ?c' = "(stamp (last pg), Some (key (last pg)))"
  have pg: "pg = take limit ?xs" using assms(2) by (simp add: keyset_page_def)
  have "distinct (map ?f (filter (after_cursor stamp key c) rows))"
    using assms(1) by (auto simp: distinct_map inj_on_def)
  then have d: "distinct (map ?f ?xs)" by (simp add: distinct_map)
  have "last pg \<in> set (filter (after_cursor stamp key c) rows)"
    using last_page_mem [of stamp key c 1 limit rows] unfolding assms(2) using assms(3) by blast
  then have "filter (after_cursor stamp key ?c') rows = filter (\<lambda>x. ?f (last pg) < ?f x) (filter (after_cursor stamp key c) rows)"
    using after_next [of stamp key c "last pg"] unfolding filter_filter
    by (intro filter_cong) (auto simp: after_some_key)
  then have "sort_key ?f (filter (after_cursor stamp key ?c') rows) = filter (\<lambda>x. ?f (last pg) < ?f x) ?xs"
    by (simp add: filter_sort)
  also have "\<dots> = drop limit ?xs"
    using sorted_after_take [of ?f ?xs limit] d assms(3) pg by simp
  finally show ?thesis .
qed

lemma sync_pass_cases:
  assumes "sync_pass stamp key limit c (t # ts) = Some (pgs, u)" "0 < limit" "keyset_page stamp key c 1 limit t = pg"
  obtains (short) "length pg < limit" "pgs = [pg]" "u = t"
  | (full) more where "pg \<noteq> []" "pgs = pg # more" "next_cursor stamp key pg = Some (stamp (last pg), Some (key (last pg)))"
      "sync_pass stamp key limit (stamp (last pg), Some (key (last pg))) ts = Some (more, u)"
proof (cases "length pg < limit")
  case True
  then have "Some ([pg], t) = Some (pgs, u)" using assms(1,3) by (simp add: Let_def del: One_nat_def)
  then show thesis using short True by simp
next
  case False
  then have "pg \<noteq> []" using assms(2) by auto
  then show thesis using full assms(1,3) False by (auto simp: Let_def next_cursor_def simp del: One_nat_def)
qed

lemma page_is_take: "keyset_page stamp key c 1 limit t =
    take limit (sort_key (\<lambda>r. (stamp r, key r)) (filter (after_cursor stamp key c) t))"
  by (simp add: keyset_page_def)

lemma page_members: "r \<in> set (keyset_page stamp key c 1 limit t) \<Longrightarrow> r \<in> set t \<and> after_cursor stamp key c r"
  unfolding page_is_take by (drule in_set_takeD) simp

text \<open>A page takes everything between the cursor it starts from and the one it ends at.\<close>

lemma page_takes_range:
  assumes "distinct (map key t)" "keyset_page stamp key c 1 limit t = pg" "pg \<noteq> []" "r \<in> set t" "after_cursor stamp key c r"
    and "\<not> after_cursor stamp key (stamp (last pg), Some (key (last pg))) r"
  shows "r \<in> set pg"
proof -
  let ?xs = "sort_key (\<lambda>r. (stamp r, key r)) (filter (after_cursor stamp key c) t)"
  have "r \<in> set (take limit ?xs @ drop limit ?xs)"
    unfolding append_take_drop_id using assms(4,5) by simp
  then have "r \<in> set (take limit ?xs) \<union> set (drop limit ?xs)" by (simp only: set_append)
  moreover have "r \<notin> set (drop limit ?xs)"
    unfolding walk_step [OF assms(1-3), symmetric] using assms(6) by simp
  ultimately show ?thesis unfolding assms(2) [symmetric] page_is_take by blast
qed

lemma short_page_is_all:
  assumes "length (keyset_page stamp key c 1 limit t) < limit"
  shows "set (keyset_page stamp key c 1 limit t) = {r \<in> set t. after_cursor stamp key c r}"
  using assms unfolding page_is_take by (simp add: min_def split: if_splits)

text \<open>What the pass has read so far covers the table it reads next, up to the cursor it has reached.\<close>

lemma pass_covers:
  assumes "sync_pass stamp key limit c ts = Some (pgs, u)" "\<forall>t \<in> set ts. distinct (map key t)" "0 < limit"
    and "on_time stamp key limit c ts" "\<forall>r \<in> set (hd ts). P r \<longrightarrow> after_cursor stamp key c r \<or> r \<in> done"
  shows "u \<in> set ts \<and> (\<forall>r \<in> set u. P r \<longrightarrow> r \<in> done \<or> r \<in> set (concat pgs))"
  using assms
proof (induction ts arbitrary: c pgs "done")
  case (Cons t ts)
  define pg where "pg = keyset_page stamp key c 1 limit t"
  from Cons.prems(1,3) pg_def [symmetric] show ?case
  proof (cases rule: sync_pass_cases)
    case short
    then show ?thesis using Cons.prems(5) short_page_is_all [of stamp key c limit t] by (auto simp: pg_def)
  next
    case (full more)
    let ?c' = "(stamp (last pg), Some (key (last pg)))"
    note ne = full(1) and n = full(3) and m = full(4,2)
    then obtain v vs where ts: "ts = v # vs" by (cases ts) auto
    have time: "\<forall>r \<in> set v. r \<in> set t \<or> after_cursor stamp key ?c' r" "on_time stamp key limit ?c' ts"
      using Cons.prems(4) n by (simp_all add: ts pg_def [symmetric] del: One_nat_def)
    have "P r \<longrightarrow> after_cursor stamp key ?c' r \<or> r \<in> done \<union> set pg" if "r \<in> set v" for r
      using time(1) that Cons.prems(2,5) page_takes_range [OF _ pg_def [symmetric] ne, of r] by auto
    then have "\<forall>r \<in> set (hd ts). P r \<longrightarrow> after_cursor stamp key ?c' r \<or> r \<in> done \<union> set pg" by (simp add: ts)
    from Cons.IH [OF m(1) _ Cons.prems(3) time(2) this] Cons.prems(2) show ?thesis by (auto simp: m(2))
  qed
qed simp

text \<open>The pages come in order, every one of them after the cursor it was asked for.\<close>

lemma sorted_keys_distinct: "distinct (map key t) \<Longrightarrow> sorted_wrt (<) (map (\<lambda>r. (stamp r, key r)) (keyset_page stamp key c 1 limit t))"
proof -
  let ?f = "\<lambda>r. (stamp r, key r)"
  let ?xs = "sort_key ?f (filter (after_cursor stamp key c) t)"
  assume "distinct (map key t)"
  then have "distinct (map ?f (filter (after_cursor stamp key c) t))" by (auto simp: distinct_map inj_on_def)
  then have "distinct (map ?f ?xs)" by (simp add: distinct_map)
  moreover have "sorted (map ?f ?xs)" by simp
  ultimately have "sorted_wrt (<) (map ?f ?xs)" unfolding strict_sorted_iff by blast
  then show "sorted_wrt (<) (map ?f (keyset_page stamp key c 1 limit t))"
    unfolding page_is_take by (metis append_take_drop_id map_append sorted_wrt_append)
qed

lemma pass_in_order:
  assumes "sync_pass stamp key limit c ts = Some (pgs, u)" "\<forall>t \<in> set ts. distinct (map key t)" "0 < limit"
  shows "sorted_wrt (<) (map (\<lambda>r. (stamp r, key r)) (concat pgs)) \<and> (\<forall>r \<in> set (concat pgs). after_cursor stamp key c r) \<and>
    (\<forall>pg \<in> set pgs. length pg \<le> limit \<and> (\<exists>t \<in> set ts. set pg \<subseteq> set t))"
  using assms
proof (induction ts arbitrary: c pgs)
  case (Cons t ts)
  define pg where "pg = keyset_page stamp key c 1 limit t"
  have "distinct (map key t)" using Cons.prems(2) by simp
  from sorted_keys_distinct [OF this] have one: "sorted_wrt (<) (map (\<lambda>r. (stamp r, key r)) pg)" unfolding pg_def .
  have "r \<in> set t \<and> after_cursor stamp key c r" if "r \<in> set pg" for r using page_members that unfolding pg_def .
  moreover have "length pg \<le> limit" by (simp add: pg_def keyset_page_def)
  ultimately have one: "sorted_wrt (<) (map (\<lambda>r. (stamp r, key r)) pg)" "\<forall>r \<in> set pg. r \<in> set t \<and> after_cursor stamp key c r"
    "length pg \<le> limit" using one by blast+
  from Cons.prems(1,3) pg_def [symmetric] show ?case
  proof (cases rule: sync_pass_cases)
    case short
    then show ?thesis using one by auto
  next
    case (full more)
    let ?c' = "(stamp (last pg), Some (key (last pg)))"
    note ne = full(1) and m = full(4,2)
    note ih = Cons.IH [OF m(1) _ Cons.prems(3)]
    have rest: "sorted_wrt (<) (map (\<lambda>r. (stamp r, key r)) (concat more))" "\<forall>r \<in> set (concat more). after_cursor stamp key ?c' r"
      "\<forall>pg \<in> set more. length pg \<le> limit \<and> (\<exists>t \<in> set ts. set pg \<subseteq> set t)"
      using ih Cons.prems(2) by simp_all
    have below: "(stamp x, key x) \<le> (stamp (last pg), key (last pg))" if "x \<in> set pg" for x
      using sorted_le_last [of "\<lambda>r. (stamp r, key r)" pg x] one(1) that by (simp add: strict_sorted_iff)
    have "(stamp x, key x) < (stamp y, key y)" if "x \<in> set pg" "y \<in> set (concat more)" for x y
      using below [OF that(1)] rest(2) that(2) by (metis after_some_key order.strict_trans1)
    then have "sorted_wrt (<) (map (\<lambda>r. (stamp r, key r)) (concat pgs))"
      using one(1) rest(1) by (simp add: m(2) sorted_wrt_append del: set_concat)
    moreover have "after_cursor stamp key c r" if "r \<in> set (concat pgs)" for r
      using that one(2) rest(2) after_next [of stamp key c "last pg" r] last_in_set [OF ne] by (auto simp: m(2) simp del: set_concat)
    moreover have "\<forall>pg \<in> set pgs. length pg \<le> limit \<and> (\<exists>t \<in> set (t # ts). set pg \<subseteq> set t)"
      using one rest(3) by (auto simp: m(2))
    ultimately show ?thesis by blast
  qed
qed simp

text \<open>While nobody writes, every full page leaves less to read, so the pass is done after that many requests.\<close>

lemma pass_ends:
  assumes "distinct (map key t)" "0 < limit" "length (filter (after_cursor stamp key c) t) < n * limit"
  shows "sync_pass stamp key limit c (replicate n t) \<noteq> None"
  using assms(3)
proof (induction n arbitrary: c)
  case (Suc n)
  define pg where "pg = keyset_page stamp key c 1 limit t"
  show ?case
  proof (cases "length pg < limit")
    case False
    let ?c' = "(stamp (last pg), Some (key (last pg)))"
    have ne: "pg \<noteq> []" using False assms(2) by auto
    have "length (filter (after_cursor stamp key ?c') t) = length (filter (after_cursor stamp key c) t) - limit"
      using arg_cong [OF walk_step [OF assms(1) pg_def [symmetric] ne], of length] by simp
    then have "length (filter (after_cursor stamp key ?c') t) < n * limit"
      using Suc.prems False unfolding pg_def page_is_take by (simp add: min_def split: if_splits)
    then show ?thesis using Suc.IH [of ?c'] False ne by (simp add: Let_def pg_def [symmetric] next_cursor_def del: One_nat_def)
  qed (simp add: Let_def pg_def [symmetric] del: One_nat_def)
qed simp

text \<open>
  A transaction that stamped its row before the reader passed by and commits after is never read: the reader has
  two rows and is done, and the row of the instant between them is on the table of his last request.
\<close>

lemma late_commit_is_lost:
  "sync_pass fst snd 1 (0, None) [[(1, ''a''), (3, ''c'')], [(1, ''a''), (3, ''c'')], [(1, ''a''), (2, ''b''), (3, ''c'')]] =
     Some ([[(1, ''a'')], [(3, ''c'')], []], [(1, ''a''), (2, ''b''), (3, ''c'')])"
  by (simp add: keyset_page_def next_cursor_def after_cursor_def Let_def less_eq_prod_def)

section \<open>Properties\<close>

text \<open>
  C33. One pass of the incremental read, with the table changing between its requests: as long as no row commits
  late (\<open>on_time\<close>; a transaction that was stamped before the cursor and commits after it is lost, as \<open>server/README.md\<close>
  says and \<open>late_commit_is_lost\<close> shows), a pass that is done has read every row changed after its first cursor that the
  table of its last request holds, the versions it read come once each and in \<open>(updated_at, id)\<close> order across all its pages,
  however many rows share one instant, and no page is longer than the limit. While nobody writes, the pass is done after
  as many requests as the rows left fill pages, and one.
\<close>

theorem sync_walk_complete:
  assumes "\<forall>t \<in> set ts. distinct (map key t)" "0 < limit" "on_time stamp key limit c ts"
    and "sync_pass stamp key limit c ts = Some (pgs, u)"
  shows "u \<in> set ts \<and> (\<forall>r \<in> set u. after_cursor stamp key c r \<longrightarrow> r \<in> set (concat pgs)) \<and>
    sorted_wrt (<) (map (\<lambda>r. (stamp r, key r)) (concat pgs)) \<and> (\<forall>r \<in> set (concat pgs). after_cursor stamp key c r) \<and>
    (\<forall>pg \<in> set pgs. length pg \<le> limit \<and> (\<exists>t \<in> set ts. set pg \<subseteq> set t)) \<and>
    (\<forall>t n. distinct (map key t) \<longrightarrow> length (filter (after_cursor stamp key c) t) < n * limit \<longrightarrow>
       sync_pass stamp key limit c (replicate n t) \<noteq> None)"
  using pass_covers [OF assms(4,1,2,3), of "after_cursor stamp key c" "{}"] pass_in_order [OF assms(4,1,2)] pass_ends [OF _ assms(2), of key _ stamp c]
  by (simp del: not_None_eq)

text \<open>Two rows of one instant, a page of one; a row is changed between the first request and the second.\<close>

theorem sync_walk_complete_witness:
  "sync_pass fst snd 1 (2, None) [[(5, ''b''), (5, ''a''), (1, ''q'')], [(5, ''b''), (5, ''a''), (7, ''q'')],
     [(5, ''b''), (5, ''a''), (7, ''q'')], [(5, ''b''), (5, ''a''), (7, ''q'')]] =
     Some ([[(5, ''a'')], [(5, ''b'')], [(7, ''q'')], []], [(5, ''b''), (5, ''a''), (7, ''q'')]) \<and>
   sorted_wrt (<) (map (\<lambda>r. (fst r, snd r)) (concat [[(5 :: int, ''a'')], [(5, ''b'')], [(7, ''q'')], []]))"
proof -
  let ?u = "[(5, ''b''), (5, ''a''), (7, ''q'')] :: (int \<times> string) list" and ?t = "[(5, ''b''), (5, ''a''), (1, ''q'')] :: (int \<times> string) list"
  let ?ps = "[[(5, ''a'')], [(5, ''b'')], [(7, ''q'')], []] :: (int \<times> string) list list"
  have run: "sync_pass fst snd 1 (2, None) [?t, ?u, ?u, ?u] = Some (?ps, ?u)"
    by (simp add: keyset_page_def next_cursor_def after_cursor_def Let_def less_eq_prod_def)
  have time: "on_time fst snd 1 (2, None) [?t, ?u, ?u, ?u]"
    by (simp add: keyset_page_def next_cursor_def after_cursor_def Let_def less_eq_prod_def)
  have keys: "\<forall>t \<in> set [?t, ?u, ?u, ?u]. distinct (map snd t)" by simp
  from sync_walk_complete [OF keys zero_less_one time run] have "sorted_wrt (<) (map (\<lambda>r. (fst r, snd r)) (concat ?ps))" by blast
  then show ?thesis using run by blast
qed

end
