(* ===== verification/Products.thy ===== *)
theory Products
  imports Purchasing_Facts Keyset
begin

text \<open>
  The catalogue (\<open>products/products.service.ts\<close>): reading, creating, patching, deleting, the image
  key, and the manual stock correction, which clamps at zero where a sale refuses. The Redis cache
  in front of the reads is left out; the invalidations are hooks.
\<close>

section \<open>Reading\<close>

definition product_not_found :: err where "product_not_found = HttpErr 404 ''PRODUCT_NOT_FOUND'' NoDetail"

record product_query =
  pq_search :: string
  pq_part_no :: string
  pq_category :: string
  pq_since :: "int option"
  pq_after_id :: "uuid option"
  pq_page :: nat
  pq_limit :: nat

text \<open>The expression the trigram index is built on.\<close>

definition search_expression :: "env \<Rightarrow> product \<Rightarrow> string" where
  "search_expression e p = pg_lower e (p_part_no p @ '' '' @ p_name p @ '' '' @ p_name_th p @ '' '' @
     (case p_compat p of None \<Rightarrow> [] | Some c \<Rightarrow> c))"

definition product_matches :: "env \<Rightarrow> (product \<Rightarrow> int) \<Rightarrow> product_query \<Rightarrow> product \<Rightarrow> bool" where
  "product_matches e stamp q p \<longleftrightarrow>
     (pq_since q = None \<longrightarrow> \<not> p_deleted p) \<and>
     (pq_search q = [] \<or>
        (let pat = ''%'' @ escape_like (pq_search q) @ ''%'' in
         sql_like (pg_lower e pat) (search_expression e p) \<and>
         (sql_ilike e pat (p_part_no p) \<or> sql_ilike e pat (p_name p) \<or> sql_ilike e pat (p_name_th p)))) \<and>
     (pq_part_no q = [] \<or> pg_lower e (p_part_no p) = pg_lower e (trim (pq_part_no q))) \<and>
     (pq_category q = [] \<or> p_category p = pq_category q) \<and>
     (case pq_since q of None \<Rightarrow> True | Some t \<Rightarrow> after_cursor stamp p_id (t, pq_after_id q) p)"

text \<open>The count is taken only for an ordinary read, the cursor only for an incremental one.\<close>

definition product_list_in ::
  "env \<Rightarrow> (product \<Rightarrow> int) \<Rightarrow> product_query \<Rightarrow> (product list \<times> nat option \<times> cursor option option) op" where
  "product_list_in e stamp q =
     tx_get (\<lambda>s. let found = filter (product_matches e stamp q) (products s);
         ordered = (if pq_since q = None then sort_key p_id found else sort_key (\<lambda>p. (stamp p, p_id p)) found);
         items = take (pq_limit q) (drop ((pq_page q - 1) * pq_limit q) ordered) in
       (items, if pq_since q = None then Some (length found) else None,
        if pq_since q = None then None else Some (next_cursor stamp p_id items)))"

definition product_by_id_in :: "uuid \<Rightarrow> product op" where
  "product_by_id_in i =
     tx_bind (tx_get (\<lambda>s. row_of p_id i (filter (\<lambda>p. \<not> p_deleted p) (products s)))) (\<lambda>row.
     case row of None \<Rightarrow> tx_throw product_not_found | Some p \<Rightarrow> tx_ret p)"

section \<open>Writing the catalogue\<close>

definition duplicate_part_no :: err where "duplicate_part_no = HttpErr 409 ''DUPLICATE_PART_NO'' NoDetail"

definition map_duplicate_part_no :: "err \<Rightarrow> err" where
  "map_duplicate_part_no x =
     (case x of DbErr code name \<Rightarrow>
        if code = ''23505'' \<and> (name = ''uq_products_partno_ci'' \<or> name = ''uq_products_partno'') then duplicate_part_no else x
      | _ \<Rightarrow> x)"

text \<open>The checks of the columns, and the two unique indexes over the live rows \<open>others\<close>.\<close>

definition product_checks :: "product \<Rightarrow> unit op" where
  "product_checks p =
     tx_bind (numeric_12_2 (p_price p)) (\<lambda>_.
     tx_bind (numeric_12_2 (p_cost p)) (\<lambda>_.
     tx_bind (int4 (p_stock p)) (\<lambda>_.
     tx_bind (int4 (p_min_stock p)) (\<lambda>_.
     tx_bind (check (0 \<le> p_price p) ''products_price_check'') (\<lambda>_.
     tx_bind (check (0 \<le> p_cost p) ''products_cost_check'') (\<lambda>_.
     check (0 \<le> p_stock p) ''products_stock_check''))))))"

definition part_no_free :: "env \<Rightarrow> product list \<Rightarrow> product \<Rightarrow> unit op" where
  "part_no_free e others p =
     tx_bind (unique (\<not> list_ex (\<lambda>q. \<not> p_deleted q \<and> p_part_no q = p_part_no p) others) ''uq_products_partno'') (\<lambda>_.
     unique (\<not> list_ex (\<lambda>q. \<not> p_deleted q \<and> pg_lower e (p_part_no q) = pg_lower e (p_part_no p)) others)
       ''uq_products_partno_ci'')"

definition insert_product :: "env \<Rightarrow> product \<Rightarrow> unit op" where
  "insert_product e p =
     tx_bind (product_checks p) (\<lambda>_.
     tx_bind (tx_get id) (\<lambda>s.
     tx_bind (unique (\<not> has_key p_id (p_id p) (products s)) ''products_pkey'') (\<lambda>_.
     tx_bind (part_no_free e (products s) p) (\<lambda>_.
     tx_modify (\<lambda>s. s\<lparr>products := products s @ [p]\<rparr>)))))"

definition new_product :: "uuid \<Rightarrow> product_create \<Rightarrow> product" where
  "new_product i c = \<lparr>p_id = i, p_part_no = pr_part_no c, p_name = pr_name c, p_cost = pr_cost c, p_stock = pr_stock c,
     p_deleted = False, p_name_th = pr_name_th c, p_category = pr_category c, p_brand = pr_brand c,
     p_price = pr_price c, p_min_stock = pr_min_stock c, p_compat = pr_compat c, p_image_key = None\<rparr>"

definition product_create_in :: "env \<Rightarrow> product_create \<Rightarrow> product op" where
  "product_create_in e input =
     tx_bind (fresh_id e) (\<lambda>i.
     tx_bind (map_db_err map_duplicate_part_no (insert_product e (new_product i input))) (\<lambda>_.
     tx_bind (add_hook (Invalidate ''products'')) (\<lambda>_.
     tx_ret (new_product i input))))"

definition patched :: "'a option \<Rightarrow> 'a \<Rightarrow> 'a" where
  "patched sent old = (case sent of None \<Rightarrow> old | Some v \<Rightarrow> v)"

definition patch_product :: "product_patch \<Rightarrow> product \<Rightarrow> product" where
  "patch_product c p = p\<lparr>p_part_no := patched (pp_part_no c) (p_part_no p), p_name := patched (pp_name c) (p_name p),
     p_name_th := patched (pp_name_th c) (p_name_th p), p_category := patched (pp_category c) (p_category p),
     p_brand := patched (pp_brand c) (p_brand p), p_price := patched (pp_price c) (p_price p),
     p_cost := patched (pp_cost c) (p_cost p), p_min_stock := patched (pp_min_stock c) (p_min_stock p),
     p_compat := patched (pp_compat c) (p_compat p)\<rparr>"

text \<open>An UPDATE of one live row, with the checks on the row it writes.\<close>

definition put_product :: "env \<Rightarrow> uuid \<Rightarrow> (product \<Rightarrow> product) \<Rightarrow> product op" where
  "put_product e i f =
     tx_bind (product_by_id_in i) (\<lambda>p.
     tx_bind (product_checks (f p)) (\<lambda>_.
     tx_bind (tx_get (\<lambda>s. filter (\<lambda>q. p_id q \<noteq> i) (products s))) (\<lambda>others.
     tx_bind (map_db_err map_duplicate_part_no (part_no_free e others (f p))) (\<lambda>_.
     tx_bind (tx_modify (\<lambda>s. s\<lparr>products := upd_where (\<lambda>q. p_id q = i \<and> \<not> p_deleted q) f (products s)\<rparr>)) (\<lambda>_.
     tx_ret (f p))))))"

definition product_update_in :: "env \<Rightarrow> uuid \<Rightarrow> product_patch \<Rightarrow> product op" where
  "product_update_in e i patch =
     tx_bind (put_product e i (patch_product patch)) (\<lambda>p.
     tx_bind (add_hook (Invalidate ''products'')) (\<lambda>_. tx_ret p))"

definition product_delete_in :: "uuid \<Rightarrow> uuid op" where
  "product_delete_in i =
     tx_bind (tx_modify (\<lambda>s. s\<lparr>products := upd_where (\<lambda>q. p_id q = i \<and> \<not> p_deleted q) (\<lambda>q. q\<lparr>p_deleted := True\<rparr>)
        (products s)\<rparr>)) (\<lambda>_.
     tx_bind (add_hook (Invalidate ''products'')) (\<lambda>_. tx_ret i))"

text \<open>The files of the previous image go after the commit; the queue entry stands for that hook.\<close>

definition set_image_in :: "uuid \<Rightarrow> string option \<Rightarrow> product op" where
  "set_image_in i img =
     tx_bind (product_by_id_in i) (\<lambda>p.
     tx_bind (tx_modify (\<lambda>s. s\<lparr>products := upd_where (\<lambda>q. p_id q = i) (\<lambda>q. q\<lparr>p_image_key := img\<rparr>) (products s)\<rparr>)) (\<lambda>_.
     tx_bind (add_hook (Invalidate ''products'')) (\<lambda>_.
     tx_bind (case p_image_key p of
         None \<Rightarrow> tx_ret ()
       | Some old \<Rightarrow> if img \<noteq> Some old then add_hook (Enqueue ''remove-image'' old) else tx_ret ()) (\<lambda>_.
     tx_ret (p\<lparr>p_image_key := img\<rparr>)))))"

definition is_image_referenced_in :: "string \<Rightarrow> bool op" where
  "is_image_referenced_in img = tx_get (\<lambda>s. list_ex (\<lambda>p. p_image_key p = Some img) (products s))"

section \<open>The manual correction\<close>

record stock_adjustment_result =
  ar_stock_after :: int
  ar_product :: product
  ar_movement :: movement

definition kind_of_adjustment :: "adjustment_type \<Rightarrow> mv_kind" where
  "kind_of_adjustment t = (case t of Adjustment_In \<Rightarrow> Mv_Adjust_In | Adjustment_Out \<Rightarrow> Mv_Adjust_Out)"

definition text_of_adjustment :: "adjustment_type \<Rightarrow> string" where
  "text_of_adjustment t = (case t of Adjustment_In \<Rightarrow> ''adjustment-in'' | Adjustment_Out \<Rightarrow> ''adjustment-out'')"

definition adjustment_audit :: "uuid \<Rightarrow> uuid option \<Rightarrow> uuid \<Rightarrow> int \<Rightarrow> stock_adjustment \<Rightarrow> int \<Rightarrow> uuid \<Rightarrow> audit_row" where
  "adjustment_audit user dev i before adj after mid =
     \<lparr>au_user = Some user, au_device = dev, au_action = ''stock.adjust'', au_entity = ''product'', au_entity_id = i,
      au_before = Some (JObj [(''stock'', JNum (Fin (of_int before)))]),
      au_after = Some (JObj [(''stock'', JNum (Fin (of_int after))), (''delta'', JNum (Fin (of_int (sa_delta adj)))),
        (''type'', JStr (text_of_adjustment (sa_type adj))),
        (''note'', case sa_note adj of None \<Rightarrow> JNull | Some n \<Rightarrow> JStr n), (''movementId'', JStr mid)])\<rparr>"

definition adjust_stock_in :: "env \<Rightarrow> uuid \<Rightarrow> stock_adjustment \<Rightarrow> uuid \<Rightarrow> uuid option \<Rightarrow> stock_adjustment_result op" where
  "adjust_stock_in e i adj user dev =
     tx_bind (product_by_id_in i) (\<lambda>p.
     let before = p_stock p; requested = before + sa_delta adj; after = max 0 requested in
     tx_bind (tx_guard (requested \<le> INT4_MAX) (bad_request ''delta'')) (\<lambda>_.
     tx_bind (tx_modify (\<lambda>s. s\<lparr>products := upd_where (\<lambda>q. p_id q = i) (\<lambda>q. q\<lparr>p_stock := after\<rparr>) (products s)\<rparr>)) (\<lambda>_.
     tx_bind (fresh_id e) (\<lambda>mid.
     let v = \<lparr>mv_id = mid, mv_product_id = i, mv_part_no = p_part_no p, mv_name = p_name p, mv_delta = sa_delta adj,
        mv_type = kind_of_adjustment (sa_type adj), mv_note = sa_note adj, mv_stock_after = after, mv_ref_id = None,
        mv_date = now e\<rparr> in
     tx_bind (insert_movement v) (\<lambda>_.
     tx_bind (insert_audit (adjustment_audit user dev i before adj after mid)) (\<lambda>_.
     tx_bind (add_hook (Invalidate ''products'')) (\<lambda>_.
     tx_ret \<lparr>ar_stock_after = after, ar_product = p\<lparr>p_stock := after\<rparr>, ar_movement = v\<rparr>)))))))"

section \<open>The catalogue in order\<close>

text \<open>
  The keys of \<open>products\<close> and the ranges of its columns: what receipts and sales rely on.
\<close>

definition product_ok :: "product \<Rightarrow> bool" where
  "product_ok p \<longleftrightarrow> 0 \<le> p_price p \<and> p_price p \<le> MAX_SATANG \<and> 0 \<le> p_cost p \<and> p_cost p \<le> MAX_SATANG \<and>
     0 \<le> p_stock p \<and> p_stock p \<le> INT4_MAX"

definition catalogue_ok :: "env \<Rightarrow> db \<Rightarrow> bool" where
  "catalogue_ok e s \<longleftrightarrow> products_keyed s \<and> part_nos_unique e s \<and> list_all product_ok (products s)"

text \<open>The keys alone, and with them the ranges: \<open>ck\<close> says whether the ranges are asked for.\<close>

definition ordered_catalogue :: "bool \<Rightarrow> env \<Rightarrow> db \<Rightarrow> bool" where
  "ordered_catalogue ck e s \<longleftrightarrow> products_keyed s \<and> part_nos_unique e s \<and> (ck \<longrightarrow> list_all product_ok (products s))"

lemma catalogue_ok_ordered: "catalogue_ok e s = ordered_catalogue True e s"
  by (simp add: catalogue_ok_def ordered_catalogue_def)

lemma product_checks_Inr: "product_checks p s = Inr (u, s') \<Longrightarrow> s' = s \<and> product_ok p"
  by (auto simp: product_checks_def constraint_defs product_ok_def MAX_SATANG_def)

lemma part_no_free_Inr:
  "part_no_free e others p s = Inr (u, s') \<Longrightarrow> s' = s \<and>
     pg_lower e (p_part_no p) \<notin> (\<lambda>q. pg_lower e (p_part_no q)) ` set (filter (\<lambda>q. \<not> p_deleted q) others)"
  by (auto simp: part_no_free_def constraint_defs list_ex_iff)

lemma live_row:
  "row_of p_id i (filter (\<lambda>p. \<not> p_deleted p) ps) = Some p \<Longrightarrow> p \<in> set ps \<and> \<not> p_deleted p \<and> p_id p = i"
  by (drule row_of_SomeD) simp

lemma product_by_id_Inr:
  "product_by_id_in i s = Inr (p, s') \<longleftrightarrow> s' = s \<and> row_of p_id i (filter (\<lambda>p. \<not> p_deleted p) (products s)) = Some p"
  by (auto simp: product_by_id_in_def split: option.splits)

text \<open>Rewriting one live row of a keyed table.\<close>

lemma keyed_split:
  fixes p :: product
  assumes "distinct (map p_id ps)" "p \<in> set ps" "p_id p = i"
  obtains xs ys where "ps = xs @ p # ys" "filter (\<lambda>q. p_id q \<noteq> i) ps = xs @ ys"
    "\<And>c f. c p \<Longrightarrow> upd_where (\<lambda>q. p_id q = i \<and> c q) f ps = xs @ f p # ys"
proof -
  obtain xs ys where ps: "ps = xs @ p # ys" using split_list assms(2) by metis
  have other: "p_id q \<noteq> i" if "q \<in> set xs \<union> set ys" for q using assms(1,3) that by (auto simp: ps) (metis imageI)+
  show thesis
  proof (rule that [OF ps])
    show "filter (\<lambda>q. p_id q \<noteq> i) ps = xs @ ys" using other assms(3) by (simp add: ps filter_id_conv)
    fix c :: "product \<Rightarrow> bool" and f
    assume "c p"
    then show "upd_where (\<lambda>q. p_id q = i \<and> c q) f ps = xs @ f p # ys"
      using other assms(3) by (simp add: ps upd_where_id)
  qed
qed

lemma catalogue_put:
  assumes "ordered_catalogue ck e s" "p \<in> set (products s)" "p_id p = i" "c p"
    and "p_id (f p) = i" "ck \<Longrightarrow> product_ok (f p)"
    and "\<not> p_deleted (f p) \<Longrightarrow> pg_lower e (p_part_no (f p)) \<notin>
      (\<lambda>q. pg_lower e (p_part_no q)) ` set (filter (\<lambda>q. \<not> p_deleted q) (filter (\<lambda>q. p_id q \<noteq> i) (products s)))"
    and "products s' = upd_where (\<lambda>q. p_id q = i \<and> c q) f (products s)"
  shows "ordered_catalogue ck e s'"
proof -
  have d: "distinct (map p_id (products s))" using assms(1) by (simp add: ordered_catalogue_def products_keyed_def)
  from keyed_split [OF d assms(2,3)] obtain xs ys where ps: "products s = xs @ p # ys"
    "filter (\<lambda>q. p_id q \<noteq> i) (products s) = xs @ ys" "products s' = xs @ f p # ys"
    using assms(4,8) by metis
  then show ?thesis
    using assms(1,3,5,6) assms(7) [unfolded ps(2)]
    by (auto simp: ordered_catalogue_def products_keyed_def part_nos_unique_def ps(1,3) split: if_splits)
qed

lemma unchanged_part_no:
  assumes "ordered_catalogue ck e s" "p \<in> set (products s)" "p_id p = i" "\<not> p_deleted p"
  shows "pg_lower e (p_part_no p) \<notin>
      (\<lambda>q. pg_lower e (p_part_no q)) ` set (filter (\<lambda>q. \<not> p_deleted q) (filter (\<lambda>q. p_id q \<noteq> i) (products s)))"
proof -
  have d: "distinct (map p_id (products s))" using assms(1) by (simp add: ordered_catalogue_def products_keyed_def)
  from keyed_split [OF d assms(2,3)] obtain xs ys where ps: "products s = xs @ p # ys"
    "filter (\<lambda>q. p_id q \<noteq> i) (products s) = xs @ ys" by metis
  show ?thesis
    using assms(1,4) unfolding ps(2) by (auto simp: ordered_catalogue_def part_nos_unique_def ps(1))
qed

section \<open>Every write keeps it in order\<close>

lemma product_create_Inr:
  assumes "product_create_in e input s = Inr (p, s')"
  shows "products s' = products s @ [p] \<and> p = new_product (p_id p) input \<and> \<not> has_key p_id (p_id p) (products s) \<and> product_ok p \<and>
    pg_lower e (p_part_no p) \<notin> (\<lambda>q. pg_lower e (p_part_no q)) ` set (filter (\<lambda>q. \<not> p_deleted q) (products s))"
  using assms
  by (auto simp: product_create_in_def insert_product_def constraint_defs add_hook_def new_product_def
      dest!: product_checks_Inr part_no_free_Inr)

lemma put_product_Inr:
  assumes "put_product e i f s = Inr (q, s')"
  obtains p where "p \<in> set (products s)" "\<not> p_deleted p" "p_id p = i" "q = f p" "product_ok (f p)"
    "pg_lower e (p_part_no (f p)) \<notin>
      (\<lambda>q. pg_lower e (p_part_no q)) ` set (filter (\<lambda>q. \<not> p_deleted q) (filter (\<lambda>q. p_id q \<noteq> i) (products s)))"
    "s' = s\<lparr>products := upd_where (\<lambda>q. p_id q = i \<and> \<not> p_deleted q) f (products s)\<rparr>"
proof -
  from assms [unfolded put_product_def] obtain p s1 where p: "product_by_id_in i s = Inr (p, s1)"
    and rest: "(tx_bind (product_checks (f p)) (\<lambda>_. tx_bind (tx_get (\<lambda>s. filter (\<lambda>q. p_id q \<noteq> i) (products s))) (\<lambda>others.
     tx_bind (map_db_err map_duplicate_part_no (part_no_free e others (f p))) (\<lambda>_.
     tx_bind (tx_modify (\<lambda>s. s\<lparr>products := upd_where (\<lambda>q. p_id q = i \<and> \<not> p_deleted q) f (products s)\<rparr>)) (\<lambda>_.
     tx_ret (f p)))))) s1 = Inr (q, s')" by (rule tx_bindE)
  have p: "s1 = s" "p \<in> set (products s)" "\<not> p_deleted p" "p_id p = i"
    using p live_row by (auto simp: product_by_id_Inr)
  from rest [unfolded p(1)] obtain s2 s3 where c: "product_checks (f p) s = Inr ((), s2)"
    and n: "part_no_free e (filter (\<lambda>q. p_id q \<noteq> i) (products s2)) (f p) s2 = Inr ((), s3)"
    and w: "q = f p" "s' = s3\<lparr>products := upd_where (\<lambda>q. p_id q = i \<and> \<not> p_deleted q) f (products s3)\<rparr>"
    by auto
  from product_checks_Inr [OF c] part_no_free_Inr [OF n] have "s2 = s" "s3 = s" "product_ok (f p)" by simp_all
  with that [OF p(2-4) w(1)] part_no_free_Inr [OF n] w(2) show thesis by simp
qed

lemma product_create_keeps:
  assumes "product_create_in e input s = Inr (p, s')" "ordered_catalogue ck e s"
  shows "ordered_catalogue ck e s'"
proof -
  have "\<not> p_deleted p" using product_create_Inr [OF assms(1)] by (metis new_product_def product.select_convs(6))
  then show ?thesis
    using product_create_Inr [OF assms(1)] assms(2)
    by (auto simp: ordered_catalogue_def products_keyed_def part_nos_unique_def has_key_def)
qed

lemma patch_product_same: "p_id (patch_product c p) = p_id p" "p_deleted (patch_product c p) = p_deleted p"
    "p_stock (patch_product c p) = p_stock p"
  by (simp_all add: patch_product_def)

lemma product_update_Inr:
  assumes "product_update_in e i c s = Inr (q, s')"
  obtains s1 where "put_product e i (patch_product c) s = Inr (q, s1)" "s' = s1\<lparr>hooks := hooks s1 @ [Invalidate ''products'']\<rparr>"
  using assms by (auto simp: product_update_in_def add_hook_def)

lemma product_update_keeps:
  assumes "product_update_in e i c s = Inr (q, s')" "ordered_catalogue ck e s"
  shows "ordered_catalogue ck e s'"
proof -
  obtain s1 where u: "put_product e i (patch_product c) s = Inr (q, s1)"
      "s' = s1\<lparr>hooks := hooks s1 @ [Invalidate ''products'']\<rparr>"
    by (rule product_update_Inr [OF assms(1)])
  show ?thesis
    using u(1)
  proof (rule put_product_Inr)
    fix p
    assume p: "p \<in> set (products s)" "\<not> p_deleted p" "p_id p = i" "product_ok (patch_product c p)"
      "pg_lower e (p_part_no (patch_product c p)) \<notin>
        (\<lambda>q. pg_lower e (p_part_no q)) ` set (filter (\<lambda>q. \<not> p_deleted q) (filter (\<lambda>q. p_id q \<noteq> i) (products s)))"
      "s1 = s\<lparr>products := upd_where (\<lambda>q. p_id q = i \<and> \<not> p_deleted q) (patch_product c) (products s)\<rparr>"
    show ?thesis
      by (rule catalogue_put [OF assms(2) p(1,3), of "\<lambda>q. \<not> p_deleted q" "patch_product c"])
        (use p u(2) in \<open>simp_all add: patch_product_same\<close>)
  qed
qed

lemma product_delete_keeps:
  assumes "product_delete_in i s = Inr (q, s')" "ordered_catalogue ck e s"
  shows "ordered_catalogue ck e s'"
proof -
  have s': "products s' = upd_where (\<lambda>q. p_id q = i \<and> \<not> p_deleted q) (\<lambda>q. q\<lparr>p_deleted := True\<rparr>) (products s)"
    using assms(1) by (auto simp: product_delete_in_def add_hook_def)
  show ?thesis
  proof (cases "\<exists>p \<in> set (products s). p_id p = i \<and> \<not> p_deleted p")
    case True
    then obtain p where p: "p \<in> set (products s)" "p_id p = i" "\<not> p_deleted p" by blast
    have "product_ok p" if ck using that assms(2) p(1) by (auto simp: ordered_catalogue_def list_all_iff)
    then show ?thesis
      by (intro catalogue_put [OF assms(2) p(1,2), of "\<lambda>q. \<not> p_deleted q" "\<lambda>q. q\<lparr>p_deleted := True\<rparr>"])
        (use p s' in \<open>simp_all add: product_ok_def\<close>)
  next
    case False
    then have "products s' = products s" unfolding s' by (intro upd_where_id) blast
    then show ?thesis using assms(2) by (simp add: ordered_catalogue_def products_keyed_def part_nos_unique_def)
  qed
qed

lemma catalogue_put_live:
  assumes "ordered_catalogue ck e s" "product_by_id_in i s = Inr (p, t)" "p_id (f p) = i" "p_deleted (f p) = p_deleted p"
    "p_part_no (f p) = p_part_no p" "ck \<Longrightarrow> product_ok (f p)" "products s' = upd_where (\<lambda>q. p_id q = i) f (products s)"
  shows "ordered_catalogue ck e s'"
proof -
  have p: "p \<in> set (products s)" "\<not> p_deleted p" "p_id p = i"
    using assms(2) live_row by (auto simp: product_by_id_Inr)
  show ?thesis
    by (rule catalogue_put [OF assms(1) p(1,3), of "\<lambda>_. True" f])
      (use assms(3-7) unchanged_part_no [OF assms(1) p(1,3,2)] in simp_all)
qed

lemma set_image_keeps:
  assumes "set_image_in i img s = Inr (q, s')" "ordered_catalogue ck e s"
  shows "ordered_catalogue ck e s'"
proof -
  obtain p where p: "product_by_id_in i s = Inr (p, s)"
    and s': "products s' = upd_where (\<lambda>q. p_id q = i) (\<lambda>q. q\<lparr>p_image_key := img\<rparr>) (products s)"
    using assms(1) by (auto simp: set_image_in_def product_by_id_Inr add_hook_def split: option.splits if_splits)
  have "p \<in> set (products s)" "p_id p = i" using p live_row by (auto simp: product_by_id_Inr)
  then have "product_ok p" if ck using that assms(2) by (auto simp: ordered_catalogue_def list_all_iff)
  then show ?thesis
    by (intro catalogue_put_live [OF assms(2) p _ _ _ _ s']) (simp_all add: \<open>p_id p = i\<close> product_ok_def)
qed

lemma adjust_stock_Inr:
  assumes "adjust_stock_in e i adj user dev s = Inr (r, s')"
  obtains p where "product_by_id_in i s = Inr (p, s)" "p_stock p + sa_delta adj \<le> INT4_MAX"
    "ar_stock_after r = max 0 (p_stock p + sa_delta adj)"
    "products s' = upd_where (\<lambda>q. p_id q = i) (\<lambda>q. q\<lparr>p_stock := max 0 (p_stock p + sa_delta adj)\<rparr>) (products s)"
    "movements s' = movements s @ [ar_movement r]" "mv_delta (ar_movement r) = sa_delta adj"
    "mv_product_id (ar_movement r) = i" "mv_stock_after (ar_movement r) = max 0 (p_stock p + sa_delta adj)"
    "mv_type (ar_movement r) = kind_of_adjustment (sa_type adj)"
proof -
  from assms [unfolded adjust_stock_in_def] obtain p s1 where p: "product_by_id_in i s = Inr (p, s1)"
    and rest: "(let before = p_stock p; requested = before + sa_delta adj; after = max 0 requested in
     tx_bind (tx_guard (requested \<le> INT4_MAX) (bad_request ''delta'')) (\<lambda>_.
     tx_bind (tx_modify (\<lambda>s. s\<lparr>products := upd_where (\<lambda>q. p_id q = i) (\<lambda>q. q\<lparr>p_stock := after\<rparr>) (products s)\<rparr>)) (\<lambda>_.
     tx_bind (fresh_id e) (\<lambda>mid.
     let v = \<lparr>mv_id = mid, mv_product_id = i, mv_part_no = p_part_no p, mv_name = p_name p, mv_delta = sa_delta adj,
        mv_type = kind_of_adjustment (sa_type adj), mv_note = sa_note adj, mv_stock_after = after, mv_ref_id = None,
        mv_date = now e\<rparr> in
     tx_bind (insert_movement v) (\<lambda>_.
     tx_bind (insert_audit (adjustment_audit user dev i before adj after mid)) (\<lambda>_.
     tx_bind (add_hook (Invalidate ''products'')) (\<lambda>_.
     tx_ret \<lparr>ar_stock_after = after, ar_product = p\<lparr>p_stock := after\<rparr>, ar_movement = v\<rparr>))))))) s1 = Inr (r, s')"
    by (rule tx_bindE)
  have "s1 = s" using p by (simp add: product_by_id_Inr)
  with p rest show thesis
    by (intro that [of p]) (auto simp: Let_def insert_audit_def add_hook_def dest!: insert_movement_Inr)
qed

lemma adjust_stock_keeps:
  assumes "adjust_stock_in e i adj user dev s = Inr (r, s')" "ordered_catalogue ck e s"
  shows "ordered_catalogue ck e s'"
  using assms(1)
proof (rule adjust_stock_Inr)
  fix p
  assume p: "product_by_id_in i s = Inr (p, s)" "p_stock p + sa_delta adj \<le> INT4_MAX"
    "products s' = upd_where (\<lambda>q. p_id q = i) (\<lambda>q. q\<lparr>p_stock := max 0 (p_stock p + sa_delta adj)\<rparr>) (products s)"
  have "p \<in> set (products s)" "p_id p = i" using p(1) live_row by (auto simp: product_by_id_Inr)
  moreover from this have "product_ok p" if ck using that assms(2) by (auto simp: ordered_catalogue_def list_all_iff)
  ultimately show ?thesis
    using p(2) by (intro catalogue_put_live [OF assms(2) p(1) _ _ _ _ p(3)]) (simp_all add: product_ok_def INT4_MAX_def)
qed

lemma adjust_stock_shelf:
  assumes "adjust_stock_in e i adj user dev s = Inr (r, s')" "products_keyed s"
  shows "has_key p_id i (products s)" "on_hand s' k = (if k = i then max 0 (on_hand s i + sa_delta adj) else on_hand s k)"
    "logged s' k = logged s k + (if k = i then sa_delta adj else 0)" "ar_stock_after r = on_hand s' i"
proof -
  obtain p where p: "product_by_id_in i s = Inr (p, s)"
    "ar_stock_after r = max 0 (p_stock p + sa_delta adj)"
    "products s' = upd_where (\<lambda>q. p_id q = i) (\<lambda>q. q\<lparr>p_stock := max 0 (p_stock p + sa_delta adj)\<rparr>) (products s)"
    "movements s' = movements s @ [ar_movement r]" "mv_delta (ar_movement r) = sa_delta adj"
    "mv_product_id (ar_movement r) = i"
    by (rule adjust_stock_Inr [OF assms(1)])
  have "p \<in> set (products s)" "p_id p = i" using p(1) live_row by (auto simp: product_by_id_Inr)
  then have row: "row_of p_id i (products s) = Some p"
    using assms(2) row_of_unique by (metis products_keyed_def)
  then show "has_key p_id i (products s)" by (rule row_of_Some_has_key)
  have upd: "row_of p_id k (upd_where (\<lambda>q. p_id q = i) (\<lambda>q. q\<lparr>p_stock := n\<rparr>) ps) =
      (if k = i then map_option (\<lambda>q. q\<lparr>p_stock := n\<rparr>) (row_of p_id i ps) else row_of p_id k ps)" for ps n k
    by (induction ps) auto
  show shelf: "on_hand s' k = (if k = i then max 0 (on_hand s i + sa_delta adj) else on_hand s k)" for k
    by (simp add: on_hand_def p(3) upd row)
  show "logged s' k = logged s k + (if k = i then sa_delta adj else 0)"
    using p(4-6) by (simp add: logged_def)
  show "ar_stock_after r = on_hand s' i" by (simp add: p(2) shelf) (simp add: on_hand_def row)
qed

section \<open>The catalogue's steps\<close>

inductive catalogue_step :: "env \<Rightarrow> db \<Rightarrow> db \<Rightarrow> bool" for e where
  cat_created: "product_create_in e input s = Inr (p, s') \<Longrightarrow> catalogue_step e s s'"
| cat_updated: "product_update_in e i c s = Inr (p, s') \<Longrightarrow> catalogue_step e s s'"
| cat_deleted: "product_delete_in i s = Inr (j, s') \<Longrightarrow> catalogue_step e s s'"
| cat_image: "set_image_in i img s = Inr (p, s') \<Longrightarrow> catalogue_step e s s'"
| cat_adjusted: "adjust_stock_in e i adj user dev s = Inr (r, s') \<Longrightarrow> catalogue_step e s s'"

lemma catalogue_step_keeps: "catalogue_step e s s' \<Longrightarrow> ordered_catalogue ck e s \<Longrightarrow> ordered_catalogue ck e s'"
  by (induction rule: catalogue_step.induct)
    (auto intro: product_create_keeps product_update_keeps product_delete_keeps set_image_keeps adjust_stock_keeps)

lemma catalogue_steps_keep: "(catalogue_step e)\<^sup>*\<^sup>* s s' \<Longrightarrow> ordered_catalogue ck e s \<Longrightarrow> ordered_catalogue ck e s'"
  by (induction rule: rtranclp_induct) (auto intro: catalogue_step_keeps)

lemma tx_fixes_catalogue:
  assumes "\<And>s x. f (s\<lparr>products := x\<rparr>) = f s" "\<And>s x. f (s\<lparr>minted := x\<rparr>) = f s" "\<And>s x. f (s\<lparr>hooks := x\<rparr>) = f s"
    "\<And>s x. f (s\<lparr>movements := x\<rparr>) = f s" "\<And>s x. f (s\<lparr>audit_log := x\<rparr>) = f s"
  shows "tx_fixes f (product_create_in e input)" "tx_fixes f (product_update_in e i c)" "tx_fixes f (product_delete_in i)"
    "tx_fixes f (set_image_in i img)" "tx_fixes f (adjust_stock_in e i adj user dev)"
  unfolding product_create_in_def insert_product_def product_checks_def part_no_free_def product_update_in_def put_product_def
    product_by_id_in_def product_delete_in_def set_image_in_def adjust_stock_in_def
  by (intro tx_fix; simp add: assms)+

lemma catalogue_step_fixes:
  assumes "catalogue_step e s s'" "\<And>s x. f (s\<lparr>products := x\<rparr>) = f s" "\<And>s x. f (s\<lparr>minted := x\<rparr>) = f s"
    "\<And>s x. f (s\<lparr>hooks := x\<rparr>) = f s" "\<And>s x. f (s\<lparr>movements := x\<rparr>) = f s" "\<And>s x. f (s\<lparr>audit_log := x\<rparr>) = f s"
  shows "f s' = f s"
  using assms(1) by cases (erule tx_fixesD [rotated], rule tx_fixes_catalogue; simp add: assms)+

section \<open>Properties\<close>

text \<open>
  A manual correction clamps at zero where a sale refuses: the stock becomes the larger of zero
  and what was asked, one log row keeps the delta that was asked, so shelf and log drift apart by
  exactly the part that was clamped away, and no other product moves.
\<close>

theorem correction_clamps:
  assumes "products_keyed s" "adjust_stock_in e i adj user dev s = Inr (r, s')"
  shows "ar_stock_after r = on_hand s' i \<and> on_hand s' i = max 0 (on_hand s i + sa_delta adj) \<and>
    (\<forall>k. k \<noteq> i \<longrightarrow> on_hand s' k = on_hand s k) \<and>
    opening_stock s' k = opening_stock s k + (if k = i then max 0 (- (on_hand s i + sa_delta adj)) else 0)"
  using adjust_stock_shelf [OF assms(2,1)] by (auto simp: opening_stock_def)

theorem correction_clamps_witness:
  "\<exists>r s'. adjust_stock_in sample_env ''p'' \<lparr>sa_delta = -15, sa_type = Adjustment_Out, sa_note = None\<rparr> ''u'' None sample_shop = Inr (r, s') \<and>
     ar_stock_after r = 0 \<and> opening_stock s' ''p'' = opening_stock sample_shop ''p'' + 5"
proof -
  have "\<exists>r s'. adjust_stock_in sample_env ''p'' \<lparr>sa_delta = -15, sa_type = Adjustment_Out, sa_note = None\<rparr> ''u'' None sample_shop = Inr (r, s')"
    by (simp add: adjust_stock_in_def product_by_id_in_def sample_shop_def insert_movement_def constraint_defs insert_audit_def
        add_hook_def Let_def INT4_MAX_def)
  moreover have "products_keyed sample_shop" "on_hand sample_shop ''p'' = 10"
    by (simp_all add: sample_shop_def products_keyed_def on_hand_def)
  ultimately show ?thesis using correction_clamps [of sample_shop] by fastforce
qed

text \<open>
  C29. The catalogue stays in order under any sequence of its writes: ids are distinct, no two live
  products share a part number in Postgres's lower case, and every price, cost and stock is within
  its column, which is what sales and receipts take for granted.
\<close>

theorem catalogue_stays_in_order:
  assumes "catalogue_ok e s" "(catalogue_step e)\<^sup>*\<^sup>* s s'"
  shows "catalogue_ok e s'"
  using catalogue_steps_keep assms unfolding catalogue_ok_ordered by blast

theorem catalogue_stays_in_order_witness:
  "\<exists>p s'. product_create_in sample_env \<lparr>pr_part_no = ''B-2'', pr_name = ''x'', pr_name_th = [], pr_category = [], pr_brand = [],
     pr_price = 5, pr_cost = 3, pr_stock = 0, pr_min_stock = 0, pr_compat = None\<rparr> sample_shop = Inr (p, s') \<and> catalogue_ok sample_env s'"
proof -
  have "\<exists>p s'. product_create_in sample_env \<lparr>pr_part_no = ''B-2'', pr_name = ''x'', pr_name_th = [], pr_category = [], pr_brand = [],
     pr_price = 5, pr_cost = 3, pr_stock = 0, pr_min_stock = 0, pr_compat = None\<rparr> sample_shop = Inr (p, s')"
    by (simp add: product_create_in_def insert_product_def product_checks_def part_no_free_def constraint_defs add_hook_def
        new_product_def sample_shop_def INT4_MAX_def)
  moreover have "catalogue_ok sample_env sample_shop"
    by (simp add: catalogue_ok_def products_keyed_def part_nos_unique_def product_ok_def sample_shop_def MAX_SATANG_def INT4_MAX_def)
  ultimately show ?thesis
    using catalogue_stays_in_order by (metis (no_types) cat_created r_into_rtranclp)
qed

end
