(* ===== verification/Quotes.thy ===== *)
theory Quotes
  imports Sales_Facts Sale_Reads
begin

text \<open>
  Quotes (\<open>quotes/quotes.dto.ts\<close>, \<open>quotes/quotes.service.ts\<close>, \<open>quotes/quote-errors.ts\<close>), the bill sold
  against a quote (\<open>sales/quote-sale.service.ts\<close>), the handler of \<open>POST /sales\<close> that chooses
  between the two, and the purge job (\<open>queue/processors/maintenance.processor.ts\<close>).
\<close>

section \<open>Request bodies\<close>

record quote_line =
  ql_line_no :: int
  ql_product_id :: "uuid option"
  ql_name :: string
  ql_qty :: int
  ql_price :: int

record quote_create =
  qc_subtotal :: int
  qc_discount :: int
  qc_total :: int
  qc_customer_name :: "string option"
  qc_customer_phone :: "string option"
  qc_notes :: "string option"
  qc_valid_days :: "int option"
  qc_items :: "quote_line list"

record quote_patch =
  qp_customer_name :: "string option option"
  qp_customer_phone :: "string option option"
  qp_notes :: "string option option"

definition MAX_VALID_DAYS :: int where "MAX_VALID_DAYS = 36500"
definition DEFAULT_PURGE_OLDER_THAN_DAYS :: int where "DEFAULT_PURGE_OLDER_THAN_DAYS = 90"
definition MAX_PURGE_DAYS :: int where "MAX_PURGE_DAYS = 1000000"

definition day_count :: "jsval \<Rightarrow> string \<Rightarrow> int \<Rightarrow> err + int" where
  "day_count v field most =
     (case js_integer v of
        None \<Rightarrow> Inl (bad_request field)
      | Some n \<Rightarrow> if n < 1 \<or> most < n then Inl (bad_request field) else Inr n)"

definition parse_valid_days :: "jsval \<Rightarrow> err + int option" where
  "parse_valid_days v =
     (if is_nullish v then Inr None else e_bind (day_count v ''validDays'' MAX_VALID_DAYS) (\<lambda>n. Inr (Some n)))"

definition text_keeping_empty :: "jsval \<Rightarrow> string \<Rightarrow> err + string option" where
  "text_keeping_empty v field =
     (if is_nullish v then Inr None else case v of JStr t \<Rightarrow> Inr (Some t) | _ \<Rightarrow> Inl (bad_request field))"

definition parse_quote_line :: "jsval \<times> nat \<Rightarrow> err + quote_line" where
  "parse_quote_line = (\<lambda>(raw, i).
     e_bind (as_object raw (''items['' @ show_nat i @ '']'')) (\<lambda>l.
     e_bind (parse_line_qty (get_prop l ''qty'') i) (\<lambda>qty.
     e_bind (parse_line_price (get_prop l ''price'') i) (\<lambda>price.
     e_bind (optional_uuid (get_prop l ''productId'') (item_field i ''productId'')) (\<lambda>p.
     e_bind (required_string (get_prop l ''name'') (item_field i ''name'')) (\<lambda>name.
     Inr \<lparr>ql_line_no = int i + 1, ql_product_id = p, ql_name = name, ql_qty = qty, ql_price = price\<rparr>))))))"

definition parse_quote_create :: "jsval \<Rightarrow> err + quote_create" where
  "parse_quote_create body =
     e_bind (as_object body ''body'') (\<lambda>b.
     if \<not> is_nullish (get_prop b ''status'') \<and> get_prop b ''status'' \<noteq> JStr ''open'' then Inl (bad_request ''status'')
     else
       e_bind (parse_items_array (get_prop b ''items'')) (\<lambda>items.
       e_bind (to_satang (get_prop b ''subtotal'') ''subtotal'') (\<lambda>subtotal.
       e_bind (to_satang (or_else (get_prop b ''discount'') (JNum (Fin 0))) ''discount'') (\<lambda>discount.
       e_bind (to_satang (get_prop b ''total'') ''total'') (\<lambda>tot.
       e_bind (text_keeping_empty (get_prop b ''customerName'') ''customerName'') (\<lambda>cn.
       e_bind (text_keeping_empty (get_prop b ''customerPhone'') ''customerPhone'') (\<lambda>ph.
       e_bind (text_keeping_empty (get_prop b ''notes'') ''notes'') (\<lambda>no.
       e_bind (parse_valid_days (get_prop b ''validDays'')) (\<lambda>vd.
       e_bind (e_mapM parse_quote_line (zip items [0..<length items])) (\<lambda>ls.
       e_bind (assert_money_makes_sense subtotal discount tot) (\<lambda>_.
       Inr \<lparr>qc_subtotal = subtotal, qc_discount = discount, qc_total = tot, qc_customer_name = cn,
         qc_customer_phone = ph, qc_notes = no, qc_valid_days = vd, qc_items = ls\<rparr>)))))))))))"

definition sent_prop :: "(string \<times> jsval) list \<Rightarrow> string \<Rightarrow> bool" where
  "sent_prop b k \<longleftrightarrow> k \<in> fst ` set b"

definition sent_text :: "(string \<times> jsval) list \<Rightarrow> string \<Rightarrow> err + string option option" where
  "sent_text b k =
     (if sent_prop b k then e_bind (text_keeping_empty (get_prop b k) k) (\<lambda>t. Inr (Some t)) else Inr None)"

definition FIXED_QUOTE_FIELDS :: "string list" where
  "FIXED_QUOTE_FIELDS = [''status'', ''convertedAt'', ''convertedSaleId'', ''items'', ''subtotal'', ''discount'', ''total'']"

definition parse_quote_patch :: "jsval \<Rightarrow> err + quote_patch" where
  "parse_quote_patch body =
     e_bind (as_object body ''body'') (\<lambda>b.
     case filter (sent_prop b) FIXED_QUOTE_FIELDS of
       f # _ \<Rightarrow> Inl (bad_request f)
     | [] \<Rightarrow>
         e_bind (sent_text b ''customerName'') (\<lambda>cn.
         e_bind (sent_text b ''customerPhone'') (\<lambda>ph.
         e_bind (sent_text b ''notes'') (\<lambda>no.
         Inr \<lparr>qp_customer_name = cn, qp_customer_phone = ph, qp_notes = no\<rparr>))))"

definition parse_quote_convert :: "jsval \<Rightarrow> err + sale_party" where
  "parse_quote_convert body =
     e_bind (as_object body ''body'') (\<lambda>b.
     case filter (sent_prop b) [''items'', ''subtotal'', ''discount'', ''total''] of
       f # _ \<Rightarrow> Inl (bad_request f)
     | [] \<Rightarrow> parse_sale_party b)"

datatype quote_filter = Filter_Open | Filter_Expired | Filter_Converted

definition parse_quote_filter :: "string option \<Rightarrow> err + quote_filter option" where
  "parse_quote_filter raw =
     (case raw of
        None \<Rightarrow> Inr None
      | Some t \<Rightarrow>
          if t = [] \<or> t = ''all'' then Inr None
          else if t = ''open'' then Inr (Some Filter_Open)
          else if t = ''expired'' then Inr (Some Filter_Expired)
          else if t = ''converted'' then Inr (Some Filter_Converted)
          else Inl (bad_request ''status''))"

definition parse_purge_older_than_days :: "jsval \<Rightarrow> err + int" where
  "parse_purge_older_than_days body =
     (if is_nullish body then Inr DEFAULT_PURGE_OLDER_THAN_DAYS
      else e_bind (as_object body ''body'') (\<lambda>b.
        if is_nullish (get_prop b ''olderThanDays'') then Inr DEFAULT_PURGE_OLDER_THAN_DAYS
        else day_count (get_prop b ''olderThanDays'') ''olderThanDays'' MAX_PURGE_DAYS))"

section \<open>Refusals\<close>

definition quote_not_found :: err where "quote_not_found = HttpErr 404 ''QUOTE_NOT_FOUND'' NoDetail"

definition quote_already_converted :: "uuid option \<Rightarrow> err" where
  "quote_already_converted b = HttpErr 409 ''QUOTE_ALREADY_CONVERTED'' (SaleRef b)"

definition quote_expired :: "int \<Rightarrow> err" where
  "quote_expired t = HttpErr 409 ''QUOTE_EXPIRED'' (Instant t)"

definition quote_converted_not_deletable :: "uuid option \<Rightarrow> err" where
  "quote_converted_not_deletable b = HttpErr 409 ''QUOTE_CONVERTED_NOT_DELETABLE'' (SaleRef b)"

section \<open>Reading\<close>

record quote_out =
  qo_row :: quote
  qo_expired :: bool
  qo_items :: "quote_item list"

definition quote_lines :: "db \<Rightarrow> uuid \<Rightarrow> quote_item list" where
  "quote_lines s i = sort_key qi_line_no (filter (\<lambda>l. qi_quote_id l = i) (quote_items s))"

definition lapsed :: "env \<Rightarrow> quote \<Rightarrow> bool" where
  "lapsed e q \<longleftrightarrow> q_valid_until q < now e"

definition to_quote :: "env \<Rightarrow> db \<Rightarrow> quote \<Rightarrow> quote_out" where
  "to_quote e s q = \<lparr>qo_row = q, qo_expired = lapsed e q, qo_items = quote_lines s (q_id q)\<rparr>"

definition read_quote :: "env \<Rightarrow> uuid \<Rightarrow> quote_out op" where
  "read_quote e i =
     tx_bind (tx_get id) (\<lambda>s.
     case row_of q_id i (quotes s) of None \<Rightarrow> tx_throw quote_not_found | Some q \<Rightarrow> tx_ret (to_quote e s q))"

definition quote_matches :: "env \<Rightarrow> quote_filter option \<Rightarrow> int option \<Rightarrow> int option \<Rightarrow> quote \<Rightarrow> bool" where
  "quote_matches e status from_t to_t q \<longleftrightarrow>
     (case status of
        None \<Rightarrow> True
      | Some Filter_Open \<Rightarrow> q_status q \<noteq> Qt_Converted \<and> \<not> lapsed e q
      | Some Filter_Expired \<Rightarrow> q_status q \<noteq> Qt_Converted \<and> lapsed e q
      | Some Filter_Converted \<Rightarrow> q_status q = Qt_Converted) \<and>
     (case from_t of None \<Rightarrow> True | Some t \<Rightarrow> t \<le> q_date q) \<and>
     (case to_t of None \<Rightarrow> True | Some t \<Rightarrow> q_date q \<le> t)"

definition newest_quotes :: "quote list \<Rightarrow> quote list" where
  "newest_quotes qs = sort_key (\<lambda>q. - q_date q) (rev (sort_key q_id qs))"

definition quote_list_in ::
  "env \<Rightarrow> quote_filter option \<Rightarrow> int option \<Rightarrow> int option \<Rightarrow> nat \<Rightarrow> nat \<Rightarrow> (quote_out list \<times> nat) op" where
  "quote_list_in e status from_t to_t page limit =
     tx_get (\<lambda>s. let hits = filter (quote_matches e status from_t to_t) (quotes s) in
       (map (to_quote e s) (take limit (drop ((page - 1) * limit) (newest_quotes hits))), length hits))"

section \<open>Creating, patching, deleting\<close>

definition DEFAULT_VALID_DAYS :: int where "DEFAULT_VALID_DAYS = 30"
definition DAY_MS :: int where "DAY_MS = 24 * 60 * 60 * 1000"

definition known :: "int option \<Rightarrow> int" where
  "known x = (case x of None \<Rightarrow> 0 | Some n \<Rightarrow> n)"

definition insert_quote :: "quote \<Rightarrow> unit op" where
  "insert_quote q =
     tx_bind (numeric_12_2 (known (q_subtotal q))) (\<lambda>_.
     tx_bind (numeric_12_2 (known (q_discount q))) (\<lambda>_.
     tx_bind (numeric_12_2 (known (q_total q))) (\<lambda>_.
     tx_bind (int4 (known (q_valid_days q))) (\<lambda>_.
     tx_bind (tx_get id) (\<lambda>s.
     tx_bind (unique (\<not> has_key q_id (q_id q) (quotes s)) ''quotes_pkey'') (\<lambda>_.
     tx_bind (unique (\<not> has_key q_no (q_no q) (quotes s)) ''quotes_tenant_id_quote_no_key'') (\<lambda>_.
     tx_modify (\<lambda>s. s\<lparr>quotes := quotes s @ [q]\<rparr>))))))))"

definition insert_quote_item :: "quote_item \<Rightarrow> unit op" where
  "insert_quote_item r =
     tx_bind (int4 (qi_line_no r)) (\<lambda>_.
     tx_bind (int4 (qi_qty r)) (\<lambda>_.
     tx_bind (numeric_12_2 (qi_price r)) (\<lambda>_.
     tx_bind (check (0 < qi_qty r) ''quote_items_qty_check'') (\<lambda>_.
     tx_bind (tx_get id) (\<lambda>s.
     tx_bind (unique (\<not> has_key (\<lambda>i. (qi_quote_id i, qi_line_no i)) (qi_quote_id r, qi_line_no r) (quote_items s))
        ''quote_items_pkey'') (\<lambda>_.
     tx_bind (foreign_key (has_key q_id (qi_quote_id r) (quotes s)) ''quote_items_tenant_id_quote_id_fkey'') (\<lambda>_.
     tx_modify (\<lambda>s. s\<lparr>quote_items := quote_items s @ [r]\<rparr>))))))))"

text \<open>The header both \<open>createIn\<close> and \<open>duplicateIn\<close> insert.\<close>

definition open_quote ::
  "env \<Rightarrow> uuid \<Rightarrow> string \<Rightarrow> int option \<times> int option \<times> int option \<Rightarrow> string option \<times> string option \<times> string option \<Rightarrow>
   int option \<Rightarrow> quote" where
  "open_quote e i no = (\<lambda>(sub, disc, tot) (cn, ph, notes) days.
     \<lparr>q_id = i, q_no = no, q_status = Qt_Open, q_date = now e,
      q_valid_until = now e + (case days of None \<Rightarrow> DEFAULT_VALID_DAYS | Some d \<Rightarrow> d) * DAY_MS,
      q_converted_at = None, q_sale_id = None, q_subtotal = sub, q_discount = disc, q_total = tot,
      q_customer_name = cn, q_customer_phone = ph, q_notes = notes, q_valid_days = days\<rparr>)"

definition quote_create_in :: "env \<Rightarrow> quote_create \<Rightarrow> uuid \<Rightarrow> quote_out op" where
  "quote_create_in e input dev =
     tx_bind (tx_lift (assert_sale_totals (map (\<lambda>l. (ql_qty l, ql_price l)) (qc_items input)) (qc_subtotal input)
        (qc_discount input) (qc_total input))) (\<lambda>_.
     tx_bind (fresh_id e) (\<lambda>i.
     tx_bind (issue e dev Quote) (\<lambda>no.
     tx_bind (insert_quote (open_quote e i no (Some (qc_subtotal input), Some (qc_discount input), Some (qc_total input))
        (qc_customer_name input, qc_customer_phone input, qc_notes input) (qc_valid_days input))) (\<lambda>_.
     tx_bind (tx_iter (\<lambda>l. insert_quote_item \<lparr>qi_quote_id = i, qi_line_no = ql_line_no l, qi_product_id = ql_product_id l,
        qi_name = ql_name l, qi_qty = ql_qty l, qi_price = ql_price l\<rparr>) (qc_items input)) (\<lambda>_.
     read_quote e i)))))"

definition patched_text :: "string option option \<Rightarrow> string option \<Rightarrow> string option" where
  "patched_text sent old = (case sent of None \<Rightarrow> old | Some t \<Rightarrow> t)"

definition patch_quote :: "quote_patch \<Rightarrow> quote \<Rightarrow> quote" where
  "patch_quote p q = q\<lparr>q_customer_name := patched_text (qp_customer_name p) (q_customer_name q),
     q_customer_phone := patched_text (qp_customer_phone p) (q_customer_phone q),
     q_notes := patched_text (qp_notes p) (q_notes q)\<rparr>"

text \<open>The row an \<open>UPDATE\<close> or \<open>DELETE \<dots> WHERE status <> 'converted'\<close> finds; otherwise 404, or the refusal.\<close>

definition unconverted :: "env \<Rightarrow> uuid \<Rightarrow> (uuid option \<Rightarrow> err) \<Rightarrow> unit op" where
  "unconverted e i refusal =
     tx_bind (tx_get (\<lambda>s. list_ex (\<lambda>q. q_id q = i \<and> q_status q \<noteq> Qt_Converted) (quotes s))) (\<lambda>hit.
     if hit then tx_ret () else tx_bind (read_quote e i) (\<lambda>q. tx_throw (refusal (q_sale_id (qo_row q)))))"

definition quote_update_in :: "env \<Rightarrow> uuid \<Rightarrow> quote_patch \<Rightarrow> quote_out op" where
  "quote_update_in e i p =
     tx_bind (unconverted e i quote_already_converted) (\<lambda>_.
     tx_bind (tx_modify (\<lambda>s. s\<lparr>quotes := upd_where (\<lambda>q. q_id q = i \<and> q_status q \<noteq> Qt_Converted) (patch_quote p) (quotes s)\<rparr>)) (\<lambda>_.
     read_quote e i))"

text \<open>A deleted header takes its lines along: \<open>ON DELETE CASCADE\<close>.\<close>

definition drop_quotes :: "(quote \<Rightarrow> bool) \<Rightarrow> db \<Rightarrow> db" where
  "drop_quotes p s = s\<lparr>quotes := filter (\<lambda>q. \<not> p q) (quotes s),
     quote_items := filter (\<lambda>l. \<not> list_ex (\<lambda>q. p q \<and> q_id q = qi_quote_id l) (quotes s)) (quote_items s)\<rparr>"

definition quote_delete_in :: "env \<Rightarrow> uuid \<Rightarrow> uuid op" where
  "quote_delete_in e i =
     tx_bind (unconverted e i quote_converted_not_deletable) (\<lambda>_.
     tx_bind (tx_modify (drop_quotes (\<lambda>q. q_id q = i \<and> q_status q \<noteq> Qt_Converted))) (\<lambda>_. tx_ret i))"

definition quote_duplicate_in :: "env \<Rightarrow> uuid \<Rightarrow> uuid \<Rightarrow> quote_out op" where
  "quote_duplicate_in e i dev =
     tx_bind (read_quote e i) (\<lambda>src.
     tx_bind (fresh_id e) (\<lambda>j.
     tx_bind (issue e dev Quote) (\<lambda>no.
     let q = qo_row src in
     tx_bind (insert_quote (open_quote e j no (q_subtotal q, q_discount q, q_total q)
        (q_customer_name q, q_customer_phone q, q_notes q) (q_valid_days q))) (\<lambda>_.
     tx_bind (tx_iter (\<lambda>l. insert_quote_item (l\<lparr>qi_quote_id := j\<rparr>)) (qo_items src)) (\<lambda>_.
     read_quote e j)))))"

text \<open>The purge job: converted quotes by their conversion, the others by their validity.\<close>

definition purgeable :: "env \<Rightarrow> int \<Rightarrow> quote \<Rightarrow> bool" where
  "purgeable e days q \<longleftrightarrow>
     (if q_status q = Qt_Converted
      then (case q_converted_at q of None \<Rightarrow> q_date q | Some t \<Rightarrow> t) < now e - days * DAY_MS
      else q_valid_until q < now e - days * DAY_MS)"

definition quotes_purge :: "env \<Rightarrow> int \<Rightarrow> nat op" where
  "quotes_purge e days =
     tx_bind (tx_get (\<lambda>s. length (filter (purgeable e days) (quotes s)))) (\<lambda>n.
     tx_bind (tx_modify (drop_quotes (purgeable e days))) (\<lambda>_. tx_ret n))"

section \<open>Selling a quote\<close>

datatype quote_lock =
    Lock_Missing
  | Lock_Fresh
  | Lock_Replay
  | Lock_Converted "uuid option"
  | Lock_Expired int
  | Lock_Sale_Id_Taken

text \<open>\<open>sold_at\<close> is when the bill is dated; none is \<open>now()\<close>.\<close>

definition lock_and_classify :: "env \<Rightarrow> uuid \<Rightarrow> uuid \<Rightarrow> int option \<Rightarrow> quote_lock op" where
  "lock_and_classify e i sale_id sold_at =
     tx_get (\<lambda>s. case row_of q_id i (quotes s) of
        None \<Rightarrow> Lock_Missing
      | Some q \<Rightarrow>
          if q_status q = Qt_Converted
          then (if q_sale_id q = Some sale_id then Lock_Replay else Lock_Converted (q_sale_id q))
          else if q_valid_until q < (case sold_at of None \<Rightarrow> now e | Some t \<Rightarrow> t) then Lock_Expired (q_valid_until q)
          else if has_key s_id sale_id (sales s) then Lock_Sale_Id_Taken else Lock_Fresh)"

datatype quote_sale_state = State_Missing | State_Fresh | State_Replay

definition lock_for_sale :: "env \<Rightarrow> uuid \<Rightarrow> uuid \<Rightarrow> quote_sale_state op" where
  "lock_for_sale e i sale_id =
     tx_bind (lock_and_classify e i sale_id None) (\<lambda>found.
     case found of
       Lock_Converted b \<Rightarrow> tx_throw (quote_already_converted b)
     | Lock_Expired t \<Rightarrow> tx_throw (quote_expired t)
     | Lock_Sale_Id_Taken \<Rightarrow> tx_throw sale_id_reused
     | Lock_Missing \<Rightarrow> tx_ret State_Missing
     | Lock_Fresh \<Rightarrow> tx_ret State_Fresh
     | Lock_Replay \<Rightarrow> tx_ret State_Replay)"

definition converted_into :: "env \<Rightarrow> uuid \<Rightarrow> quote \<Rightarrow> quote" where
  "converted_into e sale_id q = q\<lparr>q_status := Qt_Converted, q_converted_at := Some (now e), q_sale_id := Some sale_id\<rparr>"

definition mark_converted :: "env \<Rightarrow> uuid \<Rightarrow> uuid \<Rightarrow> unit op" where
  "mark_converted e i sale_id =
     tx_modify (\<lambda>s. s\<lparr>quotes := upd_where (\<lambda>q. q_id q = i) (converted_into e sale_id) (quotes s)\<rparr>)"

text \<open>The bill, and the mark on the quote when this bill is the one that converts it.\<close>

definition sell_and_mark :: "env \<Rightarrow> uuid \<Rightarrow> quote_sale_state \<Rightarrow> 'a sale_write_scheme \<Rightarrow> actor \<Rightarrow> create_sale_result op" where
  "sell_and_mark e i state dto a =
     tx_bind (create_in e dto a) (\<lambda>r.
     tx_bind (if state = State_Fresh then mark_converted e i (cr_id r) else tx_ret ()) (\<lambda>_. tx_ret r))"

record sold_quote =
  sd_id :: uuid
  sd_status :: quote_status
  sd_converted_at :: "int option"
  sd_sale_id :: "uuid option"

definition sold_quote_of :: "quote \<Rightarrow> sold_quote" where
  "sold_quote_of q = \<lparr>sd_id = q_id q, sd_status = q_status q, sd_converted_at = q_converted_at q, sd_sale_id = q_sale_id q\<rparr>"

text \<open>\<open>POST /sales\<close> with a \<open>quoteId\<close>: the body's own bill, and the quote marked converted.\<close>

definition sell_in :: "env \<Rightarrow> uuid \<Rightarrow> 'a sale_write_scheme \<Rightarrow> actor \<Rightarrow> (create_sale_result \<times> sold_quote option) op" where
  "sell_in e i dto a =
     tx_bind (lock_for_sale e i (sp_id dto)) (\<lambda>state.
     if state = State_Missing then
       tx_bind (existing_sale (sp_id dto) (cs_total dto) (sw_sold_offline dto) (Some (cs_items dto))) (\<lambda>existing.
       case existing of Some r \<Rightarrow> tx_ret (r, None) | None \<Rightarrow> tx_throw quote_not_found)
     else
       tx_bind (sell_and_mark e i state dto a) (\<lambda>r.
       tx_bind (tx_get (\<lambda>s. row_of q_id i (quotes s))) (\<lambda>row.
       case row of
         None \<Rightarrow> tx_throw (Fault ''TypeError'')
       | Some q \<Rightarrow> tx_ret (r, Some (sold_quote_of q)))))"

definition sale_line_of_quote :: "quote_item \<Rightarrow> sale_line" where
  "sale_line_of_quote l = \<lparr>sl_line_no = qi_line_no l, sl_product_id = (case qi_product_id l of None \<Rightarrow> [] | Some p \<Rightarrow> p),
     sl_part_no = None, sl_name = qi_name l, sl_name_th = None, sl_qty = qi_qty l, sl_price = qi_price l\<rparr>"

text \<open>
  The bill a quote sells as. The sum of a row imported without money is JavaScript's; its value is
  an integer whatever its size.
\<close>

definition sale_from :: "db \<Rightarrow> quote \<Rightarrow> sale_party \<Rightarrow> err + sale_write" where
  "sale_from s q party =
     (let ls = quote_lines s (q_id q); loose = filter (\<lambda>l. qi_product_id l = None) ls;
          items = map sale_line_of_quote ls;
          subtotal = (case q_subtotal q of None \<Rightarrow> \<lfloor>computed_subtotal (line_amounts items)\<rfloor> | Some n \<Rightarrow> n);
          discount = known (q_discount q);
          tot = (case q_total q of None \<Rightarrow> \<lfloor>js_add (of_int subtotal) (- of_int discount)\<rfloor> | Some n \<Rightarrow> n) in
      if ls = [] then Inl (bad_request ''quote'')
      else if loose \<noteq> [] then Inl (HttpErr 409 ''INSUFFICIENT_STOCK'' (LooseLines (map qi_qty loose)))
      else Inr (create_sale.extend (sale_party.extend party (create_sale.fields subtotal discount tot items))
             (sale_write.fields False None)))"

definition convert_in :: "env \<Rightarrow> uuid \<Rightarrow> sale_party \<Rightarrow> actor \<Rightarrow> (create_sale_result \<times> quote_out) op" where
  "convert_in e i party a =
     tx_bind (lock_for_sale e i (sp_id party)) (\<lambda>state.
     tx_bind (tx_get (\<lambda>s. (row_of q_id i (quotes s), s))) (\<lambda>(row, s).
     case row of
       None \<Rightarrow> tx_throw quote_not_found
     | Some q \<Rightarrow>
         tx_bind (tx_lift (sale_from s q party)) (\<lambda>dto.
         tx_bind (sell_and_mark e i state dto a) (\<lambda>r.
         tx_bind (read_quote e i) (\<lambda>answer. tx_ret (r, answer))))))"

text \<open>The handler of \<open>POST /sales\<close>.\<close>

definition post_sale :: "env \<Rightarrow> jsval \<Rightarrow> uuid \<Rightarrow> uuid option \<Rightarrow> (create_sale_result \<times> sold_quote option) op" where
  "post_sale e body user dev =
     (case dev of
        None \<Rightarrow> tx_throw device_role_forbidden
      | Some d \<Rightarrow>
          let a = \<lparr>a_user = user, a_device = d\<rparr> in
          tx_bind (tx_lift (parse_sale_quote_id body)) (\<lambda>quote_id.
          tx_bind (tx_lift (parse_create_sale body)) (\<lambda>sale.
          let dto = create_sale.extend sale (sale_write.fields False None) in
          case quote_id of
            None \<Rightarrow> tx_bind (create_in e dto a) (\<lambda>r. tx_ret (r, None))
          | Some q \<Rightarrow> sell_in e q dto a)))"

end
