(* ===== verification/Quotes_Facts.thy ===== *)
theory Quotes_Facts
  imports Quotes
begin

text \<open>
  What is proved of quotes: a quote yields one bill at most, whatever follows its sale, and a
  conversion sells exactly what was quoted. The locale \<open>bill_writer\<close> is what the two ways of
  selling a quote rely on in \<open>SalesService.create\<close>.
\<close>

section \<open>What a writer of bills promises\<close>

locale bill_writer =
  fixes filer :: "create_sale_result op" and bill :: uuid
  assumes filed: "filer s = Inr (r, s') \<Longrightarrow> cr_id r = bill \<and> has_key s_id bill (sales s') \<and>
      (\<forall>b. has_key s_id b (sales s) \<longrightarrow> has_key s_id b (sales s'))"
    and replayed: "has_key s_id bill (sales s) \<Longrightarrow> filer s = Inr (r, s') \<Longrightarrow> s' = s"
    and no_quotes: "filer s = Inr (r, s') \<Longrightarrow> quotes s' = quotes s"
begin

lemma marked_Inr:
  assumes "tx_bind filer (\<lambda>r. tx_bind (if fresh then mark_converted e i (cr_id r) else tx_ret ()) (\<lambda>_. tx_ret r)) s = Inr (r, s')"
  obtains s0 where "filer s = Inr (r, s0)"
    "s' = (if fresh then s0\<lparr>quotes := upd_where (\<lambda>q. q_id q = i) (converted_into e bill) (quotes s)\<rparr> else s0)"
  using assms no_quotes filed by (auto simp: mark_converted_def split: if_splits)

lemma marked_replay:
  assumes "tx_bind filer (\<lambda>r. tx_bind (if False then mark_converted e i (cr_id r) else tx_ret ()) (\<lambda>_. tx_ret r)) s = Inr (r, s')"
    and "has_key s_id bill (sales s)"
  shows "s' = s"
  using assms replayed by auto

end

lemma existing_sale_Inr:
  "existing_sale i n off is s = Inr (x, s') \<Longrightarrow> s' = s \<and> (\<forall>r. x = Some r \<longrightarrow> cr_id r = i \<and> has_key s_id i (sales s))"
  by (auto simp: existing_sale_def Let_def row_of_Some_has_key split: option.splits)

interpretation sale_bill: bill_writer "create_in e dto a" "sp_id dto" for e dto a
proof unfold_locales
  fix s r s'
  assume run: "create_in e dto a s = Inr (r, s')"
  show "quotes s' = quotes s" using tx_fixesD [OF tx_fixes_create_in [of quotes] run] by simp
  have "cr_id r = sp_id dto \<and> has_key s_id (sp_id dto) (sales s') \<and>
      (has_key s_id (sp_id dto) (sales s) \<longrightarrow> s' = s) \<and> (\<forall>b. has_key s_id b (sales s) \<longrightarrow> has_key s_id b (sales s'))"
    using run
  proof (cases rule: create_in_Inr)
    case replay
    then show ?thesis using existing_sale_Inr by blast
  next
    case (new sid acct ov)
    obtain n where "sales s' = sales s @ [sale_row e dto a n (points_for (cs_total dto)) sid acct]" "cr_id r = sp_id dto"
      by (rule write_sale_Inr [OF new(4)]) simp
    then show ?thesis using new(1) by (simp add: sale_row_def)
  qed
  then show "cr_id r = sp_id dto \<and> has_key s_id (sp_id dto) (sales s') \<and>
      (\<forall>b. has_key s_id b (sales s) \<longrightarrow> has_key s_id b (sales s'))"
    and "has_key s_id (sp_id dto) (sales s) \<Longrightarrow> s' = s" by auto
qed

section \<open>The lock\<close>

lemma lock_for_sale_Inr:
  assumes "lock_for_sale e i b s = Inr (st, s')"
  shows "s' = s" "st = State_Missing \<longleftrightarrow> row_of q_id i (quotes s) = None"
    "st = State_Fresh \<Longrightarrow> \<exists>q. row_of q_id i (quotes s) = Some q \<and> q_status q \<noteq> Qt_Converted \<and> \<not> lapsed e q \<and>
       \<not> has_key s_id b (sales s)"
    "st = State_Replay \<Longrightarrow> \<exists>q. row_of q_id i (quotes s) = Some q \<and> q_status q = Qt_Converted \<and> q_sale_id q = Some b"
  using assms
  by (auto simp: lock_for_sale_def lock_and_classify_def lapsed_def split: option.splits if_splits)

lemma sell_and_mark_Inr:
  assumes "sell_and_mark e i st dto a s = Inr (r, s')"
  obtains s0 where "create_in e dto a s = Inr (r, s0)"
    "s' = (if st = State_Fresh
       then s0\<lparr>quotes := upd_where (\<lambda>q. q_id q = i) (converted_into e (sp_id dto)) (quotes s)\<rparr> else s0)"
  by (rule sale_bill.marked_Inr [OF assms [unfolded sell_and_mark_def]])

section \<open>A quote that has been sold\<close>

text \<open>
  The bill \<open>b\<close> of the quote \<open>i\<close> is on file, and the quote, while it is on file itself, is
  converted into it.
\<close>

definition spent :: "uuid \<Rightarrow> uuid \<Rightarrow> db \<Rightarrow> bool" where
  "spent i b s \<longleftrightarrow> has_key s_id b (sales s) \<and>
     (\<forall>q \<in> set (quotes s). q_id q = i \<longrightarrow> q_status q = Qt_Converted \<and> q_sale_id q = Some b)"

lemma spent_row: "spent i b s \<Longrightarrow> row_of q_id i (quotes s) = Some q \<Longrightarrow> q_status q = Qt_Converted \<and> q_sale_id q = Some b"
  by (auto simp: spent_def dest: row_of_SomeD)

lemma spent_lock:
  assumes "spent i b s" "lock_for_sale e i b' s = Inr (st, s')"
  shows "st \<noteq> State_Fresh" "st = State_Replay \<Longrightarrow> b' = b"
  using lock_for_sale_Inr(3,4) [OF assms(2)] spent_row [OF assms(1)] by auto

lemma converted_row [simp]:
  "q_id (converted_into e b q) = q_id q" "q_status (converted_into e b q) = Qt_Converted"
  "q_sale_id (converted_into e b q) = Some b"
  by (simp_all add: converted_into_def)

lemma converted_rows:
  assumes "q' \<in> set (upd_where (\<lambda>q. q_id q = k) (converted_into e b) qs)"
  obtains q where "q \<in> set qs" "q_id q = k" "q' = converted_into e b q" | "q' \<in> set qs" "q_id q' \<noteq> k"
  using assms by (force simp: upd_where_def split: if_splits)

lemma sold_is_spent:
  assumes "sell_and_mark e i State_Fresh dto a s = Inr (r, s')"
  shows "spent i (sp_id dto) s'"
  using assms
proof (rule sell_and_mark_Inr)
  fix s0
  assume run: "create_in e dto a s = Inr (r, s0)"
    and s': "s' = (if State_Fresh = State_Fresh
       then s0\<lparr>quotes := upd_where (\<lambda>q. q_id q = i) (converted_into e (sp_id dto)) (quotes s)\<rparr> else s0)"
  have "has_key s_id (sp_id dto) (sales s0)" using sale_bill.filed [OF run] by blast
  then show ?thesis unfolding s' by (simp add: spent_def) (metis converted_rows converted_row)
qed

lemma sell_and_mark_spent:
  assumes "spent i b s" "sell_and_mark e k st dto a s = Inr (r, s')" "k = i \<Longrightarrow> st = State_Replay \<and> sp_id dto = b"
  shows "spent i b s'" "k = i \<Longrightarrow> s' = s"
proof -
  obtain s0 where run: "create_in e dto a s = Inr (r, s0)"
    and s': "s' = (if st = State_Fresh
       then s0\<lparr>quotes := upd_where (\<lambda>q. q_id q = k) (converted_into e (sp_id dto)) (quotes s)\<rparr> else s0)"
    using assms(2) by (rule sell_and_mark_Inr)
  show same: "k = i \<Longrightarrow> s' = s"
    using assms(1,3) sale_bill.replayed [OF _ run] s' by (auto simp: spent_def)
  show "spent i b s'"
  proof (cases "k = i")
    case True
    then show ?thesis using same assms(1) by simp
  next
    case False
    have "has_key s_id b (sales s0)" using sale_bill.filed [OF run] assms(1) by (simp add: spent_def)
    then show ?thesis
      using sale_bill.no_quotes [OF run] assms(1) False unfolding s'
      by (simp add: spent_def) (metis converted_rows converted_row)
  qed
qed

lemma sell_in_Inr:
  assumes "sell_in e i dto a s = Inr ((r, sq), s')"
  obtains (missing) "s' = s" "has_key s_id (sp_id dto) (sales s)" "row_of q_id i (quotes s) = None"
  | (sold) st where "st \<noteq> State_Missing" "lock_for_sale e i (sp_id dto) s = Inr (st, s)" "sell_and_mark e i st dto a s = Inr (r, s')"
proof -
  from assms [unfolded sell_in_def] obtain st s1 where lock: "lock_for_sale e i (sp_id dto) s = Inr (st, s1)"
    and rest: "(if st = State_Missing then
       tx_bind (existing_sale (sp_id dto) (cs_total dto) (sw_sold_offline dto) (Some (cs_items dto))) (\<lambda>existing.
       case existing of Some r \<Rightarrow> tx_ret (r, None) | None \<Rightarrow> tx_throw quote_not_found)
     else
       tx_bind (sell_and_mark e i st dto a) (\<lambda>r.
       tx_bind (tx_get (\<lambda>s. row_of q_id i (quotes s))) (\<lambda>row.
       case row of
         None \<Rightarrow> tx_throw (Fault ''TypeError'')
       | Some q \<Rightarrow> tx_ret (r, Some (sold_quote_of q))))) s1 = Inr ((r, sq), s')"
    by (rule tx_bindE)
  have s1: "s1 = s" using lock_for_sale_Inr(1) [OF lock] .
  show thesis
  proof (cases "st = State_Missing")
    case True
    with rest s1 show thesis
      using missing lock_for_sale_Inr(2) [OF lock] existing_sale_Inr by (fastforce split: option.splits)
  next
    case False
    with rest s1 lock show thesis using sold [of st] by (auto split: option.splits)
  qed
qed

lemma convert_in_Inr:
  assumes "convert_in e i party a s = Inr ((r, out), s')"
  obtains st q dto where "st \<noteq> State_Missing" "lock_for_sale e i (sp_id party) s = Inr (st, s)" "row_of q_id i (quotes s) = Some q"
    "sale_from s q party = Inr dto" "sell_and_mark e i st dto a s = Inr (r, s')" "read_quote e i s' = Inr (out, s')"
proof -
  from assms [unfolded convert_in_def] obtain st s1 where lock: "lock_for_sale e i (sp_id party) s = Inr (st, s1)"
    and rest: "tx_bind (tx_get (\<lambda>s. (row_of q_id i (quotes s), s))) (\<lambda>(row, s).
     case row of
       None \<Rightarrow> tx_throw quote_not_found
     | Some q \<Rightarrow>
         tx_bind (tx_lift (sale_from s q party)) (\<lambda>dto.
         tx_bind (sell_and_mark e i st dto a) (\<lambda>r.
         tx_bind (read_quote e i) (\<lambda>answer. tx_ret (r, answer))))) s1 = Inr ((r, out), s')"
    by (rule tx_bindE)
  have s1: "s1 = s" using lock_for_sale_Inr(1) [OF lock] .
  have pure: "read_quote e i x = Inr (y, z) \<Longrightarrow> z = x" for x y z by (auto simp: read_quote_def split: option.splits)
  obtain q where q: "row_of q_id i (quotes s) = Some q" using rest s1 by (auto split: option.splits)
  with rest s1 obtain dto s2 out' s3 where "sale_from s q party = Inr dto" "sell_and_mark e i st dto a s = Inr (r, s2)"
    "read_quote e i s2 = Inr (out, s3)" "s' = s3" by auto
  then show thesis using that [of st q dto] lock s1 q pure lock_for_sale_Inr(2) [OF lock] by auto
qed

lemma sale_from_Inr:
  assumes "sale_from s q party = Inr dto"
  shows "sp_id dto = sp_id party" "cs_items dto = map sale_line_of_quote (quote_lines s (q_id q))"
    "\<And>l. l \<in> set (quote_lines s (q_id q)) \<Longrightarrow> qi_product_id l \<noteq> None" "\<And>n. q_total q = Some n \<Longrightarrow> cs_total dto = n"
    "sw_date dto = None"
  using assms
  by (auto simp: sale_from_def Let_def create_sale.defs sale_party.defs sale_write.defs filter_empty_conv split: if_splits)

section \<open>The other operations\<close>

lemma insert_quote_Inr:
  "insert_quote q s = Inr (u, s') \<Longrightarrow> s' = s\<lparr>quotes := quotes s @ [q]\<rparr> \<and> \<not> has_key q_id (q_id q) (quotes s)"
  by (simp add: insert_quote_def constraint_defs)

lemma tx_fixes_insert_quote_item [tx_fix]:
  "(\<And>s x. f (s\<lparr>quote_items := x\<rparr>) = f s) \<Longrightarrow> tx_fixes f (insert_quote_item l)"
  unfolding insert_quote_item_def by (intro tx_fix; simp)

lemma tx_fixes_insert_quote [tx_fix]: "(\<And>s x. f (s\<lparr>quotes := x\<rparr>) = f s) \<Longrightarrow> tx_fixes f (insert_quote q)"
  unfolding insert_quote_def by (intro tx_fix; simp)

lemma read_quote_Inr:
  "read_quote e i s = Inr (x, s') \<longleftrightarrow> s' = s \<and> (\<exists>q. row_of q_id i (quotes s) = Some q \<and> x = to_quote e s q)"
  by (auto simp: read_quote_def split: option.splits)

lemma tx_fixes_read_quote [tx_fix]: "tx_fixes f (read_quote e i)"
  by (auto simp: tx_fixes_def read_quote_Inr)

text \<open>The tail \<open>createIn\<close> and \<open>duplicateIn\<close> share.\<close>

lemma new_quote_Inr:
  assumes "tx_bind (insert_quote q) (\<lambda>_. tx_bind (tx_iter k ls) (\<lambda>_. read_quote e (q_id q))) s = Inr (x, s')"
    and "\<And>l. tx_fixes quotes (k l)"
  shows "quotes s' = quotes s @ [q] \<and> q_id (qo_row x) = q_id q"
proof -
  from assms(1) obtain s1 s2 where i: "insert_quote q s = Inr ((), s1)" and it: "tx_iter k ls s1 = Inr ((), s2)"
    and x: "read_quote e (q_id q) s2 = Inr (x, s')" by auto
  have "quotes s2 = quotes s1" using tx_fixesD [OF tx_fixes_iter it] assms(2) by blast
  then show ?thesis using insert_quote_Inr [OF i] x by (auto simp: read_quote_Inr to_quote_def dest: row_of_SomeD)
qed

lemma quote_create_Inr:
  assumes "quote_create_in e input dev s = Inr (x, s')"
  shows "\<exists>q. quotes s' = quotes s @ [q] \<and> q_id (qo_row x) = q_id q" "sales s' = sales s"
proof -
  have "tx_fixes sales (quote_create_in e input dev)" unfolding quote_create_in_def Let_def by (intro tx_fix; simp)
  from tx_fixesD [OF this assms] show "sales s' = sales s" .
  from assms [unfolded quote_create_in_def] obtain i no s1 s2 s3 where "fresh_id e s1 = Inr (i, s2)" "issue e dev Quote s2 = Inr (no, s3)" "s1 = s"
    and rest: "tx_bind (insert_quote (open_quote e i no (Some (qc_subtotal input), Some (qc_discount input), Some (qc_total input))
        (qc_customer_name input, qc_customer_phone input, qc_notes input) (qc_valid_days input))) (\<lambda>_.
     tx_bind (tx_iter (\<lambda>l. insert_quote_item \<lparr>qi_quote_id = i, qi_line_no = ql_line_no l, qi_product_id = ql_product_id l,
        qi_name = ql_name l, qi_qty = ql_qty l, qi_price = ql_price l\<rparr>) (qc_items input)) (\<lambda>_.
     read_quote e i)) s3 = Inr (x, s')" by auto
  let ?q = "open_quote e i no (Some (qc_subtotal input), Some (qc_discount input), Some (qc_total input))
        (qc_customer_name input, qc_customer_phone input, qc_notes input) (qc_valid_days input)"
  let ?k = "\<lambda>l. insert_quote_item \<lparr>qi_quote_id = i, qi_line_no = ql_line_no l, qi_product_id = ql_product_id l,
        qi_name = ql_name l, qi_qty = ql_qty l, qi_price = ql_price l\<rparr>" and ?ls = "qc_items input"
  have "quotes s2 = quotes s1" "quotes s3 = quotes s2"
    using tx_fixesD [OF tx_fixes_fresh_id \<open>fresh_id e s1 = _\<close>, of quotes] tx_fixesD [OF tx_fixes_resolve(2) \<open>issue e dev Quote s2 = _\<close>, of quotes]
    by simp_all
  moreover have "quotes s' = quotes s3 @ [?q] \<and> q_id (qo_row x) = q_id ?q"
  proof (rule new_quote_Inr)
    have "q_id ?q = i" by (simp add: open_quote_def)
    then show "tx_bind (insert_quote ?q) (\<lambda>_. tx_bind (tx_iter ?k ?ls) (\<lambda>_. read_quote e (q_id ?q))) s3 = Inr (x, s')"
      using rest by (simp only:)
    show "tx_fixes quotes (?k l)" for l by (intro tx_fix) simp
  qed
  ultimately show "\<exists>q. quotes s' = quotes s @ [q] \<and> q_id (qo_row x) = q_id q" using \<open>s1 = s\<close> by auto
qed

lemma quote_duplicate_Inr:
  assumes "quote_duplicate_in e k dev s = Inr (x, s')"
  shows "\<exists>q. quotes s' = quotes s @ [q] \<and> q_id (qo_row x) = q_id q" "sales s' = sales s"
proof -
  have "tx_fixes sales (quote_duplicate_in e k dev)" unfolding quote_duplicate_in_def Let_def by (intro tx_fix; simp)
  from tx_fixesD [OF this assms] show "sales s' = sales s" .
  from assms [unfolded quote_duplicate_in_def] obtain src i no s0 s1 s2 where src: "read_quote e k s = Inr (src, s0)"
      and "fresh_id e s0 = Inr (i, s1)" "issue e dev Quote s1 = Inr (no, s2)"
    and rest: "tx_bind (insert_quote (open_quote e i no (q_subtotal (qo_row src), q_discount (qo_row src), q_total (qo_row src))
        (q_customer_name (qo_row src), q_customer_phone (qo_row src), q_notes (qo_row src)) (q_valid_days (qo_row src)))) (\<lambda>_.
     tx_bind (tx_iter (\<lambda>l. insert_quote_item (l\<lparr>qi_quote_id := i\<rparr>)) (qo_items src)) (\<lambda>_. read_quote e i)) s2 = Inr (x, s')"
    by (auto simp: Let_def)
  have "s0 = s" using src by (simp add: read_quote_Inr)
  let ?q = "open_quote e i no (q_subtotal (qo_row src), q_discount (qo_row src), q_total (qo_row src))
        (q_customer_name (qo_row src), q_customer_phone (qo_row src), q_notes (qo_row src)) (q_valid_days (qo_row src))"
  let ?k = "\<lambda>l. insert_quote_item (l\<lparr>qi_quote_id := i\<rparr>)" and ?ls = "qo_items src"
  have "quotes s1 = quotes s" "quotes s2 = quotes s1"
    using \<open>s0 = s\<close> tx_fixesD [OF tx_fixes_fresh_id \<open>fresh_id e s0 = _\<close>, of quotes] tx_fixesD [OF tx_fixes_resolve(2) \<open>issue e dev Quote s1 = _\<close>, of quotes]
    by simp_all
  moreover have "quotes s' = quotes s2 @ [?q] \<and> q_id (qo_row x) = q_id ?q"
  proof (rule new_quote_Inr)
    have "q_id ?q = i" by (simp add: open_quote_def)
    then show "tx_bind (insert_quote ?q) (\<lambda>_. tx_bind (tx_iter ?k ?ls) (\<lambda>_. read_quote e (q_id ?q))) s2 = Inr (x, s')"
      using rest by (simp only:)
    show "tx_fixes quotes (?k l)" for l by (intro tx_fix) simp
  qed
  ultimately show "\<exists>q. quotes s' = quotes s @ [q] \<and> q_id (qo_row x) = q_id q" by auto
qed

lemma unconverted_Inr: "unconverted e i f s = Inr (u, s') \<Longrightarrow> s' = s"
  by (auto simp: unconverted_def read_quote_Inr split: if_splits)

lemma unconverted_spent:
  assumes "spent i b s" "row_of q_id i (quotes s) = Some q"
  shows "unconverted e i f s = Inl (f (Some b))"
proof -
  have "\<not> list_ex (\<lambda>q. q_id q = i \<and> q_status q \<noteq> Qt_Converted) (quotes s)"
    using assms(1) by (auto simp: spent_def list_ex_iff)
  moreover have "read_quote e i s = Inr (to_quote e s q, s)" using assms(2) by (simp add: read_quote_Inr)
  ultimately show ?thesis
    using spent_row [OF assms] by (simp add: unconverted_def tx_bind_def to_quote_def)
qed

section \<open>Whatever follows\<close>

text \<open>
  Everything that may happen to a shop's quotes: their own operations, bills sold against them or
  not, the purge, and any other step that leaves the quotes alone and loses no bill. A new quote
  never gets the id \<open>i\<close> again: ids are minted once (theory \<open>Ids\<close>).
\<close>

inductive quote_step :: "uuid \<Rightarrow> db \<Rightarrow> db \<Rightarrow> bool" for i where
  creates: "quote_create_in e input dev s = Inr (x, s') \<Longrightarrow> q_id (qo_row x) \<noteq> i \<Longrightarrow> quote_step i s s'"
| duplicates: "quote_duplicate_in e k dev s = Inr (x, s') \<Longrightarrow> q_id (qo_row x) \<noteq> i \<Longrightarrow> quote_step i s s'"
| updates: "quote_update_in e k p s = Inr (x, s') \<Longrightarrow> quote_step i s s'"
| deletes: "quote_delete_in e k s = Inr (j, s') \<Longrightarrow> quote_step i s s'"
| purges: "quotes_purge e days s = Inr (n, s') \<Longrightarrow> quote_step i s s'"
| sells: "sell_in e k (dto :: sale_write) a s = Inr (y, s') \<Longrightarrow> quote_step i s s'"
| converts: "convert_in e k party a s = Inr (z, s') \<Longrightarrow> quote_step i s s'"
| others: "quotes s' = quotes s \<Longrightarrow> (\<And>b. has_key s_id b (sales s) \<Longrightarrow> has_key s_id b (sales s')) \<Longrightarrow> quote_step i s s'"

lemma sell_in_spent:
  assumes "spent i b s" "sell_in e k dto a s = Inr (y, s')"
  shows "spent i b s'" "k = i \<Longrightarrow> s' = s"
proof -
  obtain r sq where y: "y = (r, sq)" by (cases y)
  have "spent i b s' \<and> (k = i \<longrightarrow> s' = s)"
    using assms(2) [unfolded y]
  proof (cases rule: sell_in_Inr)
    case missing
    then show ?thesis using assms(1) by simp
  next
    case (sold st)
    have "k = i \<Longrightarrow> st = State_Replay \<and> sp_id dto = b"
      using sold(1,2) spent_lock [OF assms(1)] by (cases st) auto
    with sell_and_mark_spent [OF assms(1) sold(3)] show ?thesis by blast
  qed
  then show "spent i b s'" "k = i \<Longrightarrow> s' = s" by auto
qed

lemma convert_in_spent:
  assumes "spent i b s" "convert_in e k party a s = Inr (z, s')"
  shows "spent i b s'" "k = i \<Longrightarrow> s' = s \<and> sp_id party = b"
proof -
  obtain r out where z: "z = (r, out)" by (cases z)
  obtain st q dto where c: "st \<noteq> State_Missing" "lock_for_sale e k (sp_id party) s = Inr (st, s)"
    "sale_from s q party = Inr dto" "sell_and_mark e k st dto a s = Inr (r, s')"
    using assms(2) [unfolded z] by (rule convert_in_Inr)
  have "k = i \<Longrightarrow> st = State_Replay \<and> sp_id party = b"
    using c(1,2) spent_lock [OF assms(1)] by (cases st) auto
  with sell_and_mark_spent [OF assms(1) c(4)] sale_from_Inr(1) [OF c(3)]
  show "spent i b s'" "k = i \<Longrightarrow> s' = s \<and> sp_id party = b" by auto
qed

lemma quote_step_spent:
  assumes "quote_step i s s'" "spent i b s"
  shows "spent i b s'"
  using assms(1)
proof (cases rule: quote_step.cases)
  case (creates e input dev x)
  then show ?thesis using assms(2) quote_create_Inr [OF creates(1)] by (auto simp: spent_def)
next
  case (duplicates e k dev x)
  then show ?thesis using assms(2) quote_duplicate_Inr [OF duplicates(1)] by (auto simp: spent_def)
next
  case (updates e k p x)
  then have "s' = s\<lparr>quotes := upd_where (\<lambda>q. q_id q = k \<and> q_status q \<noteq> Qt_Converted) (patch_quote p) (quotes s)\<rparr>"
    by (auto simp: quote_update_in_def read_quote_Inr dest: unconverted_Inr)
  then show ?thesis using assms(2) by (auto simp: spent_def patch_quote_def dest!: set_upd_whereD)
next
  case (deletes e k j)
  then have "s' = drop_quotes (\<lambda>q. q_id q = k \<and> q_status q \<noteq> Qt_Converted) s"
    by (auto simp: quote_delete_in_def dest: unconverted_Inr)
  then show ?thesis using assms(2) by (auto simp: spent_def drop_quotes_def)
next
  case (purges e days n)
  then show ?thesis using assms(2) by (auto simp: quotes_purge_def spent_def drop_quotes_def)
next
  case sells
  then show ?thesis using sell_in_spent(1) [OF assms(2)] by blast
next
  case converts
  then show ?thesis using convert_in_spent(1) [OF assms(2)] by blast
next
  case others
  then show ?thesis using assms(2) by (simp add: spent_def)
qed

lemma quote_steps_spent: "(quote_step i)\<^sup>*\<^sup>* s s' \<Longrightarrow> spent i b s \<Longrightarrow> spent i b s'"
  by (induction rule: rtranclp_induct) (auto dest: quote_step_spent)

section \<open>What a conversion sells\<close>

definition quoted_qty :: "quote_item list \<Rightarrow> uuid \<Rightarrow> int" where
  "quoted_qty ls k = sum_by qi_qty (filter (\<lambda>l. qi_product_id l = Some k) ls)"

lemma sold_qty_quoted:
  "\<forall>l \<in> set ls. qi_product_id l \<noteq> None \<Longrightarrow> sold_qty (map sale_line_of_quote ls) k = quoted_qty ls k"
  by (induction ls) (auto simp: quoted_qty_def sale_line_of_quote_def)

lemma open_lock:
  assumes "lock_for_sale e i b s = Inr (st, s)" "row_of q_id i (quotes s) = Some q" "q_status q \<noteq> Qt_Converted"
  shows "st = State_Fresh" "\<not> lapsed e q" "\<not> has_key s_id b (sales s)"
proof -
  show st: "st = State_Fresh"
    using lock_for_sale_Inr(2,4) [OF assms(1)] assms(2,3) by (cases st) auto
  show "\<not> lapsed e q" "\<not> has_key s_id b (sales s)"
    using lock_for_sale_Inr(3) [OF assms(1) st] assms(2) by auto
qed

text \<open>The shop of the sale samples with one open quote for three pads.\<close>

definition quoting_shop :: db where
  "quoting_shop = sample_shop\<lparr>
     quotes := [\<lparr>q_id = ''q'', q_no = ''QT-1'', q_status = Qt_Open, q_date = 0, q_valid_until = 2000, q_converted_at = None,
       q_sale_id = None, q_subtotal = Some 15000, q_discount = Some 1000, q_total = Some 14000, q_customer_name = None,
       q_customer_phone = None, q_notes = None, q_valid_days = None\<rparr>],
     quote_items := [\<lparr>qi_quote_id = ''q'', qi_line_no = 1, qi_product_id = Some ''p'', qi_name = ''pad'', qi_qty = 3,
       qi_price = 5000\<rparr>]\<rparr>"

definition sample_party :: sale_party where
  "sample_party = \<lparr>sp_id = ''b'', sp_receipt_no = None, sp_payment_method = Mechanic_Credit,
     sp_customer_id = None, sp_customer_name = None, sp_mechanic_id = Some ''m'', sp_mechanic_name = None,
     sp_mechanic_delta = None, sp_override = False, sp_payment_account_id = None\<rparr>"

lemma quoting_shop_rows:
  "row_of q_id ''q'' (quotes quoting_shop) = Some (hd (quotes quoting_shop))" "q_status (hd (quotes quoting_shop)) = Qt_Open"
  "lock_for_sale sample_env ''q'' ''b'' quoting_shop = Inr (State_Fresh, quoting_shop)"
  by (simp_all add: quoting_shop_def sample_shop_def lock_for_sale_def lock_and_classify_def)

lemma quoting_shop_runs:
  "\<exists>r s'. sell_and_mark sample_env ''q'' State_Fresh sample_bill sample_actor quoting_shop = Inr (r, s')"
  by (simp add: sell_and_mark_def mark_converted_def sale_defs sample_bill_def sample_actor_def quoting_shop_def
      sample_shop_def sample_totals Let_def is_open_def is_current_def MAX_DOC_NO_def points_for_exact INT4_MAX_def)

lemma quoting_shop_sale: "sale_from quoting_shop (hd (quotes quoting_shop)) sample_party = Inr sample_bill"
  by (simp add: sale_from_def quoting_shop_def sample_shop_def quote_lines_def sample_party_def sample_bill_def
      sale_line_of_quote_def known_def Let_def create_sale.defs sale_party.defs sale_write.defs)

lemma row_after_mark:
  assumes "sell_and_mark e i State_Fresh dto a s = Inr (r, s')" "row_of q_id i (quotes s) = Some q"
  shows "row_of q_id i (quotes s') = Some (converted_into e (sp_id dto) q)"
  using assms(1)
proof (rule sell_and_mark_Inr)
  fix s0
  assume "s' = (if State_Fresh = State_Fresh
       then s0\<lparr>quotes := upd_where (\<lambda>q. q_id q = i) (converted_into e (sp_id dto)) (quotes s)\<rparr> else s0)"
  then have "quotes s' = upd_where (\<lambda>q. q_id q = i) (converted_into e (sp_id dto)) (quotes s)" by simp
  moreover have "row_of q_id i (upd_where (\<lambda>q. q_id q = i) (converted_into e b) qs) = map_option (converted_into e b) (row_of q_id i qs)"
    for b qs by (induction qs) auto
  ultimately show ?thesis using assms(2) by simp
qed

section \<open>Properties\<close>

text \<open>
  C23. One quote, one bill: once a bill has been sold against an open quote, nothing that follows
  (other sales, conversions, edits, deletions, the purge) lets the quote be sold again: a later sale
  against it or conversion of it, whatever bill id it names, either fails or replays that bill and
  changes nothing, and while the quote is on file it stays converted into that bill, another bill id
  is refused as already converted and deleting it is refused.
\<close>

theorem one_quote_one_bill:
  fixes dto dto' :: sale_write
  assumes "sell_in e i dto a s = Inr (y, s1)" "row_of q_id i (quotes s) = Some q" "q_status q \<noteq> Qt_Converted"
    and "(quote_step i)\<^sup>*\<^sup>* s1 s2"
  shows "(\<forall>e' dto' a' y' s3. sell_in e' i (dto' :: sale_write) a' s2 = Inr (y', s3) \<longrightarrow> s3 = s2) \<and>
    (\<forall>e' p a' z s3. convert_in e' i p a' s2 = Inr (z, s3) \<longrightarrow> s3 = s2 \<and> sp_id p = sp_id dto) \<and>
    (\<forall>q'. row_of q_id i (quotes s2) = Some q' \<longrightarrow> q_status q' = Qt_Converted \<and> q_sale_id q' = Some (sp_id dto) \<and>
       quote_delete_in e' i s2 = Inl (quote_converted_not_deletable (Some (sp_id dto))) \<and>
       (sp_id dto' \<noteq> sp_id dto \<longrightarrow> sell_in e' i dto' a' s2 = Inl (quote_already_converted (Some (sp_id dto)))))"
proof -
  obtain r sq where y: "y = (r, sq)" by (cases y)
  have "spent i (sp_id dto) s1"
    using assms(1) [unfolded y]
  proof (cases rule: sell_in_Inr)
    case missing
    then show ?thesis using assms(2) by simp
  next
    case (sold st)
    then show ?thesis using open_lock(1) [OF sold(2) assms(2,3)] sold_is_spent by blast
  qed
  then have sp: "spent i (sp_id dto) s2" by (rule quote_steps_spent [OF assms(4)])
  have refused: "sell_in e' i dto' a' s2 = Inl (quote_already_converted (Some (sp_id dto)))"
    if "row_of q_id i (quotes s2) = Some q'" "sp_id dto' \<noteq> sp_id dto" for q'
    using spent_row [OF sp that(1)] that
    by (simp add: sell_in_def tx_bind_def lock_for_sale_def lock_and_classify_def)
  have undeletable: "quote_delete_in e' i s2 = Inl (quote_converted_not_deletable (Some (sp_id dto)))"
    if "row_of q_id i (quotes s2) = Some q'" for q'
    using unconverted_spent [OF sp that, of e' quote_converted_not_deletable] by (simp add: quote_delete_in_def tx_bind_Inl_run)
  show ?thesis
    using sell_in_spent(2) [OF sp _ refl] convert_in_spent(2) [OF sp _ refl] spent_row [OF sp] refused undeletable by blast
qed

lemma one_quote_one_bill_witness:
  "\<exists>y s1. sell_in sample_env ''q'' sample_bill sample_actor quoting_shop = Inr (y, s1) \<and>
     (\<forall>q'. row_of q_id ''q'' (quotes s1) = Some q' \<longrightarrow> q_sale_id q' = Some ''b'')"
proof -
  obtain r s1 where run: "sell_and_mark sample_env ''q'' State_Fresh sample_bill sample_actor quoting_shop = Inr (r, s1)"
    using quoting_shop_runs by blast
  have "row_of q_id ''q'' (quotes s1) = Some (converted_into sample_env ''b'' (hd (quotes quoting_shop)))"
    using row_after_mark [OF run quoting_shop_rows(1)] by (simp add: sample_bill_def)
  then have sold: "sell_in sample_env ''q'' sample_bill sample_actor quoting_shop =
      Inr ((r, Some (sold_quote_of (converted_into sample_env ''b'' (hd (quotes quoting_shop))))), s1)"
    using run quoting_shop_rows(3) by (simp add: sell_in_def tx_bind_def sample_bill_def)
  have "q_status (hd (quotes quoting_shop)) \<noteq> Qt_Converted" by (simp add: quoting_shop_rows(2))
  from one_quote_one_bill [OF sold quoting_shop_rows(1) this rtranclp.rtrancl_refl] sold
  show ?thesis by (auto simp: sample_bill_def)
qed

text \<open>
  A conversion sells exactly what was quoted: it commits only for a quote in date and never
  converted whose every line names a product; the bill takes the quoted quantities off the shelf,
  is the one bill added, under the id the caller chose and for the quoted total, and the quote is
  marked converted into it in the same transaction.
\<close>

theorem conversion_sells_quote:
  assumes "convert_in e i party a s = Inr ((r, out), s')" "row_of q_id i (quotes s) = Some q" "q_status q \<noteq> Qt_Converted"
  shows "now e \<le> q_valid_until q \<and> (\<forall>l \<in> set (quote_lines s i). qi_product_id l \<noteq> None) \<and>
    products s' = stock_moved (\<lambda>k. - quoted_qty (quote_lines s i) k) (products s) \<and>
    (\<exists>b. sales s' = sales s @ [b] \<and> s_id b = sp_id party \<and> (\<forall>n. q_total q = Some n \<longrightarrow> s_total b = n)) \<and>
    qo_row out = converted_into e (sp_id party) q"
proof -
  obtain st q2 dto where c: "lock_for_sale e i (sp_id party) s = Inr (st, s)" "row_of q_id i (quotes s) = Some q2"
    "sale_from s q2 party = Inr dto" "sell_and_mark e i st dto a s = Inr (r, s')" "read_quote e i s' = Inr (out, s')"
    using assms(1) by (rule convert_in_Inr)
  have q2: "q2 = q" "q_id q = i" using c(2) assms(2) row_of_SomeD by fastforce+
  note st = open_lock [OF c(1) assms(2,3)]
  note f = sale_from_Inr [OF c(3), unfolded q2]
  have marked: "sell_and_mark e i State_Fresh dto a s = Inr (r, s')" using c(4) st(1) by simp
  obtain s0 where run: "create_in e dto a s = Inr (r, s0)"
    and s': "s' = s0\<lparr>quotes := upd_where (\<lambda>q. q_id q = i) (converted_into e (sp_id dto)) (quotes s)\<rparr>"
    by (rule sell_and_mark_Inr [OF marked]) simp
  have "\<not> has_key s_id (sp_id dto) (sales s)" using st(3) f(1) by simp
  from create_in_written [OF run this] have w: "sale_written e dto a s r s0" .
  have "sold_qty (cs_items dto) k = quoted_qty (quote_lines s i) k" for k
    using sold_qty_quoted [of "quote_lines s i"] f(2,3) q2 by simp
  moreover have "qo_row out = converted_into e (sp_id party) q"
    using c(5) row_after_mark [OF marked assms(2)] f(1) by (simp add: read_quote_Inr to_quote_def)
  ultimately show ?thesis
    using w s' f st(2) q2 by (auto simp: sale_written_def sale_row_def lapsed_def)
qed

lemma conversion_sells_quote_witness:
  "\<exists>r out s'. convert_in sample_env ''q'' sample_party sample_actor quoting_shop = Inr ((r, out), s') \<and>
     (\<exists>b. sales s' = sales quoting_shop @ [b] \<and> s_id b = ''b'')"
proof -
  obtain r s' where run: "sell_and_mark sample_env ''q'' State_Fresh sample_bill sample_actor quoting_shop = Inr (r, s')"
    using quoting_shop_runs by blast
  have "row_of q_id ''q'' (quotes s') = Some (converted_into sample_env ''b'' (hd (quotes quoting_shop)))"
    using row_after_mark [OF run quoting_shop_rows(1)] by (simp add: sample_bill_def)
  then have "\<exists>out. convert_in sample_env ''q'' sample_party sample_actor quoting_shop = Inr ((r, out), s')"
    using run quoting_shop_rows quoting_shop_sale
    by (simp add: convert_in_def tx_bind_def read_quote_def sample_party_def)
  then obtain out where conv: "convert_in sample_env ''q'' sample_party sample_actor quoting_shop = Inr ((r, out), s')" ..
  have "q_status (hd (quotes quoting_shop)) \<noteq> Qt_Converted" by (simp add: quoting_shop_rows(2))
  from conversion_sells_quote [OF conv quoting_shop_rows(1) this] conv show ?thesis by (auto simp: sample_party_def)
qed

end
