(* ===== verification/People.thy ===== *)
theory People
  imports Catalogue_Dto Keyset "HOL-Library.Sublist"
begin

text \<open>
  Customers and mechanics (\<open>people/people.dto.ts\<close>, \<open>customers/customers.service.ts\<close>,
  \<open>mechanics/mechanics.service.ts\<close>): the request bodies, the running codes \<open>CUS001\<close> and
  \<open>M001\<close>, patches, soft deletes and the lists. The instants of creation and change come in as
  functions of the row where a list orders by them.
\<close>

section \<open>Request bodies\<close>

definition text_or_blank :: "jsval \<Rightarrow> string option" where
  "text_or_blank v = (case v of JStr s \<Rightarrow> if trim s = [] then None else Some s | _ \<Rightarrow> None)"

definition name_or_thai :: "(string \<times> jsval) list \<Rightarrow> err + string" where
  "name_or_thai b =
     e_bind (nullable_string (get_prop b ''name'') ''name'') (\<lambda>n.
     case n of
       Some s \<Rightarrow> if trim s \<noteq> [] then Inr s
                 else (case text_or_blank (get_prop b ''nameTH'') of Some t \<Rightarrow> Inr t | None \<Rightarrow> Inl (bad_request ''name''))
     | None \<Rightarrow> (case text_or_blank (get_prop b ''nameTH'') of Some t \<Rightarrow> Inr t | None \<Rightarrow> Inl (bad_request ''name'')))"

definition thai_or_name :: "(string \<times> jsval) list \<Rightarrow> err + string" where
  "thai_or_name b =
     e_bind (nullable_string (get_prop b ''nameTH'') ''nameTH'') (\<lambda>n.
     case n of
       Some s \<Rightarrow> if trim s \<noteq> [] then Inr s
                 else (case text_or_blank (get_prop b ''name'') of Some t \<Rightarrow> Inr t | None \<Rightarrow> Inl (bad_request ''nameTH''))
     | None \<Rightarrow> (case text_or_blank (get_prop b ''name'') of Some t \<Rightarrow> Inr t | None \<Rightarrow> Inl (bad_request ''nameTH'')))"

record customer_create =
  cc_id :: "uuid option"
  cc_name :: string
  cc_name_th :: "string option"
  cc_phone :: "string option"
  cc_address :: "string option"

definition parse_customer_create :: "jsval \<Rightarrow> err + customer_create" where
  "parse_customer_create body =
     e_bind (as_object body ''body'') (\<lambda>b.
     e_bind (name_or_thai b) (\<lambda>n.
     e_bind (nullable_string (get_prop b ''nameTH'') ''nameTH'') (\<lambda>th.
     e_bind (nullable_string (get_prop b ''phone'') ''phone'') (\<lambda>ph.
     e_bind (nullable_string (get_prop b ''address'') ''address'') (\<lambda>ad.
     Inr \<lparr>cc_id = None, cc_name = n, cc_name_th = Some (case th of None \<Rightarrow> n | Some t \<Rightarrow> t), cc_phone = ph, cc_address = ad\<rparr>)))))"

record customer_patch =
  ct_name :: "string option"
  ct_name_th :: "string option"
  ct_phone :: "string option option"
  ct_address :: "string option option"

definition parse_customer_patch :: "jsval \<Rightarrow> err + customer_patch" where
  "parse_customer_patch body =
     e_bind (as_object body ''body'') (\<lambda>b.
     e_bind (if_sent b ''name'' (\<lambda>_. name_or_thai b)) (\<lambda>n.
     e_bind (if_sent b ''nameTH'' (\<lambda>_. thai_or_name b)) (\<lambda>th.
     e_bind (if_sent b ''phone'' (\<lambda>v. nullable_string v ''phone'')) (\<lambda>ph.
     e_bind (if_sent b ''address'' (\<lambda>v. nullable_string v ''address'')) (\<lambda>ad.
     Inr \<lparr>ct_name = n, ct_name_th = th, ct_phone = ph, ct_address = ad\<rparr>)))))"

record mechanic_create =
  mc_name :: string
  mc_name_th :: "string option"
  mc_nickname :: "string option"
  mc_shop_name :: "string option"
  mc_phone :: "string option"
  mc_note :: "string option"
  mc_credit_limit :: int

definition parse_mechanic_create :: "jsval \<Rightarrow> err + mechanic_create" where
  "parse_mechanic_create body =
     e_bind (as_object body ''body'') (\<lambda>b.
     e_bind (name_or_thai b) (\<lambda>n.
     e_bind (nullable_string (get_prop b ''nameTH'') ''nameTH'') (\<lambda>th.
     e_bind (nullable_string (get_prop b ''nickname'') ''nickname'') (\<lambda>ni.
     e_bind (nullable_string (get_prop b ''shopName'') ''shopName'') (\<lambda>sh.
     e_bind (nullable_string (get_prop b ''phone'') ''phone'') (\<lambda>ph.
     e_bind (nullable_string (get_prop b ''note'') ''note'') (\<lambda>no.
     e_bind (non_negative_money (or_else (get_prop b ''creditLimit'') (JStr ''0.00'')) ''creditLimit'') (\<lambda>cl.
     Inr \<lparr>mc_name = n, mc_name_th = th, mc_nickname = ni, mc_shop_name = sh, mc_phone = ph, mc_note = no,
          mc_credit_limit = cl\<rparr>))))))))"

record mechanic_patch =
  mt_name :: "string option"
  mt_name_th :: "string option option"
  mt_nickname :: "string option option"
  mt_shop_name :: "string option option"
  mt_phone :: "string option option"
  mt_note :: "string option option"
  mt_credit_limit :: "int option"

definition parse_mechanic_patch :: "jsval \<Rightarrow> err + mechanic_patch" where
  "parse_mechanic_patch body =
     e_bind (as_object body ''body'') (\<lambda>b.
     e_bind (if_sent b ''name'' (\<lambda>_. name_or_thai b)) (\<lambda>n.
     e_bind (if_sent b ''nameTH'' (\<lambda>v. nullable_string v ''nameTH'')) (\<lambda>th.
     e_bind (if_sent b ''nickname'' (\<lambda>v. nullable_string v ''nickname'')) (\<lambda>ni.
     e_bind (if_sent b ''shopName'' (\<lambda>v. nullable_string v ''shopName'')) (\<lambda>sh.
     e_bind (if_sent b ''phone'' (\<lambda>v. nullable_string v ''phone'')) (\<lambda>ph.
     e_bind (if_sent b ''note'' (\<lambda>v. nullable_string v ''note'')) (\<lambda>no.
     e_bind (if_sent b ''creditLimit'' (\<lambda>v. non_negative_money v ''creditLimit'')) (\<lambda>cl.
     Inr \<lparr>mt_name = n, mt_name_th = th, mt_nickname = ni, mt_shop_name = sh, mt_phone = ph, mt_note = no,
          mt_credit_limit = cl\<rparr>))))))))"

section \<open>Running codes\<close>

text \<open>The number of a code that matches \<open>^PREFIX([0-9]+)$\<close>.\<close>

definition code_number :: "string \<Rightarrow> string \<Rightarrow> nat option" where
  "code_number pre code =
     (let ds = drop (length pre) code in
      if take (length pre) code = pre \<and> ds \<noteq> [] \<and> list_all is_digit ds then Some (digits_val ds) else None)"

definition code_numbers :: "string \<Rightarrow> string list \<Rightarrow> nat list" where
  "code_numbers pre codes = concat (map (\<lambda>c. case code_number pre c of None \<Rightarrow> [] | Some n \<Rightarrow> [n]) codes)"

text \<open>\<open>COALESCE(MAX(\<dots>::int), 0)\<close>: the cast fails on a number past \<open>int4\<close>. The answer is the next code.\<close>

definition next_code :: "string \<Rightarrow> (db \<Rightarrow> string list) \<Rightarrow> string op" where
  "next_code pre codes =
     tx_bind (tx_get (\<lambda>s. code_numbers pre (codes s))) (\<lambda>ns.
     tx_bind (tx_iter (\<lambda>n. int4 (int n)) ns) (\<lambda>_.
     tx_ret (pre @ pad_start 3 (show_nat (foldr max ns 0 + 1)))))"

section \<open>Customers\<close>

definition customer_not_found :: err where "customer_not_found = HttpErr 404 ''CUSTOMER_NOT_FOUND'' NoDetail"

record people_query =
  pe_search :: string
  pe_since :: "int option"
  pe_after_id :: "uuid option"
  pe_page :: nat
  pe_limit :: nat

definition customer_matches :: "env \<Rightarrow> (customer \<Rightarrow> int) \<Rightarrow> people_query \<Rightarrow> customer \<Rightarrow> bool" where
  "customer_matches e stamp q c \<longleftrightarrow>
     (pe_since q = None \<longrightarrow> \<not> c_deleted c) \<and>
     (pe_search q = [] \<or>
        (let pat = ''%'' @ escape_like (pe_search q) @ ''%'' in
         sql_ilike e pat (c_code c) \<or> sql_ilike e pat (c_name c) \<or> sql_ilike e pat (c_name_th c) \<or>
         sql_ilike e pat (case c_phone c of None \<Rightarrow> [] | Some p \<Rightarrow> p))) \<and>
     (case pe_since q of None \<Rightarrow> True | Some t \<Rightarrow> after_cursor stamp c_id (t, pe_after_id q) c)"

text \<open>Newest change first, or in cursor order for an incremental read.\<close>

definition people_page ::
  "('r \<Rightarrow> int) \<Rightarrow> ('r \<Rightarrow> uuid) \<Rightarrow> people_query \<Rightarrow> 'r list \<Rightarrow> 'r list \<times> nat option \<times> cursor option option" where
  "people_page stamp key q found =
     (let asc = sort_key (\<lambda>r. (stamp r, key r)) found;
          items = take (pe_limit q) (drop ((pe_page q - 1) * pe_limit q) (if pe_since q = None then rev asc else asc)) in
      (items, if pe_since q = None then Some (length found) else None,
       if pe_since q = None then None else Some (next_cursor stamp key items)))"

definition customer_list_in ::
  "env \<Rightarrow> (customer \<Rightarrow> int) \<Rightarrow> people_query \<Rightarrow> (customer list \<times> nat option \<times> cursor option option) op" where
  "customer_list_in e stamp q =
     tx_get (\<lambda>s. people_page stamp c_id q (filter (customer_matches e stamp q) (customers s)))"

definition customer_by_id_in :: "uuid \<Rightarrow> customer op" where
  "customer_by_id_in i =
     tx_bind (tx_get (\<lambda>s. row_of c_id i (filter (\<lambda>c. \<not> c_deleted c) (customers s)))) (\<lambda>row.
     case row of None \<Rightarrow> tx_throw customer_not_found | Some c \<Rightarrow> tx_ret c)"

definition insert_customer :: "customer \<Rightarrow> unit op" where
  "insert_customer c =
     tx_bind (tx_get id) (\<lambda>s.
     tx_bind (unique (\<not> has_key c_id (c_id c) (customers s)) ''customers_pkey'') (\<lambda>_.
     tx_bind (unique (\<not> has_key c_code (c_code c) (customers s)) ''customers_tenant_id_code_key'') (\<lambda>_.
     tx_modify (\<lambda>s. s\<lparr>customers := customers s @ [c]\<rparr>))))"

definition customer_create_in :: "env \<Rightarrow> customer_create \<Rightarrow> customer op" where
  "customer_create_in e input =
     tx_bind (next_code ''CUS'' (\<lambda>s. map c_code (customers s))) (\<lambda>code.
     tx_bind (case cc_id input of None \<Rightarrow> fresh_id e | Some i \<Rightarrow> tx_ret i) (\<lambda>i.
     let c = \<lparr>c_id = i, c_points = 0, c_total_spend = 0, c_code = code, c_name = cc_name input,
        c_name_th = (case cc_name_th input of None \<Rightarrow> cc_name input | Some t \<Rightarrow> t), c_phone = cc_phone input,
        c_address = cc_address input, c_deleted = False\<rparr> in
     tx_bind (insert_customer c) (\<lambda>_.
     tx_bind (add_hook (Invalidate ''customers'')) (\<lambda>_. tx_ret c))))"

definition sent_or :: "'a option \<Rightarrow> 'a \<Rightarrow> 'a" where
  "sent_or sent old = (case sent of None \<Rightarrow> old | Some v \<Rightarrow> v)"

definition patch_customer :: "customer_patch \<Rightarrow> customer \<Rightarrow> customer" where
  "patch_customer p c = c\<lparr>c_name := sent_or (ct_name p) (c_name c), c_name_th := sent_or (ct_name_th p) (c_name_th c),
     c_phone := sent_or (ct_phone p) (c_phone c), c_address := sent_or (ct_address p) (c_address c)\<rparr>"

definition customer_update_in :: "uuid \<Rightarrow> customer_patch \<Rightarrow> customer op" where
  "customer_update_in i p =
     tx_bind (customer_by_id_in i) (\<lambda>c.
     tx_bind (tx_modify (\<lambda>s. s\<lparr>customers := upd_where (\<lambda>c. c_id c = i \<and> \<not> c_deleted c) (patch_customer p) (customers s)\<rparr>)) (\<lambda>_.
     tx_bind (add_hook (Invalidate ''customers'')) (\<lambda>_. tx_ret (patch_customer p c))))"

definition customer_delete_in :: "uuid \<Rightarrow> uuid op" where
  "customer_delete_in i =
     tx_bind (tx_modify (\<lambda>s. s\<lparr>customers := upd_where (\<lambda>c. c_id c = i) (\<lambda>c. c\<lparr>c_deleted := True\<rparr>) (customers s)\<rparr>)) (\<lambda>_.
     tx_bind (add_hook (Invalidate ''customers'')) (\<lambda>_. tx_ret i))"

definition sales_of_customer_in :: "env \<Rightarrow> uuid \<Rightarrow> nat \<Rightarrow> nat \<Rightarrow> (sale_with_items list \<times> nat) op" where
  "sales_of_customer_in e i page limit =
     tx_bind (customer_by_id_in i) (\<lambda>_.
     sale_list_in e \<lparr>sq_search = [], sq_receipt_no = [], sq_from = None, sq_to = None, sq_customer_id = Some i,
       sq_mechanic_id = None, sq_page = page, sq_limit = limit\<rparr>)"

section \<open>Mechanics\<close>

definition mechanic_missing :: err where "mechanic_missing = HttpErr 404 ''MECHANIC_NOT_FOUND'' NoDetail"

definition mechanic_has_balance :: "int \<Rightarrow> err" where
  "mechanic_has_balance n = HttpErr 409 ''MECHANIC_HAS_BALANCE'' (Cash n)"

definition or_empty :: "string option \<Rightarrow> string" where
  "or_empty t = (case t of None \<Rightarrow> [] | Some s \<Rightarrow> s)"

definition mechanic_matches :: "env \<Rightarrow> (mechanic \<Rightarrow> int) \<Rightarrow> people_query \<Rightarrow> mechanic \<Rightarrow> bool" where
  "mechanic_matches e stamp q m \<longleftrightarrow>
     (pe_since q = None \<longrightarrow> \<not> m_deleted m) \<and>
     (pe_search q = [] \<or>
        (let pat = ''%'' @ escape_like (pe_search q) @ ''%'' in
         sql_ilike e pat (m_code m) \<or> sql_ilike e pat (m_name m) \<or> sql_ilike e pat (or_empty (m_name_th m)) \<or>
         sql_ilike e pat (or_empty (m_nickname m)) \<or> sql_ilike e pat (or_empty (m_shop_name m)) \<or>
         sql_ilike e pat (or_empty (m_phone m)))) \<and>
     (case pe_since q of None \<Rightarrow> True | Some t \<Rightarrow> after_cursor stamp m_id (t, pe_after_id q) m)"

definition mechanic_list_in ::
  "env \<Rightarrow> (mechanic \<Rightarrow> int) \<Rightarrow> people_query \<Rightarrow> (mechanic list \<times> nat option \<times> cursor option option) op" where
  "mechanic_list_in e stamp q =
     tx_get (\<lambda>s. people_page stamp m_id q (filter (mechanic_matches e stamp q) (mechanics s)))"

definition mechanic_by_id_in :: "uuid \<Rightarrow> mechanic op" where
  "mechanic_by_id_in i =
     tx_bind (tx_get (\<lambda>s. row_of m_id i (filter (\<lambda>m. \<not> m_deleted m) (mechanics s)))) (\<lambda>row.
     case row of None \<Rightarrow> tx_throw mechanic_missing | Some m \<Rightarrow> tx_ret m)"

definition insert_mechanic :: "mechanic \<Rightarrow> unit op" where
  "insert_mechanic m =
     tx_bind (numeric_14_2 (m_credit_limit m)) (\<lambda>_.
     tx_bind (tx_get id) (\<lambda>s.
     tx_bind (unique (\<not> has_key m_id (m_id m) (mechanics s)) ''mechanics_pkey'') (\<lambda>_.
     tx_bind (unique (\<not> has_key m_code (m_code m) (mechanics s)) ''mechanics_tenant_id_code_key'') (\<lambda>_.
     tx_modify (\<lambda>s. s\<lparr>mechanics := mechanics s @ [m]\<rparr>)))))"

definition mechanic_create_in :: "env \<Rightarrow> mechanic_create \<Rightarrow> mechanic op" where
  "mechanic_create_in e input =
     tx_bind (next_code ''M'' (\<lambda>s. map m_code (mechanics s))) (\<lambda>code.
     tx_bind (fresh_id e) (\<lambda>i.
     let m = \<lparr>m_id = i, m_credit_limit = mc_credit_limit input, m_credit_balance = 0, m_total_sales = 0, m_total_credit = 0,
        m_total_discount = 0, m_total_markup = 0, m_code = code, m_name = mc_name input, m_name_th = mc_name_th input,
        m_nickname = mc_nickname input, m_shop_name = mc_shop_name input, m_phone = mc_phone input, m_note = mc_note input,
        m_deleted = False\<rparr> in
     tx_bind (insert_mechanic m) (\<lambda>_.
     tx_bind (add_hook (Invalidate ''mechanics'')) (\<lambda>_. tx_ret m))))"

definition patch_mechanic :: "mechanic_patch \<Rightarrow> mechanic \<Rightarrow> mechanic" where
  "patch_mechanic p m = m\<lparr>m_name := sent_or (mt_name p) (m_name m), m_name_th := sent_or (mt_name_th p) (m_name_th m),
     m_nickname := sent_or (mt_nickname p) (m_nickname m), m_shop_name := sent_or (mt_shop_name p) (m_shop_name m),
     m_phone := sent_or (mt_phone p) (m_phone m), m_note := sent_or (mt_note p) (m_note m),
     m_credit_limit := sent_or (mt_credit_limit p) (m_credit_limit m)\<rparr>"

definition mechanic_update_in :: "uuid \<Rightarrow> mechanic_patch \<Rightarrow> mechanic op" where
  "mechanic_update_in i p =
     tx_bind (mechanic_by_id_in i) (\<lambda>m.
     tx_bind (numeric_14_2 (m_credit_limit (patch_mechanic p m))) (\<lambda>_.
     tx_bind (tx_modify (\<lambda>s. s\<lparr>mechanics := upd_where (\<lambda>m. m_id m = i \<and> \<not> m_deleted m) (patch_mechanic p) (mechanics s)\<rparr>)) (\<lambda>_.
     tx_bind (add_hook (Invalidate ''mechanics'')) (\<lambda>_. tx_ret (patch_mechanic p m)))))"

text \<open>A mechanic who still owes is not deleted; an absent one is answered as deleted.\<close>

definition mechanic_delete_in :: "uuid \<Rightarrow> uuid op" where
  "mechanic_delete_in i =
     tx_bind (tx_get (\<lambda>s. row_of m_id i (mechanics s))) (\<lambda>row.
     tx_bind (case row of
         None \<Rightarrow> tx_ret ()
       | Some m \<Rightarrow> tx_guard (\<not> (\<not> m_deleted m \<and> 0 < m_credit_balance m)) (mechanic_has_balance (m_credit_balance m))) (\<lambda>_.
     tx_bind (tx_modify (\<lambda>s. s\<lparr>mechanics := upd_where (\<lambda>m. m_id m = i) (\<lambda>m. m\<lparr>m_deleted := True\<rparr>) (mechanics s)\<rparr>)) (\<lambda>_.
     tx_bind (add_hook (Invalidate ''mechanics'')) (\<lambda>_. tx_ret i))))"

definition sales_of_mechanic_in :: "env \<Rightarrow> uuid \<Rightarrow> nat \<Rightarrow> nat \<Rightarrow> (sale_with_items list \<times> nat) op" where
  "sales_of_mechanic_in e i page limit =
     tx_bind (mechanic_by_id_in i) (\<lambda>_.
     sale_list_in e \<lparr>sq_search = [], sq_receipt_no = [], sq_from = None, sq_to = None, sq_customer_id = None,
       sq_mechanic_id = Some i, sq_page = page, sq_limit = limit\<rparr>)"

section \<open>A new code is new\<close>

lemma code_number_new: "code_number pre (pre @ pad_start 3 (show_nat n)) = Some n"
proof -
  have "pad_start 3 (show_nat n) \<noteq> []" using show_nat_nonempty by (simp add: pad_start_def)
  moreover have "list_all is_digit (pad_start 3 (show_nat n))"
    using pad_start_digits [OF show_nat_digits [of n], of 3] by (simp add: list_all_iff)
  ultimately show ?thesis by (simp add: code_number_def)
qed

lemma foldr_max_ge: "n \<in> set ns \<Longrightarrow> n \<le> foldr max ns (0 :: nat)"
  by (induction ns) auto

lemma code_numbers_mem: "c \<in> set codes \<Longrightarrow> code_number pre c = Some n \<Longrightarrow> n \<in> set (code_numbers pre codes)"
  by (force simp: code_numbers_def)

lemma next_code_run:
  "next_code pre codes s = Inl x \<Longrightarrow> x = DbErr ''22003'' []"
  "next_code pre codes s = Inr (c, s') \<Longrightarrow> s' = s \<and> c \<notin> set (codes s)"
proof -
  let ?ns = "code_numbers pre (codes s)"
  have loop: "tx_iter (\<lambda>n. int4 (int n)) ns t = Inl (DbErr ''22003'' []) \<or> tx_iter (\<lambda>n. int4 (int n)) ns t = Inr ((), t)"
    for ns and t :: db
    by (induction ns) (auto simp: int4_def tx_bind_def)
  let ?c = "pre @ pad_start 3 (show_nat (foldr max ?ns 0 + 1))"
  have run: "next_code pre codes s = Inl (DbErr ''22003'' []) \<or> next_code pre codes s = Inr (?c, s)"
    using loop [of ?ns s] by (auto simp: next_code_def tx_bind_def)
  show "next_code pre codes s = Inl x \<Longrightarrow> x = DbErr ''22003'' []" using run by auto
  have "?c \<notin> set (codes s)"
  proof
    assume "?c \<in> set (codes s)"
    then have "foldr max ?ns 0 + 1 \<in> set ?ns" by (rule code_numbers_mem [OF _ code_number_new])
    from foldr_max_ge [OF this] show False by simp
  qed
  then show "next_code pre codes s = Inr (c, s') \<Longrightarrow> s' = s \<and> c \<notin> set (codes s)" using run by auto
qed

lemma customer_create_Inr:
  assumes "customer_create_in e input s = Inr (c, s')"
  shows "customers s' = customers s @ [c] \<and> mechanics s' = mechanics s \<and> c_code c \<notin> set (map c_code (customers s)) \<and>
    c_points c = 0 \<and> c_total_spend c = 0 \<and> c_id c \<notin> set (map c_id (customers s))"
proof -
  from assms [unfolded customer_create_in_def] obtain code s1 where
    n: "next_code ''CUS'' (\<lambda>s. map c_code (customers s)) s = Inr (code, s1)"
    and rest: "(tx_bind (case cc_id input of None \<Rightarrow> fresh_id e | Some i \<Rightarrow> tx_ret i) (\<lambda>i.
     let c = \<lparr>c_id = i, c_points = 0, c_total_spend = 0, c_code = code, c_name = cc_name input,
        c_name_th = (case cc_name_th input of None \<Rightarrow> cc_name input | Some t \<Rightarrow> t), c_phone = cc_phone input,
        c_address = cc_address input, c_deleted = False\<rparr> in
     tx_bind (insert_customer c) (\<lambda>_. tx_bind (add_hook (Invalidate ''customers'')) (\<lambda>_. tx_ret c)))) s1 = Inr (c, s')"
    by (rule tx_bindE)
  from next_code_run(2) [OF n] rest show ?thesis
    by (cases "cc_id input") (auto simp: fresh_id_def Let_def insert_customer_def constraint_defs add_hook_def has_key_def)
qed

lemma mechanic_create_Inr:
  assumes "mechanic_create_in e input s = Inr (m, s')"
  shows "mechanics s' = mechanics s @ [m] \<and> customers s' = customers s \<and> m_code m \<notin> set (map m_code (mechanics s)) \<and>
    m_credit_balance m = 0 \<and> m_id m \<notin> set (map m_id (mechanics s))"
proof -
  from assms [unfolded mechanic_create_in_def] obtain code s1 where
    n: "next_code ''M'' (\<lambda>s. map m_code (mechanics s)) s = Inr (code, s1)"
    and rest: "(tx_bind (fresh_id e) (\<lambda>i.
     let m = \<lparr>m_id = i, m_credit_limit = mc_credit_limit input, m_credit_balance = 0, m_total_sales = 0, m_total_credit = 0,
        m_total_discount = 0, m_total_markup = 0, m_code = code, m_name = mc_name input, m_name_th = mc_name_th input,
        m_nickname = mc_nickname input, m_shop_name = mc_shop_name input, m_phone = mc_phone input, m_note = mc_note input,
        m_deleted = False\<rparr> in
     tx_bind (insert_mechanic m) (\<lambda>_. tx_bind (add_hook (Invalidate ''mechanics'')) (\<lambda>_. tx_ret m)))) s1 = Inr (m, s')"
    by (rule tx_bindE)
  from next_code_run(2) [OF n] rest show ?thesis
    by (auto simp: Let_def fresh_id_def insert_mechanic_def constraint_defs add_hook_def has_key_def)
qed

lemma customer_create_Inl:
  assumes "customer_create_in e input s = Inl x"
  shows "x = DbErr ''22003'' [] \<or> x = DbErr ''23505'' ''customers_pkey''"
proof (cases "next_code ''CUS'' (\<lambda>s. map c_code (customers s)) s")
  case (Inl y)
  then show ?thesis using assms next_code_run(1) [OF Inl] by (simp add: customer_create_in_def tx_bind_def)
next
  case (Inr r)
  then obtain code where r: "r = (code, s)" "code \<notin> c_code ` set (customers s)"
    using next_code_run(2) by (metis (no_types, lifting) list.set_map prod.collapse)
  then show ?thesis
    using assms Inr
    by (cases "cc_id input") (auto simp: customer_create_in_def tx_bind_def fresh_id_def Let_def insert_customer_def
        constraint_defs add_hook_def has_key_def tx_guard_def split: if_splits)
qed

section \<open>The ledger under edits\<close>

text \<open>The money of a mechanic, which no edit of the people's lists may touch.\<close>

definition mechanic_money :: "mechanic \<Rightarrow> uuid \<times> int \<times> int \<times> int \<times> int \<times> int" where
  "mechanic_money m = (m_id m, m_credit_balance m, m_total_sales m, m_total_credit m, m_total_discount m, m_total_markup m)"

definition customer_money :: "customer \<Rightarrow> uuid \<times> int \<times> int" where
  "customer_money c = (c_id c, c_points c, c_total_spend c)"

inductive people_step :: "db \<Rightarrow> db \<Rightarrow> bool" where
  customer_created: "customer_create_in e cin s = Inr (c, s') \<Longrightarrow> people_step s s'"
| customer_updated: "customer_update_in i cp s = Inr (c, s') \<Longrightarrow> people_step s s'"
| customer_deleted: "customer_delete_in i s = Inr (j, s') \<Longrightarrow> people_step s s'"
| mechanic_created: "mechanic_create_in e inp s = Inr (m, s') \<Longrightarrow> people_step s s'"
| mechanic_updated: "mechanic_update_in i mp s = Inr (m, s') \<Longrightarrow> people_step s s'"
| mechanic_deleted: "mechanic_delete_in i s = Inr (j, s') \<Longrightarrow> people_step s s'"

lemma map_upd_where_same: "(\<And>r. g (f r) = g r) \<Longrightarrow> map g (upd_where p f rows) = map g rows"
  by (induction rows) auto

lemma mechanic_delete_Inr:
  assumes "mechanic_delete_in i s = Inr (j, s')"
  shows "mechanics s' = upd_where (\<lambda>m. m_id m = i) (\<lambda>m. m\<lparr>m_deleted := True\<rparr>) (mechanics s) \<and> customers s' = customers s \<and>
    (\<forall>m. row_of m_id i (mechanics s) = Some m \<and> \<not> m_deleted m \<longrightarrow> m_credit_balance m \<le> 0)"
  using assms by (auto simp: mechanic_delete_in_def add_hook_def split: option.splits)

lemma mechanic_update_Inr:
  "mechanic_update_in i p s = Inr (m, s') \<Longrightarrow>
   mechanics s' = upd_where (\<lambda>m. m_id m = i \<and> \<not> m_deleted m) (patch_mechanic p) (mechanics s) \<and> customers s' = customers s"
  by (auto simp: mechanic_update_in_def mechanic_by_id_in_def add_hook_def constraint_defs split: option.splits)

lemma customer_edit_Inr:
  "customer_update_in i p s = Inr (c, s') \<Longrightarrow> mechanics s' = mechanics s \<and>
     customers s' = upd_where (\<lambda>c. c_id c = i \<and> \<not> c_deleted c) (patch_customer p) (customers s)"
  "customer_delete_in i s = Inr (j, s') \<Longrightarrow> mechanics s' = mechanics s \<and>
     customers s' = upd_where (\<lambda>c. c_id c = i) (\<lambda>c. c\<lparr>c_deleted := True\<rparr>) (customers s)"
  by (auto simp: customer_update_in_def customer_by_id_in_def customer_delete_in_def add_hook_def split: option.splits)

lemma people_step_money:
  assumes "people_step s s'"
  shows "prefix (map mechanic_money (mechanics s)) (map mechanic_money (mechanics s')) \<and>
    prefix (map customer_money (customers s)) (map customer_money (customers s'))"
  using assms
proof cases
  case mechanic_updated
  from mechanic_update_Inr [OF this] show ?thesis
    by (simp add: map_upd_where_same patch_mechanic_def mechanic_money_def)
next
  case mechanic_deleted
  from mechanic_delete_Inr [OF this] show ?thesis by (simp add: map_upd_where_same mechanic_money_def)
next
  case customer_updated
  from customer_edit_Inr(1) [OF this] show ?thesis by (simp add: map_upd_where_same patch_customer_def customer_money_def)
next
  case customer_deleted
  from customer_edit_Inr(2) [OF this] show ?thesis by (simp add: map_upd_where_same customer_money_def)
qed (auto dest: customer_create_Inr mechanic_create_Inr)

lemma people_step_debtor:
  assumes "people_step s s'" "distinct (map m_id (mechanics s))"
    and "m \<in> set (mechanics s)" "\<not> m_deleted m" "0 < m_credit_balance m"
  shows "distinct (map m_id (mechanics s')) \<and>
    (\<exists>m' \<in> set (mechanics s'). mechanic_money m' = mechanic_money m \<and> \<not> m_deleted m')"
  using assms(1)
proof cases
  case (mechanic_created e inp m')
  from mechanic_create_Inr [OF this] assms(2-4) show ?thesis by auto
next
  case (mechanic_updated i mp x)
  let ?f = "\<lambda>r. if m_id r = i \<and> \<not> m_deleted r then patch_mechanic mp r else r"
  have s': "mechanics s' = map ?f (mechanics s)" using mechanic_update_Inr [OF mechanic_updated] by (simp add: upd_where_def)
  have "map m_id (mechanics s') = map m_id (mechanics s)" by (simp add: s' patch_mechanic_def)
  moreover have "?f m \<in> set (mechanics s')" using assms(3) by (simp add: s')
  moreover have "mechanic_money (?f m) = mechanic_money m \<and> m_deleted (?f m) = m_deleted m"
    by (simp add: patch_mechanic_def mechanic_money_def)
  ultimately show ?thesis using assms(2,4) by metis
next
  case (mechanic_deleted i j)
  note d = mechanic_delete_Inr [OF this]
  have "m_id m \<noteq> i" using d assms(2-5) row_of_unique [OF assms(2,3)] by force
  then have "m \<in> set (mechanics s')" using d assms(3) by (auto simp: upd_where_def)
  moreover have "map m_id (mechanics s') = map m_id (mechanics s)" using d by (simp add: map_upd_where_same)
  ultimately show ?thesis using assms(2,4) by metis
next
  case customer_created
  from customer_create_Inr [OF this] have "mechanics s' = mechanics s" by simp
  then show ?thesis using assms(2-4) by auto
next
  case customer_updated
  from customer_edit_Inr(1) [OF this] have "mechanics s' = mechanics s" by simp
  then show ?thesis using assms(2-4) by auto
next
  case customer_deleted
  from customer_edit_Inr(2) [OF this] have "mechanics s' = mechanics s" by simp
  then show ?thesis using assms(2-4) by auto
qed

lemma people_steps_debtor:
  assumes "people_step\<^sup>*\<^sup>* s s'" "distinct (map m_id (mechanics s))"
    and "m \<in> set (mechanics s)" "\<not> m_deleted m" "0 < m_credit_balance m"
  shows "distinct (map m_id (mechanics s')) \<and>
    (\<exists>m' \<in> set (mechanics s'). mechanic_money m' = mechanic_money m \<and> \<not> m_deleted m')"
  using assms(1)
proof (induction rule: rtranclp_induct)
  case (step t u)
  then obtain m' where m': "distinct (map m_id (mechanics t))" "m' \<in> set (mechanics t)"
    "mechanic_money m' = mechanic_money m" "\<not> m_deleted m'" by blast
  then have "0 < m_credit_balance m'" using assms(5) by (simp add: mechanic_money_def)
  from people_step_debtor [OF step.hyps(2) m'(1,2,4) this] m'(3) show ?case by metis
qed (use assms(2-4) in blast)

lemma people_steps_money:
  "people_step\<^sup>*\<^sup>* s s' \<Longrightarrow> prefix (map mechanic_money (mechanics s)) (map mechanic_money (mechanics s')) \<and>
     prefix (map customer_money (customers s)) (map customer_money (customers s'))"
  by (induction rule: rtranclp_induct) (auto dest: people_step_money intro: prefix_order.trans)

section \<open>A concrete tab\<close>

definition owing_shop :: db where
  "owing_shop = blank_db\<lparr>mechanics := [\<lparr>m_id = ''m'', m_credit_limit = 100000, m_credit_balance = 20000, m_total_sales = 0,
     m_total_credit = 0, m_total_discount = 0, m_total_markup = 0, m_code = ''M001'', m_name = ''Chai'', m_name_th = None,
     m_nickname = None, m_shop_name = None, m_phone = None, m_note = None, m_deleted = False\<rparr>]\<rparr>"

section \<open>Properties\<close>

text \<open>
  C21. The running code of a new customer or mechanic is one nobody has, deleted rows and codes typed
  with other widths included: creating never meets the unique index on the code, and what it can fail
  on is a code number past \<open>int4\<close> or an id already on file.
\<close>

theorem new_code_never_clashes:
  assumes "distinct (map c_code (customers s))" "distinct (map m_code (mechanics s))"
  shows "(\<forall>c s'. customer_create_in e ci s = Inr (c, s') \<longrightarrow> distinct (map c_code (customers s')) \<and> customers s' = customers s @ [c]) \<and>
    (\<forall>m s'. mechanic_create_in e mi s = Inr (m, s') \<longrightarrow> distinct (map m_code (mechanics s')) \<and> mechanics s' = mechanics s @ [m]) \<and>
    (\<forall>x. customer_create_in e ci s = Inl x \<longrightarrow> x = DbErr ''22003'' [] \<or> x = DbErr ''23505'' ''customers_pkey'')"
proof -
  have "distinct (map c_code (customers s')) \<and> customers s' = customers s @ [c]" if "customer_create_in e ci s = Inr (c, s')" for c s'
    using customer_create_Inr [OF that] assms(1) by simp
  moreover have "distinct (map m_code (mechanics s')) \<and> mechanics s' = mechanics s @ [m]" if "mechanic_create_in e mi s = Inr (m, s')" for m s'
    using mechanic_create_Inr [OF that] assms(2) by simp
  ultimately show ?thesis by (auto dest: customer_create_Inl)
qed

theorem new_code_never_clashes_witness:
  "\<exists>c s'. customer_create_in sample_env \<lparr>cc_id = None, cc_name = ''A'', cc_name_th = None, cc_phone = None, cc_address = None\<rparr>
     blank_db = Inr (c, s') \<and> distinct (map c_code (customers s')) \<and> c_code c = ''CUS001''"
proof -
  have "pad_start 3 (show_nat 1) = ''001''"
    by code_simp
  then have "\<exists>c s'. customer_create_in sample_env \<lparr>cc_id = None, cc_name = ''A'', cc_name_th = None, cc_phone = None, cc_address = None\<rparr>
     blank_db = Inr (c, s') \<and> c_code c = ''CUS001''"
    by (simp add: customer_create_in_def next_code_def code_numbers_def fresh_id_def insert_customer_def constraint_defs add_hook_def Let_def)
  then show ?thesis using new_code_never_clashes [of blank_db] by fastforce
qed

text \<open>
  Editing the people's lists never touches money, and no one's debt disappears: through any
  sequence of creations, patches and deletions every customer's points and spending and every
  mechanic's tab and totals stay as they were, and a mechanic on the list who owes stays on the list
  owing the same.
\<close>

theorem debtor_stays_listed:
  assumes "people_step\<^sup>*\<^sup>* s s'" "distinct (map m_id (mechanics s))"
  shows "prefix (map mechanic_money (mechanics s)) (map mechanic_money (mechanics s')) \<and>
    prefix (map customer_money (customers s)) (map customer_money (customers s')) \<and>
    (\<forall>m \<in> set (mechanics s). \<not> m_deleted m \<and> 0 < m_credit_balance m \<longrightarrow>
       (\<exists>m' \<in> set (mechanics s'). mechanic_money m' = mechanic_money m \<and> \<not> m_deleted m'))"
  using people_steps_money [OF assms(1)] people_steps_debtor [OF assms] by blast

theorem debtor_stays_listed_witness:
  "\<exists>m s'. mechanic_update_in ''m'' \<lparr>mt_name = Some ''N'', mt_name_th = None, mt_nickname = None, mt_shop_name = None, mt_phone = None,
     mt_note = None, mt_credit_limit = Some 0\<rparr> owing_shop = Inr (m, s') \<and>
     (\<exists>m' \<in> set (mechanics s'). m_credit_balance m' = 20000 \<and> \<not> m_deleted m')"
proof -
  have "\<exists>m s'. mechanic_update_in ''m'' \<lparr>mt_name = Some ''N'', mt_name_th = None, mt_nickname = None, mt_shop_name = None, mt_phone = None,
     mt_note = None, mt_credit_limit = Some 0\<rparr> owing_shop = Inr (m, s')"
    by (simp add: mechanic_update_in_def mechanic_by_id_in_def owing_shop_def constraint_defs add_hook_def patch_mechanic_def sent_or_def)
  then obtain m s' where run: "mechanic_update_in ''m'' \<lparr>mt_name = Some ''N'', mt_name_th = None, mt_nickname = None, mt_shop_name = None,
     mt_phone = None, mt_note = None, mt_credit_limit = Some 0\<rparr> owing_shop = Inr (m, s')" by blast
  have "distinct (map m_id (mechanics owing_shop))" by (simp add: owing_shop_def)
  from debtor_stays_listed [OF r_into_rtranclp [of people_step, OF mechanic_updated [OF run]] this] run
  show ?thesis by (fastforce simp: owing_shop_def mechanic_money_def)
qed

end
