(* ===== verification/Credit_Payments.thy ===== *)
theory Credit_Payments
  imports Returns_Facts
begin

text \<open>
  Settling a mechanic's tab (\<open>mechanics/credit-payments.dto.ts\<close>,
  \<open>mechanics/credit-payments.service.ts\<close>): the replay under the client's id, the open drawer, the
  overpayment check on the locked balance, the CP number, the clamp at zero and the audit row.
\<close>

section \<open>The request body\<close>

record credit_payment_body =
  pb_id :: "uuid option"
  pb_amount :: int
  pb_method :: pay_method
  pb_note :: "string option"
  pb_allow_overpayment :: bool

definition CREDIT_PAYMENT_METHODS :: "string list" where
  "CREDIT_PAYMENT_METHODS = [cash_text, qr_text]"

definition required_credit_method :: "jsval \<Rightarrow> err + pay_method" where
  "required_credit_method v =
     (case v of
        JStr s \<Rightarrow> if trim s = [] \<or> s \<notin> set CREDIT_PAYMENT_METHODS then Inl (bad_request ''paymentMethod'')
                 else Inr (method_of_text s)
      | _ \<Rightarrow> Inl (bad_request ''paymentMethod''))"

definition optional_payment_id :: "jsval \<Rightarrow> err + uuid option" where
  "optional_payment_id v =
     (if is_nullish v then Inr None else e_bind (parse_uuid v ''id'') (\<lambda>i. Inr (Some i)))"

definition parse_create_credit_payment :: "(jsval \<Rightarrow> string) \<Rightarrow> jsval \<Rightarrow> err + credit_payment_body" where
  "parse_create_credit_payment to_str body =
     e_bind (as_object body ''body'') (\<lambda>b.
     e_bind (if is_nullish (get_prop b ''amount'') \<or> get_prop b ''amount'' = JStr [] then Inl (bad_request ''amount'')
             else to_satang (get_prop b ''amount'') ''amount'') (\<lambda>n.
     if n \<le> 0 then Inl (bad_request ''amount'')
     else
       e_bind (optional_payment_id (get_prop b ''id'')) (\<lambda>i.
       e_bind (required_credit_method (get_prop b ''paymentMethod'')) (\<lambda>m.
       e_bind (boolean_or_false (get_prop b ''allowOverpayment'') ''allowOverpayment'') (\<lambda>al.
       Inr \<lparr>pb_id = i, pb_amount = n, pb_method = m,
          pb_note = (if is_nullish (get_prop b ''note'') \<or> get_prop b ''note'' = JStr [] then None
                     else Some (case get_prop b ''note'' of JStr t \<Rightarrow> t | v \<Rightarrow> to_str v)),
          pb_allow_overpayment = al\<rparr>)))))"

section \<open>The transaction\<close>

record credit_payment_result =
  pe_payment :: credit_payment
  pe_balance_after :: int

definition mechanic_not_found :: err where "mechanic_not_found = HttpErr 404 ''MECHANIC_NOT_FOUND'' NoDetail"

definition credit_payment_id_reused :: err where
  "credit_payment_id_reused = HttpErr 409 ''CREDIT_PAYMENT_ID_REUSED'' NoDetail"

definition exceeds_balance :: "int \<Rightarrow> int \<Rightarrow> err" where
  "exceeds_balance balance amount =
     HttpErr 409 ''CREDIT_PAYMENT_EXCEEDS_BALANCE'' (Overpay balance amount (amount - balance))"

definition lock_balance :: "uuid \<Rightarrow> int op" where
  "lock_balance m =
     tx_bind (tx_get (\<lambda>s. row_of m_id m (mechanics s))) (\<lambda>row.
     case row of None \<Rightarrow> tx_throw mechanic_not_found | Some r \<Rightarrow> tx_ret (m_credit_balance r))"

definition existing_payment :: "uuid \<Rightarrow> credit_payment_body \<Rightarrow> uuid \<Rightarrow> int \<Rightarrow> credit_payment_result option op" where
  "existing_payment m dto i balance =
     tx_bind (tx_get (\<lambda>s. row_of cp_id i (credit_payments s))) (\<lambda>row.
     case row of
       None \<Rightarrow> tx_ret None
     | Some r \<Rightarrow>
         if cp_mechanic_id r \<noteq> m \<or> cp_amount r \<noteq> pb_amount dto \<or> cp_payment_method r \<noteq> Some (pb_method dto)
         then tx_throw credit_payment_id_reused
         else tx_ret (Some \<lparr>pe_payment = r, pe_balance_after = balance\<rparr>))"

definition insert_credit_payment :: "credit_payment \<Rightarrow> unit op" where
  "insert_credit_payment r =
     tx_bind (numeric_14_2 (cp_amount r)) (\<lambda>_.
     tx_bind (check (0 < cp_amount r) ''credit_payments_amount_check'') (\<lambda>_.
     tx_bind (tx_get id) (\<lambda>s.
     tx_bind (unique (\<not> has_key cp_id (cp_id r) (credit_payments s)) ''credit_payments_pkey'') (\<lambda>_.
     tx_bind (unique (\<not> has_key cp_receipt_no (cp_receipt_no r) (credit_payments s))
        ''credit_payments_tenant_id_receipt_no_key'') (\<lambda>_.
     tx_bind (foreign_key (has_key m_id (cp_mechanic_id r) (mechanics s))
        ''credit_payments_tenant_id_mechanic_id_fkey'') (\<lambda>_.
     tx_modify (\<lambda>s. s\<lparr>credit_payments := credit_payments s @ [r]\<rparr>)))))))"

definition tab_reduced :: "int \<Rightarrow> mechanic \<Rightarrow> mechanic" where
  "tab_reduced amount m = m\<lparr>m_credit_balance := max 0 (m_credit_balance m - amount)\<rparr>"

definition reduce_balance :: "uuid \<Rightarrow> int \<Rightarrow> int op" where
  "reduce_balance m amount =
     tx_bind (tx_get (\<lambda>s. row_of m_id m (mechanics s))) (\<lambda>row.
     case row of
       None \<Rightarrow> tx_throw (Fault ''Mechanic vanished mid-transaction'')
     | Some r \<Rightarrow>
         tx_bind (numeric_14_2 (max 0 (m_credit_balance r - amount))) (\<lambda>_.
         tx_bind (tx_modify (\<lambda>s. s\<lparr>mechanics := upd_where (\<lambda>q. m_id q = m) (tab_reduced amount) (mechanics s)\<rparr>)) (\<lambda>_.
         tx_ret (max 0 (m_credit_balance r - amount)))))"

definition overpayment_audit :: "actor \<Rightarrow> credit_payment \<Rightarrow> int \<Rightarrow> int \<Rightarrow> audit_row" where
  "overpayment_audit a p before after =
     \<lparr>au_user = Some (a_user a), au_device = Some (a_device a), au_action = ''mechanic.credit_payment_overpayment'',
      au_entity = ''mechanic'', au_entity_id = cp_mechanic_id p, au_before = None,
      au_after = Some (JObj [(''creditPaymentId'', JStr (cp_id p)), (''receiptNo'', JStr (cp_receipt_no p)),
        (''amount'', JStr (from_satang (cp_amount p))), (''creditBalanceBefore'', JStr (from_satang before)),
        (''creditBalanceAfter'', JStr (from_satang after))])\<rparr>"

definition pay_new :: "env \<Rightarrow> uuid \<Rightarrow> credit_payment_body \<Rightarrow> actor \<Rightarrow> int \<Rightarrow> credit_payment_result op" where
  "pay_new e m dto a before =
     tx_bind (require_open_shift_id_for (a_device a)) (\<lambda>sid.
     tx_bind (tx_guard (\<not> (before < pb_amount dto \<and> \<not> pb_allow_overpayment dto)) (exceeds_balance before (pb_amount dto))) (\<lambda>_.
     tx_bind (issue e (a_device a) Cp) (\<lambda>no.
     tx_bind (case pb_id dto of None \<Rightarrow> fresh_id e | Some i \<Rightarrow> tx_ret i) (\<lambda>i.
     let p = \<lparr>cp_id = i, cp_receipt_no = no, cp_mechanic_id = m, cp_amount = pb_amount dto,
        cp_payment_method = Some (pb_method dto), cp_note = pb_note dto, cp_date = now e, cp_shift_id = Some sid\<rparr> in
     tx_bind (insert_credit_payment p) (\<lambda>_.
     tx_bind (reduce_balance m (pb_amount dto)) (\<lambda>after.
     tx_bind (add_hook (Invalidate ''mechanics'')) (\<lambda>_.
     tx_bind (if before < pb_amount dto then insert_audit (overpayment_audit a p before after) else tx_ret ()) (\<lambda>_.
     tx_ret \<lparr>pe_payment = p, pe_balance_after = after\<rparr>))))))))"

definition credit_payment_in :: "env \<Rightarrow> uuid \<Rightarrow> credit_payment_body \<Rightarrow> actor \<Rightarrow> credit_payment_result op" where
  "credit_payment_in e m dto a =
     tx_bind (lock_balance m) (\<lambda>before.
     tx_bind (case pb_id dto of None \<Rightarrow> tx_ret None | Some i \<Rightarrow> existing_payment m dto i before) (\<lambda>old.
     case old of Some r \<Rightarrow> tx_ret r | None \<Rightarrow> pay_new e m dto a before))"

section \<open>What it writes\<close>

interpretation tab_upd: keyed_update m_id "tab_reduced n" for n
  by unfold_locales (simp add: tab_reduced_def)

lemma tx_fixes_credit_payment_in:
  assumes "\<And>s x. f (s\<lparr>doc_counters := x\<rparr>) = f s" "\<And>s x. f (s\<lparr>minted := x\<rparr>) = f s"
    "\<And>s x. f (s\<lparr>credit_payments := x\<rparr>) = f s" "\<And>s x. f (s\<lparr>mechanics := x\<rparr>) = f s"
    "\<And>s x. f (s\<lparr>hooks := x\<rparr>) = f s" "\<And>s x. f (s\<lparr>audit_log := x\<rparr>) = f s"
  shows "tx_fixes f (credit_payment_in e m dto a)"
  unfolding credit_payment_in_def lock_balance_def existing_payment_def pay_new_def insert_credit_payment_def
    reduce_balance_def
  by (intro tx_fix required.gate_fixes; simp add: assms)

lemma lock_balance_Inr:
  "lock_balance m s = Inr (b, s') \<longleftrightarrow> s' = s \<and> (\<exists>r. row_of m_id m (mechanics s) = Some r \<and> b = m_credit_balance r)"
  by (auto simp: lock_balance_def split: option.splits)

lemma insert_credit_payment_Inr:
  "insert_credit_payment p s = Inr (u, s') \<Longrightarrow> s' = s\<lparr>credit_payments := credit_payments s @ [p]\<rparr> \<and>
     0 < cp_amount p \<and> \<not> has_key cp_id (cp_id p) (credit_payments s) \<and>
     \<not> has_key cp_receipt_no (cp_receipt_no p) (credit_payments s)"
  by (auto simp: insert_credit_payment_def constraint_defs)

lemma reduce_balance_Inr:
  "reduce_balance m n s = Inr (b, s') \<Longrightarrow>
     s' = s\<lparr>mechanics := upd_where (\<lambda>q. m_id q = m) (tab_reduced n) (mechanics s)\<rparr> \<and>
     (\<exists>r. row_of m_id m (mechanics s) = Some r \<and> b = max 0 (m_credit_balance r - n))"
  by (auto simp: reduce_balance_def constraint_defs split: option.splits)

lemma pay_new_Inr:
  assumes "pay_new e m dto a before s = Inr (r, s')"
  obtains sid where "require_open_shift_id_for (a_device a) s = Inr (sid, s)"
    "pb_amount dto \<le> before \<or> pb_allow_overpayment dto"
    "cp_mechanic_id (pe_payment r) = m" "cp_amount (pe_payment r) = pb_amount dto" "0 < pb_amount dto"
    "cp_payment_method (pe_payment r) = Some (pb_method dto)" "cp_shift_id (pe_payment r) = Some sid"
    "pb_id dto = None \<or> pb_id dto = Some (cp_id (pe_payment r))"
    "credit_payments s' = credit_payments s @ [pe_payment r]" "\<not> has_key cp_id (cp_id (pe_payment r)) (credit_payments s)"
    "\<not> has_key cp_receipt_no (cp_receipt_no (pe_payment r)) (credit_payments s)"
    "mechanics s' = upd_where (\<lambda>q. m_id q = m) (tab_reduced (pb_amount dto)) (mechanics s)"
    "audit_log s' = audit_log s @ (if before < pb_amount dto
       then [overpayment_audit a (pe_payment r) before (pe_balance_after r)] else [])"
    "\<exists>q. row_of m_id m (mechanics s) = Some q \<and> pe_balance_after r = max 0 (m_credit_balance q - pb_amount dto)"
proof -
  from assms obtain sid s0 no s1 i s2 where g: "require_open_shift_id_for (a_device a) s = Inr (sid, s0)"
    and ov: "\<not> (before < pb_amount dto \<and> \<not> pb_allow_overpayment dto)"
    and n: "issue e (a_device a) Cp s0 = Inr (no, s1)"
    and i: "(case pb_id dto of None \<Rightarrow> fresh_id e | Some i \<Rightarrow> tx_ret i) s1 = Inr (i, s2)"
    and rest: "(let p = \<lparr>cp_id = i, cp_receipt_no = no, cp_mechanic_id = m, cp_amount = pb_amount dto,
        cp_payment_method = Some (pb_method dto), cp_note = pb_note dto, cp_date = now e, cp_shift_id = Some sid\<rparr> in
     tx_bind (insert_credit_payment p) (\<lambda>_.
     tx_bind (reduce_balance m (pb_amount dto)) (\<lambda>after.
     tx_bind (add_hook (Invalidate ''mechanics'')) (\<lambda>_.
     tx_bind (if before < pb_amount dto then insert_audit (overpayment_audit a p before after) else tx_ret ()) (\<lambda>_.
     tx_ret \<lparr>pe_payment = p, pe_balance_after = after\<rparr>))))) s2 = Inr (r, s')"
    unfolding pay_new_def by (elim tx_bindE) (auto simp del: tx_bind_Inr split: if_splits)
  let ?p = "\<lparr>cp_id = i, cp_receipt_no = no, cp_mechanic_id = m, cp_amount = pb_amount dto,
        cp_payment_method = Some (pb_method dto), cp_note = pb_note dto, cp_date = now e, cp_shift_id = Some sid\<rparr>"
  have s0: "s0 = s" using required.gate_reads [OF g] .
  have s1: "credit_payments s1 = credit_payments s" "mechanics s1 = mechanics s" "audit_log s1 = audit_log s"
    by (rule issued.reads_unchanged [OF n, unfolded s0]; simp)+
  have s2: "credit_payments s2 = credit_payments s" "mechanics s2 = mechanics s" "audit_log s2 = audit_log s"
    "pb_id dto = None \<or> pb_id dto = Some i"
    using i s1 by (auto split: option.splits)
  from rest obtain s3 b s4 where p: "insert_credit_payment ?p s2 = Inr ((), s3)"
    and b: "reduce_balance m (pb_amount dto) s3 = Inr (b, s4)"
    and r: "r = \<lparr>pe_payment = ?p, pe_balance_after = b\<rparr>" "credit_payments s' = credit_payments s4"
      "mechanics s' = mechanics s4"
      "audit_log s' = audit_log s4 @ (if before < pb_amount dto then [overpayment_audit a ?p before b] else [])"
    by (cases "before < pb_amount dto") (auto simp: Let_def add_hook_def insert_audit_def)
  show thesis
    by (rule that [of sid])
      (use g s0 ov s2 insert_credit_payment_Inr [OF p] reduce_balance_Inr [OF b] r in \<open>auto\<close>)
qed

lemma existing_payment_Inr:
  "existing_payment m dto i b s = Inr (r, s') \<longleftrightarrow> s' = s \<and>
     (case row_of cp_id i (credit_payments s) of
        None \<Rightarrow> r = None
      | Some p \<Rightarrow> r = Some \<lparr>pe_payment = p, pe_balance_after = b\<rparr> \<and> cp_mechanic_id p = m \<and> cp_amount p = pb_amount dto \<and>
          cp_payment_method p = Some (pb_method dto))"
  by (auto simp: existing_payment_def split: option.splits if_splits)

lemma credit_payment_in_Inr:
  assumes "credit_payment_in e m dto a s = Inr (r, s')"
  obtains (replay) q i where "row_of m_id m (mechanics s) = Some q" "s' = s" "pb_id dto = Some i"
      "row_of cp_id i (credit_payments s) = Some (pe_payment r)" "pe_balance_after r = m_credit_balance q"
      "cp_mechanic_id (pe_payment r) = m" "cp_amount (pe_payment r) = pb_amount dto"
      "cp_payment_method (pe_payment r) = Some (pb_method dto)"
    | (new) q where "row_of m_id m (mechanics s) = Some q" "pay_new e m dto a (m_credit_balance q) s = Inr (r, s')"
proof -
  from assms [unfolded credit_payment_in_def] obtain b s1 where b: "lock_balance m s = Inr (b, s1)"
    and rest: "tx_bind (case pb_id dto of None \<Rightarrow> tx_ret None | Some i \<Rightarrow> existing_payment m dto i b) (\<lambda>old.
     case old of Some r \<Rightarrow> tx_ret r | None \<Rightarrow> pay_new e m dto a b) s1 = Inr (r, s')" by (rule tx_bindE)
  obtain q where q: "s1 = s" "row_of m_id m (mechanics s) = Some q" "b = m_credit_balance q"
    using b by (auto simp: lock_balance_Inr)
  from rest [unfolded q(1,3)] obtain old s2 where
    old2: "(case pb_id dto of None \<Rightarrow> tx_ret None | Some i \<Rightarrow> existing_payment m dto i (m_credit_balance q)) s = Inr (old, s2)"
    and rest2: "(case old of Some r \<Rightarrow> tx_ret r | None \<Rightarrow> pay_new e m dto a (m_credit_balance q)) s2 = Inr (r, s')" by (rule tx_bindE)
  have "s2 = s" using old2 by (cases "pb_id dto") (simp_all add: existing_payment_Inr)
  then have old: "(case pb_id dto of None \<Rightarrow> tx_ret None | Some i \<Rightarrow> existing_payment m dto i (m_credit_balance q)) s = Inr (old, s)"
    and rest: "(case old of Some r \<Rightarrow> tx_ret r | None \<Rightarrow> pay_new e m dto a (m_credit_balance q)) s = Inr (r, s')"
    using old2 rest2 by simp_all
  show thesis
  proof (cases old)
    case None
    then show thesis using new [OF q(2)] rest by simp
  next
    case (Some x)
    then obtain i where i: "pb_id dto = Some i" using old by (cases "pb_id dto") auto
    with old Some have "existing_payment m dto i (m_credit_balance q) s = Inr (Some x, s)" by simp
    then show thesis
      using replay [OF q(2) _ i] rest Some unfolding existing_payment_Inr by (auto split: option.splits)
  qed
qed

lemma takings_new_payment:
  assumes "credit_payments s' = credit_payments s @ [p]" "sales s' = sales s" "returns s' = returns s"
    "drawer_entries s' = drawer_entries s"
  shows "takings s' i = takings s i + (if cp_shift_id p = Some i \<and> cp_payment_method p = Some Cash_Method then cp_amount p else 0)"
  using assms
  by (simp add: takings_def cash_sales_def cash_credit_payments_def cash_refunds_def drawer_flow_def counted_sale_def)

lemma credit_payment_in_frame:
  assumes "credit_payment_in e m dto a s = Inr (r, s')"
  shows "sales s' = sales s" "returns s' = returns s" "drawer_entries s' = drawer_entries s" "shifts s' = shifts s"
  by (rule tx_fixesD [OF tx_fixes_credit_payment_in assms]; simp)+

lemma credit_payment_in_frozen:
  assumes "shifts_ok s" "credit_payment_in e m dto a s = Inr (r, s')"
  shows "books_frozen s s'"
  using assms(2)
proof (cases rule: credit_payment_in_Inr)
  case (new q)
  from new(2) obtain sid where g: "require_open_shift_id_for (a_device a) s = Inr (sid, s)" "cp_shift_id (pe_payment r) = Some sid"
    "credit_payments s' = credit_payments s @ [pe_payment r]" by (rule pay_new_Inr)
  note frame = credit_payment_in_frame [OF assms(2)]
  have "\<not> closed_shift s sid"
    using required.never_stamps_closed [OF g(1)] assms(1) by (auto simp: shifts_ok_def)
  then have "takings s' i = takings s i" if "closed_shift s i" for i
    using that takings_new_payment [OF g(3) frame(1-3)] g(2) by auto
  then show ?thesis by (intro books_frozenI) (simp_all add: frame)
qed simp

section \<open>A concrete payment\<close>

definition sample_payment :: credit_payment_body where
  "sample_payment = \<lparr>pb_id = Some ''c'', pb_amount = 5000, pb_method = Cash_Method, pb_note = None, pb_allow_overpayment = False\<rparr>"

lemma sample_shop_shifts_ok: "shifts_ok sample_shop"
  by (simp add: sample_shop_def shifts_ok_def one_active_def)

lemma sample_payment_runs: "\<exists>r s'. credit_payment_in sample_env ''m'' sample_payment sample_actor sample_shop = Inr (r, s')"
  by (simp add: credit_payment_in_def lock_balance_def existing_payment_def pay_new_def insert_credit_payment_def
      reduce_balance_def sample_payment_def sample_actor_def sample_shop_def require_open_shift_id_for_def issue_def
      device_no_def upsert_counter_def constraint_defs is_open_def is_current_def MAX_DOC_NO_def add_hook_def
      map_db_err_def Let_def)

section \<open>Properties\<close>

text \<open>
  C28. A new payment on a mechanic's tab: the tab falls by the amount and never below zero, on that
  mechanic only and in that column only; the payment is on file under an open drawer of the caller's
  device, which expects its amount more when it is cash and nothing more when it is a transfer, while
  no other drawer's cash moves; and paying more than the tab needs consent and is in the audit log.
\<close>

theorem tab_settled:
  assumes "shifts_ok s" "credit_payment_in e m dto a s = Inr (r, s')" "pe_payment r \<notin> set (credit_payments s)"
  shows "\<exists>q sh. row_of m_id m (mechanics s) = Some q \<and> sh \<in> set (shifts s) \<and> is_open (a_device a) sh \<and>
    pe_balance_after r = max 0 (m_credit_balance q - pb_amount dto) \<and>
    mechanics s' = upd_where (\<lambda>x. m_id x = m) (tab_reduced (pb_amount dto)) (mechanics s) \<and>
    credit_payments s' = credit_payments s @ [pe_payment r] \<and> cp_shift_id (pe_payment r) = Some (sh_id sh) \<and>
    (\<forall>i. has_key sh_id i (shifts s) \<longrightarrow> expected_cash s' i = expected_cash s i +
       (if i = sh_id sh \<and> pb_method dto = Cash_Method then pb_amount dto else 0)) \<and>
    (m_credit_balance q < pb_amount dto \<longrightarrow> pb_allow_overpayment dto \<and>
       audit_log s' = audit_log s @ [overpayment_audit a (pe_payment r) (m_credit_balance q) 0])"
  using assms(2)
proof (cases rule: credit_payment_in_Inr)
  case (replay q i)
  then show ?thesis using assms(3) by (auto dest: row_of_SomeD)
next
  case (new q)
  from new(2) obtain sid where g: "require_open_shift_id_for (a_device a) s = Inr (sid, s)"
    and w: "pb_amount dto \<le> m_credit_balance q \<or> pb_allow_overpayment dto"
      "cp_amount (pe_payment r) = pb_amount dto" "cp_payment_method (pe_payment r) = Some (pb_method dto)"
      "cp_shift_id (pe_payment r) = Some sid" "credit_payments s' = credit_payments s @ [pe_payment r]"
      "mechanics s' = upd_where (\<lambda>q. m_id q = m) (tab_reduced (pb_amount dto)) (mechanics s)"
      "audit_log s' = audit_log s @ (if m_credit_balance q < pb_amount dto
         then [overpayment_audit a (pe_payment r) (m_credit_balance q) (pe_balance_after r)] else [])"
      "\<exists>q. row_of m_id m (mechanics s) = Some q \<and> pe_balance_after r = max 0 (m_credit_balance q - pb_amount dto)"
    by (rule pay_new_Inr)
  obtain sh where sh: "sh \<in> set (shifts s)" "sh_id sh = sid" "is_open (a_device a) sh"
    using required.gate_open [OF g] by auto
  note frame = credit_payment_in_frame [OF assms(2)]
  have cash: "expected_cash s' i = expected_cash s i + (if i = sid \<and> pb_method dto = Cash_Method then pb_amount dto else 0)"
    if "has_key sh_id i (shifts s)" for i
  proof -
    have "row_of sh_id i (shifts s) \<noteq> None" unfolding row_of_None using that by simp
    then obtain x where x: "row_of sh_id i (shifts s) = Some x" by blast
    then have x': "row_of sh_id i (shifts s') = Some x" by (simp add: frame(4))
    show ?thesis
      unfolding expected_cash_takings [OF x] expected_cash_takings [OF x'] takings_new_payment [OF w(5) frame(1-3)] w(2-4)
      by simp
  qed
  have bal: "pe_balance_after r = max 0 (m_credit_balance q - pb_amount dto)" using w(8) new(1) by simp
  have "m_credit_balance q < pb_amount dto \<longrightarrow> pb_allow_overpayment dto \<and>
      audit_log s' = audit_log s @ [overpayment_audit a (pe_payment r) (m_credit_balance q) 0]"
    using w(1,7) by (auto simp: bal)
  then show ?thesis
    using new(1) sh cash bal w(4-6) by (intro exI [of _ q] exI [of _ sh]) (simp only: simp_thms sh(2), blast)
qed

theorem tab_settled_witness:
  "\<exists>r s'. credit_payment_in sample_env ''m'' sample_payment sample_actor sample_shop = Inr (r, s') \<and>
     pe_balance_after r = 15000 \<and> expected_cash s' ''s'' = expected_cash sample_shop ''s'' + 5000"
proof -
  obtain r s' where run: "credit_payment_in sample_env ''m'' sample_payment sample_actor sample_shop = Inr (r, s')"
    using sample_payment_runs by blast
  have "credit_payments sample_shop = []" by (simp add: sample_shop_def)
  then obtain q sh where w: "row_of m_id ''m'' (mechanics sample_shop) = Some q" "sh \<in> set (shifts sample_shop)"
    "pe_balance_after r = max 0 (m_credit_balance q - pb_amount sample_payment)"
    "\<forall>i. has_key sh_id i (shifts sample_shop) \<longrightarrow> expected_cash s' i = expected_cash sample_shop i +
       (if i = sh_id sh \<and> pb_method sample_payment = Cash_Method then pb_amount sample_payment else 0)"
    using tab_settled [OF sample_shop_shifts_ok run] by auto
  have "m_credit_balance q = 20000" "sh_id sh = ''s''" "has_key sh_id ''s'' (shifts sample_shop)"
    using w(1,2) by (auto simp: sample_shop_def)
  then show ?thesis using run w(3,4) by (auto simp: sample_payment_def)
qed

text \<open>
  A retry of a payment sent under a client id is answered and never repeated: in any later state
  that still has the payment and the mechanic, whoever asks and whatever the drawer or the tab are by
  then, the answer is the payment on file with the tab as it now stands and nothing changes; under
  the same id another amount is refused as a reused id.
\<close>

theorem credit_payment_replay:
  assumes "credit_payment_in e m dto a s = Inr (r, s1)" "pb_id dto = Some i"
    and "row_of cp_id i (credit_payments s2) = Some (pe_payment r)" "row_of m_id m (mechanics s2) = Some q"
  shows "credit_payment_in e' m dto a' s2 = Inr (\<lparr>pe_payment = pe_payment r, pe_balance_after = m_credit_balance q\<rparr>, s2) \<and>
    (n \<noteq> pb_amount dto \<longrightarrow> credit_payment_in e' m (dto\<lparr>pb_amount := n\<rparr>) a' s2 = Inl credit_payment_id_reused)"
proof -
  have "cp_mechanic_id (pe_payment r) = m" "cp_amount (pe_payment r) = pb_amount dto"
    "cp_payment_method (pe_payment r) = Some (pb_method dto)"
    using assms(1) by (cases rule: credit_payment_in_Inr; auto elim: pay_new_Inr)+
  then show ?thesis
    using assms(2-4) by (simp add: credit_payment_in_def lock_balance_def existing_payment_def tx_bind_def)
qed

theorem credit_payment_replay_witness:
  "\<exists>r s1. credit_payment_in sample_env ''m'' sample_payment sample_actor sample_shop = Inr (r, s1) \<and>
     credit_payment_in sample_env ''m'' sample_payment sample_actor s1 = Inr (r, s1)"
proof -
  obtain r s1 where run: "credit_payment_in sample_env ''m'' sample_payment sample_actor sample_shop = Inr (r, s1)"
    using sample_payment_runs by blast
  have none: "pe_payment r \<notin> set (credit_payments sample_shop)" by (simp add: sample_shop_def)
  from run have "row_of cp_id ''c'' (credit_payments s1) = Some (pe_payment r) \<and>
      (\<exists>q. row_of m_id ''m'' (mechanics s1) = Some q \<and> m_credit_balance q = pe_balance_after r)"
  proof (cases rule: credit_payment_in_Inr)
    case (new q)
    then show ?thesis
      by - (rule pay_new_Inr, auto simp: sample_payment_def sample_shop_def tab_reduced_def split: if_splits)
  qed (use none in \<open>auto dest: row_of_SomeD\<close>)
  then obtain q where "row_of cp_id ''c'' (credit_payments s1) = Some (pe_payment r)"
    "row_of m_id ''m'' (mechanics s1) = Some q" "m_credit_balance q = pe_balance_after r" by blast
  with credit_payment_replay [OF run, of "''c''" s1 q sample_env sample_actor 0] run show ?thesis
    by (auto simp: sample_payment_def)
qed

end
