(* ===== verification/Sync_Dto.thy ===== *)
theory Sync_Dto
  imports People Credit_Payments
begin

text \<open>
  The body of \<open>POST /sync/push\<close> and of \<open>POST /sync/discards\<close> (\<open>sync/sync.dto.ts\<close>): the envelope, the one
  parser per kind of operation, which reuses the parser of the online route, and what the replay
  by client id reads of an operation before it is parsed.
\<close>

section \<open>The envelope\<close>

datatype sync_type =
    Sale_Create
  | Return_Create
  | Shift_Open
  | Drawer_Entry
  | Credit_Payment_Create
  | Customer_Create
  | Customer_Update
  | Sale_Void_Offline

fun sync_type_text :: "sync_type \<Rightarrow> string" where
  "sync_type_text Sale_Create = ''sale.create''"
| "sync_type_text Return_Create = ''return.create''"
| "sync_type_text Shift_Open = ''shift.open''"
| "sync_type_text Drawer_Entry = ''drawer.entry''"
| "sync_type_text Credit_Payment_Create = ''credit_payment.create''"
| "sync_type_text Customer_Create = ''customer.create''"
| "sync_type_text Customer_Update = ''customer.update''"
| "sync_type_text Sale_Void_Offline = ''sale.void_offline''"

definition SYNC_OP_TYPES :: "sync_type list" where
  "SYNC_OP_TYPES = [Sale_Create, Return_Create, Shift_Open, Drawer_Entry, Credit_Payment_Create, Customer_Create,
     Customer_Update, Sale_Void_Offline]"

definition sync_type_of :: "string \<Rightarrow> sync_type option" where
  "sync_type_of s = find (\<lambda>t. sync_type_text t = s) SYNC_OP_TYPES"

lemma sync_type_of_text [simp]: "sync_type_of (sync_type_text t) = Some t"
  by (cases t) (simp_all add: sync_type_of_def SYNC_OP_TYPES_def)

record sync_op =
  op_id :: uuid
  op_key :: string
  op_type :: sync_type
  op_payload :: jsval

record sync_push =
  pu_remaining :: int
  pu_ops :: "sync_op list"

definition MAX_SYNC_OPS :: nat where "MAX_SYNC_OPS = 50"

text \<open>
  \<open>typeof v === 'object' && v !== null\<close>, with the members it has. An array passes; none of the names
  read here is a member of one.
\<close>

definition members :: "jsval \<Rightarrow> (string \<times> jsval) list option" where
  "members v = (case v of JObj b \<Rightarrow> Some b | JArr _ \<Rightarrow> Some [] | _ \<Rightarrow> None)"

definition payload_of :: "sync_op \<Rightarrow> (string \<times> jsval) list" where
  "payload_of raw = (case members (op_payload raw) of None \<Rightarrow> [] | Some b \<Rightarrow> b)"

definition non_blank :: "jsval \<Rightarrow> string option" where
  "non_blank v = (case v of JStr s \<Rightarrow> if trim s = [] then None else Some (trim s) | _ \<Rightarrow> None)"

definition ops_field :: "nat \<Rightarrow> string \<Rightarrow> string" where
  "ops_field i f = ''ops['' @ show_nat i @ '']'' @ f"

definition parse_sync_op :: "jsval \<times> nat \<Rightarrow> err + sync_op" where
  "parse_sync_op = (\<lambda>(raw, i).
     case members raw of
       None \<Rightarrow> Inl (bad_request (ops_field i []))
     | Some b \<Rightarrow>
         e_bind (parse_uuid (get_prop b ''opId'') (ops_field i ''.opId'')) (\<lambda>oid.
         case non_blank (get_prop b ''idempotencyKey'') of
           None \<Rightarrow> Inl (bad_request (ops_field i ''.idempotencyKey''))
         | Some key \<Rightarrow>
             (case non_blank (get_prop b ''type'') of
                None \<Rightarrow> Inl (bad_request (ops_field i ''.type''))
              | Some ty \<Rightarrow>
                  (case sync_type_of ty of
                     None \<Rightarrow> Inl (bad_request ''type'')
                   | Some t \<Rightarrow>
                       if members (get_prop b ''payload'') = None then Inl (bad_request (ops_field i ''.payload''))
                       else Inr \<lparr>op_id = oid, op_key = key, op_type = t, op_payload = get_prop b ''payload''\<rparr>))))"

definition parse_sync_push :: "jsval \<Rightarrow> err + sync_push" where
  "parse_sync_push body =
     (case members body of
        None \<Rightarrow> Inl (bad_request ''body'')
      | Some b \<Rightarrow>
          (case js_integer (get_prop b ''outboxRemaining'') of
             None \<Rightarrow> Inl (bad_request ''outboxRemaining'')
           | Some n \<Rightarrow>
               if n < 0 then Inl (bad_request ''outboxRemaining'')
               else
                 (case get_prop b ''ops'' of
                    JArr xs \<Rightarrow>
                      if xs = [] \<or> MAX_SYNC_OPS < length xs then Inl (bad_request ''ops'')
                      else e_bind (e_mapM parse_sync_op (zip xs [0..<length xs])) (\<lambda>ops.
                        Inr \<lparr>pu_remaining = n, pu_ops = ops\<rparr>)
                  | _ \<Rightarrow> Inl (bad_request ''ops''))))"

record sync_discard =
  dd_op_id :: uuid
  dd_type :: string
  dd_client_id :: "string option"
  dd_payload :: "(string \<times> jsval) list option"
  dd_last_code :: "string option"
  dd_note :: string

definition parse_sync_discard :: "jsval \<Rightarrow> err + sync_discard" where
  "parse_sync_discard body =
     (case members body of
        None \<Rightarrow> Inl (bad_request ''body'')
      | Some b \<Rightarrow>
          e_bind (parse_uuid (get_prop b ''opId'') ''opId'') (\<lambda>oid.
          case non_blank (get_prop b ''type'') of
            None \<Rightarrow> Inl (bad_request ''type'')
          | Some ty \<Rightarrow>
              (case non_blank (get_prop b ''note'') of
                 None \<Rightarrow> Inl (bad_request ''note'')
               | Some why \<Rightarrow>
                   Inr \<lparr>dd_op_id = oid, dd_type = ty,
                     dd_client_id = (case get_prop b ''clientId'' of JStr i \<Rightarrow> if i = [] then None else Some i | _ \<Rightarrow> None),
                     dd_payload = members (get_prop b ''payload''),
                     dd_last_code = non_blank (get_prop b ''lastCode''), dd_note = why\<rparr>)))"

definition uuid_or_none :: "jsval \<Rightarrow> uuid option" where
  "uuid_or_none v = (case v of JStr s \<Rightarrow> if is_uuid v then Some s else None | _ \<Rightarrow> None)"

definition void_text :: string where "void_text = ''sale.void_offline''"

definition target_id_of :: "sync_discard \<Rightarrow> uuid option" where
  "target_id_of d =
     (let field = (\<lambda>k. case dd_payload d of None \<Rightarrow> JUndef | Some b \<Rightarrow> get_prop b k) in
      uuid_or_none (if dd_type d = void_text then field ''saleId''
        else case dd_client_id d of None \<Rightarrow> field ''id'' | Some i \<Rightarrow> JStr i))"

section \<open>One parser per operation\<close>

text \<open>
  What a push takes from outside the program: \<open>String\<close> of a value that is not a string,
  \<open>new Date\<close> of a text (milliseconds, or none when it is not a date), SHA-256,
  \<open>JSON.stringify\<close> and Postgres's normal form of a JSON value.
\<close>

record outside =
  x_to_str :: "jsval \<Rightarrow> string"
  x_date :: "string \<Rightarrow> int option"
  x_sha :: "string \<Rightarrow> string"
  x_stringify :: "jsval \<Rightarrow> string"
  x_jsonb :: "jsval \<Rightarrow> jsval"

datatype parsed_op =
    P_Sale create_sale "uuid option" "int option"
  | P_Return create_return "int option"
  | P_Shift shift_open_body "int option"
  | P_Drawer drawer_entry_body "int option"
  | P_Payment uuid credit_payment_body
  | P_Customer customer_create
  | P_Customer_Patch uuid customer_patch
  | P_Void uuid string

definition device_iso_date :: "outside \<Rightarrow> jsval \<Rightarrow> string \<Rightarrow> err + int option" where
  "device_iso_date x v field =
     (if is_nullish v then Inr None
      else case v of
             JStr t \<Rightarrow> (case x_date x t of None \<Rightarrow> Inl (bad_request field) | Some d \<Rightarrow> Inr (Some d))
           | _ \<Rightarrow> Inl (bad_request field))"

definition device_date_of :: "outside \<Rightarrow> (string \<times> jsval) list \<Rightarrow> err + int option" where
  "device_date_of x b =
     (let field = (if is_nullish (get_prop b ''date'') then ''createdAt'' else ''date'') in
      device_iso_date x (get_prop b field) field)"

definition void_reason :: "jsval \<Rightarrow> err + string" where
  "void_reason v = (case non_blank v of None \<Rightarrow> Inl (bad_request ''reason'') | Some t \<Rightarrow> Inr t)"

fun in_payload :: "err \<Rightarrow> err" where
  "in_payload (HttpErr n c (Field f)) =
     (if n = 400 \<and> c = ''INVALID_ID'' then HttpErr n c (Field (''payload.'' @ f)) else HttpErr n c (Field f))"
| "in_payload x = x"

definition parse_sale_op :: "outside \<Rightarrow> sync_op \<Rightarrow> err + parsed_op" where
  "parse_sale_op x raw =
     (let b = payload_of raw; p = op_payload raw in
      e_bind (device_date_of x b) (\<lambda>d.
      e_bind (parse_create_sale (JObj (b @ [(''paymentAccountId'', JUndef)]))) (\<lambda>sale.
      e_bind (replay_payment_account_id p) (\<lambda>acct.
      e_bind (parse_sale_quote_id p) (\<lambda>q.
      Inr (P_Sale (sale\<lparr>sp_payment_account_id := acct\<rparr>) q d))))))"

definition parse_op :: "outside \<Rightarrow> sync_op \<Rightarrow> err + parsed_op" where
  "parse_op x raw =
     (let b = payload_of raw; p = op_payload raw in
      case op_type raw of
        Sale_Create \<Rightarrow> parse_sale_op x raw
      | Return_Create \<Rightarrow>
          e_bind (device_date_of x b) (\<lambda>d. e_bind (parse_create_return (x_to_str x) p) (\<lambda>r. Inr (P_Return r d)))
      | Shift_Open \<Rightarrow>
          e_bind (device_iso_date x (get_prop b ''openedAt'') ''openedAt'') (\<lambda>d.
          e_bind (parse_shift_open p) (\<lambda>r. Inr (P_Shift r d)))
      | Drawer_Entry \<Rightarrow>
          e_bind (device_date_of x b) (\<lambda>d. e_bind (parse_drawer_entry (x_to_str x) p) (\<lambda>r. Inr (P_Drawer r d)))
      | Credit_Payment_Create \<Rightarrow>
          e_bind (parse_uuid (get_prop b ''mechanicId'') ''mechanicId'') (\<lambda>m.
          e_bind (parse_create_credit_payment (x_to_str x) p) (\<lambda>r.
          Inr (P_Payment m (r\<lparr>pb_allow_overpayment := False\<rparr>))))
      | Customer_Create \<Rightarrow>
          e_bind (parse_customer_create p) (\<lambda>r.
          e_bind (optional_uuid (get_prop b ''id'') ''id'') (\<lambda>i. Inr (P_Customer (r\<lparr>cc_id := i\<rparr>))))
      | Customer_Update \<Rightarrow>
          e_bind (parse_uuid (get_prop b ''id'') ''id'') (\<lambda>i.
          e_bind (parse_customer_patch p) (\<lambda>r. Inr (P_Customer_Patch i r)))
      | Sale_Void_Offline \<Rightarrow>
          e_bind (parse_uuid (get_prop b ''saleId'') ''saleId'') (\<lambda>i.
          e_bind (void_reason (get_prop b ''reason'')) (\<lambda>r. Inr (P_Void i r))))"

definition parse_op_payload :: "outside \<Rightarrow> sync_op \<Rightarrow> err + parsed_op" where
  "parse_op_payload x raw = (case parse_op x raw of Inl f \<Rightarrow> Inl (in_payload f) | Inr p \<Rightarrow> Inr p)"

fun client_id_of :: "parsed_op \<Rightarrow> uuid option" where
  "client_id_of (P_Sale s _ _) = Some (sp_id s)"
| "client_id_of (P_Return r _) = rt_id r"
| "client_id_of (P_Shift r _) = so_id r"
| "client_id_of (P_Drawer r _) = db_id r"
| "client_id_of (P_Payment _ r) = pb_id r"
| "client_id_of (P_Customer r) = cc_id r"
| "client_id_of (P_Customer_Patch i _) = Some i"
| "client_id_of (P_Void i _) = Some i"

fun doc_no_of :: "parsed_op \<Rightarrow> string option" where
  "doc_no_of (P_Sale s _ _) = sp_receipt_no s"
| "doc_no_of (P_Return r _) = rt_cn_no r"
| "doc_no_of _ = None"

section \<open>What a replay by client id reads\<close>

datatype replay_probe =
    R_Sale uuid "int option" jsval
  | R_Return uuid jsval jsval "(jsval \<times> jsval \<times> int option) list"
  | R_Shift uuid "int option"
  | R_Drawer uuid jsval "int option"
  | R_Payment uuid jsval "int option" jsval
  | R_Customer uuid
  | R_Void uuid "string option"

definition satang_or_null :: "jsval \<Rightarrow> int option" where
  "satang_or_null v = (case to_satang v ''amount'' of Inl _ \<Rightarrow> None | Inr n \<Rightarrow> Some n)"

definition probe_line :: "jsval \<Rightarrow> jsval \<times> jsval \<times> int option" where
  "probe_line raw = (let l = (case members raw of None \<Rightarrow> [] | Some b \<Rightarrow> b) in
     (get_prop l ''productId'', get_prop l ''qty'', satang_or_null (get_prop l ''price'')))"

definition replay_probe_of :: "sync_op \<Rightarrow> replay_probe option" where
  "replay_probe_of raw =
     (let b = payload_of raw in
      case uuid_or_none (get_prop b (if op_type raw = Sale_Void_Offline then ''saleId'' else ''id'')) of
        None \<Rightarrow> None
      | Some i \<Rightarrow>
          (case op_type raw of
             Sale_Create \<Rightarrow> Some (R_Sale i (satang_or_null (get_prop b ''total'')) (get_prop b ''receiptNo''))
           | Return_Create \<Rightarrow> Some (R_Return i (get_prop b ''saleId'') (get_prop b ''cnNo'')
               (map probe_line (case get_prop b ''items'' of JArr xs \<Rightarrow> xs | _ \<Rightarrow> [])))
           | Shift_Open \<Rightarrow> Some (R_Shift i (satang_or_null (get_prop b ''startingCash'')))
           | Drawer_Entry \<Rightarrow> Some (R_Drawer i (get_prop b ''type'') (satang_or_null (get_prop b ''amount'')))
           | Credit_Payment_Create \<Rightarrow> Some (R_Payment i (get_prop b ''mechanicId'') (satang_or_null (get_prop b ''amount''))
               (get_prop b ''paymentMethod''))
           | Customer_Create \<Rightarrow> Some (R_Customer i)
           | Sale_Void_Offline \<Rightarrow> Some (R_Void i (non_blank (get_prop b ''reason'')))
           | Customer_Update \<Rightarrow> None))"

fun probe_id :: "replay_probe \<Rightarrow> uuid" where
  "probe_id (R_Sale i _ _) = i"
| "probe_id (R_Return i _ _ _) = i"
| "probe_id (R_Shift i _) = i"
| "probe_id (R_Drawer i _ _) = i"
| "probe_id (R_Payment i _ _ _) = i"
| "probe_id (R_Customer i) = i"
| "probe_id (R_Void i _) = i"

section \<open>The probe agrees with the parser\<close>

lemma uuid_or_none_Some: "uuid_or_none v = Some i \<longleftrightarrow> v = JStr i \<and> is_uuid_text i"
  by (auto simp: uuid_or_none_def split: jsval.splits if_splits)

lemma payload_obj [simp]: "op_payload raw = JObj b \<Longrightarrow> payload_of raw = b"
  by (simp add: payload_of_def members_def)

lemma empty_no_uuid [simp]: "\<not> is_uuid_text []"
  by (simp add: is_uuid_text_def uuid_shape_def)

lemma optional_uuid_probe: "optional_uuid v f = Inr i \<Longrightarrow> uuid_or_none v = i"
  by (cases v) (auto simp: optional_uuid_def parse_uuid_def uuid_or_none_def is_nullish_def split: if_splits)

lemma parse_uuid_probe: "parse_uuid v f = Inr i \<Longrightarrow> uuid_or_none v = Some i"
  by (simp add: parse_uuid_Inr uuid_or_none_Some)

lemma required_uuid_probe: "required_uuid v f = Inr i \<Longrightarrow> uuid_or_none v = Some i"
  by (auto dest!: required_uuid_Inr simp: uuid_or_none_Some)

lemma get_prop_extra: "k \<noteq> k' \<Longrightarrow> get_prop (b @ [(k', v)]) k = get_prop b k"
  by (simp add: get_prop_def)

lemma as_object_payload: "as_object (op_payload raw) f = Inr b \<Longrightarrow> payload_of raw = b"
  by (auto simp: as_object_def payload_of_def members_def split: jsval.splits)

lemma parsed_sale_id:
  assumes "parse_sale_op x raw = Inr p"
  shows "\<exists>i. client_id_of p = Some i \<and> uuid_or_none (get_prop (payload_of raw) ''id'') = Some i"
  using assms
  by (auto simp: parse_sale_op_def Let_def parse_create_sale_def parse_sale_party_def as_object_def get_prop_extra
      sale_party.defs create_sale.defs dest!: required_uuid_probe)

text \<open>The id a parsed operation names is the id the replay looked for, for every kind that replays by id.\<close>

lemma probe_id_agrees:
  assumes "parse_op_payload x raw = Inr p" "op_type raw \<noteq> Customer_Update"
  shows "map_option probe_id (replay_probe_of raw) = client_id_of p"
proof -
  have p: "parse_op x raw = Inr p" using assms(1) by (simp add: parse_op_payload_def split: sum.splits)
  show ?thesis
  proof (cases "op_type raw")
    case Sale_Create
    then show ?thesis using p parsed_sale_id [of x raw p]
      by (auto simp: parse_op_def Let_def replay_probe_of_def)
  next
    case Return_Create
    then show ?thesis using p
      by (auto simp: parse_op_def Let_def replay_probe_of_def parse_create_return_def
          dest!: as_object_payload optional_uuid_probe split: option.splits)
  next
    case Shift_Open
    then show ?thesis using p
      by (auto simp: parse_op_def Let_def replay_probe_of_def parse_shift_open_def is_nullish_def uuid_or_none_def
          dest!: as_object_payload parse_uuid_Inr [THEN iffD1] split: option.splits if_splits)
  next
    case Drawer_Entry
    then show ?thesis using p
      by (auto simp: parse_op_def Let_def replay_probe_of_def parse_drawer_entry_def
          dest!: as_object_payload optional_uuid_probe split: option.splits if_splits)
  next
    case Credit_Payment_Create
    then show ?thesis using p
      by (auto simp: parse_op_def Let_def replay_probe_of_def parse_create_credit_payment_def optional_payment_id_def
          is_nullish_def uuid_or_none_def dest!: as_object_payload parse_uuid_Inr [THEN iffD1] split: option.splits if_splits)
  next
    case Customer_Create
    then show ?thesis using p
      by (auto simp: parse_op_def Let_def replay_probe_of_def dest!: optional_uuid_probe split: option.splits)
  next
    case Sale_Void_Offline
    then show ?thesis using p
      by (auto simp: parse_op_def Let_def replay_probe_of_def dest!: parse_uuid_probe split: option.splits)
  qed (use assms(2) in simp)
qed

end
