(* ===== verification/Idempotency.thy ===== *)
theory Idempotency
  imports Sales_Facts
begin

text \<open>
  The idempotency record (\<open>idempotency/idempotency.service.ts\<close>, \<open>idempotency/idempotency.runner.ts\<close>):
  a write claims its \<open>Idempotency-Key\<close>, runs and stores its answer in one transaction; a retry gets
  the stored answer, another request under the same key is refused. The Redis cache in front of the
  stored answers is a map beside the database that any read or write may fail to reach. The text
  digests (SHA-256 of the JSON or of the raw bytes) and the value Postgres's \<open>jsonb\<close> hands back
  for what was stored are parameters.
\<close>

section \<open>The request\<close>

definition IDEMPOTENCY_KEY_MAX_LENGTH :: nat where "IDEMPOTENCY_KEY_MAX_LENGTH = 200"
definition IDEMPOTENCY_TTL_SECONDS :: int where "IDEMPOTENCY_TTL_SECONDS = 24 * 60 * 60"

record idem_params =
  ip_key :: string
  ip_endpoint :: string
  ip_hash :: string
  ip_success :: nat

text \<open>A body is JSON, or the bytes of an image; the prefix keeps their digests apart.\<close>

datatype idem_body = Json jsval | Raw string

definition request_hash :: "(string \<Rightarrow> string) \<Rightarrow> (jsval \<Rightarrow> string) \<Rightarrow> idem_body \<Rightarrow> string" where
  "request_hash sha stringify b =
     (case b of Raw bytes \<Rightarrow> sha (''raw:'' @ bytes) | Json v \<Rightarrow> sha (stringify (or_else v JNull)))"

definition idempotency_key_invalid :: err where
  "idempotency_key_invalid = HttpErr 400 ''IDEMPOTENCY_KEY_INVALID'' NoDetail"

definition idempotency_params_of ::
  "(string \<Rightarrow> string) \<Rightarrow> (jsval \<Rightarrow> string) \<Rightarrow> string option \<Rightarrow> string \<Rightarrow> string \<Rightarrow> idem_body \<Rightarrow> nat \<Rightarrow> err + idem_params" where
  "idempotency_params_of sha stringify header http_method target body code =
     (let key = (case header of None \<Rightarrow> [] | Some h \<Rightarrow> trim h) in
      if key = [] \<or> IDEMPOTENCY_KEY_MAX_LENGTH < length key then Inl idempotency_key_invalid
      else Inr \<lparr>ip_key = key, ip_endpoint = http_method @ '' '' @ target,
             ip_hash = request_hash sha stringify body, ip_success = code\<rparr>)"

section \<open>The claim\<close>

record idem_stored =
  sr_endpoint :: string
  sr_hash :: string
  sr_code :: nat
  sr_body :: jsval

datatype claim_result = Claimed | Replay nat jsval | Reused

definition key_in_flight :: err where "key_in_flight = HttpErr 503 ''IDEMPOTENCY_KEY_IN_FLIGHT'' NoDetail"
definition key_reused :: err where "key_reused = HttpErr 409 ''IDEMPOTENCY_KEY_REUSED'' NoDetail"

text \<open>Same key, same endpoint, same body: replay. Anything else: 409.\<close>

definition decide :: "idem_stored \<Rightarrow> idem_params \<Rightarrow> claim_result" where
  "decide x p = (if sr_hash x \<noteq> ip_hash p \<or> sr_endpoint x \<noteq> ip_endpoint p then Reused
     else Replay (sr_code x) (sr_body x))"

text \<open>\<open>locked\<close>: the row lock of a request still running was not released within the timeout.\<close>

definition insert_claim :: "env \<Rightarrow> bool \<Rightarrow> idem_params \<Rightarrow> bool op" where
  "insert_claim e locked p =
     tx_bind (tx_guard (\<not> locked) key_in_flight) (\<lambda>_.
     tx_bind (tx_get (\<lambda>s. has_key ik_key (ip_key p) (idem_keys s))) (\<lambda>taken.
     if taken then tx_ret False
     else tx_bind (tx_modify (\<lambda>s. s\<lparr>idem_keys := idem_keys s @
            [\<lparr>ik_key = ip_key p, ik_endpoint = ip_endpoint p, ik_hash = ip_hash p, ik_status = Idem_In_Progress,
              ik_code = None, ik_body = JNull, ik_created_at = now e\<rparr>]\<rparr>)) (\<lambda>_. tx_ret True)))"

text \<open>\<open>GREATEST(0, $3::int - EXTRACT(EPOCH FROM now() - created_at))::int\<close>; the cast rounds.\<close>

definition ttl_seconds :: "env \<Rightarrow> idem_key \<Rightarrow> int" where
  "ttl_seconds e r = (2 * max 0 (IDEMPOTENCY_TTL_SECONDS * 1000 - (now e - ik_created_at r)) + 1000) div 2000"

text \<open>The answer, and what the cache is told (an entry and its life in seconds).\<close>

definition claim ::
  "env \<Rightarrow> bool \<Rightarrow> idem_stored option \<Rightarrow> idem_params \<Rightarrow> (claim_result \<times> (idem_stored \<times> int) option) op" where
  "claim e locked cached p =
     tx_bind (insert_claim e locked p) (\<lambda>mine.
     if mine then tx_ret (Claimed, None)
     else case cached of
       Some x \<Rightarrow> tx_ret (decide x p, None)
     | None \<Rightarrow>
         tx_bind (tx_get (\<lambda>s. row_of ik_key (ip_key p) (idem_keys s))) (\<lambda>row.
         case row of
           None \<Rightarrow> tx_ret (Reused, None)
         | Some r \<Rightarrow>
             (case ik_code r of
                None \<Rightarrow> tx_throw (Fault ''claim() and complete() must run in the same transaction'')
              | Some code \<Rightarrow>
                  if ik_status r \<noteq> Idem_Done
                  then tx_throw (Fault ''claim() and complete() must run in the same transaction'')
                  else
                    let x = \<lparr>sr_endpoint = ik_endpoint r, sr_hash = ik_hash r, sr_code = code, sr_body = ik_body r\<rparr>;
                        d = decide x p in
                    tx_ret (d, if d = Reused then None else Some (x, ttl_seconds e r)))))"

definition completed :: "nat \<Rightarrow> jsval \<Rightarrow> idem_key \<Rightarrow> idem_key" where
  "completed code body r = r\<lparr>ik_status := Idem_Done, ik_code := Some code, ik_body := body\<rparr>"

definition complete :: "(jsval \<Rightarrow> jsval) \<Rightarrow> string \<Rightarrow> nat \<Rightarrow> jsval \<Rightarrow> unit op" where
  "complete jsonb key code body =
     tx_bind (tx_get (\<lambda>s. length (filter (\<lambda>r. ik_key r = key) (idem_keys s)))) (\<lambda>affected.
     tx_bind (tx_modify (\<lambda>s. s\<lparr>idem_keys := upd_where (\<lambda>r. ik_key r = key)
        (completed code (jsonb (or_else body JNull))) (idem_keys s)\<rparr>)) (\<lambda>_.
     tx_guard (affected = 1) (Fault ''idempotency_keys row vanished before completion'')))"

text \<open>
  \<open>runIdempotentIn\<close>: the status set on the response (none when the route's own stands) and the
  body.
\<close>

definition run_idempotent ::
  "(jsval \<Rightarrow> jsval) \<Rightarrow> env \<Rightarrow> bool \<Rightarrow> idem_stored option \<Rightarrow> idem_params \<Rightarrow> jsval op \<Rightarrow> (nat option \<times> jsval) op" where
  "run_idempotent jsonb e locked cached p work =
     tx_bind (claim e locked cached p) (\<lambda>(c, _).
     case c of
       Reused \<Rightarrow> tx_throw key_reused
     | Replay code body \<Rightarrow> tx_bind (add_hook Record_Replay) (\<lambda>_. tx_ret (Some code, body))
     | Claimed \<Rightarrow>
         tx_bind work (\<lambda>body.
         tx_bind (complete jsonb (ip_key p) (ip_success p) body) (\<lambda>_.
         tx_ret (None, body))))"

section \<open>Serving requests\<close>

text \<open>
  One request as the server meets it: its work, its transaction (\<open>rq_env\<close>, and whether it ran into
  the commit ceiling), the lock of a request in flight, and whether Redis answered its read and its
  write within the timeout.
\<close>

record idem_request =
  rq_params :: idem_params
  rq_work :: "jsval op"
  rq_env :: env
  rq_locked :: bool
  rq_too_old :: bool
  rq_read_ok :: bool
  rq_write_ok :: bool

type_synonym idem_cache = "string \<Rightarrow> idem_stored option"

definition read_cache :: "bool \<Rightarrow> idem_cache \<Rightarrow> string \<Rightarrow> idem_stored option" where
  "read_cache reached c key = (if reached then c key else None)"

definition write_cache :: "bool \<Rightarrow> string \<Rightarrow> (idem_stored \<times> int) option \<Rightarrow> idem_cache \<Rightarrow> idem_cache" where
  "write_cache reached key w c =
     (case w of None \<Rightarrow> c | Some (x, ttl) \<Rightarrow> if ttl \<le> 0 \<or> \<not> reached then c else c(key \<mapsto> x))"

definition told :: "env \<Rightarrow> bool \<Rightarrow> idem_stored option \<Rightarrow> idem_params \<Rightarrow> db \<Rightarrow> (idem_stored \<times> int) option" where
  "told e locked cached p s = (case claim e locked cached p s of Inl _ \<Rightarrow> None | Inr ((_, w), _) \<Rightarrow> w)"

definition serve ::
  "(jsval \<Rightarrow> jsval) \<Rightarrow> idem_request \<Rightarrow> db \<times> idem_cache \<Rightarrow> (err + nat option \<times> jsval) \<times> db \<times> idem_cache" where
  "serve jsonb r = (\<lambda>(s, c).
     let p = rq_params r; cached = read_cache (rq_read_ok r) c (ip_key p);
         (answer, s', _) = run_tx (rq_too_old r) (run_idempotent jsonb (rq_env r) (rq_locked r) cached p (rq_work r)) s in
     (answer, s', write_cache (rq_write_ok r) (ip_key p) (told (rq_env r) (rq_locked r) cached p s) c))"

fun serve_all ::
  "(jsval \<Rightarrow> jsval) \<Rightarrow> idem_request list \<Rightarrow> db \<times> idem_cache \<Rightarrow> (err + nat option \<times> jsval) list \<times> db \<times> idem_cache" where
  "serve_all jsonb [] sc = ([], sc)"
| "serve_all jsonb (r # rs) sc =
     (let (a, sc') = serve jsonb r sc; (as, sc'') = serve_all jsonb rs sc' in (a # as, sc''))"

section \<open>What a request finds\<close>

definition new_claim :: "env \<Rightarrow> idem_params \<Rightarrow> idem_key" where
  "new_claim e p = \<lparr>ik_key = ip_key p, ik_endpoint = ip_endpoint p, ik_hash = ip_hash p, ik_status = Idem_In_Progress,
     ik_code = None, ik_body = JNull, ik_created_at = now e\<rparr>"

definition row_mirrored :: "idem_stored \<Rightarrow> idem_key \<Rightarrow> bool" where
  "row_mirrored x r \<longleftrightarrow> ik_status r = Idem_Done \<and> ik_code r = Some (sr_code x) \<and> ik_body r = sr_body x \<and>
     ik_endpoint r = sr_endpoint x \<and> ik_hash r = sr_hash x"

lemma stored_eta [simp]:
  "\<lparr>sr_endpoint = sr_endpoint x, sr_hash = sr_hash x, sr_code = sr_code x, sr_body = sr_body x\<rparr> = x"
  by (cases x) simp

lemma row_mirrored_unique: "row_mirrored x r \<Longrightarrow> row_mirrored y r \<Longrightarrow> x = y"
  by (simp add: row_mirrored_def)

text \<open>Every entry of the cache mirrors a completed row.\<close>

definition cache_mirrors :: "db \<Rightarrow> idem_cache \<Rightarrow> bool" where
  "cache_mirrors s c \<longleftrightarrow>
     (\<forall>k x. c k = Some x \<longrightarrow> (\<exists>r. row_of ik_key k (idem_keys s) = Some r \<and> row_mirrored x r))"

lemma insert_claim_run:
  "insert_claim e locked p s =
     (if locked then Inl key_in_flight
      else if has_key ik_key (ip_key p) (idem_keys s) then Inr (False, s)
      else Inr (True, s\<lparr>idem_keys := idem_keys s @ [new_claim e p]\<rparr>))"
  by (simp add: insert_claim_def new_claim_def)

lemma claim_fresh:
  assumes "row_of ik_key (ip_key p) (idem_keys s) = None"
  shows "claim e locked cached p s =
     (if locked then Inl key_in_flight else Inr ((Claimed, None), s\<lparr>idem_keys := idem_keys s @ [new_claim e p]\<rparr>))"
  using assms by (simp add: claim_def tx_bind_def insert_claim_run row_of_None)

lemma claim_taken:
  assumes "row_of ik_key (ip_key p) (idem_keys s) = Some r" "row_mirrored x r"
    and "cached = None \<or> cached = Some x"
  shows "claim e locked cached p s =
     (if locked then Inl key_in_flight
      else Inr ((decide x p, if cached = None \<and> decide x p \<noteq> Reused then Some (x, ttl_seconds e r) else None), s))"
proof -
  have "has_key ik_key (ip_key p) (idem_keys s)" using assms(1) by (rule row_of_Some_has_key)
  then show ?thesis
    using assms by (auto simp: claim_def tx_bind_def insert_claim_run row_mirrored_def Let_def)
qed

lemma claim_broken:
  assumes "row_of ik_key (ip_key p) (idem_keys s) = Some r" "\<not> (\<exists>x. row_mirrored x r)"
  shows "\<exists>x. claim e locked None p s = Inl x"
proof -
  have "has_key ik_key (ip_key p) (idem_keys s)" using assms(1) by (rule row_of_Some_has_key)
  moreover have "ik_code r = None \<or> ik_status r \<noteq> Idem_Done"
    using assms(2) by (auto simp: row_mirrored_def) (metis idem_stored.select_convs not_None_eq)
  ultimately show ?thesis
    using assms(1) by (auto simp: claim_def tx_bind_def insert_claim_run split: option.splits)
qed

text \<open>What a retry of a completed request is answered.\<close>

definition retry_answer :: "idem_stored \<Rightarrow> idem_request \<Rightarrow> err + nat option \<times> jsval" where
  "retry_answer x r =
     (if rq_locked r then Inl key_in_flight
      else if sr_hash x \<noteq> ip_hash (rq_params r) \<or> sr_endpoint x \<noteq> ip_endpoint (rq_params r) then Inl key_reused
      else if rq_too_old r then Inl (Fault ''CommitCeilingExceeded'')
      else Inr (Some (sr_code x), sr_body x))"

lemma run_taken:
  assumes "row_of ik_key (ip_key (rq_params r)) (idem_keys s) = Some row" "row_mirrored x row"
    and "cached = None \<or> cached = Some x"
  shows "run_tx (rq_too_old r) (run_idempotent jsonb (rq_env r) (rq_locked r) cached (rq_params r) (rq_work r)) s =
     (retry_answer x r, s, if \<exists>a. retry_answer x r = Inr a then [Record_Replay] else [])"
proof -
  have "row_of ik_key (ip_key (rq_params r)) (idem_keys (s\<lparr>hooks := []\<rparr>)) = Some row" using assms(1) by simp
  from claim_taken [OF this assms(2,3)] show ?thesis
    by (auto simp: run_tx_def run_idempotent_def tx_bind_def retry_answer_def decide_def add_hook_def)
qed

lemma serve_taken:
  assumes "row_of ik_key (ip_key (rq_params r)) (idem_keys s) = Some row" "row_mirrored x row" "cache_mirrors s c"
  shows "fst (serve jsonb r (s, c)) = retry_answer x r" "fst (snd (serve jsonb r (s, c))) = s"
proof -
  have "x = y" if "c (ip_key (rq_params r)) = Some y" for y
    using that assms row_mirrored_unique by (fastforce simp: cache_mirrors_def)
  hence "read_cache (rq_read_ok r) c (ip_key (rq_params r)) = None \<or>
      read_cache (rq_read_ok r) c (ip_key (rq_params r)) = Some x"
    by (cases "c (ip_key (rq_params r))") (auto simp: read_cache_def)
  from run_taken [OF assms(1,2) this] show "fst (serve jsonb r (s, c)) = retry_answer x r" "fst (snd (serve jsonb r (s, c))) = s"
    by (simp_all add: serve_def Let_def)
qed

interpretation idem_done: keyed_update ik_key "completed code body" for code body
  by unfold_locales (simp add: completed_def)

lemma serve_fresh_Inr:
  assumes "row_of ik_key (ip_key (rq_params r)) (idem_keys s) = None" "tx_fixes idem_keys (rq_work r)"
    and "serve jsonb r (s, c) = (Inr (st, body), s', c')"
  shows "st = None" "c' = c"
    "idem_keys s' = idem_keys s @ [completed (ip_success (rq_params r)) (jsonb (or_else body JNull))
       (new_claim (rq_env r) (rq_params r))]"
proof -
  let ?p = "rq_params r" and ?s = "s\<lparr>hooks := []\<rparr>"
  let ?k = "ip_key ?p" and ?cached = "read_cache (rq_read_ok r) c (ip_key (rq_params r))"
  have none: "row_of ik_key ?k (idem_keys ?s) = None" using assms(1) by simp
  have "told (rq_env r) (rq_locked r) ?cached ?p s = None"
    using claim_fresh [OF assms(1)] by (simp add: told_def)
  then show "c' = c" using assms(3) by (auto simp: serve_def Let_def write_cache_def split: prod.splits)
  from assms(3) have "\<exists>s2. run_idempotent jsonb (rq_env r) (rq_locked r) ?cached ?p (rq_work r) ?s = Inr ((st, body), s2) \<and>
      s' = s2\<lparr>hooks := hooks s\<rparr>"
    by (auto simp: serve_def Let_def run_tx_def split: prod.splits sum.splits if_splits)
  then obtain s2 where run: "run_idempotent jsonb (rq_env r) (rq_locked r) ?cached ?p (rq_work r) ?s = Inr ((st, body), s2)"
    and s': "s' = s2\<lparr>hooks := hooks s\<rparr>" by blast
  let ?s1 = "?s\<lparr>idem_keys := idem_keys ?s @ [new_claim (rq_env r) ?p]\<rparr>"
  from run claim_fresh [OF none, of "rq_env r" "rq_locked r" ?cached]
  obtain s3 where st: "st = None" and w: "rq_work r ?s1 = Inr (body, s3)"
    and cpl: "complete jsonb ?k (ip_success ?p) body s3 = Inr ((), s2)"
    unfolding run_idempotent_def by (subst (asm) tx_bind_def) (auto split: if_splits)
  show "st = None" by (rule st)
  have "idem_keys s3 = idem_keys s @ [new_claim (rq_env r) ?p]" using tx_fixesD [OF assms(2) w] by simp
  moreover have "upd_where (\<lambda>r. ik_key r = ?k) f (idem_keys s) = idem_keys s" for f
    using assms(1) by (intro upd_where_missing) (auto simp: row_of_None has_key_def list_ex_iff)
  moreover have "ik_key (new_claim (rq_env r) ?p) = ?k" by (simp add: new_claim_def)
  ultimately show "idem_keys s' = idem_keys s @ [completed (ip_success ?p) (jsonb (or_else body JNull)) (new_claim (rq_env r) ?p)]"
    using cpl s' by (auto simp: complete_def)
qed

lemma serve_fresh_Inl:
  assumes "row_of ik_key (ip_key (rq_params r)) (idem_keys s) = None" "serve jsonb r (s, c) = (Inl x, s', c')"
  shows "s' = s" "c' = c"
proof -
  have "told (rq_env r) (rq_locked r) (read_cache (rq_read_ok r) c (ip_key (rq_params r))) (rq_params r) s = None"
    using claim_fresh [OF assms(1)] by (simp add: told_def)
  then show "s' = s" "c' = c" using assms(2)
    by (auto simp: serve_def Let_def write_cache_def run_tx_def split: prod.splits sum.splits if_splits)
qed

text \<open>What one request leaves: the records of every key it found, and an honest cache.\<close>

lemma serve_broken:
  assumes "row_of ik_key (ip_key (rq_params r)) (idem_keys s) = Some row" "\<not> (\<exists>x. row_mirrored x row)"
    and "cache_mirrors s c"
  shows "\<exists>x. serve jsonb r (s, c) = (Inl x, s, c)"
proof -
  have nc: "read_cache (rq_read_ok r) c (ip_key (rq_params r)) = None"
    using assms by (cases "c (ip_key (rq_params r))") (fastforce simp: read_cache_def cache_mirrors_def)+
  have "row_of ik_key (ip_key (rq_params r)) (idem_keys (s\<lparr>hooks := []\<rparr>)) = Some row" using assms(1) by simp
  from claim_broken [OF this assms(2)] obtain x where
    "claim (rq_env r) (rq_locked r) None (rq_params r) (s\<lparr>hooks := []\<rparr>) = Inl x" by blast
  moreover from claim_broken [OF assms(1,2)] obtain y where "claim (rq_env r) (rq_locked r) None (rq_params r) s = Inl y"
    by blast
  ultimately show ?thesis
    using nc by (simp add: serve_def Let_def run_tx_def run_idempotent_def tx_bind_def told_def write_cache_def)
qed

lemma serve_found:
  assumes "row_of ik_key (ip_key (rq_params r)) (idem_keys s) = Some row" "cache_mirrors s c"
    and "serve jsonb r (s, c) = (a, s', c')"
  shows "s' = s" "cache_mirrors s c'"
proof -
  show "s' = s"
    using serve_taken(2) [OF assms(1) _ assms(2), of _ jsonb] serve_broken [OF assms(1) _ assms(2), of jsonb] assms(3)
    by (cases "\<exists>x. row_mirrored x row") auto
  show "cache_mirrors s c'"
  proof (cases "\<exists>x. row_mirrored x row")
    case True
    then obtain x where x: "row_mirrored x row" by blast
    have "x = y" if "c (ip_key (rq_params r)) = Some y" for y
      using that assms(1,2) x row_mirrored_unique by (fastforce simp: cache_mirrors_def)
    hence cached: "read_cache (rq_read_ok r) c (ip_key (rq_params r)) = None \<or>
        read_cache (rq_read_ok r) c (ip_key (rq_params r)) = Some x"
      by (cases "c (ip_key (rq_params r))") (auto simp: read_cache_def)
    have "c' = c \<or> c' = c(ip_key (rq_params r) \<mapsto> x)"
      using assms(3) claim_taken [OF assms(1) x cached, of "rq_env r" "rq_locked r"]
      by (auto simp: serve_def Let_def told_def write_cache_def split: prod.splits if_splits)
    then show ?thesis using assms(1,2) x by (auto simp: cache_mirrors_def split: if_splits)
  next
    case False
    then show ?thesis using serve_broken [OF assms(1) _ assms(2), of jsonb] assms(2,3) by auto
  qed
qed

lemma serve_keeps_rows:
  assumes "cache_mirrors s c" "tx_fixes idem_keys (rq_work r)" "serve jsonb r (s, c) = (a, s', c')"
  shows "cache_mirrors s' c'" "row_of ik_key k (idem_keys s) = Some row \<Longrightarrow> row_of ik_key k (idem_keys s') = Some row"
proof -
  have "cache_mirrors s' c' \<and> (row_of ik_key k (idem_keys s) = Some row \<longrightarrow> row_of ik_key k (idem_keys s') = Some row)"
  proof (cases "row_of ik_key (ip_key (rq_params r)) (idem_keys s)")
    case (Some old)
    then show ?thesis using serve_found [OF Some assms(1,3)] by simp
  next
    case None
    show ?thesis
    proof (cases a)
      case (Inl x)
      then show ?thesis using serve_fresh_Inl [OF None] assms(1,3) by blast
    next
      case (Inr z)
      obtain st body where z: "z = (st, body)" by (cases z)
      from serve_fresh_Inr [OF None assms(2), of jsonb c st body s' c'] assms(3) Inr z
      have s': "c' = c" "idem_keys s' = idem_keys s @ [completed (ip_success (rq_params r)) (jsonb (or_else body JNull))
          (new_claim (rq_env r) (rq_params r))]" by simp_all
      then show ?thesis using assms(1) by (fastforce simp: cache_mirrors_def row_of_append)
    qed
  qed
  then show "cache_mirrors s' c'" "row_of ik_key k (idem_keys s) = Some row \<Longrightarrow> row_of ik_key k (idem_keys s') = Some row"
    by auto
qed

text \<open>What a success leaves on file: the answer its retries will get.\<close>

definition on_file :: "(jsval \<Rightarrow> jsval) \<Rightarrow> idem_request \<Rightarrow> nat option \<Rightarrow> jsval \<Rightarrow> idem_stored" where
  "on_file jsonb r st body = \<lparr>sr_endpoint = ip_endpoint (rq_params r), sr_hash = ip_hash (rq_params r),
     sr_code = (case st of None \<Rightarrow> ip_success (rq_params r) | Some code \<Rightarrow> code),
     sr_body = (case st of None \<Rightarrow> jsonb (or_else body JNull) | Some _ \<Rightarrow> body)\<rparr>"

lemma serve_success:
  assumes "cache_mirrors s c" "tx_fixes idem_keys (rq_work r)" "serve jsonb r (s, c) = (Inr (st, body), s', c')"
  shows "\<exists>row. row_of ik_key (ip_key (rq_params r)) (idem_keys s') = Some row \<and> row_mirrored (on_file jsonb r st body) row"
proof (cases "row_of ik_key (ip_key (rq_params r)) (idem_keys s)")
  case None
  from serve_fresh_Inr [OF None assms(2,3)] None show ?thesis
    by (simp add: row_of_append new_claim_def completed_def row_mirrored_def on_file_def)
next
  case (Some row)
  then obtain x where x: "row_mirrored x row"
    using serve_broken [OF Some _ assms(1), of jsonb] assms(3) by auto
  from serve_taken(1) [OF Some x assms(1), of jsonb] assms(3) have "retry_answer x r = Inr (st, body)" by simp
  then have "on_file jsonb r st body = x" by (auto simp: retry_answer_def on_file_def split: if_splits)
  then show ?thesis using serve_found(1) [OF Some assms(1,3)] Some x by simp
qed

section \<open>Sequences of requests\<close>

lemma serve_all_Cons:
  "fst (serve_all jsonb (r # rs) sc) = fst (serve jsonb r sc) # fst (serve_all jsonb rs (snd (serve jsonb r sc)))"
  "snd (serve_all jsonb (r # rs) sc) = snd (serve_all jsonb rs (snd (serve jsonb r sc)))"
  by (simp_all add: Let_def split: prod.splits)

lemma serve_all_append:
  "snd (serve_all jsonb (rs @ qs) sc) = snd (serve_all jsonb qs (snd (serve_all jsonb rs sc)))"
  by (induction rs arbitrary: sc) (simp_all add: serve_all_Cons del: serve_all.simps(2))

lemma serve_all_nth:
  "i < length rs \<Longrightarrow> fst (serve_all jsonb rs sc) ! i = fst (serve jsonb (rs ! i) (snd (serve_all jsonb (take i rs) sc)))"
proof (induction rs arbitrary: i sc)
  case (Cons r rs)
  show ?case
    using Cons.IH [of "i - 1" "snd (serve jsonb r sc)"] Cons.prems
    by (cases i) (simp_all add: serve_all_Cons del: serve_all.simps(2))
qed simp

lemma serve_all_take_Suc:
  "i < length rs \<Longrightarrow> snd (serve_all jsonb (take (Suc i) rs) sc) = snd (serve jsonb (rs ! i) (snd (serve_all jsonb (take i rs) sc)))"
  by (simp add: take_Suc_conv_app_nth serve_all_append serve_all_Cons del: serve_all.simps(2))

lemma serve_all_keeps:
  assumes "\<forall>r \<in> set rs. tx_fixes idem_keys (rq_work r)" "cache_mirrors s c" "snd (serve_all jsonb rs (s, c)) = (s', c')"
  shows "cache_mirrors s' c' \<and> (\<forall>k row. row_of ik_key k (idem_keys s) = Some row \<longrightarrow> row_of ik_key k (idem_keys s') = Some row)"
  using assms
proof (induction rs arbitrary: s c)
  case (Cons r rs)
  obtain a s1 c1 where one: "serve jsonb r (s, c) = (a, s1, c1)" by (metis prod.exhaust)
  from serve_keeps_rows [OF Cons.prems(2) _ one] Cons.prems(1)
  have one': "cache_mirrors s1 c1" "\<And>k row. row_of ik_key k (idem_keys s) = Some row \<Longrightarrow> row_of ik_key k (idem_keys s1) = Some row"
    by auto
  have "snd (serve_all jsonb rs (s1, c1)) = (s', c')"
    using Cons.prems(3) one by (simp add: serve_all_Cons del: serve_all.simps(2))
  from Cons.IH [OF _ one'(1) this] Cons.prems(1) one'(2) show ?case by auto
qed simp

text \<open>The same request when Redis is out of reach.\<close>

definition without_redis :: "idem_request \<Rightarrow> idem_request" where
  "without_redis r = r\<lparr>rq_read_ok := False, rq_write_ok := False\<rparr>"

lemma retry_answer_without_redis [simp]: "retry_answer x (without_redis r) = retry_answer x r"
  by (simp add: retry_answer_def without_redis_def)

lemma serve_without_redis:
  assumes "cache_mirrors s c"
  shows "serve jsonb (without_redis r) (s, Map.empty) = (fst (serve jsonb r (s, c)), fst (snd (serve jsonb r (s, c))), Map.empty)"
proof (cases "read_cache (rq_read_ok r) c (ip_key (rq_params r))")
  case None
  then show ?thesis
    by (auto simp: serve_def without_redis_def Let_def write_cache_def read_cache_def split: prod.splits option.splits)
next
  case (Some x)
  then have "c (ip_key (rq_params r)) = Some x" by (auto simp: read_cache_def split: if_splits)
  with assms obtain row where row: "row_of ik_key (ip_key (rq_params r)) (idem_keys s) = Some row" "row_mirrored x row"
    by (auto simp: cache_mirrors_def)
  from run_taken [OF row, of None jsonb]
  have "fst (run_tx (rq_too_old r) (run_idempotent jsonb (rq_env r) (rq_locked r) None (rq_params r) (rq_work r)) s) = retry_answer x r"
    "fst (snd (run_tx (rq_too_old r) (run_idempotent jsonb (rq_env r) (rq_locked r) None (rq_params r) (rq_work r)) s)) = s"
    by simp_all
  then show ?thesis
    using serve_taken [OF row assms, of jsonb]
    by (auto simp: serve_def without_redis_def Let_def write_cache_def read_cache_def split: prod.splits option.splits)
qed

lemma serve_all_without_redis:
  assumes "\<forall>r \<in> set rs. tx_fixes idem_keys (rq_work r)" "cache_mirrors s c"
  shows "serve_all jsonb (map without_redis rs) (s, Map.empty) =
     (fst (serve_all jsonb rs (s, c)), fst (snd (serve_all jsonb rs (s, c))), Map.empty)"
  using assms
proof (induction rs arbitrary: s c)
  case (Cons r rs)
  obtain a s1 c1 where one: "serve jsonb r (s, c) = (a, s1, c1)" by (metis prod.exhaust)
  have "cache_mirrors s1 c1" using serve_keeps_rows(1) [OF Cons.prems(2) _ one] Cons.prems(1) by simp
  from Cons.IH [OF _ this] Cons.prems(1) serve_without_redis [OF Cons.prems(2), of jsonb r] one
  show ?case by (simp add: Let_def split: prod.splits)
qed simp

text \<open>The cast rounds up to half a second, so an entry can be given more than the row has left.\<close>

lemma ttl_outlives_row:
  "now e - ik_created_at r = 500 \<Longrightarrow> IDEMPOTENCY_TTL_SECONDS * 1000 - (now e - ik_created_at r) < 1000 * ttl_seconds e r"
  by (simp add: ttl_seconds_def IDEMPOTENCY_TTL_SECONDS_def)

text \<open>A bill posted twice under one key, then another body under the same key.\<close>

definition posted_bill :: "string \<Rightarrow> bool \<Rightarrow> idem_request" where
  "posted_bill hash redis = \<lparr>rq_params = \<lparr>ip_key = ''k'', ip_endpoint = ''POST /sales'', ip_hash = hash, ip_success = 201\<rparr>,
     rq_work = tx_bind (create_in sample_env sample_bill sample_actor) (\<lambda>r. tx_ret (JStr (cr_receipt_no r))),
     rq_env = sample_env, rq_locked = False, rq_too_old = False, rq_read_ok = redis, rq_write_ok = redis\<rparr>"

lemma posted_bill_fixes: "tx_fixes idem_keys (rq_work (posted_bill h b))"
  unfolding posted_bill_def by (simp, intro tx_fix tx_fixes_create_in) simp_all

lemma posted_bill_runs:
  "\<exists>r s'. create_in sample_env sample_bill sample_actor (sample_shop\<lparr>hooks := [], idem_keys := x\<rparr>) = Inr (r, s')"
  by (simp add: sale_defs sample_bill_def sample_actor_def sample_shop_def sample_totals Let_def
      is_open_def is_current_def MAX_DOC_NO_def points_for_exact INT4_MAX_def)

lemma posted_bill_answer:
  "\<exists>no. fst (serve jsonb (posted_bill h b) (sample_shop, Map.empty)) = Inr (None, JStr no)"
proof -
  have idem: "idem_keys sample_shop = []" by (simp add: sample_shop_def)
  let ?p = "rq_params (posted_bill h b)"
  let ?s1 = "sample_shop\<lparr>hooks := [], idem_keys := [new_claim sample_env ?p]\<rparr>"
  obtain r s' where run: "create_in sample_env sample_bill sample_actor ?s1 = Inr (r, s')" using posted_bill_runs by blast
  have "idem_keys s' = [new_claim sample_env ?p]"
    using tx_fixesD [OF tx_fixes_create_in [of idem_keys] run] by simp
  then have "complete jsonb ''k'' 201 (JStr (cr_receipt_no r)) s' = Inr ((), s'\<lparr>idem_keys :=
      [completed 201 (jsonb (JStr (cr_receipt_no r))) (new_claim sample_env ?p)]\<rparr>)"
    by (simp add: complete_def new_claim_def posted_bill_def or_else_def is_nullish_def)
  then show ?thesis
    using run idem claim_fresh [of ?p "sample_shop\<lparr>hooks := []\<rparr>" sample_env False]
    by (simp add: serve_def Let_def run_tx_def run_idempotent_def tx_bind_def posted_bill_def split: prod.splits)
qed

section \<open>Properties\<close>

text \<open>
  C8. One execution per key: once a request under a key has succeeded, every later request under it
  (whatever other requests come between, whether Redis answers or not) is a retry that changes
  nothing: with the same endpoint and body it gets the stored status and body, with another one it
  is refused as reused, and while the lock of a request in flight is held or the transaction is
  over the commit ceiling it fails without a trace.
\<close>

theorem one_execution_per_key:
  assumes "cache_mirrors s c" "\<forall>r \<in> set rs. tx_fixes idem_keys (rq_work r)"
    and "i < j" "j < length rs" "ip_key (rq_params (rs ! i)) = ip_key (rq_params (rs ! j))"
    and "fst (serve_all jsonb rs (s, c)) ! i = Inr (st, body)"
  shows "fst (serve_all jsonb rs (s, c)) ! j = retry_answer (on_file jsonb (rs ! i) st body) (rs ! j) \<and>
    fst (snd (serve_all jsonb (take (Suc j) rs) (s, c))) = fst (snd (serve_all jsonb (take j rs) (s, c)))"
proof -
  obtain s1 c1 where at_i: "snd (serve_all jsonb (take i rs) (s, c)) = (s1, c1)" by (metis prod.exhaust)
  obtain s2 c2 where after_i: "snd (serve_all jsonb (take (Suc i) rs) (s, c)) = (s2, c2)" by (metis prod.exhaust)
  obtain s3 c3 where at_j: "snd (serve_all jsonb (take j rs) (s, c)) = (s3, c3)" by (metis prod.exhaust)
  have fixes_of: "\<forall>r \<in> set (take n rs). tx_fixes idem_keys (rq_work r)" for n
    using assms(2) by (meson in_set_takeD)
  have m1: "cache_mirrors s1 c1" using serve_all_keeps [OF fixes_of assms(1) at_i] by simp
  have "serve jsonb (rs ! i) (s1, c1) = (Inr (st, body), s2, c2)"
    using serve_all_nth [of i rs jsonb "(s, c)"] serve_all_take_Suc [of i rs jsonb "(s, c)"] at_i after_i assms(3,4,6)
    by (simp add: prod_eq_iff)
  from serve_success [OF m1 _ this] serve_keeps_rows(1) [OF m1 _ this] assms(2-4)
  obtain row where row: "row_of ik_key (ip_key (rq_params (rs ! i))) (idem_keys s2) = Some row"
      "row_mirrored (on_file jsonb (rs ! i) st body) row" and m2: "cache_mirrors s2 c2" by auto
  have "take j rs = take (Suc i) rs @ drop (Suc i) (take j rs)"
    using assms(3) by (metis Suc_leI append_take_drop_id min.absorb1 take_take)
  then have "snd (serve_all jsonb (drop (Suc i) (take j rs)) (s2, c2)) = (s3, c3)"
    using serve_all_append [of jsonb "take (Suc i) rs" "drop (Suc i) (take j rs)" "(s, c)"] at_j after_i by simp
  from serve_all_keeps [OF _ m2 this] fixes_of [of j] row(1) assms(5)
  have row': "row_of ik_key (ip_key (rq_params (rs ! j))) (idem_keys s3) = Some row" and m3: "cache_mirrors s3 c3"
    by (auto dest: in_set_dropD)
  from serve_taken [OF row' row(2) m3, of jsonb]
  show "fst (serve_all jsonb rs (s, c)) ! j = retry_answer (on_file jsonb (rs ! i) st body) (rs ! j) \<and>
    fst (snd (serve_all jsonb (take (Suc j) rs) (s, c))) = fst (snd (serve_all jsonb (take j rs) (s, c)))"
    using serve_all_nth [OF assms(4), of jsonb "(s, c)"] serve_all_take_Suc [OF assms(4), of jsonb "(s, c)"] at_j by simp_all
qed

lemma one_execution_per_key_witness:
  "\<exists>no. fst (serve_all id [posted_bill ''h'' True, posted_bill ''h'' True] (sample_shop, Map.empty)) ! 1 = Inr (Some 201, JStr no)"
proof -
  let ?rs = "[posted_bill ''h'' True, posted_bill ''h'' True]"
  obtain no where no: "fst (serve id (posted_bill ''h'' True) (sample_shop, Map.empty)) = Inr (None, JStr no)"
    using posted_bill_answer by blast
  have "fst (serve_all id ?rs (sample_shop, Map.empty)) ! 0 = Inr (None, JStr no)"
    using no serve_all_nth [of 0 ?rs id "(sample_shop, Map.empty)"] by simp
  from one_execution_per_key [OF _ _ _ _ _ this, of 1]
  have "fst (serve_all id ?rs (sample_shop, Map.empty)) ! 1 = retry_answer (on_file id (posted_bill ''h'' True) None (JStr no)) (posted_bill ''h'' True)"
    by (simp add: cache_mirrors_def posted_bill_fixes del: serve_all.simps)
  then show ?thesis
    by (auto simp: retry_answer_def on_file_def posted_bill_def or_else_def is_nullish_def simp del: serve_all.simps)
qed

text \<open>
  C25. Redis is an accelerator, never an authority: starting from a cache that mirrors the records,
  any sequence of requests gets the same answers and leaves the same database whichever reads and
  writes of the cache succeed, as if there were no cache.
\<close>

theorem cache_changes_no_answer:
  assumes "\<forall>r \<in> set rs. tx_fixes idem_keys (rq_work r)" "cache_mirrors s c"
  shows "fst (serve_all jsonb rs (s, c)) = fst (serve_all jsonb (map without_redis rs) (s, Map.empty)) \<and>
    fst (snd (serve_all jsonb rs (s, c))) = fst (snd (serve_all jsonb (map without_redis rs) (s, Map.empty)))"
  by (simp only: serve_all_without_redis [OF assms] fst_conv snd_conv simp_thms)

lemma cache_changes_no_answer_witness:
  "fst (serve_all id [posted_bill ''h'' True, posted_bill ''g'' True] (sample_shop, Map.empty)) =
   fst (serve_all id (map without_redis [posted_bill ''h'' True, posted_bill ''g'' True]) (sample_shop, Map.empty))"
  using cache_changes_no_answer [of "[posted_bill ''h'' True, posted_bill ''g'' True]" sample_shop Map.empty id]
  by (simp add: cache_mirrors_def posted_bill_fixes del: serve_all.simps)

end
