(* ===== verification/Sync_Push.thy ===== *)
theory Sync_Push
  imports Sync_Dto Quotes_Facts Idempotency
begin

text \<open>
  Pushing a till's outbox (\<open>sync/sync.service.ts\<close>): each operation in a transaction of its own, the
  replay by key and the replay by client id, the clamp of the device's date, the operation itself through
  the service its online route uses, and the mapping of its failure. \<open>Sync_Facts\<close> has the theorems.
\<close>

section \<open>The route an operation stands for\<close>

definition route_id :: "jsval \<Rightarrow> string" where
  "route_id v = (case uuid_or_none v of None \<Rightarrow> ''-'' | Some i \<Rightarrow> i)"

definition ONLINE_PREFIX :: string where "ONLINE_PREFIX = ''/api/v1''"

definition endpoint_for_op :: "sync_op \<Rightarrow> string \<times> nat" where
  "endpoint_for_op raw =
     (let b = payload_of raw in
      case op_type raw of
        Sale_Create \<Rightarrow> (''POST '' @ ONLINE_PREFIX @ ''/sales'', 201)
      | Return_Create \<Rightarrow> (''POST '' @ ONLINE_PREFIX @ ''/returns'', 201)
      | Shift_Open \<Rightarrow> (''POST '' @ ONLINE_PREFIX @ ''/shifts/open'', 200)
      | Drawer_Entry \<Rightarrow> (''POST '' @ ONLINE_PREFIX @ ''/shifts/current/entries'', 201)
      | Credit_Payment_Create \<Rightarrow> (''POST '' @ ONLINE_PREFIX @ ''/mechanics/'' @ route_id (get_prop b ''mechanicId'') @ ''/credit-payments'', 201)
      | Customer_Create \<Rightarrow> (''POST '' @ ONLINE_PREFIX @ ''/customers'', 201)
      | Customer_Update \<Rightarrow> (''PATCH '' @ ONLINE_PREFIX @ ''/customers/'' @ route_id (get_prop b ''id''), 200)
      | Sale_Void_Offline \<Rightarrow> (''POST /sales/'' @ route_id (get_prop b ''saleId'') @ ''/void-offline'', 200))"

definition op_params :: "outside \<Rightarrow> sync_op \<Rightarrow> idem_params" where
  "op_params x raw = \<lparr>ip_key = op_key raw, ip_endpoint = fst (endpoint_for_op raw),
     ip_hash = request_hash (x_sha x) (x_stringify x) (Json (op_payload raw)), ip_success = snd (endpoint_for_op raw)\<rparr>"

fun replace_first :: "string \<Rightarrow> string \<Rightarrow> string \<Rightarrow> string" where
  "replace_first pat rep s =
     (if take (length pat) s = pat then rep @ drop (length pat) s
      else case s of [] \<Rightarrow> [] | c # cs \<Rightarrow> c # replace_first pat rep cs)"

declare replace_first.simps [simp del]

definition unprefixed :: "string \<Rightarrow> string" where
  "unprefixed e = replace_first ('' '' @ ONLINE_PREFIX @ ''/'') '' /'' e"

section \<open>Answers\<close>

definition js_stock :: "string \<Rightarrow> uuid \<times> int \<Rightarrow> jsval" where
  "js_stock name = (\<lambda>(i, n). JObj [(name, JStr i), (''stock'', js_int n)])"

fun movement_text :: "mv_kind \<Rightarrow> string" where
  "movement_text Mv_Sale = ''sale''"
| "movement_text Mv_Return = ''return''"
| "movement_text Mv_Void = ''void''"
| "movement_text Mv_Receive = ''receive''"
| "movement_text Mv_Adjust_In = ''adjustment-in''"
| "movement_text Mv_Adjust_Out = ''adjustment-out''"

definition movement_reply :: "movement \<Rightarrow> jsval" where
  "movement_reply v = JObj [(''id'', JStr (mv_id v)), (''productId'', JStr (mv_product_id v)), (''partNo'', JStr (mv_part_no v)),
     (''name'', JStr (mv_name v)), (''delta'', js_int (mv_delta v)), (''type'', JStr (movement_text (mv_type v))),
     (''note'', js_opt JStr (mv_note v)), (''stockAfter'', js_int (mv_stock_after v)), (''date'', js_date (mv_date v))]"

definition mechanic_reply :: "mechanic_after \<Rightarrow> jsval" where
  "mechanic_reply m = JObj [(''id'', JStr (ma_id m)), (''totalSales'', JStr (ma_total_sales m)),
     (''totalDiscount'', JStr (ma_total_discount m)), (''totalMarkup'', JStr (ma_total_markup m)),
     (''creditBalance'', JStr (ma_credit_balance m))]"

definition customer_reply :: "customer_after \<Rightarrow> jsval" where
  "customer_reply c = JObj [(''id'', JStr (ca_id c)), (''points'', js_int (ca_points c)), (''totalSpend'', JStr (ca_total_spend c))]"

definition sale_reply :: "create_sale_result \<Rightarrow> jsval" where
  "sale_reply r = JObj [(''id'', JStr (cr_id r)), (''receiptNo'', JStr (cr_receipt_no r)), (''total'', JStr (cr_total r)),
     (''pointsGranted'', js_int (cr_points_granted r)), (''date'', js_date (cr_date r)),
     (''shiftId'', js_opt JStr (cr_shift_id r)), (''paymentAccountId'', js_opt JStr (cr_payment_account_id r)),
     (''products'', JArr (map (js_stock ''id'') (cr_products r))),
     (''items'', JArr (map (\<lambda>l. JObj [(''lineNo'', js_int (lo_line_no l)), (''productId'', JStr (lo_product_id l)),
        (''costAtSale'', JStr (lo_cost_at_sale l))]) (cr_items r))),
     (''movements'', JArr (map movement_reply (cr_movements r))),
     (''mechanicCreditBalanceAfter'', js_opt JStr (cr_balance_after r)),
     (''mechanicAfter'', js_opt mechanic_reply (cr_mechanic_after r)),
     (''customerAfter'', js_opt customer_reply (cr_customer_after r))]"

definition shift_reply :: "shift \<Rightarrow> bool \<Rightarrow> (string \<times> jsval) list" where
  "shift_reply r archived = [(''id'', JStr (sh_id r)), js_text ''startingCash'' (sh_starting_cash r),
     (''openedAt'', js_date (sh_opened_at r)), (''autoArchived'', JBool archived)]"

definition return_reply :: "credit_note \<Rightarrow> (uuid \<times> int) list \<Rightarrow> jsval" where
  "return_reply r ps = JObj [(''id'', JStr (r_id r)), (''cnNo'', JStr (r_cn_no r)), (''saleId'', JStr (r_sale_id r)),
     js_text ''total'' (r_refund_total r), (''refundMethod'', JStr (text_of_method (r_refund_method r))),
     (''stockRestored'', JArr (map (js_stock ''id'') ps))]"

fun flow_text :: "flow \<Rightarrow> string" where
  "flow_text Flow_In = ''in''"
| "flow_text Flow_Out = ''out''"

definition entry_reply :: "drawer_entry \<Rightarrow> int \<Rightarrow> jsval" where
  "entry_reply d balance = JObj [(''id'', JStr (de_id d)), (''type'', JStr (flow_text (de_type d))),
     js_text ''amount'' (de_amount d), (''note'', JStr (de_note d)), js_text ''balanceAfter'' balance]"

definition method_value :: "pay_method option \<Rightarrow> jsval" where
  "method_value m = js_opt (\<lambda>k. JStr (text_of_method k)) m"

definition payment_reply :: "credit_payment \<Rightarrow> int \<Rightarrow> jsval" where
  "payment_reply p balance = JObj [(''id'', JStr (cp_id p)), (''mechanicId'', JStr (cp_mechanic_id p)),
     js_text ''amount'' (cp_amount p), (''paymentMethod'', method_value (cp_payment_method p)), js_text ''balanceAfter'' balance]"

definition new_customer_reply :: "customer \<Rightarrow> jsval" where
  "new_customer_reply c = JObj [(''id'', JStr (c_id c)), (''name'', JStr (c_name c)), (''phone'', js_opt JStr (c_phone c)),
     (''address'', js_opt JStr (c_address c)), js_text ''totalSpend'' (c_total_spend c), (''points'', js_int (c_points c))]"

definition void_reply :: "uuid \<Rightarrow> jsval \<Rightarrow> (uuid \<times> int) list \<Rightarrow> jsval" where
  "void_reply i reason ps = JObj [(''saleId'', JStr i), (''status'', JStr ''voided''), (''voidReason'', reason),
     (''stockRestored'', JArr (map (js_stock ''productId'') ps))]"

text \<open>\<open>SELECT \<dots> FROM products WHERE id = ANY(ids)\<close>\<close>

definition stock_rows :: "db \<Rightarrow> uuid list \<Rightarrow> (uuid \<times> int) list" where
  "stock_rows s ids = map (\<lambda>p. (p_id p, p_stock p)) (filter (\<lambda>p. p_id p \<in> set ids) (products s))"

definition sold_products :: "db \<Rightarrow> uuid \<Rightarrow> uuid list" where
  "sold_products s i = map si_product_id (filter (\<lambda>l. si_sale_id l = i) (sale_items s))"

section \<open>The replay by client id\<close>

definition well_formed_doc_no :: "jsval \<Rightarrow> string option" where
  "well_formed_doc_no v =
     (case v of JStr t \<Rightarrow> if has_shape doc_number_shape (trim t) then Some (trim t) else None | _ \<Rightarrow> None)"

definition flag_renumbered :: "env \<Rightarrow> sync_op \<Rightarrow> uuid \<Rightarrow> jsval \<Rightarrow> string \<Rightarrow> unit op" where
  "flag_renumbered e raw i offline server_no =
     (case well_formed_doc_no offline of
        None \<Rightarrow> tx_ret ()
      | Some n \<Rightarrow>
          if n = server_no then tx_ret ()
          else insert_review_once e ''receipt_renumbered'' i
            (JObj [(''opId'', JStr (op_id raw)), (''type'', JStr (sync_type_text (op_type raw))), (''id'', JStr i),
               (''offlineNo'', JStr n), (''serverNo'', JStr server_no)]))"

definition reused :: "sync_op \<Rightarrow> uuid \<Rightarrow> err" where
  "reused raw i = client_id_reused (sync_type_text (op_type raw)) i"

definition replay_sale :: "env \<Rightarrow> sync_op \<Rightarrow> uuid \<Rightarrow> int option \<Rightarrow> jsval \<Rightarrow> jsval option op" where
  "replay_sale e raw i tot receipt =
     (case tot of
        None \<Rightarrow> tx_bind (tx_get (\<lambda>s. has_key s_id i (sales s))) (\<lambda>known.
          if known then tx_throw (reused raw i) else tx_ret None)
      | Some n \<Rightarrow>
          tx_bind (existing_sale i n True None) (\<lambda>existing.
          case existing of
            None \<Rightarrow> tx_ret None
          | Some r \<Rightarrow> tx_bind (flag_renumbered e raw (cr_id r) receipt (cr_receipt_no r)) (\<lambda>_. tx_ret (Some (sale_reply r)))))"

definition same_return_line :: "return_item \<times> jsval \<times> jsval \<times> int option \<Rightarrow> bool" where
  "same_return_line = (\<lambda>(l, p, q, price). p = JStr (ri_product_id l) \<and> q = js_int (ri_qty l) \<and> price = Some (ri_price l))"

definition replay_return :: "env \<Rightarrow> sync_op \<Rightarrow> uuid \<Rightarrow> jsval \<Rightarrow> jsval \<Rightarrow> (jsval \<times> jsval \<times> int option) list \<Rightarrow> jsval option op" where
  "replay_return e raw i sale cn lines =
     tx_bind (tx_get id) (\<lambda>s.
     case row_of r_id i (returns s) of
       None \<Rightarrow> tx_ret None
     | Some r \<Rightarrow>
         let ls = sort_key ri_line_no (filter (\<lambda>l. ri_return_id l = i) (return_items s)) in
         tx_bind (tx_guard (sale = JStr (r_sale_id r)) (reused raw i)) (\<lambda>_.
         tx_bind (tx_guard (length ls = length lines \<and> list_all same_return_line (zip ls lines)) (reused raw i)) (\<lambda>_.
         tx_bind (flag_renumbered e raw i cn (r_cn_no r)) (\<lambda>_.
         tx_ret (Some (return_reply r (stock_rows s (map ri_product_id ls))))))))"

definition replay_shift :: "sync_op \<Rightarrow> uuid \<Rightarrow> int option \<Rightarrow> jsval option op" where
  "replay_shift raw i starting =
     tx_bind (tx_get (\<lambda>s. row_of sh_id i (shifts s))) (\<lambda>row.
     case row of
       None \<Rightarrow> tx_ret None
     | Some r \<Rightarrow> tx_bind (tx_guard (starting = Some (sh_starting_cash r)) (reused raw i)) (\<lambda>_.
         tx_ret (Some (JObj (shift_reply r (sh_auto_archived r))))))"

definition replay_entry :: "sync_op \<Rightarrow> uuid \<Rightarrow> jsval \<Rightarrow> int option \<Rightarrow> jsval option op" where
  "replay_entry raw i ty amount =
     tx_bind (tx_get id) (\<lambda>s.
     case row_of de_id i (drawer_entries s) of
       None \<Rightarrow> tx_ret None
     | Some d \<Rightarrow> tx_bind (tx_guard (ty = JStr (flow_text (de_type d)) \<and> amount = Some (de_amount d)) (reused raw i)) (\<lambda>_.
         tx_ret (Some (entry_reply d (expected_cash s (de_shift_id d))))))"

definition replay_payment :: "sync_op \<Rightarrow> uuid \<Rightarrow> jsval \<Rightarrow> int option \<Rightarrow> jsval \<Rightarrow> jsval option op" where
  "replay_payment raw i mech amount meth =
     tx_bind (tx_get id) (\<lambda>s.
     case row_of cp_id i (credit_payments s) of
       None \<Rightarrow> tx_ret None
     | Some p \<Rightarrow>
         tx_bind (tx_guard (mech = JStr (cp_mechanic_id p) \<and> amount = Some (cp_amount p) \<and> meth = method_value (cp_payment_method p))
            (reused raw i)) (\<lambda>_.
         tx_ret (Some (payment_reply p (case row_of m_id (cp_mechanic_id p) (mechanics s) of None \<Rightarrow> 0 | Some m \<Rightarrow> m_credit_balance m)))))"

definition replay_customer :: "uuid \<Rightarrow> jsval option op" where
  "replay_customer i =
     tx_get (\<lambda>s. case row_of c_id i (customers s) of
       None \<Rightarrow> None | Some c \<Rightarrow> if c_deleted c then None else Some (new_customer_reply c))"

definition replay_void :: "uuid \<Rightarrow> string option \<Rightarrow> jsval option op" where
  "replay_void i reason =
     tx_get (\<lambda>s. case row_of s_id i (sales s) of
       None \<Rightarrow> None
     | Some b \<Rightarrow>
         if s_voided b
         then Some (void_reply i (js_opt JStr (case s_void_reason b of None \<Rightarrow> reason | Some r \<Rightarrow> Some r)) (stock_rows s (sold_products s i)))
         else None)"

definition check_client_id_replay :: "env \<Rightarrow> sync_op \<Rightarrow> jsval option op" where
  "check_client_id_replay e raw =
     (case replay_probe_of raw of
        None \<Rightarrow> tx_ret None
      | Some (R_Sale i n no) \<Rightarrow> replay_sale e raw i n no
      | Some (R_Return i sale cn ls) \<Rightarrow> replay_return e raw i sale cn ls
      | Some (R_Shift i n) \<Rightarrow> replay_shift raw i n
      | Some (R_Drawer i ty n) \<Rightarrow> replay_entry raw i ty n
      | Some (R_Payment i m n meth) \<Rightarrow> replay_payment raw i m n meth
      | Some (R_Customer i) \<Rightarrow> replay_customer i
      | Some (R_Void i reason) \<Rightarrow> replay_void i reason)"

text \<open>\<open>response_body ->> field\<close>, where it can equal an id.\<close>

definition stored_id :: "jsval \<Rightarrow> string \<Rightarrow> string option" where
  "stored_id body field =
     (case body of JObj b \<Rightarrow> (case get_prop b field of JStr i \<Rightarrow> Some i | _ \<Rightarrow> None) | _ \<Rightarrow> None)"

definition replay_key_of_same_document :: "env \<Rightarrow> sync_op \<Rightarrow> jsval option op" where
  "replay_key_of_same_document e raw =
     (case replay_probe_of raw of
        None \<Rightarrow> tx_ret None
      | Some pr \<Rightarrow>
          tx_bind (tx_get (\<lambda>s. row_of ik_key (op_key raw) (idem_keys s))) (\<lambda>row.
          case row of
            None \<Rightarrow> tx_ret None
          | Some r \<Rightarrow>
              if unprefixed (ik_endpoint r) \<noteq> unprefixed (fst (endpoint_for_op raw)) \<or>
                 stored_id (ik_body r) (if op_type raw = Sale_Void_Offline then ''saleId'' else ''id'') \<noteq> Some (probe_id pr)
              then tx_ret None
              else check_client_id_replay e raw))"

section \<open>The device's date\<close>

definition DATE_TOLERANCE_MS :: int where "DATE_TOLERANCE_MS = 5 * 60 * 1000"

definition ref_of :: "sync_op \<Rightarrow> parsed_op \<Rightarrow> uuid" where
  "ref_of raw p = (case client_id_of p of None \<Rightarrow> op_id raw | Some i \<Rightarrow> if i = [] then op_id raw else i)"

definition insert_date_flag ::
  "env \<Rightarrow> sync_op \<Rightarrow> parsed_op \<Rightarrow> int option \<Rightarrow> int option \<Rightarrow> int option \<Rightarrow> (string \<times> jsval) list \<Rightarrow> unit op" where
  "insert_date_flag e raw p original clamped opened period =
     insert_review_item e ''date_flag'' (ref_of raw p)
       (JObj ([(''opId'', JStr (op_id raw)), (''type'', JStr (sync_type_text (op_type raw))),
          (''originalDate'', js_opt js_date original), (''clampedDate'', js_opt js_date clamped),
          (''openedAt'', js_opt js_date opened)] @ period))"

text \<open>The period printed in the number against the period of the stored date; empty when they agree.\<close>

definition period_mismatch :: "env \<Rightarrow> parsed_op \<Rightarrow> int \<Rightarrow> (string \<times> jsval) list op" where
  "period_mismatch e p t =
     tx_get (\<lambda>s. case well_formed_doc_no (js_opt JStr (doc_no_of p)) of
        None \<Rightarrow> []
      | Some no \<Rightarrow>
          (case tenant_tz s of
             None \<Rightarrow> []
           | Some zone \<Rightarrow>
               if period_at e zone t = take 7 (drop 5 no) then []
               else [(''docNo'', JStr no), (''docPeriod'', JStr (take 7 (drop 5 no))), (''datePeriod'', JStr (period_at e zone t))]))"

definition clamped_date :: "env \<Rightarrow> int option \<Rightarrow> int option \<Rightarrow> int option" where
  "clamped_date e opened d =
     (case d of
        None \<Rightarrow> None
      | Some t \<Rightarrow>
          if js_now e + DATE_TOLERANCE_MS < t then Some (js_now e)
          else case opened of
                 None \<Rightarrow> Some t
               | Some o1 \<Rightarrow> if t < o1 - DATE_TOLERANCE_MS then Some o1 else Some t)"

definition clamp_op_date :: "env \<Rightarrow> uuid \<Rightarrow> sync_op \<Rightarrow> parsed_op \<Rightarrow> int option \<Rightarrow> int option op" where
  "clamp_op_date e dev raw p d =
     tx_bind (tx_get (\<lambda>s. map_option sh_opened_at (newest (filter (is_open dev) (shifts s))))) (\<lambda>opened.
     let stored = clamped_date e opened d in
     tx_bind (period_mismatch e p (case stored of None \<Rightarrow> js_now e | Some t \<Rightarrow> t)) (\<lambda>period.
     tx_bind (if stored \<noteq> d \<or> period \<noteq> [] then insert_date_flag e raw p d stored opened period else tx_ret ()) (\<lambda>_.
     tx_ret stored)))"

section \<open>Applying an operation\<close>

definition push_shift :: "env \<Rightarrow> actor \<Rightarrow> sync_op \<Rightarrow> shift_open_body \<Rightarrow> int option \<Rightarrow> jsval op" where
  "push_shift e a raw body opened =
     tx_bind (tx_get (\<lambda>s. find (is_current (a_device a)) (shifts s))) (\<lambda>previous.
     tx_bind (case opened of
         None \<Rightarrow> tx_ret None
       | Some t \<Rightarrow>
           if js_now e + DATE_TOLERANCE_MS < t
           then tx_bind (insert_date_flag e raw (P_Shift body opened) opened (Some (js_now e)) None []) (\<lambda>_. tx_ret (Some (js_now e)))
           else tx_ret (Some t)) (\<lambda>opened_at.
     tx_bind (open_in e a (so_id body) (so_starting_cash body) opened_at) (\<lambda>(r, _).
     tx_ret (JObj (shift_reply r (previous \<noteq> None) @
       (case previous of None \<Rightarrow> [] | Some q \<Rightarrow> [(''archivedShiftId'', JStr (sh_id q))]))))))"

definition offline_sale :: "create_sale \<Rightarrow> int option \<Rightarrow> sale_write" where
  "offline_sale sale d = create_sale.extend sale (sale_write.fields True d)"

definition conflict_details :: "sync_op \<Rightarrow> create_sale_result \<Rightarrow> uuid \<Rightarrow> string \<Rightarrow> (string \<times> jsval) list \<Rightarrow> jsval" where
  "conflict_details raw r q reason extra = JObj ([(''opId'', JStr (op_id raw)), (''saleId'', JStr (cr_id r)),
     (''receiptNo'', JStr (cr_receipt_no r)), (''quoteId'', JStr q), (''reason'', JStr reason)] @ extra)"

definition settle_offline_quote :: "env \<Rightarrow> sync_op \<Rightarrow> uuid \<Rightarrow> create_sale_result \<Rightarrow> quote_lock \<Rightarrow> unit op" where
  "settle_offline_quote e raw q r found =
     (let conflict = (\<lambda>reason extra. insert_review_once e ''quote_conflict'' (cr_id r) (conflict_details raw r q reason extra)) in
      case found of
        Lock_Fresh \<Rightarrow> mark_converted e q (cr_id r)
      | Lock_Replay \<Rightarrow> tx_ret ()
      | Lock_Sale_Id_Taken \<Rightarrow> tx_ret ()
      | Lock_Converted b \<Rightarrow> conflict ''already_converted'' [(''convertedSaleId'', js_opt JStr b)]
      | Lock_Expired t \<Rightarrow> conflict ''expired'' [(''validUntil'', js_date t)]
      | Lock_Missing \<Rightarrow> conflict ''not_found'' [])"

definition push_sale :: "env \<Rightarrow> actor \<Rightarrow> sync_op \<Rightarrow> create_sale \<Rightarrow> uuid option \<Rightarrow> int option \<Rightarrow> jsval op" where
  "push_sale e a raw sale quote d =
     tx_bind (clamp_op_date e (a_device a) raw (P_Sale sale quote d) d) (\<lambda>stored.
     tx_bind (case quote of
         None \<Rightarrow> tx_ret None
       | Some q \<Rightarrow> tx_bind (lock_and_classify e q (sp_id sale) stored) (\<lambda>found. tx_ret (Some (q, found)))) (\<lambda>lock.
     tx_bind (create_in e (offline_sale sale stored) a) (\<lambda>r.
     tx_bind (case lock of None \<Rightarrow> tx_ret () | Some (q, found) \<Rightarrow> settle_offline_quote e raw q r found) (\<lambda>_.
     tx_ret (sale_reply r)))))"

definition push_return :: "env \<Rightarrow> actor \<Rightarrow> sync_op \<Rightarrow> create_return \<Rightarrow> int option \<Rightarrow> jsval op" where
  "push_return e a raw body d =
     tx_bind (clamp_op_date e (a_device a) raw (P_Return body d) d) (\<lambda>stored.
     tx_bind (return_in e (create_return.extend body (return_write.fields stored)) a) (\<lambda>r.
     tx_ret (return_reply (cn_note r) (cn_products r))))"

definition flag_overdrawn_offline :: "env \<Rightarrow> sync_op \<Rightarrow> drawer_entry \<Rightarrow> unit op" where
  "flag_overdrawn_offline e raw d =
     tx_bind (tx_get (\<lambda>s. expected_cash s (de_shift_id d))) (\<lambda>after.
     if 0 \<le> after then tx_ret ()
     else insert_review_once e ''drawer_overdrawn_offline'' (de_id d)
       (JObj [(''opId'', JStr (op_id raw)), (''entryId'', JStr (de_id d)), (''shiftId'', JStr (de_shift_id d)),
          js_text ''amount'' (de_amount d), js_text ''expectedCashBefore'' (after + de_amount d), js_text ''expectedCashAfter'' after]))"

definition push_entry :: "env \<Rightarrow> actor \<Rightarrow> sync_op \<Rightarrow> drawer_entry_body \<Rightarrow> int option \<Rightarrow> jsval op" where
  "push_entry e a raw body d =
     tx_bind (clamp_op_date e (a_device a) raw (P_Drawer body d) d) (\<lambda>stored.
     tx_bind (add_entry_in e a (db_id body) (db_type body) (db_amount body) (db_note body) stored True) (\<lambda>r.
     tx_bind (tx_get (\<lambda>s. expected_cash s (de_shift_id r))) (\<lambda>balance.
     tx_bind (if de_type r = Flow_Out then flag_overdrawn_offline e raw r else tx_ret ()) (\<lambda>_.
     tx_ret (entry_reply r balance)))))"

definition sale_missing :: err where "sale_missing = HttpErr 404 ''SALE_NOT_FOUND'' NoDetail"

definition void_needs_online :: "uuid \<Rightarrow> err" where
  "void_needs_online i = HttpErr 409 ''VOID_NEEDS_ONLINE'' (SaleRef (Some i))"

definition push_void :: "env \<Rightarrow> actor \<Rightarrow> uuid \<Rightarrow> string \<Rightarrow> jsval op" where
  "push_void e a i reason =
     tx_bind (tx_get (\<lambda>s. row_of s_id i (sales s))) (\<lambda>row.
     case row of
       None \<Rightarrow> tx_throw sale_missing
     | Some b \<Rightarrow>
         tx_bind (tx_guard (s_sold_offline b) (void_needs_online i)) (\<lambda>_.
         tx_bind (void_in e i a reason) (\<lambda>_.
         tx_bind (insert_review_item e ''void_offline'' i (JObj [(''saleId'', JStr i), (''reason'', JStr reason)])) (\<lambda>_.
         tx_bind (tx_get (\<lambda>s. stock_rows s (sold_products s i))) (\<lambda>ps.
         tx_ret (void_reply i (JStr reason) ps))))))"

fun execute_op :: "env \<Rightarrow> actor \<Rightarrow> sync_op \<Rightarrow> parsed_op \<Rightarrow> jsval op" where
  "execute_op e a raw (P_Shift body d) = push_shift e a raw body d"
| "execute_op e a raw (P_Sale sale q d) = push_sale e a raw sale q d"
| "execute_op e a raw (P_Return body d) = push_return e a raw body d"
| "execute_op e a raw (P_Drawer body d) = push_entry e a raw body d"
| "execute_op e a raw (P_Payment m body) =
     tx_bind (credit_payment_in e m body a) (\<lambda>r. tx_ret (payment_reply (pe_payment r) (pe_balance_after r)))"
| "execute_op e a raw (P_Customer body) = tx_bind (customer_create_in e body) (\<lambda>c. tx_ret (new_customer_reply c))"
| "execute_op e a raw (P_Customer_Patch i patch) =
     tx_bind (customer_update_in i patch) (\<lambda>c. tx_ret (JObj [(''id'', JStr (c_id c)), (''phone'', js_opt JStr (c_phone c))]))"
| "execute_op e a raw (P_Void i reason) = push_void e a i reason"

text \<open>The whole of one operation, inside its transaction; the second part is what Redis is told.\<close>

definition after_claim :: "outside \<Rightarrow> env \<Rightarrow> actor \<Rightarrow> sync_op \<Rightarrow> jsval op" where
  "after_claim x e a raw =
     tx_bind (check_client_id_replay e raw) (\<lambda>replay.
     case replay of
       Some body \<Rightarrow> tx_ret body
     | None \<Rightarrow> tx_bind (tx_lift (parse_op_payload x raw)) (\<lambda>p. execute_op e a raw p))"

definition single_op_in :: "outside \<Rightarrow> env \<Rightarrow> bool \<Rightarrow> idem_stored option \<Rightarrow> actor \<Rightarrow> sync_op \<Rightarrow> jsval op" where
  "single_op_in x e locked cached a raw =
     tx_bind (claim e locked cached (op_params x raw)) (\<lambda>(c, _).
     case c of
       Replay code body \<Rightarrow> tx_ret body
     | Reused \<Rightarrow>
         tx_bind (replay_key_of_same_document e raw) (\<lambda>own.
         case own of
           Some body \<Rightarrow> tx_ret body
         | None \<Rightarrow> tx_bind (tx_lift (parse_op_payload x raw)) (\<lambda>_. tx_throw key_reused))
     | Claimed \<Rightarrow>
         tx_bind (after_claim x e a raw) (\<lambda>body.
         tx_bind (complete (x_jsonb x) (op_key raw) (snd (endpoint_for_op raw)) body) (\<lambda>_. tx_ret body)))"

section \<open>What the till is told\<close>

text \<open>The details of a refusal, reshaped for the till where the code reshapes them.\<close>

datatype op_detail =
    Sent detail
  | No_Line
  | Short_Line "string option" int "int option"
  | Over_Paid "uuid option" int int
  | Price_Line string "int option" int
  | Clash sync_type "uuid option"
  | Named_Sale "uuid option"
  | Named_Doc string

datatype sync_result =
    Applied uuid jsval
  | Rejected uuid string op_detail
  | Retry uuid

fun short_line :: "detail \<Rightarrow> op_detail" where
  "short_line (StockLines ((i, stock, requested) # _)) = Short_Line (Some i) requested stock"
| "short_line (LooseLines (requested # _)) = Short_Line None requested None"
| "short_line _ = No_Line"

fun over_paid :: "parsed_op option \<Rightarrow> detail \<Rightarrow> op_detail" where
  "over_paid p (Overpay balance amount _) = Over_Paid (case p of Some (P_Payment m _) \<Rightarrow> Some m | _ \<Rightarrow> None) balance amount"
| "over_paid p d = Sent d"

fun price_line :: "detail \<Rightarrow> op_detail" where
  "price_line (PriceLines ((i, price, charged) # _)) = Price_Line i (case charged of [] \<Rightarrow> None | q # _ \<Rightarrow> Some q) price"
| "price_line d = Sent d"

definition refused :: "sync_op \<Rightarrow> parsed_op option \<Rightarrow> string \<Rightarrow> detail \<Rightarrow> sync_result" where
  "refused raw p code d =
     (let i = op_id raw in
      if code = ''INSUFFICIENT_STOCK'' then Rejected i code (short_line d)
      else if code = ''CREDIT_PAYMENT_EXCEEDS_BALANCE'' \<or> code = ''OVERPAYMENT'' then Rejected i ''OVERPAYMENT'' (over_paid p d)
      else if code = ''RETURN_PRICE_MISMATCH'' then Rejected i code (price_line d)
      else if code = ''SALE_ID_REUSED'' \<or> code = ''CLIENT_ID_REUSED'' then
        Rejected i ''CLIENT_ID_REUSED'' (Clash (op_type raw)
          (case p of Some q \<Rightarrow> client_id_of q | None \<Rightarrow> map_option probe_id (replay_probe_of raw)))
      else if code = ''VOID_NEEDS_ONLINE'' then
        Rejected i code (Named_Sale (case p of Some (P_Void b _) \<Rightarrow> Some b | _ \<Rightarrow> None))
      else if code = ''RECEIPT_NO_CONFLICT'' then
        Rejected i code (case (case p of None \<Rightarrow> None | Some q \<Rightarrow> doc_no_of q) of
          Some n \<Rightarrow> if n = [] then Sent d else Named_Doc n | None \<Rightarrow> Sent d)
      else Rejected i code (Sent d))"

text \<open>
  \<open>invalidUuidInput\<close> reads the driver's message; \<open>22P02\<close> with the name \<open>uuid\<close> stands for the one it looks
  for.
\<close>

fun invalid_uuid_input :: "err \<Rightarrow> err option" where
  "invalid_uuid_input (DbErr code what) =
     (if code = ''22P02'' \<and> what = ''uuid'' then Some (HttpErr 400 ''INVALID_ID'' NoDetail) else None)"
| "invalid_uuid_input _ = None"

definition map_op_error :: "sync_op \<Rightarrow> parsed_op option \<Rightarrow> err \<Rightarrow> sync_result" where
  "map_op_error raw p f =
     (case (case invalid_uuid_input f of None \<Rightarrow> f | Some g \<Rightarrow> g) of
        HttpErr status code d \<Rightarrow> if 500 \<le> status then Retry (op_id raw) else refused raw p code d
      | _ \<Rightarrow> Retry (op_id raw))"

definition try_parse :: "outside \<Rightarrow> sync_op \<Rightarrow> parsed_op option" where
  "try_parse x raw = (case parse_op_payload x raw of Inl _ \<Rightarrow> None | Inr p \<Rightarrow> Some p)"

text \<open>What one operation meets: its transaction's clocks and ids, a lock in its way, the commit ceiling, Redis.\<close>

record op_run =
  run_env :: env
  run_locked :: bool
  run_too_old :: bool
  run_read_ok :: bool
  run_write_ok :: bool

definition push_op :: "outside \<Rightarrow> actor \<Rightarrow> op_run \<Rightarrow> sync_op \<Rightarrow> db \<times> idem_cache \<Rightarrow> sync_result \<times> db \<times> idem_cache" where
  "push_op x a r raw = (\<lambda>(s, c).
     let cached = read_cache (run_read_ok r) c (op_key raw);
         (answer, s', _) = run_tx (run_too_old r) (single_op_in x (run_env r) (run_locked r) cached a raw) s in
     (case answer of Inr body \<Rightarrow> Applied (op_id raw) body | Inl f \<Rightarrow> map_op_error raw (try_parse x raw) f,
      s', write_cache (run_write_ok r) (op_key raw) (told (run_env r) (run_locked r) cached (op_params x raw) s) c))"

fun is_retry :: "sync_result \<Rightarrow> bool" where
  "is_retry (Retry _) = True"
| "is_retry _ = False"

fun push_ops :: "outside \<Rightarrow> actor \<Rightarrow> (op_run \<times> sync_op) list \<Rightarrow> db \<times> idem_cache \<Rightarrow> sync_result list \<times> db \<times> idem_cache" where
  "push_ops x a [] sc = ([], sc)"
| "push_ops x a ((r, raw) # rest) sc =
     (let (res, sc') = push_op x a r raw sc in
      if is_retry res then (res # map (\<lambda>(_, q). Retry (op_id q)) rest, sc')
      else (let (more_res, sc'') = push_ops x a rest sc' in (res # more_res, sc'')))"

definition update_unsynced_ops :: "env \<Rightarrow> uuid \<Rightarrow> int \<Rightarrow> unit op" where
  "update_unsynced_ops e dev n =
     tx_bind (int4 n) (\<lambda>_.
     tx_modify (\<lambda>s. s\<lparr>devices := upd_where (\<lambda>d. d_id d = dev)
       (\<lambda>d. d\<lparr>d_unsynced_ops := n, d_unsynced_reported_at := Some (now e)\<rparr>) (devices s)\<rparr>))"

text \<open>\<open>user\<close> and \<open>user_dev\<close> are the token's; \<open>dev\<close> is the device of the request.\<close>

definition process_push ::
  "outside \<Rightarrow> env \<Rightarrow> uuid \<Rightarrow> uuid \<Rightarrow> uuid \<Rightarrow> op_run list \<Rightarrow> sync_push \<Rightarrow> db \<times> idem_cache \<Rightarrow> sync_result list \<times> db \<times> idem_cache" where
  "process_push x e user user_dev dev runs dto sc =
     (let (rs, s, c) = push_ops x \<lparr>a_user = user, a_device = dev\<rparr> (zip runs (pu_ops dto)) sc;
          (_, s', _) = run_tx False (update_unsynced_ops e user_dev (pu_remaining dto)) s in
      (rs, s', c))"

section \<open>Discarding an operation\<close>

definition starts_with :: "string \<Rightarrow> string \<Rightarrow> bool" where
  "starts_with pre s \<longleftrightarrow> take (length pre) s = pre"

definition server_has_row :: "string \<Rightarrow> uuid \<Rightarrow> db \<Rightarrow> bool" where
  "server_has_row ty i s =
     (if ty = void_text then list_ex (\<lambda>b. s_id b = i \<and> s_voided b) (sales s)
      else if starts_with ''sale.'' ty then has_key s_id i (sales s)
      else if starts_with ''return.'' ty then has_key r_id i (returns s)
      else if starts_with ''shift.'' ty then has_key sh_id i (shifts s)
      else if starts_with ''drawer.'' ty then has_key de_id i (drawer_entries s)
      else if starts_with ''customer.'' ty then has_key c_id i (customers s)
      else if starts_with ''credit_payment.'' ty then has_key cp_id i (credit_payments s)
      else False)"

definition discard_audit :: "uuid \<Rightarrow> uuid option \<Rightarrow> sync_discard \<Rightarrow> bool \<Rightarrow> audit_row" where
  "discard_audit user dev d found =
     \<lparr>au_user = Some user, au_device = dev, au_action = ''sync.op.discarded'', au_entity = ''sync'', au_entity_id = dd_op_id d,
      au_before = None,
      au_after = Some (JObj [(''opId'', JStr (dd_op_id d)), (''type'', JStr (dd_type d)),
        (''clientId'', case target_id_of d of None \<Rightarrow> JUndef | Some i \<Rightarrow> JStr i),
        (''lastCode'', case dd_last_code d of None \<Rightarrow> JUndef | Some c \<Rightarrow> JStr c),
        (''note'', JStr (dd_note d)), (''serverHasRow'', JBool found)])\<rparr>"

definition discard_op_in :: "uuid \<Rightarrow> uuid option \<Rightarrow> sync_discard \<Rightarrow> bool op" where
  "discard_op_in user dev d =
     tx_bind (tx_get (\<lambda>s. case target_id_of d of None \<Rightarrow> False | Some i \<Rightarrow> server_has_row (dd_type d) i s)) (\<lambda>found.
     tx_bind (insert_audit (discard_audit user dev d found)) (\<lambda>_. tx_ret found))"

end
