(* ===== verification/Sync_Facts.thy ===== *)
theory Sync_Facts
  imports Sync_Push
begin

text \<open>
  Theorems about a push. An operation whose key the server does not know, or knows for the same
  request, is a request of \<open>Idempotency\<close> whose work is the replay by client id or the operation;
  the facts about keys and cache carry over.
\<close>

section \<open>Frames\<close>

lemma tx_fixes_check_replay:
  assumes "\<And>s x. f (s\<lparr>review_items := x\<rparr>) = f s" "\<And>s x. f (s\<lparr>minted := x\<rparr>) = f s"
  shows "tx_fixes f (check_client_id_replay e raw)"
proof -
  have flag: "tx_fixes f (flag_renumbered e raw i no srv)" for i no srv
    unfolding flag_renumbered_def by (intro tx_fix; simp add: assms)
  have "tx_fixes f (existing_sale i n off ls)" for i n off ls
    by (rule tx_fixesI) (auto dest!: existing_sale_Inr)
  then have sale: "tx_fixes f (replay_sale e raw i n no)" for i n no
    unfolding replay_sale_def by (intro tx_fix flag)
  have rest: "tx_fixes f (replay_return e raw i sl cn ls)" "tx_fixes f (replay_shift raw i n)" "tx_fixes f (replay_entry raw i ty n)"
    "tx_fixes f (replay_payment raw i m n meth)" "tx_fixes f (replay_customer i)" "tx_fixes f (replay_void i why)"
    for i sl cn ls n ty m meth why
    unfolding replay_return_def replay_shift_def replay_entry_def replay_payment_def replay_customer_def replay_void_def
    by (intro tx_fix flag)+
  show ?thesis
    unfolding check_client_id_replay_def
    by (auto intro!: tx_fix sale rest split: option.split replay_probe.split)
qed

lemma tx_fixes_replay_key:
  assumes "\<And>s x. f (s\<lparr>review_items := x\<rparr>) = f s" "\<And>s x. f (s\<lparr>minted := x\<rparr>) = f s"
  shows "tx_fixes f (replay_key_of_same_document e raw)"
  unfolding replay_key_of_same_document_def by (intro tx_fix tx_fixes_check_replay assms)

lemma tx_fixes_clamp [tx_fix]:
  assumes "\<And>s x. f (s\<lparr>review_items := x\<rparr>) = f s" "\<And>s x. f (s\<lparr>minted := x\<rparr>) = f s"
  shows "tx_fixes f (clamp_op_date e dev raw p d)"
  unfolding clamp_op_date_def period_mismatch_def insert_date_flag_def by (intro tx_fix; simp add: assms)

text \<open>What no operation writes: the records of the keys, the devices, the catalogue's other tables.\<close>

lemma tx_fixes_customer_ops:
  assumes "\<And>s x. f (s\<lparr>customers := x\<rparr>) = f s" "\<And>s x. f (s\<lparr>minted := x\<rparr>) = f s" "\<And>s x. f (s\<lparr>hooks := x\<rparr>) = f s"
  shows "tx_fixes f (customer_create_in e body)" "tx_fixes f (customer_update_in i patch)"
  unfolding customer_create_in_def customer_update_in_def next_code_def insert_customer_def customer_by_id_in_def
  by (intro tx_fix; simp add: assms)+

lemma tx_fixes_entry_ops:
  assumes "\<And>s x. f (s\<lparr>drawer_entries := x\<rparr>) = f s" "\<And>s x. f (s\<lparr>minted := x\<rparr>) = f s"
  shows "tx_fixes f (add_entry_in e a i ty n no t off)"
  unfolding add_entry_in_def add_new_entry_def insert_drawer_entry_def lock_active_def Let_def
  by (intro tx_fix; simp add: assms)

lemma execute_fixes_keys: "tx_fixes idem_keys (execute_op e a raw p)"
proof (cases p)
  case (P_Sale sale q d)
  show ?thesis unfolding P_Sale execute_op.simps push_sale_def settle_offline_quote_def lock_and_classify_def mark_converted_def Let_def
    by (auto intro!: tx_fix tx_fixes_create_in split: option.split quote_lock.split)
next
  case (P_Return body d)
  show ?thesis unfolding P_Return execute_op.simps push_return_def by (intro tx_fix; simp)
next
  case (P_Shift body d)
  show ?thesis unfolding P_Shift execute_op.simps push_shift_def insert_date_flag_def
    by (intro tx_fix tx_fixes_open_in; simp)
next
  case (P_Drawer body d)
  show ?thesis unfolding P_Drawer execute_op.simps push_entry_def flag_overdrawn_offline_def
    by (intro tx_fix tx_fixes_entry_ops; simp)
next
  case (P_Payment m body)
  show ?thesis unfolding P_Payment execute_op.simps by (intro tx_fix tx_fixes_credit_payment_in; simp)
next
  case (P_Customer body)
  show ?thesis unfolding P_Customer execute_op.simps by (intro tx_fix tx_fixes_customer_ops; simp)
next
  case (P_Customer_Patch i patch)
  show ?thesis unfolding P_Customer_Patch execute_op.simps by (intro tx_fix tx_fixes_customer_ops; simp)
next
  case (P_Void i reason)
  show ?thesis unfolding P_Void execute_op.simps push_void_def by (intro tx_fix; simp)
qed

lemma after_claim_fixes_keys: "tx_fixes idem_keys (after_claim x e a raw)"
  unfolding after_claim_def by (intro tx_fix tx_fixes_check_replay execute_fixes_keys; simp)

section \<open>An operation as a request\<close>

definition op_request :: "outside \<Rightarrow> actor \<Rightarrow> op_run \<Rightarrow> sync_op \<Rightarrow> idem_request" where
  "op_request x a r raw = \<lparr>rq_params = op_params x raw, rq_work = after_claim x (run_env r) a raw, rq_env = run_env r,
     rq_locked = run_locked r, rq_too_old = run_too_old r, rq_read_ok = run_read_ok r, rq_write_ok = run_write_ok r\<rparr>"

definition result_of :: "outside \<Rightarrow> sync_op \<Rightarrow> err + nat option \<times> jsval \<Rightarrow> sync_result" where
  "result_of x raw answer =
     (case answer of Inr (_, body) \<Rightarrow> Applied (op_id raw) body | Inl f \<Rightarrow> map_op_error raw (try_parse x raw) f)"

lemma op_request_simps [simp]:
  "rq_params (op_request x a r raw) = op_params x raw" "rq_work (op_request x a r raw) = after_claim x (run_env r) a raw"
  "rq_env (op_request x a r raw) = run_env r" "rq_locked (op_request x a r raw) = run_locked r"
  "rq_too_old (op_request x a r raw) = run_too_old r" "rq_read_ok (op_request x a r raw) = run_read_ok r"
  "rq_write_ok (op_request x a r raw) = run_write_ok r" "ip_key (op_params x raw) = op_key raw"
  "ip_success (op_params x raw) = snd (endpoint_for_op raw)"
  by (simp_all add: op_request_def op_params_def)

text \<open>The two transactions, which differ only where the key was reused and in a metric.\<close>

lemma single_op_request:
  assumes "\<And>w t. claim e locked cached (op_params x raw) s \<noteq> Inr ((Reused, w), t)"
  shows "(case single_op_in x e locked cached a raw s of Inl f \<Rightarrow> Inl f | Inr (b, t) \<Rightarrow> Inr (b, t\<lparr>hooks := []\<rparr>)) =
     (case run_idempotent (x_jsonb x) e locked cached (op_params x raw) (after_claim x e a raw) s of
        Inl f \<Rightarrow> Inl f | Inr ((_, b), t) \<Rightarrow> Inr (b, t\<lparr>hooks := []\<rparr>))"
  using assms
  by (auto simp: single_op_in_def run_idempotent_def tx_bind_def add_hook_def split: sum.splits claim_result.splits)

lemma push_op_serve:
  assumes "\<And>w t. claim (run_env r) (run_locked r) (read_cache (run_read_ok r) c (op_key raw)) (op_params x raw) (s\<lparr>hooks := []\<rparr>)
      \<noteq> Inr ((Reused, w), t)"
  shows "push_op x a r raw (s, c) =
     (case serve (x_jsonb x) (op_request x a r raw) (s, c) of (answer, rest) \<Rightarrow> (result_of x raw answer, rest))"
proof -
  let ?k = "read_cache (run_read_ok r) c (op_key raw)"
  have same: "(case single_op_in x (run_env r) (run_locked r) ?k a raw (s\<lparr>hooks := []\<rparr>) of Inl f \<Rightarrow> Inl f | Inr (b, t) \<Rightarrow> Inr (b, t\<lparr>hooks := []\<rparr>)) =
     (case run_idempotent (x_jsonb x) (run_env r) (run_locked r) ?k (op_params x raw) (after_claim x (run_env r) a raw) (s\<lparr>hooks := []\<rparr>) of
        Inl f \<Rightarrow> Inl f | Inr ((_, b), t) \<Rightarrow> Inr (b, t\<lparr>hooks := []\<rparr>))"
    by (rule single_op_request [OF assms])
  then show ?thesis
  proof (cases "single_op_in x (run_env r) (run_locked r) ?k a raw (s\<lparr>hooks := []\<rparr>)")
    case (Inl f)
    with same have "run_idempotent (x_jsonb x) (run_env r) (run_locked r) ?k (op_params x raw) (after_claim x (run_env r) a raw) (s\<lparr>hooks := []\<rparr>) = Inl f"
      by (simp split: sum.splits prod.splits)
    with Inl show ?thesis by (simp add: push_op_def serve_def Let_def run_tx_def result_of_def)
  next
    case (Inr w)
    obtain b t where w: "w = (b, t)" by (cases w)
    from same Inr w obtain st t' where
      "run_idempotent (x_jsonb x) (run_env r) (run_locked r) ?k (op_params x raw) (after_claim x (run_env r) a raw) (s\<lparr>hooks := []\<rparr>) = Inr ((st, b), t')"
      and t': "t\<lparr>hooks := []\<rparr> = t'\<lparr>hooks := []\<rparr>"
      by (auto split: sum.splits prod.splits)
    moreover have "t\<lparr>hooks := hooks s\<rparr> = t'\<lparr>hooks := hooks s\<rparr>"
      using arg_cong [OF t', of "\<lambda>t. t\<lparr>hooks := hooks s\<rparr>"] by simp
    ultimately show ?thesis using Inr w by (simp add: push_op_def serve_def Let_def run_tx_def result_of_def)
  qed
qed

lemma request_not_reused:
  assumes "row_of ik_key (op_key raw) (idem_keys s) = None \<or>
      (\<exists>row y. row_of ik_key (op_key raw) (idem_keys s) = Some row \<and> row_mirrored y row \<and>
         decide y (op_params x raw) \<noteq> Reused \<and> (cached = None \<or> cached = Some y))"
  shows "claim e locked cached (op_params x raw) (s\<lparr>hooks := []\<rparr>) \<noteq> Inr ((Reused, w), t)"
  using assms
proof
  assume "row_of ik_key (op_key raw) (idem_keys s) = None"
  then show ?thesis by (simp add: claim_fresh)
next
  assume "\<exists>row y. row_of ik_key (op_key raw) (idem_keys s) = Some row \<and> row_mirrored y row \<and>
         decide y (op_params x raw) \<noteq> Reused \<and> (cached = None \<or> cached = Some y)"
  then obtain row y where y: "row_of ik_key (ip_key (op_params x raw)) (idem_keys (s\<lparr>hooks := []\<rparr>)) = Some row" "row_mirrored y row"
    "decide y (op_params x raw) \<noteq> Reused" "cached = None \<or> cached = Some y" by auto
  from claim_taken [OF y(1,2,4), of e locked] y(3) show ?thesis by (auto split: if_splits)
qed

lemma cached_is_mirrored:
  assumes "cache_mirrors s c" "row_of ik_key k (idem_keys s) = Some row" "row_mirrored y row"
  shows "read_cache reached c k = None \<or> read_cache reached c k = Some y"
proof -
  have "z = y" if "c k = Some z" for z
    using that assms row_mirrored_unique by (fastforce simp: cache_mirrors_def)
  then show ?thesis by (cases "c k") (auto simp: read_cache_def)
qed

lemma push_unknown:
  assumes "row_of ik_key (op_key raw) (idem_keys s) = None"
  shows "push_op x a r raw (s, c) =
     (case serve (x_jsonb x) (op_request x a r raw) (s, c) of (answer, rest) \<Rightarrow> (result_of x raw answer, rest))"
  by (rule push_op_serve [OF request_not_reused]) (simp add: assms)

lemma push_known:
  assumes "cache_mirrors s c" "row_of ik_key (op_key raw) (idem_keys s) = Some row" "row_mirrored y row"
    and "decide y (op_params x raw) \<noteq> Reused"
  shows "push_op x a r raw (s, c) =
     (case serve (x_jsonb x) (op_request x a r raw) (s, c) of (answer, rest) \<Rightarrow> (result_of x raw answer, rest))"
  by (rule push_op_serve [OF request_not_reused]) (use assms(2-4) cached_is_mirrored [OF assms(1-3)] in blast)

text \<open>A key recorded for another request, and a row left broken.\<close>

lemma push_reused:
  assumes "cache_mirrors s c" "row_of ik_key (op_key raw) (idem_keys s) = Some row" "row_mirrored y row"
    and "decide y (op_params x raw) = Reused" "push_op x a r raw (s, c) = (res, s', c')"
  shows "c' = c" "idem_keys s' = idem_keys s"
proof -
  let ?k = "read_cache (run_read_ok r) c (op_key raw)" and ?s = "s\<lparr>hooks := []\<rparr>"
  have cached: "?k = None \<or> ?k = Some y" by (rule cached_is_mirrored [OF assms(1-3)])
  from assms(2) have row: "row_of ik_key (ip_key (op_params x raw)) (idem_keys s) = Some row"
    "row_of ik_key (ip_key (op_params x raw)) (idem_keys ?s) = Some row" by simp_all
  note tk = claim_taken [OF row(1) assms(3) cached, of "run_env r" "run_locked r"]
    claim_taken [OF row(2) assms(3) cached, of "run_env r" "run_locked r"]
  have "told (run_env r) (run_locked r) ?k (op_params x raw) s = None"
    using tk(1) assms(4) by (simp add: told_def)
  then show "c' = c" using assms(5) by (auto simp: push_op_def Let_def write_cache_def split: prod.splits)
  have "idem_keys t = idem_keys s" if "single_op_in x (run_env r) (run_locked r) ?k a raw ?s = Inr (b, t)" for b t
  proof (cases "run_locked r")
    case True
    then show ?thesis using that tk(2) by (simp add: single_op_in_def tx_bind_def)
  next
    case False
    then have run: "tx_bind (replay_key_of_same_document (run_env r) raw) (\<lambda>own.
         case own of Some body \<Rightarrow> tx_ret body
         | None \<Rightarrow> tx_bind (tx_lift (parse_op_payload x raw)) (\<lambda>_. tx_throw key_reused)) ?s = Inr (b, t)"
      using that tk(2) assms(4) by (simp add: single_op_in_def tx_bind_def [of "claim _ _ _ _"])
    have "tx_fixes idem_keys (tx_bind (replay_key_of_same_document (run_env r) raw) (\<lambda>own.
         case own of Some body \<Rightarrow> tx_ret body
         | None \<Rightarrow> tx_bind (tx_lift (parse_op_payload x raw)) (\<lambda>_. tx_throw key_reused)))"
      by (intro tx_fix tx_fixes_replay_key; simp)
    from tx_fixesD [OF this run] show ?thesis by simp
  qed
  then show "idem_keys s' = idem_keys s" using assms(5)
    by (auto simp: push_op_def Let_def run_tx_def split: prod.splits sum.splits if_splits)
qed

lemma push_broken:
  assumes "cache_mirrors s c" "row_of ik_key (op_key raw) (idem_keys s) = Some row" "\<not> (\<exists>y. row_mirrored y row)"
  shows "\<exists>f. push_op x a r raw (s, c) = (map_op_error raw (try_parse x raw) f, s, c)"
proof -
  have nc: "read_cache (run_read_ok r) c (op_key raw) = None"
    using assms by (cases "c (op_key raw)") (fastforce simp: read_cache_def cache_mirrors_def)+
  have row: "row_of ik_key (ip_key (op_params x raw)) (idem_keys s) = Some row"
    "row_of ik_key (ip_key (op_params x raw)) (idem_keys (s\<lparr>hooks := []\<rparr>)) = Some row" using assms(2) by simp_all
  from claim_broken [OF row(1) assms(3), of "run_env r" "run_locked r"] claim_broken [OF row(2) assms(3), of "run_env r" "run_locked r"]
  show ?thesis using nc
    by (auto simp: push_op_def Let_def run_tx_def single_op_in_def tx_bind_def told_def write_cache_def)
qed

lemma push_keeps:
  assumes "cache_mirrors s c" "push_op x a r raw (s, c) = (res, s', c')"
  shows "cache_mirrors s' c' \<and> (\<forall>k row. row_of ik_key k (idem_keys s) = Some row \<longrightarrow> row_of ik_key k (idem_keys s') = Some row)"
proof -
  have served: ?thesis if "push_op x a r raw (s, c) =
     (case serve (x_jsonb x) (op_request x a r raw) (s, c) of (answer, rest) \<Rightarrow> (result_of x raw answer, rest))"
    using that assms(2) serve_keeps_rows [OF assms(1), of "op_request x a r raw" "x_jsonb x"] after_claim_fixes_keys
    by (auto split: prod.splits)
  show ?thesis
  proof (cases "row_of ik_key (op_key raw) (idem_keys s)")
    case None
    then show ?thesis by (rule served [OF push_unknown])
  next
    case (Some row)
    show ?thesis
    proof (cases "\<exists>y. row_mirrored y row")
      case False
      then show ?thesis using push_broken [OF assms(1) Some, of x a r] assms by auto
    next
      case True
      then obtain y where y: "row_mirrored y row" by blast
      show ?thesis
      proof (cases "decide y (op_params x raw) = Reused")
        case True
        from push_reused [OF assms(1) Some y True assms(2)] assms(1) show ?thesis by (simp add: cache_mirrors_def)
      next
        case False
        then show ?thesis by (rule served [OF push_known [OF assms(1) Some y]])
      qed
    qed
  qed
qed

text \<open>The first push under a key, when the work succeeds.\<close>

lemma push_unknown_applied:
  assumes "row_of ik_key (op_key raw) (idem_keys s) = None" "\<not> run_locked r" "\<not> run_too_old r"
    and "after_claim x (run_env r) a raw
           (s\<lparr>hooks := [], idem_keys := idem_keys s @ [new_claim (run_env r) (op_params x raw)]\<rparr>) = Inr (b, t)"
  shows "push_op x a r raw (s, c) = (Applied (op_id raw) b, t\<lparr>hooks := hooks s, idem_keys := idem_keys s @
     [completed (snd (endpoint_for_op raw)) (x_jsonb x (or_else b JNull)) (new_claim (run_env r) (op_params x raw))]\<rparr>, c)"
proof -
  let ?p = "op_params x raw" and ?k = "read_cache (run_read_ok r) c (op_key raw)"
  have none: "row_of ik_key (ip_key ?p) (idem_keys (s\<lparr>hooks := []\<rparr>)) = None" "row_of ik_key (ip_key ?p) (idem_keys s) = None"
    using assms(1) by simp_all
  have keys: "idem_keys t = idem_keys s @ [new_claim (run_env r) ?p]"
    using tx_fixesD [OF after_claim_fixes_keys assms(4)] by simp
  have missing: "upd_where (\<lambda>q. ik_key q = op_key raw) f (idem_keys s) = idem_keys s" "filter (\<lambda>q. ik_key q = op_key raw) (idem_keys s) = []" for f
    using assms(1) by (force intro!: upd_where_missing simp: row_of_None has_key_def list_ex_iff filter_empty_conv)+
  have new: "ik_key (new_claim (run_env r) ?p) = op_key raw" by (simp add: new_claim_def)
  have "complete (x_jsonb x) (op_key raw) (snd (endpoint_for_op raw)) b t = Inr ((), t\<lparr>idem_keys := idem_keys s @
     [completed (snd (endpoint_for_op raw)) (x_jsonb x (or_else b JNull)) (new_claim (run_env r) ?p)]\<rparr>)"
    using keys missing new by (simp add: complete_def)
  then have "single_op_in x (run_env r) (run_locked r) ?k a raw (s\<lparr>hooks := []\<rparr>) = Inr (b, t\<lparr>idem_keys := idem_keys s @
     [completed (snd (endpoint_for_op raw)) (x_jsonb x (or_else b JNull)) (new_claim (run_env r) ?p)]\<rparr>)"
    using claim_fresh [OF none(1), of "run_env r" "run_locked r" ?k] assms(2,4) by (simp add: single_op_in_def tx_bind_def)
  moreover have "told (run_env r) (run_locked r) ?k ?p s = None" using claim_fresh [OF none(2)] by (simp add: told_def)
  ultimately show ?thesis using assms(3) by (simp add: push_op_def Let_def run_tx_def write_cache_def)
qed

section \<open>An outbox pushed again\<close>

fun is_applied :: "sync_result \<Rightarrow> bool" where
  "is_applied (Applied _ _) = True"
| "is_applied _ = False"

lemma refused_not_applied [simp]: "\<not> is_applied (refused raw p code d)"
  by (simp add: refused_def Let_def)

lemma error_not_applied [simp]: "\<not> is_applied (map_op_error raw p f)"
  by (simp add: map_op_error_def split: err.split)

lemma error_is_no_answer [simp]: "map_op_error raw p f \<noteq> Applied i b"
  using error_not_applied [of raw p f] by (cases "map_op_error raw p f") auto

text \<open>What a first answer leaves on file, and what a till that asks again is told.\<close>

definition filed_answer :: "outside \<Rightarrow> sync_op \<Rightarrow> jsval \<Rightarrow> idem_stored" where
  "filed_answer x raw body = on_file (x_jsonb x) (op_request x undefined undefined raw) None body"

lemma filed_answer_simps [simp]:
  "sr_body (filed_answer x raw body) = x_jsonb x (or_else body JNull)"
  "decide (filed_answer x raw body) (op_params x raw) \<noteq> Reused"
  "on_file (x_jsonb x) (op_request x a r raw) None body = filed_answer x raw body"
  by (simp_all add: filed_answer_def on_file_def decide_def op_params_def)

definition on_record :: "outside \<Rightarrow> sync_op \<Rightarrow> jsval \<Rightarrow> db \<Rightarrow> bool" where
  "on_record x raw body s \<longleftrightarrow>
     (\<exists>row. row_of ik_key (op_key raw) (idem_keys s) = Some row \<and> row_mirrored (filed_answer x raw body) row)"

lemma push_unknown_step:
  assumes "cache_mirrors s c" "row_of ik_key (op_key raw) (idem_keys s) = None" "push_op x a r raw (s, c) = (res, s', c')"
  shows "row_of ik_key k (idem_keys s) = None \<Longrightarrow> k \<noteq> op_key raw \<Longrightarrow> row_of ik_key k (idem_keys s') = None"
    and "res = Applied i b \<Longrightarrow> i = op_id raw \<and> on_record x raw b s'"
proof -
  obtain answer where sv: "serve (x_jsonb x) (op_request x a r raw) (s, c) = (answer, s', c')" and res: "res = result_of x raw answer"
    using push_unknown [OF assms(2), of x a r c] assms(3) by (auto split: prod.splits)
  have none: "row_of ik_key (ip_key (rq_params (op_request x a r raw))) (idem_keys s) = None" using assms(2) by simp
  have work: "tx_fixes idem_keys (rq_work (op_request x a r raw))" by (simp add: after_claim_fixes_keys)
  show "row_of ik_key k (idem_keys s) = None \<Longrightarrow> k \<noteq> op_key raw \<Longrightarrow> row_of ik_key k (idem_keys s') = None"
  proof (cases answer)
    case (Inl f)
    then show "row_of ik_key k (idem_keys s) = None \<Longrightarrow> k \<noteq> op_key raw \<Longrightarrow> row_of ik_key k (idem_keys s') = None"
      using serve_fresh_Inl [OF none] sv by blast
  next
    case (Inr z)
    then have "serve (x_jsonb x) (op_request x a r raw) (s, c) = (Inr (fst z, snd z), s', c')" using sv by simp
    from serve_fresh_Inr(3) [OF none work this]
    show "row_of ik_key k (idem_keys s) = None \<Longrightarrow> k \<noteq> op_key raw \<Longrightarrow> row_of ik_key k (idem_keys s') = None"
      by (simp add: row_of_append new_claim_def completed_def)
  qed
  assume applied: "res = Applied i b"
  then obtain st where z: "answer = Inr (st, b)" and i: "i = op_id raw"
    using res by (auto simp: result_of_def split: sum.splits)
  from serve_fresh_Inr(1) [OF none work] sv z have "st = None" by blast
  with serve_success [OF assms(1) work, of "x_jsonb x" st b s' c'] sv z i
  show "i = op_id raw \<and> on_record x raw b s'" by (simp add: on_record_def)
qed

lemma push_on_record:
  assumes "cache_mirrors s c" "on_record x raw body s" "\<not> run_locked r" "\<not> run_too_old r"
  shows "\<exists>c'. push_op x a r raw (s, c) = (Applied (op_id raw) (x_jsonb x (or_else body JNull)), s, c') \<and> cache_mirrors s c'"
proof -
  from assms(2) obtain row where row: "row_of ik_key (op_key raw) (idem_keys s) = Some row" "row_mirrored (filed_answer x raw body) row"
    by (auto simp: on_record_def)
  let ?q = "op_request x a r raw"
  have key: "row_of ik_key (ip_key (rq_params ?q)) (idem_keys s) = Some row" using row(1) by simp
  have "retry_answer (filed_answer x raw body) ?q = Inr (Some (sr_code (filed_answer x raw body)), sr_body (filed_answer x raw body))"
    using assms(3,4) filed_answer_simps(2) [of x raw body] by (auto simp: retry_answer_def decide_def split: if_splits)
  moreover obtain answer s' c' where sv: "serve (x_jsonb x) ?q (s, c) = (answer, s', c')" by (metis prod.exhaust)
  ultimately have "answer = Inr (Some (sr_code (filed_answer x raw body)), sr_body (filed_answer x raw body))" "s' = s" "cache_mirrors s c'"
    using serve_taken [OF key row(2) assms(1), of "x_jsonb x"] serve_found [OF key assms(1) sv] by simp_all
  with push_known [OF assms(1) row filed_answer_simps(2)] sv show ?thesis by (simp add: result_of_def)
qed

lemma push_ops_Cons:
  "push_ops x a ((r, raw) # rest) sc =
     (if is_retry (fst (push_op x a r raw sc))
      then (fst (push_op x a r raw sc) # map (\<lambda>(_, q). Retry (op_id q)) rest, snd (push_op x a r raw sc))
      else (fst (push_op x a r raw sc) # fst (push_ops x a rest (snd (push_op x a r raw sc))),
            snd (push_ops x a rest (snd (push_op x a r raw sc)))))"
  by (simp add: Let_def split: prod.splits)

declare push_ops.simps(2) [simp del]

lemma push_ops_keeps:
  assumes "cache_mirrors s c" "push_ops x a l (s, c) = (rs, s', c')"
  shows "cache_mirrors s' c' \<and> (\<forall>k row. row_of ik_key k (idem_keys s) = Some row \<longrightarrow> row_of ik_key k (idem_keys s') = Some row)"
  using assms
proof (induction l arbitrary: s c rs)
  case (Cons op1 rest)
  obtain r raw where op1: "op1 = (r, raw)" by (cases op1)
  obtain res s1 c1 where one: "push_op x a r raw (s, c) = (res, s1, c1)" by (metis prod.exhaust)
  note k = push_keeps [OF Cons.prems(1) one]
  show ?case
  proof (cases "is_retry res")
    case True
    then show ?thesis using k Cons.prems(2) one op1 by (auto simp: push_ops_Cons)
  next
    case False
    obtain rs' s2 c2 where two: "push_ops x a rest (s1, c1) = (rs', s2, c2)" by (metis prod.exhaust)
    with False Cons.prems(2) one op1 have "push_ops x a rest (s1, c1) = (rs', s', c')" by (auto simp: push_ops_Cons)
    from Cons.IH [OF conjunct1 [OF k] this] k show ?thesis by auto
  qed
qed simp

lemma push_ops_all_recorded:
  assumes "cache_mirrors s c" "length runs = length ops" "distinct (map op_key ops)"
    and "\<forall>raw \<in> set ops. row_of ik_key (op_key raw) (idem_keys s) = None"
    and "push_ops x a (zip runs ops) (s, c) = (rs, s', c')" "list_all is_applied rs"
  shows "\<exists>bodies. length bodies = length ops \<and> rs = map (\<lambda>(raw, b). Applied (op_id raw) b) (zip ops bodies) \<and>
     (\<forall>(raw, b) \<in> set (zip ops bodies). on_record x raw b s')"
  using assms(2,1,3-)
proof (induction runs ops arbitrary: s c rs rule: list_induct2)
  case (Cons r runs raw ops)
  obtain res s1 c1 where one: "push_op x a r raw (s, c) = (res, s1, c1)" by (metis prod.exhaust)
  obtain rs' s2 c2 where two: "push_ops x a (zip runs ops) (s1, c1) = (rs', s2, c2)" by (metis prod.exhaust)
  have hd: "hd rs = res" using Cons.prems(4) one by (auto simp: push_ops_Cons split: if_splits)
  have "rs \<noteq> []" using Cons.prems(4) by (auto simp: push_ops_Cons split: if_splits)
  with hd Cons.prems(5) have "is_applied res" by (cases rs) auto
  then have res: "is_applied res" "\<not> is_retry res" by (cases res; simp)+
  then have eq: "rs = res # rs'" "s2 = s'" "c2 = c'" using Cons.prems(4) one two by (auto simp: push_ops_Cons)
  from res obtain i b where applied: "res = Applied i b" by (cases res) auto
  have fresh: "row_of ik_key (op_key raw) (idem_keys s) = None" using Cons.prems(3) by simp
  from push_unknown_step(2) [OF Cons.prems(1) fresh one applied] have rec: "i = op_id raw" "on_record x raw b s1" by auto
  have later: "\<forall>q \<in> set ops. row_of ik_key (op_key q) (idem_keys s1) = None"
  proof
    fix q assume q: "q \<in> set ops"
    then have "op_key q \<noteq> op_key raw" "row_of ik_key (op_key q) (idem_keys s) = None"
      using Cons.prems(2,3) by (auto simp: image_iff)
    then show "row_of ik_key (op_key q) (idem_keys s1) = None"
      by (intro push_unknown_step(1) [OF Cons.prems(1) fresh one])
  qed
  note k1 = push_keeps [OF Cons.prems(1) one]
  have two': "push_ops x a (zip runs ops) (s1, c1) = (rs', s', c')" using two eq by simp
  from Cons.IH [OF conjunct1 [OF k1] _ later two'] Cons.prems(2,5) eq obtain bodies where bs:
    "length bodies = length ops" "rs' = map (\<lambda>(raw, b). Applied (op_id raw) b) (zip ops bodies)"
    "\<forall>(raw, b) \<in> set (zip ops bodies). on_record x raw b s'" by auto
  have "on_record x raw b s'"
    using rec(2) push_ops_keeps [OF conjunct1 [OF k1] two'] by (auto simp: on_record_def)
  then show ?case using bs eq applied rec(1) by (intro exI [of _ "b # bodies"]) simp
qed simp

lemma push_ops_on_record:
  assumes "cache_mirrors s c" "length runs = length ops" "length bodies = length ops"
    and "\<forall>r \<in> set runs. \<not> run_locked r \<and> \<not> run_too_old r" "\<forall>(raw, b) \<in> set (zip ops bodies). on_record x raw b s"
  shows "\<exists>c'. push_ops x a (zip runs ops) (s, c) =
     (map (\<lambda>(raw, b). Applied (op_id raw) (x_jsonb x (or_else b JNull))) (zip ops bodies), s, c')"
  using assms(2) assms(3) [symmetric] assms(1,4,5)
proof (induction runs ops bodies arbitrary: c rule: list_induct3)
  case (Cons r runs raw ops b bodies)
  from Cons.prems push_on_record [OF Cons.prems(1), of x raw b r a] obtain c1 where
    one: "push_op x a r raw (s, c) = (Applied (op_id raw) (x_jsonb x (or_else b JNull)), s, c1)" and m: "cache_mirrors s c1"
    by auto
  from Cons.IH [OF m] Cons.prems one show ?case by (auto simp: push_ops_Cons)
qed simp

text \<open>Whatever other tills push in between, each batch with an actor of its own.\<close>

fun push_batches ::
  "outside \<Rightarrow> (actor \<times> (op_run \<times> sync_op) list) list \<Rightarrow> db \<times> idem_cache \<Rightarrow> db \<times> idem_cache" where
  "push_batches x [] sc = sc"
| "push_batches x ((a, l) # rest) sc = push_batches x rest (snd (push_ops x a l sc))"

lemma push_batches_keeps:
  assumes "cache_mirrors s c" "push_batches x bs (s, c) = (s', c')"
  shows "cache_mirrors s' c' \<and> (\<forall>k row. row_of ik_key k (idem_keys s) = Some row \<longrightarrow> row_of ik_key k (idem_keys s') = Some row)"
  using assms
proof (induction bs arbitrary: s c)
  case (Cons b bs)
  obtain a l where b: "b = (a, l)" by (cases b)
  obtain rs s1 c1 where one: "push_ops x a l (s, c) = (rs, s1, c1)" by (metis prod.exhaust)
  note k = push_ops_keeps [OF Cons.prems(1) one]
  from Cons.IH [OF conjunct1 [OF k]] Cons.prems(2) one b k show ?case by auto
qed simp

fun stored_result :: "outside \<Rightarrow> sync_result \<Rightarrow> sync_result" where
  "stored_result x (Applied i b) = Applied i (x_jsonb x (or_else b JNull))"
| "stored_result x res = res"

text \<open>
  C9. An outbox may be pushed again: when every operation of a batch under keys the server had not seen
  was applied, and the reply got lost, then whatever other batches come in between, pushing the same
  batch again (its locks free, its transactions in time) answers every operation with the answer
  the first push stored and leaves the database exactly as it was.
\<close>

theorem outbox_pushed_again:
  assumes "cache_mirrors s c" "length runs = length ops" "distinct (map op_key ops)"
    and "\<forall>raw \<in> set ops. row_of ik_key (op_key raw) (idem_keys s) = None"
    and "push_ops x a (zip runs ops) (s, c) = (rs, s1, c1)" "list_all is_applied rs"
    and "push_batches x between (s1, c1) = (s2, c2)"
    and "length again = length ops" "\<forall>r \<in> set again. \<not> run_locked r \<and> \<not> run_too_old r"
  shows "fst (push_ops x b (zip again ops) (s2, c2)) = map (stored_result x) rs \<and>
    fst (snd (push_ops x b (zip again ops) (s2, c2))) = s2"
proof -
  from push_ops_all_recorded [OF assms(1-6)] obtain bodies where bs: "length bodies = length ops"
    "rs = map (\<lambda>(raw, b). Applied (op_id raw) b) (zip ops bodies)" "\<forall>(raw, b) \<in> set (zip ops bodies). on_record x raw b s1" by blast
  note k1 = push_ops_keeps [OF assms(1,5)]
  note k2 = push_batches_keeps [OF conjunct1 [OF k1] assms(7)]
  have "\<forall>(raw, b) \<in> set (zip ops bodies). on_record x raw b s2"
    using bs(3) k2 by (fastforce simp: on_record_def)
  from push_ops_on_record [OF conjunct1 [OF k2] assms(8) bs(1) assms(9) this, of b] bs(2)
  show ?thesis by (auto simp: case_prod_beta)
qed

section \<open>Where a batch stops\<close>

definition db_after :: "outside \<Rightarrow> actor \<Rightarrow> (op_run \<times> sync_op) list \<Rightarrow> db \<times> idem_cache \<Rightarrow> nat \<Rightarrow> db" where
  "db_after x a l sc n = fst (snd (push_ops x a (take n l) sc))"

lemma push_op_refused_keeps:
  assumes "push_op x a r raw (s, c) = (res, s', c')" "\<not> is_applied res"
  shows "s' = s"
  using assms by (auto simp: push_op_def Let_def run_tx_def split: prod.splits sum.splits if_splits)

lemma push_ops_length: "length (fst (push_ops x a l sc)) = length l"
proof (induction l arbitrary: sc)
  case (Cons op1 rest)
  then show ?case by (cases op1) (simp add: push_ops_Cons)
qed simp

lemma push_ops_stop:
  assumes "i < length l" "\<not> is_applied (fst (push_ops x a l sc) ! i)"
  shows "db_after x a l sc (Suc i) = db_after x a l sc i"
  using assms
proof (induction l arbitrary: sc i)
  case (Cons op1 rest)
  obtain r raw where op1: "op1 = (r, raw)" by (cases op1)
  obtain s c where sc: "sc = (s, c)" by (cases sc)
  obtain res s1 c1 where one: "push_op x a r raw (s, c) = (res, s1, c1)" by (metis prod.exhaust)
  show ?case
  proof (cases i)
    case 0
    then have "\<not> is_applied res" using Cons.prems(2) one op1 sc by (auto simp: push_ops_Cons split: if_splits)
    from push_op_refused_keeps [OF one this] show ?thesis
      using 0 one op1 sc by (simp add: db_after_def push_ops_Cons)
  next
    case (Suc j)
    show ?thesis
    proof (cases "is_retry res")
      case True
      then show ?thesis using Suc one op1 sc by (simp add: db_after_def push_ops_Cons)
    next
      case False
      from Cons.IH [of j "(s1, c1)"] Cons.prems Suc one op1 sc False show ?thesis
        by (simp add: db_after_def push_ops_Cons)
    qed
  qed
qed simp

lemma push_ops_after_retry:
  assumes "i \<le> j" "j < length l" "is_retry (fst (push_ops x a l sc) ! i)"
  shows "fst (push_ops x a l sc) ! j = Retry (op_id (snd (l ! j))) \<and> db_after x a l sc (length l) = db_after x a l sc i"
  using assms
proof (induction l arbitrary: sc i j)
  case (Cons op1 rest)
  obtain r raw where op1: "op1 = (r, raw)" by (cases op1)
  obtain s c where sc: "sc = (s, c)" by (cases sc)
  obtain res s1 c1 where one: "push_op x a r raw (s, c) = (res, s1, c1)" by (metis prod.exhaust)
  have id_of: "res = Retry k \<Longrightarrow> k = op_id raw" for k
    using one by (auto simp: push_op_def Let_def map_op_error_def refused_def split: prod.splits sum.splits err.splits if_splits option.splits)
  show ?case
  proof (cases "is_retry res")
    case True
    then obtain k where k: "res = Retry k" by (cases res) auto
    have "s1 = s" using push_op_refused_keeps [OF one] True by (cases res) auto
    then show ?thesis using True id_of [OF k] k Cons.prems one op1 sc
      by (cases i; cases j) (auto simp: db_after_def push_ops_Cons case_prod_beta)
  next
    case False
    then obtain i' j' where ij: "i = Suc i'" "j = Suc j'"
      using Cons.prems one op1 sc by (cases i; cases j) (auto simp: push_ops_Cons)
    from Cons.IH [of i' j' "(s1, c1)"] Cons.prems ij one op1 sc False show ?thesis
      by (simp add: db_after_def push_ops_Cons)
  qed
qed simp

text \<open>
  A batch keeps its order and leaves no traces of what failed: there is one result per operation, an
  operation that is refused or has to be retried changes nothing, and from the first one to be
  retried on nothing is executed: every later operation is told to retry and the database
  stays as the operations before it left it.
\<close>

theorem batch_stops_at_retry:
  assumes "push_ops x a l sc = (rs, s', c')"
  shows "length rs = length l \<and>
    (\<forall>i < length l. \<not> is_applied (rs ! i) \<longrightarrow> db_after x a l sc (Suc i) = db_after x a l sc i) \<and>
    (\<forall>i < length l. is_retry (rs ! i) \<longrightarrow>
       s' = db_after x a l sc i \<and> (\<forall>j < length l. i \<le> j \<longrightarrow> rs ! j = Retry (op_id (snd (l ! j)))))"
proof -
  have s': "db_after x a l sc (length l) = s'" using assms by (simp add: db_after_def)
  have rs: "fst (push_ops x a l sc) = rs" using assms by simp
  show ?thesis
    using push_ops_length [of x a l sc] push_ops_stop [of _ l x a sc] push_ops_after_retry [of _ _ l x a sc]
    unfolding rs s' by blast
qed

section \<open>Samples\<close>

definition calm_run :: op_run where
  "calm_run = \<lparr>run_env = sample_env, run_locked = False, run_too_old = False, run_read_ok = False, run_write_ok = False\<rparr>"

definition sample_outside :: outside where
  "sample_outside = \<lparr>x_to_str = (\<lambda>v. []), x_date = (\<lambda>t. None), x_sha = (\<lambda>t. t), x_stringify = (\<lambda>v. []), x_jsonb = (\<lambda>v. v)\<rparr>"

definition sample_op_id :: uuid where "sample_op_id = ''0190a3f2-7c1e-7abc-8def-0123456789ab''"

definition queued_customer :: sync_op where
  "queued_customer = \<lparr>op_id = sample_op_id, op_key = ''k'', op_type = Customer_Create,
     op_payload = JObj [(''id'', JStr sample_op_id), (''name'', JStr ''A'')]\<rparr>"

lemma sample_op_id_is_uuid [simp]: "is_uuid_text sample_op_id"
  by (simp add: sample_op_id_def is_uuid_text_def uuid_shape_def is_hex_def is_digit_def numeral_eq_Suc)

lemma sample_op_id_nonempty [simp]: "sample_op_id \<noteq> []"
  by (simp add: sample_op_id_def)

lemma queued_customer_parsed:
  "parse_op_payload sample_outside queued_customer = Inr (P_Customer \<lparr>cc_id = Some sample_op_id, cc_name = ''A'',
     cc_name_th = Some ''A'', cc_phone = None, cc_address = None\<rparr>)"
  "replay_probe_of queued_customer = Some (R_Customer sample_op_id)"
  by (simp_all add: queued_customer_def parse_op_payload_def parse_op_def payload_of_def members_def parse_customer_create_def
      name_or_thai_def text_or_blank_def required_string_def string_or_empty_def get_prop_def nullable_string_def optional_uuid_def parse_uuid_def is_nullish_def trim_def is_space_def
      replay_probe_of_def uuid_or_none_def Let_def as_object_def)

lemma queued_customer_applied:
  "\<exists>b s' c'. push_op sample_outside sample_actor calm_run queued_customer (blank_db, Map.empty) = (Applied sample_op_id b, s', c')"
proof -
  let ?s = "blank_db\<lparr>hooks := [], idem_keys := [new_claim sample_env (op_params sample_outside queued_customer)]\<rparr>"
  have "\<exists>b t. after_claim sample_outside sample_env sample_actor queued_customer ?s = Inr (b, t)"
    by (simp add: after_claim_def check_client_id_replay_def queued_customer_parsed replay_customer_def customer_create_in_def
      next_code_def insert_customer_def constraint_defs add_hook_def Let_def code_numbers_def)
  then obtain b t where run: "after_claim sample_outside sample_env sample_actor queued_customer ?s = Inr (b, t)" by blast
  have "op_id queued_customer = sample_op_id" by (simp add: queued_customer_def)
  with push_unknown_applied [of queued_customer blank_db calm_run sample_outside sample_actor b t Map.empty] run
  show ?thesis by (simp add: calm_run_def)
qed

lemma outbox_pushed_again_witness:
  "\<exists>rs s1 c1. push_ops sample_outside sample_actor (zip [calm_run] [queued_customer]) (blank_db, Map.empty) = (rs, s1, c1) \<and>
     fst (push_ops sample_outside sample_actor (zip [calm_run] [queued_customer]) (s1, c1)) = map (stored_result sample_outside) rs \<and>
     list_all is_applied rs"
proof -
  obtain b s1 c1 where "push_op sample_outside sample_actor calm_run queued_customer (blank_db, Map.empty) = (Applied sample_op_id b, s1, c1)"
    using queued_customer_applied by blast
  then have one: "push_ops sample_outside sample_actor (zip [calm_run] [queued_customer]) (blank_db, Map.empty) = ([Applied sample_op_id b], s1, c1)"
    by (simp add: push_ops_Cons)
  have "fst (push_ops sample_outside sample_actor (zip [calm_run] [queued_customer]) (s1, c1)) = map (stored_result sample_outside) [Applied sample_op_id b]"
    using outbox_pushed_again [OF _ _ _ _ one, where between = "[]" and again = "[calm_run]"]
    by (simp add: cache_mirrors_def calm_run_def)
  with one show ?thesis
    by (intro exI [of _ "[Applied sample_op_id b]"] exI [of _ s1] exI [of _ c1] conjI) simp_all
qed

text \<open>A lock that is not released in time: a 503, so the batch stops.\<close>

lemma batch_stops_at_retry_witness:
  "\<exists>s' c'. push_ops sample_outside sample_actor [(calm_run\<lparr>run_locked := True\<rparr>, queued_customer), (calm_run, queued_customer)]
       (blank_db, Map.empty) = ([Retry sample_op_id, Retry sample_op_id], s', c') \<and> s' = blank_db"
proof -
  let ?l = "[(calm_run\<lparr>run_locked := True\<rparr>, queued_customer), (calm_run, queued_customer)]"
  have i: "op_id queued_customer = sample_op_id" by (simp add: queued_customer_def)
  have "single_op_in sample_outside sample_env True None sample_actor queued_customer (blank_db\<lparr>hooks := []\<rparr>) = Inl key_in_flight"
    by (simp add: single_op_in_def tx_bind_def claim_fresh)
  then have "fst (push_op sample_outside sample_actor (calm_run\<lparr>run_locked := True\<rparr>) queued_customer (blank_db, Map.empty)) = Retry sample_op_id"
    using i by (simp add: push_op_def run_tx_def calm_run_def read_cache_def map_op_error_def key_in_flight_def Let_def)
  then have "fst (push_ops sample_outside sample_actor ?l (blank_db, Map.empty)) ! 0 = Retry sample_op_id"
    by (simp add: push_ops_Cons)
  moreover obtain rs s' c' where l: "push_ops sample_outside sample_actor ?l (blank_db, Map.empty) = (rs, s', c')" by (metis prod.exhaust)
  ultimately have rs: "rs ! 0 = Retry sample_op_id" by simp
  note stop = batch_stops_at_retry [OF l]
  have len: "length rs = 2" using conjunct1 [OF stop] by simp
  from stop have "\<forall>i < length ?l. is_retry (rs ! i) \<longrightarrow> s' = db_after sample_outside sample_actor ?l (blank_db, Map.empty) i \<and>
      (\<forall>j < length ?l. i \<le> j \<longrightarrow> rs ! j = Retry (op_id (snd (?l ! j))))" by blast
  from this [rule_format, of 0] rs have "s' = blank_db" "rs ! 1 = Retry sample_op_id"
    using i by (simp_all add: db_after_def)
  moreover from this rs len have "rs = [Retry sample_op_id, Retry sample_op_id]"
    by (cases rs; cases "tl rs") auto
  ultimately have "rs = [Retry sample_op_id, Retry sample_op_id]" "s' = blank_db" by simp_all
  with l show ?thesis by blast
qed

end
