(* ===== verification/Sync_Effects.thy ===== *)
theory Sync_Effects
  imports Sync_Facts
begin

text \<open>
  What the sync of a till promises beyond the online routes: the device's dates are kept inside a
  window and every correction is left for review, an offline sale is never refused over its
  quote, cash taken out offline is never refused, and a document the server already has is answered
  from its row.
\<close>

section \<open>Fresh ids for review items\<close>

text \<open>The server's ids (UUID v7) do not repeat, and none of those to come is on file yet.\<close>

definition ids_fresh :: "env \<Rightarrow> db \<Rightarrow> bool" where
  "ids_fresh e s \<longleftrightarrow> (\<forall>n \<ge> minted s. \<not> has_key rv_id (mint e n) (review_items s)) \<and>
     (\<forall>m n. minted s \<le> m \<longrightarrow> m < n \<longrightarrow> mint e m \<noteq> mint e n)"

lemma ids_fresh_mint: "ids_fresh e s \<Longrightarrow> minted s \<le> n \<Longrightarrow> ids_fresh e (s\<lparr>minted := n\<rparr>)"
  by (auto simp: ids_fresh_def)

text \<open>A new item carries the next id, which none to come equals.\<close>

lemma ids_fresh_item:
  assumes "ids_fresh e s" "rv_id v = mint e (minted s)"
  shows "ids_fresh e (s\<lparr>minted := Suc (minted s), review_items := review_items s @ [v]\<rparr>)"
  using assms by (auto simp: ids_fresh_def Suc_le_eq)

section \<open>Review items of one document\<close>

definition flags :: "string \<Rightarrow> uuid \<Rightarrow> db \<Rightarrow> review_item list" where
  "flags kind ref s = filter (\<lambda>v. rv_kind v = kind \<and> rv_ref_id v = ref) (review_items s)"

lemma has_flag: "has_key (\<lambda>r. (rv_kind r, rv_ref_id r)) (kind, ref) (review_items s) \<longleftrightarrow> flags kind ref s \<noteq> []"
  by (auto simp: flags_def has_key_def filter_empty_conv)

lemma insert_review_item_Inr:
  assumes "insert_review_item e kind ref ds s = Inr (u, s')"
  shows "s' = s\<lparr>minted := Suc (minted s), review_items := review_items s @
     [\<lparr>rv_id = mint e (minted s), rv_kind = kind, rv_ref_id = ref, rv_details = ds,
       rv_created_at = now e, rv_reviewed_at = None, rv_reviewed_by = None\<rparr>]\<rparr>"
  using assms by (auto simp: insert_review_item_def constraint_defs)

lemma insert_review_once_fresh:
  assumes "ids_fresh e s" "kind \<in> set once_kinds"
  shows "\<exists>s'. insert_review_once e kind ref ds s = Inr ((), s') \<and>
     length (flags kind ref s') = max 1 (length (flags kind ref s)) \<and>
     (\<forall>k r. (k, r) \<noteq> (kind, ref) \<longrightarrow> flags k r s' = flags k r s)"
proof -
  have c: "review_clash (mint e (minted s)) kind ref (s\<lparr>minted := Suc (minted s)\<rparr>) \<longleftrightarrow> flags kind ref s \<noteq> []"
    using assms by (simp add: review_clash_def ids_fresh_def has_flag)
  show ?thesis
  proof (cases "flags kind ref s = []")
    case True
    then show ?thesis using c by (auto simp: insert_review_once_def fresh_id_def tx_bind_def) (auto simp: flags_def)
  next
    case False
    then have "1 \<le> length (flags kind ref s)" by (cases "flags kind ref s") auto
    then show ?thesis using c False by (auto simp: insert_review_once_def fresh_id_def tx_bind_def) (auto simp: flags_def)
  qed
qed

section \<open>The clamp\<close>

definition opened_at :: "uuid \<Rightarrow> db \<Rightarrow> int option" where
  "opened_at dev s = map_option sh_opened_at (newest (filter (is_open dev) (shifts s)))"

lemma clamp_op_date_Inr:
  assumes "clamp_op_date e dev raw p d s = Inr (stored, s')"
  obtains period where "stored = clamped_date e (opened_at dev s) d"
    "period_mismatch e p (case stored of None \<Rightarrow> js_now e | Some t \<Rightarrow> t) s = Inr (period, s)"
    "if stored \<noteq> d \<or> period \<noteq> [] then insert_date_flag e raw p d stored (opened_at dev s) period s = Inr ((), s') else s' = s"
  using assms by (auto simp: clamp_op_date_def opened_at_def Let_def period_mismatch_def split: if_splits)

lemma clamped_date_window:
  assumes "\<forall>t. opened = Some t \<longrightarrow> t \<le> js_now e + DATE_TOLERANCE_MS"
  shows "clamped_date e opened d = None \<longleftrightarrow> d = None"
    and "clamped_date e opened d = Some t \<Longrightarrow> t \<le> js_now e + DATE_TOLERANCE_MS"
    and "clamped_date e opened d = Some t \<Longrightarrow> opened = Some t0 \<Longrightarrow> t0 - DATE_TOLERANCE_MS \<le> t"
    and "d = Some t \<Longrightarrow> t \<le> js_now e + DATE_TOLERANCE_MS \<Longrightarrow> (\<And>t0. opened = Some t0 \<Longrightarrow> t0 - DATE_TOLERANCE_MS \<le> t) \<Longrightarrow>
      clamped_date e opened d = d"
  using assms by (auto simp: clamped_date_def DATE_TOLERANCE_MS_def split: option.splits if_splits)

text \<open>
  C24. The device's date of an operation: with the device's drawer opened no later than five minutes ahead
  of the server, what is stored lies between five minutes before the opening and five minutes after the
  server's clock, a date inside that window is stored as it came, and the operation leaves exactly
  one \<open>date_flag\<close> for review when its date was moved (and none without a date that was moved or a
  document number of another month).
\<close>

theorem device_date_in_window:
  assumes "clamp_op_date e dev raw p d s = Inr (stored, s')"
    and "\<forall>t. opened_at dev s = Some t \<longrightarrow> t \<le> js_now e + DATE_TOLERANCE_MS"
  shows "(stored = None \<longleftrightarrow> d = None) \<and>
    (\<forall>t. stored = Some t \<longrightarrow> t \<le> js_now e + DATE_TOLERANCE_MS \<and>
       (\<forall>t0. opened_at dev s = Some t0 \<longrightarrow> t0 - DATE_TOLERANCE_MS \<le> t)) \<and>
    (\<forall>t. d = Some t \<longrightarrow> t \<le> js_now e + DATE_TOLERANCE_MS \<longrightarrow>
       (\<forall>t0. opened_at dev s = Some t0 \<longrightarrow> t0 - DATE_TOLERANCE_MS \<le> t) \<longrightarrow> stored = d) \<and>
    length (flags ''date_flag'' (ref_of raw p) s') = length (flags ''date_flag'' (ref_of raw p) s) +
      (if stored \<noteq> d \<or> period_mismatch e p (case stored of None \<Rightarrow> js_now e | Some t \<Rightarrow> t) s \<noteq> Inr ([], s) then 1 else 0)"
  using assms(1)
proof (rule clamp_op_date_Inr)
  fix period
  assume st: "stored = clamped_date e (opened_at dev s) d"
    and per: "period_mismatch e p (case stored of None \<Rightarrow> js_now e | Some t \<Rightarrow> t) s = Inr (period, s)"
    and fl: "if stored \<noteq> d \<or> period \<noteq> [] then insert_date_flag e raw p d stored (opened_at dev s) period s = Inr ((), s') else s' = s"
  note w = clamped_date_window [OF assms(2)]
  have "length (flags ''date_flag'' (ref_of raw p) s') = length (flags ''date_flag'' (ref_of raw p) s) +
      (if stored \<noteq> d \<or> period \<noteq> [] then 1 else 0)"
    using fl by (auto simp: insert_date_flag_def flags_def split: if_splits dest!: insert_review_item_Inr)
  then show ?thesis using w [where d = d] st per by auto
qed

section \<open>The quote of an offline sale\<close>

text \<open>Ids stay fresh and the items of kind \<open>k\<close> about \<open>i\<close> stay as they are.\<close>

definition quiet :: "env \<Rightarrow> string \<Rightarrow> uuid \<Rightarrow> review_item list \<Rightarrow> db \<Rightarrow> bool" where
  "quiet e k i F s \<longleftrightarrow> ids_fresh e s \<and> flags k i s = F"

lemma quiet_fixed: "tx_fixes (\<lambda>s. (minted s, review_items s)) m \<Longrightarrow> tx_keeps (quiet e k i F) m"
  by (rule tx_keepsI) (auto simp: quiet_def ids_fresh_def flags_def dest: tx_fixesD)

lemma quiet_fresh_id: "tx_keeps (quiet e k i F) (fresh_id e)"
  by (rule tx_keepsI) (auto simp: quiet_def flags_def intro: ids_fresh_mint)

lemma quiet_item: "kind \<noteq> k \<Longrightarrow> tx_keeps (quiet e k i F) (insert_review_item e kind ref ds)"
  by (rule tx_keepsI) (auto simp: quiet_def flags_def intro!: ids_fresh_item dest!: insert_review_item_Inr)

lemma quiet_clamp:
  assumes "k \<noteq> ''date_flag''"
  shows "tx_keeps (quiet e k i F) (clamp_op_date e dev raw p d)"
  unfolding clamp_op_date_def period_mismatch_def insert_date_flag_def
  by (intro tx_keep quiet_item) (use assms in auto)

lemma quiet_create_in:
  assumes "k \<noteq> ''credit_override''"
  shows "tx_keeps (quiet e k i F) (create_in e dto a)"
proof -
  have mvs: "tx_keeps (quiet e k i F) (insert_movements e b ds locked sa)" for b ds locked sa
    unfolding insert_movements_def insert_sale_movement_def
    by (intro tx_keep quiet_fresh_id; rule quiet_fixed; intro tx_fix; simp)
  have leaf: "tx_keeps (quiet e k i F) (insert_audit au)" "tx_keeps (quiet e k i F) (add_hook h)"
    "tx_keeps (quiet e k i F) (apply_customer dto pts)" "tx_keeps (quiet e k i F) (apply_mechanic dto)" for au h pts
    unfolding apply_customer_def apply_mechanic_def by (rule quiet_fixed; intro tx_fix; simp)+
  have settle: "tx_keeps (quiet e k i F) (settle_sale e dto a ov pts)" for ov pts
    unfolding settle_sale_def record_override_def by (intro tx_keep quiet_item leaf) (use assms in simp)
  have rest: "tx_keeps (quiet e k i F) (existing_sale b n off ls)" "tx_keeps (quiet e k i F) (require_open_shift_id_for dev)"
    "tx_keeps (quiet e k i F) (resolve_payment_account dto)" "tx_keeps (quiet e k i F) (lock_mechanic_and_check_limit dto)"
    "tx_keeps (quiet e k i F) (lock_products ids)" "tx_keeps (quiet e k i F) (assert_stock ds locked)"
    "tx_keeps (quiet e k i F) (deduct ds)" "tx_keeps (quiet e k i F) (insert_sale e dto a no pts sid acct)"
    "tx_keeps (quiet e k i F) (insert_lines dto locked)" "tx_keeps (quiet e k i F) (resolve_doc_number e dev Receipt c)"
    for b n off ls dev ids ds locked no pts sid acct c
    unfolding existing_sale_def resolve_payment_account_def lock_mechanic_and_check_limit_def lock_products_def assert_stock_def
    by (rule quiet_fixed; intro tx_fix required.gate_fixes; simp)+
  show ?thesis
    unfolding create_in_def write_sale_def file_sale_def by (intro tx_keep mvs settle rest)
qed

lemma settle_quote_cases:
  assumes "ids_fresh e s" "settle_offline_quote e raw q r found s = Inr (u, s')"
  shows "quotes s' = (if found = Lock_Fresh then upd_where (\<lambda>x. q_id x = q) (converted_into e (cr_id r)) (quotes s) else quotes s) \<and>
    sales s' = sales s \<and>
    length (flags ''quote_conflict'' (cr_id r) s') =
      (if found \<in> {Lock_Fresh, Lock_Replay, Lock_Sale_Id_Taken} then length (flags ''quote_conflict'' (cr_id r) s)
       else max 1 (length (flags ''quote_conflict'' (cr_id r) s)))"
proof -
  have once: "quotes s' = quotes s \<and> sales s' = sales s \<and>
      length (flags ''quote_conflict'' (cr_id r) s') = max 1 (length (flags ''quote_conflict'' (cr_id r) s))"
    if "insert_review_once e ''quote_conflict'' (cr_id r) ds s = Inr (u, s')" for ds
    using that insert_review_once_fresh [OF assms(1), of "''quote_conflict''" "cr_id r" ds]
      tx_fixesD [OF tx_fixes_insert_review_once that, of quotes] tx_fixesD [OF tx_fixes_insert_review_once that, of sales]
    by (auto simp: once_kinds_def)
  show ?thesis
    using assms(2) once by (cases found) (auto simp: settle_offline_quote_def Let_def mark_converted_def flags_def)
qed

lemma push_sale_Inr:
  assumes "push_sale e a raw sale (Some q) d s = Inr (body, s')"
  obtains stored s1 found r s2 where "clamp_op_date e (a_device a) raw (P_Sale sale (Some q) d) d s = Inr (stored, s1)"
    "lock_and_classify e q (sp_id sale) stored s = Inr (found, s)"
    "create_in e (offline_sale sale stored) a s1 = Inr (r, s2)"
    "settle_offline_quote e raw q r found s2 = Inr ((), s')"
proof -
  from assms obtain stored s1 found r s2 where
    c: "clamp_op_date e (a_device a) raw (P_Sale sale (Some q) d) d s = Inr (stored, s1)"
    and l: "lock_and_classify e q (sp_id sale) stored s1 = Inr (found, s1)"
    and rest: "create_in e (offline_sale sale stored) a s1 = Inr (r, s2)" "settle_offline_quote e raw q r found s2 = Inr ((), s')"
    by (auto simp: push_sale_def lock_and_classify_def)
  have "quotes s1 = quotes s" "sales s1 = sales s"
    using tx_fixesD [OF tx_fixes_clamp c, of quotes] tx_fixesD [OF tx_fixes_clamp c, of sales] by auto
  then have "lock_and_classify e q (sp_id sale) stored s = Inr (found, s)"
    using l by (simp add: lock_and_classify_def cong: option.case_cong if_cong)
  with c rest show thesis using that by blast
qed

lemma offline_sale_id [simp]: "sp_id (offline_sale sale stored) = sp_id sale"
  by (simp add: offline_sale_def create_sale.defs sale_write.defs)

lemma sale_applied_with_quote:
  assumes "ids_fresh e s" "push_sale e a raw sale (Some q) d s = Inr (body, s')"
  shows "\<exists>stored found. stored = clamped_date e (opened_at (a_device a) s) d \<and>
    lock_and_classify e q (sp_id sale) stored s = Inr (found, s) \<and> has_key s_id (sp_id sale) (sales s') \<and>
    quotes s' = (if found = Lock_Fresh then upd_where (\<lambda>x. q_id x = q) (converted_into e (sp_id sale)) (quotes s) else quotes s) \<and>
    length (flags ''quote_conflict'' (sp_id sale) s') =
      (if found \<in> {Lock_Fresh, Lock_Replay, Lock_Sale_Id_Taken} then length (flags ''quote_conflict'' (sp_id sale) s)
       else max 1 (length (flags ''quote_conflict'' (sp_id sale) s)))"
  using assms(2)
proof (rule push_sale_Inr)
  fix stored s1 found r s2
  let ?Q = "quiet e ''quote_conflict'' (sp_id sale) (flags ''quote_conflict'' (sp_id sale) s)"
  assume c: "clamp_op_date e (a_device a) raw (P_Sale sale (Some q) d) d s = Inr (stored, s1)"
    and l: "lock_and_classify e q (sp_id sale) stored s = Inr (found, s)"
    and w: "create_in e (offline_sale sale stored) a s1 = Inr (r, s2)"
    and st: "settle_offline_quote e raw q r found s2 = Inr ((), s')"
  have "?Q s" using assms(1) by (simp add: quiet_def)
  then have "?Q s1" by (rule tx_keepsD [OF quiet_clamp _ c, rotated]) simp
  then have q2: "?Q s2" by (rule tx_keepsD [OF quiet_create_in _ w, rotated]) simp
  have "quotes s1 = quotes s" "stored = clamped_date e (opened_at (a_device a) s) d"
    using tx_fixesD [OF tx_fixes_clamp c, of quotes] c by (auto elim: clamp_op_date_Inr)
  with settle_quote_cases [OF _ st] q2 sale_bill.filed [OF w] sale_bill.no_quotes [OF w] l show ?thesis
    by (intro exI [of _ stored] exI [of _ found]) (simp add: quiet_def)
qed

lemma settle_quote_runs:
  assumes "ids_fresh e s"
  shows "\<exists>s'. settle_offline_quote e raw q r found s = Inr ((), s')"
  using insert_review_once_fresh [OF assms, of "''quote_conflict''" "cr_id r"]
  by (cases found) (simp_all add: settle_offline_quote_def Let_def mark_converted_def once_kinds_def, blast+)

lemma clamp_of_quoted: "clamp_op_date e dev raw (P_Sale sale q d) d = clamp_op_date e dev raw (P_Sale sale None d) d"
proof -
  have same: "insert_date_flag e raw (P_Sale sale q d) = insert_date_flag e raw (P_Sale sale None d)"
    "period_mismatch e (P_Sale sale q d) = period_mismatch e (P_Sale sale None d)"
    by (simp_all add: fun_eq_iff insert_date_flag_def ref_of_def period_mismatch_def)
  show ?thesis unfolding clamp_op_date_def same ..
qed

lemma tx_bind_ret: "tx_bind (tx_ret v) k = k v"
  by (rule ext) simp

lemma push_sale_refusal:
  assumes "ids_fresh e s"
  shows "push_sale e a raw sale (Some q) d s = Inl f \<longleftrightarrow> push_sale e a raw sale None d s = Inl f"
proof (cases "clamp_op_date e (a_device a) raw (P_Sale sale None d) d s")
  case (Inl g)
  then show ?thesis by (simp add: push_sale_def clamp_of_quoted [of _ _ _ _ "Some q"] tx_bind_Inl_run [where m = "clamp_op_date _ _ _ _ _"])
next
  case (Inr w)
  obtain stored s1 where w: "w = (stored, s1)" by (cases w)
  note c = Inr [unfolded w]
  obtain found where l: "lock_and_classify e q (sp_id sale) stored s1 = Inr (found, s1)" by (auto simp: lock_and_classify_def)
  have run: "push_sale e a raw sale (Some q) d s = tx_bind (create_in e (offline_sale sale stored) a) (\<lambda>r.
      tx_bind (settle_offline_quote e raw q r found) (\<lambda>_. tx_ret (sale_reply r))) s1"
    "push_sale e a raw sale None d s = tx_bind (create_in e (offline_sale sale stored) a) (\<lambda>r. tx_ret (sale_reply r)) s1"
    using c l by (simp_all add: push_sale_def clamp_of_quoted [of _ _ _ _ "Some q"] tx_bind_Inr_run [where m = "clamp_op_date _ _ _ _ _"]
      tx_bind_Inr_run [where m = "lock_and_classify _ _ _ _"] tx_bind_assoc tx_bind_ret) (simp add: tx_ret_def)
  show ?thesis
  proof (cases "create_in e (offline_sale sale stored) a s1")
    case Inl
    then show ?thesis by (simp add: run tx_bind_Inl_run)
  next
    case (Inr v)
    obtain r s2 where v: "v = (r, s2)" by (cases v)
    have "quiet e ''quote_conflict'' [] (flags ''quote_conflict'' [] s) s" using assms by (simp add: quiet_def)
    then have "quiet e ''quote_conflict'' [] (flags ''quote_conflict'' [] s) s1"
      by (rule tx_keepsD [OF quiet_clamp _ c, rotated]) simp
    then have "quiet e ''quote_conflict'' [] (flags ''quote_conflict'' [] s) s2"
      by (rule tx_keepsD [OF quiet_create_in _ Inr [unfolded v], rotated]) simp
    then obtain s' where "settle_offline_quote e raw q r found s2 = Inr ((), s')"
      using settle_quote_runs [of e s2 raw q r found] by (auto simp: quiet_def)
    with Inr v show ?thesis by (simp add: run tx_bind_def)
  qed
qed

text \<open>
  C24. A quote never stands in the way of a sale made offline: the push refuses or fails it exactly as it
  would without the quote. When it is applied its bill is on file; a quote that was still open and in
  date at the bill's date is converted into this bill, in every other case the quotes stay as they are;
  and exactly one \<open>quote_conflict\<close> about the bill is up for review when the quote was sold
  to another bill, had lapsed or is gone, and none is added otherwise.
\<close>

theorem offline_sale_settles_quote:
  assumes "ids_fresh e s"
  shows "(\<forall>f. push_sale e a raw sale (Some q) d s = Inl f \<longleftrightarrow> push_sale e a raw sale None d s = Inl f) \<and>
    (\<forall>body s'. push_sale e a raw sale (Some q) d s = Inr (body, s') \<longrightarrow>
      (\<exists>stored found. stored = clamped_date e (opened_at (a_device a) s) d \<and>
        lock_and_classify e q (sp_id sale) stored s = Inr (found, s) \<and> has_key s_id (sp_id sale) (sales s') \<and>
        quotes s' = (if found = Lock_Fresh then upd_where (\<lambda>x. q_id x = q) (converted_into e (sp_id sale)) (quotes s) else quotes s) \<and>
        length (flags ''quote_conflict'' (sp_id sale) s') =
          (if found \<in> {Lock_Fresh, Lock_Replay, Lock_Sale_Id_Taken} then length (flags ''quote_conflict'' (sp_id sale) s)
           else max 1 (length (flags ''quote_conflict'' (sp_id sale) s)))))"
  by (intro conjI allI impI push_sale_refusal [OF assms] sale_applied_with_quote [OF assms])

section \<open>Cash out of the drawer, offline\<close>

definition overdrawn_text :: string where "overdrawn_text = ''drawer_overdrawn_offline''"

lemma quiet_entry:
  "tx_keeps (quiet e k i F) (add_entry_in e a j ty n no t off)"
  unfolding add_entry_in_def add_new_entry_def lock_active_def Let_def
  by (intro tx_keep quiet_fresh_id; rule quiet_fixed; unfold insert_drawer_entry_def; intro tx_fix; simp)

lemma push_entry_Inr:
  assumes "push_entry e a raw body d s = Inr (b, s')"
  obtains stored s1 r s2 where "clamp_op_date e (a_device a) raw (P_Drawer body d) d s = Inr (stored, s1)"
    "add_entry_in e a (db_id body) (db_type body) (db_amount body) (db_note body) stored True s1 = Inr (r, s2)"
    "(if de_type r = Flow_Out then flag_overdrawn_offline e raw r else tx_ret ()) s2 = Inr ((), s')"
    "b = entry_reply r (expected_cash s2 (de_shift_id r))"
  using assms by (auto simp: push_entry_def)

lemma expected_cash_other [simp]:
  "expected_cash (s\<lparr>minted := n\<rparr>) i = expected_cash s i" "expected_cash (s\<lparr>review_items := v\<rparr>) i = expected_cash s i"
  by (simp_all add: expected_cash_def cash_sales_def cash_refunds_def cash_credit_payments_def drawer_flow_def counted_sale_def split: option.split)

lemma flag_overdrawn_Inr:
  assumes "ids_fresh e s" "flag_overdrawn_offline e raw r s = Inr (u, s')"
  shows "expected_cash s' i = expected_cash s i" "drawer_entries s' = drawer_entries s"
    and "length (flags overdrawn_text (de_id r) s') =
      (if expected_cash s (de_shift_id r) < 0 then max 1 (length (flags overdrawn_text (de_id r) s))
       else length (flags overdrawn_text (de_id r) s))"
proof -
  have "tx_fixes (\<lambda>s. expected_cash s i) (flag_overdrawn_offline e raw r)" "tx_fixes drawer_entries (flag_overdrawn_offline e raw r)"
    unfolding flag_overdrawn_offline_def by (intro tx_fix; simp)+
  from tx_fixesD [OF this(1) assms(2)] tx_fixesD [OF this(2) assms(2)]
  show "expected_cash s' i = expected_cash s i" "drawer_entries s' = drawer_entries s" by auto
  have "overdrawn_text \<in> set once_kinds" by (simp add: overdrawn_text_def once_kinds_def)
  from insert_review_once_fresh [OF assms(1) this, of "de_id r"] assms(2)
  show "length (flags overdrawn_text (de_id r) s') =
      (if expected_cash s (de_shift_id r) < 0 then max 1 (length (flags overdrawn_text (de_id r) s))
       else length (flags overdrawn_text (de_id r) s))"
    unfolding flag_overdrawn_offline_def overdrawn_text_def [symmetric] by (auto split: if_splits) (metis Pair_inject sum.inject(2))
qed

lemma overdrawn_refusal:
  "tx_errs (\<lambda>f. \<forall>n. f \<noteq> drawer_insufficient_cash n) (push_entry e a raw body d)"
proof -
  let ?P = "\<lambda>f. \<forall>n. f \<noteq> drawer_insufficient_cash n"
  have guard: "(\<not> b \<Longrightarrow> ?P f) \<Longrightarrow> tx_errs ?P (tx_guard b f)" for b f by (auto simp: tx_errs_def tx_guard_def)
  have ins: "tx_errs (\<lambda>x. ?P (map_entry_id_conflict i x)) (insert_drawer_entry r)" for i r
    unfolding insert_drawer_entry_def
    by (intro tx_err) (auto simp: map_entry_id_conflict_def drawer_insufficient_cash_def client_id_reused_def)
  have "tx_errs ?P (add_entry_in e a i ty n no t True)" for i ty n no t
    unfolding add_entry_in_def add_new_entry_def lock_active_def Let_def
    by (intro tx_errs_split tx_errs_bind tx_errs_map_db_err ins guard tx_errs_basic(1,2,4,6))
      (auto simp: drawer_insufficient_cash_def client_id_reused_def drawer_closed_def no_open_shift_def)
  then show ?thesis
    unfolding push_entry_def clamp_op_date_def period_mismatch_def insert_date_flag_def insert_review_item_def
      flag_overdrawn_offline_def insert_review_once_def Let_def
    by (intro tx_err) (auto simp: drawer_insufficient_cash_def)
qed

lemma entry_on_file:
  assumes "add_entry_in e a i ty n no t off s = Inr (r, s')"
  shows "r \<in> set (drawer_entries s') \<and> de_type r = ty \<and> de_amount r = n"
  using add_entry_in_Inr [OF assms] by (auto elim!: add_new_entry_Inr)

text \<open>
  C27. Cash taken out of a drawer offline has left it, so the push never refuses it for want of cash.
  The entry is on file, the till is told what the drawer is expected to hold after it, and exactly when that
  is below zero an item \<open>drawer_overdrawn_offline\<close> about the entry is up for review, one however often
  the operation comes.
\<close>

theorem offline_cash_out_flagged:
  assumes "ids_fresh e s" "db_type body = Flow_Out"
  shows "case push_entry e a raw body d s of
      Inl f \<Rightarrow> \<forall>n. f \<noteq> drawer_insufficient_cash n
    | Inr (b, s') \<Rightarrow> \<exists>r \<in> set (drawer_entries s'). de_type r = Flow_Out \<and> de_amount r = db_amount body \<and>
        b = entry_reply r (expected_cash s' (de_shift_id r)) \<and>
        length (flags ''drawer_overdrawn_offline'' (de_id r) s') =
          (if expected_cash s' (de_shift_id r) < 0 then max 1 (length (flags ''drawer_overdrawn_offline'' (de_id r) s))
           else length (flags ''drawer_overdrawn_offline'' (de_id r) s))"
proof (cases "push_entry e a raw body d s")
  case (Inl f)
  then show ?thesis using tx_errsD [OF overdrawn_refusal Inl] by simp
next
  case (Inr w)
  obtain b s' where w: "w = (b, s')" by (cases w)
  from Inr [unfolded w] obtain stored s1 r s2 where
    c: "clamp_op_date e (a_device a) raw (P_Drawer body d) d s = Inr (stored, s1)"
    and n: "add_entry_in e a (db_id body) (db_type body) (db_amount body) (db_note body) stored True s1 = Inr (r, s2)"
    and fl: "(if de_type r = Flow_Out then flag_overdrawn_offline e raw r else tx_ret ()) s2 = Inr ((), s')"
    and b: "b = entry_reply r (expected_cash s2 (de_shift_id r))" by (rule push_entry_Inr)
  note on = entry_on_file [OF n]
  let ?Q = "quiet e overdrawn_text (de_id r) (flags overdrawn_text (de_id r) s)"
  have "?Q s" using assms(1) by (simp add: quiet_def)
  then have "?Q s1" by (rule tx_keepsD [OF quiet_clamp _ c, rotated]) (simp add: overdrawn_text_def)
  then have q2: "?Q s2" by (rule tx_keepsD [OF quiet_entry _ n, rotated])
  have "flag_overdrawn_offline e raw r s2 = Inr ((), s')" using fl on assms(2) by simp
  from flag_overdrawn_Inr [OF _ this] q2 on b assms(2) w Inr show ?thesis
    by (auto simp: quiet_def overdrawn_text_def intro!: bexI [of _ r])
qed

section \<open>Documents the server already has\<close>

text \<open>What a push looks for under the id the operation names.\<close>

fun already_here :: "replay_probe \<Rightarrow> db \<Rightarrow> bool" where
  "already_here (R_Sale i _ _) s = has_key s_id i (sales s)"
| "already_here (R_Return i _ _ _) s = has_key r_id i (returns s)"
| "already_here (R_Shift i _) s = has_key sh_id i (shifts s)"
| "already_here (R_Drawer i _ _) s = has_key de_id i (drawer_entries s)"
| "already_here (R_Payment i _ _ _) s = has_key cp_id i (credit_payments s)"
| "already_here (R_Customer i) s = (case row_of c_id i (customers s) of None \<Rightarrow> False | Some c \<Rightarrow> \<not> c_deleted c)"
| "already_here (R_Void i _) s = (case row_of s_id i (sales s) of None \<Rightarrow> False | Some b \<Rightarrow> s_voided b)"

lemma row_of_not_here: "row_of k i xs = None \<longleftrightarrow> \<not> has_key k i xs"
  by (simp add: row_of_None)

lemma no_sale_on_file: "existing_sale i n off ls s = Inr (None, s') \<longleftrightarrow> row_of s_id i (sales s) = None \<and> s' = s"
  by (auto simp: existing_sale_def Let_def split: option.splits)

lemma here_row:
  "has_key s_id i (sales s) \<longleftrightarrow> row_of s_id i (sales s) \<noteq> None" "has_key r_id i (returns s) \<longleftrightarrow> row_of r_id i (returns s) \<noteq> None"
  "has_key sh_id i (shifts s) \<longleftrightarrow> row_of sh_id i (shifts s) \<noteq> None"
  "has_key de_id i (drawer_entries s) \<longleftrightarrow> row_of de_id i (drawer_entries s) \<noteq> None"
  "has_key cp_id i (credit_payments s) \<longleftrightarrow> row_of cp_id i (credit_payments s) \<noteq> None"
  by (simp_all add: row_of_None)

lemma replay_none:
  "replay_sale e raw i n no s = Inr (None, s') \<longleftrightarrow> row_of s_id i (sales s) = None \<and> s' = s"
  "replay_return e raw i sl cn ls s = Inr (None, s') \<longleftrightarrow> row_of r_id i (returns s) = None \<and> s' = s"
  "replay_shift raw i n s = Inr (None, s') \<longleftrightarrow> row_of sh_id i (shifts s) = None \<and> s' = s"
  "replay_entry raw i ty n s = Inr (None, s') \<longleftrightarrow> row_of de_id i (drawer_entries s) = None \<and> s' = s"
  "replay_payment raw i m n meth s = Inr (None, s') \<longleftrightarrow> row_of cp_id i (credit_payments s) = None \<and> s' = s"
      apply (cases n; auto simp: replay_sale_def no_sale_on_file here_row split: option.splits; fail)
     apply (cases "row_of r_id i (returns s)"; auto simp: replay_return_def Let_def; fail)
    apply (cases "row_of sh_id i (shifts s)"; auto simp: replay_shift_def; fail)
   apply (cases "row_of de_id i (drawer_entries s)"; auto simp: replay_entry_def; fail)
  apply (cases "row_of cp_id i (credit_payments s)"; auto simp: replay_payment_def; fail)
  done

lemma replay_none_read:
  "replay_customer i s = Inr (None, s') \<longleftrightarrow> \<not> already_here (R_Customer i) s \<and> s' = s"
  "replay_void i reason s = Inr (None, s') \<longleftrightarrow> \<not> already_here (R_Void i reason) s \<and> s' = s"
  by (auto simp: replay_customer_def replay_void_def split: option.splits if_splits)

lemma replay_finds:
  assumes "replay_probe_of raw = Some pr"
  shows "check_client_id_replay e raw s = Inr (None, s') \<longleftrightarrow> \<not> already_here pr s \<and> s' = s"
  using assms by (cases pr) (simp_all add: check_client_id_replay_def replay_none replay_none_read here_row del: already_here.simps(6,7))

text \<open>Everything but the keys, the notices for review and the counter of ids.\<close>

definition books :: "db \<Rightarrow> db" where
  "books s = s\<lparr>idem_keys := [], review_items := [], minted := 0, hooks := []\<rparr>"

lemma books_simps [simp]:
  "books (s\<lparr>idem_keys := ks\<rparr>) = books s" "books (s\<lparr>review_items := v\<rparr>) = books s" "books (s\<lparr>minted := n\<rparr>) = books s"
  "books (s\<lparr>hooks := hs\<rparr>) = books s"
  by (simp_all add: books_def)

lemma books_tables:
  assumes "books s = books s'"
  shows "sales s = sales s'" "returns s = returns s'" "shifts s = shifts s'" "drawer_entries s = drawer_entries s'"
    "credit_payments s = credit_payments s'" "customers s = customers s'"
  using arg_cong [OF assms, of sales] arg_cong [OF assms, of returns] arg_cong [OF assms, of shifts]
    arg_cong [OF assms, of drawer_entries] arg_cong [OF assms, of credit_payments] arg_cong [OF assms, of customers]
  by (simp_all add: books_def)

lemma here_by_books: "books s = books s' \<Longrightarrow> already_here pr s = already_here pr s'"
  by (cases pr) (simp_all add: books_tables [of s s'])

lemma claim_fixes_books: "tx_fixes books (claim e locked cached p)"
  unfolding claim_def insert_claim_def Let_def
  by (rule tx_fixesI) (auto split: if_splits option.splits)

lemma complete_fixes_books: "tx_fixes books (complete jb k code body)"
  unfolding complete_def by (intro tx_fix; simp)

lemma after_claim_known:
  assumes "replay_probe_of raw = Some pr" "already_here pr s" "after_claim x e a raw s = Inr (b, s')"
  shows "books s' = books s"
proof -
  from assms(3) obtain rep s1 where c: "check_client_id_replay e raw s = Inr (rep, s1)"
    and rest: "(case rep of Some body \<Rightarrow> tx_ret body
      | None \<Rightarrow> tx_bind (tx_lift (parse_op_payload x raw)) (\<lambda>p. execute_op e a raw p)) s1 = Inr (b, s')"
    by (auto simp: after_claim_def)
  have "rep \<noteq> None" using replay_finds [OF assms(1), of e s s1] c assms(2) by (cases rep) auto
  then have "s' = s1" using rest by (auto split: option.splits)
  moreover have "tx_fixes books (check_client_id_replay e raw)" by (rule tx_fixes_check_replay) simp_all
  from tx_fixesD [OF this c] have "books s1 = books s" .
  ultimately show ?thesis by simp
qed

lemma single_op_known:
  assumes "replay_probe_of raw = Some pr" "already_here pr s" "single_op_in x e locked cached a raw s = Inr (b, s')"
  shows "books s' = books s"
proof -
  from assms(3) obtain c w s1 where cl: "claim e locked cached (op_params x raw) s = Inr ((c, w), s1)"
    and rest: "(case c of
       Replay code body \<Rightarrow> tx_ret body
     | Reused \<Rightarrow>
         tx_bind (replay_key_of_same_document e raw) (\<lambda>own.
         case own of
           Some body \<Rightarrow> tx_ret body
         | None \<Rightarrow> tx_bind (tx_lift (parse_op_payload x raw)) (\<lambda>_. tx_throw key_reused))
     | Claimed \<Rightarrow>
         tx_bind (after_claim x e a raw) (\<lambda>body.
         tx_bind (complete (x_jsonb x) (op_key raw) (snd (endpoint_for_op raw)) body) (\<lambda>_. tx_ret body))) s1 = Inr (b, s')"
    by (auto simp: single_op_in_def)
  have s1: "books s1 = books s" using tx_fixesD [OF claim_fixes_books cl] .
  show ?thesis
  proof (cases c)
    case Claimed
    then obtain s2 where "after_claim x e a raw s1 = Inr (b, s2)"
      "complete (x_jsonb x) (op_key raw) (snd (endpoint_for_op raw)) b s2 = Inr ((), s')" using rest by auto
    with after_claim_known [OF assms(1), of s1] here_by_books [OF s1] assms(2) tx_fixesD [OF complete_fixes_books] s1
    show ?thesis by metis
  next
    case Reused
    have "tx_fixes books (replay_key_of_same_document e raw)" by (rule tx_fixes_replay_key) simp_all
    with Reused rest s1 show ?thesis by (auto split: option.splits dest: tx_fixesD)
  qed (use rest s1 in auto)
qed

text \<open>
  C10. A document is never made a second time by a push. When the server already has the document an
  operation would make, under the id the till gave it (the bill, the credit note, the drawer, the
  drawer's entry, the payment or the customer, or the bill is already voided), then
  whatever key the operation comes under and whatever it is answered, the push leaves every table as it was
  but the idempotency keys and the notices for review.
\<close>

theorem document_made_once:
  assumes "replay_probe_of raw = Some pr" "already_here pr s" "push_op x a r raw (s, c) = (res, s', c')"
  shows "books s' = books s"
proof -
  have h: "books (s\<lparr>hooks := []\<rparr>) = books s" by simp
  have "already_here pr (s\<lparr>hooks := []\<rparr>)" using here_by_books [OF h] assms(2) by simp
  from single_op_known [OF assms(1) this] assms(3) show ?thesis
    by (auto simp: push_op_def Let_def run_tx_def split: sum.splits prod.splits if_splits)
qed

fun kind_of_probe :: "replay_probe \<Rightarrow> sync_type" where
  "kind_of_probe (R_Sale _ _ _) = Sale_Create"
| "kind_of_probe (R_Return _ _ _ _) = Return_Create"
| "kind_of_probe (R_Shift _ _) = Shift_Open"
| "kind_of_probe (R_Drawer _ _ _) = Drawer_Entry"
| "kind_of_probe (R_Payment _ _ _ _) = Credit_Payment_Create"
| "kind_of_probe (R_Customer _) = Customer_Create"
| "kind_of_probe (R_Void _ _) = Sale_Void_Offline"

lemma probe_kind: "replay_probe_of raw = Some pr \<Longrightarrow> op_type raw = kind_of_probe pr"
  by (auto simp: replay_probe_of_def Let_def split: option.splits sync_type.splits)

lemma voided_bill:
  assumes "distinct (map s_id (sales s))"
  shows "list_ex (\<lambda>b. s_id b = i \<and> s_voided b) (sales s) \<longleftrightarrow> already_here (R_Void i w) s"
proof (cases "row_of s_id i (sales s)")
  case None
  then have "\<forall>b \<in> set (sales s). s_id b \<noteq> i" by (auto simp: row_of_None has_key_def)
  then show ?thesis using None by (auto simp: list_ex_iff)
next
  case (Some b)
  then have "\<forall>q \<in> set (sales s). s_id q = i \<longrightarrow> q = b" using assms row_of_SomeD [OF Some]
    by (auto simp: distinct_map inj_on_def)
  with Some row_of_SomeD [OF Some] show ?thesis by (auto simp: list_ex_iff)
qed

lemma has_customer:
  assumes "\<forall>c \<in> set (customers s). c_id c = i \<longrightarrow> \<not> c_deleted c"
  shows "has_key c_id i (customers s) \<longleftrightarrow> already_here (R_Customer i) s"
proof (cases "row_of c_id i (customers s)")
  case None
  then have "\<not> has_key c_id i (customers s)" by (simp add: row_of_None)
  then show ?thesis unfolding already_here.simps None option.case by blast
next
  case (Some c)
  then show ?thesis using assms row_of_SomeD [OF Some] by (simp add: row_of_Some_has_key)
qed

text \<open>
  C28. What a discard is told is what a push would find: for a bill, a credit note, a drawer, an entry, a payment
  or a void, \<open>serverHasRow\<close> holds exactly when the push of that operation would be answered from
  the server's row instead of being executed (for a customer only while it is not deleted).
\<close>

theorem discard_told_what_push_finds:
  assumes "replay_probe_of raw = Some pr" "distinct (map s_id (sales s))"
    and "\<forall>c \<in> set (customers s). c_id c = probe_id pr \<longrightarrow> \<not> c_deleted c"
  shows "server_has_row (sync_type_text (op_type raw)) (probe_id pr) s \<longleftrightarrow>
    (\<forall>s'. check_client_id_replay e raw s \<noteq> Inr (None, s'))"
proof -
  have "server_has_row (sync_type_text (op_type raw)) (probe_id pr) s \<longleftrightarrow> already_here pr s"
    using has_customer [OF assms(3)] voided_bill [OF assms(2)]
    by (cases pr) (simp_all add: probe_kind [OF assms(1)] server_has_row_def starts_with_def void_text_def del: already_here.simps(6,7))
  then show ?thesis using replay_finds [OF assms(1)] by simp
qed

lemma tx_errs_iter: "(\<And>v. v \<in> set vs \<Longrightarrow> tx_errs P (f v)) \<Longrightarrow> tx_errs P (tx_iter f vs)"
  by (induction vs) (auto intro!: tx_err)

lemma taken_customer:
  assumes "cc_id body = Some i" "has_key c_id i (customers s)"
  shows "\<exists>code what. customer_create_in e body s = Inl (DbErr code what) \<and> code \<noteq> ''22P02''"
proof -
  have big: "tx_errs (\<lambda>f. f = DbErr ''22003'' []) (next_code p codes)" for p codes
    unfolding next_code_def int4_def by (intro tx_err tx_errs_iter) simp
  have read: "tx_fixes id (next_code p codes)" for p codes
    unfolding next_code_def by (intro tx_fix)
  show ?thesis
  proof (cases "next_code ''CUS'' (\<lambda>s. map c_code (customers s)) s")
    case (Inl f)
    then show ?thesis using tx_errsD [OF big Inl] by (simp add: customer_create_in_def tx_bind_def)
  next
    case (Inr w)
    obtain code s1 where w: "w = (code, s1)" by (cases w)
    have "s1 = s" using tx_fixesD [OF read Inr [unfolded w]] by simp
    then show ?thesis using Inr w assms
      by (simp add: customer_create_in_def tx_bind_def [of "next_code _ _"] Let_def insert_customer_def constraint_defs tx_bind_Inl_run)
  qed
qed

text \<open>
  C37. A customer taken off the list while a till still has the customer's first push in its outbox stops that
  outbox: a push of the customer under a key the server does not have on file is looked for among the customers, not
  found there because the replay skips deleted ones, meets the old row's primary key on the insert, and is
  answered with a retry, in any run of the server, until the till discards it. (Under a key that is on file the push is
  answered from the record, C9, or refused as a key reused.)
\<close>

theorem deleted_customer_stops_outbox:
  assumes "parse_op_payload x raw = Inr (P_Customer body)" "cc_id body = Some i" "replay_probe_of raw = Some (R_Customer i)"
    and "row_of c_id i (customers s) = Some q" "c_deleted q" "row_of ik_key (op_key raw) (idem_keys s) = None"
  shows "push_op x a r raw (s, c) = (Retry (op_id raw), s, c)"
proof -
  let ?p = "op_params x raw" and ?s = "s\<lparr>hooks := []\<rparr>"
  let ?t = "?s\<lparr>idem_keys := idem_keys s @ [new_claim (run_env r) ?p]\<rparr>"
  have none: "row_of ik_key (ip_key ?p) (idem_keys ?s) = None" "row_of ik_key (ip_key ?p) (idem_keys s) = None"
    using assms(6) by simp_all
  have "has_key c_id i (customers ?t)" using assms(4) row_of_Some_has_key by simp
  from taken_customer [OF assms(2) this, of "run_env r"] obtain code what
    where no: "customer_create_in (run_env r) body ?t = Inl (DbErr code what)" "code \<noteq> ''22P02''" by blast
  have "check_client_id_replay (run_env r) raw ?t = Inr (None, ?t)"
    using replay_finds [OF assms(3)] assms(4,5) by simp
  then have "after_claim x (run_env r) a raw ?t = Inl (DbErr code what)"
    using no(1) assms(1) by (simp add: after_claim_def tx_bind_def)
  then have "\<exists>f. single_op_in x (run_env r) (run_locked r) cached a raw ?s = Inl f \<and>
      (f = key_in_flight \<or> f = DbErr code what)" for cached
    using claim_fresh [OF none(1), of "run_env r" "run_locked r" cached] by (simp add: single_op_in_def tx_bind_def)
  then obtain f where f: "single_op_in x (run_env r) (run_locked r) (read_cache (run_read_ok r) c (op_key raw)) a raw ?s = Inl f"
    "f = key_in_flight \<or> f = DbErr code what" by blast
  have "told (run_env r) (run_locked r) cached ?p s = None" for cached
    using claim_fresh [OF none(2), of "run_env r" "run_locked r" cached] by (simp add: told_def)
  moreover have "map_op_error raw p f = Retry (op_id raw)" for p
    using f(2) no(2) by (auto simp: map_op_error_def key_in_flight_def)
  ultimately show ?thesis using f(1)
    by (simp add: push_op_def Let_def run_tx_def write_cache_def)
qed

section \<open>Samples\<close>

lemma sample_ids_fresh: "review_items s = [] \<Longrightarrow> ids_fresh sample_env s"
  by (auto simp: ids_fresh_def sample_env_def)

definition shop_bill :: create_sale where "shop_bill = create_sale.truncate sample_bill"

lemma shop_bill_runs: "\<exists>r s'. create_in sample_env (offline_sale shop_bill (Some 1000)) sample_actor sample_shop = Inr (r, s')"
  by (simp add: sale_defs sample_bill_def sample_actor_def sample_shop_def sample_totals Let_def shop_bill_def offline_sale_def
      create_sale.defs sale_write.defs is_open_def is_current_def MAX_DOC_NO_def points_for_exact INT4_MAX_def
      record_override_def insert_audit_def)

lemma device_date_in_window_witness:
  "\<exists>s'. clamp_op_date sample_env ''d'' queued_customer (P_Void ''b'' []) (Some 1000000) sample_shop = Inr (Some 1000, s') \<and>
     length (flags ''date_flag'' ''b'' s') = 1"
proof -
  have "\<exists>s'. clamp_op_date sample_env ''d'' queued_customer (P_Void ''b'' []) (Some 1000000) sample_shop = Inr (Some 1000, s')"
    by (simp add: clamp_op_date_def period_mismatch_def well_formed_doc_no_def clamped_date_def DATE_TOLERANCE_MS_def sample_env_def
        sample_shop_def js_opt_def Let_def insert_date_flag_def insert_review_item_def constraint_defs)
  then obtain s' where run: "clamp_op_date sample_env ''d'' queued_customer (P_Void ''b'' []) (Some 1000000) sample_shop = Inr (Some 1000, s')"
    by blast
  have "opened_at ''d'' sample_shop = Some 1" "flags k r sample_shop = []" for k r
    by (simp_all add: opened_at_def sample_shop_def is_open_def is_current_def flags_def)
  with device_date_in_window [OF run] show ?thesis
    by (intro exI [of _ s'] conjI run) (simp add: DATE_TOLERANCE_MS_def sample_env_def ref_of_def)
qed

lemma shop_quote_sold:
  "\<exists>body s'. push_sale sample_env sample_actor queued_customer shop_bill (Some ''q'') (Some 1000) sample_shop = Inr (body, s')"
proof -
  have c: "clamp_op_date sample_env (a_device sample_actor) queued_customer (P_Sale shop_bill (Some ''q'') (Some 1000)) (Some 1000) sample_shop
      = Inr (Some 1000, sample_shop)"
    by (simp add: clamp_op_date_def period_mismatch_def well_formed_doc_no_def clamped_date_def DATE_TOLERANCE_MS_def sample_env_def
        sample_shop_def sample_actor_def is_open_def is_current_def shop_bill_def sample_bill_def create_sale.defs js_opt_def Let_def)
  obtain r s' where w: "create_in sample_env (offline_sale shop_bill (Some 1000)) sample_actor sample_shop = Inr (r, s')"
    using shop_bill_runs by blast
  have "quiet sample_env ''quote_conflict'' [] [] sample_shop"
    by (simp add: quiet_def sample_ids_fresh flags_def sample_shop_def)
  from tx_keepsD [OF quiet_create_in this w] have "ids_fresh sample_env s'" by (simp add: quiet_def)
  from settle_quote_runs [OF this, of queued_customer "''q''" r Lock_Missing] obtain t where
    "settle_offline_quote sample_env queued_customer ''q'' r Lock_Missing s' = Inr ((), t)" by blast
  with c w show ?thesis
    by (simp add: push_sale_def tx_bind_def lock_and_classify_def sample_shop_def)
qed

lemma offline_sale_settles_quote_witness:
  "\<exists>body s'. push_sale sample_env sample_actor queued_customer shop_bill (Some ''q'') (Some 1000) sample_shop = Inr (body, s') \<and>
     has_key s_id ''b'' (sales s') \<and> length (flags ''quote_conflict'' ''b'' s') = 1"
proof -
  have f: "ids_fresh sample_env sample_shop" by (rule sample_ids_fresh) (simp add: sample_shop_def)
  obtain body s' where run: "push_sale sample_env sample_actor queued_customer shop_bill (Some ''q'') (Some 1000) sample_shop = Inr (body, s')"
    using shop_quote_sold by blast
  have b: "sp_id shop_bill = ''b''" by (simp add: shop_bill_def sample_bill_def create_sale.defs)
  from offline_sale_settles_quote [OF f, of sample_actor queued_customer shop_bill "''q''" "Some 1000"] run
  show ?thesis unfolding b by (auto simp: lock_and_classify_def sample_shop_def flags_def)
qed


definition cash_out :: drawer_entry_body where
  "cash_out = \<lparr>db_id = None, db_type = Flow_Out, db_amount = 70000, db_note = None\<rparr>"

lemma offline_cash_out_flagged_witness:
  "\<exists>b s' r. push_entry sample_env sample_actor queued_customer cash_out None sample_shop = Inr (b, s') \<and>
     r \<in> set (drawer_entries s') \<and> de_amount r = 70000 \<and>
     length (flags ''drawer_overdrawn_offline'' (de_id r) s') = (if expected_cash s' (de_shift_id r) < 0 then 1 else 0)"
proof -
  have f: "ids_fresh sample_env sample_shop" by (rule sample_ids_fresh) (simp add: sample_shop_def)
  have o: "db_type cash_out = Flow_Out" by (simp add: cash_out_def)
  have c: "clamp_op_date sample_env (a_device sample_actor) queued_customer (P_Drawer cash_out None) None sample_shop = Inr (None, sample_shop)"
    by (simp add: clamp_op_date_def period_mismatch_def well_formed_doc_no_def clamped_date_def js_opt_def Let_def)
  have "\<exists>r s'. add_entry_in sample_env sample_actor None Flow_Out 70000 None None True sample_shop = Inr (r, s')"
    by (simp add: sample_actor_def sample_shop_def add_entry_in_def add_new_entry_def lock_active_def is_current_def
        insert_drawer_entry_def constraint_defs map_db_err_def fresh_id_def Let_def)
  then obtain r t where n: "add_entry_in sample_env sample_actor None Flow_Out 70000 None None True sample_shop = Inr (r, t)" by blast
  have "quiet sample_env overdrawn_text [] [] sample_shop" using f by (simp add: quiet_def flags_def sample_shop_def)
  from tx_keepsD [OF quiet_entry this n] have "ids_fresh sample_env t" by (simp add: quiet_def)
  from insert_review_once_fresh [OF this, of "''drawer_overdrawn_offline''" "de_id r"]
  have "\<exists>v s'. flag_overdrawn_offline sample_env queued_customer r t = Inr (v, s')"
    by (simp add: flag_overdrawn_offline_def once_kinds_def) blast
  with c n have "\<exists>b s'. push_entry sample_env sample_actor queued_customer cash_out None sample_shop = Inr (b, s')"
    by (cases "de_type r") (auto simp: push_entry_def cash_out_def tx_bind_def)
  then obtain b s' where run: "push_entry sample_env sample_actor queued_customer cash_out None sample_shop = Inr (b, s')" by blast
  have "flags k r sample_shop = []" for k r by (simp add: sample_shop_def flags_def)
  with offline_cash_out_flagged [OF f o, of sample_actor queued_customer None] run show ?thesis
    by (auto simp: cash_out_def intro!: exI [of _ b] exI [of _ s'])
qed

lemma queued_customer_probe: "replay_probe_of queued_customer = Some (R_Customer sample_op_id)"
  by (rule queued_customer_parsed)

definition one_customer :: "bool \<Rightarrow> db" where
  "one_customer gone = blank_db\<lparr>customers := [\<lparr>c_id = sample_op_id, c_points = 0, c_total_spend = 0, c_code = ''CUS001'', c_name = ''A'',
     c_name_th = ''A'', c_phone = None, c_address = None, c_deleted = gone\<rparr>]\<rparr>"

lemma document_made_once_witness:
  "\<exists>res s' c'. push_op sample_outside sample_actor calm_run queued_customer (one_customer False, Map.empty) = (res, s', c') \<and>
     books s' = books (one_customer False)"
  using document_made_once [OF queued_customer_probe, of "one_customer False" sample_outside sample_actor calm_run Map.empty]
  by (cases "push_op sample_outside sample_actor calm_run queued_customer (one_customer False, Map.empty)") (simp add: one_customer_def)

lemma discard_told_what_push_finds_witness:
  "server_has_row ''customer.create'' sample_op_id (one_customer False) \<longleftrightarrow>
    (\<forall>s'. check_client_id_replay sample_env queued_customer (one_customer False) \<noteq> Inr (None, s'))"
  using discard_told_what_push_finds [OF queued_customer_probe, of "one_customer False" sample_env]
  by (simp add: one_customer_def queued_customer_def)

lemma deleted_customer_stops_outbox_witness:
  "push_op sample_outside sample_actor calm_run queued_customer (one_customer True, Map.empty) =
     (Retry sample_op_id, one_customer True, Map.empty)"
  using deleted_customer_stops_outbox [OF queued_customer_parsed(1) _ queued_customer_probe,
      of "one_customer True" _ sample_actor calm_run Map.empty]
  by (simp add: one_customer_def queued_customer_def)

end
