(* ===== verification/Passwords.thy ===== *)
theory Passwords
  imports Schema
begin

text \<open>
  Owner passwords (\<open>common/password.ts\<close>, \<open>common/common-passwords.ts\<close>): what a chosen password must
  satisfy, the check of one against a stored hash, and the temporary password the server makes. Argon2 and
  PBKDF2, the Unicode tables behind \<open>normalize('NFC')\<close> and \<open>toLowerCase\<close>, and the random numbers are
  parameters. Strings are their UTF-8 bytes; the length JavaScript sees is computed from them.
\<close>

section \<open>Length\<close>

text \<open>UTF-16 code units: one for each lead byte, two where the character takes four bytes.\<close>

definition code_units :: "char \<Rightarrow> nat" where
  "code_units c = (let b = (of_char c :: nat) in if b < 128 then 1 else if b < 192 then 0 else if b < 240 then 1 else 2)"

definition js_length :: "string \<Rightarrow> nat" where
  "js_length s = sum_list (map code_units s)"

section \<open>Policy\<close>

definition MIN_PASSWORD_LENGTH :: nat where "MIN_PASSWORD_LENGTH = 12"
definition MAX_PASSWORD_LENGTH :: nat where "MAX_PASSWORD_LENGTH = 128"

datatype violation = Required | Too_Short | Too_Long | Common | Same_As_Temp

fun violation_text :: "violation \<Rightarrow> string" where
  "violation_text Required = ''required''"
| "violation_text Too_Short = ''too_short''"
| "violation_text Too_Long = ''too_long''"
| "violation_text Common = ''common''"
| "violation_text Same_As_Temp = ''same_as_temp''"

definition password_policy_violation :: "jsval \<Rightarrow> violation option" where
  "password_policy_violation v =
     (case v of
        JStr p \<Rightarrow> if trim p = [] then Some Required
                  else if js_length p < MIN_PASSWORD_LENGTH then Some Too_Short else None
      | _ \<Rightarrow> Some Required)"

record unicode =
  un_nfc :: "string \<Rightarrow> string"
  un_lower :: "string \<Rightarrow> string"

definition COMMON_PASSWORDS :: "string list" where
  "COMMON_PASSWORDS = [''masterbating'', ''unbelievable'', ''businessbabe'', ''contortionist'', ''masterbaiting'',
     ''masturbation'', ''pornographic'', ''scandinavian'', ''films+pic+galeries'', ''motherfucker'']"

text \<open>The shop's name in Thai, by its bytes.\<close>

definition SHOP_WORDS :: "string list" where
  "SHOP_WORDS = [''srisurart'', ''srisurat'',
     map char_of [224, 184, 168, 224, 184, 163, 224, 184, 181, 224, 184, 170, 224, 184, 184, 224, 184, 163, 224, 184, 177, 224, 184, 149::nat]]"

definition squashed :: "string \<Rightarrow> string" where
  "squashed s = filter (\<lambda>c. \<not> (is_space c \<or> c = CHR ''-'' \<or> c = CHR ''_'' \<or> c = CHR ''.'')) s"

fun contains_word :: "string \<Rightarrow> string \<Rightarrow> bool" where
  "contains_word w s = (take (length w) s = w \<or> (case s of [] \<Rightarrow> False | _ # t \<Rightarrow> contains_word w t))"

declare contains_word.simps [simp del]

definition is_common_password :: "unicode \<Rightarrow> string \<Rightarrow> bool" where
  "is_common_password u p =
     (let lower = un_lower u (un_nfc u p) in
      lower \<in> set COMMON_PASSWORDS \<or> list_ex (\<lambda>w. contains_word w (squashed lower)) SHOP_WORDS)"

definition chosen_password_violation :: "unicode \<Rightarrow> jsval \<Rightarrow> violation option" where
  "chosen_password_violation u v =
     (case v of
        JStr p \<Rightarrow>
          (let n = un_nfc u p in
           case password_policy_violation (JStr n) of
             Some w \<Rightarrow> Some w
           | None \<Rightarrow>
               if MAX_PASSWORD_LENGTH < js_length n then Some Too_Long
               else if is_common_password u n then Some Common else None)
      | _ \<Rightarrow> Some Required)"

section \<open>Checking a password\<close>

text \<open>
  \<open>argon hash password\<close> is what \<open>argon2.verify\<close> answers (none when it throws), \<open>pbkdf2 password salt\<close> the
  64 bytes of the old derivation, \<open>from_hex\<close> what \<open>Buffer.from(text, 'hex')\<close> makes of a text.
\<close>

record hashing =
  ha_argon :: "string \<Rightarrow> string \<Rightarrow> bool option"
  ha_pbkdf2 :: "string \<Rightarrow> string \<Rightarrow> nat list"
  ha_from_hex :: "string \<Rightarrow> nat list"
  ha_hash :: "string \<Rightarrow> string"

fun split_at :: "char \<Rightarrow> string \<Rightarrow> string list" where
  "split_at d [] = [[]]"
| "split_at d (c # cs) = (if c = d then [] # split_at d cs else (case split_at d cs of [] \<Rightarrow> [[c]] | w # ws \<Rightarrow> (c # w) # ws))"

definition verify_password :: "hashing \<Rightarrow> string \<Rightarrow> string \<Rightarrow> bool" where
  "verify_password h p stored =
     (if take 7 stored = ''$argon2'' then (case ha_argon h stored p of None \<Rightarrow> False | Some b \<Rightarrow> b)
      else case split_at (CHR '':'') stored of
        [salt, hash] \<Rightarrow> ha_from_hex h hash = ha_pbkdf2 h p salt
      | _ \<Rightarrow> False)"

section \<open>The temporary password\<close>

definition TEMP_PASSWORD_ALPHABET :: string where
  "TEMP_PASSWORD_ALPHABET = ''ABCDEFGHJKLMNPQRSTUVWXYZabcdefghijkmnopqrstuvwxyz23456789''"

definition TEMP_PASSWORD_LENGTH :: nat where "TEMP_PASSWORD_LENGTH = 16"

text \<open>\<open>roll i\<close> is the i-th \<open>randomInt(alphabet.length)\<close>.\<close>

definition generate_temp_password :: "(nat \<Rightarrow> nat) \<Rightarrow> string" where
  "generate_temp_password roll = map (\<lambda>i. TEMP_PASSWORD_ALPHABET ! roll i) [0..<TEMP_PASSWORD_LENGTH]"

lemma alphabet_letters:
  assumes "c \<in> set TEMP_PASSWORD_ALPHABET"
  shows "\<not> is_space c" "code_units c = 1" "c \<notin> set ''0O1lI''"
proof -
  have "list_all (\<lambda>c. \<not> is_space c \<and> code_units c = 1 \<and> c \<notin> set ''0O1lI'') TEMP_PASSWORD_ALPHABET"
    by code_simp
  then show "\<not> is_space c" "code_units c = 1" "c \<notin> set ''0O1lI''" using assms by (auto simp: list_all_iff)
qed

lemma alphabet_size: "length TEMP_PASSWORD_ALPHABET = 57"
  by code_simp

lemma trim_nonblank: "s \<noteq> [] \<Longrightarrow> \<forall>c \<in> set s. \<not> is_space c \<Longrightarrow> trim s = s"
proof -
  assume a: "s \<noteq> []" "\<forall>c \<in> set s. \<not> is_space c"
  have same: "dropWhile is_space t = t" if "\<forall>c \<in> set t. \<not> is_space c" for t
    using that by (cases t) auto
  show "trim s = s" using same [of s] same [of "rev s"] a(2) by (simp add: trim_def)
qed

lemma js_length_ascii: "\<forall>c \<in> set s. code_units c = 1 \<Longrightarrow> js_length s = length s"
  by (induction s) (auto simp: js_length_def)

text \<open>
  A temporary password the server makes, whatever the random numbers, has sixteen characters of the alphabet
  without the ones that are confused when read aloud, and passes the floor every owner password must
  pass.
\<close>

theorem temp_password_acceptable:
  assumes "\<forall>i. roll i < length TEMP_PASSWORD_ALPHABET"
  shows "length (generate_temp_password roll) = 16 \<and> set (generate_temp_password roll) \<inter> set ''0O1lI'' = {} \<and>
    password_policy_violation (JStr (generate_temp_password roll)) = None"
proof -
  let ?p = "generate_temp_password roll"
  have len: "length ?p = 16" by (simp add: generate_temp_password_def TEMP_PASSWORD_LENGTH_def)
  have sub: "set ?p \<subseteq> set TEMP_PASSWORD_ALPHABET" using assms by (auto simp: generate_temp_password_def)
  then have "trim ?p = ?p" using alphabet_letters(1) len by (intro trim_nonblank) auto
  moreover have "js_length ?p = 16" using js_length_ascii [of ?p] sub alphabet_letters(2) len by auto
  moreover have "?p \<noteq> []" using len by auto
  ultimately show ?thesis
    using len sub alphabet_letters(3) by (auto simp: password_policy_violation_def MIN_PASSWORD_LENGTH_def)
qed

theorem temp_password_acceptable_witness:
  "length (generate_temp_password (\<lambda>i. i mod 57)) = 16 \<and>
    password_policy_violation (JStr (generate_temp_password (\<lambda>i. i mod 57))) = None"
  using temp_password_acceptable [of "\<lambda>i. i mod 57"] by (simp add: alphabet_size)

end
