(* ===== verification/Devices.thy ===== *)
theory Devices
  imports Passwords Shifts
begin

text \<open>
  The devices of a shop (\<open>devices/devices.service.ts\<close>, \<open>devices/devices.controller.ts\<close>): a device gets the next
  number and a code to enrol with, and is retired together with its drawer. The code's four random bytes
  and SHA-256 are parameters.
\<close>

section \<open>Requests\<close>

definition LABEL_MAX_LENGTH :: nat where "LABEL_MAX_LENGTH = 100"

definition device_role_of :: "jsval \<Rightarrow> device_role option" where
  "device_role_of v = (if v = JStr ''pos'' then Some Pos_Device else if v = JStr ''backoffice'' then Some Backoffice_Device else None)"

definition require_enrolled_device :: "uuid option \<Rightarrow> err + uuid" where
  "require_enrolled_device dev = (case dev of None \<Rightarrow> Inl device_role_forbidden
     | Some d \<Rightarrow> if d = [] then Inl device_role_forbidden else Inr d)"

definition parse_create_device :: "uuid option \<Rightarrow> jsval \<Rightarrow> err + uuid \<times> string \<times> device_role" where
  "parse_create_device dev body =
     e_bind (require_enrolled_device dev) (\<lambda>d.
     e_bind (as_object body ''body'') (\<lambda>b.
     e_bind (case get_prop b ''label'' of JStr l \<Rightarrow> if trim l = [] then Inl (bad_request ''label'') else Inr (trim l)
             | _ \<Rightarrow> Inl (bad_request ''label'')) (\<lambda>l.
     if LABEL_MAX_LENGTH < js_length l then Inl (bad_request ''label'')
     else case device_role_of (get_prop b ''role'') of
       None \<Rightarrow> Inl (bad_request ''role'')
     | Some r \<Rightarrow> Inr (d, l, r))))"

record retire_request =
  rq_cash :: "int option"
  rq_force :: bool
  rq_note :: "string option"

definition parse_retire_device :: "uuid option \<Rightarrow> jsval \<Rightarrow> err + uuid \<times> retire_request" where
  "parse_retire_device dev body =
     e_bind (require_enrolled_device dev) (\<lambda>d.
     e_bind (if body = JUndef \<or> body = JNull then Inr [] else as_object body ''body'') (\<lambda>b.
     e_bind (let v = get_prop b ''physicalCash'' in
             if v = JUndef \<or> v = JNull \<or> v = JStr [] then Inr None
             else e_bind (to_satang v ''physicalCash'') (\<lambda>n. if n < 0 then Inl (bad_request ''physicalCash'') else Inr (Some n))) (\<lambda>cash.
     e_bind (case get_prop b ''force'' of JUndef \<Rightarrow> Inr False | JBool f \<Rightarrow> Inr f | _ \<Rightarrow> Inl (bad_request ''force'')) (\<lambda>force.
     if \<not> force then Inr (d, \<lparr>rq_cash = cash, rq_force = False, rq_note = None\<rparr>)
     else case get_prop b ''note'' of
       JStr t \<Rightarrow> if trim t = [] then Inl (bad_request ''note'')
                 else Inr (d, \<lparr>rq_cash = cash, rq_force = True, rq_note = Some (trim t)\<rparr>)
     | _ \<Rightarrow> Inl (bad_request ''note'')))))"

section \<open>Answers\<close>

record device_view =
  dv_id :: uuid
  dv_label :: string
  dv_no :: nat
  dv_role :: device_role
  dv_retired_at :: "int option"
  dv_enrolled :: bool
  dv_enrol_expires_at :: "int option"
  dv_last_seen_at :: "int option"
  dv_unsynced_ops :: int
  dv_unsynced_reported_at :: "int option"

definition to_device :: "env \<Rightarrow> device \<Rightarrow> device_view" where
  "to_device e d = \<lparr>dv_id = d_id d, dv_label = d_label d, dv_no = d_no d, dv_role = d_role d, dv_retired_at = d_retired_at d,
     dv_enrolled = (d_token_hash d \<noteq> None),
     dv_enrol_expires_at = (case d_enrol_expires_at d of None \<Rightarrow> None | Some t \<Rightarrow> if now e < t then Some t else None),
     dv_last_seen_at = d_last_seen_at d, dv_unsynced_ops = d_unsynced_ops d, dv_unsynced_reported_at = d_unsynced_reported_at d\<rparr>"

definition list_devices :: "env \<Rightarrow> device_view list op" where
  "list_devices e = tx_get (\<lambda>s. map (to_device e) (sort_key d_no (devices s)))"

section \<open>A new device\<close>

definition MAX_DEVICE_NO :: nat where "MAX_DEVICE_NO = 99"
definition ENROL_CODE_TTL_MINUTES :: int where "ENROL_CODE_TTL_MINUTES = 15"

definition pos_device_exists :: "uuid option \<Rightarrow> err" where
  "pos_device_exists i = HttpErr 409 ''POS_DEVICE_EXISTS'' (DeviceRef i)"

definition live_pos :: "device \<Rightarrow> bool" where
  "live_pos d \<longleftrightarrow> d_role d = Pos_Device \<and> \<not> d_retired d"

definition highest_no :: "device list \<Rightarrow> nat" where
  "highest_no ds = foldr (\<lambda>d n. max (d_no d) n) ds 0"

definition insert_device :: "device \<Rightarrow> unit op" where
  "insert_device r =
     tx_bind (check (1 \<le> d_no r \<and> d_no r \<le> 99) ''devices_device_no_check'') (\<lambda>_.
     tx_bind (tx_get devices) (\<lambda>ds.
     tx_bind (unique (\<not> has_key d_id (d_id r) ds) ''devices_pkey'') (\<lambda>_.
     tx_bind (unique (\<not> has_key d_no (d_no r) ds) ''devices_tenant_id_device_no_key'') (\<lambda>_.
     tx_bind (unique (\<not> (live_pos r \<and> list_ex live_pos ds)) ''one_pos_per_tenant'') (\<lambda>_.
     tx_modify (\<lambda>s. s\<lparr>devices := devices s @ [r]\<rparr>))))))"

definition pos_clash :: "err \<Rightarrow> err" where
  "pos_clash f = (if f = DbErr ''23505'' ''one_pos_per_tenant'' then pos_device_exists None else f)"

definition role_text :: "device_role \<Rightarrow> string" where
  "role_text r = (case r of Pos_Device \<Rightarrow> ''pos'' | Backoffice_Device \<Rightarrow> ''backoffice'')"

definition create_device_in :: "env \<Rightarrow> (string \<Rightarrow> string) \<Rightarrow> string \<Rightarrow> actor \<Rightarrow> string \<Rightarrow> device_role \<Rightarrow> (device_view \<times> string) op" where
  "create_device_in e sha code a label role =
     tx_bind (tx_get devices) (\<lambda>ds.
     tx_bind (case (if role = Pos_Device then find live_pos ds else None) of
                Some d \<Rightarrow> tx_throw (pos_device_exists (Some (d_id d))) | None \<Rightarrow> tx_ret ()) (\<lambda>_.
     let no = highest_no ds + 1 in
     tx_bind (tx_guard (no \<le> MAX_DEVICE_NO) (HttpErr 409 ''DEVICE_NO_EXHAUSTED'' NoDetail)) (\<lambda>_.
     tx_bind (fresh_id e) (\<lambda>i.
     let r = \<lparr>d_id = i, d_no = no, d_label = label, d_role = role, d_retired_at = None, d_token_hash = None,
              d_enrol_code_hash = Some (sha code), d_enrol_expires_at = Some (now e + ENROL_CODE_TTL_MINUTES * 60000),
              d_last_seen_at = None, d_unsynced_ops = 0, d_unsynced_reported_at = None\<rparr>;
         v = to_device e r in
     tx_bind (map_db_err pos_clash (insert_device r)) (\<lambda>_.
     tx_bind (insert_audit \<lparr>au_user = Some (a_user a), au_device = Some (a_device a), au_action = ''device.create'', au_entity = ''devices'',
        au_entity_id = i, au_before = None, au_after = Some (JObj [(''label'', JStr label), (''role'', JStr (role_text role)),
          (''deviceNo'', js_int (int no)), (''enrolExpiresAt'', js_opt js_date (dv_enrol_expires_at v))])\<rparr>) (\<lambda>_.
     tx_ret (v, code)))))))"

section \<open>Retirement\<close>

definition force_retired_details :: "device \<Rightarrow> string option \<Rightarrow> jsval" where
  "force_retired_details d t = JObj [(''deviceId'', JStr (d_id d)), (''unsyncedOps'', js_int (d_unsynced_ops d)),
     (''reportedAt'', js_opt js_date (d_unsynced_reported_at d)), (''note'', js_opt JStr t)]"

definition retired_now :: "env \<Rightarrow> device \<Rightarrow> device" where
  "retired_now e d = d\<lparr>d_retired_at := Some (now e), d_enrol_code_hash := None, d_enrol_expires_at := None\<rparr>"

definition unsent_guard :: "env \<Rightarrow> device \<Rightarrow> retire_request \<Rightarrow> unit op" where
  "unsent_guard e d q =
     (if 0 < d_unsynced_ops d
      then tx_bind (tx_guard (rq_force q) (HttpErr 409 ''DEVICE_HAS_UNSYNCED_OPS'' (Unsynced (d_unsynced_ops d) (d_unsynced_reported_at d)))) (\<lambda>_.
           insert_review_item e ''device_force_retired'' (d_id d) (force_retired_details d (rq_note q)))
      else tx_ret ())"

definition retire_device_in :: "env \<Rightarrow> actor \<Rightarrow> uuid \<Rightarrow> retire_request \<Rightarrow> (device_view \<times> shift_with_entries option) op" where
  "retire_device_in e a i q =
     tx_bind (tx_get (\<lambda>s. row_of d_id i (devices s))) (\<lambda>row.
     case row of
       None \<Rightarrow> tx_throw (HttpErr 404 ''DEVICE_NOT_FOUND'' NoDetail)
     | Some d \<Rightarrow>
         (case d_retired_at d of
            Some t \<Rightarrow> tx_throw (HttpErr 409 ''DEVICE_ALREADY_RETIRED'' (Instant t))
          | None \<Rightarrow>
              tx_bind (unsent_guard e d q) (\<lambda>_.
              tx_bind (close_for_retirement e i (rq_cash q)) (\<lambda>drawer.
              tx_bind (tx_modify (\<lambda>s. s\<lparr>devices := upd_where (\<lambda>r. d_id r = i) (retired_now e) (devices s)\<rparr>)) (\<lambda>_.
              tx_bind (insert_audit \<lparr>au_user = Some (a_user a), au_device = Some (a_device a), au_action = ''device.retire'',
                au_entity = ''devices'', au_entity_id = i,
                au_before = Some (JObj [(''role'', JStr (role_text (d_role d))), (''deviceNo'', js_int (int (d_no d)))]),
                au_after = Some (JObj ([(''retiredAt'', js_date (now e)),
                  (''shiftId'', js_opt (\<lambda>(r, _). JStr (sh_id r)) drawer),
                  (''physicalCash'', js_opt (\<lambda>n. JStr (from_satang n)) (Option.bind drawer (\<lambda>(r, _). sh_physical_cash r)))] @
                  (if rq_force q then [(''forced'', JBool True), (''note'', js_opt JStr (rq_note q))] else [])))\<rparr>) (\<lambda>_.
              tx_ret (to_device e (retired_now e d), drawer)))))))"

section \<open>The register of devices\<close>

definition devices_ok :: "db \<Rightarrow> bool" where
  "devices_ok s \<longleftrightarrow> distinct (map d_id (devices s)) \<and> distinct (map d_no (devices s)) \<and>
     (\<forall>d \<in> set (devices s). 1 \<le> d_no d \<and> d_no d \<le> MAX_DEVICE_NO) \<and> length (filter live_pos (devices s)) \<le> 1"

lemma highest_no_le: "d \<in> set ds \<Longrightarrow> d_no d \<le> highest_no ds"
  by (induction ds) (auto simp: highest_no_def)

lemma create_device_in_Inr:
  assumes "create_device_in e sha code a label role s = Inr ((v, c), s')"
  shows "\<exists>r. devices s' = devices s @ [r] \<and> d_no r = highest_no (devices s) + 1 \<and> d_no r \<le> MAX_DEVICE_NO \<and> \<not> d_retired r \<and>
    d_role r = role \<and> \<not> has_key d_id (d_id r) (devices s) \<and> (role = Pos_Device \<longrightarrow> \<not> list_ex live_pos (devices s)) \<and>
    shifts s' = shifts s"
proof -
  let ?r = "\<lparr>d_id = mint e (minted s), d_no = highest_no (devices s) + 1, d_label = label, d_role = role, d_retired_at = None, d_token_hash = None,
      d_enrol_code_hash = Some (sha code), d_enrol_expires_at = Some (now e + ENROL_CODE_TTL_MINUTES * 60000),
      d_last_seen_at = None, d_unsynced_ops = 0, d_unsynced_reported_at = None\<rparr>"
  obtain u s1 where g: "(case (if role = Pos_Device then find live_pos (devices s) else None) of
      Some d \<Rightarrow> tx_throw (pos_device_exists (Some (d_id d))) | None \<Rightarrow> tx_ret ()) s = Inr (u, s)"
    and no: "highest_no (devices s) + 1 \<le> MAX_DEVICE_NO"
    and ins: "insert_device ?r (s\<lparr>minted := minted s + 1\<rparr>) = Inr ((), s1)"
    and fin: "devices s' = devices s1" "shifts s' = shifts s1" "v = to_device e ?r" "c = code"
    using assms unfolding create_device_in_def Let_def fresh_id_def insert_audit_def by (auto split: option.splits)
  have "devices s1 = devices s @ [?r]" "shifts s1 = shifts s" "\<not> has_key d_id (d_id ?r) (devices s)"
    using ins unfolding insert_device_def constraint_defs by auto
  moreover have "role = Pos_Device \<Longrightarrow> \<not> list_ex live_pos (devices s)"
    using g by (auto simp: find_Some_iff list_ex_iff find_None_iff split: option.splits)
  ultimately show ?thesis using fin no by (intro exI [of _ ?r]) auto
qed

lemma create_device_keeps:
  assumes "devices_ok s" "create_device_in e sha code a label role s = Inr ((v, c), s')"
  shows "devices_ok s'"
proof -
  obtain r where r: "devices s' = devices s @ [r]" "d_no r = highest_no (devices s) + 1" "d_no r \<le> MAX_DEVICE_NO"
    "d_role r = role" "\<not> has_key d_id (d_id r) (devices s)" "role = Pos_Device \<longrightarrow> \<not> list_ex live_pos (devices s)"
    using create_device_in_Inr [OF assms(2)] by blast
  have "d_no r \<notin> d_no ` set (devices s)" using highest_no_le r(2) by fastforce
  moreover have "live_pos r \<Longrightarrow> filter live_pos (devices s) = []"
    using r(4,6) by (auto simp: live_pos_def filter_empty_conv list_ex_iff)
  ultimately show ?thesis using assms(1) r by (auto simp: devices_ok_def has_key_def)
qed

lemma unsent_guard_fixes: "unsent_guard e d q s = Inr (u, s') \<Longrightarrow> devices s' = devices s \<and> shifts s' = shifts s"
proof -
  have "tx_fixes f (unsent_guard e d q)" if "\<And>s x. f (s\<lparr>minted := x\<rparr>) = f s" "\<And>s x. f (s\<lparr>review_items := x\<rparr>) = f s" for f :: "db \<Rightarrow> 'z"
    unfolding unsent_guard_def by (auto intro!: tx_fix simp: that)
  from this [of devices] this [of shifts] show "unsent_guard e d q s = Inr (u, s') \<Longrightarrow> devices s' = devices s \<and> shifts s' = shifts s"
    by (auto dest: tx_fixesD)
qed

lemma retire_device_in_Inr:
  assumes "retire_device_in e a i q s = Inr ((v, drawer), s')"
  obtains d s1 s2 where "row_of d_id i (devices s) = Some d" "\<not> d_retired d" "unsent_guard e d q s = Inr ((), s1)"
    "close_for_retirement e i (rq_cash q) s1 = Inr (drawer, s2)" "shifts s' = shifts s2"
    "devices s' = upd_where (\<lambda>r. d_id r = i) (retired_now e) (devices s2)" "v = to_device e (retired_now e d)"
  using assms unfolding retire_device_in_def insert_audit_def
  by (auto simp: d_retired_def split: option.splits)

interpretation retire_mark: keyed_update d_id "retired_now e" for e
  by unfold_locales (simp add: retired_now_def)

lemma close_for_retirement_devices: "close_for_retirement e i c s = Inr (x, s') \<Longrightarrow> devices s' = devices s"
  by (erule close_for_retirement_Inr) (auto elim!: close_in_Inr)

lemma retire_device_keeps:
  assumes "devices_ok s" "retire_device_in e a i q s = Inr (x, s')"
  shows "devices_ok s'"
proof -
  obtain v drawer where x: "x = (v, drawer)" by (cases x)
  from assms(2) [unfolded x] obtain d s1 s2 where r: "unsent_guard e d q s = Inr ((), s1)"
    "close_for_retirement e i (rq_cash q) s1 = Inr (drawer, s2)" "devices s' = upd_where (\<lambda>r. d_id r = i) (retired_now e) (devices s2)"
    by (rule retire_device_in_Inr)
  have dv: "devices s' = upd_where (\<lambda>r. d_id r = i) (retired_now e) (devices s)"
    using r unsent_guard_fixes close_for_retirement_devices by metis
  have "map d_no (devices s') = map d_no (devices s)" by (simp add: dv upd_where_def retired_now_def)
  moreover have "length (filter live_pos (devices s')) \<le> length (filter live_pos (devices s))"
    unfolding dv by (rule count_upd) (simp add: live_pos_def retired_now_def d_retired_def)
  moreover have "\<forall>d \<in> set (devices s'). 1 \<le> d_no d \<and> d_no d \<le> MAX_DEVICE_NO"
    using assms(1) by (auto simp: dv upd_where_def retired_now_def devices_ok_def)
  ultimately show ?thesis using assms(1) by (simp add: devices_ok_def dv retire_mark.distinct_upd del: set_map)
qed

section \<open>A retired device and its drawer\<close>

text \<open>What tills and owners do to drawers and devices.\<close>

inductive till_step :: "db \<Rightarrow> db \<Rightarrow> bool" where
  till_opened: "open_in e a i c t s = Inr (x, s') \<Longrightarrow> till_step s s'"
| till_closed: "close_in e dev n s = Inr (x, s') \<Longrightarrow> till_step s s'"
| till_cash: "add_entry_in e a i ty n t u off s = Inr (y, s') \<Longrightarrow> till_step s s'"
| till_added: "create_device_in e sha code a label role s = Inr (z, s') \<Longrightarrow> till_step s s'"
| till_retired: "retire_device_in e a i q s = Inr (w, s') \<Longrightarrow> till_step s s'"

text \<open>The device \<open>i\<close> is on file, retired, and has no current drawer.\<close>

definition out_of_service :: "uuid \<Rightarrow> db \<Rightarrow> bool" where
  "out_of_service i s \<longleftrightarrow> (\<exists>d. row_of d_id i (devices s) = Some d \<and> d_retired d) \<and> (\<forall>r \<in> set (shifts s). \<not> is_current i r)"

lemma no_current_upd:
  assumes "\<And>r. sh_device_id (f r) = sh_device_id r" "\<And>r. sh_is_active (f r) \<Longrightarrow> sh_is_active r" "\<forall>r \<in> set rs. \<not> is_current i r"
  shows "\<forall>r \<in> set (upd_where p f rs). \<not> is_current i r"
  using assms unfolding upd_where_def is_current_def by auto

lemma close_for_retirement_off:
  assumes "\<forall>r \<in> set (shifts s). \<not> is_current i r" "close_for_retirement e dev c s = Inr (x, s')"
  shows "\<forall>r \<in> set (shifts s'). \<not> is_current i r"
  using assms(2)
proof (cases rule: close_for_retirement_Inr)
  case (some r s1)
  have "\<forall>r \<in> set (shifts s1). \<not> is_current i r"
    using some(3)
  proof
    assume "\<exists>n x. c = Some n \<and> sh_closed_at r = None \<and> close_in e dev n s = Inr (x, s1)"
    then obtain n r' es where run: "close_in e dev n s = Inr ((r', es), s1)" by (metis prod.exhaust)
    then show ?thesis by (rule close_in_Inr) (simp, rule no_current_upd [OF _ _ assms(1)], simp_all)
  qed (use assms(1) in simp)
  then show ?thesis unfolding some(4) by (simp, intro no_current_upd) simp_all
qed (use assms(1) in simp)

lemma devices_untouched:
  "tx_fixes devices (open_in e a i c t)" "tx_fixes devices (close_in e dev n)" "tx_fixes devices (add_entry_in e a i ty n t2 u off)"
  unfolding open_in_def open_new_def live_device_def archive_current_def archive_def date_str_of_def insert_shift_def with_entries_def
    close_in_def lock_active_def add_entry_in_def add_new_entry_def insert_drawer_entry_def insert_review_item_def Let_def
  by (intro tx_fix; auto split: option.split intro!: tx_fix)+

lemma out_of_service_step:
  assumes "till_step s s'" "shifts_ok s" "out_of_service i s"
  shows "out_of_service i s' \<and> shifts_ok s'"
  using assms(1)
proof cases
  case (till_opened e a k c t x)
  obtain r es where x: "x = (r, es)" by (cases x)
  have dv: "devices s' = devices s" by (rule tx_fixesD [OF devices_untouched(1) till_opened])
  have "a_device a \<noteq> i"
    using till_opened assms(3) by (auto simp: open_in_def live_device_Inr out_of_service_def)
  then show ?thesis
    using open_in_Inr [OF assms(2) till_opened [unfolded x]] tx_keepsD [OF open_in_keeps assms(2) till_opened] assms(3) dv
    by (auto simp: out_of_service_def is_open_def is_current_def)
next
  case (till_closed e dev n x)
  obtain r es where x: "x = (r, es)" by (cases x)
  have "\<forall>r \<in> set (shifts s'). \<not> is_current i r"
    using till_closed [unfolded x]
    by (rule close_in_Inr) (simp, rule no_current_upd, use assms(3) in \<open>simp_all add: out_of_service_def\<close>)
  then show ?thesis
    using tx_fixesD [OF devices_untouched(2) till_closed] tx_keepsD [OF close_in_keeps assms(2) till_closed] assms(3)
    by (auto simp: out_of_service_def)
next
  case (till_cash e a k ty n t u off y)
  then have "shifts s' = shifts s" "devices s' = devices s"
    using tx_fixesD [OF add_entry_in_shifts till_cash] tx_fixesD [OF devices_untouched(3) till_cash] by simp_all
  then show ?thesis using assms(2,3) by (simp add: out_of_service_def shifts_ok_def one_active_def)
next
  case (till_added e sha code a label role z)
  obtain v c where z: "z = (v, c)" by (cases z)
  obtain r where "devices s' = devices s @ [r]" "shifts s' = shifts s"
    using create_device_in_Inr [OF till_added [unfolded z]] by blast
  then show ?thesis using assms(2,3) by (auto simp: out_of_service_def shifts_ok_def one_active_def row_of_append)
next
  case (till_retired e a k q w)
  obtain v drawer where w: "w = (v, drawer)" by (cases w)
  from till_retired [unfolded w] obtain d s1 s2 where r: "unsent_guard e d q s = Inr ((), s1)"
    "close_for_retirement e k (rq_cash q) s1 = Inr (drawer, s2)" "shifts s' = shifts s2"
    "devices s' = upd_where (\<lambda>r. d_id r = k) (retired_now e) (devices s2)"
    by (rule retire_device_in_Inr)
  have one: "devices s1 = devices s" "shifts s1 = shifts s" using unsent_guard_fixes [OF r(1)] by simp_all
  have "devices s' = upd_where (\<lambda>r. d_id r = k) (retired_now e) (devices s)" using r(2,4) close_for_retirement_devices one by metis
  then have "\<exists>d. row_of d_id i (devices s') = Some d \<and> d_retired d"
    using assms(3) by (auto simp: out_of_service_def retire_mark.row_of_upd retired_now_def d_retired_def)
  moreover have "shifts_ok s1" using assms(2) one by (simp add: shifts_ok_def one_active_def)
  then have "shifts_ok s'" using tx_keepsD [OF close_for_retirement_keeps _ r(2)] r(3) by (simp add: shifts_ok_def one_active_def)
  moreover have "\<forall>r \<in> set (shifts s'). \<not> is_current i r"
    unfolding r(3) by (rule close_for_retirement_off [OF _ r(2)]) (use assms(3) one in \<open>simp add: out_of_service_def\<close>)
  ultimately show ?thesis by (simp add: out_of_service_def)
qed

lemma close_for_retirement_clears:
  assumes "shifts_ok s" "close_for_retirement e dev c s = Inr (x, s')"
  shows "\<forall>r \<in> set (shifts s'). \<not> is_current dev r"
  using assms(2)
proof (cases rule: close_for_retirement_Inr)
  case (some r s1)
  have only: "sh_id q = sh_id r" if "q \<in> set (shifts s)" "is_current dev q" for q
  proof -
    have "q \<in> set (filter (is_current dev) (shifts s))" using that by simp
    then have "q \<in> set [r]" using one_current [OF _ some(1,2)] assms(1) by (simp only: shifts_ok_def)
    then show ?thesis by simp
  qed
  have "sh_id q = sh_id r" if q: "q \<in> set (shifts s1)" "is_current dev q" for q
    using some(3)
  proof
    assume "\<exists>n x. c = Some n \<and> sh_closed_at r = None \<and> close_in e dev n s = Inr (x, s1)"
    then obtain n r' es where run: "close_in e dev n s = Inr ((r', es), s1)" by (metis prod.exhaust)
    then show ?thesis
      by (rule close_in_Inr) (use q in \<open>auto simp: upd_where_def is_current_def dest: only [unfolded is_current_def, OF _ conjI] split: if_splits\<close>)
  qed (use q only in simp)
  then show ?thesis by (auto simp: some(4) upd_where_def is_current_def split: if_splits)
qed simp

lemma retire_device_puts_out:
  assumes "shifts_ok s" "retire_device_in e a i q s = Inr (x, s')"
  shows "out_of_service i s' \<and> shifts_ok s'"
proof -
  obtain v drawer where x: "x = (v, drawer)" by (cases x)
  from assms(2) [unfolded x] obtain d s1 s2 where r: "row_of d_id i (devices s) = Some d" "unsent_guard e d q s = Inr ((), s1)"
    "close_for_retirement e i (rq_cash q) s1 = Inr (drawer, s2)" "shifts s' = shifts s2"
    "devices s' = upd_where (\<lambda>r. d_id r = i) (retired_now e) (devices s2)"
    by (rule retire_device_in_Inr)
  have one: "devices s1 = devices s" "shifts s1 = shifts s" using unsent_guard_fixes [OF r(2)] by simp_all
  then have ok: "shifts_ok s1" using assms(1) by (simp add: shifts_ok_def one_active_def)
  have "devices s' = upd_where (\<lambda>r. d_id r = i) (retired_now e) (devices s)" using r(3,5) close_for_retirement_devices one by metis
  then have "\<exists>d. row_of d_id i (devices s') = Some d \<and> d_retired d"
    using r(1) by (auto simp: retire_mark.row_of_upd retired_now_def d_retired_def)
  moreover have "\<forall>r \<in> set (shifts s'). \<not> is_current i r"
    unfolding r(4) by (rule close_for_retirement_clears [OF ok r(3)])
  moreover have "shifts_ok s'"
    using tx_keepsD [OF close_for_retirement_keeps ok r(3)] r(4) by (simp add: shifts_ok_def one_active_def)
  ultimately show ?thesis by (simp add: out_of_service_def)
qed

lemma out_of_service_steps:
  "till_step\<^sup>*\<^sup>* s s' \<Longrightarrow> shifts_ok s \<Longrightarrow> out_of_service i s \<Longrightarrow> out_of_service i s' \<and> shifts_ok s'"
  by (induction rule: rtranclp_induct) (blast dest: out_of_service_step)+

lemma devices_ok_step: "till_step s s' \<Longrightarrow> devices_ok s \<Longrightarrow> devices_ok s'"
proof (induction rule: till_step.induct)
  case (till_added e sha code a label role s z s')
  then show ?case by (cases z) (auto dest: create_device_keeps)
next
  case (till_retired e a i q s w s')
  then show ?case by (blast dest: retire_device_keeps)
qed (auto simp: devices_ok_def dest!: tx_fixesD [OF devices_untouched(1)] tx_fixesD [OF devices_untouched(2)] tx_fixesD [OF devices_untouched(3)])

section \<open>Properties\<close>

text \<open>
  C17. A retired device stays out of service. When a retirement has committed, with the drawers' keys in order,
  then whatever the tills and owners do next (opening and closing drawers, cash in and out, new devices, more
  retirements), in any order, the device is still on file, still retired, and has no current drawer.
\<close>

theorem retired_device_stays_out:
  assumes "shifts_ok s" "retire_device_in e a i q s = Inr (x, s1)" "till_step\<^sup>*\<^sup>* s1 s'"
  shows "(\<exists>d. row_of d_id i (devices s') = Some d \<and> d_retired d) \<and> (\<forall>r \<in> set (shifts s'). \<not> is_current i r)"
  using retire_device_puts_out [OF assms(1,2)] out_of_service_steps [OF assms(3)] by (simp add: out_of_service_def)

definition last_count :: retire_request where
  "last_count = \<lparr>rq_cash = Some 50000, rq_force = False, rq_note = None\<rparr>"

theorem retired_device_stays_out_witness:
  "\<exists>x s'. retire_device_in sample_env \<lparr>a_user = ''u'', a_device = ''b''\<rparr> ''d'' last_count one_drawer = Inr (x, s') \<and>
     (\<exists>d. row_of d_id ''d'' (devices s') = Some d \<and> d_retired d)"
proof -
  have "\<exists>x s'. retire_device_in sample_env \<lparr>a_user = ''u'', a_device = ''b''\<rparr> ''d'' last_count one_drawer = Inr (x, s')"
    by (simp add: retire_device_in_def one_drawer_def unsent_guard_def last_count_def close_for_retirement_def close_in_def lock_active_def
        is_current_def with_entries_def insert_audit_def constraint_defs Let_def tx_guard_def)
  then show ?thesis using retired_device_stays_out [OF one_drawer_ok _ rtranclp.rtrancl_refl] by blast
qed

text \<open>
  The register of devices stays sound: in every run of those operations no two devices share an id or a number,
  every number is between 1 and 99 - the two digits of a document number - and at most one till is in service.
\<close>

theorem devices_sound:
  assumes "devices_ok s" "till_step\<^sup>*\<^sup>* s s'"
  shows "distinct (map d_id (devices s')) \<and> distinct (map d_no (devices s')) \<and>
    (\<forall>d \<in> set (devices s'). 1 \<le> d_no d \<and> d_no d \<le> 99) \<and> length (filter live_pos (devices s')) \<le> 1"
proof -
  from assms(2,1) have "devices_ok s'" by (induction rule: rtranclp_induct) (auto intro: devices_ok_step)
  then show ?thesis by (simp add: devices_ok_def MAX_DEVICE_NO_def)
qed

theorem devices_sound_witness:
  "\<exists>z s'. create_device_in sample_env id ''0a0b0c0d'' \<lparr>a_user = ''u'', a_device = ''b''\<rparr> ''Office'' Backoffice_Device one_drawer = Inr (z, s') \<and>
     map d_no (devices s') = [1, 2] \<and> distinct (map d_no (devices s'))"
proof -
  obtain z s' where run: "create_device_in sample_env id ''0a0b0c0d'' \<lparr>a_user = ''u'', a_device = ''b''\<rparr> ''Office'' Backoffice_Device one_drawer = Inr (z, s')"
    and no: "map d_no (devices s') = [1, 2]"
    by (simp add: create_device_in_def one_drawer_def insert_device_def highest_no_def MAX_DEVICE_NO_def constraint_defs has_key_def
        map_db_err_def fresh_id_def insert_audit_def Let_def tx_guard_def sample_env_def live_pos_def)
  have "devices_ok one_drawer" by (simp add: devices_ok_def one_drawer_def MAX_DEVICE_NO_def)
  from devices_sound [OF this r_into_rtranclp [of till_step, OF till_added [OF run]]]
  have "distinct (map d_no (devices s'))" by (rule conjunct1 [OF conjunct2])
  with run no show ?thesis by (intro exI conjI)
qed

end
