(* ===== verification/Js_Text.thy ===== *)
theory Js_Text
  imports Js_Value Money
begin

text \<open>
  \<open>Number(value)\<close> of a value that is no number yet, and a string as the UTF-16 code units JavaScript indexes it by. The
  texts \<open>Number\<close> reads are decimal literals, with an exponent or without, and the binary, octal and
  hexadecimal integers; a value is rounded to the nearest double, without the limits of the
  exponent.
\<close>

section \<open>Numbers out of texts\<close>

definition radix_digit :: "char \<Rightarrow> nat option" where
  "radix_digit c = (let n = (of_char c :: nat) in
     if 48 \<le> n \<and> n \<le> 57 then Some (n - 48) else if 97 \<le> n \<and> n \<le> 102 then Some (n - 87)
     else if 65 \<le> n \<and> n \<le> 70 then Some (n - 55) else None)"

fun radix_value :: "nat \<Rightarrow> nat \<Rightarrow> string \<Rightarrow> nat option" where
  "radix_value r n [] = Some n"
| "radix_value r n (c # cs) = (case radix_digit c of None \<Rightarrow> None | Some d \<Rightarrow> if d < r then radix_value r (r * n + d) cs else None)"

definition radix_of :: "char \<Rightarrow> nat option" where
  "radix_of c = (if c = CHR ''x'' \<or> c = CHR ''X'' then Some 16 else if c = CHR ''o'' \<or> c = CHR ''O'' then Some 8
     else if c = CHR ''b'' \<or> c = CHR ''B'' then Some 2 else None)"

text \<open>The exponent behind a mantissa; none for a text that is no exponent.\<close>

definition exponent_of :: "string \<Rightarrow> int option" where
  "exponent_of t =
     (case t of [] \<Rightarrow> Some 0
      | c # r \<Rightarrow>
          if c \<noteq> CHR ''e'' \<and> c \<noteq> CHR ''E'' then None
          else let neg = (r \<noteq> [] \<and> hd r = CHR ''-'');
                   ds = (if r \<noteq> [] \<and> (hd r = CHR ''-'' \<or> hd r = CHR ''+'') then tl r else r) in
            if ds = [] \<or> \<not> list_all is_digit ds then None
            else Some (if neg then - int (digits_val ds) else int (digits_val ds)))"

definition decimal_literal :: "string \<Rightarrow> real option" where
  "decimal_literal t =
     (let ds = takeWhile is_digit t; r = dropWhile is_digit t;
          dot = (r \<noteq> [] \<and> hd r = CHR ''.''); fs = (if dot then takeWhile is_digit (tl r) else []);
          rest = (if dot then dropWhile is_digit (tl r) else r) in
      if ds = [] \<and> fs = [] then None
      else case exponent_of rest of
        None \<Rightarrow> None
      | Some k \<Rightarrow> Some ((of_nat (digits_val ds) + of_nat (digits_val fs) / 10 ^ length fs) * (if 0 \<le> k then 10 ^ nat k else 1 / 10 ^ nat (- k))))"

definition signed_literal :: "string \<Rightarrow> jsnum" where
  "signed_literal t =
     (let neg = (t \<noteq> [] \<and> hd t = CHR ''-''); r = (if t \<noteq> [] \<and> (hd t = CHR ''-'' \<or> hd t = CHR ''+'') then tl t else t) in
      if r = ''Infinity'' then (if neg then NegInf else PosInf)
      else case decimal_literal r of None \<Rightarrow> NaN | Some v \<Rightarrow> Fin (fl (if neg then - v else v)))"

definition number_of_text :: "string \<Rightarrow> jsnum" where
  "number_of_text s =
     (let t = trim s in
      if t = [] then Fin 0
      else case t of
        z # c # d # ds \<Rightarrow>
          (case (if z = CHR ''0'' then radix_of c else None) of
             None \<Rightarrow> signed_literal t
           | Some r \<Rightarrow> (case radix_value r 0 (d # ds) of None \<Rightarrow> NaN | Some n \<Rightarrow> Fin (fl (of_nat n))))
      | _ \<Rightarrow> signed_literal t)"

text \<open>An array is joined by commas first: only an empty one or one of a single element is a number.\<close>

fun number_of_value :: "jsval \<Rightarrow> jsnum" where
  "number_of_value JUndef = NaN"
| "number_of_value JNull = Fin 0"
| "number_of_value (JBool b) = Fin (if b then 1 else 0)"
| "number_of_value (JNum n) = n"
| "number_of_value (JStr s) = number_of_text s"
| "number_of_value (JArr []) = Fin 0"
| "number_of_value (JArr [JUndef]) = Fin 0"
| "number_of_value (JArr [JBool b]) = NaN"
| "number_of_value (JArr [v]) = number_of_value v"
| "number_of_value (JArr (v # w # vs)) = NaN"
| "number_of_value (JObj b) = NaN"

text \<open>\<open>Number.isInteger\<close>, and the integer.\<close>

definition whole :: "jsnum \<Rightarrow> int option" where
  "whole n = (case n of Fin x \<Rightarrow> if x = of_int \<lfloor>x\<rfloor> then Some \<lfloor>x\<rfloor> else None | _ \<Rightarrow> None)"

lemma whole_of_int [simp]: "whole (Fin (of_int n)) = Some n"
  by (simp add: whole_def)

section \<open>UTF-16\<close>

text \<open>The code units of a text given by its UTF-8 bytes.\<close>

fun utf16 :: "nat list \<Rightarrow> nat list" where
  "utf16 [] = []"
| "utf16 (a # r) =
     (if a < 128 then a # utf16 r
      else if a < 224 then (case r of b # r1 \<Rightarrow> (a mod 32 * 64 + b mod 64) # utf16 r1 | _ \<Rightarrow> [])
      else if a < 240 then (case r of b # c # r2 \<Rightarrow> (a mod 16 * 4096 + b mod 64 * 64 + c mod 64) # utf16 r2 | _ \<Rightarrow> [])
      else (case r of
          b # c # d # r3 \<Rightarrow>
            (let p = a mod 8 * 262144 + b mod 64 * 4096 + c mod 64 * 64 + d mod 64 - 65536 in
             (55296 + p div 1024) # (56320 + p mod 1024) # utf16 r3)
        | _ \<Rightarrow> []))"

definition char_codes :: "string \<Rightarrow> nat list" where
  "char_codes s = utf16 (map of_char s)"

end
