(* ===== verification/Paging.thy ===== *)
theory Paging
  imports Js_Text
begin

text \<open>Pages of a list (\<open>common/paginated.ts\<close>): the query parameters and what a page says of itself.\<close>

definition DEFAULT_PAGE_LIMIT :: int where "DEFAULT_PAGE_LIMIT = 50"
definition MAX_PAGE_LIMIT :: int where "MAX_PAGE_LIMIT = 200"
definition MAX_PAGE :: int where "MAX_PAGE = 10000"

definition positive_int :: "string option \<Rightarrow> int \<Rightarrow> string \<Rightarrow> err + int" where
  "positive_int raw dflt field =
     (case raw of None \<Rightarrow> Inr dflt
      | Some t \<Rightarrow> (case whole (number_of_text t) of
          None \<Rightarrow> Inl (bad_request field) | Some n \<Rightarrow> if n < 1 then Inl (bad_request field) else Inr n))"

definition page_params :: "string option \<Rightarrow> string option \<Rightarrow> err + int \<times> int" where
  "page_params page limit =
     e_bind (positive_int page 1 ''page'') (\<lambda>p.
     if MAX_PAGE < p then Inl (bad_request ''page'')
     else e_bind (positive_int limit DEFAULT_PAGE_LIMIT ''limit'') (\<lambda>l. Inr (p, min l MAX_PAGE_LIMIT)))"

record page_meta =
  pm_total :: int
  pm_total_pages :: int
  pm_page :: int
  pm_limit :: int

text \<open>A page with a count; \<open>Math.ceil\<close> of the quotient.\<close>

definition page_meta_of :: "int \<Rightarrow> int \<Rightarrow> int \<Rightarrow> page_meta" where
  "page_meta_of n page limit = \<lparr>pm_total = n, pm_total_pages = max 1 ((n + limit - 1) div limit), pm_page = page, pm_limit = limit\<rparr>"

text \<open>\<open>LIMIT\<close> and \<open>OFFSET (page - 1) * limit\<close>.\<close>

definition page_of :: "int \<Rightarrow> int \<Rightarrow> 'a list \<Rightarrow> 'a list" where
  "page_of page limit rows = take (nat limit) (drop (nat ((page - 1) * limit)) rows)"

lemma page_params_Inr:
  assumes "page_params page limit = Inr (p, l)"
  shows "1 \<le> p \<and> p \<le> MAX_PAGE \<and> 1 \<le> l \<and> l \<le> MAX_PAGE_LIMIT"
  using assms by (auto simp: page_params_def positive_int_def MAX_PAGE_def MAX_PAGE_LIMIT_def DEFAULT_PAGE_LIMIT_def
      split: option.splits if_splits)

text \<open>The pages of a list are the list cut into pieces: nothing is shown twice or left out.\<close>

lemma pages_are_the_list:
  assumes "0 < l"
  shows "concat (map (\<lambda>p. page_of (int p + 1) (int l) rows) [0..<n]) = take (n * l) rows"
proof (induction n)
  case (Suc n)
  have "page_of (int n + 1) (int l) rows = take l (drop (n * l) rows)"
    by (simp add: page_of_def nat_mult_distrib)
  then show ?case using Suc by (simp add: take_add [of "n * l" l rows, symmetric] add.commute)
qed simp

lemma last_page_reached:
  assumes "0 < l" "length rows = m"
  shows "concat (map (\<lambda>p. page_of (int p + 1) (int l) rows) [0..<nat (pm_total_pages (page_meta_of (int m) 1 (int l)))]) = rows"
proof -
  let ?k = "(int m + int l - 1) div int l"
  have "int m \<le> ?k * int l"
    using div_mult_mod_eq [of "int m + int l - 1" "int l"] pos_mod_bound [of "int l" "int m + int l - 1"] assms(1) by linarith
  also have "\<dots> \<le> max 1 ?k * int l" by (rule mult_right_mono) simp_all
  also have "\<dots> = int (nat (max 1 ?k) * l)" by (simp add: max_def)
  finally have "m \<le> nat (max 1 ?k) * l" by (simp only: of_nat_le_iff)
  then show ?thesis
    using pages_are_the_list [OF assms(1), of rows] assms(2) by (simp add: page_meta_of_def)
qed

end
