(* ===== verification/Catalogue.thy ===== *)
theory Catalogue
  imports Products People Paging
begin

text \<open>
  The rest of \<open>products/\<close>: categories with their colours (\<open>categories.service.ts\<close>), suppliers (\<open>suppliers.service.ts\<close>)
  and the stock ledger (\<open>movements.service.ts\<close>). The Redis copy of the category list is left out.
\<close>

section \<open>Categories\<close>

record category_view =
  cv_name :: string
  cv_color :: string

definition CAT_PALETTE :: "string list" where
  "CAT_PALETTE = [''#1E4A80'', ''#C04E10'', ''#3B6D11'', ''#6B2DA8'', ''#1A6B5C'', ''#8B4513'', ''#1A5C8B'', ''#8B2840'', ''#4A6B1A'',
     ''#6B4A1A'']"

text \<open>The five names that stand in for an empty table, by their bytes.\<close>

definition SEED_CATEGORIES :: "string list" where
  "SEED_CATEGORIES = [map char_of [224, 185, 128, 224, 184, 132, 224, 184, 163, 224, 184, 183, 224, 185, 136, 224, 184, 173, 224, 184, 135, 224, 184, 162, 224, 184, 153, 224, 184, 149, 224, 185, 140::nat],
     map char_of [224, 185, 132, 224, 184, 159, 224, 184, 159, 224, 185, 137, 224, 184, 178::nat],
     map char_of [224, 184, 153, 224, 185, 137, 224, 184, 179, 224, 184, 161, 224, 184, 177, 224, 184, 153::nat],
     map char_of [224, 185, 128, 224, 184, 154, 224, 184, 163, 224, 184, 129::nat],
     map char_of [224, 184, 149, 224, 184, 177, 224, 184, 167, 224, 184, 150, 224, 184, 177, 224, 184, 135::nat]]"

text \<open>A signed 32-bit integer.\<close>

definition to_int32 :: "int \<Rightarrow> int" where
  "to_int32 n = (n + 2147483648) mod 4294967296 - 2147483648"

definition name_hash :: "string \<Rightarrow> int" where
  "name_hash name = foldl (\<lambda>h c. to_int32 (to_int32 (h * 31) + int c)) 0 (char_codes name)"

fun index_of :: "'a \<Rightarrow> 'a list \<Rightarrow> nat option" where
  "index_of x [] = None"
| "index_of x (y # ys) = (if x = y then Some 0 else map_option Suc (index_of x ys))"

definition cat_color :: "string \<Rightarrow> string list \<Rightarrow> string" where
  "cat_color name ordered =
     (case index_of name ordered of
        Some i \<Rightarrow> CAT_PALETTE ! (i mod length CAT_PALETTE)
      | None \<Rightarrow> CAT_PALETTE ! nat (\<bar>name_hash name\<bar> mod int (length CAT_PALETTE)))"

definition category_names :: "db \<Rightarrow> string list" where
  "category_names s =
     (if categories s = [] then SEED_CATEGORIES else map cat_name (sort_key cat_position (sort_key cat_name (categories s))))"

definition category_list_in :: "category_view list op" where
  "category_list_in = tx_get (\<lambda>s. let names = category_names s in map (\<lambda>n. \<lparr>cv_name = n, cv_color = cat_color n names\<rparr>) names)"

definition next_position :: "category list \<Rightarrow> int" where
  "next_position cs = (case cs of [] \<Rightarrow> 0 | c # r \<Rightarrow> foldr (\<lambda>c n. max (cat_position c) n) r (cat_position c) + 1)"

definition category_create_in :: "string \<Rightarrow> category_view option op" where
  "category_create_in name =
     tx_bind (tx_get categories) (\<lambda>cs.
     tx_bind (int4 (next_position cs)) (\<lambda>_.
     tx_bind (if has_key cat_name name cs then tx_ret ()
              else tx_modify (\<lambda>s. s\<lparr>categories := categories s @ [\<lparr>cat_name = name, cat_position = next_position cs\<rparr>]\<rparr>)) (\<lambda>_.
     tx_bind (add_hook (Invalidate ''categories'')) (\<lambda>_.
     tx_bind category_list_in (\<lambda>all. tx_ret (find (\<lambda>c. cv_name c = name) all))))))"

definition category_delete_in :: "string \<Rightarrow> string op" where
  "category_delete_in name =
     tx_bind (tx_modify (\<lambda>s. s\<lparr>categories := filter (\<lambda>c. cat_name c \<noteq> name) (categories s)\<rparr>)) (\<lambda>_.
     tx_bind (add_hook (Invalidate ''categories'')) (\<lambda>_. tx_ret name))"

section \<open>Suppliers\<close>

definition supplier_not_found :: err where "supplier_not_found = HttpErr 404 ''SUPPLIER_NOT_FOUND'' NoDetail"

definition of_live_product :: "db \<Rightarrow> supplier \<Rightarrow> bool" where
  "of_live_product s r \<longleftrightarrow> list_ex (\<lambda>p. p_id p = su_product_id r \<and> \<not> p_deleted p) (products s)"

definition supplier_list_in :: "supplier list op" where
  "supplier_list_in = tx_get (\<lambda>s. sort_key su_product_id (sort_key su_id (filter (of_live_product s) (suppliers s))))"

definition supplier_list_for_product_in :: "uuid \<Rightarrow> supplier list op" where
  "supplier_list_for_product_in i = tx_get (\<lambda>s. sort_key su_id (filter (\<lambda>r. su_product_id r = i \<and> of_live_product s r) (suppliers s)))"

definition assert_product_live :: "uuid \<Rightarrow> unit op" where
  "assert_product_live i =
     tx_bind (tx_get (\<lambda>s. list_ex (\<lambda>p. p_id p = i \<and> \<not> p_deleted p) (products s))) (\<lambda>there. tx_guard there product_not_found)"

definition supplier_create_in :: "env \<Rightarrow> supplier_create \<Rightarrow> supplier op" where
  "supplier_create_in e dto =
     tx_bind (assert_product_live (sc_product_id dto)) (\<lambda>_.
     tx_bind (fresh_id e) (\<lambda>i.
     let r = \<lparr>su_id = i, su_product_id = sc_product_id dto, su_name = sc_name dto, su_unit_cost = sc_unit_cost dto, su_freight = sc_freight dto\<rparr> in
     tx_bind (numeric_12_2 (su_unit_cost r)) (\<lambda>_.
     tx_bind (numeric_12_2 (su_freight r)) (\<lambda>_.
     tx_bind (tx_get suppliers) (\<lambda>rs.
     tx_bind (unique (\<not> has_key su_id i rs) ''suppliers_pkey'') (\<lambda>_.
     tx_bind (tx_modify (\<lambda>s. s\<lparr>suppliers := suppliers s @ [r]\<rparr>)) (\<lambda>_. tx_ret r)))))))"

definition patch_supplier :: "supplier_patch \<Rightarrow> supplier \<Rightarrow> supplier" where
  "patch_supplier p r = r\<lparr>su_product_id := sent_or (sup_product_id p) (su_product_id r), su_name := sent_or (sup_name p) (su_name r),
     su_unit_cost := sent_or (sup_unit_cost p) (su_unit_cost r), su_freight := sent_or (sup_freight p) (su_freight r)\<rparr>"

definition supplier_update_in :: "uuid \<Rightarrow> supplier_patch \<Rightarrow> supplier op" where
  "supplier_update_in i p =
     tx_bind (case sup_product_id p of None \<Rightarrow> tx_ret () | Some k \<Rightarrow> assert_product_live k) (\<lambda>_.
     tx_bind (tx_get (\<lambda>s. row_of su_id i (suppliers s))) (\<lambda>row.
     case row of
       None \<Rightarrow> tx_throw supplier_not_found
     | Some r \<Rightarrow>
         tx_bind (numeric_12_2 (su_unit_cost (patch_supplier p r))) (\<lambda>_.
         tx_bind (numeric_12_2 (su_freight (patch_supplier p r))) (\<lambda>_.
         tx_bind (tx_modify (\<lambda>s. s\<lparr>suppliers := upd_where (\<lambda>r. su_id r = i) (patch_supplier p) (suppliers s)\<rparr>)) (\<lambda>_.
         tx_ret (patch_supplier p r))))))"

definition supplier_delete_in :: "uuid \<Rightarrow> uuid op" where
  "supplier_delete_in i = tx_bind (tx_modify (\<lambda>s. s\<lparr>suppliers := filter (\<lambda>r. su_id r \<noteq> i) (suppliers s)\<rparr>)) (\<lambda>_. tx_ret i)"

section \<open>The stock ledger\<close>

record movement_query =
  mq_product :: "uuid option"
  mq_from :: "int option"
  mq_to :: "int option"
  mq_page :: int
  mq_limit :: int

definition movement_matches :: "movement_query \<Rightarrow> movement \<Rightarrow> bool" where
  "movement_matches q m \<longleftrightarrow> (case mq_product q of None \<Rightarrow> True | Some i \<Rightarrow> mv_product_id m = i) \<and>
     (case mq_from q of None \<Rightarrow> True | Some t \<Rightarrow> t \<le> mv_date m) \<and> (case mq_to q of None \<Rightarrow> True | Some t \<Rightarrow> mv_date m \<le> t)"

definition movement_list_in :: "movement_query \<Rightarrow> (movement list \<times> nat) op" where
  "movement_list_in q = tx_get (\<lambda>s.
     let found = filter (movement_matches q) (movements s) in
     (page_of (mq_page q) (mq_limit q) (rev (sort_key mv_date (sort_key mv_id found))), length found))"

section \<open>Facts\<close>

lemma index_of_None: "index_of x xs = None \<longleftrightarrow> x \<notin> set xs"
  by (induction xs) auto

lemma next_position_above: "c \<in> set cs \<Longrightarrow> cat_position c < next_position cs"
proof -
  have "\<And>n. cat_position c \<le> n \<or> c \<in> set r \<Longrightarrow> cat_position c \<le> foldr (\<lambda>c n. max (cat_position c) n) r n" for r
    by (induction r) (auto simp: le_max_iff_disj)
  then show "c \<in> set cs \<Longrightarrow> cat_position c < next_position cs"
    by (cases cs) (fastforce simp: next_position_def)+
qed


end
