(* ===== verification/Payment_Accounts.thy ===== *)
theory Payment_Accounts
  imports Passwords Sales Keyset
begin

text \<open>
  The shop's accounts for QR payments (\<open>payment-accounts/payment-accounts.rules.ts\<close>, \<open>.dto.ts\<close>, \<open>.service.ts\<close>):
  at most five live ones, at most one the default, and an audit trail that shows four digits of a PromptPay id. An image
  is a list of bytes; the wire form is base64, as \<open>Buffer\<close> reads and writes it.
\<close>

section \<open>Base64\<close>

definition B64 :: string where
  "B64 = ''ABCDEFGHIJKLMNOPQRSTUVWXYZabcdefghijklmnopqrstuvwxyz0123456789+/''"

definition b64_digit :: "nat \<Rightarrow> char" where
  "b64_digit n = B64 ! n"

fun index_in :: "char \<Rightarrow> string \<Rightarrow> nat option" where
  "index_in c [] = None"
| "index_in c (d # ds) = (if c = d then Some 0 else map_option Suc (index_in c ds))"

definition b64_value :: "char \<Rightarrow> nat option" where
  "b64_value c = index_in c B64"

fun b64_encode :: "nat list \<Rightarrow> string" where
  "b64_encode [] = []"
| "b64_encode [a] = [b64_digit (a div 4), b64_digit (a mod 4 * 16), CHR ''='', CHR ''='']"
| "b64_encode [a, b] = [b64_digit (a div 4), b64_digit (a mod 4 * 16 + b div 16), b64_digit (b mod 16 * 4), CHR ''='']"
| "b64_encode (a # b # c # r) =
     b64_digit (a div 4) # b64_digit (a mod 4 * 16 + b div 16) # b64_digit (b mod 16 * 4 + c div 64) # b64_digit (c mod 64) # b64_encode r"

text \<open>What \<open>BASE64_RE\<close> accepts, and the bytes it stands for; bits past the last whole byte are dropped.\<close>

fun b64_decode :: "string \<Rightarrow> nat list option" where
  "b64_decode [] = Some []"
| "b64_decode [a, b, c, d] =
     (case (b64_value a, b64_value b) of
        (Some x, Some y) \<Rightarrow>
          if c = CHR ''='' \<and> d = CHR ''='' then Some [x * 4 + y div 16]
          else (case b64_value c of
             None \<Rightarrow> None
           | Some z \<Rightarrow>
               if d = CHR ''='' then Some [x * 4 + y div 16, y mod 16 * 16 + z div 4]
               else (case b64_value d of None \<Rightarrow> None
                  | Some w \<Rightarrow> Some [x * 4 + y div 16, y mod 16 * 16 + z div 4, z mod 4 * 64 + w]))
      | _ \<Rightarrow> None)"
| "b64_decode (a # b # c # d # r) =
     (case (b64_value a, b64_value b, b64_value c, b64_value d, b64_decode r) of
        (Some x, Some y, Some z, Some w, Some bs) \<Rightarrow> Some ((x * 4 + y div 16) # (y mod 16 * 16 + z div 4) # (z mod 4 * 64 + w) # bs)
      | _ \<Rightarrow> None)"
| "b64_decode _ = None"

section \<open>Field rules\<close>

definition BANK_CODES :: "string list" where
  "BANK_CODES = [''SCB'', ''KBANK'', ''BBL'', ''KTB'', ''BAY'', ''TTB'', ''GSB'', ''BAAC'', ''GHB'', ''KKP'', ''CIMBT'', ''UOBT'',
     ''LHB'', ''TISCO'', ''ICBCT'', ''OTHER'']"

definition MAX_ACTIVE_PAYMENT_ACCOUNTS :: nat where "MAX_ACTIVE_PAYMENT_ACCOUNTS = 5"
definition NICKNAME_MAX_LENGTH :: nat where "NICKNAME_MAX_LENGTH = 40"
definition MAX_IMAGE_BYTES :: nat where "MAX_IMAGE_BYTES = 300 * 1024"

definition is_bank_code :: "jsval \<Rightarrow> bool" where
  "is_bank_code v = (case v of JStr t \<Rightarrow> t \<in> set BANK_CODES | _ \<Rightarrow> False)"

definition kind_of :: "jsval \<Rightarrow> account_kind option" where
  "kind_of v = (if v = JStr ''promptpay'' then Some Promptpay else if v = JStr ''image'' then Some Image_Account else None)"

definition promptpay_text :: "string \<Rightarrow> bool" where
  "promptpay_text t \<longleftrightarrow> list_all is_digit t \<and>
     (length t = 10 \<and> hd t = CHR ''0'' \<or> length t = 13 \<or> length t = 15)"

definition is_promptpay_id :: "jsval \<Rightarrow> bool" where
  "is_promptpay_id v = (case v of JStr t \<Rightarrow> promptpay_text t | _ \<Rightarrow> False)"

text \<open>\<open>[...s].length\<close>: characters, not bytes; every byte but a continuation byte starts one.\<close>

definition code_points :: "string \<Rightarrow> nat" where
  "code_points t = length (filter (\<lambda>c. code_units c \<noteq> 0) t)"

definition normalise_nickname :: "jsval \<Rightarrow> string option" where
  "normalise_nickname v =
     (case v of JStr t \<Rightarrow> if js_length (trim t) < 1 \<or> NICKNAME_MAX_LENGTH < code_points (trim t) then None else Some (trim t)
      | _ \<Rightarrow> None)"

definition PNG_MAGIC :: "nat list" where "PNG_MAGIC = [0x89, 0x50, 0x4e, 0x47, 0x0d, 0x0a, 0x1a, 0x0a]"
definition JPEG_MAGIC :: "nat list" where "JPEG_MAGIC = [0xff, 0xd8, 0xff]"

text \<open>The bytes, or the field at fault.\<close>

definition decode_qr_image :: "jsval \<Rightarrow> jsval \<Rightarrow> string + nat list \<times> string" where
  "decode_qr_image base64 mime =
     (case mime of
        JStr m \<Rightarrow>
          if m \<noteq> ''image/png'' \<and> m \<noteq> ''image/jpeg'' then Inl ''imageMime''
          else (case base64 of
             JStr t \<Rightarrow>
               if t = [] \<or> b64_decode t = None then Inl ''imageBase64''
               else if MAX_IMAGE_BYTES + 2 < js_length t div 4 * 3 then Inl ''image''
               else let bytes = the (b64_decode t); magic = (if m = ''image/png'' then PNG_MAGIC else JPEG_MAGIC) in
                 if MAX_IMAGE_BYTES < length bytes then Inl ''image''
                 else if take (length magic) bytes \<noteq> magic then Inl ''image''
                 else Inr (bytes, m)
           | _ \<Rightarrow> Inl ''imageBase64'')
      | _ \<Rightarrow> Inl ''imageMime'')"

section \<open>Request bodies\<close>

record account_create =
  ac_id :: uuid
  ac_nickname :: string
  ac_bank_code :: string
  ac_is_default :: bool
  ac_sort_order :: int
  ac_kind :: account_kind
  ac_promptpay_id :: "string option"
  ac_image :: "(nat list \<times> string) option"

record account_patch =
  ap_kind :: "account_kind option"
  ap_nickname :: "string option"
  ap_bank_code :: "string option"
  ap_promptpay_id :: "string option"
  ap_image :: "(nat list \<times> string) option"
  ap_is_default :: "bool option"
  ap_sort_order :: "int option"

definition given :: "(string \<times> jsval) list \<Rightarrow> string \<Rightarrow> bool" where
  "given b k \<longleftrightarrow> get_prop b k \<noteq> JUndef \<and> get_prop b k \<noteq> JNull"

definition refuse_if_set :: "(string \<times> jsval) list \<Rightarrow> string \<Rightarrow> err + unit" where
  "refuse_if_set b k = (if given b k then Inl (bad_request k) else Inr ())"

definition required_nickname :: "jsval \<Rightarrow> err + string" where
  "required_nickname v = (case normalise_nickname v of None \<Rightarrow> Inl (bad_request ''nickname'') | Some t \<Rightarrow> Inr t)"

definition required_bank_code :: "jsval \<Rightarrow> err + string" where
  "required_bank_code v = (case v of JStr t \<Rightarrow> if is_bank_code v then Inr t else Inl (bad_request ''bankCode'')
     | _ \<Rightarrow> Inl (bad_request ''bankCode''))"

definition required_promptpay_id :: "jsval \<Rightarrow> err + string" where
  "required_promptpay_id v = (case v of JStr t \<Rightarrow> if is_promptpay_id v then Inr t else Inl (bad_request ''promptpayId'')
     | _ \<Rightarrow> Inl (bad_request ''promptpayId''))"

definition required_image :: "jsval \<Rightarrow> jsval \<Rightarrow> err + nat list \<times> string" where
  "required_image base64 mime = (case decode_qr_image base64 mime of Inl field \<Rightarrow> Inl (bad_request field) | Inr i \<Rightarrow> Inr i)"

definition optional_flag :: "jsval \<Rightarrow> string \<Rightarrow> err + bool option" where
  "optional_flag v field = (case v of JUndef \<Rightarrow> Inr None | JNull \<Rightarrow> Inr None | JBool b \<Rightarrow> Inr (Some b) | _ \<Rightarrow> Inl (bad_request field))"

definition optional_sort_order :: "jsval \<Rightarrow> err + int option" where
  "optional_sort_order v =
     (case v of
        JUndef \<Rightarrow> Inr None
      | JNull \<Rightarrow> Inr None
      | JNum (Fin x) \<Rightarrow> if x = of_int \<lfloor>x\<rfloor> \<and> 0 \<le> x \<and> x \<le> 10000 then Inr (Some \<lfloor>x\<rfloor>) else Inl (bad_request ''sortOrder'')
      | _ \<Rightarrow> Inl (bad_request ''sortOrder''))"

definition given_or :: "'a \<Rightarrow> 'a option \<Rightarrow> 'a" where
  "given_or d x = (case x of None \<Rightarrow> d | Some v \<Rightarrow> v)"

definition parse_account_create :: "jsval \<Rightarrow> err + account_create" where
  "parse_account_create body =
     e_bind (as_object body ''body'') (\<lambda>b.
     e_bind (required_uuid (get_prop b ''id'') ''id'') (\<lambda>i.
     e_bind (required_nickname (get_prop b ''nickname'')) (\<lambda>n.
     e_bind (required_bank_code (get_prop b ''bankCode'')) (\<lambda>c.
     e_bind (optional_flag (get_prop b ''isDefault'') ''isDefault'') (\<lambda>d.
     e_bind (optional_sort_order (get_prop b ''sortOrder'')) (\<lambda>o1.
     let common = \<lparr>ac_id = i, ac_nickname = n, ac_bank_code = c, ac_is_default = given_or False d, ac_sort_order = given_or 0 o1,
                   ac_kind = Promptpay, ac_promptpay_id = None, ac_image = None\<rparr> in
     case kind_of (get_prop b ''kind'') of
       None \<Rightarrow> Inl (bad_request ''kind'')
     | Some Promptpay \<Rightarrow>
         e_bind (refuse_if_set b ''imageBase64'') (\<lambda>_.
         e_bind (refuse_if_set b ''imageMime'') (\<lambda>_.
         e_bind (required_promptpay_id (get_prop b ''promptpayId'')) (\<lambda>p.
         Inr (common\<lparr>ac_promptpay_id := Some p\<rparr>))))
     | Some Image_Account \<Rightarrow>
         e_bind (refuse_if_set b ''promptpayId'') (\<lambda>_.
         e_bind (required_image (get_prop b ''imageBase64'') (get_prop b ''imageMime'')) (\<lambda>im.
         Inr (common\<lparr>ac_kind := Image_Account, ac_image := Some im\<rparr>)))))))))"

text \<open>A member that is there (even as \<open>null\<close>) and one that is not.\<close>

definition if_present :: "(string \<times> jsval) list \<Rightarrow> string \<Rightarrow> (jsval \<Rightarrow> err + 'a) \<Rightarrow> err + 'a option" where
  "if_present b k f = (if get_prop b k = JUndef then Inr None else e_bind (f (get_prop b k)) (\<lambda>x. Inr (Some x)))"

definition parse_account_patch :: "jsval \<Rightarrow> err + account_patch" where
  "parse_account_patch body =
     e_bind (as_object body ''body'') (\<lambda>b.
     e_bind (if_present b ''kind'' (\<lambda>v. case kind_of v of None \<Rightarrow> Inl (bad_request ''kind'') | Some k \<Rightarrow> Inr k)) (\<lambda>k.
     e_bind (if_present b ''nickname'' required_nickname) (\<lambda>n.
     e_bind (if_present b ''bankCode'' required_bank_code) (\<lambda>c.
     e_bind (if given b ''promptpayId'' then e_bind (required_promptpay_id (get_prop b ''promptpayId'')) (\<lambda>p. Inr (Some p)) else Inr None) (\<lambda>p.
     e_bind (if given b ''imageBase64'' \<or> given b ''imageMime''
             then e_bind (required_image (get_prop b ''imageBase64'') (get_prop b ''imageMime'')) (\<lambda>im. Inr (Some im)) else Inr None) (\<lambda>im.
     e_bind (if_present b ''isDefault'' (\<lambda>v. e_bind (optional_flag v ''isDefault'') (\<lambda>d. Inr (given_or False d)))) (\<lambda>d.
     e_bind (if_present b ''sortOrder'' (\<lambda>v. e_bind (optional_sort_order v) (\<lambda>o1. Inr (given_or 0 o1)))) (\<lambda>o1.
     Inr \<lparr>ap_kind = k, ap_nickname = n, ap_bank_code = c, ap_promptpay_id = p, ap_image = im, ap_is_default = d, ap_sort_order = o1\<rparr>))))))))"

section \<open>The service\<close>

record account_view =
  av_id :: uuid
  av_nickname :: string
  av_bank_code :: string
  av_kind :: account_kind
  av_promptpay_id :: "string option"
  av_image_base64 :: "string option"
  av_image_mime :: "string option"
  av_is_default :: bool
  av_sort_order :: int
  av_updated_at :: int

definition to_payment_account :: "payment_account \<Rightarrow> account_view" where
  "to_payment_account r = \<lparr>av_id = pa_id r, av_nickname = pa_nickname r, av_bank_code = pa_bank_code r, av_kind = pa_kind r,
     av_promptpay_id = pa_promptpay_id r, av_image_base64 = map_option b64_encode (pa_image r), av_image_mime = pa_image_mime r,
     av_is_default = pa_is_default r, av_sort_order = pa_sort_order r, av_updated_at = pa_updated_at r\<rparr>"

definition live_account :: "payment_account \<Rightarrow> bool" where
  "live_account r \<longleftrightarrow> pa_deleted_at r = None"

definition live_default :: "payment_account \<Rightarrow> bool" where
  "live_default r \<longleftrightarrow> pa_is_default r \<and> live_account r"

definition list_accounts :: "account_view list op" where
  "list_accounts = tx_get (\<lambda>s. map to_payment_account
     (sort_key pa_sort_order (sort_key pa_created_at (sort_key pa_id (filter live_account (payment_accounts s))))))"

definition account_not_found :: err where "account_not_found = HttpErr 404 ''NOT_FOUND'' NoDetail"

definition active_row :: "uuid \<Rightarrow> payment_account op" where
  "active_row i =
     tx_bind (tx_get (\<lambda>s. row_of pa_id i (filter live_account (payment_accounts s)))) (\<lambda>row.
     case row of None \<Rightarrow> tx_throw account_not_found | Some r \<Rightarrow> tx_ret r)"

text \<open>The default that was cleared, for the audit row.\<close>

definition clear_default :: "env \<Rightarrow> uuid option \<Rightarrow> uuid option op" where
  "clear_default e keep =
     (let p = (\<lambda>r. live_default r \<and> Some (pa_id r) \<noteq> keep) in
      tx_bind (tx_get (\<lambda>s. find p (payment_accounts s))) (\<lambda>old.
      tx_bind (tx_modify (\<lambda>s. s\<lparr>payment_accounts := upd_where p (\<lambda>r. r\<lparr>pa_is_default := False, pa_updated_at := now e\<rparr>) (payment_accounts s)\<rparr>)) (\<lambda>_.
      tx_ret (map_option pa_id old))))"

definition mask_promptpay_id :: "string option \<Rightarrow> string option" where
  "mask_promptpay_id p = map_option (\<lambda>t. if length t \<le> 4 then replicate (length t) (CHR ''*'')
     else replicate (length t - 4) (CHR ''*'') @ drop (length t - 4) t) p"

definition kind_text :: "account_kind \<Rightarrow> string" where
  "kind_text k = (case k of Promptpay \<Rightarrow> ''promptpay'' | Image_Account \<Rightarrow> ''image'')"

definition audit_summary :: "payment_account \<Rightarrow> (string \<times> jsval) list" where
  "audit_summary r = [(''id'', JStr (pa_id r)), (''nickname'', JStr (pa_nickname r)), (''bankCode'', JStr (pa_bank_code r)),
     (''kind'', JStr (kind_text (pa_kind r))), (''promptpayId'', js_opt JStr (mask_promptpay_id (pa_promptpay_id r))),
     (''isDefault'', JBool (pa_is_default r))]"

definition changed_fields :: "payment_account \<Rightarrow> payment_account \<Rightarrow> string list" where
  "changed_fields a b = map fst (filter snd
     [(''nickname'', pa_nickname a \<noteq> pa_nickname b), (''bankCode'', pa_bank_code a \<noteq> pa_bank_code b),
      (''promptpayId'', pa_promptpay_id a \<noteq> pa_promptpay_id b), (''imageBase64'', pa_image a \<noteq> pa_image b),
      (''imageMime'', pa_image_mime a \<noteq> pa_image_mime b), (''isDefault'', pa_is_default a \<noteq> pa_is_default b),
      (''sortOrder'', pa_sort_order a \<noteq> pa_sort_order b)])"

definition previous_default :: "uuid option \<Rightarrow> (string \<times> jsval) list" where
  "previous_default p = (case p of None \<Rightarrow> [] | Some i \<Rightarrow> if i = [] then [] else [(''previousDefaultId'', JStr i)])"

text \<open>The user and the device of the actor may both be missing.\<close>

definition account_event ::
  "uuid option \<times> uuid option \<Rightarrow> string \<Rightarrow> uuid \<Rightarrow> (string \<times> jsval) list option \<Rightarrow> (string \<times> jsval) list \<Rightarrow> audit_row" where
  "account_event a action i before after = \<lparr>au_user = fst a, au_device = snd a, au_action = action,
     au_entity = ''payment_accounts'', au_entity_id = i, au_before = map_option JObj before, au_after = Some (JObj after)\<rparr>"

definition insert_account :: "payment_account \<Rightarrow> unit op" where
  "insert_account r =
     tx_bind (check (pa_kind r = Promptpay \<longrightarrow> pa_promptpay_id r \<noteq> None \<and> pa_image r = None) ''ck_payment_accounts_promptpay'') (\<lambda>_.
     tx_bind (check (pa_kind r = Image_Account \<longrightarrow> pa_image r \<noteq> None \<and> pa_image_mime r \<noteq> None \<and> pa_promptpay_id r = None)
       ''ck_payment_accounts_image'') (\<lambda>_.
     tx_bind (int4 (pa_sort_order r)) (\<lambda>_.
     tx_bind (tx_get payment_accounts) (\<lambda>rs.
     tx_bind (unique (\<not> has_key pa_id (pa_id r) rs) ''pk_payment_accounts'') (\<lambda>_.
     tx_bind (unique (\<not> (live_default r \<and> list_ex live_default rs)) ''uq_payment_accounts_default'') (\<lambda>_.
     tx_modify (\<lambda>s. s\<lparr>payment_accounts := payment_accounts s @ [r]\<rparr>)))))))"

definition new_account :: "env \<Rightarrow> account_create \<Rightarrow> payment_account" where
  "new_account e dto = \<lparr>pa_id = ac_id dto, pa_nickname = ac_nickname dto, pa_bank_code = ac_bank_code dto, pa_kind = ac_kind dto,
     pa_promptpay_id = ac_promptpay_id dto, pa_image = map_option fst (ac_image dto), pa_image_mime = map_option snd (ac_image dto),
     pa_is_default = ac_is_default dto, pa_sort_order = ac_sort_order dto, pa_created_at = now e, pa_updated_at = now e,
     pa_deleted_at = None\<rparr>"

definition account_create_in :: "env \<Rightarrow> uuid option \<times> uuid option \<Rightarrow> account_create \<Rightarrow> account_view op" where
  "account_create_in e a dto =
     tx_bind (tx_get (\<lambda>s. has_key pa_id (ac_id dto) (payment_accounts s))) (\<lambda>taken.
     tx_bind (tx_guard (\<not> taken) (client_id_reused ''payment_account.create'' (ac_id dto))) (\<lambda>_.
     tx_bind (tx_get (\<lambda>s. length (filter live_account (payment_accounts s)))) (\<lambda>n.
     tx_bind (tx_guard (n < MAX_ACTIVE_PAYMENT_ACCOUNTS) (HttpErr 409 ''PAYMENT_ACCOUNT_LIMIT'' NoDetail)) (\<lambda>_.
     tx_bind (if ac_is_default dto then clear_default e None else tx_ret None) (\<lambda>old.
     let r = new_account e dto in
     tx_bind (insert_account r) (\<lambda>_.
     tx_bind (insert_audit (account_event a ''payment_account.created'' (pa_id r) None (audit_summary r @ previous_default old))) (\<lambda>_.
     tx_ret (to_payment_account r))))))))"

definition patched_account :: "env \<Rightarrow> account_patch \<Rightarrow> payment_account \<Rightarrow> payment_account" where
  "patched_account e p r = r\<lparr>pa_nickname := given_or (pa_nickname r) (ap_nickname p), pa_bank_code := given_or (pa_bank_code r) (ap_bank_code p),
     pa_promptpay_id := (if ap_promptpay_id p = None then pa_promptpay_id r else ap_promptpay_id p),
     pa_image := (case ap_image p of None \<Rightarrow> pa_image r | Some im \<Rightarrow> Some (fst im)),
     pa_image_mime := (case ap_image p of None \<Rightarrow> pa_image_mime r | Some im \<Rightarrow> Some (snd im)),
     pa_is_default := given_or (pa_is_default r) (ap_is_default p), pa_sort_order := given_or (pa_sort_order r) (ap_sort_order p),
     pa_updated_at := now e\<rparr>"

definition account_update_in :: "env \<Rightarrow> uuid option \<times> uuid option \<Rightarrow> uuid \<Rightarrow> account_patch \<Rightarrow> account_view op" where
  "account_update_in e a i p =
     tx_bind (active_row i) (\<lambda>r.
     tx_bind (tx_guard (ap_kind p = None \<or> ap_kind p = Some (pa_kind r)) (bad_request ''kind'')) (\<lambda>_.
     tx_bind (tx_guard (ap_promptpay_id p = None \<or> pa_kind r = Promptpay) (bad_request ''promptpayId'')) (\<lambda>_.
     tx_bind (tx_guard (ap_image p = None \<or> pa_kind r = Image_Account) (bad_request ''imageBase64'')) (\<lambda>_.
     tx_bind (if ap_is_default p = Some True \<and> \<not> pa_is_default r then clear_default e (Some i) else tx_ret None) (\<lambda>old.
     let r' = patched_account e p r; ch = changed_fields r r' in
     tx_bind (tx_get payment_accounts) (\<lambda>rs.
     tx_bind (unique (\<not> (live_default r' \<and> list_ex (\<lambda>q. live_default q \<and> pa_id q \<noteq> i) rs)) ''uq_payment_accounts_default'') (\<lambda>_.
     tx_bind (tx_modify (\<lambda>s. s\<lparr>payment_accounts := upd_where (\<lambda>q. pa_id q = i) (patched_account e p) (payment_accounts s)\<rparr>)) (\<lambda>_.
     tx_bind (insert_audit (account_event a (if ch = [''isDefault''] then ''payment_account.default_changed'' else ''payment_account.updated'') i
       (Some (audit_summary r)) (audit_summary r' @ [(''changedFields'', JArr (map JStr ch))] @ previous_default old))) (\<lambda>_.
     tx_ret (to_payment_account r'))))))))))"

definition removed :: "env \<Rightarrow> payment_account \<Rightarrow> payment_account" where
  "removed e r = r\<lparr>pa_deleted_at := Some (now e), pa_is_default := False, pa_updated_at := now e\<rparr>"

definition account_remove_in :: "env \<Rightarrow> uuid option \<times> uuid option \<Rightarrow> uuid \<Rightarrow> (account_view \<times> int) op" where
  "account_remove_in e a i =
     tx_bind (active_row i) (\<lambda>r.
     tx_bind (tx_modify (\<lambda>s. s\<lparr>payment_accounts := upd_where (\<lambda>q. pa_id q = i \<and> live_account q) (removed e) (payment_accounts s)\<rparr>)) (\<lambda>_.
     tx_bind (insert_audit (account_event a ''payment_account.deleted'' i None
       (audit_summary (removed e r) @ [(''deletedAt'', js_date (now e))]))) (\<lambda>_.
     tx_ret (to_payment_account (removed e r), now e))))"

text \<open>\<open>requireOwner\<close>, the first statement of every write.\<close>

definition require_owner :: "string option \<Rightarrow> err + unit" where
  "require_owner role = (if role = Some ''owner'' then Inr () else Inl (HttpErr 403 ''OWNER_ONLY'' NoDetail))"

section \<open>One default, five accounts\<close>

definition accounts_ok :: "db \<Rightarrow> bool" where
  "accounts_ok s \<longleftrightarrow> distinct (map pa_id (payment_accounts s)) \<and>
     length (filter live_account (payment_accounts s)) \<le> MAX_ACTIVE_PAYMENT_ACCOUNTS \<and>
     length (filter live_default (payment_accounts s)) \<le> 1"

inductive account_step :: "db \<Rightarrow> db \<Rightarrow> bool" where
  account_created: "account_create_in e a dto s = Inr (v, s') \<Longrightarrow> account_step s s'"
| account_updated: "account_update_in e a i p s = Inr (v, s') \<Longrightarrow> account_step s s'"
| account_removed: "account_remove_in e a i s = Inr (w, s') \<Longrightarrow> account_step s s'"

lemma ids_kept: "(\<And>r. pa_id (f r) = pa_id r) \<Longrightarrow> map pa_id (upd_where p f rs) = map pa_id rs"
  by (simp add: upd_where_def)

lemma one_default:
  "distinct (map pa_id rs) \<Longrightarrow> \<forall>q \<in> set rs. live_default q \<longrightarrow> pa_id q = i \<Longrightarrow> length (filter live_default rs) \<le> 1"
proof (induction rs)
  case (Cons q rs)
  show ?case
  proof (cases "live_default q")
    case True
    have "\<not> live_default r" if "r \<in> set rs" for r
    proof
      assume "live_default r"
      then have "pa_id r = pa_id q" using Cons.prems(2) True that by simp
      then show False using Cons.prems(1) that by (metis distinct.simps(2) image_eqI list.set_map list.simps(9))
    qed
    then have "filter live_default rs = []" by (simp add: filter_empty_conv)
    then show ?thesis using True by simp
  qed (use Cons in simp)
qed simp

lemma clear_default_Inr:
  assumes "clear_default e k s = Inr (old, s')"
  shows "map pa_id (payment_accounts s') = map pa_id (payment_accounts s)"
    "length (filter live_account (payment_accounts s')) \<le> length (filter live_account (payment_accounts s))"
    "length (filter live_default (payment_accounts s')) \<le> length (filter live_default (payment_accounts s))"
proof -
  have s': "payment_accounts s' = upd_where (\<lambda>r. live_default r \<and> Some (pa_id r) \<noteq> k)
      (\<lambda>r. r\<lparr>pa_is_default := False, pa_updated_at := now e\<rparr>) (payment_accounts s)"
    using assms by (auto simp: clear_default_def Let_def)
  show "map pa_id (payment_accounts s') = map pa_id (payment_accounts s)" unfolding s' by (rule ids_kept) simp
  show "length (filter live_account (payment_accounts s')) \<le> length (filter live_account (payment_accounts s))"
    unfolding s' by (rule count_upd) (simp add: live_account_def)
  show "length (filter live_default (payment_accounts s')) \<le> length (filter live_default (payment_accounts s))"
    unfolding s' by (rule count_upd) (simp add: live_default_def)
qed

lemma active_row_Inr:
  "active_row i s = Inr (r, s') \<longleftrightarrow> s' = s \<and> row_of pa_id i (filter live_account (payment_accounts s)) = Some r"
  by (auto simp: active_row_def split: option.splits)

lemma insert_audit_Inr: "insert_audit r s = Inr (u, s') \<longleftrightarrow> s' = s\<lparr>audit_log := audit_log s @ [r]\<rparr>"
  by (auto simp: insert_audit_def)

lemma insert_account_Inr:
  "insert_account r s = Inr (u, s') \<Longrightarrow> \<not> (live_default r \<and> list_ex live_default (payment_accounts s)) \<and>
     s' = s\<lparr>payment_accounts := payment_accounts s @ [r]\<rparr>"
  by (simp add: insert_account_def constraint_defs split: if_splits)

lemma account_create_Inr:
  assumes "account_create_in e a dto s = Inr (v, s')"
  obtains old s1 where "(if ac_is_default dto then clear_default e None else tx_ret None) s = Inr (old, s1)"
    "\<not> has_key pa_id (ac_id dto) (payment_accounts s)" "length (filter live_account (payment_accounts s)) < MAX_ACTIVE_PAYMENT_ACCOUNTS"
    "\<not> (live_default (new_account e dto) \<and> list_ex live_default (payment_accounts s1))"
    "payment_accounts s' = payment_accounts s1 @ [new_account e dto]"
proof -
  from assms obtain old s1 s2 where s: "\<not> has_key pa_id (ac_id dto) (payment_accounts s)"
    "length (filter live_account (payment_accounts s)) < MAX_ACTIVE_PAYMENT_ACCOUNTS"
    "(if ac_is_default dto then clear_default e None else tx_ret None) s = Inr (old, s1)"
    "insert_account (new_account e dto) s1 = Inr ((), s2)" "payment_accounts s' = payment_accounts s2"
    unfolding account_create_in_def Let_def by (clarsimp simp: insert_audit_Inr)
  from insert_account_Inr [OF s(4)] s(5) show ?thesis by (intro that [OF s(3,1,2)]) auto
qed

lemma account_update_Inr:
  assumes "account_update_in e a i p s = Inr (v, s')"
  obtains r old s1 where "row_of pa_id i (filter live_account (payment_accounts s)) = Some r"
    "(if ap_is_default p = Some True \<and> \<not> pa_is_default r then clear_default e (Some i) else tx_ret None) s = Inr (old, s1)"
    "\<not> (live_default (patched_account e p r) \<and> list_ex (\<lambda>q. live_default q \<and> pa_id q \<noteq> i) (payment_accounts s1))"
    "payment_accounts s' = upd_where (\<lambda>q. pa_id q = i) (patched_account e p) (payment_accounts s1)"
proof -
  from assms obtain r old s1 where s: "row_of pa_id i (filter live_account (payment_accounts s)) = Some r"
    "(if ap_is_default p = Some True \<and> \<not> pa_is_default r then clear_default e (Some i) else tx_ret None) s = Inr (old, s1)"
    "\<not> (live_default (patched_account e p r) \<and> list_ex (\<lambda>q. live_default q \<and> pa_id q \<noteq> i) (payment_accounts s1))"
    "payment_accounts s' = upd_where (\<lambda>q. pa_id q = i) (patched_account e p) (payment_accounts s1)"
    unfolding account_update_in_def Let_def unique_def by (clarsimp simp: insert_audit_Inr active_row_Inr)
  then show ?thesis by (rule that)
qed

lemma account_remove_Inr:
  assumes "account_remove_in e a i s = Inr (w, s')"
  shows "payment_accounts s' = upd_where (\<lambda>q. pa_id q = i \<and> live_account q) (removed e) (payment_accounts s)"
  using assms unfolding account_remove_in_def by (clarsimp simp: insert_audit_Inr active_row_Inr)

lemma account_create_keeps:
  assumes "accounts_ok s" "account_create_in e a dto s = Inr (v, s')"
  shows "accounts_ok s'"
proof -
  let ?r = "new_account e dto"
  obtain old s1 where c: "(if ac_is_default dto then clear_default e None else tx_ret None) s = Inr (old, s1)"
    and g: "\<not> has_key pa_id (ac_id dto) (payment_accounts s)" "length (filter live_account (payment_accounts s)) < MAX_ACTIVE_PAYMENT_ACCOUNTS"
    and u: "\<not> (live_default ?r \<and> list_ex live_default (payment_accounts s1))" "payment_accounts s' = payment_accounts s1 @ [?r]"
    using assms(2) by (rule account_create_Inr)
  have k: "map pa_id (payment_accounts s1) = map pa_id (payment_accounts s)"
    "length (filter live_account (payment_accounts s1)) \<le> length (filter live_account (payment_accounts s))"
    "length (filter live_default (payment_accounts s1)) \<le> length (filter live_default (payment_accounts s))"
    using c clear_default_Inr [of e None s old s1] by (auto split: if_splits)
  have "live_default ?r \<Longrightarrow> filter live_default (payment_accounts s1) = []" using u(1) by (auto simp: filter_empty_conv list_ex_iff)
  moreover have "distinct (map pa_id (payment_accounts s'))"
    using assms(1) g(1) by (simp add: u(2) k(1) accounts_ok_def has_key_def new_account_def del: set_map)
  ultimately show ?thesis
    using assms(1) g(2) k(2,3) u(2) by (simp add: accounts_ok_def)
qed

lemma account_update_keeps:
  assumes "accounts_ok s" "account_update_in e a i p s = Inr (v, s')"
  shows "accounts_ok s'"
proof -
  obtain r old s1 where r: "row_of pa_id i (filter live_account (payment_accounts s)) = Some r"
    and c: "(if ap_is_default p = Some True \<and> \<not> pa_is_default r then clear_default e (Some i) else tx_ret None) s = Inr (old, s1)"
    and u: "\<not> (live_default (patched_account e p r) \<and> list_ex (\<lambda>q. live_default q \<and> pa_id q \<noteq> i) (payment_accounts s1))"
      "payment_accounts s' = upd_where (\<lambda>q. pa_id q = i) (patched_account e p) (payment_accounts s1)"
    using assms(2) by (rule account_update_Inr)
  have k: "map pa_id (payment_accounts s1) = map pa_id (payment_accounts s)"
    "length (filter live_account (payment_accounts s1)) \<le> length (filter live_account (payment_accounts s))"
    "length (filter live_default (payment_accounts s1)) \<le> length (filter live_default (payment_accounts s))"
    using c clear_default_Inr [of e "Some i" s old s1] by (auto split: if_splits)
  have ids: "map pa_id (payment_accounts s') = map pa_id (payment_accounts s1)"
    unfolding u(2) by (rule ids_kept) (simp add: patched_account_def)
  have live: "length (filter live_account (payment_accounts s')) \<le> length (filter live_account (payment_accounts s1))"
    unfolding u(2) by (rule count_upd) (simp add: live_account_def patched_account_def)
  have "length (filter live_default (payment_accounts s')) \<le> 1"
  proof (cases "ap_is_default p = Some True")
    case True
    have "live_account r" using row_of_SomeD [OF r] by simp
    then have "live_default (patched_account e p r)" using True by (simp add: live_default_def live_account_def patched_account_def given_or_def)
    then have "\<forall>q \<in> set (payment_accounts s1). live_default q \<longrightarrow> pa_id q = i" using u(1) by (auto simp: list_ex_iff)
    then have "\<forall>q \<in> set (payment_accounts s'). live_default q \<longrightarrow> pa_id q = i"
      unfolding u(2) by (auto simp: upd_where_def patched_account_def)
    then show ?thesis using one_default ids k(1) assms(1) by (metis accounts_ok_def)
  next
    case False
    have "length (filter live_default (payment_accounts s')) \<le> length (filter live_default (payment_accounts s1))"
      unfolding u(2)
      by (rule count_upd) (use False in \<open>auto simp: live_default_def live_account_def patched_account_def given_or_def split: option.splits\<close>)
    then show ?thesis using k(3) assms(1) by (simp add: accounts_ok_def)
  qed
  then show ?thesis using assms(1) ids k live by (simp add: accounts_ok_def)
qed

lemma account_remove_keeps:
  assumes "accounts_ok s" "account_remove_in e a i s = Inr (w, s')"
  shows "accounts_ok s'"
proof -
  have s': "payment_accounts s' = upd_where (\<lambda>q. pa_id q = i \<and> live_account q) (removed e) (payment_accounts s)"
    by (rule account_remove_Inr [OF assms(2)])
  have "map pa_id (payment_accounts s') = map pa_id (payment_accounts s)" unfolding s' by (rule ids_kept) (simp add: removed_def)
  moreover have "length (filter live_account (payment_accounts s')) \<le> length (filter live_account (payment_accounts s))"
    unfolding s' by (rule count_upd) simp
  moreover have "length (filter live_default (payment_accounts s')) \<le> length (filter live_default (payment_accounts s))"
    unfolding s' by (rule count_upd) (simp add: live_default_def removed_def)
  ultimately show ?thesis using assms(1) by (simp add: accounts_ok_def)
qed

lemma account_keeps_ids:
  "account_create_in e a dto s = Inr (v, s') \<Longrightarrow> set (map pa_id (payment_accounts s)) \<subseteq> set (map pa_id (payment_accounts s'))"
  "account_update_in e a i p s = Inr (v, s') \<Longrightarrow> set (map pa_id (payment_accounts s)) \<subseteq> set (map pa_id (payment_accounts s'))"
  "account_remove_in e a i s = Inr (w, s') \<Longrightarrow> set (map pa_id (payment_accounts s)) \<subseteq> set (map pa_id (payment_accounts s'))"
proof -
  assume "account_create_in e a dto s = Inr (v, s')"
  then obtain old s1 where "(if ac_is_default dto then clear_default e None else tx_ret None) s = Inr (old, s1)"
    "payment_accounts s' = payment_accounts s1 @ [new_account e dto]"
    by (rule account_create_Inr)
  then have "map pa_id (payment_accounts s') = map pa_id (payment_accounts s) @ [pa_id (new_account e dto)]"
    using clear_default_Inr(1) [of e None s old s1] by (auto split: if_splits)
  then show "set (map pa_id (payment_accounts s)) \<subseteq> set (map pa_id (payment_accounts s'))" by (simp add: subset_insertI del: set_map)
next
  assume "account_update_in e a i p s = Inr (v, s')"
  then obtain r old s1 where "row_of pa_id i (filter live_account (payment_accounts s)) = Some r"
    and c: "(if ap_is_default p = Some True \<and> \<not> pa_is_default r then clear_default e (Some i) else tx_ret None) s = Inr (old, s1)"
    and "\<not> (live_default (patched_account e p r) \<and> list_ex (\<lambda>q. live_default q \<and> pa_id q \<noteq> i) (payment_accounts s1))"
    and u: "payment_accounts s' = upd_where (\<lambda>q. pa_id q = i) (patched_account e p) (payment_accounts s1)"
    by (rule account_update_Inr)
  have "map pa_id (payment_accounts s1) = map pa_id (payment_accounts s)"
    using c clear_default_Inr(1) [of e "Some i" s old s1] by (auto split: if_splits)
  moreover have "map pa_id (payment_accounts s') = map pa_id (payment_accounts s1)"
    unfolding u by (rule ids_kept) (simp add: patched_account_def)
  ultimately show "set (map pa_id (payment_accounts s)) \<subseteq> set (map pa_id (payment_accounts s'))" by (simp del: set_map)
next
  assume r: "account_remove_in e a i s = Inr (w, s')"
  have "map pa_id (payment_accounts s') = map pa_id (payment_accounts s)"
    unfolding account_remove_Inr [OF r] by (rule ids_kept) (simp add: removed_def)
  then show "set (map pa_id (payment_accounts s)) \<subseteq> set (map pa_id (payment_accounts s'))" by (simp del: set_map)
qed

text \<open>
  C31. Whatever is done to the shop's QR accounts, in whatever order, at most five are live, at most one of the live
  ones is the default, and no two rows share an id; a deleted account stays on file under its id.
\<close>

theorem accounts_stay_bounded:
  assumes "account_step\<^sup>*\<^sup>* s s'" "accounts_ok s"
  shows "accounts_ok s' \<and> set (map pa_id (payment_accounts s)) \<subseteq> set (map pa_id (payment_accounts s'))"
  using assms(1)
proof (induction rule: rtranclp_induct)
  case base
  then show ?case using assms(2) by simp
next
  case (step s1 s2)
  from step.hyps(2) have "set (map pa_id (payment_accounts s1)) \<subseteq> set (map pa_id (payment_accounts s2)) \<and> (accounts_ok s1 \<longrightarrow> accounts_ok s2)"
  proof cases
    case (account_created e a dto v)
    then show ?thesis using account_create_keeps account_keeps_ids(1) by blast
  next
    case (account_updated e a i p v)
    then show ?thesis using account_update_keeps account_keeps_ids(2) by blast
  next
    case (account_removed e a i w)
    then show ?thesis using account_remove_keeps account_keeps_ids(3) by blast
  qed
  then show ?case using step.IH by blast
qed

theorem accounts_stay_bounded_witness:
  "\<exists>v s'. account_create_in sample_env (Some ''u'', None) \<lparr>ac_id = ''a'', ac_nickname = ''KBank'', ac_bank_code = ''KBANK'', ac_is_default = True,
       ac_sort_order = 0, ac_kind = Promptpay, ac_promptpay_id = Some ''0812345678'', ac_image = None\<rparr> blank_db = Inr (v, s') \<and> accounts_ok s'"
proof -
  let ?dto = "\<lparr>ac_id = ''a'', ac_nickname = ''KBank'', ac_bank_code = ''KBANK'', ac_is_default = True,
       ac_sort_order = 0, ac_kind = Promptpay, ac_promptpay_id = Some ''0812345678'', ac_image = None\<rparr>"
  have ok: "accounts_ok blank_db" by (simp add: accounts_ok_def)
  have "\<exists>v s'. account_create_in sample_env (Some ''u'', None) ?dto blank_db = Inr (v, s')"
    by (simp add: account_create_in_def clear_default_def insert_account_def insert_audit_def constraint_defs Let_def new_account_def
        MAX_ACTIVE_PAYMENT_ACCOUNTS_def live_default_def INT4_MAX_def)
  then obtain v s' where run: "account_create_in sample_env (Some ''u'', None) ?dto blank_db = Inr (v, s')" by blast
  have "account_step\<^sup>*\<^sup>* blank_db s'" by (rule r_into_rtranclp [of account_step]) (rule account_created [OF run])
  from accounts_stay_bounded [OF this ok] run show ?thesis by blast
qed

section \<open>An image there and back\<close>

lemma index_in_nth: "distinct ds \<Longrightarrow> n < length ds \<Longrightarrow> index_in (ds ! n) ds = Some n"
proof (induction ds arbitrary: n)
  case (Cons d ds)
  then show ?case by (cases n) (auto simp: nth_mem)
qed simp

lemma B64_letters: "distinct B64" "length B64 = 64" "CHR ''='' \<notin> set B64"
  by (code_simp)+

lemma b64_value_digit: "n < 64 \<Longrightarrow> b64_value (b64_digit n) = Some n"
  unfolding b64_value_def b64_digit_def using index_in_nth B64_letters(1,2) by simp

lemma b64_digit_pad: "n < 64 \<Longrightarrow> b64_digit n \<noteq> CHR ''=''"
  unfolding b64_digit_def using B64_letters(2,3) nth_mem by metis

lemma b64_parts:
  fixes a b c :: nat
  assumes "a < 256" "b < 256" "c < 256"
  shows "a div 4 < 64" "a mod 4 * 16 + b div 16 < 64" "b mod 16 * 4 + c div 64 < 64" "c mod 64 < 64" "a mod 4 * 16 < 64" "b mod 16 * 4 < 64"
    "a div 4 * 4 + (a mod 4 * 16 + b div 16) div 16 = a" "(a mod 4 * 16 + b div 16) mod 16 * 16 + (b mod 16 * 4 + c div 64) div 4 = b"
    "(b mod 16 * 4 + c div 64) mod 4 * 64 + c mod 64 = c" "a div 4 * 4 + (a mod 4 * 16) div 16 = a"
    "(a mod 4 * 16 + b div 16) mod 16 * 16 + (b mod 16 * 4) div 4 = b"
proof -
  have d: "b div 16 < 16" "c div 64 < 4" using assms by (simp_all add: less_mult_imp_div_less)
  then have q: "(a mod 4 * 16 + b div 16) div 16 = a mod 4" "(a mod 4 * 16 + b div 16) mod 16 = b div 16"
    "(b mod 16 * 4 + c div 64) div 4 = b mod 16" "(b mod 16 * 4 + c div 64) mod 4 = c div 64" by simp_all
  have m: "a mod 4 < 4" "b mod 16 < 16" "c mod 64 < 64" "a div 4 * 4 + a mod 4 = a" "b div 16 * 16 + b mod 16 = b"
    "c div 64 * 64 + c mod 64 = c" "(a mod 4 * 16) div 16 = a mod 4" "(b mod 16 * 4) div 4 = b mod 16"
    by (simp_all add: mult.commute)
  show "a div 4 < 64" "a mod 4 * 16 + b div 16 < 64" "b mod 16 * 4 + c div 64 < 64" "c mod 64 < 64" "a mod 4 * 16 < 64" "b mod 16 * 4 < 64"
    "a div 4 * 4 + (a mod 4 * 16 + b div 16) div 16 = a" "(a mod 4 * 16 + b div 16) mod 16 * 16 + (b mod 16 * 4 + c div 64) div 4 = b"
    "(b mod 16 * 4 + c div 64) mod 4 * 64 + c mod 64 = c" "a div 4 * 4 + (a mod 4 * 16) div 16 = a"
    "(a mod 4 * 16 + b div 16) mod 16 * 16 + (b mod 16 * 4) div 4 = b"
    unfolding q using assms d m by linarith+
qed

lemma b64_decode_more:
  "b64_decode (a # b # c # d # e # r) = (case (b64_value a, b64_value b, b64_value c, b64_value d, b64_decode (e # r)) of
     (Some x, Some y, Some z, Some w, Some bs) \<Rightarrow> Some ((x * 4 + y div 16) # (y mod 16 * 16 + z div 4) # (z mod 4 * 64 + w) # bs)
   | _ \<Rightarrow> None)"
  by (simp split: option.split)

lemma b64_encode_nonempty: "bs \<noteq> [] \<Longrightarrow> b64_encode bs \<noteq> []"
  by (cases bs rule: b64_encode.cases) auto

lemma b64_round_trip: "\<forall>x \<in> set bs. x < 256 \<Longrightarrow> b64_decode (b64_encode bs) = Some bs"
proof (induction bs rule: b64_encode.induct)
  case (2 a)
  then show ?case using b64_parts [of a 0 0] by (simp add: b64_value_digit)
next
  case (3 a b)
  then show ?case using b64_parts [of a b 0] by (simp add: b64_value_digit b64_digit_pad)
next
  case (4 a b c r)
  then have p: "a < 256" "b < 256" "c < 256" and IH: "b64_decode (b64_encode r) = Some r" by simp_all
  note q = b64_parts [OF p]
  show ?case
  proof (cases r)
    case Nil
    then show ?thesis using q by (simp add: b64_value_digit b64_digit_pad)
  next
    case (Cons x xs)
    then obtain e es where "b64_encode r = e # es" using b64_encode_nonempty [of r] by (cases "b64_encode r") auto
    then show ?thesis using q IH unfolding b64_encode.simps by (simp only: b64_decode_more) (simp add: b64_value_digit)
  qed
qed simp

lemma b64_encode_length: "length (b64_encode bs) = (length bs + 2) div 3 * 4"
proof (induction bs rule: b64_encode.induct)
  case (4 a b c r)
  have "(length (a # b # c # r) + 2) div 3 = Suc ((length r + 2) div 3)"
    using div_add_self2 [of 3 "length r + 2"] by simp
  then show ?case using 4 by simp
qed simp_all

lemma b64_encode_chars: "\<forall>x \<in> set bs. x < 256 \<Longrightarrow> set (b64_encode bs) \<subseteq> insert (CHR ''='') (set B64)"
proof (induction bs rule: b64_encode.induct)
  case (2 a)
  then show ?case using b64_parts [of a 0 0] B64_letters(2) by (simp add: b64_digit_def)
next
  case (3 a b)
  then show ?case using b64_parts [of a b 0] B64_letters(2) by (simp add: b64_digit_def)
next
  case (4 a b c r)
  then show ?case using b64_parts [of a b c] B64_letters(2) by (simp add: b64_digit_def)
qed simp

lemma b64_js_length:
  assumes "\<forall>x \<in> set bs. x < 256"
  shows "js_length (b64_encode bs) = (length bs + 2) div 3 * 4"
proof -
  have "list_all (\<lambda>c. code_units c = 1) (CHR ''='' # B64)" by code_simp
  then have "\<forall>c \<in> set (b64_encode bs). code_units c = 1" using b64_encode_chars [OF assms] by (auto simp: list_all_iff)
  from js_length_ascii [OF this] show ?thesis by (simp add: b64_encode_length)
qed

lemma index_in_bound: "index_in c ds = Some n \<Longrightarrow> n < length ds"
  by (induction ds arbitrary: n) (auto split: if_splits)

lemma b64_value_bound: "b64_value c = Some n \<Longrightarrow> n < 64"
  using index_in_bound B64_letters(2) by (metis b64_value_def)

lemma b64_bytes:
  fixes x y z :: nat
  assumes "x < 64" "y < 64" "z < 64"
  shows "x * 4 + y div 16 < 256" "y mod 16 * 16 + z div 4 < 256" "x mod 4 * 64 + y < 256"
proof -
  have "y div 16 < 4" "z div 4 < 16" "y mod 16 < 16" "x mod 4 < 4" using assms by (simp_all add: less_mult_imp_div_less)
  then show "x * 4 + y div 16 < 256" "y mod 16 * 16 + z div 4 < 256" "x mod 4 * 64 + y < 256" using assms by linarith+
qed

lemma b64_decode_bytes: "b64_decode t = Some bs \<Longrightarrow> \<forall>x \<in> set bs. x < 256"
proof (induction t arbitrary: bs rule: b64_decode.induct)
  case (2 a b c d)
  then show ?case
    by (auto split: option.splits if_splits dest!: b64_value_bound intro: b64_bytes)
next
  case (3 a b c d e r)
  from 3(2) obtain x y z w bs' where v: "b64_value a = Some x" "b64_value b = Some y" "b64_value c = Some z" "b64_value d = Some w"
    "b64_decode (e # r) = Some bs'" "bs = (x * 4 + y div 16) # (y mod 16 * 16 + z div 4) # (z mod 4 * 64 + w) # bs'"
    by (auto split: option.splits)
  then show ?case using 3(1) b64_bytes v(1-4) [THEN b64_value_bound] by simp
qed simp_all

text \<open>
  The image of an account survives the wire: whatever text it arrived as, the text it is sent out as is accepted with
  the same bytes and the same type.
\<close>

theorem image_round_trip:
  assumes "decode_qr_image v w = Inr (bs, m)"
  shows "decode_qr_image (JStr (b64_encode bs)) (JStr m) = Inr (bs, m)"
proof -
  from assms obtain t where d: "b64_decode t = Some bs" "m = ''image/png'' \<or> m = ''image/jpeg''" "length bs \<le> MAX_IMAGE_BYTES"
    "take (length (if m = ''image/png'' then PNG_MAGIC else JPEG_MAGIC)) bs = (if m = ''image/png'' then PNG_MAGIC else JPEG_MAGIC)"
    by (auto simp: decode_qr_image_def Let_def split: jsval.splits if_splits)
  have small: "\<forall>x \<in> set bs. x < 256" by (rule b64_decode_bytes [OF d(1)])
  have "bs \<noteq> []" using d(4) by (auto simp: PNG_MAGIC_def JPEG_MAGIC_def split: if_splits)
  then have ne: "b64_encode bs \<noteq> []" by (rule b64_encode_nonempty)
  have "js_length (b64_encode bs) div 4 * 3 = (length bs + 2) div 3 * 3" unfolding b64_js_length [OF small] by simp
  also have "\<dots> \<le> MAX_IMAGE_BYTES + 2" using d(3) div_times_less_eq_dividend [of "length bs + 2" 3] by linarith
  finally have len: "js_length (b64_encode bs) div 4 * 3 \<le> MAX_IMAGE_BYTES + 2" .
  show ?thesis
    using d(2,3,4) ne len b64_round_trip [OF small] by (auto simp: decode_qr_image_def Let_def)
qed

theorem image_round_trip_witness:
  "decode_qr_image (JStr ''/9j/'') (JStr ''image/jpeg'') = Inr ([255, 216, 255], ''image/jpeg'') \<and>
   decode_qr_image (JStr (b64_encode [255, 216, 255])) (JStr ''image/jpeg'') = Inr ([255, 216, 255], ''image/jpeg'')"
proof -
  have one: "decode_qr_image (JStr ''/9j/'') (JStr ''image/jpeg'') = Inr ([255, 216, 255], ''image/jpeg'')"
    by (simp add: decode_qr_image_def b64_value_def B64_def js_length_def code_units_def Let_def MAX_IMAGE_BYTES_def JPEG_MAGIC_def)
  from one image_round_trip [OF one] show ?thesis by blast
qed

end
