(* ===== verification/Settings.thy ===== *)
theory Settings
  imports People Js_Text
begin

text \<open>
  The shop's settings (\<open>settings/settings.dto.ts\<close>, \<open>settings/settings.service.ts\<close>): the patch and its numbers, the row
  that is made when it is missing, and what the clients start from (\<open>/bootstrap\<close>, with its ETag). The cached read is in
  theory \<open>Tenant_Cache\<close>.
\<close>

section \<open>The patch\<close>

record settings_patch =
  sx_shop_name :: "string option"
  sx_shop_name_en :: "string option"
  sx_tax_rate :: "real option"
  sx_quote_valid_days :: "int option"
  sx_address :: "string option option"
  sx_phone :: "string option option"
  sx_cashier_name :: "string option option"
  sx_tax_id :: "string option option"
  sx_branch_no :: "string option option"

definition trimmed_required :: "jsval \<Rightarrow> string \<Rightarrow> err + string" where
  "trimmed_required v field = (case v of JStr s \<Rightarrow> if trim s = [] then Inl (bad_request field) else Inr (trim s) | _ \<Rightarrow> Inl (bad_request field))"

definition trimmed_optional :: "jsval \<Rightarrow> string \<Rightarrow> err + string option" where
  "trimmed_optional v field =
     (if is_nullish v then Inr None
      else case v of JStr s \<Rightarrow> Inr (if trim s = [] then None else Some (trim s)) | _ \<Rightarrow> Inl (bad_request field))"

definition is_bool :: "jsval \<Rightarrow> bool" where "is_bool v = (case v of JBool b \<Rightarrow> True | _ \<Rightarrow> False)"

definition required_number :: "jsval \<Rightarrow> string \<Rightarrow> real \<Rightarrow> real \<Rightarrow> err + real" where
  "required_number v field low high =
     (case number_of_value v of
        Fin x \<Rightarrow> if is_bool v \<or> x < low \<or> high < x then Inl (bad_request field) else Inr x
      | _ \<Rightarrow> Inl (bad_request field))"

text \<open>\<open>Number(x.toFixed(6))\<close> of a number that is not negative.\<close>

definition fixed6 :: "real \<Rightarrow> real" where
  "fixed6 x = fl (of_int \<lfloor>x * 1000000 + 1 / 2\<rfloor> / 1000000)"

definition required_tax_rate :: "jsval \<Rightarrow> err + real" where
  "required_tax_rate v =
     e_bind (required_number v ''taxRate'' 0 100) (\<lambda>x.
     if of_int (math_round (js_mul x 100)) \<noteq> fixed6 (js_mul x 100) then Inl (bad_request ''taxRate'') else Inr x)"

definition required_whole :: "jsval \<Rightarrow> string \<Rightarrow> int \<Rightarrow> err + int" where
  "required_whole v field low =
     (case whole (number_of_value v) of
        None \<Rightarrow> Inl (bad_request field)
      | Some n \<Rightarrow> if is_bool v \<or> n < low then Inl (bad_request field) else Inr n)"

definition parse_settings_patch :: "jsval \<Rightarrow> err + settings_patch" where
  "parse_settings_patch body =
     e_bind (as_object body ''body'') (\<lambda>b.
     e_bind (if_sent b ''shopName'' (\<lambda>v. trimmed_required v ''shopName'')) (\<lambda>sn.
     e_bind (if_sent b ''shopNameEn'' (\<lambda>v. e_bind (trimmed_optional v ''shopNameEn'') (\<lambda>t. Inr (case t of None \<Rightarrow> [] | Some t \<Rightarrow> t)))) (\<lambda>se.
     e_bind (if_sent b ''taxRate'' required_tax_rate) (\<lambda>tax.
     e_bind (if_sent b ''quoteValidDays'' (\<lambda>v. required_whole v ''quoteValidDays'' 1)) (\<lambda>days.
     e_bind (if_sent b ''address'' (\<lambda>v. trimmed_optional v ''address'')) (\<lambda>ad.
     e_bind (if_sent b ''phone'' (\<lambda>v. trimmed_optional v ''phone'')) (\<lambda>ph.
     e_bind (if_sent b ''cashierName'' (\<lambda>v. trimmed_optional v ''cashierName'')) (\<lambda>cn.
     e_bind (if_sent b ''taxId'' (\<lambda>v. trimmed_optional v ''taxId'')) (\<lambda>ti.
     e_bind (if_sent b ''branchNo'' (\<lambda>v. trimmed_optional v ''branchNo'')) (\<lambda>br.
     Inr \<lparr>sx_shop_name = sn, sx_shop_name_en = se, sx_tax_rate = tax, sx_quote_valid_days = days, sx_address = ad,
          sx_phone = ph, sx_cashier_name = cn, sx_tax_id = ti, sx_branch_no = br\<rparr>))))))))))"

section \<open>The row\<close>

definition default_settings :: "env \<Rightarrow> db \<Rightarrow> settings_row" where
  "default_settings e s =
     \<lparr>st_shop_name = (if fst (tenant_names s) = [] then ''SriSurart Autopart'' else fst (tenant_names s)),
      st_shop_name_en = snd (tenant_names s), st_tax_rate = 700, st_quote_valid_days = 30, st_address = None, st_phone = None,
      st_cashier_name = None, st_tax_id = None, st_branch_no = None, st_updated_at = now e\<rparr>"

definition get_settings_in :: "env \<Rightarrow> settings_row op" where
  "get_settings_in e =
     tx_bind (tx_get settings) (\<lambda>row.
     case row of
       Some r \<Rightarrow> tx_ret r
     | None \<Rightarrow>
         tx_bind (tx_get (default_settings e)) (\<lambda>r.
         tx_bind (tx_modify (\<lambda>s. s\<lparr>settings := Some r\<rparr>)) (\<lambda>_. tx_ret r)))"

text \<open>
  The patched row. The rate goes into \<open>NUMERIC(5,2)\<close>, in hundredths; the parser let only numbers through that are
  within a millionth of a whole number of them.
\<close>

definition patch_settings :: "env \<Rightarrow> settings_patch \<Rightarrow> settings_row \<Rightarrow> settings_row" where
  "patch_settings e p r =
     \<lparr>st_shop_name = sent_or (sx_shop_name p) (st_shop_name r), st_shop_name_en = sent_or (sx_shop_name_en p) (st_shop_name_en r),
      st_tax_rate = (case sx_tax_rate p of None \<Rightarrow> st_tax_rate r | Some x \<Rightarrow> math_round (js_mul x 100)),
      st_quote_valid_days = sent_or (sx_quote_valid_days p) (st_quote_valid_days r),
      st_address = sent_or (sx_address p) (st_address r), st_phone = sent_or (sx_phone p) (st_phone r),
      st_cashier_name = sent_or (sx_cashier_name p) (st_cashier_name r), st_tax_id = sent_or (sx_tax_id p) (st_tax_id r),
      st_branch_no = sent_or (sx_branch_no p) (st_branch_no r), st_updated_at = now e\<rparr>"

definition numeric_5_2 :: "int \<Rightarrow> unit op" where
  "numeric_5_2 n = tx_guard (\<bar>n\<bar> < 100000) (DbErr ''22003'' [])"

definition update_settings_in :: "env \<Rightarrow> settings_patch \<Rightarrow> settings_row op" where
  "update_settings_in e p =
     tx_bind (get_settings_in e) (\<lambda>current.
     let r = patch_settings e p current in
     tx_bind (numeric_5_2 (st_tax_rate r)) (\<lambda>_.
     tx_bind (int4 (st_quote_valid_days r)) (\<lambda>_.
     tx_bind (tx_modify (\<lambda>s. s\<lparr>settings := Some r\<rparr>)) (\<lambda>_.
     tx_bind (add_hook (Invalidate ''settings'')) (\<lambda>_. tx_ret r)))))"

section \<open>What a client starts from\<close>

record bootstrap_data =
  bt_products :: "product list"
  bt_categories :: "category list"
  bt_customers :: "customer list"
  bt_mechanics :: "mechanic list"
  bt_settings :: settings_row

definition get_bootstrap_in :: "env \<Rightarrow> bootstrap_data op" where
  "get_bootstrap_in e =
     tx_bind (tx_get id) (\<lambda>s.
     tx_bind (get_settings_in e) (\<lambda>st.
     tx_ret \<lparr>bt_products = sort_key p_part_no (sort_key p_id (filter (\<lambda>p. \<not> p_deleted p) (products s))),
       bt_categories = sort_key cat_position (sort_key cat_name (categories s)),
       bt_customers = sort_key c_code (sort_key c_id (filter (\<lambda>c. \<not> c_deleted c) (customers s))),
       bt_mechanics = sort_key m_code (sort_key m_id (filter (\<lambda>m. \<not> m_deleted m) (mechanics s))),
       bt_settings = st\<rparr>))"

text \<open>The ETag: \<open>hash\<close> is the SHA-256 of the body, and a body the client says it has is not sent again.\<close>

definition strip_weak :: "string \<Rightarrow> string" where
  "strip_weak t = (if take 2 t = ''W/'' then drop 2 t else t)"

definition quoted :: "string \<Rightarrow> string" where "quoted h = CHR 0x22 # h @ [CHR 0x22]"

definition bootstrap_answer :: "string \<Rightarrow> string option \<Rightarrow> 'a \<Rightarrow> nat \<times> 'a option" where
  "bootstrap_answer hash if_none_match body =
     (case if_none_match of
        None \<Rightarrow> (200, Some body)
      | Some raw \<Rightarrow>
          if raw = [] then (200, Some body)
          else let t = trim (strip_weak raw) in
            if t = quoted hash \<or> t = hash \<or> t = ''*'' then (304, None) else (200, Some body))"

section \<open>Facts\<close>

definition settings_ok :: "db \<Rightarrow> bool" where
  "settings_ok s \<longleftrightarrow> (case settings s of None \<Rightarrow> True
     | Some r \<Rightarrow> 0 \<le> st_tax_rate r \<and> st_tax_rate r \<le> 10000 \<and> 1 \<le> st_quote_valid_days r \<and> st_quote_valid_days r \<le> INT4_MAX)"

definition patch_ok :: "settings_patch \<Rightarrow> bool" where
  "patch_ok p \<longleftrightarrow> (\<forall>x. sx_tax_rate p = Some x \<longrightarrow> 0 \<le> x \<and> x \<le> 100) \<and> (\<forall>n. sx_quote_valid_days p = Some n \<longrightarrow> 1 \<le> n)"

lemma if_sent_result: "if_sent b k f = Inr r \<longleftrightarrow> (if has_prop b k then \<exists>v. f (get_prop b k) = Inr v \<and> r = Some v else r = None)"
  by (auto simp: if_sent_def)

lemma required_tax_rate_Inr: "required_tax_rate v = Inr x \<Longrightarrow> 0 \<le> x \<and> x \<le> 100"
  by (auto simp: required_tax_rate_def required_number_def split: jsnum.splits if_splits)

lemma required_whole_Inr: "required_whole v f low = Inr n \<Longrightarrow> low \<le> n"
  by (auto simp: required_whole_def split: option.splits if_splits)

lemma parsed_patch_Inr:
  assumes "parse_settings_patch body = Inr p"
  shows "\<exists>b. if_sent b ''taxRate'' required_tax_rate = Inr (sx_tax_rate p) \<and>
    if_sent b ''quoteValidDays'' (\<lambda>v. required_whole v ''quoteValidDays'' 1) = Inr (sx_quote_valid_days p)"
  using assms unfolding parse_settings_patch_def by (clarsimp simp: e_bind_Inr) blast

lemma parsed_patch_ok: "parse_settings_patch body = Inr p \<Longrightarrow> patch_ok p"
  by (drule parsed_patch_Inr) (auto simp: patch_ok_def if_sent_result dest: required_tax_rate_Inr required_whole_Inr split: if_splits)

lemma hundredths_bounds:
  assumes "0 \<le> x" "x \<le> 100"
  shows "0 \<le> math_round (js_mul x 100) \<and> math_round (js_mul x 100) \<le> 10000"
proof -
  have "fl 0 \<le> fl (x * 100)" using assms by (intro fl_mono) simp
  moreover have "fl (x * 100) \<le> fl 10000" using assms by (intro fl_mono) simp
  moreover have "fl (of_int 10000) = of_int 10000" by (rule fl_of_int) simp
  ultimately have "0 \<le> js_mul x 100" "js_mul x 100 \<le> 10000" by (simp_all add: js_mul_def)
  then show ?thesis unfolding math_round_def by linarith
qed

lemma get_settings_in_Inr:
  "get_settings_in e s = Inr (r, s') \<longleftrightarrow>
     r = (case settings s of None \<Rightarrow> default_settings e s | Some r \<Rightarrow> r) \<and> s' = s\<lparr>settings := Some r\<rparr>"
  by (auto simp: get_settings_in_def split: option.splits)

lemma update_settings_in_Inr:
  assumes "update_settings_in e p s = Inr (r, s')"
  shows "r = patch_settings e p (case settings s of None \<Rightarrow> default_settings e s | Some r \<Rightarrow> r) \<and> settings s' = Some r \<and>
    st_quote_valid_days r \<le> INT4_MAX"
  using assms by (auto simp: update_settings_in_def get_settings_in_Inr Let_def add_hook_def int4_def)

lemma update_settings_keeps:
  assumes "settings_ok s" "patch_ok p" "update_settings_in e p s = Inr (r, s')"
  shows "settings_ok s'"
proof -
  let ?c = "case settings s of None \<Rightarrow> default_settings e s | Some r \<Rightarrow> r"
  have u: "r = patch_settings e p ?c" "settings s' = Some r" "st_quote_valid_days r \<le> INT4_MAX"
    using update_settings_in_Inr [OF assms(3)] by blast+
  have "0 \<le> st_tax_rate ?c \<and> st_tax_rate ?c \<le> 10000 \<and> 1 \<le> st_quote_valid_days ?c"
    using assms(1) by (auto simp: settings_ok_def default_settings_def split: option.splits)
  then show ?thesis
    using assms(2) u hundredths_bounds
    by (auto simp: settings_ok_def patch_ok_def patch_settings_def sent_or_def split: option.splits)
qed

end
