(* ===== verification/Parked_Sales.thy ===== *)
theory Parked_Sales
  imports Settings
begin

text \<open>
  Parked bills (\<open>parked-sales/parked-sales.service.ts\<close>): a cart as the till sent it, listed newest first and taken out
  when it is recalled. No operation touches the stock.
\<close>

definition parked_list_in :: "parked_sale list op" where
  "parked_list_in = tx_get (\<lambda>s. rev (sort_key pk_parked_at (sort_key pk_id (parked_sales s))))"

definition parse_park_body :: "jsval \<Rightarrow> err + jsval" where
  "parse_park_body body =
     (case (case body of JObj b \<Rightarrow> get_prop b ''payload'' | _ \<Rightarrow> JUndef) of
        JObj p \<Rightarrow> Inr (JObj p)
      | _ \<Rightarrow> Inl (bad_request ''payload''))"

definition park_in :: "env \<Rightarrow> jsval \<Rightarrow> uuid \<Rightarrow> parked_sale op" where
  "park_in e payload dev =
     tx_bind (fresh_id e) (\<lambda>i.
     let r = \<lparr>pk_id = i, pk_parked_at = now e, pk_device_id = Some dev, pk_payload = payload\<rparr> in
     tx_bind (tx_get parked_sales) (\<lambda>rs.
     tx_bind (unique (\<not> has_key pk_id i rs) ''parked_sales_pkey'') (\<lambda>_.
     tx_bind (tx_modify (\<lambda>s. s\<lparr>parked_sales := parked_sales s @ [r]\<rparr>)) (\<lambda>_. tx_ret r))))"

definition post_parked_sale :: "env \<Rightarrow> uuid option \<Rightarrow> jsval \<Rightarrow> parked_sale op" where
  "post_parked_sale e dev body =
     (case dev of
        None \<Rightarrow> tx_throw device_role_forbidden
      | Some d \<Rightarrow> if d = [] then tx_throw device_role_forbidden else tx_bind (tx_lift (parse_park_body body)) (\<lambda>p. park_in e p d))"

definition recall_in :: "uuid \<Rightarrow> parked_sale op" where
  "recall_in i =
     tx_bind (tx_get (\<lambda>s. row_of pk_id i (parked_sales s))) (\<lambda>row.
     case row of
       None \<Rightarrow> tx_throw (HttpErr 404 ''PARKED_SALE_NOT_FOUND'' NoDetail)
     | Some r \<Rightarrow> tx_bind (tx_modify (\<lambda>s. s\<lparr>parked_sales := filter (\<lambda>q. pk_id q \<noteq> i) (parked_sales s)\<rparr>)) (\<lambda>_. tx_ret r))"

section \<open>A bill is recalled once\<close>

text \<open>What tills do with parked bills.\<close>

datatype park_event = Parked_Bill parked_sale | Recalled_Bill parked_sale

inductive park_step :: "db \<Rightarrow> park_event \<Rightarrow> db \<Rightarrow> bool" where
  parks: "park_in e p d s = Inr (r, s') \<Longrightarrow> park_step s (Parked_Bill r) s'"
| recalls: "recall_in i s = Inr (r, s') \<Longrightarrow> park_step s (Recalled_Bill r) s'"

inductive park_run :: "db \<Rightarrow> park_event list \<Rightarrow> db \<Rightarrow> bool" where
  rested: "park_run s [] s"
| went_on: "park_run s xs s' \<Longrightarrow> park_step s' x s'' \<Longrightarrow> park_run s (xs @ [x]) s''"

fun parked_rows :: "park_event list \<Rightarrow> parked_sale list" where
  "parked_rows [] = []"
| "parked_rows (Parked_Bill r # xs) = r # parked_rows xs"
| "parked_rows (Recalled_Bill r # xs) = parked_rows xs"

fun recalled_rows :: "park_event list \<Rightarrow> parked_sale list" where
  "recalled_rows [] = []"
| "recalled_rows (Recalled_Bill r # xs) = r # recalled_rows xs"
| "recalled_rows (Parked_Bill r # xs) = recalled_rows xs"

lemma rows_append [simp]:
  "parked_rows (xs @ ys) = parked_rows xs @ parked_rows ys" "recalled_rows (xs @ ys) = recalled_rows xs @ recalled_rows ys"
  by (induction xs rule: parked_rows.induct) auto

lemma park_in_Inr:
  "park_in e p d s = Inr (r, s') \<Longrightarrow>
     parked_sales s' = parked_sales s @ [r] \<and> \<not> has_key pk_id (pk_id r) (parked_sales s) \<and> pk_payload r = p \<and> products s' = products s"
  by (auto simp: park_in_def fresh_id_def Let_def unique_def)

lemma recall_in_Inr:
  "recall_in i s = Inr (r, s') \<Longrightarrow>
     row_of pk_id i (parked_sales s) = Some r \<and> parked_sales s' = filter (\<lambda>q. pk_id q \<noteq> i) (parked_sales s) \<and> products s' = products s"
  by (auto simp: recall_in_def split: option.splits)

text \<open>What is parked, counted with its repetitions: everything that was, less what was recalled.\<close>

lemma mset_drop_row:
  "distinct (map f rs) \<Longrightarrow> row_of f i rs = Some r \<Longrightarrow> mset rs = add_mset r (mset (filter (\<lambda>q. f q \<noteq> i) rs))"
proof (induction rs)
  case (Cons q rs)
  show ?case
  proof (cases "f q = i")
    case True
    then have "filter (\<lambda>q. f q \<noteq> i) rs = rs" using Cons.prems(1) by (intro filter_True) (auto simp: image_iff)
    then show ?thesis using True Cons.prems(2) by (simp add: row_of_def)
  next
    case False
    then show ?thesis using Cons by (simp add: row_of_def)
  qed
qed (simp add: row_of_def)

lemma park_run_rows:
  assumes "park_run s xs s'" "distinct (map pk_id (parked_sales s))"
  shows "distinct (map pk_id (parked_sales s')) \<and>
    mset (parked_sales s) + mset (parked_rows xs) = mset (parked_sales s') + mset (recalled_rows xs)"
  using assms
proof (induction rule: park_run.induct)
  case (went_on s xs s' x s'')
  then have ih: "distinct (map pk_id (parked_sales s'))"
    "mset (parked_sales s) + mset (parked_rows xs) = mset (parked_sales s') + mset (recalled_rows xs)" by simp_all
  from went_on(2) show ?case
  proof cases
    case (parks e p d r)
    then show ?thesis using ih park_in_Inr [OF parks(2)] by (auto simp: has_key_def)
  next
    case (recalls i r)
    then have r: "row_of pk_id i (parked_sales s') = Some r" "parked_sales s'' = filter (\<lambda>q. pk_id q \<noteq> i) (parked_sales s')"
      using recall_in_Inr by blast+
    have "distinct (map pk_id (parked_sales s''))" unfolding r(2) using ih(1) by (rule distinct_map_filter)
    moreover have "mset (parked_sales s') = add_mset r (mset (parked_sales s''))" unfolding r(2) by (rule mset_drop_row [OF ih(1) r(1)])
    ultimately show ?thesis using ih(2) by (simp add: recalls(1))
  qed
qed simp

section \<open>Properties\<close>

text \<open>
  C32. A parked bill is recalled once: in every run in which tills park and recall, in any order, no two recalls hand out
  the same bill, and at every moment the bills that are parked, with those that were recalled, are those that were
  there at the start with those that were parked since - none is lost and none is doubled.
\<close>

theorem parked_bill_recalled_once:
  assumes "park_run s xs s'" "distinct (map pk_id (parked_sales s))"
  shows "mset (parked_sales s') + mset (recalled_rows xs) = mset (parked_sales s) + mset (parked_rows xs)"
  using park_run_rows [OF assms] by simp

theorem parked_bill_recalled_once_witness:
  "\<exists>r s1 s2. park_in sample_env (JObj []) ''d'' blank_db = Inr (r, s1) \<and> recall_in (pk_id r) s1 = Inr (r, s2) \<and>
     recall_in (pk_id r) s2 = Inl (HttpErr 404 ''PARKED_SALE_NOT_FOUND'' NoDetail) \<and> mset (parked_sales s2) = {#}"
proof -
  obtain r s1 where p: "park_in sample_env (JObj []) ''d'' blank_db = Inr (r, s1)"
    by (simp add: park_in_def fresh_id_def unique_def Let_def has_key_def)
  then have r: "row_of pk_id (pk_id r) (parked_sales s1) = Some r" using park_in_Inr [OF p] by (simp add: row_of_def)
  then obtain s2 where q: "recall_in (pk_id r) s1 = Inr (r, s2)" by (simp add: recall_in_def)
  have "park_run blank_db ([] @ [Parked_Bill r] @ [Recalled_Bill r]) s2"
    unfolding append_assoc [symmetric] by (rule went_on [OF went_on [OF rested parks [OF p]] recalls [OF q]])
  from parked_bill_recalled_once [OF this] have "mset (parked_sales s2) = {#}" by simp
  moreover have "recall_in (pk_id r) s2 = Inl (HttpErr 404 ''PARKED_SALE_NOT_FOUND'' NoDetail)"
    using recall_in_Inr [OF q] park_in_Inr [OF p] by (simp add: recall_in_def)
  ultimately show ?thesis using p q by blast
qed

end
