(* ===== verification/Review_Items.thy ===== *)
theory Review_Items
  imports Shifts Paging
begin

text \<open>
  The owner's review list (\<open>review-items/review-items.service.ts\<close>, \<open>review-items/review-items.dto.ts\<close>): what the other
  services file (\<open>insert_review_item\<close>), the pages of it, and the mark that an item was reviewed.
\<close>

datatype review_status = Pending | Reviewed | All_Items

definition parse_review_item_status :: "string option \<Rightarrow> err + review_status" where
  "parse_review_item_status raw =
     (case raw of
        None \<Rightarrow> Inr Pending
      | Some t \<Rightarrow> if t = [] \<or> t = ''pending'' then Inr Pending else if t = ''reviewed'' then Inr Reviewed
                 else if t = ''all'' then Inr All_Items else Inl (bad_request ''status''))"

definition REVIEW_ITEM_KINDS :: "string list" where
  "REVIEW_ITEM_KINDS = [''void_offline'', ''credit_override'', ''shift_uncounted'', ''date_flag'', ''device_force_retired'',
     ''receipt_renumbered'', ''quote_conflict'', ''drawer_overdrawn_offline'']"

definition in_status :: "review_status \<Rightarrow> review_item \<Rightarrow> bool" where
  "in_status st r = (case st of Pending \<Rightarrow> rv_reviewed_at r = None | Reviewed \<Rightarrow> rv_reviewed_at r \<noteq> None | All_Items \<Rightarrow> True)"

text \<open>The order of items of the same instant is Postgres's own: here the last filed comes first.\<close>

definition review_list_in :: "review_status \<Rightarrow> int \<Rightarrow> int \<Rightarrow> (review_item list \<times> page_meta) op" where
  "review_list_in st page limit = tx_get (\<lambda>s.
     let found = filter (in_status st) (review_items s) in
     (page_of page limit (rev (sort_key rv_created_at found)), page_meta_of (int (length found)) page limit))"

definition mark_reviewed :: "env \<Rightarrow> uuid \<Rightarrow> review_item \<Rightarrow> review_item" where
  "mark_reviewed e u r = r\<lparr>rv_reviewed_at := Some (now e), rv_reviewed_by := Some u\<rparr>"

definition mark_reviewed_in :: "env \<Rightarrow> uuid \<Rightarrow> uuid \<Rightarrow> review_item op" where
  "mark_reviewed_in e u i =
     tx_bind (tx_get (\<lambda>s. row_of rv_id i (review_items s))) (\<lambda>row.
     case row of
       None \<Rightarrow> tx_throw (HttpErr 404 [] NoDetail)
     | Some r \<Rightarrow>
         if rv_reviewed_at r \<noteq> None then tx_ret r
         else
           tx_bind (tx_modify (\<lambda>s. s\<lparr>review_items := upd_where (\<lambda>q. rv_id q = i) (mark_reviewed e u) (review_items s)\<rparr>)) (\<lambda>_.
           tx_bind (insert_audit \<lparr>au_user = Some u, au_device = None, au_action = ''review_item.reviewed'', au_entity = ''owner_review_items'',
              au_entity_id = i, au_before = Some (JObj [(''reviewedAt'', JNull), (''reviewedBy'', JNull)]),
              au_after = Some (JObj [(''reviewedAt'', js_date (now e)), (''reviewedBy'', JStr u)])\<rparr>) (\<lambda>_.
           tx_ret (mark_reviewed e u r))))"

interpretation reviewed_mark: keyed_update rv_id "mark_reviewed e u" for e u
  by unfold_locales (simp add: mark_reviewed_def)

text \<open>Marking twice is marking once, whoever comes second: the first reviewer stays on the item.\<close>

lemma mark_reviewed_twice:
  assumes "mark_reviewed_in e u i s = Inr (r, s')"
  shows "rv_reviewed_at r \<noteq> None \<and> mark_reviewed_in e2 u2 i s' = Inr (r, s')"
proof -
  have "\<exists>q. row_of rv_id i (review_items s) = Some q \<and> (rv_reviewed_at q \<noteq> None \<and> r = q \<and> s' = s \<or>
    rv_reviewed_at q = None \<and> r = mark_reviewed e u q \<and>
    review_items s' = upd_where (\<lambda>q. rv_id q = i) (mark_reviewed e u) (review_items s))"
    using assms by (auto simp: mark_reviewed_in_def insert_audit_def split: option.splits if_splits)
  then obtain q where q: "row_of rv_id i (review_items s) = Some q" and c: "rv_reviewed_at q \<noteq> None \<and> r = q \<and> s' = s \<or>
    rv_reviewed_at q = None \<and> r = mark_reviewed e u q \<and>
    review_items s' = upd_where (\<lambda>q. rv_id q = i) (mark_reviewed e u) (review_items s)" by blast
  from c have "row_of rv_id i (review_items s') = Some r \<and> rv_reviewed_at r \<noteq> None"
    using q by (auto simp: reviewed_mark.row_of_upd mark_reviewed_def)
  then show ?thesis by (auto simp: mark_reviewed_in_def)
qed

end
