(* ===== verification/Shop.thy ===== *)
theory Shop
  imports Products Quotes_Facts Sync_Effects Devices Catalogue Payment_Accounts Parked_Sales Review_Items
begin

text \<open>
  The shop as a whole: every transaction a shop's routes can commit as one step relation over its database - the trade
  (tills, bills, quotes sold, voids, credit notes, payments of mechanics, orders and receipts), the catalogue with its manual
  stock corrections, and the paperwork that moves neither goods nor money - and what holds in every run of it.
\<close>

section \<open>Any operation, in any order\<close>

text \<open>What moves goods and money. Postgres's lower case is one function for the whole run: that of \<open>e0\<close>.\<close>

inductive trade_step :: "env \<Rightarrow> db \<Rightarrow> db \<Rightarrow> bool" for e0 where
  at_the_till: "till_step s s' \<Longrightarrow> trade_step e0 s s'"
| sold: "create_in e (dto :: sale_write) a s = Inr (r, s') \<Longrightarrow> trade_step e0 s s'"
| sold_quote: "sell_in e i (dto :: sale_write) a s = Inr (r, s') \<Longrightarrow> trade_step e0 s s'"
| converted: "convert_in e i party a s = Inr (r, s') \<Longrightarrow> trade_step e0 s s'"
| voided: "void_in e i a reason s = Inr (r, s') \<Longrightarrow> trade_step e0 s s'"
| returned: "return_in e (rdto :: return_write) a s = Inr (r, s') \<Longrightarrow> trade_step e0 s s'"
| paid: "credit_payment_in e m pay a s = Inr (r, s') \<Longrightarrow> trade_step e0 s s'"
| received: "pg_lower e = pg_lower e0 \<Longrightarrow> receive_in e i u d s = Inr (r, s') \<Longrightarrow> trade_step e0 s s'"
| ordered: "po_create_in e input dev s = Inr (r, s') \<Longrightarrow> trade_step e0 s s'"
| order_cancelled: "po_cancel_in e i s = Inr (r, s') \<Longrightarrow> trade_step e0 s s'"
| order_deleted: "po_delete_in i s = Inr (r, s') \<Longrightarrow> trade_step e0 s s'"

text \<open>What moves neither.\<close>

inductive paper_step :: "db \<Rightarrow> db \<Rightarrow> bool" where
  people_kept: "people_step s s' \<Longrightarrow> paper_step s s'"
| quote_made: "quote_create_in e input dev s = Inr (x, s') \<Longrightarrow> paper_step s s'"
| quote_copied: "quote_duplicate_in e i dev s = Inr (x, s') \<Longrightarrow> paper_step s s'"
| quote_edited: "quote_update_in e i qp s = Inr (x, s') \<Longrightarrow> paper_step s s'"
| quote_dropped: "quote_delete_in e i s = Inr (j, s') \<Longrightarrow> paper_step s s'"
| quotes_purged: "quotes_purge e days s = Inr (n, s') \<Longrightarrow> paper_step s s'"
| bill_parked: "park_step s v s' \<Longrightarrow> paper_step s s'"
| account_kept: "account_step s s' \<Longrightarrow> paper_step s s'"
| settings_read: "get_settings_in e s = Inr (st, s') \<Longrightarrow> paper_step s s'"
| settings_changed: "update_settings_in e sx s = Inr (st, s') \<Longrightarrow> paper_step s s'"
| item_reviewed: "mark_reviewed_in e u i s = Inr (rv, s') \<Longrightarrow> paper_step s s'"
| category_added: "category_create_in c s = Inr (cv, s') \<Longrightarrow> paper_step s s'"
| category_removed: "category_delete_in c s = Inr (c', s') \<Longrightarrow> paper_step s s'"
| supplier_added: "supplier_create_in e sc s = Inr (sv, s') \<Longrightarrow> paper_step s s'"
| supplier_changed: "supplier_update_in i sp s = Inr (sv, s') \<Longrightarrow> paper_step s s'"
| supplier_removed: "supplier_delete_in i s = Inr (j, s') \<Longrightarrow> paper_step s s'"

inductive shop_step :: "env \<Rightarrow> db \<Rightarrow> db \<Rightarrow> bool" for e0 where
  traded: "trade_step e0 s s' \<Longrightarrow> shop_step e0 s s'"
| catalogued: "pg_lower e = pg_lower e0 \<Longrightarrow> catalogue_step e s s' \<Longrightarrow> shop_step e0 s s'"
| papered: "paper_step s s' \<Longrightarrow> shop_step e0 s s'"

text \<open>The keys of the tables the operations rely on.\<close>

definition shop_ok :: "env \<Rightarrow> db \<Rightarrow> bool" where
  "shop_ok e s \<longleftrightarrow> shifts_ok s \<and> distinct (map s_id (sales s)) \<and> products_keyed s \<and> part_nos_unique e s \<and> order_lines_ok s"

definition shelf_keys :: "db \<Rightarrow> (uuid \<times> string \<times> bool) list" where
  "shelf_keys s = map (\<lambda>p. (p_id p, p_part_no p, p_deleted p)) (products s)"

section \<open>What each step leaves alone\<close>

lemma till_step_fixes:
  assumes "till_step s s'" "\<And>s x. f (s\<lparr>shifts := x\<rparr>) = f s" "\<And>s x. f (s\<lparr>review_items := x\<rparr>) = f s"
    "\<And>s x. f (s\<lparr>minted := x\<rparr>) = f s" "\<And>s x. f (s\<lparr>drawer_entries := x\<rparr>) = f s" "\<And>s x. f (s\<lparr>devices := x\<rparr>) = f s"
    "\<And>s x. f (s\<lparr>audit_log := x\<rparr>) = f s"
  shows "f s' = f s"
proof -
  have c: "tx_fixes f (close_in e dev n)" for e dev n
    unfolding close_in_def lock_active_def with_entries_def by (intro tx_fix; simp add: assms)
  have r: "tx_fixes f (close_for_retirement e dev n)" for e dev n
    unfolding close_for_retirement_def with_entries_def by (intro tx_fix c; simp add: assms)
  show ?thesis
    using assms(1)
  proof cases
    case (till_opened e a i c t x)
    show ?thesis by (rule tx_fixesD [OF tx_fixes_open_in till_opened]) (simp_all add: assms)
  next
    case (till_closed e dev n x)
    show ?thesis by (rule tx_fixesD [OF c till_closed])
  next
    case (till_cash e a i ty n t u off y)
    have fx: "tx_fixes f (add_entry_in e a i ty n t u off)"
      unfolding add_entry_in_def add_new_entry_def lock_active_def insert_drawer_entry_def by (intro tx_fix; simp add: assms)
    show ?thesis by (rule tx_fixesD [OF fx till_cash])
  next
    case (till_added e sha code a label role z)
    have fx: "tx_fixes f (create_device_in e sha code a label role)"
      unfolding create_device_in_def insert_device_def Let_def by (intro tx_fix; simp add: assms)
    show ?thesis by (rule tx_fixesD [OF fx till_added])
  next
    case (till_retired e a i q w)
    have fx: "tx_fixes f (retire_device_in e a i q)"
      unfolding retire_device_in_def unsent_guard_def by (intro tx_fix r; simp add: assms)
    show ?thesis by (rule tx_fixesD [OF fx till_retired])
  qed
qed

lemma shelf_keys_moved: "products s' = stock_moved g (products s) \<Longrightarrow> shelf_keys s' = shelf_keys s"
  by (simp add: shelf_keys_def stock_moved_def comp_def)

lemma shelf_keys_put: "products s' = put_all rs (products s) \<Longrightarrow> shelf_keys s' = shelf_keys s"
proof -
  have "map (\<lambda>p. (p_id p, p_part_no p, p_deleted p)) (put_all rs ps) = map (\<lambda>p. (p_id p, p_part_no p, p_deleted p)) ps" for ps
    by (induction rs arbitrary: ps) (simp_all add: upd_where_def put_running_def comp_def if_distrib cong: if_cong)
  then show "products s' = put_all rs (products s) \<Longrightarrow> shelf_keys s' = shelf_keys s" by (simp add: shelf_keys_def)
qed

lemma shelf_keys_decide:
  assumes "shelf_keys s' = shelf_keys s"
  shows "products_keyed s' = products_keyed s" "part_nos_unique e s' = part_nos_unique e s"
proof -
  have ids: "map p_id (products t) = map fst (shelf_keys t)" for t by (simp add: shelf_keys_def comp_def)
  have parts: "map (\<lambda>p. pg_lower e (p_part_no p)) (filter (\<lambda>p. \<not> p_deleted p) (products t)) =
      map (\<lambda>(i, n, d). pg_lower e n) (filter (\<lambda>(i, n, d). \<not> d) (shelf_keys t))" for t
    by (simp add: shelf_keys_def filter_map comp_def)
  show "products_keyed s' = products_keyed s" "part_nos_unique e s' = part_nos_unique e s"
    unfolding products_keyed_def part_nos_unique_def ids parts assms by simp_all
qed

lemma part_nos_env: "pg_lower e = pg_lower e0 \<Longrightarrow> part_nos_unique e s = part_nos_unique e0 s"
  by (simp add: part_nos_unique_def)

text \<open>One step: the keys stay in order, closed books stay as they are, and the shelf moves by what is logged.\<close>

definition good_step :: "env \<Rightarrow> db \<Rightarrow> db \<Rightarrow> bool" where
  "good_step e s s' \<longleftrightarrow> shop_ok e s' \<and> books_frozen s s' \<and> moves_logged s s'"

lemma good_stepI:
  assumes "shop_ok e s" "shifts s' = shifts s" "distinct (map s_id (sales s'))" "shelf_keys s' = shelf_keys s" "po_items s' = po_items s"
    "books_frozen s s'" "moves_logged s s'"
  shows "good_step e s s'"
  using assms shelf_keys_decide [OF assms(4)] by (simp add: good_step_def shop_ok_def shifts_ok_def one_active_def order_lines_ok_def)

lemma create_in_good:
  assumes "shop_ok e0 s" "create_in e dto a s = Inr (r, s')"
  shows "good_step e0 s s'"
proof (rule good_stepI [OF assms(1)])
  show "shifts s' = shifts s" "po_items s' = po_items s" by (rule tx_fixesD [OF tx_fixes_create_in assms(2)]; simp)+
  have w: "s' = s \<or> sale_written e dto a s r s'"
    using create_in_written [OF assms(2)] assms(2) by (auto elim: create_in_Inr)
  then show "distinct (map s_id (sales s'))"
    using assms(1) by (auto simp: sale_written_def shop_ok_def has_key_def sale_row_def)
  show "shelf_keys s' = shelf_keys s"
    using w shelf_keys_moved by (auto simp: sale_written_def)
  show "books_frozen s s'" by (rule create_in_frozen [OF _ assms(2)]) (use assms(1) in \<open>simp add: shop_ok_def\<close>)
  show "moves_logged s s'" by (rule create_in_logged [OF assms(2)])
qed

lemma sell_and_mark_good:
  assumes "shop_ok e0 s" "sell_and_mark e i st dto a s = Inr (r, s')"
  shows "good_step e0 s s'"
proof -
  obtain s0 where c: "create_in e dto a s = Inr (r, s0)" and s': "s' = (if st = State_Fresh
      then s0\<lparr>quotes := upd_where (\<lambda>q. q_id q = i) (converted_into e (sp_id dto)) (quotes s)\<rparr> else s0)"
    by (rule sell_and_mark_Inr [OF assms(2)])
  have g: "good_step e0 s s0" by (rule create_in_good [OF assms(1) c])
  have "books_frozen s0 s'" by (rule books_frozen_untouched) (simp_all add: s')
  moreover have "moves_logged s0 s'" by (rule moves_logged_same) (simp_all add: s')
  ultimately show ?thesis
    using g books_frozen_trans moves_logged_trans
    by (auto simp: good_step_def shop_ok_def s' shifts_ok_def one_active_def products_keyed_def part_nos_unique_def order_lines_ok_def)
qed

lemma void_in_good:
  assumes "shop_ok e0 s" "void_in e i a reason s = Inr (r, s')"
  shows "good_step e0 s s'"
proof (rule good_stepI [OF assms(1)])
  show "shifts s' = shifts s" "po_items s' = po_items s" by (rule tx_fixesD [OF tx_fixes_void_in assms(2)]; simp)+
  show "shelf_keys s' = shelf_keys s" by (rule void_in_Inr [OF assms(2)]) (rule shelf_keys_moved)
  show "distinct (map s_id (sales s'))"
    by (rule void_in_Inr [OF assms(2)]) (use assms(1) in \<open>simp add: shop_ok_def mark_voided_def map_upd_where_same del: set_map\<close>)
  show "books_frozen s s'" by (rule void_in_frozen [OF _ _ assms(2)]) (use assms(1) in \<open>simp_all add: shop_ok_def\<close>)
  show "moves_logged s s'" by (rule void_in_logged [OF assms(2)])
qed

lemma return_in_good:
  assumes "shop_ok e0 s" "return_in e dto a s = Inr (r, s')"
  shows "good_step e0 s s'"
proof (rule good_stepI [OF assms(1)])
  show "shifts s' = shifts s" "po_items s' = po_items s" by (rule tx_fixesD [OF tx_fixes_return_in assms(2)]; simp)+
  show "shelf_keys s' = shelf_keys s"
    by (rule return_in_Inr [OF assms(2)]) (auto simp: return_written_def Let_def intro: shelf_keys_moved)
  show "distinct (map s_id (sales s'))"
    by (rule return_in_Inr [OF assms(2)])
      (use assms(1) in \<open>simp_all add: shop_ok_def return_written_def Let_def void_by_return_def map_upd_where_same del: set_map\<close>)
  show "books_frozen s s'" by (rule return_in_frozen [OF _ _ assms(2)]) (use assms(1) in \<open>simp_all add: shop_ok_def\<close>)
  show "moves_logged s s'" by (rule return_in_logged [OF assms(2)])
qed

lemma credit_payment_in_good:
  assumes "shop_ok e0 s" "credit_payment_in e m dto a s = Inr (r, s')"
  shows "good_step e0 s s'"
proof (rule good_stepI [OF assms(1)])
  have fx: "f s' = f s" if "\<And>s x. f (s\<lparr>doc_counters := x\<rparr>) = f s" "\<And>s x. f (s\<lparr>minted := x\<rparr>) = f s"
    "\<And>s x. f (s\<lparr>credit_payments := x\<rparr>) = f s" "\<And>s x. f (s\<lparr>mechanics := x\<rparr>) = f s"
    "\<And>s x. f (s\<lparr>hooks := x\<rparr>) = f s" "\<And>s x. f (s\<lparr>audit_log := x\<rparr>) = f s" for f :: "db \<Rightarrow> 'z"
    by (rule tx_fixesD [OF tx_fixes_credit_payment_in assms(2)]) (simp_all add: that)
  have "products s' = products s" by (rule fx) simp_all
  moreover have "movements s' = movements s" by (rule fx) simp_all
  ultimately show "shelf_keys s' = shelf_keys s" "moves_logged s s'" by (simp_all add: shelf_keys_def moves_logged_same)
  show "shifts s' = shifts s" "po_items s' = po_items s" by (rule fx; simp)+
  have "sales s' = sales s" by (rule fx) simp_all
  then show "distinct (map s_id (sales s'))" using assms(1) by (simp add: shop_ok_def)
  show "books_frozen s s'" by (rule credit_payment_in_frozen [OF _ assms(2)]) (use assms(1) in \<open>simp add: shop_ok_def\<close>)
qed

lemma receive_in_good:
  assumes "shop_ok e0 s" "pg_lower e = pg_lower e0" "receive_in e i u d s = Inr (r, s')"
  shows "good_step e0 s s'"
proof (rule good_stepI [OF assms(1)])
  have ok: "products_keyed s" "part_nos_unique e s" "order_lines_ok s"
    using assms(1) part_nos_env [OF assms(2)] by (simp_all add: shop_ok_def)
  show "moves_logged s s'" using receive_in_shelf [OF assms(3) ok] by blast
  show "shelf_keys s' = shelf_keys s" by (rule receive_in_Inr [OF assms(3)]) (rule shelf_keys_put)
  have "sales s' = sales s" by (rule tx_fixesD [OF tx_fixes_receive_in assms(3)]; simp)
  then show "distinct (map s_id (sales s'))" using assms(1) by (simp add: shop_ok_def)
  show "shifts s' = shifts s" "po_items s' = po_items s" by (rule tx_fixesD [OF tx_fixes_receive_in assms(3)]; simp)+
  show "books_frozen s s'" by (rule order_step_frozen [OF order_received [OF assms(3)]])
qed

text \<open>The other order operations leave the shelf alone, and only file or drop lines.\<close>

lemma order_step_good:
  assumes "shop_ok e0 s" "order_step s s'" "products s' = products s" "movements s' = movements s" "order_lines_ok s'"
  shows "good_step e0 s s'"
proof -
  have "shifts s' = shifts s" "sales s' = sales s" by (rule order_step_fixes [OF assms(2)]; simp)+
  then show ?thesis
    using assms(1,3-5) order_step_frozen [OF assms(2)] moves_logged_same [OF assms(3,4)]
    by (simp add: good_step_def shop_ok_def shifts_ok_def one_active_def products_keyed_def part_nos_unique_def)
qed

lemma retire_device_in_steps:
  assumes "retire_device_in e a i q s = Inr (w, s')"
  shows "\<exists>d drawer s1 s2 x y. unsent_guard e d q s = Inr ((), s1) \<and> close_for_retirement e i (rq_cash q) s1 = Inr (drawer, s2) \<and>
    s' = s2\<lparr>devices := x, audit_log := y\<rparr>"
  using assms unfolding retire_device_in_def insert_audit_def
  by (clarsimp split: option.splits split del: if_split) (intro exI conjI, assumption, assumption, rule refl)

lemma till_step_good:
  assumes "shop_ok e0 s" "till_step s s'"
  shows "good_step e0 s s'"
proof -
  have sh: "shifts_ok s" using assms(1) by (simp add: shop_ok_def)
  have same: "products s' = products s" "movements s' = movements s" "sales s' = sales s" "po_items s' = po_items s"
    by (rule till_step_fixes [OF assms(2)]; simp)+
  have "shifts_ok s' \<and> books_frozen s s'"
    using assms(2)
  proof cases
    case till_opened
    then show ?thesis using open_in_frozen [OF sh] tx_keepsD [OF open_in_keeps sh] by blast
  next
    case till_closed
    then show ?thesis using close_in_frozen [OF sh] tx_keepsD [OF close_in_keeps sh] by blast
  next
    case (till_cash e a i ty n t u off y)
    have "shifts s' = shifts s" by (rule tx_fixesD [OF add_entry_in_shifts till_cash])
    then show ?thesis using add_entry_in_frozen [OF sh till_cash] sh by (simp add: shifts_ok_def one_active_def)
  next
    case (till_added e sha code a label role z)
    have fx: "tx_fixes f (create_device_in e sha code a label role)"
      if "\<And>s x. f (s\<lparr>minted := x\<rparr>) = f s" "\<And>s x. f (s\<lparr>devices := x\<rparr>) = f s" "\<And>s x. f (s\<lparr>audit_log := x\<rparr>) = f s" for f :: "db \<Rightarrow> 'z"
      unfolding create_device_in_def insert_device_def Let_def by (intro tx_fix; simp add: that)
    have "shifts s' = shifts s" "returns s' = returns s" "credit_payments s' = credit_payments s" "drawer_entries s' = drawer_entries s"
      by (rule tx_fixesD [OF fx till_added]; simp)+
    then show ?thesis using sh same by (simp add: shifts_ok_def one_active_def books_frozen_untouched)
  next
    case (till_retired e a i q w)
    from retire_device_in_steps [OF till_retired] obtain d drawer s1 s2 where r: "unsent_guard e d q s = Inr ((), s1)"
      "close_for_retirement e i (rq_cash q) s1 = Inr (drawer, s2)" "\<exists>x y. s' = s2\<lparr>devices := x, audit_log := y\<rparr>" by blast
    have fx: "tx_fixes f (unsent_guard e d q)"
      if "\<And>s x. f (s\<lparr>minted := x\<rparr>) = f s" "\<And>s x. f (s\<lparr>review_items := x\<rparr>) = f s" for f :: "db \<Rightarrow> 'z"
      unfolding unsent_guard_def by (intro tx_fix; simp add: that)
    have s1: "shifts s1 = shifts s" "sales s1 = sales s" "returns s1 = returns s" "credit_payments s1 = credit_payments s"
      "drawer_entries s1 = drawer_entries s"
      by (rule tx_fixesD [OF fx r(1)]; simp)+
    then have ok: "shifts_ok s1" "books_frozen s s1" using sh by (simp_all add: shifts_ok_def one_active_def books_frozen_untouched)
    have two: "shifts_ok s2" "books_frozen s1 s2"
      using tx_keepsD [OF close_for_retirement_keeps ok(1) r(2)] close_for_retirement_frozen [OF ok(1) r(2)] by simp_all
    have "books_frozen s2 s'" by (rule books_frozen_untouched) (use r(3) in auto)
    moreover have "shifts_ok s'" using two(1) r(3) by (auto simp: shifts_ok_def one_active_def)
    ultimately show ?thesis using books_frozen_trans ok(2) two(2) by blast
  qed
  then show ?thesis
    using assms(1) same moves_logged_same by (simp add: good_step_def shop_ok_def products_keyed_def part_nos_unique_def order_lines_ok_def)
qed

lemma trade_step_good:
  assumes "trade_step e0 s s'" "shop_ok e0 s"
  shows "good_step e0 s s'"
  using assms(1)
proof cases
  case (sold_quote e i dto a r)
  obtain x sq where r: "r = (x, sq)" by (cases r)
  from sold_quote [unfolded r] show ?thesis
  proof (cases rule: sell_in_Inr)
    case missing
    then show ?thesis using assms(2) by (simp add: good_step_def)
  next
    case (sold st)
    then show ?thesis by (intro sell_and_mark_good [OF assms(2)])
  qed
next
  case (converted e i party a r)
  obtain x out where r: "r = (x, out)" by (cases r)
  from converted [unfolded r] show ?thesis by (rule convert_in_Inr) (rule sell_and_mark_good [OF assms(2)])
next
  case (ordered e input dev r)
  have "products s' = products s" "movements s' = movements s" by (rule tx_fixesD [OF tx_fixes_po_create_in ordered]; simp)+
  moreover have "order_lines_ok s'" by (rule po_create_Inr [OF ordered]) (use assms(2) in \<open>simp add: shop_ok_def\<close>)
  ultimately show ?thesis by (rule order_step_good [OF assms(2) order_created [OF ordered]])
next
  case (order_cancelled e i r)
  have "products s' = products s" "movements s' = movements s" "po_items s' = po_items s"
    by (rule tx_fixesD [OF tx_fixes_po_cancel_in order_cancelled]; simp)+
  then show ?thesis
    using assms(2) by (intro order_step_good [OF assms(2) order_step.order_cancelled [OF order_cancelled]]) (simp_all add: shop_ok_def order_lines_ok_def)
next
  case (order_deleted i r)
  have "products s' = products s" "movements s' = movements s" by (rule tx_fixesD [OF tx_fixes_po_delete_in order_deleted]; simp)+
  moreover have "order_lines_ok s'"
    using order_deleted assms(2) by (auto simp: po_delete_in_def shop_ok_def order_lines_ok_def list_all_iff split: option.splits if_splits)
  ultimately show ?thesis by (intro order_step_good [OF assms(2) order_step.order_deleted [OF order_deleted]])
next
  case at_the_till
  then show ?thesis by (rule till_step_good [OF assms(2)])
next
  case sold
  then show ?thesis by (rule create_in_good [OF assms(2)])
next
  case voided
  then show ?thesis by (rule void_in_good [OF assms(2)])
next
  case returned
  then show ?thesis by (rule return_in_good [OF assms(2)])
next
  case paid
  then show ?thesis by (rule credit_payment_in_good [OF assms(2)])
next
  case received
  then show ?thesis by (rule receive_in_good [OF assms(2)])
qed

section \<open>The paperwork\<close>

text \<open>Only a new quote takes a number.\<close>

lemma paper_step_or_quote:
  assumes "paper_step s s'" "\<And>s x. f (s\<lparr>customers := x\<rparr>) = f s" "\<And>s x. f (s\<lparr>mechanics := x\<rparr>) = f s"
    "\<And>s x. f (s\<lparr>quotes := x\<rparr>) = f s" "\<And>s x. f (s\<lparr>quote_items := x\<rparr>) = f s"
    "\<And>s x. f (s\<lparr>parked_sales := x\<rparr>) = f s" "\<And>s x. f (s\<lparr>payment_accounts := x\<rparr>) = f s" "\<And>s x. f (s\<lparr>settings := x\<rparr>) = f s"
    "\<And>s x. f (s\<lparr>review_items := x\<rparr>) = f s" "\<And>s x. f (s\<lparr>categories := x\<rparr>) = f s" "\<And>s x. f (s\<lparr>suppliers := x\<rparr>) = f s"
    "\<And>s x. f (s\<lparr>minted := x\<rparr>) = f s" "\<And>s x. f (s\<lparr>hooks := x\<rparr>) = f s" "\<And>s x. f (s\<lparr>audit_log := x\<rparr>) = f s"
  shows "f s' = f s \<or> (\<exists>e input dev x. quote_create_in e input dev s = Inr (x, s')) \<or>
    (\<exists>e i dev x. quote_duplicate_in e i dev s = Inr (x, s'))"
proof -
  note [simp] = assms(2-)
  have drop: "f (drop_quotes p s) = f s" for p s
  proof -
    have "f (drop_quotes p s) = f (s\<lparr>quotes := filter (\<lambda>q. \<not> p q) (quotes s)\<rparr>\<lparr>quote_items :=
        filter (\<lambda>l. \<not> list_ex (\<lambda>q. p q \<and> q_id q = qi_quote_id l) (quotes s)) (quote_items s)\<rparr>)"
      by (simp add: drop_quotes_def)
    then show ?thesis by (simp only: assms(4,5))
  qed
  have un: "tx_fixes f (unconverted e i g)" for e i g
    unfolding unconverted_def by (intro tx_fix)
  note fixed = disjI1 [OF tx_fixesD [rotated]]
  show ?thesis
    using assms(1)
  proof cases
    case people_kept
    then show ?thesis
    proof cases
      case customer_created
      then show ?thesis by (rule fixed) (unfold customer_create_in_def next_code_def insert_customer_def Let_def, intro tx_fix; simp)
    next
      case customer_updated
      then show ?thesis by (rule fixed) (unfold customer_update_in_def customer_by_id_in_def, intro tx_fix; simp)
    next
      case customer_deleted
      then show ?thesis by (rule fixed) (unfold customer_delete_in_def, intro tx_fix; simp)
    next
      case mechanic_created
      then show ?thesis by (rule fixed) (unfold mechanic_create_in_def next_code_def insert_mechanic_def Let_def, intro tx_fix; simp)
    next
      case mechanic_updated
      then show ?thesis by (rule fixed) (unfold mechanic_update_in_def mechanic_by_id_in_def, intro tx_fix; simp)
    next
      case mechanic_deleted
      then show ?thesis by (rule fixed) (unfold mechanic_delete_in_def, intro tx_fix; simp)
    qed
  next
    case quote_made
    then show ?thesis by blast
  next
    case quote_copied
    then show ?thesis by blast
  next
    case quote_edited
    then show ?thesis by (rule fixed) (unfold quote_update_in_def, intro tx_fix un; simp)
  next
    case quote_dropped
    then show ?thesis by (rule fixed) (unfold quote_delete_in_def, intro tx_fix un; simp add: drop)
  next
    case quotes_purged
    then show ?thesis by (rule fixed) (unfold quotes_purge_def, intro tx_fix; simp add: drop)
  next
    case bill_parked
    then show ?thesis
    proof cases
      case parks
      show ?thesis using parks(2) by (rule fixed) (unfold park_in_def Let_def, intro tx_fix; simp)
    next
      case recalls
      show ?thesis using recalls(2) by (rule fixed) (unfold recall_in_def, intro tx_fix; simp)
    qed
  next
    case account_kept
    then show ?thesis
    proof cases
      case account_created
      then show ?thesis by (rule fixed) (unfold account_create_in_def insert_account_def clear_default_def Let_def, intro tx_fix; simp)
    next
      case account_updated
      then show ?thesis by (rule fixed) (unfold account_update_in_def active_row_def clear_default_def Let_def, intro tx_fix; simp)
    next
      case account_removed
      then show ?thesis by (rule fixed) (unfold account_remove_in_def active_row_def, intro tx_fix; simp)
    qed
  next
    case settings_read
    then show ?thesis by (rule fixed) (unfold get_settings_in_def Let_def, intro tx_fix; simp)
  next
    case settings_changed
    then show ?thesis by (rule fixed) (unfold update_settings_in_def get_settings_in_def numeric_5_2_def Let_def, intro tx_fix; simp)
  next
    case item_reviewed
    then show ?thesis by (rule fixed) (unfold mark_reviewed_in_def, intro tx_fix; simp)
  next
    case category_added
    then show ?thesis by (rule fixed) (unfold category_create_in_def category_list_in_def Let_def, intro tx_fix; simp)
  next
    case category_removed
    then show ?thesis by (rule fixed) (unfold category_delete_in_def category_list_in_def Let_def, intro tx_fix; simp)
  next
    case supplier_added
    then show ?thesis by (rule fixed) (unfold supplier_create_in_def assert_product_live_def Let_def, intro tx_fix; simp)
  next
    case supplier_changed
    then show ?thesis by (rule fixed) (unfold supplier_update_in_def assert_product_live_def Let_def, intro tx_fix; simp)
  next
    case supplier_removed
    then show ?thesis by (rule fixed) (unfold supplier_delete_in_def Let_def, intro tx_fix; simp)
  qed
qed

lemma paper_step_fixes:
  assumes "paper_step s s'" "\<And>s x. f (s\<lparr>customers := x\<rparr>) = f s" "\<And>s x. f (s\<lparr>mechanics := x\<rparr>) = f s"
    "\<And>s x. f (s\<lparr>quotes := x\<rparr>) = f s" "\<And>s x. f (s\<lparr>quote_items := x\<rparr>) = f s" "\<And>s x. f (s\<lparr>doc_counters := x\<rparr>) = f s"
    "\<And>s x. f (s\<lparr>parked_sales := x\<rparr>) = f s" "\<And>s x. f (s\<lparr>payment_accounts := x\<rparr>) = f s" "\<And>s x. f (s\<lparr>settings := x\<rparr>) = f s"
    "\<And>s x. f (s\<lparr>review_items := x\<rparr>) = f s" "\<And>s x. f (s\<lparr>categories := x\<rparr>) = f s" "\<And>s x. f (s\<lparr>suppliers := x\<rparr>) = f s"
    "\<And>s x. f (s\<lparr>minted := x\<rparr>) = f s" "\<And>s x. f (s\<lparr>hooks := x\<rparr>) = f s" "\<And>s x. f (s\<lparr>audit_log := x\<rparr>) = f s"
  shows "f s' = f s"
proof -
  have "tx_fixes f (quote_create_in e input dev)" "tx_fixes f (quote_duplicate_in e i dev)" for e input dev i
    unfolding quote_create_in_def quote_duplicate_in_def Let_def by (intro tx_fix; simp add: assms)+
  moreover have "f s' = f s \<or> (\<exists>e input dev x. quote_create_in e input dev s = Inr (x, s')) \<or>
      (\<exists>e i dev x. quote_duplicate_in e i dev s = Inr (x, s'))"
    using assms(1) by (rule paper_step_or_quote) (simp_all add: assms)
  ultimately show ?thesis using tx_fixesD by metis
qed

lemma paper_step_good:
  assumes "paper_step s s'" "shop_ok e0 s"
  shows "good_step e0 s s'"
proof (rule good_stepI [OF assms(2)])
  note same = paper_step_fixes [OF assms(1)]
  show "shifts s' = shifts s" "po_items s' = po_items s" by (rule same; simp)+
  have "products s' = products s" "movements s' = movements s" "sales s' = sales s" by (rule same; simp)+
  then show "shelf_keys s' = shelf_keys s" "moves_logged s s'" "distinct (map s_id (sales s'))"
    using assms(2) by (simp_all add: shelf_keys_def moves_logged_same shop_ok_def)
  show "books_frozen s s'" by (rule books_frozen_untouched) (rule same; simp)+
qed

section \<open>The catalogue\<close>

text \<open>A write of the catalogue keeps the keys and the books; it may move the shelf outside the log.\<close>

lemma catalogue_step_sound:
  assumes "catalogue_step e s s'" "pg_lower e = pg_lower e0" "shop_ok e0 s"
  shows "shop_ok e0 s' \<and> books_frozen s s'"
proof -
  note same = catalogue_step_fixes [OF assms(1)]
  have "ordered_catalogue False e s" using assms(2,3) by (simp add: ordered_catalogue_def shop_ok_def part_nos_unique_def)
  with assms(1) have "ordered_catalogue False e s'" by (rule catalogue_step_keeps)
  moreover have "shifts s' = shifts s" "sales s' = sales s" "po_items s' = po_items s" by (rule same; simp)+
  moreover have "books_frozen s s'" by (rule books_frozen_untouched) (rule same; simp)+
  ultimately show ?thesis
    using assms(2,3) by (simp add: shop_ok_def ordered_catalogue_def part_nos_unique_def shifts_ok_def one_active_def order_lines_ok_def)
qed

lemma shop_step_sound:
  assumes "shop_step e0 s s'" "shop_ok e0 s"
  shows "shop_ok e0 s' \<and> books_frozen s s'"
  using assms
proof (induction rule: shop_step.induct)
  case (traded s s')
  then show ?case using trade_step_good by (simp add: good_step_def)
next
  case (catalogued e s s')
  then show ?case using catalogue_step_sound by blast
next
  case (papered s s')
  then show ?case using paper_step_good by (simp add: good_step_def)
qed

lemma shop_run_sound: "(shop_step e0)\<^sup>*\<^sup>* s s' \<Longrightarrow> shop_ok e0 s \<Longrightarrow> shop_ok e0 s' \<and> books_frozen s s'"
proof (induction rule: rtranclp_induct)
  case (step s' s'')
  then show ?case using shop_step_sound books_frozen_trans by blast
qed simp

section \<open>The stock account\<close>

text \<open>
  A run with what it put on the shelf outside the log: the opening stock of a product that was made with one, and the
  part of a manual correction that the clamp at zero left undone. Nothing else is outside.
\<close>

inductive accounted_run :: "env \<Rightarrow> db \<Rightarrow> (uuid \<times> int) list \<Rightarrow> db \<Rightarrow> bool" for e0 s where
  opened: "accounted_run e0 s [] s"
| trade: "accounted_run e0 s us t \<Longrightarrow> trade_step e0 t t' \<Longrightarrow> accounted_run e0 s us t'"
| paper: "accounted_run e0 s us t \<Longrightarrow> paper_step t t' \<Longrightarrow> accounted_run e0 s us t'"
| made: "accounted_run e0 s us t \<Longrightarrow> pg_lower e = pg_lower e0 \<Longrightarrow> product_create_in e input t = Inr (p, t') \<Longrightarrow>
    accounted_run e0 s (us @ [(p_id p, pr_stock input)]) t'"
| edited: "accounted_run e0 s us t \<Longrightarrow> pg_lower e = pg_lower e0 \<Longrightarrow> product_update_in e i c t = Inr (p, t') \<Longrightarrow> accounted_run e0 s us t'"
| dropped: "accounted_run e0 s us t \<Longrightarrow> product_delete_in i t = Inr (j, t') \<Longrightarrow> accounted_run e0 s us t'"
| pictured: "accounted_run e0 s us t \<Longrightarrow> set_image_in i img t = Inr (p, t') \<Longrightarrow> accounted_run e0 s us t'"
| corrected: "accounted_run e0 s us t \<Longrightarrow> pg_lower e = pg_lower e0 \<Longrightarrow> adjust_stock_in e i adj user dev t = Inr (r, t') \<Longrightarrow>
    accounted_run e0 s (us @ [(i, max 0 (- (on_hand t i + sa_delta adj)))]) t'"

abbreviation off_log :: "(uuid \<times> int) list \<Rightarrow> uuid \<Rightarrow> int" where
  "off_log us k \<equiv> sum_by snd (filter (\<lambda>u. fst u = k) us)"

definition accounted :: "db \<Rightarrow> (uuid \<times> int) list \<Rightarrow> db \<Rightarrow> bool" where
  "accounted s us s' \<longleftrightarrow> (\<exists>vs. movements s' = movements s @ vs \<and>
     (\<forall>k. on_hand s' k = on_hand s k + logged_rows vs k + off_log us k))"

lemma accounted_trans:
  assumes "accounted s us t" "accounted t ws t'"
  shows "accounted s (us @ ws) t'"
proof -
  obtain vs vs' where "movements t = movements s @ vs" "movements t' = movements t @ vs'"
    "\<And>k. on_hand t k = on_hand s k + logged_rows vs k + off_log us k" "\<And>k. on_hand t' k = on_hand t k + logged_rows vs' k + off_log ws k"
    using assms by (auto simp: accounted_def)
  then show ?thesis unfolding accounted_def by (intro exI [of _ "vs @ vs'"]) simp
qed

lemma accounted_logged: "moves_logged s s' \<Longrightarrow> accounted s [] s'"
  by (auto simp: moves_logged_def accounted_def)

lemma row_of_edited:
  assumes "\<And>p. p_id (f p) = p_id p" "\<And>p. p_stock (f p) = p_stock p" "products s' = upd_where c f (products s)"
  shows "on_hand s' k = on_hand s k"
proof -
  have "map_option p_stock (row_of p_id k (upd_where c f ps)) = map_option p_stock (row_of p_id k ps)" for ps
    by (induction ps) (simp_all add: assms(1,2))
  from this [of "products s"] show ?thesis
    by (auto simp: on_hand_def assms(3) split: option.splits)
qed

lemma accounted_edit:
  assumes "\<And>p. p_id (f p) = p_id p" "\<And>p. p_stock (f p) = p_stock p" "products s' = upd_where c f (products s)"
    "movements s' = movements s"
  shows "accounted s [] s'"
  using row_of_edited [OF assms(1-3)] assms(4) by (simp add: accounted_def)

lemma catalogue_movements:
  "product_create_in e input s = Inr (p, s') \<Longrightarrow> movements s' = movements s"
  "product_update_in e i c s = Inr (p, s') \<Longrightarrow> movements s' = movements s"
  "product_delete_in i s = Inr (j, s') \<Longrightarrow> movements s' = movements s"
  "set_image_in i img s = Inr (p, s') \<Longrightarrow> movements s' = movements s"
  unfolding product_create_in_def insert_product_def product_checks_def part_no_free_def product_update_in_def put_product_def
    product_by_id_in_def product_delete_in_def set_image_in_def
  by (rule tx_fixesD [rotated, where f = movements], assumption, intro tx_fix; simp)+

lemma accounted_create:
  assumes "product_create_in e input s = Inr (p, s')"
  shows "accounted s [(p_id p, pr_stock input)] s'"
proof -
  note c = product_create_Inr [OF assms]
  have "p_stock p = pr_stock input" using c by (metis new_product_def product.select_convs(5))
  then have "on_hand s' k = on_hand s k + off_log [(p_id p, pr_stock input)] k" for k
    using c row_of_None [of p_id "p_id p" "products s"]
    by (auto simp: on_hand_def row_of_append split: option.split)
  then show ?thesis using catalogue_movements(1) [OF assms] by (simp add: accounted_def)
qed

lemma accounted_correction:
  assumes "adjust_stock_in e i adj user dev s = Inr (r, s')" "products_keyed s"
  shows "accounted s [(i, max 0 (- (on_hand s i + sa_delta adj)))] s'"
proof -
  obtain p where "movements s' = movements s @ [ar_movement r]" "mv_delta (ar_movement r) = sa_delta adj" "mv_product_id (ar_movement r) = i"
    by (rule adjust_stock_Inr [OF assms(1)])
  with adjust_stock_shelf(2) [OF assms] show ?thesis unfolding accounted_def by (intro exI [of _ "[ar_movement r]"]) auto
qed

lemma accounted_run_sound:
  "accounted_run e0 s us s' \<Longrightarrow> shop_ok e0 s \<Longrightarrow> shop_ok e0 s' \<and> accounted s us s'"
proof (induction rule: accounted_run.induct)
  case (trade us t t')
  then show ?case using trade_step_good [OF trade(2)] accounted_trans [OF _ accounted_logged, of s us t t'] by (simp add: good_step_def)
next
  case (paper us t t')
  then show ?case using paper_step_good [OF paper(2), of e0] accounted_trans [OF _ accounted_logged, of s us t t'] by (simp add: good_step_def)
next
  case (made us t e input p t')
  from accounted_trans [OF _ accounted_create [OF made(3)]]
  show ?case using made(4,5) catalogue_step_sound [OF cat_created [OF made(3)] made(2)] by blast
next
  case (edited us t e i c p t')
  obtain t1 where t1: "put_product e i (patch_product c) t = Inr (p, t1)" "t' = t1\<lparr>hooks := hooks t1 @ [Invalidate ''products'']\<rparr>"
    by (rule product_update_Inr [OF edited(3)])
  have pr: "products t' = upd_where (\<lambda>q. p_id q = i \<and> \<not> p_deleted q) (patch_product c) (products t)"
    by (rule put_product_Inr [OF t1(1)]) (simp add: t1(2))
  have "accounted t [] t'" by (rule accounted_edit [OF _ _ pr catalogue_movements(2) [OF edited(3)]]) (simp_all add: patch_product_same)
  then show ?case using edited catalogue_step_sound [OF cat_updated] accounted_trans [of s us t "[]" t'] by simp
next
  case (dropped us t i j t')
  have pr: "products t' = upd_where (\<lambda>q. p_id q = i \<and> \<not> p_deleted q) (\<lambda>q. q\<lparr>p_deleted := True\<rparr>) (products t)"
    using dropped(2) by (auto simp: product_delete_in_def add_hook_def)
  have "accounted t [] t'" by (rule accounted_edit [OF _ _ pr catalogue_movements(3) [OF dropped(2)]]) simp_all
  then show ?case using dropped catalogue_step_sound [OF cat_deleted refl] accounted_trans [of s us t "[]" t'] by simp
next
  case (pictured us t i img p t')
  have pr: "products t' = upd_where (\<lambda>q. p_id q = i) (\<lambda>q. q\<lparr>p_image_key := img\<rparr>) (products t)"
    using pictured(2) by (auto simp: set_image_in_def product_by_id_Inr add_hook_def split: option.splits if_splits)
  have "accounted t [] t'" by (rule accounted_edit [OF _ _ pr catalogue_movements(4) [OF pictured(2)]]) simp_all
  then show ?case using pictured catalogue_step_sound [OF cat_image refl] accounted_trans [of s us t "[]" t'] by simp
next
  case (corrected us t e i adj user dev r t')
  have "products_keyed t" using corrected by (simp add: shop_ok_def)
  from accounted_trans [OF _ accounted_correction [OF corrected(3) this]]
  show ?case using corrected(4,5) catalogue_step_sound [OF cat_adjusted [OF corrected(3)] corrected(2)] by blast
qed (simp add: accounted_def)

text \<open>Every run has its account.\<close>

lemma run_accounted: "(shop_step e0)\<^sup>*\<^sup>* s s' \<Longrightarrow> \<exists>us. accounted_run e0 s us s'"
proof (induction rule: rtranclp_induct)
  case (step t t')
  then obtain us where us: "accounted_run e0 s us t" by blast
  from step(2) show ?case
  proof cases
    case (catalogued e)
    from catalogued(2) show ?thesis
      by cases (use us catalogued(1) in \<open>blast intro: accounted_run.intros\<close>)+
  qed (use us in \<open>blast intro: accounted_run.intros\<close>)+
qed (blast intro: opened)

lemma off_log_nonneg: "accounted_run e0 s us s' \<Longrightarrow> u \<in> set us \<Longrightarrow> 0 \<le> snd u"
proof (induction rule: accounted_run.induct)
  case (made us t e input p t')
  have "product_ok p" "p = new_product (p_id p) input" using product_create_Inr [OF made(3)] by simp_all
  then have "0 \<le> pr_stock input" by (metis new_product_def product.select_convs(5) product_ok_def)
  then show ?case using made by auto
qed auto

section \<open>Properties\<close>

text \<open>
  C5. The books of a closed drawer never change. With the keys of the tables in order, whatever the shop does afterwards -
  more drawers, bills, quotes sold, voids, credit notes, payments, orders and receipts, the catalogue and its corrections, and
  all the paperwork, in any number and order - a drawer
  that is closed stays closed, with the same expected cash, the same count and the same closing instant.
\<close>

theorem closed_books_never_change:
  assumes "shop_ok e0 s" "(shop_step e0)\<^sup>*\<^sup>* s s'" "closed_shift s i"
  shows "closed_shift s' i \<and> closed_books s' i = closed_books s i"
  using shop_run_sound [OF assms(2,1)] assms(3) by (simp add: books_frozen_def)

lemma sample_correction_runs:
  "\<exists>r s1 x s2. create_in sample_env sample_bill sample_actor sample_shop = Inr (r, s1) \<and>
     adjust_stock_in sample_env ''p'' \<lparr>sa_delta = -15, sa_type = Adjustment_Out, sa_note = None\<rparr> ''u'' None s1 = Inr (x, s2)"
  by (simp add: adjust_stock_in_def product_by_id_in_def insert_audit_def sale_defs sample_bill_def sample_actor_def sample_shop_def
      sample_totals Let_def is_open_def is_current_def MAX_DOC_NO_def points_for_exact INT4_MAX_def mv_ref_key_def)

lemma sample_shop_sound: "shop_ok sample_env sample_shop"
  by (simp add: shop_ok_def sample_shop_def shifts_ok_def one_active_def products_keyed_def part_nos_unique_def order_lines_ok_def)

theorem closed_books_never_change_witness:
  "\<exists>x s1 r s2. close_in sample_env ''d'' 50000 sample_shop = Inr (x, s1) \<and> open_in sample_env sample_actor None 20000 None s1 = Inr (r, s2) \<and>
     closed_shift s1 ''s'' \<and> closed_books s2 ''s'' = closed_books s1 ''s''"
proof -
  have "\<exists>x s1. close_in sample_env ''d'' 50000 sample_shop = Inr (x, s1) \<and> closed_shift s1 ''s'' \<and>
      (\<exists>r s2. open_in sample_env sample_actor None 20000 None s1 = Inr (r, s2))"
    by (simp add: close_in_def lock_active_def is_current_def with_entries_def constraint_defs closed_shift_def sample_shop_def sample_actor_def
        open_in_def open_new_def live_device_def archive_current_def archive_def
        insert_review_item_def date_str_of_def insert_shift_def active_clash_def fresh_id_def Let_def ex_bool_eq)
  then obtain x s1 r s2 where run: "close_in sample_env ''d'' 50000 sample_shop = Inr (x, s1)" "closed_shift s1 ''s''"
    "open_in sample_env sample_actor None 20000 None s1 = Inr (r, s2)" by blast
  have "shop_ok sample_env s1"
    using shop_step_sound [OF traded [OF at_the_till [OF till_closed [OF run(1)]]] sample_shop_sound] by simp
  from closed_books_never_change [OF this r_into_rtranclp [of "shop_step sample_env", OF traded [OF at_the_till [OF till_opened [OF run(3)]]]] run(2)]
  show ?thesis using run by blast
qed

text \<open>
  C4. The shelf is accounted for. In every run of the shop the stock ledger only grows, and the stock of every product moves
  by exactly the sum of its new ledger rows and of what the run put on the shelf outside the ledger: the opening stock of a
  product that was made in the run, and, for each manual correction below zero, the part the clamp left undone (its ledger row
  keeps the delta that was asked for). Neither is ever negative, so the shelf never holds less than its ledger says; and every
  run has such an account, found from its operations alone.
\<close>

theorem shelf_is_accounted_for:
  assumes "shop_ok e0 s" "(shop_step e0)\<^sup>*\<^sup>* s s'"
  shows "(\<exists>us. accounted_run e0 s us s') \<and>
    (\<forall>us. accounted_run e0 s us s' \<longrightarrow> (\<forall>u \<in> set us. 0 \<le> snd u) \<and>
      (\<exists>vs. movements s' = movements s @ vs \<and>
        (\<forall>k. on_hand s' k = on_hand s k + sum_by mv_delta (filter (\<lambda>v. mv_product_id v = k) vs) +
          sum_by snd (filter (\<lambda>u. fst u = k) us))))"
  using run_accounted [OF assms(2)] accounted_run_sound [OF _ assms(1)] off_log_nonneg unfolding accounted_def by blast

text \<open>A sale of three of ten, and a correction of minus fifteen: nothing is left, eight of the fifteen were clamped away.\<close>

theorem shelf_is_accounted_for_witness:
  "\<exists>r s1 x s2. create_in sample_env sample_bill sample_actor sample_shop = Inr (r, s1) \<and>
     adjust_stock_in sample_env ''p'' \<lparr>sa_delta = -15, sa_type = Adjustment_Out, sa_note = None\<rparr> ''u'' None s1 = Inr (x, s2) \<and>
     on_hand s1 ''p'' = 7 \<and> on_hand s2 ''p'' = 0 \<and>
     (\<exists>vs. movements s2 = vs \<and> 0 = 10 + sum_by mv_delta (filter (\<lambda>v. mv_product_id v = ''p'') vs) + 8)"
proof -
  let ?adj = "\<lparr>sa_delta = -15, sa_type = Adjustment_Out, sa_note = None\<rparr>"
  obtain r s1 x s2 where run: "create_in sample_env sample_bill sample_actor sample_shop = Inr (r, s1)"
    "adjust_stock_in sample_env ''p'' ?adj ''u'' None s1 = Inr (x, s2)"
    using sample_correction_runs by blast
  have w: "sale_written sample_env sample_bill sample_actor sample_shop r s1"
    by (rule create_in_written [OF run(1) sample_shop_fresh(1)])
  have first: "on_hand s1 ''p'' = 7"
    using w by (simp add: sale_written_def on_hand_def row_of_stock_moved) (simp add: sample_shop_def sample_bill_def)
  have st: "trade_step sample_env sample_shop s1" by (rule sold [OF run(1)])
  have ok: "products_keyed s1" using trade_step_good [OF st sample_shop_sound] by (simp add: good_step_def shop_ok_def)
  have second: "on_hand s2 ''p'' = 0" using adjust_stock_shelf(2) [OF run(2) ok, of "''p''"] first by simp
  have "accounted_run sample_env sample_shop ([] @ [(''p'', max 0 (- (on_hand s1 ''p'' + sa_delta ?adj)))]) s2"
    by (rule corrected [OF trade [OF opened st] refl run(2)])
  then have acc: "accounted_run sample_env sample_shop [(''p'', 8)] s2" by (simp add: first)
  have "(shop_step sample_env)\<^sup>*\<^sup>* sample_shop s2"
    using traded [OF st] catalogued [OF refl cat_adjusted [OF run(2)]] by (rule converse_rtranclp_into_rtranclp [OF _ r_into_rtranclp])
  with shelf_is_accounted_for [OF sample_shop_sound this] acc
  have "\<exists>vs. movements s2 = movements sample_shop @ vs \<and>
      (\<forall>k. on_hand s2 k = on_hand sample_shop k + logged_rows vs k + off_log [(''p'', 8)] k)" by blast
  moreover have "on_hand sample_shop ''p'' = 10" "movements sample_shop = []" by (simp_all add: sample_shop_def on_hand_def)
  ultimately show ?thesis using run first second by force
qed

end
