(* ===== verification/Shop_Documents.thy ===== *)
theory Shop_Documents
  imports Shop
begin

text \<open>
  What a run of the shop does to the documents it has already filed: a bill keeps its header, its lines and its rows in
  the ledger and can only be voided, once; a device keeps its number and its counters never go back. From this come the
  replay of a bill at any later time, the refusals on a voided bill, and numbers that never come twice.
\<close>

section \<open>A filed bill is kept\<close>

text \<open>The header without what a void may still write on it.\<close>

definition bill_core :: "sale \<Rightarrow> sale" where
  "bill_core b = b\<lparr>s_voided := False, s_voided_at := None, s_void_reason := None\<rparr>"

definition sale_rows :: "db \<Rightarrow> uuid \<Rightarrow> movement list" where
  "sale_rows s i = filter (\<lambda>v. mv_type v = Mv_Sale \<and> mv_ref_id v = Some i) (movements s)"

definition bill_kept :: "uuid \<Rightarrow> db \<Rightarrow> db \<Rightarrow> bool" where
  "bill_kept i s s' \<longleftrightarrow>
     (\<exists>b b'. row_of s_id i (sales s) = Some b \<and> row_of s_id i (sales s') = Some b' \<and> bill_core b' = bill_core b \<and>
        (s_voided b \<longrightarrow> s_voided b')) \<and>
     lines_of s' i = lines_of s i \<and> sale_rows s' i = sale_rows s i"

lemma bill_kept_refl: "row_of s_id i (sales s) = Some b \<Longrightarrow> bill_kept i s s"
  by (simp add: bill_kept_def)

lemma bill_kept_trans: "bill_kept i s t \<Longrightarrow> bill_kept i t u \<Longrightarrow> bill_kept i s u"
  by (auto simp: bill_kept_def)

lemma bill_kept_same:
  assumes "row_of s_id i (sales s) = Some b" "sales s' = sales s" "sale_items s' = sale_items s"
    and "movements s' = movements s @ vs" "\<forall>v \<in> set vs. \<not> (mv_type v = Mv_Sale \<and> mv_ref_id v = Some i)"
  shows "bill_kept i s s'"
  using assms by (auto simp: bill_kept_def lines_of_def sale_rows_def filter_empty_conv)

lemma bill_kept_marked:
  assumes "row_of s_id i (sales s) = Some b" "sales s' = upd_where (\<lambda>b. s_id b = j) f (sales s)" "sale_items s' = sale_items s"
    and "\<And>b. s_id (f b) = s_id b" "\<And>b. bill_core (f b) = bill_core b" "\<And>b. s_voided (f b)"
    and "movements s' = movements s @ vs" "\<forall>v \<in> set vs. \<not> (mv_type v = Mv_Sale \<and> mv_ref_id v = Some i)"
  shows "bill_kept i s s'"
proof -
  have upd: "row_of s_id i (upd_where (\<lambda>b. s_id b = j) f bs) = (if i = j then map_option f (row_of s_id i bs) else row_of s_id i bs)" for bs
    by (induction bs) (auto simp: assms(4))
  have "row_of s_id i (sales s') = Some (if i = j then f b else b)" unfolding assms(2) upd using assms(1) by (cases "i = j") simp_all
  then show ?thesis using assms by (auto simp: bill_kept_def lines_of_def sale_rows_def filter_empty_conv)
qed

lemma create_in_keeps_bill:
  assumes "create_in e dto a s = Inr (r, s')" "row_of s_id i (sales s) = Some b"
  shows "bill_kept i s s'"
  using assms(1)
proof (cases rule: create_in_Inr)
  case replay
  then show ?thesis using bill_kept_refl assms(2) by simp
next
  case new
  have w: "sale_written e dto a s r s'" by (rule create_in_written [OF assms(1) new(1)])
  have other: "sp_id dto \<noteq> i" using new(1) row_of_Some_has_key [OF assms(2)] by auto
  obtain b2 ls where b2: "sales s' = sales s @ [b2]" "s_id b2 = sp_id dto" and ls: "sale_items s' = sale_items s @ ls"
    "list_all2 (stored_line (sp_id dto) (live_products s)) (cs_items dto) ls"
    using w by (auto simp: sale_written_def sale_row_def)
  have "row_of s_id i (sales s') = Some b" using b2 assms(2) by (simp add: row_of_append)
  moreover have "filter (\<lambda>l. si_sale_id l = i) ls = []"
    using ls(2) other by (auto simp: filter_empty_conv list_all2_conv_all_nth in_set_conv_nth stored_line_def)
  moreover have "filter (\<lambda>v. mv_type v = Mv_Sale \<and> mv_ref_id v = Some i) (cr_movements r) = []"
    using w other by (auto simp: sale_written_def filter_empty_conv list_all2_conv_all_nth in_set_conv_nth)
  moreover have "movements s' = movements s @ cr_movements r" using w by (simp add: sale_written_def)
  ultimately show ?thesis using assms(2) by (simp add: bill_kept_def lines_of_def sale_rows_def ls(1))
qed

lemma sell_and_mark_keeps_bill:
  assumes "sell_and_mark e q st dto a s = Inr (r, s')" "row_of s_id i (sales s) = Some b"
  shows "bill_kept i s s'"
proof -
  obtain s0 where c: "create_in e dto a s = Inr (r, s0)" and s': "s' = (if st = State_Fresh
      then s0\<lparr>quotes := upd_where (\<lambda>r. q_id r = q) (converted_into e (sp_id dto)) (quotes s)\<rparr> else s0)"
    by (rule sell_and_mark_Inr [OF assms(1)])
  from create_in_keeps_bill [OF c assms(2)] show ?thesis by (simp add: s' bill_kept_def lines_of_def sale_rows_def)
qed

lemma void_in_keeps_bill:
  assumes "void_in e j a reason s = Inr (r, s')" "row_of s_id i (sales s) = Some b"
  shows "bill_kept i s s'"
proof -
  obtain ms where w: "movements s' = movements s @ ms" "\<forall>v \<in> set ms. mv_type v = Mv_Void \<and> mv_ref_id v = Some j"
    "sales s' = upd_where (\<lambda>b. s_id b = j) (mark_voided e reason) (sales s)"
    by (rule void_in_Inr [OF assms(1)])
  have "sale_items s' = sale_items s" by (rule tx_fixesD [OF tx_fixes_void_in assms(1)]; simp)
  then show ?thesis
    by (rule bill_kept_marked [OF assms(2) w(3) _ _ _ _ w(1)]) (use w(2) in \<open>auto simp: mark_voided_def bill_core_def\<close>)
qed

lemma return_in_keeps_bill:
  assumes "return_in e dto a s = Inr (r, s')" "row_of s_id i (sales s) = Some b"
  shows "bill_kept i s s'"
  using assms(1)
proof (cases rule: return_in_Inr)
  case replay
  then show ?thesis using bill_kept_refl assms(2) by simp
next
  case (new c sold sid j)
  have w: "movements s' = movements s @ cn_movements r"
    "sales s' = (if cn_sale_voided r then upd_where (\<lambda>b. s_id b = rt_sale_id dto) (void_by_return e) (sales s) else sales s)"
    using new(3) by (simp_all add: return_written_def Let_def)
  have ms: "\<forall>v \<in> set (cn_movements r). \<not> (mv_type v = Mv_Sale \<and> mv_ref_id v = Some i)"
    using new(3) by (auto simp: return_written_def Let_def list_all2_conv_all_nth in_set_conv_nth restored_row_def)
  have items: "sale_items s' = sale_items s" by (rule tx_fixesD [OF tx_fixes_return_in assms(1)]; simp)
  show ?thesis
  proof (cases "cn_sale_voided r")
    case True
    then have "sales s' = upd_where (\<lambda>b. s_id b = rt_sale_id dto) (void_by_return e) (sales s)" using w(2) by simp
    then show ?thesis
      by (rule bill_kept_marked [OF assms(2) _ items _ _ _ w(1) ms]) (simp_all add: void_by_return_def bill_core_def)
  next
    case False
    then show ?thesis using bill_kept_same [OF assms(2) _ items w(1) ms] w(2) by simp
  qed
qed

lemma other_trade_keeps_bill:
  assumes "row_of s_id i (sales s) = Some b" "sales s' = sales s" "sale_items s' = sale_items s" "movements s' = movements s"
  shows "bill_kept i s s'"
  by (rule bill_kept_same [OF assms(1-3), of "[]"]) (simp_all add: assms(4))

lemma trade_step_keeps_bill:
  assumes "trade_step e0 s s'" "row_of s_id i (sales s) = Some b"
  shows "bill_kept i s s'"
  using assms(1)
proof cases
  case (sold_quote e j dto a r)
  obtain x sq where r: "r = (x, sq)" by (cases r)
  from sold_quote [unfolded r] show ?thesis
  proof (cases rule: sell_in_Inr)
    case missing
    then show ?thesis using bill_kept_refl assms(2) by simp
  next
    case (sold st)
    then show ?thesis by (intro sell_and_mark_keeps_bill [OF _ assms(2)])
  qed
next
  case (converted e j party a r)
  obtain x out where r: "r = (x, out)" by (cases r)
  from converted [unfolded r] show ?thesis by (rule convert_in_Inr) (rule sell_and_mark_keeps_bill [OF _ assms(2)])
next
  case (received e j u d r)
  obtain rs vs where w: "list_all2 (\<lambda>r v. restored_row Mv_Receive j (rn_id r, rn_delta r) v) (touched_of rs) vs"
    "movements s' = movements s @ vs"
    by (rule receive_in_Inr [OF received(2)])
  have "sales s' = sales s" "sale_items s' = sale_items s" by (rule tx_fixesD [OF tx_fixes_receive_in received(2)]; simp)+
  then show ?thesis
    by (rule bill_kept_same [OF assms(2) _ _ w(2)])
      (use w(1) in \<open>auto simp: restored_row_def list_all2_conv_all_nth in_set_conv_nth\<close>)
next
  case at_the_till
  show ?thesis by (rule other_trade_keeps_bill [OF assms(2)]; rule till_step_fixes [OF at_the_till]; simp)
next
  case paid
  show ?thesis by (rule other_trade_keeps_bill [OF assms(2)]; rule tx_fixesD [OF tx_fixes_credit_payment_in paid]; simp)
next
  case ordered
  show ?thesis by (rule other_trade_keeps_bill [OF assms(2)]; rule tx_fixesD [OF tx_fixes_po_create_in ordered]; simp)
next
  case order_cancelled
  show ?thesis by (rule other_trade_keeps_bill [OF assms(2)]; rule tx_fixesD [OF tx_fixes_po_cancel_in order_cancelled]; simp)
next
  case order_deleted
  show ?thesis by (rule other_trade_keeps_bill [OF assms(2)]; rule tx_fixesD [OF tx_fixes_po_delete_in order_deleted]; simp)
next
  case sold
  then show ?thesis by (rule create_in_keeps_bill [OF _ assms(2)])
next
  case voided
  then show ?thesis by (rule void_in_keeps_bill [OF _ assms(2)])
next
  case returned
  then show ?thesis by (rule return_in_keeps_bill [OF _ assms(2)])
qed

lemma catalogue_step_keeps_bill:
  assumes "catalogue_step e s s'" "row_of s_id i (sales s) = Some b"
  shows "bill_kept i s s'"
proof -
  note same = catalogue_step_fixes [OF assms(1)]
  have s: "sales s' = sales s" "sale_items s' = sale_items s" by (rule same; simp)+
  from assms(1) show ?thesis
  proof cases
    case (cat_adjusted j adj user dev r)
    obtain p where "movements s' = movements s @ [ar_movement r]" "mv_type (ar_movement r) = kind_of_adjustment (sa_type adj)"
      by (rule adjust_stock_Inr [OF cat_adjusted])
    then show ?thesis
      by (intro bill_kept_same [OF assms(2) s]) (auto simp: kind_of_adjustment_def split: adjustment_type.splits)
  qed (rule other_trade_keeps_bill [OF assms(2) s], erule catalogue_movements)+
qed

lemma shop_step_keeps_bill:
  assumes "shop_step e0 s s'" "row_of s_id i (sales s) = Some b"
  shows "bill_kept i s s'"
  using assms(1)
proof cases
  case traded
  then show ?thesis by (rule trade_step_keeps_bill [OF _ assms(2)])
next
  case catalogued
  then show ?thesis by (intro catalogue_step_keeps_bill [OF _ assms(2)])
next
  case papered
  show ?thesis by (rule other_trade_keeps_bill [OF assms(2)]; rule paper_step_fixes [OF papered]; simp)
qed

lemma run_keeps_bill:
  "(shop_step e0)\<^sup>*\<^sup>* s s' \<Longrightarrow> row_of s_id i (sales s) = Some b \<Longrightarrow> bill_kept i s s'"
proof (induction rule: rtranclp_induct)
  case (step t t')
  then have "bill_kept i s t" by blast
  moreover from this obtain b' where "row_of s_id i (sales t) = Some b'" by (auto simp: bill_kept_def)
  ultimately show ?case using shop_step_keeps_bill [OF step(2)] bill_kept_trans by blast
qed (rule bill_kept_refl)

section \<open>The replay of a bill, at any time\<close>

text \<open>The first answer with what the shop holds of its products, its customer and its mechanic as they stand now.\<close>

definition answered_now :: "db \<Rightarrow> 'a create_sale_scheme \<Rightarrow> create_sale_result \<Rightarrow> create_sale_result" where
  "answered_now t dto r =
     (let mech = (case sp_mechanic_id dto of None \<Rightarrow> None | Some m \<Rightarrow> row_of m_id m (mechanics t)) in
      r\<lparr>cr_products := stock_of t (first_seen (map sl_product_id (cs_items dto))),
        cr_balance_after := map_option (\<lambda>m. from_satang (m_credit_balance m)) mech,
        cr_mechanic_after := map_option mechanic_out mech,
        cr_customer_after := (case sp_customer_id dto of None \<Rightarrow> None | Some c \<Rightarrow> map_option customer_out (row_of c_id c (customers t)))\<rparr>)"

lemma existing_kept:
  assumes "existing_sale i n off (Some (cs_items dto)) s = Inr (Some r, s)" "row_of s_id i (sales s) = Some b" "bill_kept i s t"
    and "s_customer_id b = sp_customer_id dto" "s_mechanic_id b = sp_mechanic_id dto" "row_of s_id i (sales t) = Some b'"
  shows "existing_sale i n off' (Some (cs_items dto)) t =
    (if s_voided b' \<and> \<not> off' then Inl sale_voided else Inr (Some (answered_now t dto r), t))"
proof -
  have core: "bill_core b' = bill_core b" and ls: "lines_of t i = lines_of s i" and ms: "sale_rows t i = sale_rows s i"
    using assms(2,3,6) by (auto simp: bill_kept_def)
  have fields: "s_total b' = s_total b" "s_receipt_no b' = s_receipt_no b" "s_points_granted b' = s_points_granted b"
    "s_date b' = s_date b" "s_shift_id b' = s_shift_id b" "s_payment_account_id b' = s_payment_account_id b"
    "s_customer_id b' = s_customer_id b" "s_mechanic_id b' = s_mechanic_id b"
    using core unfolding bill_core_def by (cases b'; cases b; simp)+
  have items: "filter (\<lambda>l. si_sale_id l = i) (sale_items t) = filter (\<lambda>l. si_sale_id l = i) (sale_items s)"
    using ls by (simp add: lines_of_def)
  have moves: "sale_movements_of t i ids = sale_movements_of s i ids" for ids
    using ms by (simp add: sale_movements_of_def sale_rows_def)
  have tot: "s_total b = n" using assms(1,2) by (auto simp: existing_sale_def tx_bind_def tx_guard_def split: if_splits)
  show ?thesis
    using assms(1,2,4,5,6) tot
    by (auto simp: existing_sale_def Let_def fields items moves answered_now_def products_aggregate tx_bind_def tx_guard_def
        option.map_comp comp_def split: if_splits option.splits)
qed

lemma new_bill_row:
  assumes "create_in e dto a s = Inr (r, s')" "\<not> has_key s_id (sp_id dto) (sales s)"
  obtains b where "row_of s_id (sp_id dto) (sales s') = Some b" "s_customer_id b = sp_customer_id dto"
    "s_mechanic_id b = sp_mechanic_id dto" "\<not> s_voided b"
proof -
  obtain b where "sales s' = sales s @ [b]" "s_id b = sp_id dto" "s_customer_id b = sp_customer_id dto"
    "s_mechanic_id b = sp_mechanic_id dto" "\<not> s_voided b"
    using create_in_written [OF assms] by (auto simp: sale_written_def sale_row_def)
  moreover from this have "row_of s_id (sp_id dto) (sales s') = Some b"
    using row_of_None [of s_id "sp_id dto" "sales s"] assms(2) by (simp add: row_of_append)
  ultimately show thesis using that by blast
qed

lemma sample_return_voids: "\<exists>r s'. return_in sample_env (sample_return 3) sample_actor billed_shop = Inr (r, s') \<and> cn_sale_voided r \<and>
    \<not> has_key r_id ''n2'' (returns s')"
  using sample_money [of 3]
  by (simp add: return_defs sample_return_def billed_shop_def sample_shop_def sample_actor_def Let_def
      is_open_def is_current_def MAX_DOC_NO_def INT4_MAX_def mv_ref_key_def in_proportion_def
      round_mul_div_exact ex_bool_eq)

section \<open>Numbers never come back\<close>

text \<open>No counter goes back, and a device on file keeps its number.\<close>

definition numbers_kept :: "db \<Rightarrow> db \<Rightarrow> bool" where
  "numbers_kept s s' \<longleftrightarrow> counters_le s s' \<and>
     (\<forall>i n. map_option d_no (row_of d_id i (devices s)) = Some n \<longrightarrow> map_option d_no (row_of d_id i (devices s')) = Some n)"

lemma numbers_kept_refl [simp]: "numbers_kept s s"
  by (simp add: numbers_kept_def)

lemma numbers_kept_trans: "numbers_kept s t \<Longrightarrow> numbers_kept t u \<Longrightarrow> numbers_kept s u"
  unfolding numbers_kept_def using counters_le_trans by blast

lemma numbers_kept_devices: "counters_le s s' \<Longrightarrow> devices s' = devices s \<Longrightarrow> numbers_kept s s'"
  by (simp add: numbers_kept_def)

lemma counters_same: "doc_counters s' = doc_counters s \<Longrightarrow> counters_le s s'"
  by (simp add: counters_le_def last_no_def)

lemma keeps_counters: "tx_fixes doc_counters m \<Longrightarrow> tx_keeps (counters_le s0) m"
  by (rule tx_keepsI) (metis tx_fixesD counters_same counters_le_trans)

lemma keeps_counters_number:
  "tx_keeps (counters_le s0) (resolve_doc_number e dev dt c)" "tx_keeps (counters_le s0) (issue e dev dt)"
  using resolved.counters_grow issued.counters_grow counters_le_trans by (blast intro: tx_keepsI)+

lemma counters_grow:
  "create_in e dto a s = Inr (r, s') \<Longrightarrow> counters_le s s'"
  "return_in e rdto a s = Inr (r2, s') \<Longrightarrow> counters_le s s'"
  "credit_payment_in e m pay a s = Inr (r3, s') \<Longrightarrow> counters_le s s'"
  "po_create_in e input dev s = Inr (r4, s') \<Longrightarrow> counters_le s s'"
  "quote_create_in e qin dev s = Inr (r5, s') \<Longrightarrow> counters_le s s'"
  "quote_duplicate_in e i dev s = Inr (r5, s') \<Longrightarrow> counters_le s s'"
proof -
  note keep = tx_keeps_bind tx_keeps_case_option tx_keeps_case_prod tx_keeps_let tx_keeps_if keeps_counters_number
  have number: "tx_keeps (counters_le s) op \<Longrightarrow> op s = Inr (x, s') \<Longrightarrow> counters_le s s'" for op :: "'z op" and x
    by (erule tx_keepsD) simp_all
  have reads: "tx_fixes doc_counters (existing_sale i n off is)" "tx_fixes doc_counters (resolve_payment_account dto)"
    "tx_fixes doc_counters (lock_mechanic_and_check_limit dto)" "tx_fixes doc_counters (lock_products ids)"
    "tx_fixes doc_counters (assert_stock ds locked)" for i n off "is" ids ds locked
    unfolding existing_sale_def resolve_payment_account_def lock_mechanic_and_check_limit_def lock_products_def assert_stock_def
    by (intro tx_fix; simp)+
  show "create_in e dto a s = Inr (r, s') \<Longrightarrow> counters_le s s'"
    by (erule number [rotated], unfold create_in_def write_sale_def file_sale_def, intro keep;
      rule keeps_counters; intro tx_fix required.gate_fixes reads; simp)
  show "return_in e rdto a s = Inr (r2, s') \<Longrightarrow> counters_le s s'"
    by (erule number [rotated], unfold return_in_def return_new_def, intro keep; rule keeps_counters; intro tx_fix; simp)
  show "credit_payment_in e m pay a s = Inr (r3, s') \<Longrightarrow> counters_le s s'"
    by (erule number [rotated], unfold credit_payment_in_def pay_new_def lock_balance_def existing_payment_def insert_credit_payment_def
        reduce_balance_def, intro keep; rule keeps_counters; intro tx_fix required.gate_fixes; simp)
  show "po_create_in e input dev s = Inr (r4, s') \<Longrightarrow> counters_le s s'"
    by (erule number [rotated], unfold po_create_in_def insert_po_def insert_po_item_def, intro keep; rule keeps_counters;
      intro tx_fix; simp)
  show "quote_create_in e qin dev s = Inr (r5, s') \<Longrightarrow> counters_le s s'"
    by (erule number [rotated], unfold quote_create_in_def, intro keep; rule keeps_counters; intro tx_fix; simp)
  show "quote_duplicate_in e i dev s = Inr (r5, s') \<Longrightarrow> counters_le s s'"
    by (erule number [rotated], unfold quote_duplicate_in_def, intro keep; rule keeps_counters; intro tx_fix; simp)
qed

lemma till_step_numbers:
  assumes "till_step s s'"
  shows "numbers_kept s s'"
proof -
  have c: "counters_le s s'" by (rule counters_same) (rule till_step_fixes [OF assms]; simp)
  show ?thesis
    using assms
  proof cases
    case till_opened
    then show ?thesis using numbers_kept_devices [OF c] tx_fixesD [OF devices_untouched(1)] by blast
  next
    case till_closed
    then show ?thesis using numbers_kept_devices [OF c] tx_fixesD [OF devices_untouched(2)] by blast
  next
    case till_cash
    then show ?thesis using numbers_kept_devices [OF c] tx_fixesD [OF devices_untouched(3)] by blast
  next
    case (till_added e sha code a label role z)
    obtain v x where z: "z = (v, x)" by (cases z)
    obtain r where "devices s' = devices s @ [r]" using create_device_in_Inr [OF till_added [unfolded z]] by blast
    then show ?thesis using c by (auto simp: numbers_kept_def row_of_append)
  next
    case (till_retired e a k q w)
    obtain v drawer where w: "w = (v, drawer)" by (cases w)
    from till_retired [unfolded w] obtain d s1 s2 where r: "unsent_guard e d q s = Inr ((), s1)"
      "close_for_retirement e k (rq_cash q) s1 = Inr (drawer, s2)"
      "devices s' = upd_where (\<lambda>r. d_id r = k) (retired_now e) (devices s2)"
      by (rule retire_device_in_Inr)
    have "devices s2 = devices s" using r(2) close_for_retirement_devices unsent_guard_fixes [OF r(1)] by metis
    then show ?thesis
      using c r(3) by (auto simp: numbers_kept_def retire_mark.row_of_upd retired_now_def)
  qed
qed

lemma sell_and_mark_numbers:
  assumes "sell_and_mark e i st dto a s = Inr (r, s')"
  shows "numbers_kept s s'"
proof -
  obtain s0 where c: "create_in e dto a s = Inr (r, s0)" and s': "s' = (if st = State_Fresh
      then s0\<lparr>quotes := upd_where (\<lambda>q. q_id q = i) (converted_into e (sp_id dto)) (quotes s)\<rparr> else s0)"
    by (rule sell_and_mark_Inr [OF assms])
  have "devices s0 = devices s" by (rule tx_fixesD [OF tx_fixes_create_in c]; simp)
  with counters_grow(1) [OF c] show ?thesis by (simp add: s' numbers_kept_def counters_le_def last_no_def)
qed

lemma trade_step_numbers:
  assumes "trade_step e0 s s'"
  shows "numbers_kept s s'"
  using assms
proof cases
  case at_the_till
  then show ?thesis by (rule till_step_numbers)
next
  case sold
  show ?thesis by (rule numbers_kept_devices [OF counters_grow(1) [OF sold]]; rule tx_fixesD [OF tx_fixes_create_in sold]; simp)
next
  case (sold_quote e i dto a r)
  obtain x sq where r: "r = (x, sq)" by (cases r)
  from sold_quote [unfolded r] show ?thesis by (cases rule: sell_in_Inr) (use sell_and_mark_numbers in auto)
next
  case (converted e i party a r)
  obtain x out where r: "r = (x, out)" by (cases r)
  from converted [unfolded r] show ?thesis by (rule convert_in_Inr) (rule sell_and_mark_numbers)
next
  case voided
  show ?thesis by (rule numbers_kept_devices [OF counters_same]; rule tx_fixesD [OF tx_fixes_void_in voided]; simp)
next
  case returned
  show ?thesis by (rule numbers_kept_devices [OF counters_grow(2) [OF returned]]; rule tx_fixesD [OF tx_fixes_return_in returned]; simp)
next
  case paid
  show ?thesis by (rule numbers_kept_devices [OF counters_grow(3) [OF paid]]; rule tx_fixesD [OF tx_fixes_credit_payment_in paid]; simp)
next
  case received
  show ?thesis by (rule numbers_kept_devices [OF counters_same]; rule tx_fixesD [OF tx_fixes_receive_in received(2)]; simp)
next
  case ordered
  show ?thesis by (rule numbers_kept_devices [OF counters_grow(4) [OF ordered]]; rule tx_fixesD [OF tx_fixes_po_create_in ordered]; simp)
next
  case order_cancelled
  show ?thesis by (rule numbers_kept_devices [OF counters_same]; rule tx_fixesD [OF tx_fixes_po_cancel_in order_cancelled]; simp)
next
  case order_deleted
  show ?thesis by (rule numbers_kept_devices [OF counters_same]; rule tx_fixesD [OF tx_fixes_po_delete_in order_deleted]; simp)
qed

lemma shop_step_numbers:
  assumes "shop_step e0 s s'"
  shows "numbers_kept s s'"
  using assms
proof cases
  case traded
  then show ?thesis by (rule trade_step_numbers)
next
  case (catalogued e)
  have "doc_counters s' = doc_counters s" "devices s' = devices s" by (rule catalogue_step_fixes [OF catalogued(2)]; simp)+
  then show ?thesis using numbers_kept_devices counters_same by blast
next
  case papered
  have "devices s' = devices s" by (rule paper_step_fixes [OF papered]; simp)
  moreover have "doc_counters s' = doc_counters s \<or> (\<exists>e input dev x. quote_create_in e input dev s = Inr (x, s')) \<or>
      (\<exists>e i dev x. quote_duplicate_in e i dev s = Inr (x, s'))"
    using papered by (rule paper_step_or_quote) simp_all
  then have "counters_le s s'" using counters_same counters_grow(5,6) by blast
  ultimately show ?thesis by (intro numbers_kept_devices)
qed

text \<open>
  What happens between two documents: steps of the shop, and anything that touches neither the counters nor the
  devices - the rest of the transaction that took the number among it.
\<close>

inductive between :: "env \<Rightarrow> db \<Rightarrow> db \<Rightarrow> bool" for e0 where
  in_shop: "shop_step e0 s s' \<Longrightarrow> between e0 s s'"
| elsewhere: "doc_counters s' = doc_counters s \<Longrightarrow> devices s' = devices s \<Longrightarrow> between e0 s s'"

lemma between_numbers: "between e0 s s' \<Longrightarrow> numbers_kept s s'"
  by (induction rule: between.induct) (auto intro: shop_step_numbers numbers_kept_devices counters_same)

lemma run_numbers: "(between e0)\<^sup>*\<^sup>* s s' \<Longrightarrow> numbers_kept s s'"
  by (induction rule: rtranclp_induct) (auto intro: numbers_kept_trans between_numbers)

section \<open>Properties\<close>

text \<open>
  C6. A duplicate of a bill already filed changes nothing, at any time: whatever the shop did since, the bill is still on
  file, and unless it has been voided since (then the duplicate is refused, except one that was rung up offline) the answer
  is the first one, field for field - number, date, points, drawer, lines, ledger rows - with the stock of its products and
  the balances of its customer and mechanic as they stand now; sent at once, it is the very same answer.
\<close>

theorem sale_replay_same_answer:
  assumes "create_in e dto a s = Inr (r, s')" "\<not> has_key s_id (sp_id dto) (sales s)" "lines_have_bill s"
    and "(shop_step e0)\<^sup>*\<^sup>* s' t"
  shows "(\<exists>b. row_of s_id (sp_id dto) (sales t) = Some b \<and>
      create_in e' dto a' t = (if s_voided b \<and> \<not> sw_sold_offline dto then Inl sale_voided else Inr (answered_now t dto r, t))) \<and>
    create_in e' dto a' s' = Inr (r, s')"
proof -
  obtain b where b: "row_of s_id (sp_id dto) (sales s') = Some b" "s_customer_id b = sp_customer_id dto"
    "s_mechanic_id b = sp_mechanic_id dto"
    by (rule new_bill_row [OF assms(1,2)])
  have kept: "bill_kept (sp_id dto) s' t" by (rule run_keeps_bill [OF assms(4) b(1)])
  then obtain b' where b': "row_of s_id (sp_id dto) (sales t) = Some b'" by (auto simp: bill_kept_def)
  have tot: "assert_sale_totals (line_amounts (cs_items dto)) (cs_subtotal dto) (cs_discount dto) (cs_total dto) = Inr ()"
    using assms(1) by (auto simp: create_in_def)
  note first = existing_after_create [OF assms(1-3), of "sw_sold_offline dto"]
  have "create_in e' dto a' s' = Inr (r, s')"
    using first tot by (simp add: create_in_def tx_bind_Inr_run
        [of "existing_sale (sp_id dto) (cs_total dto) (sw_sold_offline dto) (Some (cs_items dto))"])
  moreover have "create_in e' dto a' t =
      (if s_voided b' \<and> \<not> sw_sold_offline dto then Inl sale_voided else Inr (answered_now t dto r, t))"
    using existing_kept [OF first b(1) kept b(2,3) b', of "sw_sold_offline dto"] tot
    by (simp add: create_in_def tx_bind_def)
  ultimately show ?thesis using b' by blast
qed

text \<open>C6's bill again after the shelf was corrected to nothing: the same bill, and nothing on the shelf.\<close>

theorem sale_replay_same_answer_witness:
  "\<exists>r s1 x s2 r'. create_in sample_env sample_bill sample_actor sample_shop = Inr (r, s1) \<and>
     adjust_stock_in sample_env ''p'' \<lparr>sa_delta = -15, sa_type = Adjustment_Out, sa_note = None\<rparr> ''u'' None s1 = Inr (x, s2) \<and>
     create_in sample_env sample_bill \<lparr>a_user = ''v'', a_device = ''x''\<rparr> s2 = Inr (r', s2) \<and>
     cr_receipt_no r' = cr_receipt_no r \<and> cr_movements r' = cr_movements r"
proof -
  obtain r s1 x s2 where run: "create_in sample_env sample_bill sample_actor sample_shop = Inr (r, s1)"
    "adjust_stock_in sample_env ''p'' \<lparr>sa_delta = -15, sa_type = Adjustment_Out, sa_note = None\<rparr> ''u'' None s1 = Inr (x, s2)"
    using sample_correction_runs by blast
  have cat: "catalogue_step sample_env s1 s2" by (rule cat_adjusted [OF run(2)])
  have same: "sales s2 = sales s1" by (rule catalogue_step_fixes [OF cat]; simp)
  obtain b where b: "row_of s_id (sp_id sample_bill) (sales s1) = Some b" "\<not> s_voided b"
    by (rule new_bill_row [OF run(1) sample_shop_fresh(1)])
  have step: "(shop_step sample_env)\<^sup>*\<^sup>* s1 s2" by (rule r_into_rtranclp [of "shop_step sample_env"]) (rule catalogued [OF refl cat])
  have "create_in sample_env sample_bill \<lparr>a_user = ''v'', a_device = ''x''\<rparr> s2 = Inr (answered_now s2 sample_bill r, s2)"
    using sale_replay_same_answer [OF run(1) sample_shop_fresh(1,2) step, of sample_env "\<lparr>a_user = ''v'', a_device = ''x''\<rparr>"] b same by auto
  then show ?thesis
    using run by (intro exI [of _ r] exI [of _ s1] exI [of _ x] exI [of _ s2] exI [of _ "answered_now s2 sample_bill r"])
      (simp add: answered_now_def Let_def)
qed

text \<open>
  C7. The bill is voided by its last unit and by nothing sooner: a new credit note reports the bill voided exactly when every
  product and price on it has come back in full, and the bill is then marked. From then on, whatever the shop does, every
  credit note against it that is not on file already - with an id of its own or without - is refused as on a voided bill.
\<close>

theorem last_unit_voids_bill:
  assumes "returns_ok s" "return_in e dto a s = Inr (r, s')" "rt_id dto = None \<or> \<not> has_key r_id (the (rt_id dto)) (returns s)"
    and "(shop_step e0)\<^sup>*\<^sup>* s' t"
  shows "(cn_sale_voided r \<longleftrightarrow> (\<forall>k. returned_at s' (rt_sale_id dto) k = sold_at s' (rt_sale_id dto) k)) \<and>
    (\<exists>b b'. row_of s_id (rt_sale_id dto) (sales s) = Some b \<and> \<not> s_voided b \<and>
      row_of s_id (rt_sale_id dto) (sales s') = Some b' \<and> s_voided b' = cn_sale_voided r) \<and>
    (cn_sale_voided r \<and> rt_sale_id dto' = rt_sale_id dto \<and> (rt_id dto' = None \<or> \<not> has_key r_id (the (rt_id dto')) (returns t)) \<longrightarrow>
      return_in e' dto' a' t = Inl sale_voided)"
proof -
  obtain b b' where b: "row_of s_id (rt_sale_id dto) (sales s) = Some b" "\<not> s_voided b"
    "row_of s_id (rt_sale_id dto) (sales s') = Some b'" "s_voided b' = cn_sale_voided r"
    using new_note_voids(2) [OF assms(1-3)] by blast
  have "return_in e' dto' a' t = Inl sale_voided"
    if "cn_sale_voided r" "rt_sale_id dto' = rt_sale_id dto" "rt_id dto' = None \<or> \<not> has_key r_id (the (rt_id dto')) (returns t)"
  proof -
    have "s_voided b'" using b(4) that(1) by simp
    then obtain c where "row_of s_id (rt_sale_id dto) (sales t) = Some c" "s_voided c"
      using run_keeps_bill [OF assms(4) b(3)] b(3) by (auto simp: bill_kept_def)
    then show ?thesis using voided_bill_takes_no_return [of dto' t c] that(2,3) by simp
  qed
  then show ?thesis using new_note_voids(1) [OF assms(1-3)] b by blast
qed

text \<open>All three units come back and void the bill; a fourth, under an id of its own, is refused.\<close>

theorem last_unit_voids_bill_witness:
  "\<exists>r s'. return_in sample_env (sample_return 3) sample_actor billed_shop = Inr (r, s') \<and> cn_sale_voided r \<and>
     return_in sample_env ((sample_return 1)\<lparr>rt_id := Some ''n2''\<rparr>) sample_actor s' = Inl sale_voided"
proof -
  obtain r s' where run: "return_in sample_env (sample_return 3) sample_actor billed_shop = Inr (r, s')" "cn_sale_voided r"
    "\<not> has_key r_id ''n2'' (returns s')"
    using sample_return_voids by blast
  have "\<not> has_key r_id (the (rt_id (sample_return 3))) (returns billed_shop)" "rt_sale_id (sample_return 3) = ''b''"
    by (simp_all add: billed_shop_def sample_shop_def sample_return_def)
  then show ?thesis
    using last_unit_voids_bill [OF billed_shop_ok(1) run(1) _ rtranclp.rtrancl_refl [of "shop_step sample_env"],
        of "(sample_return 1)\<lparr>rt_id := Some ''n2''\<rparr>" sample_env sample_actor] run
    by (simp add: sample_return_def)
qed

text \<open>
  C38. A number is never given twice: once a device's series has taken a number, issued by the server or recorded from the
  till, no later issue of that series answers with it again, whatever the shop does in between - more documents of every
  kind among it, and devices added and retired - and whatever else happens that touches neither the counters nor the devices.
\<close>

theorem issued_never_repeats:
  assumes "issue e dev dt s1 = Inr (n, s2) \<or> record_client_doc_number dev dt doc s1 = Inr (n, s2)"
    and "(between e0)\<^sup>*\<^sup>* s2 s3" "issue e' dev dt s3 = Inr (n', s4)"
  shows "n' \<noteq> n"
proof -
  have kept: "numbers_kept s2 s3" by (rule run_numbers [OF assms(2)])
  have "devices s2 = devices s1" using assms(1) by (auto dest!: issued.only_counters recorded.only_counters)
  moreover obtain d where "row_of d_id dev (devices s1) = Some d"
    using assms(1) issued.live_device recorded.live_device by blast
  ultimately have "map_option d_no (row_of d_id dev (devices s3)) = map_option d_no (row_of d_id dev (devices s1))"
    using kept by (simp add: numbers_kept_def)
  then show ?thesis using issued_above_taken [OF assms(1) _ assms(3)] kept by (simp add: numbers_kept_def)
qed

theorem issued_never_repeats_witness:
  "\<exists>n s2 s3 n' s4. record_client_doc_number ''d'' Receipt ''RC03-2569-10-0007''
       (blank_db\<lparr>devices := [plain_device ''d'' 3]\<rparr>) = Inr (n, s2) \<and> s3 = s2\<lparr>hooks := [Record_Document ''sale'']\<rparr> \<and>
     issue sample_env ''d'' Receipt s3 = Inr (n', s4) \<and> n' \<noteq> n"
proof -
  let ?s1 = "blank_db\<lparr>devices := [plain_device ''d'' 3]\<rparr>"
  let ?s2 = "?s1\<lparr>doc_counters := [\<lparr>dc_device = ''d'', dc_type = Receipt, dc_period = ''2569-10'', dc_last = 7\<rparr>]\<rparr>"
  let ?s3 = "?s2\<lparr>hooks := [Record_Document ''sale'']\<rparr>"
  let ?s4 = "?s3\<lparr>doc_counters := [\<lparr>dc_device = ''d'', dc_type = Receipt, dc_period = ''2569-10'', dc_last = 8\<rparr>]\<rparr>"
  have v: "validate_doc_number Receipt 3 ''RC03-2569-10-0007'' = Inr (''2569-10'', 7)" by code_simp
  have r: "record_client_doc_number ''d'' Receipt ''RC03-2569-10-0007'' ?s1 = Inr (''RC03-2569-10-0007'', ?s2)"
    by (simp add: record_client_doc_number_def device_no_def v upsert_counter_def Let_def check_def
        MAX_DOC_NO_def)
  have i: "issue sample_env ''d'' Receipt ?s3 = Inr (format_doc_number Receipt 3 ''2569-10'' 8, ?s4)"
    by (simp add: issue_def device_no_def upsert_counter_def Let_def check_def MAX_DOC_NO_def dc_key_def)
  have "(between sample_env)\<^sup>*\<^sup>* ?s2 ?s3" by (rule r_into_rtranclp [of "between sample_env"]) (rule elsewhere; simp)
  from issued_never_repeats [OF disjI2 [OF r] this i] r i show ?thesis by (intro exI conjI) simp_all
qed

end
