(* ===== verification/Rate_Limit.thy ===== *)
theory Rate_Limit
  imports Schema
begin

text \<open>
  The counters that slow a guesser down (\<open>rate-limit/rate-limit.service.ts\<close>) and the guard that counts
  a shop's requests (\<open>rate-limit/tenant-rate-limit.guard.ts\<close>). A counter is a Redis key of its own per
  time window; the service lets everything through when Redis cannot be reached. SHA-256, the verifier of
  tokens and Redis itself (up or down at every call) are parameters.
\<close>

section \<open>Redis\<close>

text \<open>A counter and the instant (in milliseconds) at which Redis forgets it.\<close>

type_synonym counters = "string \<Rightarrow> (int \<times> int) option"

text \<open>What one call meets: \<open>Date.now()\<close>, the clock of Redis, and whether Redis answers.\<close>

record rl_env =
  rl_now :: int
  rl_clock :: int
  rl_up :: bool

definition live :: "counters \<Rightarrow> int \<Rightarrow> string \<Rightarrow> (int \<times> int) option" where
  "live c t k = (case c k of None \<Rightarrow> None | Some (n, x) \<Rightarrow> if t < x then Some (n, x) else None)"

definition ttl_of :: "int \<Rightarrow> int \<Rightarrow> int" where
  "ttl_of t x = (x - t + 500) div 1000"

text \<open>\<open>RATE_LIMIT_LUA\<close>: \<open>INCR\<close>, \<open>EXPIRE\<close> when the key is new, \<open>TTL\<close>.\<close>

definition rate_limit_lua :: "int \<Rightarrow> string \<Rightarrow> int \<Rightarrow> counters \<Rightarrow> (int \<times> int) \<times> counters" where
  "rate_limit_lua t k win c =
     (let (n, x) = (case live c t k of None \<Rightarrow> (1, t + win * 1000) | Some (m, x) \<Rightarrow>
            (m + 1, if m + 1 = 1 then t + win * 1000 else x)) in
      ((n, ttl_of t x), c(k \<mapsto> (n, x))))"

text \<open>\<open>REFUND_LUA\<close>: \<open>DECR\<close> of a key that exists.\<close>

definition refund_lua :: "int \<Rightarrow> string \<Rightarrow> counters \<Rightarrow> counters" where
  "refund_lua t k c = (case live c t k of None \<Rightarrow> c | Some (n, x) \<Rightarrow> c(k \<mapsto> (n - 1, x)))"

section \<open>The service\<close>

datatype verdict = Allowed | Limited int

definition window_slice :: "int \<Rightarrow> int \<Rightarrow> int" where
  "window_slice ms win = (ms div 1000) div win"

definition show_slice :: "int \<Rightarrow> string" where
  "show_slice n = (if n < 0 then ''-'' @ show_nat (nat (- n)) else show_nat (nat n))"

definition window_key :: "(string \<Rightarrow> string) \<Rightarrow> rl_env \<Rightarrow> string \<Rightarrow> int \<Rightarrow> string" where
  "window_key sha e key win = ''rl:'' @ sha key @ '':'' @ show_slice (window_slice (rl_now e) win)"

definition retry_after :: "int \<Rightarrow> int \<Rightarrow> int" where
  "retry_after ttl win = (if 0 < ttl then ttl else win)"

definition check_key_limit :: "(string \<Rightarrow> string) \<Rightarrow> rl_env \<Rightarrow> string \<Rightarrow> int \<Rightarrow> int \<Rightarrow> counters \<Rightarrow> verdict \<times> counters" where
  "check_key_limit sha e key limit win c =
     (if \<not> rl_up e then (Allowed, c)
      else let ((n, ttl), c') = rate_limit_lua (rl_clock e) (window_key sha e key win) win c in
        (if limit < n then Limited (retry_after ttl win) else Allowed, c'))"

definition get_failure_status :: "(string \<Rightarrow> string) \<Rightarrow> rl_env \<Rightarrow> string \<Rightarrow> int \<Rightarrow> int \<Rightarrow> counters \<Rightarrow> verdict" where
  "get_failure_status sha e key limit win c =
     (if \<not> rl_up e then Allowed
      else let k = window_key sha e key win;
               n = (case live c (rl_clock e) k of None \<Rightarrow> 0 | Some (m, _) \<Rightarrow> m);
               ttl = (case live c (rl_clock e) k of None \<Rightarrow> - 2 | Some (_, x) \<Rightarrow> ttl_of (rl_clock e) x) in
        if limit \<le> n then Limited (retry_after ttl win) else Allowed)"

definition record_failure :: "(string \<Rightarrow> string) \<Rightarrow> rl_env \<Rightarrow> string \<Rightarrow> int \<Rightarrow> counters \<Rightarrow> int \<times> counters" where
  "record_failure sha e key win c =
     (if \<not> rl_up e then (0, c)
      else let ((n, _), c') = rate_limit_lua (rl_clock e) (window_key sha e key win) win c in (n, c'))"

definition consume_attempt :: "(string \<Rightarrow> string) \<Rightarrow> rl_env \<Rightarrow> string \<Rightarrow> int \<Rightarrow> int \<Rightarrow> counters \<Rightarrow> verdict \<times> counters" where
  "consume_attempt sha e key limit win c =
     (if \<not> rl_up e then (Allowed, c)
      else let ((n, ttl), c') = rate_limit_lua (rl_clock e) (window_key sha e key win) win c in
        (if limit < n then Limited (retry_after ttl win) else Allowed, c'))"

definition refund_attempt :: "(string \<Rightarrow> string) \<Rightarrow> rl_env \<Rightarrow> string \<Rightarrow> int \<Rightarrow> counters \<Rightarrow> counters" where
  "refund_attempt sha e key win c =
     (if rl_up e then refund_lua (rl_clock e) (window_key sha e key win) c else c)"

definition clear_key :: "(string \<Rightarrow> string) \<Rightarrow> rl_env \<Rightarrow> string \<Rightarrow> int \<Rightarrow> counters \<Rightarrow> counters" where
  "clear_key sha e key win c = (if rl_up e then c(window_key sha e key win := None) else c)"

section \<open>A shop's quota\<close>

definition DEFAULT_LIMIT :: int where "DEFAULT_LIMIT = 300"
definition DEFAULT_WINDOW_SEC :: int where "DEFAULT_WINDOW_SEC = 60"

text \<open>
  \<open>getTenantPlan\<close>: what Redis has (none when it cannot be reached), else the row (none when the read
  fails or there is no row); the entry it leaves in Redis lives 300 s and is left out.
\<close>

definition get_tenant_plan :: "string option \<Rightarrow> string option \<Rightarrow> string" where
  "get_tenant_plan cached row =
     (let plan = (case row of None \<Rightarrow> ''basic'' | Some p \<Rightarrow> if p = [] then ''basic'' else p) in
      case cached of None \<Rightarrow> plan | Some p \<Rightarrow> if p = [] then plan else p)"

definition route_char :: "char \<Rightarrow> char" where
  "route_char c = (if is_digit c \<or> (65 \<le> (of_char c :: nat) \<and> (of_char c :: nat) \<le> 90) \<or>
     (97 \<le> (of_char c :: nat) \<and> (of_char c :: nat) \<le> 122) \<or> c = CHR ''_'' \<or> c = CHR ''-'' then c else CHR ''_'')"

definition check_rate_limit ::
  "rl_env \<Rightarrow> string \<Rightarrow> string \<Rightarrow> (int option \<times> int option) \<Rightarrow> string \<Rightarrow> counters \<Rightarrow> verdict \<times> counters" where
  "check_rate_limit e tid route opts plan c =
     (if tid = [] \<or> plan = ''loadtest'' then (Allowed, c)
      else let limit = (case fst opts of None \<Rightarrow> DEFAULT_LIMIT | Some n \<Rightarrow> n);
               win = (case snd opts of None \<Rightarrow> DEFAULT_WINDOW_SEC | Some n \<Rightarrow> n);
               k = ''t:'' @ tid @ '':rl:'' @ map route_char route @ '':'' @ show_slice (window_slice (rl_now e) win) in
        if \<not> rl_up e then (Allowed, c)
        else let ((n, ttl), c') = rate_limit_lua (rl_clock e) k win c in
          (if limit < n then Limited (retry_after ttl win) else Allowed, c'))"

text \<open>
  \<open>TenantRateLimitGuard\<close>. \<open>bearer\<close> is what the verifier made of an access token in the header:
  none without one, \<open>Some None\<close> for one it refused, \<open>Some (Some t)\<close> with the shop a tenant token
  names.
\<close>

record rl_request =
  rr_url :: string
  rr_skipped :: bool
  rr_user_tenant :: "string option"
  rr_bearer :: "string option option option"
  rr_method :: string
  rr_route :: string
  rr_opts :: "int option \<times> int option"

definition rate_limited :: "int \<Rightarrow> err" where
  "rate_limited n = HttpErr 429 ''RATE_LIMITED'' (RetryAfter n)"

definition quota_tenant :: "rl_request \<Rightarrow> string option" where
  "quota_tenant r =
     (case rr_user_tenant r of Some t \<Rightarrow> Some t
      | None \<Rightarrow> (case rr_bearer r of Some (Some (Some t)) \<Rightarrow> Some t | _ \<Rightarrow> None))"

definition rate_limit_guard :: "rl_env \<Rightarrow> (string \<Rightarrow> string) \<Rightarrow> rl_request \<Rightarrow> counters \<Rightarrow> (err + unit) \<times> counters" where
  "rate_limit_guard e plan_of r c =
     (if take 7 (rr_url r) = ''/health'' \<or> rr_skipped r then (Inr (), c)
      else case quota_tenant r of
        None \<Rightarrow> (Inr (), c)
      | Some t \<Rightarrow>
          (let (v, c') = check_rate_limit e t (rr_method r @ '':'' @ rr_route r) (rr_opts r) (plan_of t) c in
           (case v of Allowed \<Rightarrow> Inr () | Limited n \<Rightarrow> Inl (rate_limited n), c')))"

section \<open>How many attempts get through\<close>

datatype attempt = Try | Give_Back

text \<open>Attempts on one key and refunds of it, with what each of them met; the verdicts of the attempts.\<close>

fun run_attempts :: "(string \<Rightarrow> string) \<Rightarrow> string \<Rightarrow> int \<Rightarrow> int \<Rightarrow> (rl_env \<times> attempt) list \<Rightarrow> counters \<Rightarrow> verdict list \<times> counters" where
  "run_attempts sha key limit win [] c = ([], c)"
| "run_attempts sha key limit win ((e, Try) # rest) c =
     (let (v, c1) = consume_attempt sha e key limit win c; (vs, c2) = run_attempts sha key limit win rest c1 in (v # vs, c2))"
| "run_attempts sha key limit win ((e, Give_Back) # rest) c =
     run_attempts sha key limit win rest (refund_attempt sha e key win c)"

text \<open>One window: Redis answers, its clock agrees with the server's, and all calls are in the window \<open>w\<close>.\<close>

definition in_window :: "int \<Rightarrow> int \<Rightarrow> rl_env \<Rightarrow> bool" where
  "in_window win w e \<longleftrightarrow> rl_up e \<and> rl_clock e = rl_now e \<and> window_slice (rl_now e) win = w"

lemma in_window_bounds:
  assumes "in_window win w e" "0 < win"
  shows "w * win * 1000 \<le> rl_clock e" "rl_clock e < (w + 1) * win * 1000"
proof -
  let ?s = "rl_clock e div 1000"
  have w: "?s div win = w" using assms(1) by (simp add: in_window_def window_slice_def)
  have "?s = w * win + ?s mod win" using w div_mult_mod_eq [of ?s win] by simp
  then have "w * win \<le> ?s" "?s < (w + 1) * win"
    using pos_mod_bound [OF assms(2), of ?s] pos_mod_sign [OF assms(2), of ?s] by (simp_all only: distrib_right mult_1_left)
  then show "w * win * 1000 \<le> rl_clock e" "rl_clock e < (w + 1) * win * 1000" by linarith+
qed

definition count_of :: "counters \<Rightarrow> string \<Rightarrow> int" where
  "count_of c k = (case c k of None \<Rightarrow> 0 | Some (n, _) \<Rightarrow> n)"

text \<open>What the window's counter looks like while the window lasts.\<close>

definition counting :: "int \<Rightarrow> int \<Rightarrow> counters \<Rightarrow> string \<Rightarrow> bool" where
  "counting win w c k \<longleftrightarrow> (case c k of None \<Rightarrow> True | Some (n, x) \<Rightarrow> (w + 1) * win * 1000 \<le> x)"

lemma consume_counts:
  assumes "in_window win w e" "0 < win" "counting win w c k" "k = window_key sha e key win"
    and "consume_attempt sha e key limit win c = (v, c')"
  shows "counting win w c' k" "count_of c' k = count_of c k + 1" "v = Allowed \<longleftrightarrow> count_of c k + 1 \<le> limit"
proof -
  note b = in_window_bounds [OF assms(1,2)]
  have up: "rl_up e" using assms(1) by (simp add: in_window_def)
  have l: "live c (rl_clock e) k = c k" using assms(3) b by (auto simp: live_def counting_def split: option.split)
  show "counting win w c' k" "count_of c' k = count_of c k + 1" "v = Allowed \<longleftrightarrow> count_of c k + 1 \<le> limit"
    using assms(3,4,5) up l b
    by (auto simp: consume_attempt_def rate_limit_lua_def counting_def count_of_def Let_def algebra_simps
        split: option.splits if_splits prod.splits)
qed

lemma refund_counts:
  assumes "in_window win w e" "0 < win" "counting win w c k" "k = window_key sha e key win"
  shows "counting win w (refund_attempt sha e key win c) k" "count_of c k - 1 \<le> count_of (refund_attempt sha e key win c) k"
    "count_of (refund_attempt sha e key win c) k \<le> count_of c k"
proof -
  note b = in_window_bounds [OF assms(1,2)]
  have up: "rl_up e" using assms(1) by (simp add: in_window_def)
  have l: "live c (rl_clock e) k = c k" using assms(3) b by (auto simp: live_def counting_def split: option.split)
  show "counting win w (refund_attempt sha e key win c) k" "count_of c k - 1 \<le> count_of (refund_attempt sha e key win c) k"
    "count_of (refund_attempt sha e key win c) k \<le> count_of c k"
    using assms(3,4) up l by (auto simp: refund_attempt_def refund_lua_def counting_def count_of_def split: option.split)
qed

lemma attempts_within:
  assumes "0 < win" "\<forall>(e, x) \<in> set evs. in_window win w e" "counting win w c k"
    and "\<forall>(e, x) \<in> set evs. k = window_key sha e key win" "run_attempts sha key limit win evs c = (vs, c')"
  shows "int (length (filter (\<lambda>v. v = Allowed) vs)) \<le> max 0 (limit - count_of c k) + int (length (filter (\<lambda>(_, x). x = Give_Back) evs))"
  using assms
proof (induction sha key limit win evs c arbitrary: vs c' rule: run_attempts.induct)
  case (2 sha key limit win e rest c)
  obtain v c1 where one: "consume_attempt sha e key limit win c = (v, c1)" by (metis prod.exhaust)
  obtain us c2 where rest: "run_attempts sha key limit win rest c1 = (us, c2)" by (metis prod.exhaust)
  have w: "in_window win w e" "k = window_key sha e key win" using "2.prems" by auto
  note n = consume_counts [OF w(1) "2.prems"(1,3) w(2) one]
  from "2.IH" [OF refl _ "2.prems"(1) _ n(1) _ rest] one "2.prems" n(2,3) rest show ?case
    by (auto split: if_splits)
next
  case (3 sha key limit win e rest c)
  have w: "in_window win w e" "k = window_key sha e key win" using "3.prems" by auto
  note n = refund_counts [OF w(1) "3.prems"(1,3) w(2)]
  from "3.IH" [OF "3.prems"(1) _ n(1)] "3.prems" n(2) show ?case by fastforce
qed simp


text \<open>
  C15. Guessing is bounded. While Redis answers, and its clock agrees with the server's, the attempts on one key that get
  through in one window number at most the limit plus the attempts given back by callers who
  succeeded, whatever the order in which concurrent attempts and refunds arrive.
\<close>

theorem attempts_bounded:
  assumes "0 < win" "0 \<le> limit" "\<forall>(e, x) \<in> set evs. in_window win w e"
    and "\<forall>(e, x) \<in> set evs. c (window_key sha e key win) = None"
  shows "int (length (filter (\<lambda>v. v = Allowed) (fst (run_attempts sha key limit win evs c)))) \<le>
    limit + int (length (filter (\<lambda>(_, x). x = Give_Back) evs))"
proof (cases evs)
  case (Cons ev rest)
  obtain e x where ev: "ev = (e, x)" by (cases ev)
  let ?k = "window_key sha e key win"
  have same: "\<forall>(e', x) \<in> set evs. ?k = window_key sha e' key win"
    using assms(3) Cons ev by (auto simp: in_window_def window_key_def)
  have none: "c ?k = None" using assms(4) Cons ev by auto
  obtain vs c' where run: "run_attempts sha key limit win evs c = (vs, c')" by (metis prod.exhaust)
  from attempts_within [OF assms(1,3) _ same run] none assms(2) run show ?thesis
    by (simp add: counting_def count_of_def)
qed (use assms(2) in simp)

text \<open>Twelve guesses within one minute against ten allowed ones, one of them given back.\<close>

theorem attempts_bounded_witness:
  "length (filter (\<lambda>v. v = Allowed) (fst (run_attempts (\<lambda>t. t) ''k'' 10 60
     (replicate 12 (\<lparr>rl_now = 1000, rl_clock = 1000, rl_up = True\<rparr>, Try) @ [(\<lparr>rl_now = 1000, rl_clock = 1000, rl_up = True\<rparr>, Give_Back)])
     Map.empty))) \<le> 11"
  using attempts_bounded [of 60 10 "replicate 12 (\<lparr>rl_now = 1000, rl_clock = 1000, rl_up = True\<rparr>, Try) @
      [(\<lparr>rl_now = 1000, rl_clock = 1000, rl_up = True\<rparr>, Give_Back)]" 0 Map.empty "\<lambda>t. t" "''k''"]
  by (simp add: in_window_def window_slice_def)

end
