(* ===== verification/Auth.thy ===== *)
theory Auth
  imports Rate_Limit Passwords
begin

text \<open>
  Signing in (\<open>auth/auth.service.ts\<close>, \<open>auth/refresh-rotation.ts\<close>, \<open>auth/jwt-keys.service.ts\<close>, the guards of
  \<open>common/guards\<close>): login, the refresh of a session with rotation and reuse detection, the change of a
  temporary password, the enrolment of a device, and who a request acts as. Here several shops live side by
  side, each a database of \<open>Schema\<close> under its tenant id. A token is its claims: the signature (RS256) is checked
  by a library and cannot be forged. A refusal of a refresh commits its audit row, so that these
  transactions answer with a sum. Messages are kept as the detail of a 401 or 403, since what a guesser is told
  matters here.
\<close>

type_synonym shops = "(uuid \<times> db) list"

section \<open>Tokens\<close>

datatype jwt_typ = Access | Refresh | Pwchange
datatype jwt_aud = Aud_Tenant | Aud_Platform

record jwt =
  jw_aud :: jwt_aud
  jw_sub :: uuid
  jw_iat :: int
  jw_exp :: int
  jw_jti :: uuid
  jw_typ :: jwt_typ
  jw_tid :: "uuid option"
  jw_role :: "string option"
  jw_did :: "uuid option"
  jw_drole :: "device_role option"
  jw_fid :: "uuid option"

definition unauthorized :: "string \<Rightarrow> err" where
  "unauthorized msg = HttpErr 401 ''UNAUTHORIZED'' (Reason msg)"

definition tenant_suspended :: err where "tenant_suspended = HttpErr 403 ''TENANT_SUSPENDED'' NoDetail"

text \<open>
  \<open>JwtVerifier\<close>: the keys by their ids, the first of the list under \<open>jwtKeyId\<close> as well; \<open>kid_of\<close> is the
  key id of a token that decodes, \<open>checked\<close> what \<open>jwt.verify\<close> makes of it under a key (signature,
  algorithm, times), \<open>iss\<close> its issuer.
\<close>

definition public_keys :: "string list \<Rightarrow> string option \<Rightarrow> (string \<times> string) list" where
  "public_keys pems kid =
     (let ks = map (\<lambda>i. (''key-'' @ show_nat (i + 1), pems ! i)) [0..<length pems] in
      case kid of
        None \<Rightarrow> ks
      | Some k \<Rightarrow> if k = [] \<or> map_of ks k \<noteq> None then ks else case pems of [] \<Rightarrow> ks | p # _ \<Rightarrow> ks @ [(k, p)])"

definition verify_token ::
  "(string \<times> string) list \<Rightarrow> ('t \<Rightarrow> string option) \<Rightarrow> (string \<Rightarrow> 't \<Rightarrow> (string \<times> jwt) option) \<Rightarrow> 't \<Rightarrow> jwt_typ \<Rightarrow> err + jwt" where
  "verify_token keys kid_of checked t typ =
     (case kid_of t of
        None \<Rightarrow> Inl (unauthorized ''Invalid token structure or missing kid'')
      | Some k \<Rightarrow> if k = [] then Inl (unauthorized ''Invalid token structure or missing kid'') else
          (case map_of keys k of
             None \<Rightarrow> Inl (unauthorized (''Unknown key id: '' @ k))
           | Some key \<Rightarrow>
               (case checked key t of
                  None \<Rightarrow> Inl (unauthorized ''Token verification failed'')
                | Some (iss, j) \<Rightarrow>
                    if iss \<noteq> ''srisurart-pos'' then Inl (unauthorized ''Invalid token issuer'')
                    else if jw_typ j \<noteq> typ then Inl (unauthorized ''Expected token of another type'') else Inr j)))"

section \<open>What a call meets\<close>

text \<open>
  Clocks (milliseconds), the hashing of \<open>Passwords\<close>, SHA-256, \<open>toUpperCase\<close>, the n-th \<open>randomUUID()\<close> of the call, the
  expiry of a refresh token in a time zone, what each use of Redis meets, and whether the audit row of an event
  outside a transaction can be written.
\<close>

record auth_env =
  ae_now :: int
  ae_pg_now :: int
  ae_hashing :: hashing
  ae_unicode :: unicode
  ae_sha :: "string \<Rightarrow> string"
  ae_upper :: "string \<Rightarrow> string"
  ae_uuid :: "nat \<Rightarrow> uuid"
  ae_expiry :: "string \<Rightarrow> int"
  ae_rl :: "nat \<Rightarrow> rl_env"
  ae_audit_ok :: bool

definition iat_of :: "auth_env \<Rightarrow> int" where
  "iat_of e = ae_now e div 1000"

definition put_shop :: "uuid \<Rightarrow> db \<Rightarrow> shops \<Rightarrow> shops" where
  "put_shop t s ws = map (\<lambda>(k, s0). if k = t then (k, s) else (k, s0)) ws"

definition auth_event :: "uuid option \<Rightarrow> uuid option \<Rightarrow> string \<Rightarrow> (string \<times> jsval) list option \<Rightarrow> (string \<times> jsval) list option \<Rightarrow> audit_row" where
  "auth_event user dev action before after = \<lparr>au_user = user, au_device = dev, au_action = action, au_entity = [],
     au_entity_id = [], au_before = map_option JObj before, au_after = map_option JObj after\<rparr>"

text \<open>\<open>logAuthEvent\<close>: in a transaction of its own, and only logged when it fails.\<close>

definition log_auth_event :: "auth_env \<Rightarrow> uuid \<Rightarrow> audit_row \<Rightarrow> shops \<Rightarrow> shops" where
  "log_auth_event e t row ws =
     (if \<not> ae_audit_ok e then ws
      else case map_of ws t of None \<Rightarrow> ws | Some s \<Rightarrow> put_shop t (s\<lparr>audit_log := audit_log s @ [row]\<rparr>) ws)"

section \<open>Lookups across shops\<close>

definition auth_lookup_device_by_token :: "string \<Rightarrow> shops \<Rightarrow> (uuid \<times> device) list" where
  "auth_lookup_device_by_token h ws =
     concat (map (\<lambda>(t, s). map (Pair t) (filter (\<lambda>d. d_token_hash d = Some h) (devices s))) ws)"

definition auth_lookup_user_for_login :: "string \<Rightarrow> uuid option \<Rightarrow> shops \<Rightarrow> (uuid \<times> db \<times> shop_user) list" where
  "auth_lookup_user_for_login name t ws =
     concat (map (\<lambda>(k, s). map (\<lambda>u. (k, s, u)) (filter (\<lambda>u. us_username u = name) (users s)))
       (filter (\<lambda>(k, s). t = None \<or> t = Some k) ws))"

section \<open>Login\<close>

record login_dto =
  lg_username :: string
  lg_password :: jsval
  lg_device_token :: "string option"

record user_view =
  uv_id :: uuid
  uv_username :: string
  uv_role :: string
  uv_display_name :: string

datatype login_answer =
    Session jwt jwt user_view "int option"
  | Must_Change jwt user_view

definition view_of :: "shop_user \<Rightarrow> user_view" where
  "view_of u = \<lparr>uv_id = us_id u, uv_username = us_username u, uv_role = us_role u, uv_display_name = us_display_name u\<rparr>"

text \<open>Verified in its normal form and, where that differs, as it was typed.\<close>

definition password_matches :: "auth_env \<Rightarrow> shop_user \<Rightarrow> string \<Rightarrow> bool" where
  "password_matches e u raw =
     (let p = un_nfc (ae_unicode e) raw; argon = ha_argon (ae_hashing e) (us_password_hash u) in
      case argon p of
        None \<Rightarrow> False
      | Some True \<Rightarrow> True
      | Some False \<Rightarrow> p \<noteq> raw \<and> argon raw = Some True)"

text \<open>The account checks behind a correct password: the reason the audit row gives, and the answer.\<close>

definition account_refusal :: "auth_env \<Rightarrow> db \<Rightarrow> shop_user \<Rightarrow> (string \<times> err) option" where
  "account_refusal e s u =
     (if tenant_status s \<noteq> ''active'' then Some (''tenant_inactive'', tenant_suspended)
      else if \<not> us_is_active u then Some (''user_inactive'', unauthorized ''User is inactive'')
      else if us_must_change_password u \<and>
        (case us_temp_password_expires_at u of None \<Rightarrow> 0 | Some t \<Rightarrow> t) \<le> ae_now e
      then Some (''temp_password_expired'', HttpErr 401 ''TEMP_PASSWORD_EXPIRED'' NoDetail)
      else None)"

definition token_for :: "jwt_typ \<Rightarrow> int \<Rightarrow> int \<Rightarrow> uuid \<Rightarrow> uuid \<Rightarrow> uuid \<Rightarrow> string \<Rightarrow> uuid option \<Rightarrow> device_role option \<Rightarrow> jwt" where
  "token_for typ iat expiry jti user t role did drole = \<lparr>jw_aud = Aud_Tenant, jw_sub = user, jw_iat = iat, jw_exp = expiry,
     jw_jti = jti, jw_typ = typ, jw_tid = Some t, jw_role = Some role, jw_did = did, jw_drole = drole, jw_fid = None\<rparr>"

definition zone_of :: "db \<Rightarrow> string" where
  "zone_of s = (case tenant_tz s of None \<Rightarrow> ''Asia/Bangkok'' | Some z \<Rightarrow> if z = [] then ''Asia/Bangkok'' else z)"

definition invalid_credentials :: err where "invalid_credentials = unauthorized ''Invalid credentials''"

definition event_failed :: "uuid \<Rightarrow> uuid option \<Rightarrow> string \<Rightarrow> audit_row" where
  "event_failed user did reason = auth_event (Some user) did ''auth.login_failed'' (Some [(''reason'', JStr reason)]) None"

text \<open>The device the token in the body names.\<close>

definition device_of_login :: "auth_env \<Rightarrow> string option \<Rightarrow> shops \<Rightarrow> err + (uuid \<times> device) option" where
  "device_of_login e tok ws =
     (case tok of
        None \<Rightarrow> Inr None
      | Some tk \<Rightarrow> if tk = [] then Inr None else
          (case auth_lookup_device_by_token (ae_sha e tk) ws of
             [(t, d)] \<Rightarrow> if d_retired d then Inl (HttpErr 401 ''DEVICE_RETIRED'' NoDetail) else Inr (Some (t, d))
           | _ \<Rightarrow> Inl (HttpErr 401 ''DEVICE_TOKEN_INVALID'' NoDetail)))"

definition user_key :: "(uuid \<times> device) option \<Rightarrow> string \<Rightarrow> string" where
  "user_key dev name = ''auth:user:'' @ (case dev of None \<Rightarrow> ''-'' | Some (t, _) \<Rightarrow> t) @ '':'' @ name"

text \<open>From the user's row on; the counters are the ones after the two attempts were counted.\<close>

definition login_user ::
  "auth_env \<Rightarrow> login_dto \<Rightarrow> string \<Rightarrow> string option \<Rightarrow> (uuid \<times> device) option \<Rightarrow> counters \<times> shops \<Rightarrow> (err + login_answer) \<times> counters \<times> shops" where
  "login_user e dto raw ip dev = (\<lambda>(c, ws).
     let did = map_option (\<lambda>(_, d). d_id d) dev; drole = map_option (\<lambda>(_, d). d_role d) dev in
     case auth_lookup_user_for_login (lg_username dto) (map_option fst dev) ws of
       [(t, s, u)] \<Rightarrow>
         if \<not> password_matches e u raw
         then (Inl invalid_credentials, c, log_auth_event e t (event_failed (us_id u) did ''invalid_password'') ws)
         else (case account_refusal e s u of
           Some (reason, f) \<Rightarrow> (Inl f, c, log_auth_event e t (event_failed (us_id u) did reason) ws)
         | None \<Rightarrow>
             let c1 = (if lg_username dto = [] then c else clear_key (ae_sha e) (ae_rl e 2) (user_key dev (lg_username dto)) 60 c);
                 c2 = (case ip of None \<Rightarrow> c1 | Some a \<Rightarrow> refund_attempt (ae_sha e) (ae_rl e 3) (''auth:ip:'' @ a) 60 c1);
                 tok = (\<lambda>typ expiry jti. token_for typ (iat_of e) expiry jti (us_id u) t (us_role u) did drole) in
             if us_must_change_password u
             then (Inr (Must_Change (tok Pwchange (iat_of e + 600) (ae_uuid e 0)) (view_of u)), c2,
               log_auth_event e t (auth_event (Some (us_id u)) did ''auth.login'' None (Some [(''passwordChangeRequired'', JBool True)])) ws)
             else (Inr (Session (tok Access (iat_of e + 900) (ae_uuid e 0)) (tok Refresh (ae_expiry e (zone_of s)) (ae_uuid e 1))
                 (view_of u) (us_password_changed_at u)), c2,
               log_auth_event e t (auth_event (Some (us_id u)) did ''auth.login'' None None) ws))
     | _ \<Rightarrow> (Inl invalid_credentials, c, ws))"

definition login :: "auth_env \<Rightarrow> login_dto \<Rightarrow> string option \<Rightarrow> counters \<times> shops \<Rightarrow> (err + login_answer) \<times> counters \<times> shops" where
  "login e dto ip = (\<lambda>(c, ws).
     case lg_password dto of
       JStr raw \<Rightarrow>
         if raw = [] then (Inl (unauthorized ''Password is required''), c, ws)
         else
           (let (v, c1) = (case ip of None \<Rightarrow> (Allowed, c)
                | Some a \<Rightarrow> consume_attempt (ae_sha e) (ae_rl e 0) (''auth:ip:'' @ a) 10 60 c) in
            case v of
              Limited n \<Rightarrow> (Inl (rate_limited n), c1, ws)
            | Allowed \<Rightarrow>
                (case device_of_login e (lg_device_token dto) ws of
                   Inl f \<Rightarrow> (Inl f, c1, ws)
                 | Inr dev \<Rightarrow>
                     (let (v2, c2) = (if lg_username dto = [] then (Allowed, c1)
                          else consume_attempt (ae_sha e) (ae_rl e 1) (user_key dev (lg_username dto)) 5 60 c1) in
                      case v2 of
                        Limited n \<Rightarrow> (Inl (rate_limited n), c2, ws)
                      | Allowed \<Rightarrow> login_user e dto raw ip dev (c2, ws))))
     | _ \<Rightarrow> (Inl (unauthorized ''Password is required''), c, ws))"

section \<open>The refresh of a session\<close>

definition REFRESH_GRACE_MAX_SEC :: int where "REFRESH_GRACE_MAX_SEC = 24 * 3600"

datatype refresh_verdict = Rotate | Grace uuid | Reused_Token | Revoked | Unknown_Chain

definition judge_refresh :: "int \<Rightarrow> refresh_family option \<Rightarrow> uuid \<Rightarrow> refresh_verdict" where
  "judge_refresh t family jti =
     (case family of
        None \<Rightarrow> Unknown_Chain
      | Some r \<Rightarrow>
          if fm_revoked_at r \<noteq> None then Revoked
          else if jti = fm_current_jti r then Rotate
          else if fm_previous_jti r = Some jti \<and> \<not> fm_grace_used r \<and> t - fm_rotated_at r < REFRESH_GRACE_MAX_SEC * 1000
          then Grace (fm_current_jti r)
          else Reused_Token)"

definition refresh_rejected :: "jwt \<Rightarrow> string \<Rightarrow> err \<Rightarrow> (err + 'a) op" where
  "refresh_rejected j reason f =
     tx_bind (insert_audit (auth_event (Some (jw_sub j)) (jw_did j) ''auth.refresh_rejected'' (Some [(''reason'', JStr reason)]) None)) (\<lambda>_.
     tx_ret (Inl f))"

definition family_id :: "jwt \<Rightarrow> uuid" where
  "family_id j = (case jw_fid j of None \<Rightarrow> jw_jti j | Some f \<Rightarrow> f)"

definition new_family :: "auth_env \<Rightarrow> jwt \<Rightarrow> uuid \<Rightarrow> refresh_family" where
  "new_family e j next_jti = \<lparr>fm_id = jw_jti j, fm_user_id = jw_sub j, fm_device_id = jw_did j, fm_current_jti = next_jti,
     fm_previous_jti = Some (jw_jti j), fm_rotated_at = ae_pg_now e, fm_grace_used = False, fm_revoked_at = None,
     fm_expires_at = jw_exp j * 1000\<rparr>"

definition pruned :: "auth_env \<Rightarrow> refresh_family list \<Rightarrow> refresh_family list" where
  "pruned e = filter (\<lambda>r. \<not> fm_expires_at r < ae_pg_now e - DAY_LENGTH_MS)"

definition rotated :: "auth_env \<Rightarrow> uuid \<Rightarrow> refresh_family \<Rightarrow> refresh_family" where
  "rotated e next_jti r = r\<lparr>fm_previous_jti := Some (fm_current_jti r), fm_current_jti := next_jti,
     fm_rotated_at := ae_pg_now e, fm_grace_used := False\<rparr>"

definition upd_family :: "uuid \<Rightarrow> (refresh_family \<Rightarrow> refresh_family) \<Rightarrow> unit op" where
  "upd_family i f = tx_modify (\<lambda>s. s\<lparr>families := upd_where (\<lambda>r. fm_id r = i) f (families s)\<rparr>)"

definition no_longer_valid :: err where "no_longer_valid = unauthorized ''Refresh token is no longer valid''"

definition judge_and_apply :: "auth_env \<Rightarrow> jwt \<Rightarrow> uuid \<Rightarrow> (err + uuid) op" where
  "judge_and_apply e j next_jti =
     tx_bind (tx_get (\<lambda>s. row_of fm_id (family_id j) (families s))) (\<lambda>row.
     case judge_refresh (ae_pg_now e) row (jw_jti j) of
       Rotate \<Rightarrow> tx_bind (upd_family (family_id j) (rotated e next_jti)) (\<lambda>_. tx_ret (Inr next_jti))
     | Grace jti \<Rightarrow> tx_bind (upd_family (family_id j) (\<lambda>r. r\<lparr>fm_grace_used := True\<rparr>)) (\<lambda>_. tx_ret (Inr jti))
     | Reused_Token \<Rightarrow>
         tx_bind (upd_family (family_id j) (\<lambda>r. r\<lparr>fm_revoked_at := Some (ae_pg_now e)\<rparr>)) (\<lambda>_.
         refresh_rejected j ''refresh_reused'' (unauthorized ''Refresh token has already been used''))
     | Revoked \<Rightarrow> refresh_rejected j ''refresh_revoked'' no_longer_valid
     | Unknown_Chain \<Rightarrow> refresh_rejected j ''refresh_unknown_chain'' no_longer_valid)"

definition rotate_refresh_chain :: "auth_env \<Rightarrow> jwt \<Rightarrow> (err + uuid) op" where
  "rotate_refresh_chain e j =
     (if \<not> is_uuid_text (jw_jti j) \<or> \<not> is_uuid_text (family_id j)
      then refresh_rejected j ''refresh_unknown_chain'' no_longer_valid
      else
        tx_bind (tx_get (\<lambda>s. jw_fid j = None \<and> \<not> has_key fm_id (family_id j) (families s))) (\<lambda>first.
        if first
        then tx_bind (tx_modify (\<lambda>s. s\<lparr>families := pruned e (families s @ [new_family e j (ae_uuid e 0)])\<rparr>)) (\<lambda>_.
          tx_ret (Inr (ae_uuid e 0)))
        else judge_and_apply e j (ae_uuid e 0)))"

text \<open>The transaction of \<open>POST /auth/refresh\<close>.\<close>

definition refresh_in :: "auth_env \<Rightarrow> jwt \<Rightarrow> (err + uuid) op" where
  "refresh_in e j =
     tx_bind (tx_get id) (\<lambda>s.
     case row_of us_id (jw_sub j) (users s) of
       None \<Rightarrow> tx_throw (unauthorized ''User not found'')
     | Some u \<Rightarrow>
         if tenant_status s \<noteq> ''active'' then refresh_rejected j ''tenant_inactive'' tenant_suspended
         else if \<not> us_is_active u then refresh_rejected j ''user_inactive'' (unauthorized ''User is inactive'')
         else if (case us_password_changed_at u of None \<Rightarrow> False | Some t \<Rightarrow> jw_iat j < t div 1000)
         then refresh_rejected j ''password_changed'' (unauthorized ''Password has been changed'')
         else if (case jw_did j of None \<Rightarrow> False | Some i \<Rightarrow> i \<noteq> [] \<and>
            (case row_of d_id i (devices s) of None \<Rightarrow> True | Some d \<Rightarrow> d_retired d))
         then refresh_rejected j ''device_retired'' (unauthorized ''Device is retired'')
         else rotate_refresh_chain e j)"

definition refresh_tokens :: "auth_env \<Rightarrow> jwt \<Rightarrow> uuid \<Rightarrow> jwt \<times> jwt" where
  "refresh_tokens e j next_jti =
     (j\<lparr>jw_typ := Access, jw_jti := ae_uuid e 1, jw_iat := iat_of e, jw_exp := iat_of e + 900, jw_fid := None\<rparr>,
      j\<lparr>jw_typ := Refresh, jw_jti := next_jti, jw_iat := iat_of e, jw_fid := Some (family_id j)\<rparr>)"

definition refresh_token_payload :: "auth_env \<Rightarrow> jwt \<Rightarrow> shops \<Rightarrow> (err + jwt \<times> jwt) \<times> shops" where
  "refresh_token_payload e j ws =
     (if jw_typ j \<noteq> Refresh then (Inl (unauthorized ''Invalid token type''), ws)
      else if jw_aud j \<noteq> Aud_Tenant then (Inl (unauthorized ''Invalid token audience''), ws)
      else case jw_tid j of
        None \<Rightarrow> (Inl (unauthorized ''Token missing tenant id''), ws)
      | Some t \<Rightarrow>
          (case map_of ws t of
             None \<Rightarrow> (Inl (unauthorized ''User not found''), ws)
           | Some s \<Rightarrow>
               (case refresh_in e j s of
                  Inl f \<Rightarrow> (Inl f, ws)
                | Inr (Inl f, s') \<Rightarrow> (Inl f, put_shop t s' ws)
                | Inr (Inr next_jti, s') \<Rightarrow> (Inr (refresh_tokens e j next_jti), put_shop t s' ws))))"

end
