(* ===== verification/Auth_Account.thy ===== *)
theory Auth_Account
  imports Auth
begin

text \<open>
  The rest of \<open>auth/auth.service.ts\<close> and the guards: an owner replaces a temporary password, a browser is
  enrolled as a device, the expiry of a session, and who a request acts as.
\<close>

section \<open>A password of the owner's own\<close>

definition weak_password :: "violation \<Rightarrow> err" where
  "weak_password w = HttpErr 400 ''WEAK_PASSWORD'' (Reason (violation_text w))"

definition change_token_dead :: err where
  "change_token_dead = unauthorized ''Password change token is no longer valid''"

text \<open>Up to the new hash: the row that was read, and the hash to be stored.\<close>

definition begin_change :: "auth_env \<Rightarrow> jwt \<Rightarrow> jsval \<Rightarrow> db option \<Rightarrow> err + shop_user \<times> string" where
  "begin_change e j v shop =
     (case chosen_password_violation (ae_unicode e) v of
        Some w \<Rightarrow> Inl (weak_password w)
      | None \<Rightarrow>
          let p = un_nfc (ae_unicode e) (case v of JStr t \<Rightarrow> t | _ \<Rightarrow> []) in
          if jw_aud j \<noteq> Aud_Tenant \<or> jw_tid j = None then Inl (unauthorized ''Invalid token audience'')
          else case shop of
            None \<Rightarrow> Inl change_token_dead
          | Some s \<Rightarrow>
              (case row_of us_id (jw_sub j) (users s) of
                 None \<Rightarrow> Inl change_token_dead
               | Some u \<Rightarrow>
                   if \<not> us_must_change_password u \<or> (case us_password_changed_at u of None \<Rightarrow> False | Some t \<Rightarrow> jw_iat j < t div 1000)
                   then Inl change_token_dead
                   else if tenant_status s \<noteq> ''active'' then Inl tenant_suspended
                   else if \<not> us_is_active u then Inl (unauthorized ''User is inactive'')
                   else if verify_password (ae_hashing e) p (us_password_hash u) then Inl (weak_password Same_As_Temp)
                   else Inr (u, ha_hash (ae_hashing e) p)))"

text \<open>The \<open>UPDATE\<close> that succeeds only while the hash that was compared against is still the temporary one.\<close>

definition still_temporary :: "auth_env \<Rightarrow> uuid \<Rightarrow> string \<Rightarrow> shop_user \<Rightarrow> bool" where
  "still_temporary e i old u \<longleftrightarrow> us_id u = i \<and> us_must_change_password u \<and> us_password_hash u = old \<and>
     (case us_temp_password_expires_at u of None \<Rightarrow> False | Some t \<Rightarrow> ae_pg_now e < t)"

definition own_password :: "auth_env \<Rightarrow> string \<Rightarrow> shop_user \<Rightarrow> shop_user" where
  "own_password e h u = u\<lparr>us_password_hash := h, us_must_change_password := False, us_temp_password_expires_at := None,
     us_password_changed_at := Some (ae_pg_now e)\<rparr>"

definition commit_change :: "auth_env \<Rightarrow> jwt \<Rightarrow> string \<Rightarrow> string \<Rightarrow> unit op" where
  "commit_change e j old new_hash =
     tx_bind (tx_get (\<lambda>s. list_ex (still_temporary e (jw_sub j) old) (users s))) (\<lambda>updated.
     tx_bind (tx_guard updated change_token_dead) (\<lambda>_.
     tx_bind (tx_modify (\<lambda>s. s\<lparr>users := upd_where (still_temporary e (jw_sub j) old) (own_password e new_hash) (users s)\<rparr>)) (\<lambda>_.
     insert_audit (auth_event (Some (jw_sub j)) (jw_did j) ''auth.password_changed'' None None))))"

text \<open>\<open>meanwhile\<close> is what other requests commit between the read and the update.\<close>

definition change_password :: "auth_env \<Rightarrow> jwt \<Rightarrow> jsval \<Rightarrow> (shops \<Rightarrow> shops) \<Rightarrow> shops \<Rightarrow> (err + jwt \<times> jwt \<times> user_view) \<times> shops" where
  "change_password e j v meanwhile ws =
     (let shop = (case jw_tid j of None \<Rightarrow> None | Some t \<Rightarrow> map_of ws t) in
      case begin_change e j v shop of
        Inl f \<Rightarrow> (Inl f, ws)
      | Inr (u, h) \<Rightarrow>
          let ws1 = meanwhile ws; t = the (jw_tid j); zone = (case shop of None \<Rightarrow> ''Asia/Bangkok'' | Some s \<Rightarrow> zone_of s);
              tok = (\<lambda>typ expiry jti. (token_for typ (iat_of e) expiry jti (jw_sub j) t [] (jw_did j) (jw_drole j))\<lparr>jw_role := jw_role j\<rparr>) in
          (case map_of ws1 t of
             None \<Rightarrow> (Inl change_token_dead, ws1)
           | Some s1 \<Rightarrow>
               (case commit_change e j (us_password_hash u) h s1 of
                  Inl f \<Rightarrow> (Inl f, ws1)
                | Inr (_, s2) \<Rightarrow> (Inr (tok Access (iat_of e + 900) (ae_uuid e 0), tok Refresh (ae_expiry e zone) (ae_uuid e 1), view_of u),
                    put_shop t s2 ws1))))"

section \<open>The expiry of a session\<close>

text \<open>The face of a clock in a zone: the local date and hour, and the offset printed as \<open>GMT+hh:mm\<close> (none for \<open>GMT\<close>).\<close>

record clock_face =
  cf_year :: int
  cf_month :: int
  cf_day :: int
  cf_hour :: int

definition days_from_civil :: "int \<Rightarrow> int \<Rightarrow> int \<Rightarrow> int" where
  "days_from_civil y m d =
     (let y1 = (if m \<le> 2 then y - 1 else y); era = y1 div 400; yoe = y1 mod 400;
          doy = (153 * (if 2 < m then m - 3 else m + 9) + 2) div 5 + d - 1;
          doe = yoe * 365 + yoe div 4 - yoe div 100 + doy in
      era * 146097 + doe - 719468)"

definition offset_minutes :: "(int \<times> int) option \<Rightarrow> int" where
  "offset_minutes o1 = (case o1 of None \<Rightarrow> 0 | Some (h, m) \<Rightarrow> h * 60 + (if h < 0 then - m else m))"

definition four_o_clock :: "clock_face \<Rightarrow> int" where
  "four_o_clock f =
     (days_from_civil (cf_year f) (cf_month f) (cf_day f) + (if 3 \<le> cf_hour f then 1 else 0)) * DAY_LENGTH_MS + 4 * 3600000"

definition calculate_refresh_expiry :: "clock_face \<Rightarrow> (int \<Rightarrow> (int \<times> int) option) \<Rightarrow> int" where
  "calculate_refresh_expiry face offset_at =
     (let target = four_o_clock face in (target - offset_minutes (offset_at target) * 60 * 1000) div 1000)"

section \<open>Enrolling a device\<close>

definition ENROL_IP_LIMIT :: int where "ENROL_IP_LIMIT = 10"
definition ENROL_IP_WINDOW_SEC :: int where "ENROL_IP_WINDOW_SEC = 60"
definition ENROL_GLOBAL_KEY :: string where "ENROL_GLOBAL_KEY = ''auth:enrol:global''"
definition ENROL_GLOBAL_LIMIT :: int where "ENROL_GLOBAL_LIMIT = 100"
definition ENROL_GLOBAL_WINDOW_SEC :: int where "ENROL_GLOBAL_WINDOW_SEC = 600"

definition enrollable :: "auth_env \<Rightarrow> string \<Rightarrow> device \<Rightarrow> bool" where
  "enrollable e code_hash d \<longleftrightarrow> d_enrol_code_hash d = Some code_hash \<and>
     (case d_enrol_expires_at d of None \<Rightarrow> False | Some t \<Rightarrow> ae_pg_now e < t) \<and> \<not> d_retired d"

definition enrolled :: "string \<Rightarrow> device \<Rightarrow> device" where
  "enrolled token_hash d = d\<lparr>d_enrol_code_hash := None, d_enrol_expires_at := None, d_token_hash := Some token_hash\<rparr>"

text \<open>\<open>auth_enrol_device\<close>: the first device of any shop with that code; codes are random, so there is one.\<close>

definition auth_enrol_device :: "auth_env \<Rightarrow> string \<Rightarrow> string \<Rightarrow> shops \<Rightarrow> (uuid \<times> uuid) option \<times> shops" where
  "auth_enrol_device e code_hash token_hash ws =
     (case concat (map (\<lambda>(t, s). map (\<lambda>d. (t, s, d)) (filter (enrollable e code_hash) (devices s))) ws) of
        [] \<Rightarrow> (None, ws)
      | (t, s, d) # _ \<Rightarrow>
          (Some (t, d_id d), put_shop t (s\<lparr>devices := upd_where (\<lambda>q. d_id q = d_id d) (enrolled token_hash) (devices s)\<rparr>) ws))"

definition enrol_device :: "auth_env \<Rightarrow> string \<Rightarrow> string option \<Rightarrow> counters \<times> shops \<Rightarrow> (err + string) \<times> counters \<times> shops" where
  "enrol_device e code ip = (\<lambda>(c, ws).
     let (v, c1) = (case ip of None \<Rightarrow> (Allowed, c)
           | Some a \<Rightarrow> consume_attempt (ae_sha e) (ae_rl e 0) (''auth:enrol:ip:'' @ a) ENROL_IP_LIMIT ENROL_IP_WINDOW_SEC c) in
     case v of
       Limited n \<Rightarrow> (Inl (rate_limited n), c1, ws)
     | Allowed \<Rightarrow>
         (let (v2, c2) = consume_attempt (ae_sha e) (ae_rl e 1) ENROL_GLOBAL_KEY ENROL_GLOBAL_LIMIT ENROL_GLOBAL_WINDOW_SEC c1 in
          case v2 of
            Limited n \<Rightarrow> (Inl (rate_limited n), c2, ws)
          | Allowed \<Rightarrow>
              (let raw = ae_uuid e 0 @ ''-'' @ ae_uuid e 1 in
               case auth_enrol_device e (ae_sha e (ae_upper e (trim code))) (ae_sha e raw) ws of
                 (None, ws1) \<Rightarrow> (Inl (unauthorized ''Invalid or expired enrolment code''), c2, ws1)
               | (Some (t, i), ws1) \<Rightarrow>
                   let c3 = (case ip of None \<Rightarrow> c2
                         | Some a \<Rightarrow> refund_attempt (ae_sha e) (ae_rl e 2) (''auth:enrol:ip:'' @ a) ENROL_IP_WINDOW_SEC c2);
                       c4 = refund_attempt (ae_sha e) (ae_rl e 3) ENROL_GLOBAL_KEY ENROL_GLOBAL_WINDOW_SEC c3 in
                   (Inr raw, c4, log_auth_event e t (auth_event None (Some i) ''device.enrol'' None None) ws1))))"

section \<open>Who a request acts as\<close>

record principal =
  pr_user :: uuid
  pr_tenant :: uuid
  pr_role :: "string option"
  pr_device :: "uuid option"
  pr_device_role :: "device_role option"

definition forbidden :: "string \<Rightarrow> err" where
  "forbidden msg = HttpErr 403 ''FORBIDDEN'' (Reason msg)"

text \<open>
  \<open>TenantGuard\<close>: \<open>bearer\<close> is the verified access token of the header, or why there is none; \<open>required\<close> the role
  the route asks for; \<open>cached\<close> the tenant's status in Redis, which keeps it for up to 330 s.
\<close>

definition tenant_guard :: "err + jwt \<Rightarrow> device_role option \<Rightarrow> string option \<Rightarrow> shops \<Rightarrow> err + principal" where
  "tenant_guard bearer required cached ws =
     e_bind bearer (\<lambda>j.
     if jw_aud j \<noteq> Aud_Tenant then Inl (forbidden ''Invalid token audience'')
     else case jw_tid j of
       None \<Rightarrow> Inl (forbidden ''Token missing tenant id'')
     | Some t \<Rightarrow>
         if required = Some Pos_Device \<and> jw_drole j \<noteq> Some Pos_Device then Inl device_role_forbidden
         else e_bind (case (if cached = Some [] then None else cached) of
             Some st \<Rightarrow> Inr st
           | None \<Rightarrow> (case map_of ws t of None \<Rightarrow> Inl (forbidden ''Tenant not found'') | Some s \<Rightarrow> Inr (tenant_status s))) (\<lambda>st.
           if st \<noteq> ''active'' then Inl tenant_suspended
           else Inr \<lparr>pr_user = jw_sub j, pr_tenant = t, pr_role = jw_role j, pr_device = jw_did j, pr_device_role = jw_drole j\<rparr>))"

text \<open>\<open>auth_lookup_device_and_active_user\<close>: a left join, so a shop without an active user has one row with none.\<close>

definition lookup_device_and_user :: "string \<Rightarrow> shops \<Rightarrow> (uuid \<times> db \<times> device \<times> shop_user option) list" where
  "lookup_device_and_user h ws =
     concat (map (\<lambda>(t, s). concat (map (\<lambda>d.
       (case filter us_is_active (users s) of [] \<Rightarrow> [(t, s, d, None)] | us \<Rightarrow> map (\<lambda>u. (t, s, d, Some u)) us))
       (filter (\<lambda>d. d_token_hash d = Some h) (devices s)))) ws)"

definition device_token_guard :: "(string \<Rightarrow> string) \<Rightarrow> string option \<Rightarrow> shops \<Rightarrow> err + principal" where
  "device_token_guard sha tok ws =
     (case tok of
        None \<Rightarrow> Inl (unauthorized ''Missing or invalid X-Device-Token header'')
      | Some tk \<Rightarrow>
          if trim tk = [] then Inl (unauthorized ''Missing or invalid X-Device-Token header'')
          else case lookup_device_and_user (sha (trim tk)) ws of
            [] \<Rightarrow> Inl (unauthorized ''Invalid device token'')
          | (t, s, d, u) # _ \<Rightarrow>
              if d_retired d then Inl (unauthorized ''Device has been retired'')
              else if d_role d \<noteq> Pos_Device then Inl device_role_forbidden
              else if tenant_status s \<noteq> ''active'' then Inl tenant_suspended
              else case u of
                None \<Rightarrow> Inl (forbidden ''No active user found for tenant'')
              | Some w \<Rightarrow>
                  if us_must_change_password w then Inl (HttpErr 403 ''PASSWORD_CHANGE_REQUIRED'' NoDetail)
                  else Inr \<lparr>pr_user = us_id w, pr_tenant = t, pr_role = Some ''owner'', pr_device = Some (d_id d),
                    pr_device_role = Some (d_role d)\<rparr>)"

text \<open>\<open>TenantOrDeviceTokenGuard\<close>: a bearer header decides; the device token is looked at only without one.\<close>

definition tenant_or_device_guard ::
  "(err + jwt) option \<Rightarrow> device_role option \<Rightarrow> string option \<Rightarrow> (string \<Rightarrow> string) \<Rightarrow> string option \<Rightarrow> shops \<Rightarrow> err + principal" where
  "tenant_or_device_guard bearer required cached sha tok ws =
     (case bearer of
        Some b \<Rightarrow> tenant_guard b required cached ws
      | None \<Rightarrow>
          (case tok of
             None \<Rightarrow> Inl (unauthorized ''Missing Authorization or X-Device-Token header'')
           | Some tk \<Rightarrow> if tk = [] then Inl (unauthorized ''Missing Authorization or X-Device-Token header'')
               else device_token_guard sha (Some tk) ws))"

end
