(* ===== verification/Auth_Facts.thy ===== *)
theory Auth_Facts
  imports Auth_Account
begin

text \<open>
  What is proved of signing in: a refresh token is answered twice at most and a chain found reused is dead,
  a lost reply can be asked for again, a wrong password tells nothing of the account, a temporary password is
  replaced once, and a session ends with the account, the device or the password it rests on.
\<close>

section \<open>Runs of refreshes\<close>

text \<open>The transactions of \<open>POST /auth/refresh\<close> one after the other; one that throws leaves no trace.\<close>

fun refreshes :: "(auth_env \<times> jwt) list \<Rightarrow> db \<Rightarrow> (err + uuid) list \<times> db" where
  "refreshes [] s = ([], s)"
| "refreshes ((e, j) # rest) s =
     (let (a, s1) = (case refresh_in e j s of Inl f \<Rightarrow> (Inl f, s) | Inr (r, s1) \<Rightarrow> (r, s1));
          (as, s2) = refreshes rest s1 in (a # as, s2))"

fun answered :: "err + 'a \<Rightarrow> bool" where
  "answered (Inr _) = True"
| "answered (Inl _) = False"

text \<open>How many more answers the token \<open>jti\<close> of the chain \<open>i\<close> can get.\<close>

definition uses_left :: "uuid \<Rightarrow> uuid \<Rightarrow> db \<Rightarrow> nat" where
  "uses_left jti i s =
     (case row_of fm_id i (families s) of
        None \<Rightarrow> if jti = i then 2 else 0
      | Some r \<Rightarrow>
          if fm_revoked_at r \<noteq> None then 0
          else if jti = fm_current_jti r then 2
          else if fm_previous_jti r = Some jti \<and> \<not> fm_grace_used r then 1 else 0)"

text \<open>The chain \<open>i\<close>, when on file, expires at \<open>x\<close>.\<close>

definition chain_until :: "uuid \<Rightarrow> int \<Rightarrow> db \<Rightarrow> bool" where
  "chain_until i x s \<longleftrightarrow> (\<forall>r \<in> set (families s). fm_id r = i \<longrightarrow> fm_expires_at r = x)"

lemma refresh_rejected_Inr [simp]:
  "refresh_rejected j reason f s = Inr (a, s') \<longleftrightarrow> a = Inl f \<and>
     s' = s\<lparr>audit_log := audit_log s @ [auth_event (Some (jw_sub j)) (jw_did j) ''auth.refresh_rejected'' (Some [(''reason'', JStr reason)]) None]\<rparr>"
  by (auto simp: refresh_rejected_def insert_audit_def)

lemma refresh_in_cases:
  assumes "refresh_in e j s = Inr (a, s')"
  obtains (refused) f where "a = Inl f" "families s' = families s"
  | (chain) "rotate_refresh_chain e j s = Inr (a, s')"
  using assms by (auto simp: refresh_in_def split: option.splits if_splits)

lemma rotate_cases:
  assumes "rotate_refresh_chain e j s = Inr (a, s')"
  obtains (refused) f where "a = Inl f" "families s' = families s"
  | (first) "a = Inr (ae_uuid e 0)" "jw_fid j = None" "\<not> has_key fm_id (family_id j) (families s)"
      "families s' = pruned e (families s @ [new_family e j (ae_uuid e 0)])"
  | (rotate) r where "a = Inr (ae_uuid e 0)" "row_of fm_id (family_id j) (families s) = Some r" "fm_revoked_at r = None"
      "jw_jti j = fm_current_jti r" "families s' = upd_where (\<lambda>r. fm_id r = family_id j) (rotated e (ae_uuid e 0)) (families s)"
  | (grace) r where "a = Inr (fm_current_jti r)" "row_of fm_id (family_id j) (families s) = Some r" "fm_revoked_at r = None"
      "jw_jti j \<noteq> fm_current_jti r" "fm_previous_jti r = Some (jw_jti j)" "\<not> fm_grace_used r"
      "families s' = upd_where (\<lambda>r. fm_id r = family_id j) (\<lambda>r. r\<lparr>fm_grace_used := True\<rparr>) (families s)"
  | (reused) f where "a = Inl f"
      "families s' = upd_where (\<lambda>r. fm_id r = family_id j) (\<lambda>r. r\<lparr>fm_revoked_at := Some (ae_pg_now e)\<rparr>) (families s)"
  using assms
  by (auto simp: rotate_refresh_chain_def judge_and_apply_def judge_refresh_def upd_family_def split: if_splits option.splits)

lemma row_of_upd_kept:
  assumes "\<And>r. fm_id (f r) = fm_id r"
  shows "row_of fm_id i (upd_where (\<lambda>r. fm_id r = k) f rs) =
    (case row_of fm_id i rs of None \<Rightarrow> None | Some r \<Rightarrow> Some (if i = k then f r else r))"
  by (induction rs) (auto simp: upd_where_def row_of_def assms)

lemma pruned_row:
  assumes "\<forall>r \<in> set rs. fm_id r = i \<longrightarrow> fm_expires_at r = x" "ae_pg_now e - DAY_LENGTH_MS \<le> x"
  shows "row_of fm_id i (pruned e rs) = row_of fm_id i rs"
  using assms by (induction rs) (auto simp: pruned_def row_of_def)

lemma pruned_append: "pruned e (rs @ qs) = pruned e rs @ pruned e qs"
  by (simp add: pruned_def)

lemma upd_sets: "r' \<in> set (upd_where p f rs) \<Longrightarrow> r' \<in> set rs \<or> (\<exists>r \<in> set rs. r' = f r)"
  by (auto simp: upd_where_def split: if_splits)

lemma chain_until_step:
  assumes "chain_until i x s" "refresh_in e j s = Inr (a, s')" "family_id j = i \<longrightarrow> jw_exp j * 1000 = x"
  shows "chain_until i x s'"
  using assms(2)
proof (cases rule: refresh_in_cases)
  case refused
  then show ?thesis using assms(1) by (simp add: chain_until_def)
next
  case chain
  then show ?thesis
  proof (cases rule: rotate_cases)
    case first
    then show ?thesis using assms(1,3) by (auto simp: chain_until_def pruned_def new_family_def family_id_def)
  qed (use assms(1) in \<open>auto simp: chain_until_def rotated_def dest!: upd_sets\<close>)
qed

lemma uses_left_step:
  assumes "chain_until i x s" "refresh_in e j s = Inr (a, s')" "family_id j = i \<longrightarrow> jw_exp j * 1000 = x"
    "ae_pg_now e - DAY_LENGTH_MS \<le> x" "ae_uuid e 0 \<noteq> jti"
  shows "uses_left jti i s' + (if family_id j = i \<and> jw_jti j = jti \<and> answered a then 1 else 0) \<le> uses_left jti i s"
  using assms(2)
proof (cases rule: refresh_in_cases)
  case refused
  then show ?thesis by (simp add: uses_left_def)
next
  case chain
  then show ?thesis
  proof (cases rule: rotate_cases)
    case refused
    then show ?thesis by (simp add: uses_left_def)
  next
    case first
    have none: "family_id j = i \<Longrightarrow> row_of fm_id i (families s) = None" using first(3) by (simp add: row_of_None)
    have "row_of fm_id i (families s') = row_of fm_id i (families s @ [new_family e j (ae_uuid e 0)])"
      unfolding first(4)
      by (rule pruned_row) (use assms(1,3,4) first(2) in \<open>auto simp: chain_until_def new_family_def family_id_def\<close>)
    moreover have "row_of fm_id i (families s @ [new_family e j (ae_uuid e 0)]) =
        (case row_of fm_id i (families s) of Some r \<Rightarrow> Some r
         | None \<Rightarrow> if jw_jti j = i then Some (new_family e j (ae_uuid e 0)) else None)"
      by (auto simp: row_of_append new_family_def split: option.split)
    ultimately show ?thesis
      using first(1,2) none assms(5) by (auto simp: uses_left_def new_family_def family_id_def split: option.splits)
  next
    case (rotate r)
    have row: "row_of fm_id i (families s') = (case row_of fm_id i (families s) of None \<Rightarrow> None
        | Some q \<Rightarrow> Some (if i = family_id j then rotated e (ae_uuid e 0) q else q))"
      unfolding rotate(5) by (rule row_of_upd_kept) (simp add: rotated_def)
    show ?thesis
    proof (cases "i = family_id j")
      case True
      then show ?thesis using row rotate(1-4) assms(5) by (simp add: uses_left_def rotated_def)
    next
      case False
      then show ?thesis using row by (simp add: uses_left_def split: option.split)
    qed
  next
    case (grace r)
    have row: "row_of fm_id i (families s') = (case row_of fm_id i (families s) of None \<Rightarrow> None
        | Some q \<Rightarrow> Some (if i = family_id j then q\<lparr>fm_grace_used := True\<rparr> else q))"
      unfolding grace(7) by (rule row_of_upd_kept) simp
    show ?thesis
    proof (cases "i = family_id j")
      case True
      then show ?thesis using row grace(1-6) by (simp add: uses_left_def)
    next
      case False
      then show ?thesis using row by (simp add: uses_left_def split: option.split)
    qed
  next
    case (reused f)
    have row: "row_of fm_id i (families s') = (case row_of fm_id i (families s) of None \<Rightarrow> None
        | Some q \<Rightarrow> Some (if i = family_id j then q\<lparr>fm_revoked_at := Some (ae_pg_now e)\<rparr> else q))"
      unfolding reused(2) by (rule row_of_upd_kept) simp
    then show ?thesis using reused(1) by (simp add: uses_left_def split: option.split)
  qed
qed

lemma uses_left_run:
  assumes "chain_until i x s" "refreshes run s = (as, s')"
    and "\<forall>(e, j) \<in> set run. (family_id j = i \<longrightarrow> jw_exp j * 1000 = x) \<and> ae_pg_now e - DAY_LENGTH_MS \<le> x \<and> ae_uuid e 0 \<noteq> jti"
  shows "length (filter (\<lambda>((e, j), a). family_id j = i \<and> jw_jti j = jti \<and> answered a) (zip run as)) + uses_left jti i s' \<le> uses_left jti i s"
  using assms
proof (induction run arbitrary: s as)
  case (Cons ev rest)
  obtain e j where ev: "ev = (e, j)" by (cases ev)
  obtain bs s2 where two: "\<And>t. refreshes rest t = (fst (refreshes rest t), snd (refreshes rest t))" by simp
  show ?case
  proof (cases "refresh_in e j s")
    case (Inl f)
    obtain bs s2 where rest: "refreshes rest s = (bs, s2)" by (metis prod.exhaust)
    from Cons.IH [OF Cons.prems(1), of bs] Cons.prems(2,3) rest Inl ev show ?thesis by auto
  next
    case (Inr w)
    obtain r s1 where w: "w = (r, s1)" by (cases w)
    obtain bs s2 where rest: "refreshes rest s1 = (bs, s2)" by (metis prod.exhaust)
    have h: "family_id j = i \<longrightarrow> jw_exp j * 1000 = x" "ae_pg_now e - DAY_LENGTH_MS \<le> x" "ae_uuid e 0 \<noteq> jti"
      using Cons.prems(3) ev by auto
    note st = chain_until_step [OF Cons.prems(1) Inr [unfolded w] h(1)] uses_left_step [OF Cons.prems(1) Inr [unfolded w] h]
    have all: "\<forall>(e, j) \<in> set rest. (family_id j = i \<longrightarrow> jw_exp j * 1000 = x) \<and> ae_pg_now e - DAY_LENGTH_MS \<le> x \<and> ae_uuid e 0 \<noteq> jti"
      using Cons.prems(3) by simp
    have res: "as = r # bs" "s' = s2" using Cons.prems(2) ev Inr w rest by auto
    from Cons.IH [OF st(1) _ all, of bs] rest st(2) res ev show ?thesis by auto
  qed
qed (auto simp: uses_left_def)

lemma uses_left_two: "uses_left jti i s \<le> 2"
  by (simp add: uses_left_def split: option.split)

text \<open>
  C11. A refresh token is worth two answers at most, the rotation and one repetition, and a chain found reused is worth
  none: in any sequence of refreshes, by whomever and in whatever order, before the chain of tokens is a day
  past its expiry, the presentations of one token of the chain that are answered with new tokens number at
  most two, and at most none once the chain is revoked (the new tokens' ids being fresh).
\<close>

theorem refresh_token_spent:
  assumes "chain_until i x s" "refreshes run s = (as, s')"
    and "\<forall>(e, j) \<in> set run. (family_id j = i \<longrightarrow> jw_exp j * 1000 = x) \<and> ae_pg_now e - DAY_LENGTH_MS \<le> x \<and> ae_uuid e 0 \<noteq> jti"
  shows "length (filter (\<lambda>((e, j), a). family_id j = i \<and> jw_jti j = jti \<and> answered a) (zip run as)) \<le>
    (case row_of fm_id i (families s) of None \<Rightarrow> 2 | Some r \<Rightarrow> if fm_revoked_at r = None then 2 else 0)"
  using uses_left_run [OF assms] uses_left_two [of jti i s]
  by (auto simp: uses_left_def split: option.splits if_splits)

text \<open>A shop with one account, and the environment of a call at an instant.\<close>

definition signed_in_shop :: db where
  "signed_in_shop = blank_db\<lparr>tenant_status := ''active'', users := [\<lparr>us_id = ''u'', us_username = ''owner'', us_password_hash = ''h'',
     us_role = ''owner'', us_display_name = ''Owner'', us_is_active = True, us_must_change_password = False,
     us_temp_password_expires_at = None, us_password_changed_at = None\<rparr>]\<rparr>"

definition plain_hashing :: hashing where
  "plain_hashing = \<lparr>ha_argon = (\<lambda>h p. Some (h = p)), ha_pbkdf2 = (\<lambda>_ _. []), ha_from_hex = (\<lambda>_. []), ha_hash = id\<rparr>"

definition call_at :: "int \<Rightarrow> string \<Rightarrow> auth_env" where
  "call_at t k = \<lparr>ae_now = t, ae_pg_now = t, ae_hashing = plain_hashing, ae_unicode = \<lparr>un_nfc = id, un_lower = id\<rparr>, ae_sha = id,
     ae_upper = id, ae_uuid = (\<lambda>_. k), ae_expiry = (\<lambda>_. 9000), ae_rl = (\<lambda>_. \<lparr>rl_now = t, rl_clock = t, rl_up = True\<rparr>), ae_audit_ok = True\<rparr>"

definition session_token :: "uuid \<Rightarrow> uuid option \<Rightarrow> int \<Rightarrow> jwt" where
  "session_token k fid iat = (token_for Refresh iat 9000 k ''u'' ''t'' ''owner'' None None)\<lparr>jw_fid := fid\<rparr>"

definition jti_of :: "char \<Rightarrow> uuid" where
  "jti_of c = replicate 8 c @ ''-1111-4111-8111-111111111111''"

lemmas signing_in = signed_in_shop_def call_at_def session_token_def token_for_def plain_hashing_def jti_of_def

theorem refresh_token_spent_witness:
  "length (filter (\<lambda>((e, j), a). family_id j = jti_of (CHR ''a'') \<and> jw_jti j = jti_of (CHR ''a'') \<and> answered a)
     (zip (replicate 3 (call_at 5000 (jti_of (CHR ''b'')), session_token (jti_of (CHR ''a'')) None 0))
       (fst (refreshes (replicate 3 (call_at 5000 (jti_of (CHR ''b'')), session_token (jti_of (CHR ''a'')) None 0)) signed_in_shop)))) \<le> 2"
  using refresh_token_spent [of "jti_of (CHR ''a'')" 9000000 signed_in_shop
      "replicate 3 (call_at 5000 (jti_of (CHR ''b'')), session_token (jti_of (CHR ''a'')) None 0)" _ _ "jti_of (CHR ''a'')", OF _ surjective_pairing]
  by (simp add: chain_until_def signing_in family_id_def DAY_LENGTH_MS_def)

section \<open>A lost reply\<close>

text \<open>The account, the shop and the device a session rests on.\<close>

definition entitled :: "jwt \<Rightarrow> db \<Rightarrow> bool" where
  "entitled j s \<longleftrightarrow> tenant_status s = ''active'' \<and>
     (\<exists>u. row_of us_id (jw_sub j) (users s) = Some u \<and> us_is_active u \<and>
        (\<forall>t. us_password_changed_at u = Some t \<longrightarrow> t div 1000 \<le> jw_iat j)) \<and>
     (\<forall>i. jw_did j = Some i \<longrightarrow> i \<noteq> [] \<longrightarrow> (\<exists>d. row_of d_id i (devices s) = Some d \<and> \<not> d_retired d))"

lemma refresh_in_entitled: "entitled j s \<Longrightarrow> refresh_in e j s = rotate_refresh_chain e j s"
  by (auto simp: refresh_in_def entitled_def split: option.split)

lemma refresh_answer_entitled:
  assumes "refresh_in e j s = Inr (Inr k, s')"
  shows "entitled j s"
  using assms by (auto simp: refresh_in_def entitled_def split: option.splits if_splits)

lemma refresh_keeps_accounts:
  assumes "refresh_in e j s = Inr (a, s')"
  shows "users s' = users s" "devices s' = devices s" "tenant_status s' = tenant_status s"
proof -
  have "tx_fixes f (refresh_in e j)" if "\<And>s x. f (s\<lparr>families := x\<rparr>) = f s" "\<And>s x. f (s\<lparr>audit_log := x\<rparr>) = f s" for f :: "db \<Rightarrow> 'z"
    unfolding refresh_in_def rotate_refresh_chain_def judge_and_apply_def refresh_rejected_def upd_family_def
    by (intro tx_fix) (auto split: refresh_verdict.split intro!: tx_fix simp: that)
  from this [of users] this [of devices] this [of tenant_status]
  show "users s' = users s" "devices s' = devices s" "tenant_status s' = tenant_status s"
    using assms by (auto dest: tx_fixesD)
qed

text \<open>The token may rotate: it is the newest of its chain, or the first and its chain is not on file yet.\<close>

definition newest_token :: "jwt \<Rightarrow> db \<Rightarrow> bool" where
  "newest_token j s \<longleftrightarrow> (case row_of fm_id (family_id j) (families s) of
     None \<Rightarrow> jw_fid j = None | Some r \<Rightarrow> jw_jti j = fm_current_jti r)"

lemma newest_rotates:
  assumes "refresh_in e j s = Inr (Inr k, s1)" "newest_token j s" "ae_pg_now e - DAY_LENGTH_MS \<le> jw_exp j * 1000"
  shows "k = ae_uuid e 0 \<and> (\<exists>r. row_of fm_id (family_id j) (families s1) = Some r \<and> fm_current_jti r = k \<and>
     fm_previous_jti r = Some (jw_jti j) \<and> \<not> fm_grace_used r \<and> fm_rotated_at r = ae_pg_now e \<and> fm_revoked_at r = None)"
proof -
  have "rotate_refresh_chain e j s = Inr (Inr k, s1)"
    using assms(1) refresh_in_entitled [OF refresh_answer_entitled [OF assms(1)], of e] by simp
  then show ?thesis
  proof (cases rule: rotate_cases)
    case first
    have none: "row_of fm_id (family_id j) (families s) = None" using first(3) by (simp add: row_of_None)
    have "row_of fm_id (family_id j) (pruned e rs @ pruned e [new_family e j k]) = Some (new_family e j k)"
      if "row_of fm_id (family_id j) rs = None" for rs
    proof -
      have "row_of fm_id (family_id j) (pruned e rs) = None"
        using that by (simp add: row_of_None has_key_def pruned_def) (auto simp: list_ex_iff)
      then show ?thesis using assms(3) first(2) by (simp add: row_of_append pruned_def new_family_def family_id_def)
    qed
    from this [OF none] have "row_of fm_id (family_id j) (families s1) = Some (new_family e j k)"
      using first(1,4) by (simp add: pruned_append)
    with first(1) show ?thesis by (simp add: new_family_def)
  next
    case (rotate r)
    then show ?thesis by (simp add: row_of_upd_kept rotated_def)
  next
    case (grace r)
    then show ?thesis using assms(2) by (simp add: newest_token_def)
  qed simp_all
qed

lemma entitled_same:
  "users s' = users s \<Longrightarrow> devices s' = devices s \<Longrightarrow> tenant_status s' = tenant_status s \<Longrightarrow> entitled j s \<Longrightarrow>
   jw_sub j' = jw_sub j \<Longrightarrow> jw_did j' = jw_did j \<Longrightarrow> jw_iat j \<le> jw_iat j' \<Longrightarrow> entitled j' s'"
  by (fastforce simp: entitled_def)

text \<open>
  C12. A reply that got lost can be asked for again: when the newest token of a session was rotated and the reply never
  arrived, the same token presented once more within 24 hours is answered with the very token that was
  lost, without another rotation, and that one goes on as if nothing had happened.
\<close>

theorem lost_reply_recovers:
  assumes "refresh_in e j s = Inr (Inr k, s1)" "newest_token j s" "ae_pg_now e - DAY_LENGTH_MS \<le> jw_exp j * 1000"
    and "ae_pg_now e2 - ae_pg_now e < REFRESH_GRACE_MAX_SEC * 1000" "jw_iat j \<le> iat_of e2" "k \<noteq> jw_jti j" "is_uuid_text k"
  shows "\<exists>s2. refresh_in e2 j s1 = Inr (Inr k, s2) \<and>
    (\<forall>e3. \<exists>s3. refresh_in e3 (snd (refresh_tokens e2 j k)) s2 = Inr (Inr (ae_uuid e3 0), s3))"
proof -
  obtain r where r: "row_of fm_id (family_id j) (families s1) = Some r" "fm_current_jti r = k"
    "fm_previous_jti r = Some (jw_jti j)" "\<not> fm_grace_used r" "fm_rotated_at r = ae_pg_now e" "fm_revoked_at r = None"
    using newest_rotates [OF assms(1-3)] by blast
  have ent: "entitled j s" by (rule refresh_answer_entitled [OF assms(1)])
  have ent1: "entitled j s1" by (rule entitled_same [OF refresh_keeps_accounts [OF assms(1)] ent]) simp_all
  have ids: "is_uuid_text (jw_jti j)" "is_uuid_text (family_id j)"
    using assms(1) unfolding refresh_in_entitled [OF ent] by (auto simp: rotate_refresh_chain_def split: if_splits)
  let ?s2 = "s1\<lparr>families := upd_where (\<lambda>r. fm_id r = family_id j) (\<lambda>r. r\<lparr>fm_grace_used := True\<rparr>) (families s1)\<rparr>"
  have two: "refresh_in e2 j s1 = Inr (Inr k, ?s2)"
    unfolding refresh_in_entitled [OF ent1]
    using r ids assms(4,6) row_of_Some_has_key [OF r(1)]
    by (simp add: rotate_refresh_chain_def judge_and_apply_def judge_refresh_def upd_family_def)
  let ?j = "snd (refresh_tokens e2 j k)"
  have j: "jw_jti ?j = k" "family_id ?j = family_id j" "jw_fid ?j = Some (family_id j)" "jw_sub ?j = jw_sub j" "jw_did ?j = jw_did j"
    "jw_iat ?j = iat_of e2" by (simp_all add: refresh_tokens_def family_id_def)
  have ent2: "entitled ?j ?s2"
    by (rule entitled_same [OF refresh_keeps_accounts [OF two] ent1]) (use j assms(5) in simp_all)
  have "row_of fm_id (family_id j) (families ?s2) = Some (r\<lparr>fm_grace_used := True\<rparr>)"
    using r(1) by (simp add: row_of_upd_kept)
  then have "\<exists>s3. refresh_in e3 ?j ?s2 = Inr (Inr (ae_uuid e3 0), s3)" for e3
    unfolding refresh_in_entitled [OF ent2]
    using r ids assms(7) j by (simp add: rotate_refresh_chain_def judge_and_apply_def judge_refresh_def upd_family_def)
  with two show ?thesis by blast
qed

theorem lost_reply_recovers_witness:
  "\<exists>s1 s2. refresh_in (call_at 5000 (jti_of (CHR ''b''))) (session_token (jti_of (CHR ''a'')) None 0) signed_in_shop = Inr (Inr (jti_of (CHR ''b'')), s1) \<and>
     refresh_in (call_at 6000 (jti_of (CHR ''c''))) (session_token (jti_of (CHR ''a'')) None 0) s1 = Inr (Inr (jti_of (CHR ''b'')), s2)"
proof -
  let ?e = "call_at 5000 (jti_of (CHR ''b''))" and ?j = "session_token (jti_of (CHR ''a'')) None 0"
  have ids: "is_uuid_text (jti_of (CHR ''a''))" "is_uuid_text (jti_of (CHR ''b''))" by (code_simp)+
  have one: "refresh_in ?e ?j signed_in_shop = Inr (Inr (jti_of (CHR ''b'')), signed_in_shop\<lparr>families :=
      pruned ?e [new_family ?e ?j (jti_of (CHR ''b''))]\<rparr>)"
    using ids by (simp add: refresh_in_def rotate_refresh_chain_def family_id_def signed_in_shop_def session_token_def token_for_def
        call_at_def)
  show ?thesis
    using lost_reply_recovers [OF one, of "call_at 6000 (jti_of (CHR ''c''))"] ids one
    by (auto simp: newest_token_def signing_in iat_of_def REFRESH_GRACE_MAX_SEC_def DAY_LENGTH_MS_def)
qed

section \<open>A wrong password\<close>

text \<open>The shops with every account removed.\<close>

definition without_accounts :: "shops \<Rightarrow> shops" where
  "without_accounts ws = map (\<lambda>(t, s). (t, s\<lparr>users := []\<rparr>)) ws"

definition matches_nobody :: "auth_env \<Rightarrow> login_dto \<Rightarrow> shops \<Rightarrow> bool" where
  "matches_nobody e dto ws \<longleftrightarrow> (\<forall>(t, s) \<in> set ws. \<forall>u \<in> set (users s). us_username u = lg_username dto \<longrightarrow>
     (\<forall>raw. lg_password dto = JStr raw \<longrightarrow> \<not> password_matches e u raw))"

lemma lookup_device_without: "auth_lookup_device_by_token h (without_accounts ws) = auth_lookup_device_by_token h ws"
  by (induction ws) (auto simp: auth_lookup_device_by_token_def without_accounts_def)

lemma lookup_user_without: "auth_lookup_user_for_login n t (without_accounts ws) = []"
  by (induction ws) (auto simp: auth_lookup_user_for_login_def without_accounts_def)

lemma login_user_no_match:
  assumes "matches_nobody e dto ws" "lg_password dto = JStr raw"
  shows "\<exists>ws'. login_user e dto raw ip dev (c, ws) = (Inl invalid_credentials, c, ws')"
proof -
  have look: "\<not> password_matches e u raw" if "(t, s, u) \<in> set (auth_lookup_user_for_login (lg_username dto) k ws)" for t s u k
    using that assms by (auto simp: auth_lookup_user_for_login_def matches_nobody_def)
  have one: "\<And>t s u. auth_lookup_user_for_login (lg_username dto) (map_option fst dev) ws = [(t, s, u)] \<Longrightarrow>
      \<not> password_matches e u raw"
    by (rule look [of _ _ _ "map_option fst dev"]) simp
  show ?thesis
  proof (cases "\<exists>t s u. auth_lookup_user_for_login (lg_username dto) (map_option fst dev) ws = [(t, s, u)]")
    case True
    then show ?thesis
      using one by (auto simp: login_user_def)
  next
    case False
    then show ?thesis
      by (cases "auth_lookup_user_for_login (lg_username dto) (map_option fst dev) ws" rule: remdups_adj.cases)
        (auto simp: login_user_def)
  qed
qed

text \<open>
  C13. A password guesser learns nothing about accounts. A login whose password is not the one of any account of
  that name gets the answer, and leaves the counters, that it would get from a server without any account at all: whether
  the name exists, in how many shops, and whether the account or the shop is active make no difference.
\<close>

theorem wrong_password_tells_nothing:
  assumes "matches_nobody e dto ws"
  shows "fst (login e dto ip (c, ws)) = fst (login e dto ip (c, without_accounts ws)) \<and>
    fst (snd (login e dto ip (c, ws))) = fst (snd (login e dto ip (c, without_accounts ws)))"
proof (cases "lg_password dto")
  case (JStr raw)
  have dev: "device_of_login e tok (without_accounts ws) = device_of_login e tok ws" for tok
    unfolding device_of_login_def lookup_device_without ..
  have a: "fst (login_user e dto raw ip d (c', ws)) = Inl invalid_credentials" "fst (snd (login_user e dto raw ip d (c', ws))) = c'" for d c'
    using login_user_no_match [OF assms JStr, of ip d c'] by auto
  have b: "fst (login_user e dto raw ip d (c', without_accounts ws)) = Inl invalid_credentials"
    "fst (snd (login_user e dto raw ip d (c', without_accounts ws))) = c'" for d c'
    by (simp_all add: login_user_def lookup_user_without)
  show ?thesis
    by (simp add: login_def JStr dev Let_def a b split: prod.split verdict.split sum.split)
qed (simp_all add: login_def)

theorem wrong_password_tells_nothing_witness:
  "fst (login (call_at 5000 []) \<lparr>lg_username = ''owner'', lg_password = JStr ''guess'', lg_device_token = None\<rparr> (Some ''1.2.3.4'')
     (Map.empty, [(''t'', signed_in_shop)])) =
   fst (login (call_at 5000 []) \<lparr>lg_username = ''owner'', lg_password = JStr ''guess'', lg_device_token = None\<rparr> (Some ''1.2.3.4'')
     (Map.empty, without_accounts [(''t'', signed_in_shop)]))"
  using wrong_password_tells_nothing [of "call_at 5000 []" "\<lparr>lg_username = ''owner'', lg_password = JStr ''guess'', lg_device_token = None\<rparr>"
      "[(''t'', signed_in_shop)]" "Some ''1.2.3.4''" Map.empty]
  by (simp add: matches_nobody_def password_matches_def signing_in)

section \<open>A password of the owner's own\<close>

lemma commit_change_row:
  assumes "commit_change e j old h s = Inr ((), s1)" "distinct (map us_id (users s))"
  obtains u where "row_of us_id (jw_sub j) (users s1) = Some (own_password e h u)" "still_temporary e (jw_sub j) old u"
    "row_of us_id (jw_sub j) (users s) = Some u" "tenant_status s1 = tenant_status s"
proof -
  from assms(1) have ex: "list_ex (still_temporary e (jw_sub j) old) (users s)"
    and s1: "users s1 = upd_where (still_temporary e (jw_sub j) old) (own_password e h) (users s)" "tenant_status s1 = tenant_status s"
    by (auto simp: commit_change_def insert_audit_def)
  from ex obtain u where u: "u \<in> set (users s)" "still_temporary e (jw_sub j) old u" by (auto simp: list_ex_iff)
  have id: "us_id u = jw_sub j" using u(2) by (simp add: still_temporary_def)
  have "row_of us_id (us_id w) us = Some w \<and> row_of us_id (us_id w) (upd_where p (own_password e h) us) = Some (if p w then own_password e h w else w)"
    if "w \<in> set us" "distinct (map us_id us)" for w us p
    using that by (induction us) (force simp: row_of_def upd_where_def own_password_def)+
  from this [OF u(1) assms(2), of "still_temporary e (jw_sub j) old"] show ?thesis
    using that s1 u(2) id by simp
qed

lemma changed_since_refused:
  assumes "row_of us_id (jw_sub j) (users s) = Some u" "us_password_changed_at u = Some t" "jw_iat j < t div 1000"
  shows "\<exists>f s'. refresh_in e j s = Inr (Inl f, s')"
  using assms by (simp add: refresh_in_def)

text \<open>A token of the user \<open>i\<close> from before the second of the instant \<open>t\<close>.\<close>

definition issued_before :: "uuid \<Rightarrow> int \<Rightarrow> jwt \<Rightarrow> bool" where
  "issued_before i t j \<longleftrightarrow> jw_sub j = i \<and> jw_iat j < t div 1000"

lemma old_tokens_refused:
  assumes "row_of us_id i (users s) = Some u" "us_password_changed_at u = Some t" "refreshes run s = (as, s')"
  shows "list_all2 (\<lambda>(e, j) a. issued_before i t j \<longrightarrow> \<not> answered a) run as"
  using assms
proof (induction run arbitrary: s as)
  case (Cons ev rest)
  obtain e j where ev: "ev = (e, j)" by (cases ev)
  show ?case
  proof (cases "refresh_in e j s")
    case (Inl f)
    obtain bs s2 where rest: "refreshes rest s = (bs, s2)" by (metis prod.exhaust)
    from Cons.IH [OF Cons.prems(1,2), of bs] Cons.prems(3) rest Inl ev show ?thesis by auto
  next
    case (Inr w)
    obtain r s1 where w: "w = (r, s1)" by (cases w)
    obtain bs s2 where rest: "refreshes rest s1 = (bs, s2)" by (metis prod.exhaust)
    have "row_of us_id i (users s1) = Some u" using refresh_keeps_accounts(1) [OF Inr [unfolded w]] Cons.prems(1) by simp
    from Cons.IH [OF this Cons.prems(2), of bs] rest have "list_all2 (\<lambda>(e, j) a. issued_before i t j \<longrightarrow> \<not> answered a) rest bs"
      using Cons.prems(3) ev Inr w by auto
    moreover have "issued_before i t j \<Longrightarrow> \<not> answered r"
      using changed_since_refused [of j s u t e] Cons.prems(1,2) Inr w by (auto simp: issued_before_def)
    ultimately show ?thesis using Cons.prems(3) ev Inr w rest by auto
  qed
qed simp

text \<open>
  C14. Once the owner has replaced a temporary password, what was handed out before is dead: in any sequence of
  refreshes after the change, no token of that account from before the second of the change is answered.
\<close>

theorem password_change_ends_sessions:
  assumes "commit_change e j old h s = Inr ((), s1)" "distinct (map us_id (users s))" "refreshes run s1 = (as, s2)"
  shows "list_all2 (\<lambda>(e', j') a. issued_before (jw_sub j) (ae_pg_now e) j' \<longrightarrow> \<not> answered a) run as"
proof -
  obtain u where "row_of us_id (jw_sub j) (users s1) = Some (own_password e h u)"
    using commit_change_row [OF assms(1,2)] by metis
  from old_tokens_refused [OF this _ assms(3)] show ?thesis by (simp add: own_password_def)
qed

theorem password_change_ends_sessions_witness:
  "\<exists>s1. commit_change (call_at 5000 []) (session_token ''x'' None 4) ''h'' ''new''
       (signed_in_shop\<lparr>users := map (\<lambda>u. u\<lparr>us_must_change_password := True, us_temp_password_expires_at := Some 6000\<rparr>) (users signed_in_shop)\<rparr>)
       = Inr ((), s1) \<and>
     list_all2 (\<lambda>(e', j') a. issued_before ''u'' 5000 j' \<longrightarrow> \<not> answered a) [(call_at 7000 [], session_token (jti_of (CHR ''a'')) None 3)]
       (fst (refreshes [(call_at 7000 [], session_token (jti_of (CHR ''a'')) None 3)] s1))"
proof -
  let ?s = "signed_in_shop\<lparr>users := map (\<lambda>u. u\<lparr>us_must_change_password := True, us_temp_password_expires_at := Some 6000\<rparr>) (users signed_in_shop)\<rparr>"
  have "\<exists>s1. commit_change (call_at 5000 []) (session_token ''x'' None 4) ''h'' ''new'' ?s = Inr ((), s1)"
    by (simp add: commit_change_def still_temporary_def insert_audit_def signing_in)
  then obtain s1 where one: "commit_change (call_at 5000 []) (session_token ''x'' None 4) ''h'' ''new'' ?s = Inr ((), s1)" by blast
  show ?thesis
    using password_change_ends_sessions [OF one _ surjective_pairing,
        of "[(call_at 7000 [], session_token (jti_of (CHR ''a'')) None 3)]"] one
    by (auto simp: signing_in)
qed

lemma commit_change_users:
  "commit_change e j old h s = Inr ((), s1) \<Longrightarrow> users s1 = upd_where (still_temporary e (jw_sub j) old) (own_password e h) (users s)"
  by (auto simp: commit_change_def insert_audit_def)

lemma temporary_password_spent:
  assumes "commit_change e j old h s = Inr ((), s1)" "distinct (map us_id (users s))" "jw_sub j' = jw_sub j"
  shows "commit_change e' j' old' h' s1 = Inl change_token_dead"
proof -
  obtain u where u: "row_of us_id (jw_sub j) (users s) = Some u" "still_temporary e (jw_sub j) old u"
    "users s1 = upd_where (still_temporary e (jw_sub j) old) (own_password e h) (users s)"
    using commit_change_row [OF assms(1,2)] assms(1) by (metis (mono_tags, lifting) commit_change_users)
  have "\<not> still_temporary e' (jw_sub j) old' (if still_temporary e (jw_sub j) old w then own_password e h w else w)"
    if w: "w \<in> set (users s)" for w
  proof (cases "us_id w = jw_sub j")
    case True
    then have "w = u" using row_of_unique [OF assms(2) w] u(1) by simp
    then show ?thesis using u(2) by (simp add: still_temporary_def [of e'] own_password_def)
  qed (simp add: still_temporary_def)
  then have "\<not> list_ex (still_temporary e' (jw_sub j) old') (users s1)"
    unfolding u(3) list_ex_iff upd_where_def set_map by blast
  with assms(3) show ?thesis by (simp add: commit_change_def)
qed

end
