(* ===== verification/Tenant_Cache.thy ===== *)
theory Tenant_Cache
  imports Settings
begin

text \<open>
  The cache in front of the tables (\<open>infra/tenant-cache.service.ts\<close>, \<open>SettingsService.getSettingsCached\<close>): a random
  generation is part of every key, an invalidation replaces it, and a reader takes the generation before it
  reads the table. Redis is a map from keys; a body stands for its JSON. What Redis does on its own -
  expiry, eviction - and failed commands are steps of the world.
\<close>

section \<open>Keys and lifetimes\<close>

definition cache_ttl :: "string \<Rightarrow> int \<times> int" where
  "cache_ttl ns = (if ns = ''products'' then (300, 60) else if ns = ''categories'' \<or> ns = ''settings'' then (3600, 360) else (60, 6))"

definition GENERATION_TTL_SEC :: int where "GENERATION_TTL_SEC = 3600"
definition GENERATION_JITTER_SEC :: int where "GENERATION_JITTER_SEC = 300"
definition LOCK_WAIT_MS :: int where "LOCK_WAIT_MS = 1000"

text \<open>\<open>draw n\<close> is \<open>randomInt(n)\<close>: a number from \<open>0\<close> on below \<open>n\<close>.\<close>

definition ttl_with_jitter :: "(int \<Rightarrow> int) \<Rightarrow> int \<Rightarrow> int \<Rightarrow> int" where
  "ttl_with_jitter draw base jitter = base - jitter + draw (2 * jitter + 1)"

definition generation_key :: "string \<Rightarrow> string \<Rightarrow> string" where
  "generation_key t ns = ''t:'' @ t @ '':'' @ ns @ '':gen''"

definition value_prefix :: "string \<Rightarrow> string \<Rightarrow> string \<Rightarrow> string" where
  "value_prefix t ns tok = ''t:'' @ t @ '':'' @ ns @ '':g:'' @ tok @ '':''"

section \<open>The commands\<close>

datatype 'v entry = Token string | Body 'v

type_synonym 'v redis = "string \<Rightarrow> 'v entry option"

definition set_nx :: "string \<Rightarrow> 'v entry \<Rightarrow> 'v redis \<Rightarrow> 'v redis" where
  "set_nx k v r = (if r k = None then r(k \<mapsto> v) else r)"

definition generation :: "string \<Rightarrow> string \<Rightarrow> 'v redis \<Rightarrow> string option" where
  "generation t ns r = (case r (generation_key t ns) of Some (Token g) \<Rightarrow> Some g | _ \<Rightarrow> None)"

definition cache_get :: "string \<Rightarrow> 'v redis \<Rightarrow> 'v option" where
  "cache_get k r = (case r k of Some (Body v) \<Rightarrow> Some v | _ \<Rightarrow> None)"

definition cache_set :: "string \<Rightarrow> 'v \<Rightarrow> 'v redis \<Rightarrow> 'v redis" where
  "cache_set k v r = r(k \<mapsto> Body v)"

text \<open>With Redis down the catch logs the failure and leaves everything as it was.\<close>

definition invalidate :: "bool \<Rightarrow> string \<Rightarrow> string \<Rightarrow> string \<Rightarrow> 'v redis \<Rightarrow> 'v redis" where
  "invalidate up t ns tok r = (if up then r(generation_key t ns \<mapsto> Token tok) else r)"

section \<open>One loader per key\<close>

definition lock_key :: "string \<Rightarrow> string" where "lock_key k = k @ '':lock''"

definition try_lock :: "string \<Rightarrow> string \<Rightarrow> 'v redis \<Rightarrow> bool \<times> 'v redis" where
  "try_lock k tok r = (r (lock_key k) = None, set_nx (lock_key k) (Token tok) r)"

definition release_lock :: "string \<Rightarrow> string \<Rightarrow> 'v redis \<Rightarrow> 'v redis" where
  "release_lock k tok r = (case r (lock_key k) of Some (Token g) \<Rightarrow> if g = tok then r(lock_key k := None) else r | _ \<Rightarrow> r)"

text \<open>What a miss gets: the right to load (with a lock to free, or none), or the value another request loaded.\<close>

datatype 'v flight = Loaded 'v | Load_It | Load_Anyway

text \<open>
  The waiter: each turn finds the time and Redis as others have left them; \<open>None\<close> when Redis fails. The list of turns
  stands for the passing of time, so it never runs out before the deadline.
\<close>

fun flight_wait :: "string \<Rightarrow> string \<Rightarrow> int \<Rightarrow> (int \<times> 'v redis option) list \<Rightarrow> 'v flight option" where
  "flight_wait k tok deadline [] = None"
| "flight_wait k tok deadline ((t, None) # ws) = Some Load_Anyway"
| "flight_wait k tok deadline ((t, Some r) # ws) =
     (case cache_get k r of
        Some v \<Rightarrow> Some (Loaded v)
      | None \<Rightarrow>
          if fst (try_lock k tok r) then Some Load_It
          else if deadline \<le> t then Some Load_Anyway else flight_wait k tok deadline ws)"

definition single_flight :: "string \<Rightarrow> string \<Rightarrow> (int \<times> 'v redis option) list \<Rightarrow> 'v flight option" where
  "single_flight k tok turns =
     (case turns of
        [] \<Rightarrow> None
      | (t, None) # ws \<Rightarrow> Some Load_Anyway
      | (t, Some r) # ws \<Rightarrow> if fst (try_lock k tok r) then Some Load_It else flight_wait k tok (t + LOCK_WAIT_MS) ws)"

section \<open>A read through the cache\<close>

text \<open>
  Where a reader stands between two awaits: about to get the generation, to make one, to get it again, to look the
  key up, to read the table, to keep what it read, or answered (and from the cache?).
\<close>

datatype 'v reader = Ask | Make | Ask_Again | Look string | Read_Row "string option" | Keep string 'v | Answered 'v bool

text \<open>One turn of a reader while Redis is \<open>up\<close> or not, with the token it would make and the row as committed now.\<close>

fun reader_turn :: "string \<Rightarrow> string \<Rightarrow> string \<Rightarrow> bool \<Rightarrow> string \<Rightarrow> 'v \<Rightarrow> 'v reader \<Rightarrow> 'v redis \<Rightarrow> 'v reader \<times> 'v redis" where
  "reader_turn t ns rest up tok row Ask r =
     (if \<not> up then (Read_Row None, r)
      else case generation t ns r of None \<Rightarrow> (Make, r) | Some g \<Rightarrow> (Look (value_prefix t ns g @ rest), r))"
| "reader_turn t ns rest up tok row Make r =
     (if \<not> up then (Read_Row None, r) else (Ask_Again, set_nx (generation_key t ns) (Token tok) r))"
| "reader_turn t ns rest up tok row Ask_Again r =
     (if \<not> up then (Read_Row None, r)
      else case generation t ns r of None \<Rightarrow> (Read_Row None, r) | Some g \<Rightarrow> (Look (value_prefix t ns g @ rest), r))"
| "reader_turn t ns rest up tok row (Look k) r =
     (case (if up then cache_get k r else None) of None \<Rightarrow> (Read_Row (Some k), r) | Some v \<Rightarrow> (Answered v True, r))"
| "reader_turn t ns rest up tok row (Read_Row k) r =
     (case k of None \<Rightarrow> (Answered row False, r) | Some k \<Rightarrow> (Keep k row, r))"
| "reader_turn t ns rest up tok row (Keep k v) r = (Answered v False, if up then cache_set k v r else r)"
| "reader_turn t ns rest up tok row (Answered v hit) r = (Answered v hit, r)"

text \<open>\<open>getSettingsCached\<close> when nobody comes between its turns.\<close>

definition read_through :: "string \<Rightarrow> string \<Rightarrow> string \<Rightarrow> bool \<Rightarrow> string \<Rightarrow> 'v \<Rightarrow> 'v redis \<Rightarrow> 'v reader" where
  "read_through t ns rest up tok row r = fst (((\<lambda>(p, r). reader_turn t ns rest up tok row p r) ^^ 6) (Ask, r))"

section \<open>Readers, writers and Redis together\<close>

record 'v world =
  w_redis :: "'v redis"
  w_row :: 'v
  w_readers :: "'v reader list"
  w_pending :: nat
  w_missed :: bool
  w_tokens :: "string set"

text \<open>
  A writer commits (and its hook is due), a hook runs, and finds Redis up or down, a reader arrives or takes a turn, or
  Redis loses a key. \<open>w_missed\<close> says whether the last hook failed, so that a generation from before a committed write may
  still stand. A token is sixteen random hex digits: never one that was drawn before.
\<close>

inductive cache_step :: "string \<Rightarrow> string \<Rightarrow> string \<Rightarrow> 'v world \<Rightarrow> 'v world \<Rightarrow> bool" for t ns rest where
  arrives: "cache_step t ns rest w (w\<lparr>w_readers := w_readers w @ [Ask]\<rparr>)"
| turn: "i < length (w_readers w) \<Longrightarrow> tok \<notin> w_tokens w \<Longrightarrow>
    reader_turn t ns rest up tok (w_row w) (w_readers w ! i) (w_redis w) = (p, r) \<Longrightarrow>
    cache_step t ns rest w (w\<lparr>w_readers := (w_readers w)[i := p], w_redis := r, w_tokens := insert tok (w_tokens w)\<rparr>)"
| commits: "cache_step t ns rest w (w\<lparr>w_row := v, w_pending := w_pending w + 1\<rparr>)"
| hook_runs: "0 < w_pending w \<Longrightarrow> tok \<notin> w_tokens w \<Longrightarrow>
    cache_step t ns rest w (w\<lparr>w_redis := invalidate up t ns tok (w_redis w), w_pending := w_pending w - 1,
      w_missed := \<not> up, w_tokens := insert tok (w_tokens w)\<rparr>)"
| evicts: "cache_step t ns rest w (w\<lparr>w_redis := (w_redis w)(k := None)\<rparr>)"

definition empty_world :: "'v \<Rightarrow> 'v world" where
  "empty_world v = \<lparr>w_redis = Map.empty, w_row = v, w_readers = [], w_pending = 0, w_missed = False, w_tokens = {}\<rparr>"

section \<open>Nothing stale under the current generation\<close>

text \<open>Which key a reader holds, and with what in hand.\<close>

definition key_of :: "string \<Rightarrow> string \<Rightarrow> string \<Rightarrow> string \<Rightarrow> string" where
  "key_of t ns rest g = value_prefix t ns g @ rest"

fun held_key :: "'v reader \<Rightarrow> string option" where
  "held_key (Look k) = Some k"
| "held_key (Read_Row k) = k"
| "held_key (Keep k v) = Some k"
| "held_key _ = None"

definition known_keys :: "string \<Rightarrow> string \<Rightarrow> string \<Rightarrow> 'v world \<Rightarrow> bool" where
  "known_keys t ns rest w \<longleftrightarrow>
     (\<forall>g. generation t ns (w_redis w) = Some g \<longrightarrow> g \<in> w_tokens w) \<and>
     (\<forall>p \<in> set (w_readers w). \<forall>k. held_key p = Some k \<longrightarrow> (\<exists>g \<in> w_tokens w. k = key_of t ns rest g)) \<and>
     (\<forall>g. cache_get (key_of t ns rest g) (w_redis w) \<noteq> None \<longrightarrow> g \<in> w_tokens w)"

definition current_only :: "string \<Rightarrow> string \<Rightarrow> string \<Rightarrow> 'v world \<Rightarrow> bool" where
  "current_only t ns rest w \<longleftrightarrow>
     (w_pending w = 0 \<and> \<not> w_missed w \<longrightarrow> (\<forall>g. generation t ns (w_redis w) = Some g \<longrightarrow>
        (\<forall>v. cache_get (key_of t ns rest g) (w_redis w) = Some v \<longrightarrow> v = w_row w) \<and>
        (\<forall>v. Keep (key_of t ns rest g) v \<in> set (w_readers w) \<longrightarrow> v = w_row w)))"

lemma key_of_inject [simp]: "key_of t ns rest g = key_of t ns rest h \<longleftrightarrow> g = h"
  by (simp add: key_of_def value_prefix_def)

lemma key_not_generation [simp]: "key_of t ns rest g \<noteq> generation_key t ns" "generation_key t ns \<noteq> key_of t ns rest g"
  by (simp_all add: key_of_def value_prefix_def generation_key_def)

lemma generation_upd [simp]:
  "generation t ns (r(generation_key t ns := x)) = (case x of Some (Token g) \<Rightarrow> Some g | _ \<Rightarrow> None)"
  "generation t ns (r(key_of t ns rest g := x)) = generation t ns r"
  by (simp_all add: generation_def)

lemma cache_get_upd [simp]:
  "cache_get k (r(k := x)) = (case x of Some (Body v) \<Rightarrow> Some v | _ \<Rightarrow> None)"
  "k \<noteq> j \<Longrightarrow> cache_get k (r(j := x)) = cache_get k r"
  by (simp_all add: cache_get_def)

lemma generation_set_nx:
  "generation t ns (set_nx (generation_key t ns) (Token g) r) = Some h \<Longrightarrow> h = g \<or> generation t ns r = Some h"
  by (auto simp: set_nx_def generation_def split: if_splits option.splits entry.splits)

lemma cache_get_set_nx [simp]: "cache_get (key_of t ns rest h) (set_nx (generation_key t ns) (Token g) r) = cache_get (key_of t ns rest h) r"
  by (simp add: set_nx_def)

lemma set_update: "p \<in> set (xs[i := q]) \<Longrightarrow> p = q \<or> p \<in> set xs"
  by (meson insertE set_update_subset_insert subsetD)

text \<open>A turn, by what it does to Redis.\<close>

lemma reader_turn_cases:
  assumes "reader_turn t ns rest up tok row p r = (q, r')"
  obtains (looked) "r' = r" "held_key q = held_key p \<or> (\<exists>g. generation t ns r = Some g \<and> held_key q = Some (key_of t ns rest g)) \<or> held_key q = None"
      "\<And>k v. q = Keep k v \<Longrightarrow> v = row"
  | (made) "p = Make" "q = Ask_Again" "r' = set_nx (generation_key t ns) (Token tok) r"
  | (kept) k v where "p = Keep k v" "held_key q = None" "r' = cache_set k v r"
  using assms by (cases p) (auto simp: key_of_def [symmetric] split: if_splits option.splits)

lemma known_keys_step: "cache_step t ns rest w w' \<Longrightarrow> known_keys t ns rest w \<Longrightarrow> known_keys t ns rest w'"
proof (induction rule: cache_step.induct)
  case (turn i w tok up p r)
  let ?q = "w_readers w ! i"
  have mem: "?q \<in> set (w_readers w)" using turn(1) by simp
  from turn(3) show ?case
  proof (cases rule: reader_turn_cases)
    case looked
    then show ?thesis using turn(4) mem unfolding known_keys_def by (auto dest!: set_update)
  next
    case made
    then show ?thesis using turn(4) unfolding known_keys_def by (auto dest!: set_update dest: generation_set_nx)
  next
    case (kept k v)
    then obtain g where "k = key_of t ns rest g" "g \<in> w_tokens w" using turn(4) mem unfolding known_keys_def by fastforce
    then show ?thesis using turn(4) kept unfolding known_keys_def cache_set_def
      by (auto dest!: set_update split: if_splits) (metis cache_get_upd(2) key_of_inject)+
  qed
next
  case (hook_runs w tok)
  then show ?case by (auto simp: known_keys_def invalidate_def)
next
  case (evicts w k)
  then show ?case
    unfolding known_keys_def by (auto simp: generation_def cache_get_def split: if_splits option.splits)
qed (auto simp: known_keys_def)

lemma current_only_step:
  "cache_step t ns rest w w' \<Longrightarrow> known_keys t ns rest w \<Longrightarrow> current_only t ns rest w \<Longrightarrow> current_only t ns rest w'"
proof (induction rule: cache_step.induct)
  case (turn i w tok up p r)
  let ?q = "w_readers w ! i"
  have mem: "?q \<in> set (w_readers w)" using turn(1) by simp
  from turn(3) show ?case
  proof (cases rule: reader_turn_cases)
    case looked
    then show ?thesis using turn(5) unfolding current_only_def by (auto dest!: set_update)
  next
    case made
    then show ?thesis using turn(2,4,5) unfolding current_only_def known_keys_def
      by (auto dest!: set_update generation_set_nx)
  next
    case (kept k v)
    then obtain g where "k = key_of t ns rest g" using turn(4) mem unfolding known_keys_def by fastforce
    then show ?thesis using turn(5) kept mem unfolding current_only_def cache_set_def
      by (auto dest!: set_update) (metis cache_get_upd key_of_inject option.inject entry.case(2) option.case(2))+
  qed
next
  case (hook_runs w tok)
  then show ?case by (auto simp: known_keys_def current_only_def invalidate_def)
next
  case (evicts w k)
  then show ?case
    unfolding current_only_def by (auto simp: generation_def cache_get_def split: if_splits option.splits)
qed (auto simp: current_only_def)

lemma cache_steps_current:
  "(cache_step t ns rest)\<^sup>*\<^sup>* (empty_world v) w \<Longrightarrow> known_keys t ns rest w \<and> current_only t ns rest w"
proof (induction rule: rtranclp_induct)
  case base
  then show ?case by (simp add: empty_world_def known_keys_def current_only_def generation_def cache_get_def)
next
  case (step w w')
  then show ?case using known_keys_step current_only_step by blast
qed

text \<open>
  The documented price of failing open: a value kept before a write is still answered after the write has committed and its
  invalidation has found Redis down.
\<close>

definition stale_world :: "nat world" where
  "stale_world = \<lparr>w_redis = [generation_key ''t'' ''settings'' \<mapsto> Token ''a'', key_of ''t'' ''settings'' ''row'' ''a'' \<mapsto> Body 1], w_row = 1,
     w_readers = [], w_pending = 0, w_missed = False, w_tokens = {''a''}\<rparr>"

lemma missed_invalidation_is_stale:
  "\<exists>w. (cache_step ''t'' ''settings'' ''row'')\<^sup>*\<^sup>* stale_world w \<and> w_pending w = 0 \<and> w_row w = 2 \<and>
     read_through ''t'' ''settings'' ''row'' True ''c'' (w_row w) (w_redis w) = Answered 1 True"
proof -
  let ?w1 = "stale_world\<lparr>w_row := 2, w_pending := 1\<rparr>"
  let ?w2 = "?w1\<lparr>w_pending := 0, w_missed := True, w_tokens := insert ''b'' (w_tokens ?w1)\<rparr>"
  have "cache_step ''t'' ''settings'' ''row'' stale_world ?w1"
    using commits [of "''t''" "''settings''" "''row''" stale_world 2] by (simp add: stale_world_def)
  moreover have "cache_step ''t'' ''settings'' ''row'' ?w1 ?w2"
    using hook_runs [of ?w1 "''b''" "''t''" "''settings''" "''row''" False] by (simp add: stale_world_def invalidate_def)
  ultimately have "(cache_step ''t'' ''settings'' ''row'')\<^sup>*\<^sup>* stale_world ?w2"
    by (rule converse_rtranclp_into_rtranclp [OF _ r_into_rtranclp])
  moreover have "read_through ''t'' ''settings'' ''row'' True ''c'' 2 (w_redis ?w2) = Answered 1 True"
    by (simp add: read_through_def eval_nat_numeral stale_world_def key_of_def [symmetric] generation_def cache_get_def)
  ultimately show ?thesis by (intro exI [of _ ?w2]) (simp add: stale_world_def)
qed

section \<open>Properties\<close>

text \<open>
  C16. What the cache can answer: in every interleaving of readers, committed writes, their invalidations (which fail when
  Redis is down, and are then only logged), evictions and expiries, started on an empty Redis, a read answers the row as it
  is - from the cache or from the table - when no committed write still owes its invalidation and the last invalidation did
  not fail, and also whenever the generation has expired or Redis is down. What is left out is real: after an invalidation
  that failed, a value of the old generation is answered until it expires, or the next invalidation gets through
  (\<open>server/README.md\<close>, fail-open on invalidation; \<open>missed_invalidation_is_stale\<close>).
\<close>

theorem cached_read_is_current:
  assumes "(cache_step t ns rest)\<^sup>*\<^sup>* (empty_world v) w" "tok \<notin> w_tokens w"
    and "w_pending w = 0 \<and> \<not> w_missed w \<or> generation t ns (w_redis w) = None \<or> \<not> up"
  shows "\<exists>hit. read_through t ns rest up tok (w_row w) (w_redis w) = Answered (w_row w) hit"
proof -
  have k: "known_keys t ns rest w" "current_only t ns rest w" using cache_steps_current [OF assms(1)] by simp_all
  have hit: "x = w_row w"
    if "up" "generation t ns (w_redis w) = Some g" "cache_get (key_of t ns rest g) (w_redis w) = Some x" for g x
    using k(2) assms(3) that by (auto simp: current_only_def)
  have fresh: "cache_get (key_of t ns rest tok) (w_redis w) = None"
    using k(1) assms(2) unfolding known_keys_def by blast
  have made: "generation t ns (w_redis w) = None \<Longrightarrow> generation t ns (set_nx (generation_key t ns) (Token tok) (w_redis w)) \<in> {None, Some tok}"
    using generation_set_nx by (cases "generation t ns (set_nx (generation_key t ns) (Token tok) (w_redis w))") fastforce+
  show ?thesis
    using hit fresh made
    by (auto simp: read_through_def eval_nat_numeral key_of_def [symmetric] split: option.split)
qed

theorem cached_read_is_current_witness:
  "\<exists>hit. read_through ''t'' ''settings'' ''row'' True ''b'' (2 :: nat)
     (invalidate True ''t'' ''settings'' ''a'' (w_redis (empty_world 1))) = Answered 2 hit"
proof -
  let ?w1 = "(empty_world (1 :: nat))\<lparr>w_row := 2, w_pending := 1\<rparr>"
  have "cache_step ''t'' ''settings'' ''row'' (empty_world (1 :: nat)) ?w1"
    using commits [of "''t''" "''settings''" "''row''" "empty_world (1 :: nat)" 2] by (simp add: empty_world_def)
  moreover have "cache_step ''t'' ''settings'' ''row'' ?w1 (?w1\<lparr>w_redis := invalidate True ''t'' ''settings'' ''a'' (w_redis ?w1), w_pending := 0,
      w_missed := False, w_tokens := insert ''a'' (w_tokens ?w1)\<rparr>)"
    using hook_runs [of ?w1 "''a''" "''t''" "''settings''" "''row''" True] by (simp add: empty_world_def)
  ultimately have "(cache_step ''t'' ''settings'' ''row'')\<^sup>*\<^sup>* (empty_world (1 :: nat)) (?w1\<lparr>w_redis := invalidate True ''t'' ''settings'' ''a'' (w_redis ?w1),
      w_pending := 0, w_missed := False, w_tokens := insert ''a'' (w_tokens ?w1)\<rparr>)"
    by (rule converse_rtranclp_into_rtranclp [OF _ r_into_rtranclp])
  from cached_read_is_current [OF this, of "''b''" True] show ?thesis by (simp add: empty_world_def)
qed

end
