(* ===== verification/Reports.thy ===== *)
theory Reports
  imports Shifts Paging Js_Date "HOL-Library.List_Lexorder" "HOL-Library.Char_ord" "HOL-Library.Multiset"
begin

text \<open>
  The reports (\<open>reports/reports.dto.ts\<close>, \<open>reports/reports.service.ts\<close>): the range of days, the summary and its gross
  profit, the closing report of a drawer (its cash is \<open>expected_cash\<close> of theory \<open>Shifts\<close>), the
  rankings of products and categories, and the stock. Money sums are exact; \<open>numeric(20,2)\<close> is checked
  where the code casts to it. \<open>midnight tz day\<close> is Postgres's \<open>day::timestamp AT TIME ZONE tz\<close>.
\<close>

section \<open>The range of days\<close>

text \<open>\<open>Date.UTC(y, m, d)\<close> in days, the month from 0 on: two-digit years lie in the twentieth century, and months run over.\<close>

definition utc_day :: "int \<Rightarrow> int \<Rightarrow> int \<Rightarrow> int" where
  "utc_day y m d =
     (let y1 = (if 0 \<le> y \<and> y \<le> 99 then 1900 + y else y); ym = y1 + m div 12; mn = m mod 12;
          ys = (if mn < 2 then ym - 1 else ym); era = ys div 400; yoe = ys mod 400; mp = (mn + 10) mod 12;
          doy = (153 * mp + 2) div 5 + d - 1 in
      era * 146097 + yoe * 365 + yoe div 4 - yoe div 100 + doy - 719468)"

definition format_date :: "int \<Rightarrow> string" where
  "format_date day = take 10 (iso_string (day * DAY_LENGTH_MS))"

definition invalid_key :: "string \<Rightarrow> err" where "invalid_key field = bad_request field"

definition checked_date :: "int \<Rightarrow> int \<Rightarrow> int \<Rightarrow> string \<Rightarrow> err + int" where
  "checked_date y m d field =
     (if civil (utc_day y (m - 1) d) = (y, m, d) then Inr (utc_day y (m - 1) d) else Inl (invalid_key field))"

text \<open>\<open>yyyy-MM-dd\<close> and \<open>yyyy-MM\<close>, split at the dashes.\<close>

definition all_digits :: "nat \<Rightarrow> string \<Rightarrow> bool" where
  "all_digits n s \<longleftrightarrow> length s = n \<and> list_all is_digit s"

definition day_key :: "string \<Rightarrow> (int \<times> int \<times> int) option" where
  "day_key raw =
     (let y = take 4 raw; m = take 2 (drop 5 raw); d = drop 8 raw in
      if all_digits 4 y \<and> all_digits 2 m \<and> all_digits 2 d \<and> take 1 (drop 4 raw) = ''-'' \<and> take 1 (drop 7 raw) = ''-''
      then Some (int (digits_val y), int (digits_val m), int (digits_val d)) else None)"

definition month_key :: "string \<Rightarrow> (int \<times> int) option" where
  "month_key raw =
     (let y = take 4 raw; m = drop 5 raw in
      if all_digits 4 y \<and> all_digits 2 m \<and> take 1 (drop 4 raw) = ''-'' then Some (int (digits_val y), int (digits_val m)) else None)"

definition parse_key :: "string \<Rightarrow> string \<Rightarrow> err + string \<times> string" where
  "parse_key raw field =
     (case day_key raw of
        Some (y, m, d) \<Rightarrow> e_bind (checked_date y m d field) (\<lambda>day. Inr (raw, format_date (day + 1)))
      | None \<Rightarrow> (case month_key raw of
          Some (y, m) \<Rightarrow>
            if m < 1 \<or> 12 < m then Inl (invalid_key field)
            else e_bind (checked_date y m 1 field) (\<lambda>day. Inr (format_date day, format_date (utc_day y m 1)))
        | None \<Rightarrow> Inl (invalid_key field)))"

definition optional_key :: "string option \<Rightarrow> string \<Rightarrow> err + (string \<times> string) option" where
  "optional_key raw field =
     (case raw of None \<Rightarrow> Inr None
      | Some t \<Rightarrow> if t = [] then Inr None else e_bind (parse_key t field) (\<lambda>k. Inr (Some k)))"

record date_range =
  dr_from :: "string option"
  dr_to_exclusive :: "string option"

definition report_date_range :: "string option \<Rightarrow> string option \<Rightarrow> err + date_range" where
  "report_date_range from_raw to_raw =
     e_bind (optional_key from_raw ''from'') (\<lambda>f.
     e_bind (optional_key to_raw ''to'') (\<lambda>t.
     let a = map_option fst f; b = map_option snd t in
     if (case (a, b) of (Some x, Some y) \<Rightarrow> \<not> x < y | _ \<Rightarrow> False) then Inl (bad_request ''from'')
     else Inr \<lparr>dr_from = a, dr_to_exclusive = b\<rparr>))"

section \<open>Bounds, and the bills that count\<close>

text \<open>The instants of the range: open to a side without a day, and nothing at all without a shop.\<close>

record report_bounds =
  rb_from :: "int option"
  rb_to :: "int option"

definition bounds_in :: "(string \<Rightarrow> string \<Rightarrow> int option) \<Rightarrow> date_range \<Rightarrow> report_bounds option op" where
  "bounds_in midnight dr =
     tx_bind (tx_get tenant_tz) (\<lambda>tz.
     case tz of
       None \<Rightarrow> tx_ret None
     | Some z \<Rightarrow>
         let a = map_option (midnight z) (dr_from dr); b = map_option (midnight z) (dr_to_exclusive dr) in
         tx_bind (tx_guard (a \<noteq> Some None \<and> b \<noteq> Some None) (DbErr ''22007'' [])) (\<lambda>_.
         tx_ret (Some \<lparr>rb_from = Option.bind a id, rb_to = Option.bind b id\<rparr>)))"

definition falls_in :: "report_bounds option \<Rightarrow> int \<Rightarrow> bool" where
  "falls_in b t = (case b of None \<Rightarrow> False
     | Some b \<Rightarrow> (case rb_from b of None \<Rightarrow> True | Some f \<Rightarrow> f \<le> t) \<and> (case rb_to b of None \<Rightarrow> True | Some u \<Rightarrow> t < u))"

definition gp_sales :: "db \<Rightarrow> (sale \<Rightarrow> bool) \<Rightarrow> sale list" where
  "gp_sales s scope = filter (\<lambda>b. scope b \<and> counted_sale s b) (sales s)"

definition gp_returns :: "db \<Rightarrow> (credit_note \<Rightarrow> bool) \<Rightarrow> credit_note list" where
  "gp_returns s scope = filter scope (returns s)"

section \<open>Gross profit\<close>

text \<open>A line of either sign: quantity, the cost kept with it, and today's cost of its product.\<close>

type_synonym gp_line = "int \<times> int option \<times> int option"

definition current_cost :: "db \<Rightarrow> uuid \<Rightarrow> int option" where
  "current_cost s i = map_option p_cost (row_of p_id i (products s))"

definition gp_lines :: "db \<Rightarrow> (sale \<Rightarrow> bool) \<Rightarrow> (credit_note \<Rightarrow> bool) \<Rightarrow> gp_line list" where
  "gp_lines s sale_scope return_scope =
     concat (map (\<lambda>b. map (\<lambda>l. (si_qty l, si_cost_at_sale l, current_cost s (si_product_id l)))
       (filter (\<lambda>l. si_sale_id l = s_id b) (sale_items s))) (gp_sales s sale_scope)) @
     concat (map (\<lambda>r. map (\<lambda>l. (- ri_qty l, ri_cost_at_sale l, current_cost s (ri_product_id l)))
       (filter (\<lambda>l. ri_return_id l = r_id r) (return_items s))) (gp_returns s return_scope))"

definition line_cost :: "gp_line \<Rightarrow> int" where
  "line_cost l = (case l of (q, c, p) \<Rightarrow> q * (case c of Some n \<Rightarrow> n | None \<Rightarrow> (case p of Some n \<Rightarrow> n | None \<Rightarrow> 0)))"

text \<open>Postgres's \<open>round(a / b)\<close> for numerics: halves away from zero.\<close>

definition round_half_away :: "int \<Rightarrow> int \<Rightarrow> int" where
  "round_half_away a b = (if 0 \<le> a then (2 * a + b) div (2 * b) else - ((- 2 * a + b) div (2 * b)))"

definition numeric_20_2 :: "int \<Rightarrow> unit op" where
  "numeric_20_2 n = tx_guard (\<bar>n\<bar> < 10 ^ 20) (DbErr ''22003'' [])"

definition report_tax_rate :: "db \<Rightarrow> int" where
  "report_tax_rate s = (case settings s of None \<Rightarrow> 700 | Some r \<Rightarrow> st_tax_rate r)"

text \<open>Revenue without the tax, less the cost, in satang: one division, rounded once.\<close>

definition gross_profit_of :: "int \<Rightarrow> int \<Rightarrow> int \<Rightarrow> int" where
  "gross_profit_of revenue cost rate = round_half_away (revenue * 10000 - cost * (10000 + rate)) (10000 + rate)"

record gross_profit =
  gp_profit :: int
  gp_estimated :: nat
  gp_unknown :: nat

definition gross_profit_in :: "(sale \<Rightarrow> bool) \<Rightarrow> (credit_note \<Rightarrow> bool) \<Rightarrow> gross_profit op" where
  "gross_profit_in sale_scope return_scope =
     tx_bind (tx_get id) (\<lambda>s.
     let lines = gp_lines s sale_scope return_scope;
         revenue = sum_by s_total (gp_sales s sale_scope) - sum_by r_refund_total (gp_returns s return_scope);
         profit = gross_profit_of revenue (sum_by line_cost lines) (report_tax_rate s) in
     tx_bind (numeric_20_2 profit) (\<lambda>_.
     tx_ret \<lparr>gp_profit = profit,
       gp_estimated = length (filter (\<lambda>(q, c, p). c = None \<and> p \<noteq> None) lines),
       gp_unknown = length (filter (\<lambda>(q, c, p). c = None \<and> p = None) lines)\<rparr>))"

section \<open>The summary\<close>

record report_summary =
  rs_total_revenue :: int
  rs_total_transactions :: nat
  rs_avg_ticket :: int
  rs_total_refunds :: int
  rs_net_revenue :: int
  rs_total_items :: int
  rs_profit :: gross_profit

definition average_ticket :: "int \<Rightarrow> nat \<Rightarrow> int" where
  "average_ticket net n = (if n = 0 then 0 else 100 * round_half_away net (100 * int n))"

definition line_qty :: "gp_line \<Rightarrow> int" where "line_qty l = fst l"

definition summary_in :: "(string \<Rightarrow> string \<Rightarrow> int option) \<Rightarrow> date_range \<Rightarrow> report_summary op" where
  "summary_in midnight dr =
     tx_bind (bounds_in midnight dr) (\<lambda>b.
     tx_bind (tx_get id) (\<lambda>s.
     let in_sale = (\<lambda>x. falls_in b (s_date x)); in_return = (\<lambda>x. falls_in b (r_date x));
         revenue = sum_by s_total (gp_sales s in_sale); refunds = sum_by r_refund_total (gp_returns s in_return);
         n = length (gp_sales s in_sale); items = sum_by line_qty (gp_lines s in_sale in_return) in
     tx_bind (gross_profit_in in_sale in_return) (\<lambda>gp.
     tx_bind (int4 items) (\<lambda>_.
     tx_ret \<lparr>rs_total_revenue = revenue, rs_total_transactions = n, rs_avg_ticket = average_ticket (revenue - refunds) n,
       rs_total_refunds = refunds, rs_net_revenue = revenue - refunds, rs_total_items = items, rs_profit = gp\<rparr>))))"

section \<open>The closing report\<close>

record closing_report =
  cl_shift :: shift
  cl_cash_sales :: int
  cl_cash_credit_payments :: int
  cl_cash_refunds :: int
  cl_drawer_in :: int
  cl_drawer_out :: int
  cl_expected :: int
  cl_physical :: "int option"
  cl_variance :: "int option"
  cl_profit :: gross_profit

definition closing_in :: "uuid \<Rightarrow> closing_report op" where
  "closing_in i =
     tx_bind (tx_get id) (\<lambda>s.
     case row_of sh_id i (shifts s) of
       None \<Rightarrow> tx_throw (HttpErr 404 ''SHIFT_NOT_FOUND'' NoDetail)
     | Some r \<Rightarrow>
         tx_bind (gross_profit_in (\<lambda>b. s_shift_id b = Some i) (\<lambda>n. r_shift_id n = Some i)) (\<lambda>gp.
         let counted = (if sh_closed_at r = None then None else sh_physical_cash r) in
         tx_ret \<lparr>cl_shift = r, cl_cash_sales = cash_sales s i, cl_cash_credit_payments = cash_credit_payments s i,
           cl_cash_refunds = cash_refunds s i, cl_drawer_in = drawer_flow Flow_In s i, cl_drawer_out = drawer_flow Flow_Out s i,
           cl_expected = expected_cash s i, cl_physical = counted,
           cl_variance = map_option (\<lambda>n. n - expected_cash s i) counted, cl_profit = gp\<rparr>))"

section \<open>What was sold\<close>

record item_event =
  ev_product_id :: uuid
  ev_part_no :: "string option"
  ev_name :: string
  ev_qty :: int
  ev_revenue :: int

definition sale_events :: "db \<Rightarrow> report_bounds option \<Rightarrow> item_event list" where
  "sale_events s b =
     concat (map (\<lambda>x. map (\<lambda>l. \<lparr>ev_product_id = si_product_id l, ev_part_no = si_part_no l, ev_name = si_name l, ev_qty = si_qty l,
        ev_revenue = si_qty l * si_price l\<rparr>) (filter (\<lambda>l. si_sale_id l = s_id x) (sale_items s)))
       (gp_sales s (\<lambda>x. falls_in b (s_date x))))"

text \<open>The first line of the bill with the product at that price.\<close>

definition sold_line :: "db \<Rightarrow> credit_note \<Rightarrow> return_item \<Rightarrow> sale_item option" where
  "sold_line s r l =
     (case sort_key si_line_no (filter (\<lambda>x. si_sale_id x = r_sale_id r \<and> si_product_id x = ri_product_id l \<and> si_price x = ri_price l)
             (sale_items s)) of [] \<Rightarrow> None | x # _ \<Rightarrow> Some x)"

definition return_events :: "db \<Rightarrow> report_bounds option \<Rightarrow> item_event list" where
  "return_events s b =
     concat (map (\<lambda>r. map (\<lambda>l. \<lparr>ev_product_id = ri_product_id l, ev_part_no = Option.bind (sold_line s r l) si_part_no,
        ev_name = (case sold_line s r l of None \<Rightarrow> ri_name l | Some x \<Rightarrow> si_name x), ev_qty = - ri_qty l,
        ev_revenue = - (ri_qty l * ri_price l)\<rparr>) (filter (\<lambda>l. ri_return_id l = r_id r) (return_items s)))
       (gp_returns s (\<lambda>r. falls_in b (r_date r))))"

definition item_events :: "db \<Rightarrow> report_bounds option \<Rightarrow> item_event list" where
  "item_events s b = sale_events s b @ return_events s b"

text \<open>\<open>GROUP BY\<close> a key, without the groups that came to nothing.\<close>

definition groups_of :: "(item_event \<Rightarrow> 'k) \<Rightarrow> item_event list \<Rightarrow> 'k list" where
  "groups_of key evs =
     filter (\<lambda>k. sum_by ev_qty (filter (\<lambda>x. key x = k) evs) \<noteq> 0 \<or> sum_by ev_revenue (filter (\<lambda>x. key x = k) evs) \<noteq> 0)
       (remdups (map key evs))"

fun greatest :: "string list \<Rightarrow> string option" where
  "greatest [] = None"
| "greatest (x # xs) = (case greatest xs of None \<Rightarrow> Some x | Some y \<Rightarrow> Some (max x y))"

record product_sales =
  ps_product_id :: uuid
  ps_part_no :: string
  ps_name :: string
  ps_qty :: int
  ps_revenue :: int

definition either :: "'a option \<Rightarrow> 'a option \<Rightarrow> 'a \<Rightarrow> 'a" where
  "either a b c = (case a of Some x \<Rightarrow> x | None \<Rightarrow> (case b of Some y \<Rightarrow> y | None \<Rightarrow> c))"

definition to_product_sales :: "db \<Rightarrow> item_event list \<Rightarrow> uuid \<Rightarrow> product_sales" where
  "to_product_sales s evs i =
     (let mine = filter (\<lambda>x. ev_product_id x = i) evs; p = row_of p_id i (products s) in
      \<lparr>ps_product_id = i,
       ps_part_no = either (greatest (List.map_filter ev_part_no mine)) (map_option p_part_no p) i,
       ps_name = either (greatest (map ev_name mine)) (map_option p_name p) i,
       ps_qty = sum_by ev_qty mine, ps_revenue = sum_by ev_revenue mine\<rparr>)"

definition report_row_fits :: "int \<Rightarrow> int \<Rightarrow> unit op" where
  "report_row_fits q n = tx_bind (int4 q) (\<lambda>_. numeric_20_2 n)"

definition top_products_in :: "(string \<Rightarrow> string \<Rightarrow> int option) \<Rightarrow> date_range \<Rightarrow> nat \<Rightarrow> product_sales list op" where
  "top_products_in midnight dr limit =
     tx_bind (bounds_in midnight dr) (\<lambda>b.
     tx_bind (tx_get id) (\<lambda>s.
     let evs = item_events s b; rows = map (to_product_sales s evs) (groups_of ev_product_id evs) in
     tx_bind (tx_iter (\<lambda>r. report_row_fits (ps_qty r) (ps_revenue r)) rows) (\<lambda>_.
     tx_ret (take limit (sort_key (\<lambda>r. - ps_qty r) (sort_key (\<lambda>r. - ps_revenue r) (sort_key ps_product_id rows)))))))"

record category_sales =
  cs_category :: string
  cs_qty :: int
  cs_revenue :: int

definition other_text :: string where
  "other_text = map char_of [224, 184, 173, 224, 184, 183, 224, 185, 136, 224, 184, 153, 224, 185, 134 :: nat]"

definition event_category :: "db \<Rightarrow> item_event \<Rightarrow> string" where
  "event_category s x =
     (case row_of p_id (ev_product_id x) (products s) of
        None \<Rightarrow> other_text
      | Some p \<Rightarrow> if p_deleted p \<or> p_category p = [] then other_text else p_category p)"

definition to_category_sales :: "db \<Rightarrow> item_event list \<Rightarrow> string \<Rightarrow> category_sales" where
  "to_category_sales s evs k =
     (let mine = filter (\<lambda>x. event_category s x = k) evs in
      \<lparr>cs_category = k, cs_qty = sum_by ev_qty mine, cs_revenue = sum_by ev_revenue mine\<rparr>)"

definition by_category_in :: "(string \<Rightarrow> string \<Rightarrow> int option) \<Rightarrow> date_range \<Rightarrow> category_sales list op" where
  "by_category_in midnight dr =
     tx_bind (bounds_in midnight dr) (\<lambda>b.
     tx_bind (tx_get id) (\<lambda>s.
     let evs = item_events s b; rows = map (to_category_sales s evs) (groups_of (event_category s) evs) in
     tx_bind (tx_iter (\<lambda>r. report_row_fits (cs_qty r) (cs_revenue r)) rows) (\<lambda>_.
     tx_ret (sort_key (\<lambda>r. - cs_revenue r) (sort_key cs_category rows)))))"

definition product_sales_in :: "(string \<Rightarrow> string \<Rightarrow> int option) \<Rightarrow> uuid \<Rightarrow> date_range \<Rightarrow> product_sales op" where
  "product_sales_in midnight i dr =
     tx_bind (bounds_in midnight dr) (\<lambda>b.
     tx_bind (tx_get id) (\<lambda>s.
     let r = to_product_sales s (item_events s b) i in
     tx_bind (report_row_fits (ps_qty r) (ps_revenue r)) (\<lambda>_. tx_ret r)))"

section \<open>The stock\<close>

record stock_value =
  sv_products :: nat
  sv_units :: int
  sv_value :: int

definition stock_value_in :: "stock_value op" where
  "stock_value_in =
     tx_bind (tx_get (\<lambda>s. filter (\<lambda>p. \<not> p_deleted p) (products s))) (\<lambda>ps.
     let units = sum_by p_stock ps; worth = sum_by (\<lambda>p. p_stock p * p_cost p) ps in
     tx_bind (report_row_fits units worth) (\<lambda>_. tx_ret \<lparr>sv_products = length ps, sv_units = units, sv_value = worth\<rparr>))"

definition low_stock_in :: "int \<Rightarrow> int \<Rightarrow> (product list \<times> nat) op" where
  "low_stock_in page limit = tx_get (\<lambda>s.
     let low = filter (\<lambda>p. \<not> p_deleted p \<and> p_stock p \<le> p_min_stock p) (products s) in
     (page_of page limit (sort_key (\<lambda>p. p_stock p \<noteq> 0) (sort_key p_stock (sort_key p_part_no (sort_key p_id low)))), length low))"

section \<open>Facts\<close>

lemma sum_nonzero_groups:
  assumes "\<And>k. k \<in> set ks \<Longrightarrow> \<not> keep k \<Longrightarrow> g k = (0 :: int)"
  shows "sum_list (map g (filter keep ks)) = sum_list (map g ks)"
  using assms by (induction ks) auto

lemma groups_add_up:
  assumes "f = ev_qty \<or> f = ev_revenue"
  shows "sum_list (map (\<lambda>k. sum_by f (filter (\<lambda>x. key x = k) evs)) (groups_of key evs)) = sum_by f evs"
proof -
  have "sum_list (map (\<lambda>k. sum_by f (filter (\<lambda>x. key x = k) evs)) (groups_of key evs)) =
    sum_list (map (\<lambda>k. sum_by f (filter (\<lambda>x. key x = k) evs)) (remdups (map key evs)))"
    unfolding groups_of_def using assms by (intro sum_nonzero_groups) auto
  also have "\<dots> = sum_by f evs" by (rule sum_by_groups) simp_all
  finally show ?thesis .
qed

lemma events_qty:
  "sum_by ev_qty (item_events s b) = sum_by line_qty (gp_lines s (\<lambda>x. falls_in b (s_date x)) (\<lambda>r. falls_in b (r_date r)))"
  by (simp add: item_events_def sale_events_def return_events_def gp_lines_def line_qty_def map_concat comp_def)

lemma summary_in_items:
  "summary_in midnight dr s = Inr (r, s') \<Longrightarrow>
     \<exists>b. bounds_in midnight dr s = Inr (b, s) \<and> rs_total_items r = sum_by ev_qty (item_events s b)"
  unfolding summary_in_def bounds_in_def events_qty
  by (auto simp: Let_def gross_profit_in_def split: option.splits)

lemma tx_iter_fits: "tx_iter (\<lambda>r. report_row_fits (f r) (g r)) rows s = Inr (u, s') \<Longrightarrow> s' = s"
  by (induction rows) (auto simp: report_row_fits_def int4_def numeric_20_2_def)

lemma sum_by_sort [simp]: "sum_by f (sort_key k xs) = sum_by f xs"
  by (metis mset_map mset_sort sum_mset_sum_list)

lemma top_products_in_Inr:
  assumes "top_products_in midnight dr limit s = Inr (tops, s')" "length tops < limit" "f = ps_qty \<and> g = ev_qty \<or> f = ps_revenue \<and> g = ev_revenue"
  shows "\<exists>b. bounds_in midnight dr s = Inr (b, s) \<and> sum_by f tops = sum_by g (item_events s b)"
proof -
  obtain b where b: "bounds_in midnight dr s = Inr (b, s)"
    and tops: "tops = take limit (sort_key (\<lambda>r. - ps_qty r) (sort_key (\<lambda>r. - ps_revenue r) (sort_key ps_product_id
      (map (to_product_sales s (item_events s b)) (groups_of ev_product_id (item_events s b))))))"
    using assms(1) unfolding top_products_in_def Let_def bounds_in_def
    by (auto dest!: tx_iter_fits split: option.splits)
  have "sum_by f tops = sum_by f (map (to_product_sales s (item_events s b)) (groups_of ev_product_id (item_events s b)))"
    using assms(2) unfolding tops by (simp add: min_def del: sort_key_simps split: if_splits)
  also have "\<dots> = sum_by g (item_events s b)"
    using groups_add_up [of g ev_product_id "item_events s b"] assms(3) by (auto simp: to_product_sales_def Let_def comp_def)
  finally show ?thesis using b by blast
qed

lemma by_category_in_Inr:
  assumes "by_category_in midnight dr s = Inr (cats, s')" "f = cs_qty \<and> g = ev_qty \<or> f = cs_revenue \<and> g = ev_revenue"
  shows "\<exists>b. bounds_in midnight dr s = Inr (b, s) \<and> sum_by f cats = sum_by g (item_events s b)"
proof -
  obtain b where b: "bounds_in midnight dr s = Inr (b, s)"
    and cats: "cats = sort_key (\<lambda>r. - cs_revenue r) (sort_key cs_category
      (map (to_category_sales s (item_events s b)) (groups_of (event_category s) (item_events s b))))"
    using assms(1) unfolding by_category_in_def Let_def bounds_in_def
    by (auto dest!: tx_iter_fits split: option.splits)
  have "sum_by f cats = sum_by g (item_events s b)"
    using groups_add_up [of g "event_category s" "item_events s b"] assms(2)
    by (auto simp: cats to_category_sales_def Let_def comp_def)
  then show ?thesis using b by blast
qed

text \<open>Rounding is to the nearest satang.\<close>

lemma round_half_away_near:
  assumes "0 < b"
  shows "\<bar>2 * (round_half_away a b * b - a)\<bar> \<le> b"
proof -
  have "\<bar>2 * ((2 * n + b) div (2 * b) * b - n)\<bar> \<le> b" for n
  proof -
    let ?q = "(2 * n + b) div (2 * b)" and ?m = "(2 * n + b) mod (2 * b)"
    have "2 * (?q * b) + ?m = 2 * n + b" using div_mult_mod_eq [of "2 * n + b" "2 * b"] by (simp add: algebra_simps)
    moreover have "0 \<le> ?m" "?m < 2 * b" using assms by simp_all
    ultimately show ?thesis unfolding right_diff_distrib by linarith
  qed
  note near = this
  show ?thesis
  proof (cases "0 \<le> a")
    case True
    then show ?thesis using near [of a] by (simp only: round_half_away_def if_True)
  next
    case False
    have "2 * (- ((- 2 * a + b) div (2 * b)) * b - a) = - (2 * ((2 * - a + b) div (2 * b) * b - - a))" by simp
    then show ?thesis using near [of "- a"] False by (simp only: round_half_away_def if_False abs_minus_cancel)
  qed
qed

section \<open>Properties\<close>

text \<open>
  C30. The reports of one range agree: the quantities of the categories add up to the summary's item count, and those of
  the products too when the list is not cut at its limit; and the revenues of the categories and of the products add
  up to the same. No event is counted twice or left out, whatever bills and credit notes are on file.
\<close>

theorem reports_agree:
  assumes "summary_in midnight dr s = Inr (r, s1)" "by_category_in midnight dr s = Inr (cats, s2)"
    "top_products_in midnight dr limit s = Inr (tops, s3)" "length tops < limit"
  shows "sum_by cs_qty cats = rs_total_items r \<and> sum_by ps_qty tops = rs_total_items r \<and>
    sum_by cs_revenue cats = sum_by ps_revenue tops"
  using summary_in_items [OF assms(1)] by_category_in_Inr [OF assms(2), of cs_qty ev_qty]
    by_category_in_Inr [OF assms(2), of cs_revenue ev_revenue] top_products_in_Inr [OF assms(3,4), of ps_qty ev_qty]
    top_products_in_Inr [OF assms(3,4), of ps_revenue ev_revenue]
  by auto

definition reported_shop :: db where
  "reported_shop = blank_db\<lparr>
     products := [\<lparr>p_id = ''p'', p_part_no = ''P1'', p_name = ''Plug'', p_cost = 5000, p_stock = 3, p_deleted = False, p_name_th = [],
       p_category = ''Spark'', p_brand = [], p_price = 9000, p_min_stock = 1, p_compat = None, p_image_key = None\<rparr>],
     sales := [\<lparr>s_id = ''b'', s_receipt_no = ''R1'', s_subtotal = 18000, s_discount = 0, s_total = 18000, s_payment_method = Cash_Method,
       s_customer_id = None, s_customer_name = None, s_mechanic_id = None, s_mechanic_name = None, s_mechanic_delta = None,
       s_points_granted = 0, s_date = 10, s_voided = False, s_voided_at = None, s_void_reason = None, s_shift_id = None,
       s_user_id = None, s_device_id = None, s_sold_offline = False, s_payment_account_id = None\<rparr>],
     sale_items := [\<lparr>si_sale_id = ''b'', si_line_no = 1, si_product_id = ''p'', si_part_no = Some ''P1'', si_name = ''Plug'', si_name_th = None,
       si_qty = 2, si_price = 9000, si_cost_at_sale = None\<rparr>]\<rparr>"

theorem reports_agree_witness:
  "\<exists>r cats tops s1 s2 s3. let dr = \<lparr>dr_from = None, dr_to_exclusive = None\<rparr> in
     summary_in (\<lambda>z d. None) dr reported_shop = Inr (r, s1) \<and> by_category_in (\<lambda>z d. None) dr reported_shop = Inr (cats, s2) \<and>
     top_products_in (\<lambda>z d. None) dr 10 reported_shop = Inr (tops, s3) \<and> sum_by cs_qty cats = 2 \<and> sum_by ps_qty tops = 2"
proof -
  let ?dr = "\<lparr>dr_from = None, dr_to_exclusive = None\<rparr>"
  let ?b = "Some \<lparr>rb_from = None, rb_to = None\<rparr>"
  let ?in = "\<lambda>x. falls_in ?b (s_date x)" and ?inr = "\<lambda>r. falls_in ?b (r_date r)"
  have gs: "sum_by s_total (gp_sales reported_shop ?in) = 18000" "gp_returns reported_shop ?inr = []"
    by (simp_all add: gp_sales_def gp_returns_def reported_shop_def falls_in_def counted_sale_def)
  have gl: "gp_lines reported_shop ?in ?inr = [(2, None, Some 5000)]"
    by (simp add: gp_lines_def gp_sales_def gp_returns_def reported_shop_def falls_in_def counted_sale_def current_cost_def)
  have tz: "bounds_in (\<lambda>z d. None) ?dr reported_shop = Inr (?b, reported_shop)" "settings reported_shop = None"
    by (simp_all add: bounds_in_def reported_shop_def)
  have gp: "\<exists>g. gross_profit_in ?in ?inr reported_shop = Inr (g, reported_shop)"
    by (simp add: gross_profit_in_def gs gl line_cost_def report_tax_rate_def tz gross_profit_of_def round_half_away_def numeric_20_2_def Let_def)
  have sums: "\<exists>r s1. summary_in (\<lambda>z d. None) ?dr reported_shop = Inr (r, s1) \<and> rs_total_items r = 2"
    using gp by (auto simp: summary_in_def tz gl line_qty_def int4_def INT4_MAX_def Let_def)
  have evs: "item_events reported_shop (Some \<lparr>rb_from = None, rb_to = None\<rparr>) =
      [\<lparr>ev_product_id = ''p'', ev_part_no = Some ''P1'', ev_name = ''Plug'', ev_qty = 2, ev_revenue = 18000\<rparr>]"
    by (simp add: item_events_def sale_events_def return_events_def gp_sales_def gp_returns_def reported_shop_def falls_in_def counted_sale_def)
  have cat: "\<exists>cats s2. by_category_in (\<lambda>z d. None) ?dr reported_shop = Inr (cats, s2)"
    by (simp add: by_category_in_def tz evs groups_of_def to_category_sales_def report_row_fits_def int4_def INT4_MAX_def
        numeric_20_2_def tx_guard_def Let_def)
  have top: "\<exists>tops s3. top_products_in (\<lambda>z d. None) ?dr 10 reported_shop = Inr (tops, s3) \<and> length tops < 10"
    by (simp add: top_products_in_def tz evs groups_of_def to_product_sales_def report_row_fits_def int4_def INT4_MAX_def
        numeric_20_2_def tx_guard_def Let_def)
  obtain r s1 cats s2 tops s3 where run: "summary_in (\<lambda>z d. None) ?dr reported_shop = Inr (r, s1)" "rs_total_items r = 2"
    "by_category_in (\<lambda>z d. None) ?dr reported_shop = Inr (cats, s2)"
    "top_products_in (\<lambda>z d. None) ?dr 10 reported_shop = Inr (tops, s3)" "length tops < 10"
    using sums cat top by auto
  from reports_agree [OF run(1,3-5)] show ?thesis using run by (metis (no_types, lifting))
qed

end
