(* ===== verification/Platform.thy ===== *)
theory Platform
  imports Devices Auth_Account Catalogue
begin

text \<open>
  What the platform's administrators do to shops (\<open>platform/platform-tenants.service.ts\<close>,
  \<open>platform/platform-tenants.controller.ts\<close>, \<open>platform/audit.service.ts\<close>): open a shop, give its owner a
  temporary password, suspend and close it, hand out a new enrolment code and replace a lost device; and the
  status of a shop that the guard of every request keeps in Redis. A shop is its database of
  \<open>Schema\<close> under its tenant id; the rows of \<open>audit_log\<close> an administrator causes carry his id and are kept
  beside. Random bytes, SHA-256, argon2 and the ids Postgres draws are parameters; the address of the caller in an
  audit row is left out.
\<close>

section \<open>The state\<close>

record tenant =
  tn_id :: uuid
  tn_code :: string
  tn_plan :: string
  tn_created_at :: int

record platform_audit =
  pl_tenant :: uuid
  pl_admin :: uuid
  pl_action :: string
  pl_entity :: "string option"
  pl_entity_id :: "string option"
  pl_before :: "jsval option"
  pl_after :: "jsval option"

record platform =
  pf_tenants :: "tenant list"
  pf_shops :: shops
  pf_audit :: "platform_audit list"
  pf_status :: "uuid \<rightharpoonup> string"

type_synonym 'a platform_op = "(platform, err, 'a) tx"

definition PLATFORM_AUDIT_TENANT_ID :: uuid where
  "PLATFORM_AUDIT_TENANT_ID = ''00000000-0000-0000-0000-000000000000''"

definition log_platform :: "platform_audit \<Rightarrow> unit platform_op" where
  "log_platform r = tx_modify (\<lambda>p. p\<lparr>pf_audit := pf_audit p @ [r]\<rparr>)"

definition tenant_audit :: "uuid \<Rightarrow> uuid \<Rightarrow> string \<Rightarrow> (string \<times> uuid) option \<Rightarrow> (string \<times> jsval) list option \<Rightarrow> platform_audit" where
  "tenant_audit t admin action entity after = \<lparr>pl_tenant = t, pl_admin = admin, pl_action = action,
     pl_entity = map_option fst entity, pl_entity_id = map_option snd entity, pl_before = None, pl_after = map_option JObj after\<rparr>"

definition read_not_found :: "string \<Rightarrow> uuid \<Rightarrow> uuid \<Rightarrow> platform_audit" where
  "read_not_found action requested admin =
     tenant_audit PLATFORM_AUDIT_TENANT_ID admin action (Some (''tenants'', requested)) (Some [(''outcome'', JStr ''not_found'')])"

text \<open>Statements on the tables of one shop; where there is no such shop they find no row, which is \<open>missing\<close>.\<close>

definition on_shop :: "uuid \<Rightarrow> err \<Rightarrow> 'a op \<Rightarrow> 'a platform_op" where
  "on_shop t missing f = (\<lambda>p. case map_of (pf_shops p) t of
       None \<Rightarrow> Inl missing
     | Some s \<Rightarrow> (case f s of Inl e \<Rightarrow> Inl e | Inr (x, s') \<Rightarrow> Inr (x, p\<lparr>pf_shops := put_shop t s' (pf_shops p)\<rparr>)))"

definition tenant_not_found :: "uuid \<Rightarrow> err" where
  "tenant_not_found t = HttpErr 404 ''NOT_FOUND'' (Reason (''Tenant '' @ t @ '' not found''))"

section \<open>A new shop\<close>

text \<open>
  The body, with texts where the code expects texts (they are not checked: anything else goes to the driver);
  \<open>ct_owner_password\<close> says whether the body has a member \<open>ownerPassword\<close>.
\<close>

record create_tenant_dto =
  ct_code :: "string option"
  ct_shop_name :: "string option"
  ct_shop_name_en :: "string option"
  ct_plan :: "string option"
  ct_timezone :: "string option"
  ct_owner_username :: "string option"
  ct_owner_display_name :: "string option"
  ct_owner_password :: bool

text \<open>What is drawn for it: ids, the enrolment code, the rolls of the password; SHA-256 and argon2.\<close>

record provisioning =
  pv_tenant :: uuid
  pv_user :: uuid
  pv_device :: uuid
  pv_code :: string
  pv_roll :: "nat \<Rightarrow> nat"
  pv_sha :: "string \<Rightarrow> string"
  pv_hash :: "string \<Rightarrow> string"

record new_tenant =
  nt_id :: uuid
  nt_code :: string
  nt_shop_name :: string
  nt_owner_username :: string
  nt_temp_password :: string
  nt_temp_expires_at :: int
  nt_enrol_code :: string

definition HOUR_MS :: int where "HOUR_MS = 3600000"
definition CREATE_TEMP_PASSWORD_TTL_HOURS :: int where "CREATE_TEMP_PASSWORD_TTL_HOURS = 7 * 24"
definition RESET_TEMP_PASSWORD_TTL_HOURS :: int where "RESET_TEMP_PASSWORD_TTL_HOURS = 24"
definition REISSUE_ENROL_CODE_TTL_DAYS :: int where "REISSUE_ENROL_CODE_TTL_DAYS = 7"

definition filled :: "string option \<Rightarrow> string option" where
  "filled x = (case x of None \<Rightarrow> None | Some s \<Rightarrow> if s = [] then None else Some s)"

definition given_text :: "string \<Rightarrow> string option \<Rightarrow> string" where
  "given_text d x = (case x of None \<Rightarrow> d | Some s \<Rightarrow> s)"

definition owner_row :: "env \<Rightarrow> provisioning \<Rightarrow> string \<Rightarrow> string option \<Rightarrow> shop_user" where
  "owner_row e pv name shown = \<lparr>us_id = pv_user pv, us_username = name, us_password_hash = pv_hash pv (generate_temp_password (pv_roll pv)),
     us_role = ''owner'', us_display_name = given_text name (filled shown), us_is_active = True, us_must_change_password = True,
     us_temp_password_expires_at = Some (now e + CREATE_TEMP_PASSWORD_TTL_HOURS * HOUR_MS), us_password_changed_at = None\<rparr>"

definition first_device :: "env \<Rightarrow> provisioning \<Rightarrow> device" where
  "first_device e pv = \<lparr>d_id = pv_device pv, d_no = 1, d_label = ''POS #1'', d_role = Pos_Device, d_retired_at = None, d_token_hash = None,
     d_enrol_code_hash = Some (pv_sha pv (pv_code pv)), d_enrol_expires_at = Some (js_now e + 7 * 86400 * 1000),
     d_last_seen_at = None, d_unsynced_ops = 0, d_unsynced_reported_at = None\<rparr>"

definition seeded_categories :: "category list" where
  "seeded_categories = map (\<lambda>i. \<lparr>cat_name = SEED_CATEGORIES ! i, cat_position = int i\<rparr>) [0..<length SEED_CATEGORIES]"

text \<open>The rows of the new shop. It has its own tenant id, so that none of them can meet another.\<close>

definition new_shop :: "env \<Rightarrow> provisioning \<Rightarrow> string \<times> string \<Rightarrow> string \<Rightarrow> string \<Rightarrow> string option \<Rightarrow> db" where
  "new_shop e pv names tz owner shown = blank_db\<lparr>tenant_names := names, tenant_tz := Some tz, users := [owner_row e pv owner shown],
     settings := Some \<lparr>st_shop_name = fst names, st_shop_name_en = snd names, st_tax_rate = 700, st_quote_valid_days = 30,
       st_address = None, st_phone = None, st_cashier_name = None, st_tax_id = None, st_branch_no = None, st_updated_at = now e\<rparr>,
     categories := seeded_categories, devices := [first_device e pv]\<rparr>"

definition PLANS :: "string list" where "PLANS = [''basic'', ''demo'', ''loadtest'']"

definition tenant_taken :: err where
  "tenant_taken = HttpErr 409 ''CONFLICT'' (Reason ''Tenant code or username already exists'')"

definition create_tenant :: "env \<Rightarrow> provisioning \<Rightarrow> uuid \<Rightarrow> create_tenant_dto \<Rightarrow> new_tenant platform_op" where
  "create_tenant e pv admin dto =
     (if ct_owner_password dto then tx_throw (HttpErr 400 ''OWNER_PASSWORD_NOT_ACCEPTED'' NoDetail)
      else case (filled (ct_code dto), filled (ct_shop_name dto), filled (ct_owner_username dto)) of
        (Some code, Some name, Some owner) \<Rightarrow>
          (let plan = given_text ''basic'' (ct_plan dto); tz = given_text ''Asia/Bangkok'' (ct_timezone dto);
               name_en = given_text [] (ct_shop_name_en dto); t = pv_tenant pv in
           tx_bind (tx_guard (plan \<in> set PLANS) (DbErr ''23514'' ''tenants_plan_check'')) (\<lambda>_.
           tx_bind (tx_get id) (\<lambda>p.
           tx_bind (tx_guard (\<not> has_key tn_id t (pf_tenants p) \<and> \<not> has_key tn_code code (pf_tenants p)) tenant_taken) (\<lambda>_.
           tx_bind (tx_modify (\<lambda>p. p\<lparr>
             pf_tenants := pf_tenants p @ [\<lparr>tn_id = t, tn_code = code, tn_plan = plan, tn_created_at = now e\<rparr>],
             pf_shops := pf_shops p @ [(t, new_shop e pv (name, name_en) tz owner (ct_owner_display_name dto))]\<rparr>)) (\<lambda>_.
           tx_bind (log_platform (tenant_audit t admin ''platform.tenant.create'' None (Some [(''code'', JStr code), (''shopName'', JStr name),
             (''plan'', JStr plan), (''timezone'', JStr tz)]))) (\<lambda>_.
           tx_ret \<lparr>nt_id = t, nt_code = code, nt_shop_name = name, nt_owner_username = owner,
             nt_temp_password = generate_temp_password (pv_roll pv),
             nt_temp_expires_at = now e + CREATE_TEMP_PASSWORD_TTL_HOURS * HOUR_MS, nt_enrol_code = pv_code pv\<rparr>))))))
      | _ \<Rightarrow> tx_throw (bad_request ''code, shopName, and ownerUsername''))"

section \<open>A temporary password for the owner\<close>

definition on_temp_password :: "env \<Rightarrow> string \<Rightarrow> shop_user \<Rightarrow> shop_user" where
  "on_temp_password e hash u = u\<lparr>us_password_hash := hash, us_must_change_password := True,
     us_temp_password_expires_at := Some (now e + RESET_TEMP_PASSWORD_TTL_HOURS * HOUR_MS), us_password_changed_at := Some (now e)\<rparr>"

text \<open>A shop has at most one active user (\<open>uq_users_one_active\<close>); the answer is his row.\<close>

definition reset_owner :: "env \<Rightarrow> string \<Rightarrow> shop_user op" where
  "reset_owner e hash =
     tx_bind (tx_get (\<lambda>s. filter us_is_active (users s))) (\<lambda>us.
     case us of
       [] \<Rightarrow> tx_throw (HttpErr 404 ''OWNER_NOT_FOUND'' NoDetail)
     | u # _ \<Rightarrow>
         tx_bind (tx_modify (\<lambda>s. s\<lparr>users := upd_where us_is_active (on_temp_password e hash) (users s)\<rparr>)) (\<lambda>_.
         tx_ret (on_temp_password e hash u)))"

definition issue_owner_temp_password :: "env \<Rightarrow> (nat \<Rightarrow> nat) \<Rightarrow> (string \<Rightarrow> string) \<Rightarrow> string \<Rightarrow> uuid \<Rightarrow> (string \<times> string \<times> int) platform_op" where
  "issue_owner_temp_password e roll hash t admin =
     tx_bind (tx_lift (assert_valid_tenant_id (JStr t))) (\<lambda>_.
     let temp = generate_temp_password roll in
     tx_bind (on_shop t (tenant_not_found t) (reset_owner e (hash temp))) (\<lambda>u.
     let until = now e + RESET_TEMP_PASSWORD_TTL_HOURS * HOUR_MS in
     tx_bind (log_platform (tenant_audit t admin ''platform.owner.temp_password_issued'' (Some (''users'', us_id u))
       (Some [(''tempPasswordExpiresAt'', js_date until)]))) (\<lambda>_.
     tx_ret (us_username u, temp, until))))"

section \<open>Suspending and closing\<close>

definition STATUSES :: "string list" where "STATUSES = [''active'', ''suspended'', ''closed'']"

definition tenant_closed :: err where "tenant_closed = HttpErr 409 ''TENANT_CLOSED'' NoDetail"

definition set_status :: "string \<Rightarrow> unit op" where
  "set_status st =
     tx_bind (tx_get tenant_status) (\<lambda>old.
     tx_bind (tx_guard (old \<noteq> ''closed'') tenant_closed) (\<lambda>_.
     tx_modify (\<lambda>s. s\<lparr>tenant_status := st\<rparr>)))"

definition update_status :: "string \<Rightarrow> jsval \<Rightarrow> uuid \<Rightarrow> string platform_op" where
  "update_status t v admin =
     tx_bind (tx_lift (assert_valid_tenant_id (JStr t))) (\<lambda>_.
     case v of
       JStr st \<Rightarrow>
         if st \<in> set STATUSES
         then tx_bind (on_shop t (tenant_not_found t) (set_status st)) (\<lambda>_.
           tx_bind (log_platform (tenant_audit t admin ''platform.tenant.update_status'' None (Some [(''status'', JStr st)]))) (\<lambda>_.
           tx_ret st))
         else tx_throw (bad_request ''status'')
     | _ \<Rightarrow> tx_throw (bad_request ''status''))"

text \<open>After the commit the status is taken out of Redis; when Redis is down the request fails, and stays committed.\<close>

definition purge_status :: "uuid \<Rightarrow> platform \<Rightarrow> platform" where
  "purge_status t p = p\<lparr>pf_status := (pf_status p)(t := None)\<rparr>"

definition patch_status :: "bool \<Rightarrow> string \<Rightarrow> jsval \<Rightarrow> uuid \<Rightarrow> platform \<Rightarrow> (err + string) \<times> platform" where
  "patch_status up t v admin p =
     (case update_status t v admin p of
        Inl f \<Rightarrow> (Inl f, p)
      | Inr (st, p') \<Rightarrow> if up then (Inr st, purge_status t p') else (Inl (Fault ''Redis''), p'))"

section \<open>A new enrolment code\<close>

definition never_enrolled :: "uuid \<Rightarrow> device \<Rightarrow> bool" where
  "never_enrolled i d \<longleftrightarrow> d_id d = i \<and> d_token_hash d = None \<and> \<not> d_retired d"

definition recoded :: "env \<Rightarrow> string \<Rightarrow> device \<Rightarrow> device" where
  "recoded e hash d = d\<lparr>d_enrol_expires_at := Some (now e + REISSUE_ENROL_CODE_TTL_DAYS * DAY_LENGTH_MS), d_enrol_code_hash := Some hash\<rparr>"

definition device_not_found :: err where "device_not_found = HttpErr 404 ''DEVICE_NOT_FOUND'' NoDetail"

definition recode :: "env \<Rightarrow> string \<Rightarrow> uuid \<Rightarrow> unit op" where
  "recode e hash i =
     tx_bind (tx_get devices) (\<lambda>ds.
     if list_ex (never_enrolled i) ds
     then tx_modify (\<lambda>s. s\<lparr>devices := upd_where (never_enrolled i) (recoded e hash) (devices s)\<rparr>)
     else if has_key d_id i ds then tx_throw (HttpErr 409 ''DEVICE_ALREADY_ENROLLED'' NoDetail)
     else tx_throw device_not_found)"

definition reissue_enrol_code :: "env \<Rightarrow> (string \<Rightarrow> string) \<Rightarrow> string \<Rightarrow> string \<Rightarrow> uuid \<Rightarrow> uuid \<Rightarrow> (string \<times> int) platform_op" where
  "reissue_enrol_code e sha code t i admin =
     tx_bind (tx_lift (assert_valid_tenant_id (JStr t))) (\<lambda>_.
     let until = now e + REISSUE_ENROL_CODE_TTL_DAYS * DAY_LENGTH_MS in
     tx_bind (on_shop t device_not_found (recode e (sha code) i)) (\<lambda>_.
     tx_bind (log_platform (tenant_audit t admin ''platform.device.enrol_code_reissued'' (Some (''devices'', i))
       (Some [(''enrolExpiresAt'', js_date until)]))) (\<lambda>_.
     tx_ret (code, until))))"

section \<open>Replacing a lost device\<close>

record replace_request =
  rp_force :: bool
  rp_note :: "string option"
  rp_label :: "string option"

definition parse_replace :: "jsval \<Rightarrow> err + replace_request" where
  "parse_replace body =
     (let b = (case body of JObj b \<Rightarrow> b | _ \<Rightarrow> []) in
     e_bind (case get_prop b ''force'' of JUndef \<Rightarrow> Inr False | JBool f \<Rightarrow> Inr f | _ \<Rightarrow> Inl (bad_request ''force'')) (\<lambda>force.
     e_bind (if \<not> force then Inr None
             else case get_prop b ''note'' of
               JStr n \<Rightarrow> if trim n = [] then Inl (bad_request ''note'') else Inr (Some (trim n))
             | _ \<Rightarrow> Inl (bad_request ''note'')) (\<lambda>note.
     e_bind (case get_prop b ''label'' of
               JUndef \<Rightarrow> Inr None
             | JNull \<Rightarrow> Inr None
             | JStr l \<Rightarrow> if trim l = [] \<or> LABEL_MAX_LENGTH < js_length (trim l) then Inl (bad_request ''label'') else Inr (Some (trim l))
             | _ \<Rightarrow> Inl (bad_request ''label'')) (\<lambda>label.
     Inr \<lparr>rp_force = force, rp_note = note, rp_label = label\<rparr>))))"

text \<open>The drawer and the offline work the device leaves behind: refused, or archived uncounted and flagged.\<close>

definition leftovers_guard :: "device \<Rightarrow> shift option \<Rightarrow> bool \<Rightarrow> unit op" where
  "leftovers_guard d drawer force =
     tx_bind (case drawer of
        Some r \<Rightarrow> tx_guard (force \<or> sh_closed_at r \<noteq> None) (HttpErr 409 ''DEVICE_HAS_OPEN_SHIFT'' (ShiftRef (sh_id r)))
      | None \<Rightarrow> tx_ret ()) (\<lambda>_.
     tx_guard (force \<or> d_unsynced_ops d \<le> 0)
       (HttpErr 409 ''DEVICE_HAS_UNSYNCED_OPS'' (Unsynced (d_unsynced_ops d) (d_unsynced_reported_at d))))"

definition replacement_row :: "env \<Rightarrow> string \<Rightarrow> device \<Rightarrow> string option \<Rightarrow> nat \<Rightarrow> uuid \<Rightarrow> device" where
  "replacement_row e hash d label no i = \<lparr>d_id = i, d_no = no,
     d_label = given_text ((case d_role d of Pos_Device \<Rightarrow> ''POS'' | Backoffice_Device \<Rightarrow> ''Backoffice'') @ '' #'' @ show_nat no) label,
     d_role = d_role d, d_retired_at = None, d_token_hash = None, d_enrol_code_hash = Some hash,
     d_enrol_expires_at = Some (now e + REISSUE_ENROL_CODE_TTL_DAYS * DAY_LENGTH_MS),
     d_last_seen_at = None, d_unsynced_ops = 0, d_unsynced_reported_at = None\<rparr>"

definition insert_replacement :: "env \<Rightarrow> string \<Rightarrow> device \<Rightarrow> string option \<Rightarrow> device op" where
  "insert_replacement e hash d label =
     tx_bind (tx_get (\<lambda>s. highest_no (devices s) + 1)) (\<lambda>no.
     tx_bind (tx_guard (no \<le> MAX_DEVICE_NO) (HttpErr 409 ''DEVICE_NO_EXHAUSTED'' NoDetail)) (\<lambda>_.
     tx_bind (fresh_id e) (\<lambda>i.
     let r = replacement_row e hash d label no i in
     tx_bind (insert_device r) (\<lambda>_. tx_ret r))))"

definition put_aside :: "env \<Rightarrow> device \<Rightarrow> replace_request \<Rightarrow> unit op" where
  "put_aside e d q =
     tx_bind (archive_current e (d_id d)) (\<lambda>_.
     tx_bind (if 0 < d_unsynced_ops d
              then insert_review_item e ''device_force_retired'' (d_id d) (force_retired_details d (rp_note q))
              else tx_ret ()) (\<lambda>_.
     tx_modify (\<lambda>s. s\<lparr>devices := upd_where (\<lambda>r. d_id r = d_id d) (retired_now e) (devices s)\<rparr>)))"

definition replace_in :: "env \<Rightarrow> string \<Rightarrow> uuid \<Rightarrow> replace_request \<Rightarrow> (device \<times> shift option \<times> device) op" where
  "replace_in e hash i q =
     tx_bind (tx_get (\<lambda>s. row_of d_id i (devices s))) (\<lambda>row.
     case row of
       None \<Rightarrow> tx_throw device_not_found
     | Some d \<Rightarrow>
         (case d_retired_at d of
            Some t \<Rightarrow> tx_throw (HttpErr 409 ''DEVICE_ALREADY_RETIRED'' (Instant t))
          | None \<Rightarrow>
              tx_bind (tx_guard (d_token_hash d \<noteq> None) (HttpErr 409 ''DEVICE_NOT_ENROLLED'' NoDetail)) (\<lambda>_.
              tx_bind (tx_get (\<lambda>s. newest (filter (is_current i) (shifts s)))) (\<lambda>drawer.
              tx_bind (leftovers_guard d drawer (rp_force q)) (\<lambda>_.
              tx_bind (put_aside e d q) (\<lambda>_.
              tx_bind (insert_replacement e hash d (rp_label q)) (\<lambda>r.
              tx_ret (d, drawer, r))))))))"

definition replace_device :: "env \<Rightarrow> (string \<Rightarrow> string) \<Rightarrow> string \<Rightarrow> string \<Rightarrow> uuid \<Rightarrow> jsval \<Rightarrow> uuid \<Rightarrow> (device \<times> string) platform_op" where
  "replace_device e sha code t i body admin =
     tx_bind (tx_lift (assert_valid_tenant_id (JStr t))) (\<lambda>_.
     tx_bind (tx_lift (parse_replace body)) (\<lambda>q.
     tx_bind (on_shop t device_not_found (replace_in e (sha code) i q)) (\<lambda>(d, drawer, r).
     tx_bind (log_platform ((tenant_audit t admin ''device.retire'' (Some (''devices'', i))
       (Some ([(''retiredAt'', js_date (now e)), (''shiftId'', js_opt (\<lambda>s. JStr (sh_id s)) drawer), (''replacedBy'', JStr (d_id r))] @
         (if rp_force q then [(''forced'', JBool True), (''note'', js_opt JStr (rp_note q))] else []))))
       \<lparr>pl_before := Some (JObj [(''role'', JStr (role_text (d_role d))), (''deviceNo'', js_int (int (d_no d)))])\<rparr>)) (\<lambda>_.
     tx_bind (log_platform (tenant_audit t admin ''device.create'' (Some (''devices'', d_id r))
       (Some [(''label'', JStr (d_label r)), (''role'', JStr (role_text (d_role r))), (''deviceNo'', js_int (int (d_no r))),
         (''enrolExpiresAt'', js_opt js_date (d_enrol_expires_at r)), (''replaces'', JStr i)]))) (\<lambda>_.
     tx_ret (r, code))))))"

section \<open>What the administrators see\<close>

record owner_view =
  ov_username :: string
  ov_display_name :: string
  ov_must_change :: bool
  ov_temp_expires_at :: "int option"
  ov_changed_at :: "int option"

record tenant_view =
  tv_tenant :: tenant
  tv_names :: "string \<times> string"
  tv_status :: string
  tv_timezone :: "string option"
  tv_owner :: "owner_view option"
  tv_devices :: "(uuid \<times> string \<times> device_role \<times> bool \<times> int option \<times> int option) list"

definition owner_view_of :: "shop_user \<Rightarrow> owner_view" where
  "owner_view_of u = \<lparr>ov_username = us_username u, ov_display_name = us_display_name u, ov_must_change = us_must_change_password u,
     ov_temp_expires_at = us_temp_password_expires_at u, ov_changed_at = us_password_changed_at u\<rparr>"

text \<open>An audit row a read may fail to write without failing itself.\<close>

definition try_log :: "bool \<Rightarrow> platform_audit \<Rightarrow> platform \<Rightarrow> platform" where
  "try_log works r p = (if works then p\<lparr>pf_audit := pf_audit p @ [r]\<rparr> else p)"

text \<open>\<open>getTenantDetail\<close>, without the import jobs.\<close>

definition get_tenant_detail :: "bool \<Rightarrow> string \<Rightarrow> uuid \<Rightarrow> platform \<Rightarrow> (err + tenant_view) \<times> platform" where
  "get_tenant_detail audit_ok t admin p =
     (case assert_valid_tenant_id (JStr t) of
        Inl f \<Rightarrow> (Inl f, p)
      | Inr _ \<Rightarrow>
          (case (row_of tn_id t (pf_tenants p), map_of (pf_shops p) t) of
             (Some r, Some s) \<Rightarrow>
               (Inr \<lparr>tv_tenant = r, tv_names = tenant_names s, tv_status = tenant_status s, tv_timezone = tenant_tz s,
                  tv_owner = map_option owner_view_of (find us_is_active (users s)),
                  tv_devices = map (\<lambda>d. (d_id d, d_label d, d_role d, d_token_hash d \<noteq> None, d_enrol_expires_at d, d_retired_at d))
                    (sort_key d_no (devices s))\<rparr>,
                try_log audit_ok (tenant_audit t admin ''platform.tenant.read'' None None) p)
           | _ \<Rightarrow> (Inl (tenant_not_found t), try_log audit_ok (read_not_found ''platform.tenant.read_not_found'' t admin) p)))"

definition list_tenants :: "bool \<Rightarrow> uuid \<Rightarrow> platform \<Rightarrow> tenant list \<times> platform" where
  "list_tenants audit_ok admin p = (sort_key (\<lambda>r. - tn_created_at r) (pf_tenants p),
     try_log audit_ok (tenant_audit PLATFORM_AUDIT_TENANT_ID admin ''platform.tenant.list'' None None) p)"

section \<open>The status of a shop, from Redis or from its row\<close>

definition get_tenant_status :: "string \<Rightarrow> platform \<Rightarrow> string \<times> platform" where
  "get_tenant_status t p =
     (case filled (pf_status p t) of
        Some st \<Rightarrow> (st, p)
      | None \<Rightarrow>
          (case map_of (pf_shops p) t of
             None \<Rightarrow> (''suspended'', p)
           | Some s \<Rightarrow> (tenant_status s, p\<lparr>pf_status := (pf_status p)(t \<mapsto> tenant_status s)\<rparr>)))"

text \<open>
  Where \<open>TenantGuard\<close> stands with a request between two awaits: about to ask Redis, about to read the row, about to
  keep what it read, or done.
\<close>

datatype gate = Gate_Look | Gate_Read | Gate_Keep string | Gate_Passed | Gate_Refused err

definition verdict_on :: "string \<Rightarrow> gate" where
  "verdict_on st = (if st = ''active'' then Gate_Passed else Gate_Refused tenant_suspended)"

fun gate_turn :: "uuid \<Rightarrow> bool \<Rightarrow> gate \<Rightarrow> platform \<Rightarrow> gate \<times> platform" where
  "gate_turn t up Gate_Look p =
     (case (if up then filled (pf_status p t) else None) of Some st \<Rightarrow> (verdict_on st, p) | None \<Rightarrow> (Gate_Read, p))"
| "gate_turn t up Gate_Read p =
     (case map_of (pf_shops p) t of
        None \<Rightarrow> (Gate_Refused (forbidden ''Tenant not found''), p)
      | Some s \<Rightarrow> (Gate_Keep (tenant_status s), p))"
| "gate_turn t up (Gate_Keep st) p = (verdict_on st, if up then p\<lparr>pf_status := (pf_status p)(t \<mapsto> st)\<rparr> else p)"
| "gate_turn t up g p = (g, p)"

text \<open>A request with nothing between its turns.\<close>

definition gate_alone :: "uuid \<Rightarrow> bool \<Rightarrow> platform \<Rightarrow> gate" where
  "gate_alone t up p = fst (((\<lambda>(g, p). gate_turn t up g p) ^^ 3) (Gate_Look, p))"

record gate_world =
  gw_platform :: platform
  gw_gates :: "gate list"
  gw_purges :: nat

text \<open>
  Requests of the shop arrive and take turns; an administrator's change of its status commits, and its purge of the
  Redis entry runs or fails; the entry expires.
\<close>

inductive gate_step :: "uuid \<Rightarrow> gate_world \<Rightarrow> gate_world \<Rightarrow> bool" for t where
  request_arrives: "gate_step t w (w\<lparr>gw_gates := gw_gates w @ [Gate_Look]\<rparr>)"
| request_turn: "i < length (gw_gates w) \<Longrightarrow> gate_turn t up (gw_gates w ! i) (gw_platform w) = (g, p) \<Longrightarrow>
    gate_step t w (w\<lparr>gw_gates := (gw_gates w)[i := g], gw_platform := p\<rparr>)"
| status_commits: "update_status t v admin (gw_platform w) = Inr (st, p) \<Longrightarrow>
    gate_step t w (w\<lparr>gw_platform := p, gw_purges := gw_purges w + 1\<rparr>)"
| purge_runs: "0 < gw_purges w \<Longrightarrow>
    gate_step t w (w\<lparr>gw_platform := purge_status t (gw_platform w), gw_purges := gw_purges w - 1\<rparr>)"
| purge_fails: "0 < gw_purges w \<Longrightarrow> gate_step t w (w\<lparr>gw_purges := gw_purges w - 1\<rparr>)"
| entry_expires: "gate_step t w (w\<lparr>gw_platform := purge_status t (gw_platform w)\<rparr>)"

definition status_of :: "uuid \<Rightarrow> platform \<Rightarrow> string option" where
  "status_of t p = map_option tenant_status (map_of (pf_shops p) t)"

end
