(* ===== verification/Platform_Facts.thy ===== *)
theory Platform_Facts
  imports Platform Auth_Facts
begin

text \<open>
  What the administrators' operations keep: shops apart from one another, a closed shop shut, a replaced device
  out of service with one successor, an owner's old sessions dead; and the hole in the purge of a shop's status.
\<close>

section \<open>Runs, taken apart\<close>

lemma map_of_put_shop: "map_of (put_shop t s ws) u = (if u = t \<and> map_of ws t \<noteq> None then Some s else map_of ws u)"
  by (induction ws) (auto simp: put_shop_def)

lemma put_shop_keys [simp]: "map fst (put_shop t s ws) = map fst ws"
  by (induction ws) (auto simp: put_shop_def)

lemma on_shop_Inr: "on_shop t missing f p = Inr (x, p') \<longleftrightarrow>
    (\<exists>s s'. map_of (pf_shops p) t = Some s \<and> f s = Inr (x, s') \<and> p' = p\<lparr>pf_shops := put_shop t s' (pf_shops p)\<rparr>)"
  by (auto simp: on_shop_def split: option.splits sum.splits)

lemma update_status_Inr:
  assumes "update_status t v admin p = Inr (st, p')"
  obtains s where "map_of (pf_shops p) t = Some s" "tenant_status s \<noteq> ''closed''" "v = JStr st" "st \<in> set STATUSES"
    "pf_shops p' = put_shop t (s\<lparr>tenant_status := st\<rparr>) (pf_shops p)" "pf_status p' = pf_status p" "pf_tenants p' = pf_tenants p"
  using assms by (auto simp: update_status_def on_shop_Inr set_status_def log_platform_def tx_guard_def split: jsval.splits if_splits)

section \<open>A closed shop\<close>

lemma mem_update: "x \<in> set (xs[i := y]) \<Longrightarrow> x = y \<or> x \<in> set xs"
  by (meson insertE set_update_subset_insert subsetD)

text \<open>
  What can still let a request of a closed shop in: one that has read the row before the shop was closed, or Redis
  holding the status from before.
\<close>

definition drained :: "uuid \<Rightarrow> gate_world \<Rightarrow> bool" where
  "drained t w \<longleftrightarrow> pf_status (gw_platform w) t \<noteq> Some ''active'' \<and> Gate_Keep ''active'' \<notin> set (gw_gates w)"

lemma count_list_update: "i < length xs \<Longrightarrow> y \<noteq> x \<or> xs ! i = x \<Longrightarrow> count_list (xs[i := y]) x \<le> count_list xs x"
  by (induction xs arbitrary: i) (auto split: nat.split)

lemma count_list_same: "i < length xs \<Longrightarrow> y = x \<longleftrightarrow> xs ! i = x \<Longrightarrow> count_list (xs[i := y]) x = count_list xs x"
  by (induction xs arbitrary: i) (auto split: nat.split)

lemma closed_turn:
  assumes "gate_turn t up g0 p0 = (g, p)" "status_of t p0 = Some ''closed''"
  shows "status_of t p = Some ''closed''" "g \<noteq> Gate_Keep ''active''"
    "\<lbrakk>pf_status p0 t \<noteq> Some ''active''; g0 \<noteq> Gate_Keep ''active''\<rbrakk> \<Longrightarrow>
       pf_status p t \<noteq> Some ''active'' \<and> (g = Gate_Passed \<longleftrightarrow> g0 = Gate_Passed)"
  using assms
  by (cases g0; auto simp: status_of_def verdict_on_def filled_def split: option.splits if_splits)+

lemma closed_step:
  assumes "gate_step t w w'" "status_of t (gw_platform w) = Some ''closed''"
  shows "status_of t (gw_platform w') = Some ''closed'' \<and>
    count_list (gw_gates w') (Gate_Keep ''active'') \<le> count_list (gw_gates w) (Gate_Keep ''active'') \<and>
    (drained t w \<longrightarrow> drained t w' \<and> count_list (gw_gates w') Gate_Passed = count_list (gw_gates w) Gate_Passed)"
  using assms
proof (induction rule: gate_step.induct)
  case (request_turn i w up g p)
  note turn = closed_turn [OF request_turn(2,3)]
  have mem: "gw_gates w ! i \<in> set (gw_gates w)" using request_turn(1) by simp
  have "drained t (w\<lparr>gw_gates := (gw_gates w)[i := g], gw_platform := p\<rparr>) \<and> (g = Gate_Passed \<longleftrightarrow> gw_gates w ! i = Gate_Passed)"
    if "drained t w"
  proof -
    have "gw_gates w ! i \<noteq> Gate_Keep ''active''" "pf_status (gw_platform w) t \<noteq> Some ''active''"
      using that mem by (auto simp: drained_def)
    then show ?thesis using turn that by (auto simp: drained_def dest!: mem_update)
  qed
  then show ?case
    using turn(1,2) count_list_update [OF request_turn(1), of g "Gate_Keep ''active''"]
      count_list_same [OF request_turn(1), of g Gate_Passed] by simp
next
  case (status_commits v admin w st p)
  from status_commits(1) show ?case
    by (rule update_status_Inr) (use status_commits(2) in \<open>auto simp: status_of_def\<close>)
qed (auto simp: drained_def purge_status_def status_of_def)

lemma closed_steps:
  assumes "(gate_step t)\<^sup>*\<^sup>* w w'" "status_of t (gw_platform w) = Some ''closed''"
  shows "status_of t (gw_platform w') = Some ''closed'' \<and>
    count_list (gw_gates w') (Gate_Keep ''active'') \<le> count_list (gw_gates w) (Gate_Keep ''active'') \<and>
    (drained t w \<longrightarrow> drained t w' \<and> count_list (gw_gates w') Gate_Passed = count_list (gw_gates w) Gate_Passed)"
  using assms(1)
proof (induction rule: rtranclp_induct)
  case (step w1 w2)
  then show ?case using closed_step [OF step(2)] by fastforce
qed (use assms(2) in simp)

text \<open>
  C19. A closed shop stays closed. From any moment at which the shop is closed, with requests under way and whatever
  Redis holds, in every interleaving of requests, attempts of administrators to change the status, purges that run or
  fail, and expiries: the shop stays closed, and no further request reads 'active' from its row. Requests can still get
  past the guard for a while (the race of C21, with 'closed'): those that had read the row before, and those that find
  what they or an earlier purge left in Redis. Once none of the former is left and Redis no longer holds 'active' (the
  purge has run, or the entry has expired), no request is let in ever again.
\<close>

theorem closed_shop_stays_shut:
  assumes "status_of t (gw_platform w) = Some ''closed''" "(gate_step t)\<^sup>*\<^sup>* w w'"
  shows "status_of t (gw_platform w') = Some ''closed'' \<and>
    count_list (gw_gates w') (Gate_Keep ''active'') \<le> count_list (gw_gates w) (Gate_Keep ''active'') \<and>
    (drained t w' \<longrightarrow> (\<forall>w''. (gate_step t)\<^sup>*\<^sup>* w' w'' \<longrightarrow>
      count_list (gw_gates w'') Gate_Passed = count_list (gw_gates w') Gate_Passed))"
  using closed_steps [OF assms(2,1)] closed_steps [where w = w'] by blast

definition shop_id :: uuid where "shop_id = ''018f3b2a-5c4d-7e6f-8a9b-0c1d2e3f4a5b''"

definition one_shop :: "string \<Rightarrow> platform" where
  "one_shop st = \<lparr>pf_tenants = [\<lparr>tn_id = shop_id, tn_code = ''SRI'', tn_plan = ''basic'', tn_created_at = 0\<rparr>],
     pf_shops = [(shop_id, blank_db\<lparr>tenant_status := st\<rparr>)], pf_audit = [], pf_status = Map.empty\<rparr>"

definition at_rest :: "platform \<Rightarrow> gate_world" where
  "at_rest p = \<lparr>gw_platform = p, gw_gates = [], gw_purges = 0\<rparr>"

text \<open>A request that read the row while the shop was open is let in after it was closed; once the entry it left is gone, none is.\<close>

theorem closed_shop_stays_shut_witness:
  "\<exists>w w'. status_of shop_id (gw_platform w) = Some ''closed'' \<and> gw_gates w = [Gate_Keep ''active''] \<and> (gate_step shop_id)\<^sup>*\<^sup>* w w' \<and>
     gw_gates w' = [Gate_Passed] \<and> (\<forall>w''. (gate_step shop_id)\<^sup>*\<^sup>* w' w'' \<longrightarrow> count_list (gw_gates w'') Gate_Passed = 1)"
proof -
  let ?p = "one_shop ''closed''"
  let ?w = "\<lparr>gw_platform = ?p, gw_gates = [Gate_Keep ''active''], gw_purges = 0\<rparr>"
  let ?w1 = "?w\<lparr>gw_gates := [Gate_Passed], gw_platform := ?p\<lparr>pf_status := [shop_id \<mapsto> ''active'']\<rparr>\<rparr>"
  let ?w2 = "?w1\<lparr>gw_platform := purge_status shop_id (gw_platform ?w1)\<rparr>"
  have "gate_step shop_id ?w ?w1"
    using request_turn [of 0 ?w shop_id True Gate_Passed "?p\<lparr>pf_status := [shop_id \<mapsto> ''active'']\<rparr>"]
    by (simp add: verdict_on_def one_shop_def)
  moreover have "gate_step shop_id ?w1 ?w2" by (rule entry_expires)
  ultimately have run: "(gate_step shop_id)\<^sup>*\<^sup>* ?w ?w2" by (rule converse_rtranclp_into_rtranclp [OF _ r_into_rtranclp])
  have closed: "status_of shop_id (gw_platform ?w) = Some ''closed''" by (simp add: one_shop_def status_of_def)
  have "drained shop_id ?w2" by (simp add: drained_def purge_status_def)
  with closed_shop_stays_shut [OF closed run]
  have "\<forall>w''. (gate_step shop_id)\<^sup>*\<^sup>* ?w2 w'' \<longrightarrow> count_list (gw_gates w'') Gate_Passed = 1" by simp
  with closed run show ?thesis by (intro exI [of _ ?w] exI [of _ ?w2]) simp
qed

section \<open>A suspension that a slow request undoes\<close>

text \<open>A request alone is decided as \<open>tenant_guard\<close> decides it.\<close>

lemma gate_alone_guard:
  assumes "jw_aud j = Aud_Tenant" "jw_tid j = Some t" "required = None"
  shows "gate_alone t True p = Gate_Passed \<longleftrightarrow> (\<exists>x. tenant_guard (Inr j) required (pf_status p t) (pf_shops p) = Inr x)"
  using assms
  by (auto simp: gate_alone_def eval_nat_numeral tenant_guard_def e_bind_def filled_def verdict_on_def split: option.splits)

text \<open>
  C21. Suspending a shop can be missed. There is a run in which the shop is suspended, the suspension has committed and its
  purge of Redis has run without an error, no request is under way, and yet Redis holds the status 'active', so that the next
  request is let in: a request that read the row before the commit kept what it read after the purge.
\<close>

theorem suspension_can_be_missed:
  "\<exists>w. (gate_step shop_id)\<^sup>*\<^sup>* (at_rest (one_shop ''active'')) w \<and> status_of shop_id (gw_platform w) = Some ''suspended'' \<and>
     gw_purges w = 0 \<and> gw_gates w = [Gate_Passed] \<and> gate_alone shop_id True (gw_platform w) = Gate_Passed"
proof -
  define w0 where "w0 = at_rest (one_shop ''active'')"
  define w1 where "w1 = w0\<lparr>gw_gates := [Gate_Look]\<rparr>"
  define w2 where "w2 = w1\<lparr>gw_gates := [Gate_Read]\<rparr>"
  define w3 where "w3 = w2\<lparr>gw_gates := [Gate_Keep ''active'']\<rparr>"
  have ok: "assert_valid_tenant_id (JStr shop_id) = Inr ()" by (simp add: assert_valid_tenant_id_def shop_id_def) code_simp
  have "\<exists>p. update_status shop_id (JStr ''suspended'') ''a'' (one_shop ''active'') = Inr (''suspended'', p) \<and>
      pf_status p = Map.empty \<and> map_of (pf_shops p) shop_id = Some (blank_db\<lparr>tenant_status := ''suspended''\<rparr>)"
    by (simp add: update_status_def ok tx_lift_def on_shop_def one_shop_def set_status_def log_platform_def tx_guard_def STATUSES_def
        tx_bind_def tx_ret_def tx_get_def tx_modify_def put_shop_def)
  then obtain p where p: "update_status shop_id (JStr ''suspended'') ''a'' (one_shop ''active'') = Inr (''suspended'', p)"
    "pf_status p = Map.empty" "map_of (pf_shops p) shop_id = Some (blank_db\<lparr>tenant_status := ''suspended''\<rparr>)" by blast
  define w4 where "w4 = w3\<lparr>gw_platform := p, gw_purges := 1\<rparr>"
  define w5 where "w5 = w4\<lparr>gw_platform := purge_status shop_id p, gw_purges := 0\<rparr>"
  define w6 where "w6 = w5\<lparr>gw_gates := [Gate_Passed], gw_platform := (purge_status shop_id p)\<lparr>pf_status := [shop_id \<mapsto> ''active'']\<rparr>\<rparr>"
  note ws = w0_def w1_def w2_def w3_def w4_def w5_def w6_def at_rest_def
  have s1: "gate_step shop_id w0 w1" using request_arrives [of shop_id w0] by (simp add: ws)
  have s2: "gate_step shop_id w1 w2"
    using request_turn [of 0 w1 shop_id True Gate_Read "gw_platform w1"] by (simp add: ws one_shop_def filled_def)
  have s3: "gate_step shop_id w2 w3"
    using request_turn [of 0 w2 shop_id True "Gate_Keep ''active''" "gw_platform w2"] by (simp add: ws one_shop_def)
  have s4: "gate_step shop_id w3 w4" using status_commits [of shop_id "JStr ''suspended''" "''a''" w3 "''suspended''" p] p(1) by (simp add: ws)
  have s5: "gate_step shop_id w4 w5" using purge_runs [of w4 shop_id] by (simp add: ws)
  have s6: "gate_step shop_id w5 w6"
    using request_turn [of 0 w5 shop_id True Gate_Passed "(purge_status shop_id p)\<lparr>pf_status := [shop_id \<mapsto> ''active'']\<rparr>"] p(2)
    by (simp add: ws verdict_on_def purge_status_def)
  have "(gate_step shop_id)\<^sup>*\<^sup>* w0 w6"
    using s1 s2 s3 s4 s5 s6 by (meson converse_rtranclp_into_rtranclp rtranclp.rtrancl_refl)
  then show ?thesis
    using p(3) by (intro exI [of _ w6]) (simp add: ws status_of_def purge_status_def gate_alone_def eval_nat_numeral filled_def verdict_on_def)
qed

section \<open>A replaced device\<close>

lemma insert_device_Inr:
  assumes "insert_device r s = Inr (u, s')"
  shows "s' = s\<lparr>devices := devices s @ [r]\<rparr>" "\<not> has_key d_id (d_id r) (devices s)"
    "1 \<le> d_no r \<and> d_no r \<le> MAX_DEVICE_NO" "\<not> (live_pos r \<and> list_ex live_pos (devices s))"
  using assms by (auto simp: insert_device_def constraint_defs MAX_DEVICE_NO_def)

lemma put_aside_Inr:
  assumes "shifts_ok s" "put_aside e d q s = Inr (u, s')"
  shows "devices s' = upd_where (\<lambda>r. d_id r = d_id d) (retired_now e) (devices s)"
    "shifts s' = map (\<lambda>r. if is_current (d_id d) r then retired_row e r else r) (shifts s)"
proof -
  obtain s1 s2 where arch: "archive_current e (d_id d) s = Inr ((), s1)"
    and flag: "(if 0 < d_unsynced_ops d then insert_review_item e ''device_force_retired'' (d_id d) (force_retired_details d (rp_note q))
      else tx_ret ()) s1 = Inr ((), s2)"
    and s': "s' = s2\<lparr>devices := upd_where (\<lambda>r. d_id r = d_id d) (retired_now e) (devices s2)\<rparr>"
    using assms(2) unfolding put_aside_def by auto
  have "tx_fixes devices (archive_current e (d_id d))"
    unfolding archive_current_def archive_def Let_def by (auto split: option.split intro!: tx_fix)
  then have "devices s1 = devices s" using arch by (rule tx_fixesD)
  moreover have "devices s2 = devices s1 \<and> shifts s2 = shifts s1" using flag by (auto split: if_splits dest!: insert_review_Inr)
  ultimately show "devices s' = upd_where (\<lambda>r. d_id r = d_id d) (retired_now e) (devices s)"
    "shifts s' = map (\<lambda>r. if is_current (d_id d) r then retired_row e r else r) (shifts s)"
    using archive_current_Inr(1) [OF assms(1) arch] by (simp_all add: s')
qed

lemma archived_all_ok:
  assumes "shifts_ok s" "shifts s' = map (\<lambda>r. if is_current i r then retired_row e r else r) (shifts s)"
  shows "shifts_ok s'"
proof -
  have "shifts_ok (s\<lparr>shifts := upd_where (is_current i) (retired_row e) (shifts s)\<rparr>)"
    by (rule shifts_ok_upd [OF assms(1)]) simp_all
  then show ?thesis using assms(2) by (simp add: shifts_ok_def one_active_def upd_where_def)
qed

lemma retired_devices_ok:
  assumes "devices_ok s" "devices s' = upd_where p (retired_now e) (devices s)"
  shows "devices_ok s'"
proof -
  have "map d_no (devices s') = map d_no (devices s)" "map d_id (devices s') = map d_id (devices s)"
    by (simp_all add: assms(2) upd_where_def retired_now_def)
  moreover have "length (filter live_pos (devices s')) \<le> length (filter live_pos (devices s))"
    unfolding assms(2) by (rule count_upd) (simp add: live_pos_def retired_now_def d_retired_def)
  moreover have "\<forall>d \<in> set (devices s'). 1 \<le> d_no d \<and> d_no d \<le> MAX_DEVICE_NO"
    using assms by (auto simp: upd_where_def retired_now_def devices_ok_def)
  ultimately show ?thesis using assms(1) by (simp add: devices_ok_def del: set_map)
qed

lemma added_device_ok:
  assumes "devices_ok s" "insert_device r s = Inr (u, s')" "d_no r = highest_no (devices s) + 1"
  shows "devices_ok s'"
proof -
  note ins = insert_device_Inr [OF assms(2)]
  have "d_no r \<notin> d_no ` set (devices s)" using highest_no_le assms(3) by fastforce
  moreover have "live_pos r \<Longrightarrow> filter live_pos (devices s) = []" using ins(4) by (auto simp: filter_empty_conv list_ex_iff)
  ultimately show ?thesis using assms(1) ins(1,2,3) by (auto simp: devices_ok_def has_key_def)
qed

lemma replace_in_Inr:
  assumes "replace_in e hash i q s = Inr ((d, drawer, r), s')"
  obtains s1 s2 where "row_of d_id i (devices s) = Some d" "\<not> d_retired d" "d_token_hash d \<noteq> None" "d_id d = i"
    "leftovers_guard d (newest (filter (is_current i) (shifts s))) (rp_force q) s = Inr ((), s)"
    "put_aside e d q s = Inr ((), s1)" "r = replacement_row e hash d (rp_label q) (highest_no (devices s1) + 1) (mint e (minted s1))"
    "insert_device r (s1\<lparr>minted := minted s1 + 1\<rparr>) = Inr ((), s')"
proof -
  from assms obtain s0 s1 where a: "row_of d_id i (devices s) = Some d" "d_retired_at d = None" "d_token_hash d \<noteq> None"
    "leftovers_guard d (newest (filter (is_current i) (shifts s))) (rp_force q) s = Inr ((), s0)" "put_aside e d q s0 = Inr ((), s1)"
    "r = replacement_row e hash d (rp_label q) (highest_no (devices s1) + 1) (mint e (minted s1))"
    "insert_device r (s1\<lparr>minted := minted s1 + 1\<rparr>) = Inr ((), s')"
    unfolding replace_in_def insert_replacement_def fresh_id_def Let_def
    by (auto simp: tx_guard_def split: option.splits if_splits)
  have "s0 = s" using a(4) by (auto simp: leftovers_guard_def tx_guard_def split: option.splits if_splits)
  moreover have "d_id d = i" using a(1) by (rule row_of_SomeD [THEN conjunct2])
  ultimately show thesis using that a by (simp add: d_retired_def)
qed

text \<open>
  C18. A lost device is replaced by exactly one successor. When the platform replaces device i of a shop whose tables are in
  order, the register is the one from before with i retired and one row added; that row, the successor, has the old one's role, a number above every number the shop ever gave out (so that no
  document number comes twice) and an enrolment code that works for seven days; the register keeps its keys, its numbers up to 99 and
  its one till; and, whatever tills and owners do next, the old device stays retired with no current drawer.
\<close>

theorem replacement_takes_over:
  assumes "devices_ok s" "shifts_ok s" "replace_in e hash i q s = Inr ((d, drawer, r), s')"
    and "till_step\<^sup>*\<^sup>* s' s2" "ae_pg_now ae < now e + 7 * DAY_LENGTH_MS"
  shows "devices s' = upd_where (\<lambda>x. d_id x = i) (retired_now e) (devices s) @ [r] \<and>
    d_role r = d_role d \<and> enrollable ae hash r \<and> (\<forall>x \<in> set (devices s). d_no x < d_no r) \<and>
    devices_ok s' \<and> out_of_service i s2"
proof -
  from assms(3) obtain s1 where r: "row_of d_id i (devices s) = Some d" "d_id d = i" "put_aside e d q s = Inr ((), s1)"
    "r = replacement_row e hash d (rp_label q) (highest_no (devices s1) + 1) (mint e (minted s1))"
    "insert_device r (s1\<lparr>minted := minted s1 + 1\<rparr>) = Inr ((), s')"
    by (rule replace_in_Inr)
  note aside = put_aside_Inr [OF assms(2) r(3), unfolded r(2)]
  note ins = insert_device_Inr [OF r(5)]
  have ok1: "devices_ok (s1\<lparr>minted := minted s1 + 1\<rparr>)"
    using retired_devices_ok [OF assms(1) aside(1)] by (simp add: devices_ok_def)
  have no: "d_no r = highest_no (devices s1) + 1" by (simp add: r(4) replacement_row_def)
  have "devices_ok s'" by (rule added_device_ok [OF ok1 r(5)]) (simp add: no)
  moreover have "\<forall>x \<in> set (devices s). d_no x < d_no r"
  proof
    fix x assume "x \<in> set (devices s)"
    then have "d_no x \<in> set (map d_no (devices s1))" by (simp add: aside(1) upd_where_def retired_now_def image_comp comp_def if_distrib cong: if_cong)
    then show "d_no x < d_no r" using highest_no_le no by fastforce
  qed
  moreover have "out_of_service i s' \<and> shifts_ok s'"
  proof -
    have "row_of d_id i (devices s1) = Some (retired_now e d)" by (simp add: aside(1) retire_mark.row_of_upd r(1))
    then have "row_of d_id i (devices s') = Some (retired_now e d)" using ins(1) by (simp add: row_of_append)
    moreover have sh: "shifts s' = map (\<lambda>r. if is_current i r then retired_row e r else r) (shifts s)" using aside(2) ins(1) by simp
    ultimately show ?thesis
      using archived_all_ok [OF assms(2) sh] by (auto simp: out_of_service_def retired_now_def d_retired_def is_current_def)
  qed
  then have "out_of_service i s2" using out_of_service_steps [OF assms(4)] by blast
  moreover have "devices s' = upd_where (\<lambda>x. d_id x = i) (retired_now e) (devices s) @ [r]" using ins(1) aside(1) by simp
  moreover have "enrollable ae hash r" "d_role r = d_role d"
    using assms(5) by (simp_all add: r(4) replacement_row_def enrollable_def REISSUE_ENROL_CODE_TTL_DAYS_def)
  ultimately show ?thesis by blast
qed

definition lost_till :: db where
  "lost_till = one_drawer\<lparr>devices := [(plain_device ''d'' 1)\<lparr>d_token_hash := Some ''t'', d_unsynced_ops := 2\<rparr>]\<rparr>"

definition by_force :: replace_request where
  "by_force = \<lparr>rp_force = True, rp_note = Some ''stolen'', rp_label = None\<rparr>"

theorem replacement_takes_over_witness:
  "\<exists>d drawer r s'. replace_in sample_env ''h'' ''d'' by_force lost_till = Inr ((d, drawer, r), s') \<and>
     d_no r = 2 \<and> d_label r = ''POS #2'' \<and> enrollable (call_at 2000 []) ''h'' r \<and> out_of_service ''d'' s'"
proof -
  have two: "show_nat 2 = ''2''" "show_nat (Suc (Suc 0)) = ''2''" by (code_simp)+
  have "\<exists>d drawer r s'. replace_in sample_env ''h'' ''d'' by_force lost_till = Inr ((d, drawer, r), s') \<and> d_no r = 2 \<and> d_label r = ''POS #2''"
    by (simp add: replace_in_def lost_till_def one_drawer_def by_force_def leftovers_guard_def put_aside_def archive_current_def archive_def
        is_current_def insert_review_item_def constraint_defs fresh_id_def Let_def tx_guard_def insert_replacement_def highest_no_def
        MAX_DEVICE_NO_def insert_device_def replacement_row_def retired_now_def live_pos_def given_text_def has_key_def two ex_bool_eq)
  then obtain d drawer r s' where run: "replace_in sample_env ''h'' ''d'' by_force lost_till = Inr ((d, drawer, r), s')"
    and r: "d_no r = 2" "d_label r = ''POS #2''" by blast
  have "shifts_ok lost_till" using one_drawer_ok by (simp add: lost_till_def shifts_ok_def one_active_def)
  moreover have "devices_ok lost_till" by (simp add: devices_ok_def lost_till_def MAX_DEVICE_NO_def live_pos_def)
  ultimately show ?thesis
    using replacement_takes_over [OF _ _ run rtranclp.rtrancl_refl, of "call_at 2000 []"] run r
    by (fastforce simp: call_at_def DAY_LENGTH_MS_def)
qed

section \<open>A new password for the owner\<close>

interpretation temp_upd: keyed_update us_id "on_temp_password e hash" for e hash
  by unfold_locales (simp add: on_temp_password_def)

lemma reset_owner_row:
  assumes "reset_owner e hash s = Inr (u, s')" "distinct (map us_id (users s))"
  shows "row_of us_id (us_id u) (users s') = Some u" "us_password_changed_at u = Some (now e)" "us_password_hash u = hash"
proof -
  obtain w ws where w: "filter us_is_active (users s) = w # ws" "u = on_temp_password e hash w"
    "users s' = upd_where us_is_active (on_temp_password e hash) (users s)"
    using assms(1) by (auto simp: reset_owner_def split: list.splits)
  have mem: "w \<in> set (filter us_is_active (users s))" by (simp add: w(1))
  have "row_of us_id (us_id x) (upd_where us_is_active (on_temp_password e hash) us) = Some (on_temp_password e hash x)"
    if "x \<in> set us" "us_is_active x" "distinct (map us_id us)" for x us
    using that by (induction us) (force simp: row_of_def upd_where_def on_temp_password_def)+
  from this [OF _ _ assms(2)] mem show "row_of us_id (us_id u) (users s') = Some u" by (simp add: w(2,3)) (simp add: on_temp_password_def)
qed (use assms(1) in \<open>auto simp: reset_owner_def on_temp_password_def split: list.splits\<close>)

text \<open>
  When the platform gives the owner a new temporary password, everything handed out before is dead: in any sequence of
  refreshes afterwards no token of his from before that second is answered, and a password change that was begun
  against the old password cannot be finished.
\<close>

theorem owner_reset_ends_sessions:
  assumes "reset_owner e hash s = Inr (u, s1)" "distinct (map us_id (users s))" "refreshes run s1 = (as, s2)"
  shows "list_all2 (\<lambda>(e', j) a. issued_before (us_id u) (now e) j \<longrightarrow> \<not> answered a) run as \<and>
    (jw_sub j' = us_id u \<longrightarrow> old \<noteq> hash \<longrightarrow> commit_change ae j' old h s1 = Inl change_token_dead)"
proof -
  note row = reset_owner_row [OF assms(1,2)]
  have ids: "distinct (map us_id (users s1))"
    using assms(1,2) by (auto simp: reset_owner_def temp_upd.distinct_upd split: list.splits)
  have "\<not> list_ex (still_temporary ae (us_id u) old) (users s1)" if "old \<noteq> hash"
  proof
    assume "list_ex (still_temporary ae (us_id u) old) (users s1)"
    then obtain w where "w \<in> set (users s1)" "still_temporary ae (us_id u) old w" by (auto simp: list_ex_iff)
    then have "row_of us_id (us_id u) (users s1) = Some w" "us_password_hash w = old"
      using row_of_unique [OF ids, of w] by (auto simp: still_temporary_def)
    then show False using that row(1,3) by simp
  qed
  then show ?thesis
    using old_tokens_refused [OF row(1,2) assms(3)] by (auto simp: commit_change_def tx_guard_def)
qed

theorem owner_reset_ends_sessions_witness:
  "\<exists>u s1. reset_owner (sample_env\<lparr>now := 5000\<rparr>) ''new'' signed_in_shop = Inr (u, s1) \<and>
     list_all2 (\<lambda>(e', j) a. issued_before ''u'' 5000 j \<longrightarrow> \<not> answered a) [(call_at 7000 [], session_token (jti_of (CHR ''a'')) None 3)]
       (fst (refreshes [(call_at 7000 [], session_token (jti_of (CHR ''a'')) None 3)] s1))"
proof -
  have "\<exists>u s1. reset_owner (sample_env\<lparr>now := 5000\<rparr>) ''new'' signed_in_shop = Inr (u, s1) \<and> us_id u = ''u''"
    by (simp add: reset_owner_def signed_in_shop_def on_temp_password_def)
  then obtain u s1 where one: "reset_owner (sample_env\<lparr>now := 5000\<rparr>) ''new'' signed_in_shop = Inr (u, s1)" "us_id u = ''u''" by blast
  show ?thesis
    using owner_reset_ends_sessions [OF one(1) _ surjective_pairing, of "[(call_at 7000 [], session_token (jti_of (CHR ''a'')) None 3)]"] one
    by (auto simp: signed_in_shop_def)
qed

section \<open>One administrator, one shop\<close>

inductive admin_step :: "uuid \<Rightarrow> platform \<Rightarrow> platform \<Rightarrow> bool" where
  shop_opened: "create_tenant e pv admin dto p = Inr (n, p') \<Longrightarrow> admin_step (pv_tenant pv) p p'"
| password_reset: "issue_owner_temp_password e roll hash t admin p = Inr (x, p') \<Longrightarrow> admin_step t p p'"
| status_changed: "update_status t v admin p = Inr (st, p') \<Longrightarrow> admin_step t p p'"
| code_reissued: "reissue_enrol_code e sha code t i admin p = Inr (y, p') \<Longrightarrow> admin_step t p p'"
| device_replaced: "replace_device e sha code t i body admin p = Inr (z, p') \<Longrightarrow> admin_step t p p'"

definition platform_ok :: "platform \<Rightarrow> bool" where
  "platform_ok p \<longleftrightarrow> map fst (pf_shops p) = map tn_id (pf_tenants p) \<and> distinct (map tn_id (pf_tenants p)) \<and> distinct (map tn_code (pf_tenants p))"

text \<open>What a step on the shop \<open>t\<close> may change.\<close>

definition within_shop :: "uuid \<Rightarrow> platform \<Rightarrow> platform \<Rightarrow> bool" where
  "within_shop t p p' \<longleftrightarrow> (platform_ok p \<longrightarrow> platform_ok p') \<and> (\<forall>u. u \<noteq> t \<longrightarrow> map_of (pf_shops p') u = map_of (pf_shops p) u) \<and>
     pf_status p' = pf_status p \<and> (\<exists>rows. rows \<noteq> [] \<and> pf_audit p' = pf_audit p @ rows \<and> (\<forall>r \<in> set rows. pl_tenant r = t))"

lemma within_shopI:
  assumes "on_shop t missing f p = Inr (x, p1)" "p' = p1\<lparr>pf_audit := pf_audit p1 @ rows\<rparr>" "rows \<noteq> []" "\<forall>r \<in> set rows. pl_tenant r = t"
  shows "within_shop t p p'"
  using assms by (auto simp: within_shop_def on_shop_Inr platform_ok_def map_of_put_shop)

lemma tenant_audit_tenant [simp]: "pl_tenant (tenant_audit t admin a x y) = t"
  by (simp add: tenant_audit_def)

lemma create_tenant_within:
  assumes "create_tenant e pv admin dto p = Inr (n, p')"
  shows "within_shop (pv_tenant pv) p p'"
proof -
  have "\<exists>code tn s r. \<not> has_key tn_id (pv_tenant pv) (pf_tenants p) \<and> \<not> has_key tn_code code (pf_tenants p) \<and>
      tn_id tn = pv_tenant pv \<and> tn_code tn = code \<and> pl_tenant r = pv_tenant pv \<and>
      p' = p\<lparr>pf_tenants := pf_tenants p @ [tn], pf_shops := pf_shops p @ [(pv_tenant pv, s)], pf_audit := pf_audit p @ [r]\<rparr>"
  proof (cases "(filled (ct_code dto), filled (ct_shop_name dto), filled (ct_owner_username dto))")
    case (fields c n o')
    then obtain code name owner where f: "c = Some code" "n = Some name" "o' = Some owner"
      using assms by (auto simp: create_tenant_def split: option.splits if_splits)
    from assms show ?thesis
      by (intro exI [of _ code] exI [of _ "\<lparr>tn_id = pv_tenant pv, tn_code = code, tn_plan = given_text ''basic'' (ct_plan dto), tn_created_at = now e\<rparr>"]
          exI [of _ "new_shop e pv (name, given_text [] (ct_shop_name_en dto)) (given_text ''Asia/Bangkok'' (ct_timezone dto)) owner
            (ct_owner_display_name dto)"]
          exI [of _ "tenant_audit (pv_tenant pv) admin ''platform.tenant.create'' None (Some [(''code'', JStr code), (''shopName'', JStr name),
            (''plan'', JStr (given_text ''basic'' (ct_plan dto))), (''timezone'', JStr (given_text ''Asia/Bangkok'' (ct_timezone dto)))])"])
        (auto simp: create_tenant_def fields [unfolded f] log_platform_def tx_guard_def Let_def split: if_splits)
  qed
  then show ?thesis
    by (elim exE conjE) (auto simp: within_shop_def platform_ok_def has_key_def list_ex_iff map_add_def split: option.splits)
qed

lemma admin_step_within: "admin_step t p p' \<Longrightarrow> within_shop t p p'"
proof (induction rule: admin_step.induct)
  case (password_reset e roll hash t admin p x p')
  then show ?case by (auto simp: issue_owner_temp_password_def log_platform_def Let_def intro!: within_shopI)
next
  case (status_changed t v admin p st p')
  then show ?case by (auto simp: update_status_def log_platform_def Let_def split: jsval.splits if_splits intro!: within_shopI)
next
  case (code_reissued e sha code t i admin p y p')
  then show ?case by (auto simp: reissue_enrol_code_def log_platform_def Let_def intro!: within_shopI)
next
  case (device_replaced e sha code t i body admin p z p')
  then show ?case
    by (auto simp: replace_device_def log_platform_def Let_def intro!: within_shopI)
qed (rule create_tenant_within)

text \<open>
  C20. An administrator acts in one shop and leaves a trace. Opening a shop, resetting its owner, changing its status,
  reissuing a code and replacing a device keep tenant ids and shop codes unique with one database to each, leave the
  database of every other shop exactly as it was, and add at least one audit row, all of them naming that shop.
\<close>

theorem admin_acts_in_one_shop:
  assumes "admin_step t p p'" "platform_ok p"
  shows "platform_ok p' \<and> (\<forall>u. u \<noteq> t \<longrightarrow> map_of (pf_shops p') u = map_of (pf_shops p) u) \<and>
    (\<exists>rows. rows \<noteq> [] \<and> pf_audit p' = pf_audit p @ rows \<and> (\<forall>r \<in> set rows. pl_tenant r = t))"
  using admin_step_within [OF assms(1)] assms(2) by (simp add: within_shop_def)

theorem admin_acts_in_one_shop_witness:
  "\<exists>st p'. update_status shop_id (JStr ''suspended'') ''a'' (one_shop ''active'') = Inr (st, p') \<and> platform_ok p' \<and>
     map_of (pf_shops p') ''other'' = map_of (pf_shops (one_shop ''active'')) ''other'' \<and>
     (\<exists>rows. rows \<noteq> [] \<and> pf_audit p' = rows \<and> (\<forall>r \<in> set rows. pl_tenant r = shop_id))"
proof -
  have ok: "assert_valid_tenant_id (JStr shop_id) = Inr ()" by (simp add: assert_valid_tenant_id_def shop_id_def) code_simp
  have "\<exists>st p'. update_status shop_id (JStr ''suspended'') ''a'' (one_shop ''active'') = Inr (st, p')"
    by (simp add: update_status_def ok on_shop_def one_shop_def set_status_def log_platform_def tx_guard_def STATUSES_def)
  then obtain st p' where run: "update_status shop_id (JStr ''suspended'') ''a'' (one_shop ''active'') = Inr (st, p')" by blast
  have "platform_ok (one_shop ''active'')" by (simp add: platform_ok_def one_shop_def)
  from admin_acts_in_one_shop [OF status_changed [OF run] this] run show ?thesis
    by (fastforce simp: one_shop_def shop_id_def)
qed

end
