(* ===== verification/Platform_Auth.thy ===== *)
theory Platform_Auth
  imports Platform
begin

text \<open>
  How an administrator of the platform signs in and is recognised (\<open>platform/platform-auth.service.ts\<close>,
  \<open>platform/platform-auth.controller.ts\<close>, \<open>platform/platform-auth.guard.ts\<close>), and whose address a request has
  (\<open>common/client-ip.ts\<close>). A token is its claims: the HMAC cannot be forged. Which texts are IP addresses
  (\<open>net.isIP\<close>) is a parameter.
\<close>

section \<open>The address of the caller\<close>

definition to_inet :: "(string \<Rightarrow> bool) \<Rightarrow> string option \<Rightarrow> string option" where
  "to_inet is_ip v =
     (case filled (map_option trim v) of
        None \<Rightarrow> None
      | Some a \<Rightarrow> if CHR ''%'' \<in> set a \<or> \<not> is_ip a then None else Some a)"

text \<open>The last entry of \<open>X-Forwarded-For\<close>, which the proxy appended; without a header the socket's address.\<close>

definition client_ip :: "(string \<Rightarrow> bool) \<Rightarrow> string option \<Rightarrow> string option \<Rightarrow> string option" where
  "client_ip is_ip header socket =
     (case filled header of None \<Rightarrow> to_inet is_ip socket | Some h \<Rightarrow> to_inet is_ip (Some (last (split_at (CHR '','') h))))"

section \<open>Signing in\<close>

record admin =
  ad_id :: uuid
  ad_username :: string
  ad_password_hash :: string
  ad_display_name :: string
  ad_is_active :: bool
  ad_password_changed_at :: "int option"

record platform_token =
  pt_aud :: "string option"
  pt_sub :: "uuid option"
  pt_username :: "string option"
  pt_iat :: "int option"
  pt_exp :: "int option"

definition PLATFORM_TOKEN_TTL_SEC :: int where "PLATFORM_TOKEN_TTL_SEC = 60 * 60"

definition admin_credentials_wrong :: err where
  "admin_credentials_wrong = unauthorized ''Invalid platform admin credentials''"

definition admin_token :: "auth_env \<Rightarrow> admin \<Rightarrow> platform_token" where
  "admin_token e a = \<lparr>pt_aud = Some ''platform'', pt_sub = Some (ad_id a), pt_username = Some (ad_username a), pt_iat = Some (iat_of e),
     pt_exp = Some (iat_of e + PLATFORM_TOKEN_TTL_SEC)\<rparr>"

definition admin_login_row :: "uuid \<Rightarrow> platform_audit" where
  "admin_login_row i = tenant_audit PLATFORM_AUDIT_TENANT_ID i ''platform.auth.login'' None None"

text \<open>From the row on, with the counters as they are after the attempts were counted.\<close>

definition admin_login_checked ::
  "auth_env \<Rightarrow> string \<Rightarrow> string \<Rightarrow> string option \<Rightarrow> admin list \<Rightarrow> counters \<Rightarrow> (err + platform_token \<times> admin) \<times> counters \<times> platform_audit list" where
  "admin_login_checked e name pwd ip admins c =
     (case row_of ad_username name admins of
        None \<Rightarrow> (Inl admin_credentials_wrong, c, [])
      | Some a \<Rightarrow>
          if \<not> ad_is_active a \<or> \<not> verify_password (ae_hashing e) pwd (ad_password_hash a)
          then (Inl admin_credentials_wrong, c, [])
          else
            (let c1 = clear_key (ae_sha e) (ae_rl e 2) (''platform:user:'' @ name) 60 c;
                 c2 = (case ip of None \<Rightarrow> c1 | Some x \<Rightarrow> refund_attempt (ae_sha e) (ae_rl e 3) (''platform:ip:'' @ x) 60 c1) in
             if ae_audit_ok e then (Inr (admin_token e a, a), c2, [admin_login_row (ad_id a)])
             else (Inl (Fault ''audit_log''), c2, [])))"

text \<open>A body without a name or a password is thrown out with a plain \<open>Error\<close>, which is answered with 500.\<close>

definition admin_login ::
  "auth_env \<Rightarrow> string option \<Rightarrow> string option \<Rightarrow> string option \<Rightarrow> admin list \<Rightarrow> counters \<Rightarrow> (err + platform_token \<times> admin) \<times> counters \<times> platform_audit list" where
  "admin_login e username password ip admins c =
     (case (filled username, filled password) of
        (Some name, Some pwd) \<Rightarrow>
          (let (v, c1) = (case ip of None \<Rightarrow> (Allowed, c)
                | Some x \<Rightarrow> consume_attempt (ae_sha e) (ae_rl e 0) (''platform:ip:'' @ x) 10 60 c) in
           case v of
             Limited n \<Rightarrow> (Inl (rate_limited n), c1, [])
           | Allowed \<Rightarrow>
               (let (v2, c2) = consume_attempt (ae_sha e) (ae_rl e 1) (''platform:user:'' @ name) 5 60 c1 in
                case v2 of
                  Limited n \<Rightarrow> (Inl (rate_limited n), c2, [])
                | Allowed \<Rightarrow> admin_login_checked e name pwd ip admins c2))
      | _ \<Rightarrow> (Inl (Fault ''Username and password are required''), c, []))"

section \<open>The guard of the platform's routes\<close>

definition ascii_lower :: "string \<Rightarrow> string" where
  "ascii_lower = map (\<lambda>c. if 65 \<le> (of_char c :: nat) \<and> (of_char c :: nat) \<le> 90 then char_of ((of_char c :: nat) + 32) else c)"

definition is_allowed_ip :: "string list \<Rightarrow> string option \<Rightarrow> bool" where
  "is_allowed_ip admin_ips ip =
     (case filled ip of
        None \<Rightarrow> False
      | Some a \<Rightarrow>
          (let low = ascii_lower a; clean = (if take 7 low = ''::ffff:'' then drop 7 low else low) in
           clean = ''127.0.0.1'' \<or> clean = ''::1'' \<or> clean \<in> set admin_ips))"

text \<open>The scheme and the token of the header: its first two parts between spaces.\<close>

definition bearer_of :: "string option \<Rightarrow> err + string" where
  "bearer_of header =
     (case filled header of
        None \<Rightarrow> Inl (unauthorized ''Missing Authorization header'')
      | Some h \<Rightarrow>
          (case split_at (CHR '' '') h of
             scheme # tok # _ \<Rightarrow> if scheme = ''Bearer'' \<and> tok \<noteq> [] then Inr tok else Inl (unauthorized ''Invalid Authorization header format'')
           | _ \<Rightarrow> Inl (unauthorized ''Invalid Authorization header format'')))"

text \<open>
  What Redis keeps of an administrator for 60 s: '0' missing or inactive, '1' active with no password change on
  record, else the second of the last one.
\<close>

definition cutoff_of :: "admin list \<Rightarrow> uuid \<Rightarrow> string" where
  "cutoff_of admins i =
     (case row_of ad_id i (filter ad_is_active admins) of
        None \<Rightarrow> ''0''
      | Some a \<Rightarrow> (case ad_password_changed_at a of None \<Rightarrow> ''1'' | Some t \<Rightarrow> show_nat (nat (t div 1000))))"

definition cutoff_verdict :: "string \<Rightarrow> platform_token \<Rightarrow> err + unit" where
  "cutoff_verdict cached j =
     (if cached = ''0'' then Inl (unauthorized ''Platform admin does not exist or is inactive'')
      else if cached \<noteq> ''1'' \<and> (case pt_iat j of None \<Rightarrow> 0 | Some t \<Rightarrow> t) < int (digits_val cached)
      then Inl (unauthorized ''Platform token predates the last password change'')
      else Inr ())"

text \<open>
  \<open>verified\<close> is what \<open>verifyJwt\<close> makes of a token (none for a bad signature, a broken body or an expired token); \<open>reads\<close> and
  \<open>writes\<close> say whether Redis answers. The answer is who acts.
\<close>

definition platform_guard ::
  "string list \<Rightarrow> (string \<Rightarrow> platform_token option) \<Rightarrow> bool \<Rightarrow> bool \<Rightarrow> admin list \<Rightarrow> string option \<Rightarrow> string option \<Rightarrow> (uuid \<rightharpoonup> string) \<Rightarrow>
    (err + uuid \<times> string option) \<times> (uuid \<rightharpoonup> string)" where
  "platform_guard admin_ips verified reads writes admins ip header cache =
     (if \<not> is_allowed_ip admin_ips ip then (Inl (HttpErr 403 ''PLATFORM_IP_FORBIDDEN'' NoDetail), cache)
      else case bearer_of header of
        Inl f \<Rightarrow> (Inl f, cache)
      | Inr tok \<Rightarrow>
          (case verified tok of
             None \<Rightarrow> (Inl (unauthorized ''Invalid or expired platform token''), cache)
           | Some j \<Rightarrow>
               if pt_aud j \<noteq> Some ''platform'' then (Inl (forbidden ''Token audience is not platform''), cache)
               else case filled (pt_sub j) of
                 None \<Rightarrow> (Inl (unauthorized ''Token missing platform admin id''), cache)
               | Some i \<Rightarrow>
                   (case (if reads then cache i else None) of
                      Some v \<Rightarrow> (map_sum id (\<lambda>_. (i, pt_username j)) (cutoff_verdict v j), cache)
                    | None \<Rightarrow>
                        (let v = cutoff_of admins i in
                         (map_sum id (\<lambda>_. (i, pt_username j)) (cutoff_verdict v j), if writes then cache(i \<mapsto> v) else cache)))))"

section \<open>Properties\<close>

lemma split_at_no: "d \<notin> set b \<Longrightarrow> split_at d b = [b]"
  by (induction b) auto

lemma split_at_nonempty: "split_at d xs \<noteq> []"
  by (induction xs) (auto split: list.split)

lemma split_at_more: "\<exists>w v ws. split_at d (a @ d # b) = w # v # ws"
proof (induction a)
  case Nil
  then show ?case using split_at_nonempty [of d b] by (cases "split_at d b") auto
qed (auto split: list.split)

lemma split_at_last: "d \<notin> set b \<Longrightarrow> last (split_at d (a @ d # b)) = b"
proof (induction a)
  case (Cons c cs)
  then show ?case using split_at_more [of d cs b] by auto
qed (simp add: split_at_no)

text \<open>
  A caller does not choose his address: whatever he sends in \<open>X-Forwarded-For\<close>, once the proxy has appended the address it
  saw, that address alone is the one counted, recorded and compared with the allow-list.
\<close>

theorem address_not_forgeable:
  assumes "CHR '','' \<notin> set seen"
  shows "client_ip is_ip (Some (sent @ CHR '','' # seen)) socket = to_inet is_ip (Some seen)"
proof -
  have "filled (Some (sent @ CHR '','' # seen)) = Some (sent @ CHR '','' # seen)" by (simp add: filled_def)
  then show ?thesis using split_at_last [OF assms] by (simp add: client_ip_def)
qed

theorem address_not_forgeable_witness:
  "client_ip (\<lambda>a. a = ''9.9.9.9'' \<or> a = ''127.0.0.1'') (Some ''127.0.0.1, 9.9.9.9'') None = Some ''9.9.9.9''"
  using address_not_forgeable [of "'' 9.9.9.9''" "\<lambda>a. a = ''9.9.9.9'' \<or> a = ''127.0.0.1''" "''127.0.0.1''" None]
  by (simp add: to_inet_def trim_def filled_def is_space_def)

lemma shown_cutoff:
  assumes "2 \<le> n"
  shows "show_nat n \<noteq> ''0''" "show_nat n \<noteq> ''1''"
proof -
  have "digits_val ''0'' = 0" "digits_val ''1'' = 1" by (code_simp)+
  with assms have "digits_val (show_nat n) \<noteq> digits_val ''0''" "digits_val (show_nat n) \<noteq> digits_val ''1''" by simp_all
  then show "show_nat n \<noteq> ''0''" "show_nat n \<noteq> ''1''" by metis+
qed

lemma late_cutoff:
  assumes "row_of ad_id i (filter ad_is_active admins) = Some a" "ad_password_changed_at a = Some t" "2000 \<le> t"
    and "(case pt_iat j of None \<Rightarrow> 0 | Some s \<Rightarrow> s) < t div 1000"
  shows "cutoff_verdict (cutoff_of admins i) j = Inl (unauthorized ''Platform token predates the last password change'')"
proof -
  have n: "2 \<le> nat (t div 1000)" "int (nat (t div 1000)) = t div 1000" using assms(3) by simp_all
  have c: "cutoff_of admins i = show_nat (nat (t div 1000))" by (simp add: cutoff_of_def assms(1,2))
  show ?thesis unfolding c cutoff_verdict_def using shown_cutoff [OF n(1)] assms(4) n(2) by simp
qed

text \<open>
  An administrator who has been deactivated, or whose password changed after his token was issued, is refused on every
  address and with every cache that holds what the table says (or nothing): with Redis reading or not, writing or
  not, and the entry the refusal leaves behind refuses him again.
\<close>

theorem stale_admin_refused:
  assumes "verified tok = Some j" "pt_sub j = Some i" "cache i \<in> {None, Some (cutoff_of admins i)}"
    and "\<And>a. row_of ad_id i (filter ad_is_active admins) = Some a \<Longrightarrow>
      \<exists>t. ad_password_changed_at a = Some t \<and> (case pt_iat j of None \<Rightarrow> 0 | Some s \<Rightarrow> s) < t div 1000 \<and> 2000 \<le> t"
    and "bearer_of header = Inr tok"
  shows "\<exists>f cache'. platform_guard ips verified reads writes admins ip header cache = (Inl f, cache') \<and>
    cache' i \<in> {None, Some (cutoff_of admins i)}"
proof -
  have "\<exists>f. cutoff_verdict (cutoff_of admins i) j = Inl f"
  proof (cases "row_of ad_id i (filter ad_is_active admins)")
    case None
    then show ?thesis by (simp add: cutoff_of_def cutoff_verdict_def)
  next
    case (Some a)
    then show ?thesis using assms(4) [OF Some] late_cutoff by blast
  qed
  then obtain f where f: "cutoff_verdict (cutoff_of admins i) j = Inl f" by blast
  have held: "cache i = None \<or> cache i = Some (cutoff_of admins i)" using assms(3) by simp
  show ?thesis
  proof (cases "is_allowed_ip ips ip \<and> pt_aud j = Some ''platform'' \<and> i \<noteq> []")
    case True
    then show ?thesis using held by (auto simp: platform_guard_def assms(1,2,5) filled_def f Let_def)
  qed (use held in \<open>auto simp: platform_guard_def assms(1,2,5) filled_def\<close>)
qed

definition former_admin :: admin where
  "former_admin = \<lparr>ad_id = ''p'', ad_username = ''ops'', ad_password_hash = ''h'', ad_display_name = ''Ops'', ad_is_active = True,
     ad_password_changed_at = Some 9000\<rparr>"

definition old_pass :: platform_token where
  "old_pass = \<lparr>pt_aud = Some ''platform'', pt_sub = Some ''p'', pt_username = Some ''ops'', pt_iat = Some 8, pt_exp = Some 3608\<rparr>"

theorem stale_admin_refused_witness:
  "\<exists>f cache'. platform_guard [] (\<lambda>_. Some old_pass) True True [former_admin] (Some ''::1'') (Some ''Bearer x'') Map.empty = (Inl f, cache') \<and>
     cache' ''p'' \<in> {None, Some (cutoff_of [former_admin] ''p'')}"
  using stale_admin_refused [of "\<lambda>_. Some old_pass" "''x''" old_pass "''p''" Map.empty "[former_admin]" "Some ''Bearer x''" "[]" True True "Some ''::1''"]
  by (simp add: old_pass_def former_admin_def row_of_def bearer_of_def filled_def)

end
