(* ===== verification/Platform_Audit.thy ===== *)
theory Platform_Audit
  imports Platform Payment_Accounts
begin

text \<open>
  The audit log of a shop as an administrator pages through it (\<open>platform/platform-audit.service.ts\<close>): newest first, with
  an opaque cursor that is the base64url text of the last row's instant and number, checked before any statement
  runs. How Postgres reads a timestamp's text (\<open>::timestamptz\<close>) is a parameter.
\<close>

section \<open>Base64url, as \<open>Buffer\<close> writes and reads it\<close>

definition url_digit :: "nat \<Rightarrow> char" where
  "url_digit n = (if n = 62 then CHR ''-'' else if n = 63 then CHR ''_'' else b64_digit n)"

definition url_value :: "char \<Rightarrow> nat option" where
  "url_value c = (if c = CHR ''-'' then Some 62 else if c = CHR ''_'' then Some 63
     else if c = CHR ''+'' \<or> c = CHR ''/'' then None else b64_value c)"

fun sextets :: "nat list \<Rightarrow> nat list" where
  "sextets [] = []"
| "sextets [a] = [a div 4, a mod 4 * 16]"
| "sextets [a, b] = [a div 4, a mod 4 * 16 + b div 16, b mod 16 * 4]"
| "sextets (a # b # c # r) = a div 4 # (a mod 4 * 16 + b div 16) # (b mod 16 * 4 + c div 64) # (c mod 64) # sextets r"

text \<open>Bits past the last whole byte are dropped.\<close>

fun octets :: "nat list \<Rightarrow> nat list" where
  "octets (a # b # c # d # r) = (a * 4 + b div 16) # (b mod 16 * 16 + c div 4) # (c mod 4 * 64 + d) # octets r"
| "octets [a, b, c] = [a * 4 + b div 16, b mod 16 * 16 + c div 4]"
| "octets [a, b] = [a * 4 + b div 16]"
| "octets _ = []"

definition url_encode :: "string \<Rightarrow> string" where
  "url_encode s = map url_digit (sextets (map of_char s))"

definition url_decode :: "string \<Rightarrow> string" where
  "url_decode s = map char_of (octets (map (\<lambda>c. case url_value c of None \<Rightarrow> 0 | Some n \<Rightarrow> n) s))"

section \<open>The cursor\<close>

type_synonym audit_cursor = "string \<times> string"

definition encode_audit_cursor :: "audit_cursor \<Rightarrow> string" where
  "encode_audit_cursor c = url_encode (fst c @ CHR ''|'' # snd c)"

definition STAMP_SHAPE :: string where "STAMP_SHAPE = ''0000-00-00T00:00:00.000000Z''"

text \<open>A 0 of the shape stands for any digit.\<close>

definition stamp_text :: "string \<Rightarrow> bool" where
  "stamp_text s \<longleftrightarrow> list_all2 (\<lambda>p c. if p = CHR ''0'' then is_digit c else c = p) STAMP_SHAPE s"

definition field_val :: "nat \<Rightarrow> nat \<Rightarrow> string \<Rightarrow> int" where
  "field_val from len s = int (digits_val (take len (drop from s)))"

text \<open>\<open>Date.parse\<close> of such a text; fields out of their range run over into the next, which the comparison below refuses as it refuses NaN.\<close>

definition stamp_ms :: "string \<Rightarrow> int" where
  "stamp_ms s = days_from_civil (field_val 0 4 s) (field_val 5 2 s) (field_val 8 2 s) * DAY_LENGTH_MS +
     field_val 11 2 s * 3600000 + field_val 14 2 s * 60000 + field_val 17 2 s * 1000 + field_val 20 3 s"

definition real_stamp :: "string \<Rightarrow> bool" where
  "real_stamp s \<longleftrightarrow> take 23 (iso_string (stamp_ms s)) = take 23 s"

definition BIGINT_MAX :: nat where "BIGINT_MAX = 9223372036854775807"

definition cursor_fields :: "string \<Rightarrow> audit_cursor option" where
  "cursor_fields t =
     (let stamp = take 27 t; n = drop 28 t in
      if stamp_text stamp \<and> take 1 (drop 27 t) = ''|'' \<and> n \<noteq> [] \<and> length n \<le> 19 \<and> list_all is_digit n then Some (stamp, n) else None)"

definition invalid_audit_cursor :: err where "invalid_audit_cursor = HttpErr 400 ''INVALID_AUDIT_CURSOR'' NoDetail"

definition decode_audit_cursor :: "jsval \<Rightarrow> err + audit_cursor" where
  "decode_audit_cursor raw =
     (case raw of
        JStr s \<Rightarrow>
          if s = [] \<or> 200 < length s \<or> \<not> list_all (\<lambda>c. url_value c \<noteq> None) s then Inl invalid_audit_cursor
          else (case cursor_fields (url_decode s) of
             None \<Rightarrow> Inl invalid_audit_cursor
           | Some (stamp, n) \<Rightarrow>
               if \<not> real_stamp stamp \<or> BIGINT_MAX < digits_val n then Inl invalid_audit_cursor else Inr (stamp, n))
      | _ \<Rightarrow> Inl invalid_audit_cursor)"

definition AUDIT_PAGE_DEFAULT :: nat where "AUDIT_PAGE_DEFAULT = 50"
definition AUDIT_PAGE_MAX :: nat where "AUDIT_PAGE_MAX = 200"

definition parse_audit_limit :: "jsval \<Rightarrow> err + nat" where
  "parse_audit_limit raw =
     (case raw of
        JUndef \<Rightarrow> Inr AUDIT_PAGE_DEFAULT
      | JStr s \<Rightarrow>
          if s = [] then Inr AUDIT_PAGE_DEFAULT
          else if 6 < length s \<or> \<not> list_all is_digit s \<or> digits_val s < 1 then Inl (HttpErr 400 ''INVALID_AUDIT_LIMIT'' NoDetail)
          else Inr (min (digits_val s) AUDIT_PAGE_MAX)
      | _ \<Rightarrow> Inl (HttpErr 400 ''INVALID_AUDIT_LIMIT'' NoDetail))"

section \<open>The entries\<close>

text \<open>A row of the joined query; \<open>al_stamp\<close> is its instant printed in UTC to the microsecond.\<close>

record log_row =
  al_id :: nat
  al_at :: int
  al_stamp :: string
  al_action :: string
  al_entity :: "string option"
  al_entity_id :: "string option"
  al_admin :: "uuid option"
  al_admin_name :: "string option"
  al_user :: "uuid option"
  al_user_name :: "string option"
  al_device :: "uuid option"
  al_device_label :: "string option"
  al_device_no :: "nat option"
  al_ip :: "string option"

type_synonym device_ref = "uuid \<times> string option \<times> nat option"

datatype audit_actor = By_Admin uuid "string option" | By_User uuid "string option" | By_Device device_ref | By_System

record audit_entry =
  en_id :: nat
  en_action :: string
  en_entity :: "string option"
  en_entity_id :: "string option"
  en_actor :: audit_actor
  en_device :: "device_ref option"
  en_ip :: "string option"
  en_created_at :: string

definition to_audit_entry :: "log_row \<Rightarrow> audit_entry" where
  "to_audit_entry r =
     (let device = map_option (\<lambda>i. (i, al_device_label r, al_device_no r)) (filled (al_device r));
          actor = (case filled (al_admin r) of
              Some a \<Rightarrow> By_Admin a (al_admin_name r)
            | None \<Rightarrow> (case filled (al_user r) of
                Some u \<Rightarrow> By_User u (al_user_name r)
              | None \<Rightarrow> (case device of Some d \<Rightarrow> By_Device d | None \<Rightarrow> By_System))) in
      \<lparr>en_id = al_id r, en_action = al_action r, en_entity = al_entity r, en_entity_id = al_entity_id r, en_actor = actor,
       en_device = (case actor of By_Device _ \<Rightarrow> None | _ \<Rightarrow> device), en_ip = al_ip r, en_created_at = al_stamp r\<rparr>)"

section \<open>A page\<close>

definition newest_first :: "log_row \<Rightarrow> int \<times> int" where
  "newest_first r = (- al_at r, - int (al_id r))"

definition older_than :: "(string \<Rightarrow> int) \<Rightarrow> audit_cursor option \<Rightarrow> log_row \<Rightarrow> bool" where
  "older_than ts c r = (case c of None \<Rightarrow> True | Some (stamp, n) \<Rightarrow> (al_at r, int (al_id r)) < (ts stamp, int (digits_val n)))"

definition audit_cursor_of :: "jsval \<Rightarrow> err + audit_cursor option" where
  "audit_cursor_of before =
     (if before = JUndef \<or> before = JStr [] then Inr None else e_bind (decode_audit_cursor before) (\<lambda>c. Inr (Some c)))"

text \<open>One row more than the page tells whether there is another page.\<close>

definition audit_page :: "(string \<Rightarrow> int) \<Rightarrow> audit_cursor option \<Rightarrow> nat \<Rightarrow> log_row list \<Rightarrow> log_row list \<times> string option" where
  "audit_page ts c limit rows =
     (let found = take (limit + 1) (sort_key newest_first (filter (older_than ts c) rows)); page = take limit found in
      (page, if limit < length found \<and> page \<noteq> []
             then Some (encode_audit_cursor (al_stamp (last page), show_nat (al_id (last page)))) else None))"

text \<open>\<open>listTenantAudit\<close>; \<open>rows\<close> are the rows of that shop.\<close>

definition list_tenant_audit ::
  "(string \<Rightarrow> int) \<Rightarrow> bool \<Rightarrow> string \<Rightarrow> jsval \<Rightarrow> jsval \<Rightarrow> uuid \<Rightarrow> log_row list \<Rightarrow> platform \<Rightarrow> (err + audit_entry list \<times> string option) \<times> platform" where
  "list_tenant_audit ts audit_ok t before limit admin rows p =
     (case e_bind (assert_valid_tenant_id (JStr t)) (\<lambda>_. e_bind (parse_audit_limit limit) (\<lambda>n.
        e_bind (audit_cursor_of before) (\<lambda>c. Inr (n, c)))) of
        Inl f \<Rightarrow> (Inl f, p)
      | Inr (n, c) \<Rightarrow>
          (case map_of (pf_shops p) t of
             None \<Rightarrow> (Inl (tenant_not_found t), try_log audit_ok (read_not_found ''platform.tenant.audit.read_not_found'' t admin) p)
           | Some s \<Rightarrow>
               (let (page, next) = audit_page ts c n rows in
                (Inr (map to_audit_entry page, next),
                 try_log audit_ok ((tenant_audit t admin ''platform.tenant.audit.read'' None
                   (Some [(''limit'', js_int (int n)), (''paged'', JBool (c \<noteq> None)), (''returned'', js_int (int (length page)))]))
                   \<lparr>pl_entity := Some ''audit_log''\<rparr>) p))))"

text \<open>A reader that follows the cursors he is given; none when the fuel runs out or a cursor is refused.\<close>

fun audit_walk :: "nat \<Rightarrow> (string \<Rightarrow> int) \<Rightarrow> nat \<Rightarrow> log_row list \<Rightarrow> jsval \<Rightarrow> log_row list list option" where
  "audit_walk 0 ts limit rows before = None"
| "audit_walk (Suc n) ts limit rows before =
     (case audit_cursor_of before of
        Inl _ \<Rightarrow> None
      | Inr c \<Rightarrow>
          (case audit_page ts c limit rows of
             (page, None) \<Rightarrow> Some [page]
           | (page, Some next) \<Rightarrow> map_option (Cons page) (audit_walk n ts limit rows (JStr next))))"

section \<open>The cursor comes back\<close>

lemma url_value_digit: "n < 64 \<Longrightarrow> url_value (url_digit n) = Some n"
proof -
  have "list_all (\<lambda>n. url_value (url_digit n) = Some n) [0..<64]" by code_simp
  then show "n < 64 \<Longrightarrow> url_value (url_digit n) = Some n" by (auto simp: list_all_iff)
qed

lemma sextets_bound: "\<forall>x \<in> set bs. x < 256 \<Longrightarrow> \<forall>x \<in> set (sextets bs). x < 64"
proof (induction bs rule: sextets.induct)
  case (2 a)
  then show ?case using b64_parts [of a 0 0] by simp
next
  case (3 a b)
  then show ?case using b64_parts [of a b 0] by simp
next
  case (4 a b c r)
  then show ?case using b64_parts [of a b c] by simp
qed simp

lemma octets_sextets: "\<forall>x \<in> set bs. x < 256 \<Longrightarrow> octets (sextets bs) = bs"
proof (induction bs rule: sextets.induct)
  case (2 a)
  then show ?case using b64_parts [of a 0 0] by simp
next
  case (3 a b)
  then show ?case using b64_parts [of a b 0] by simp
next
  case (4 a b c r)
  then show ?case using b64_parts [of a b c] by simp
qed simp

lemma bytes_small: "\<forall>x \<in> set (map of_char s :: nat list). x < 256"
  by auto

lemma url_chars: "list_all (\<lambda>c. url_value c \<noteq> None) (url_encode s)"
  using sextets_bound [OF bytes_small] by (auto simp: url_encode_def list_all_iff url_value_digit)

lemma url_round_trip: "url_decode (url_encode s) = s"
proof -
  have "map ((\<lambda>c. case url_value c of None \<Rightarrow> 0 | Some n \<Rightarrow> n) \<circ> url_digit) (sextets (map of_char s)) = sextets (map of_char s)"
    using sextets_bound [OF bytes_small] by (intro map_idI) (auto simp: url_value_digit)
  then show ?thesis by (simp add: url_decode_def url_encode_def octets_sextets [OF bytes_small] map_idI)
qed

lemma sextets_length: "length (sextets bs) \<le> 2 * length bs"
  by (induction bs rule: sextets.induct) auto

definition cursor_ok :: "audit_cursor \<Rightarrow> bool" where
  "cursor_ok c \<longleftrightarrow> stamp_text (fst c) \<and> real_stamp (fst c) \<and> snd c \<noteq> [] \<and> length (snd c) \<le> 19 \<and> list_all is_digit (snd c) \<and>
     digits_val (snd c) \<le> BIGINT_MAX"

lemma decode_encode:
  assumes "cursor_ok c"
  shows "decode_audit_cursor (JStr (encode_audit_cursor c)) = Inr c"
proof -
  have len: "length (fst c) = 27"
    using assms by (auto simp: cursor_ok_def stamp_text_def STAMP_SHAPE_def dest!: list_all2_lengthD)
  have "length (encode_audit_cursor c) \<le> 2 * (28 + length (snd c))"
    using sextets_length [of "map of_char (fst c @ CHR ''|'' # snd c)"] len by (simp add: encode_audit_cursor_def url_encode_def)
  then have short: "length (encode_audit_cursor c) \<le> 200" using assms by (simp add: cursor_ok_def)
  have "url_decode (encode_audit_cursor c) = fst c @ CHR ''|'' # snd c" by (simp add: encode_audit_cursor_def url_round_trip)
  then have fields: "cursor_fields (url_decode (encode_audit_cursor c)) = Some c"
    using assms len by (simp add: cursor_fields_def cursor_ok_def)
  have "encode_audit_cursor c \<noteq> []"
  proof
    assume "encode_audit_cursor c = []"
    with fields show False by (simp add: url_decode_def cursor_fields_def stamp_text_def STAMP_SHAPE_def)
  qed
  then show ?thesis
    using short fields url_chars [of "fst c @ CHR ''|'' # snd c"] assms
    by (cases c) (auto simp: decode_audit_cursor_def encode_audit_cursor_def cursor_ok_def)
qed

lemma decoded_cursor: "decode_audit_cursor (JStr x) = Inr c \<Longrightarrow> audit_cursor_of (JStr x) = Inr (Some c)"
proof (cases "x = []")
  case True
  then show "decode_audit_cursor (JStr x) = Inr c \<Longrightarrow> ?thesis" by (simp add: decode_audit_cursor_def)
qed (simp add: audit_cursor_of_def)

section \<open>The walk\<close>

text \<open>What Postgres promises of the rows: numbers are unique, and a stamp reads back as the instant it was printed from.\<close>

definition log_ok :: "(string \<Rightarrow> int) \<Rightarrow> log_row list \<Rightarrow> bool" where
  "log_ok ts rows \<longleftrightarrow> distinct (map al_id rows) \<and>
     (\<forall>r \<in> set rows. cursor_ok (al_stamp r, show_nat (al_id r)) \<and> ts (al_stamp r) = al_at r)"

lemma older_than_row:
  assumes "log_ok ts rows" "x \<in> set rows"
  shows "older_than ts (Some (al_stamp x, show_nat (al_id x))) r \<longleftrightarrow> newest_first x < newest_first r"
  using assms by (auto simp: older_than_def newest_first_def log_ok_def less_prod_def)

lemma audit_rest:
  assumes "log_ok ts rows" "xs = sort_key newest_first (filter (older_than ts c) rows)" "take limit xs \<noteq> []"
    and "\<And>x r. x \<in> set xs \<Longrightarrow> newest_first x < newest_first r \<Longrightarrow> older_than ts c r"
  shows "sort_key newest_first (filter (older_than ts (Some (al_stamp (last (take limit xs)), show_nat (al_id (last (take limit xs)))))) rows) = drop limit xs"
proof -
  let ?x = "last (take limit xs)"
  have x: "?x \<in> set xs" using last_in_set [OF assms(3)] set_take_subset by fastforce
  then have mem: "?x \<in> set rows" by (simp add: assms(2))
  have "distinct (map newest_first (filter (older_than ts c) rows))"
    using assms(1) by (auto simp: log_ok_def distinct_map inj_on_def newest_first_def)
  then have d: "distinct (map newest_first xs)" by (simp add: assms(2) distinct_map)
  have "filter (older_than ts (Some (al_stamp ?x, show_nat (al_id ?x)))) rows =
      filter (\<lambda>r. newest_first ?x < newest_first r) (filter (older_than ts c) rows)"
    using older_than_row [OF assms(1) mem] assms(4) [OF x] unfolding filter_filter by (intro filter_cong) auto
  then have "sort_key newest_first (filter (older_than ts (Some (al_stamp ?x, show_nat (al_id ?x)))) rows) =
      filter (\<lambda>r. newest_first ?x < newest_first r) xs"
    by (simp add: filter_sort assms(2))
  also have "\<dots> = drop limit xs" by (rule sorted_after_take [OF _ d assms(3)]) (simp add: assms(2))
  finally show ?thesis .
qed

lemma audit_walk_rest:
  assumes "log_ok ts rows" "0 < limit"
  shows "audit_cursor_of before = Inr c \<Longrightarrow> xs = sort_key newest_first (filter (older_than ts c) rows) \<Longrightarrow> length xs < n \<Longrightarrow>
    (\<And>x r. x \<in> set xs \<Longrightarrow> newest_first x < newest_first r \<Longrightarrow> older_than ts c r) \<Longrightarrow>
    \<exists>pages. audit_walk n ts limit rows before = Some pages \<and> concat pages = xs \<and> (\<forall>p \<in> set pages. length p \<le> limit)"
proof (induction n arbitrary: before c xs)
  case (Suc n)
  show ?case
  proof (cases "length xs \<le> limit")
    case True
    then show ?thesis using Suc.prems(1,2) by (simp add: audit_page_def Let_def)
  next
    case False
    let ?x = "last (take limit xs)"
    let ?c = "(al_stamp ?x, show_nat (al_id ?x))"
    have ne: "take limit xs \<noteq> []" using False assms(2) by auto
    have x: "?x \<in> set xs" using last_in_set [OF ne] set_take_subset by fastforce
    then have mem: "?x \<in> set rows" by (simp add: Suc.prems(2))
    have page: "audit_page ts c limit rows = (take limit xs, Some (encode_audit_cursor ?c))"
      using False ne Suc.prems(2) by (simp add: audit_page_def Let_def min_def)
    have ok: "cursor_ok ?c" using assms(1) mem by (simp add: log_ok_def)
    have comes: "audit_cursor_of (JStr (encode_audit_cursor ?c)) = Inr (Some ?c)"
      by (rule decoded_cursor [OF decode_encode [OF ok]])
    have rest: "sort_key newest_first (filter (older_than ts (Some ?c)) rows) = drop limit xs"
      by (rule audit_rest [OF assms(1) Suc.prems(2) ne]) (rule Suc.prems(4))
    have "\<exists>pages. audit_walk n ts limit rows (JStr (encode_audit_cursor ?c)) = Some pages \<and> concat pages = drop limit xs \<and>
        (\<forall>p \<in> set pages. length p \<le> limit)"
    proof (rule Suc.IH [OF comes])
      show "drop limit xs = sort_key newest_first (filter (older_than ts (Some ?c)) rows)" using rest by simp
      show "length (drop limit xs) < n" using Suc.prems(3) assms(2) False by simp
      fix y r
      assume y: "y \<in> set (drop limit xs)" and "newest_first y < newest_first r"
      then have "y \<in> set (filter (older_than ts (Some ?c)) rows)" using y by (simp only: rest [symmetric] set_sort)
      then have "older_than ts (Some ?c) y" by (simp only: set_filter mem_Collect_eq)
      then have "newest_first ?x < newest_first y" by (simp only: older_than_row [OF assms(1) mem])
      then have "newest_first ?x < newest_first r" using \<open>newest_first y < newest_first r\<close> by (rule less_trans)
      then show "older_than ts (Some ?c) r" by (simp only: older_than_row [OF assms(1) mem])
    qed
    then obtain pages where "audit_walk n ts limit rows (JStr (encode_audit_cursor ?c)) = Some pages" "concat pages = drop limit xs"
      "\<forall>p \<in> set pages. length p \<le> limit" by blast
    then show ?thesis using Suc.prems(1) page by simp
  qed
qed simp

section \<open>Properties\<close>

text \<open>
  C22. Paging through the audit log misses nothing: a reader that starts without a cursor and hands back each cursor it is
  given is never refused, ends after at most as many pages as there are rows and one, and has seen every row of the
  shop exactly once, newest first, no page longer than the limit - even where many rows share one instant.
\<close>

theorem audit_walk_complete:
  assumes "log_ok ts rows" "0 < limit"
  shows "\<exists>pages. audit_walk (length rows + 1) ts limit rows JUndef = Some pages \<and> concat pages = sort_key newest_first rows \<and>
    (\<forall>p \<in> set pages. length p \<le> limit)"
  using audit_walk_rest [OF assms, of JUndef None "sort_key newest_first rows" "length rows + 1"]
  by (simp add: audit_cursor_of_def older_than_def)

definition log_entry :: "nat \<Rightarrow> log_row" where
  "log_entry n = \<lparr>al_id = n, al_at = 0, al_stamp = ''1970-01-01T00:00:00.000000Z'', al_action = ''sale.create'', al_entity = None, al_entity_id = None,
     al_admin = None, al_admin_name = None, al_user = None, al_user_name = None, al_device = None, al_device_label = None, al_device_no = None, al_ip = None\<rparr>"

lemma epoch_stamp: "stamp_text ''1970-01-01T00:00:00.000000Z''" "stamp_ms ''1970-01-01T00:00:00.000000Z'' = 0"
  by (code_simp)+

lemma log_entry_ok: "cursor_ok (al_stamp (log_entry 1), show_nat 1)" "cursor_ok (al_stamp (log_entry 2), show_nat 2)"
proof -
  have "show_nat 1 = ''1''" "show_nat 2 = ''2''" "list_all is_digit ''1''" "list_all is_digit ''2''" "digits_val ''1'' = 1" "digits_val ''2'' = 2"
    by (code_simp)+
  then show "cursor_ok (al_stamp (log_entry 1), show_nat 1)" "cursor_ok (al_stamp (log_entry 2), show_nat 2)"
    using iso_samples(1) by (simp_all add: cursor_ok_def log_entry_def epoch_stamp real_stamp_def BIGINT_MAX_def)
qed

theorem audit_walk_complete_witness:
  "\<exists>pages. audit_walk 3 (\<lambda>_. 0) 1 [log_entry 1, log_entry 2] JUndef = Some pages \<and> concat pages = [log_entry 2, log_entry 1]"
proof -
  have "log_ok (\<lambda>_. 0) [log_entry 1, log_entry 2]" using log_entry_ok by (simp add: log_ok_def) (simp add: log_entry_def)
  from audit_walk_complete [OF this, of 1]
  obtain pages where p: "audit_walk 3 (\<lambda>_. 0) 1 [log_entry 1, log_entry 2] JUndef = Some pages"
    "concat pages = sort_key newest_first [log_entry 1, log_entry 2]" by (auto simp: numeral_3_eq_3)
  have "sort_key newest_first [log_entry 1, log_entry 2] = [log_entry 2, log_entry 1]"
    by (simp add: newest_first_def log_entry_def less_eq_prod_def)
  with p show ?thesis by auto
qed

end
