(* ===== verification/Spec2Isabelle.thy ===== *)
theory Spec2Isabelle
  imports Shop_Documents Auth_Facts Payment_Accounts Catalogue Tenant_Cache Parked_Sales Review_Items Reports Platform_Facts Platform_Auth Platform_Audit
begin

text \<open>
  A model of the server of the SriSurart point of sale (\<open>src/server/src\<close>, NestJS over Postgres and Redis), with the
  theorems that make it correct. Each theory opens with a note on what it holds; this is the map.

  \<^bold>\<open>The program.\<close> A shop (a tenant) has tills that sell offline and push what they did. The server keeps the shop's tables;
  every request runs one transaction (\<open>common/database/tenant.service.ts\<close>), writes are claimed under an idempotency key,
  and what must happen after a commit - cache invalidations, queue jobs - is a list of hooks.

  \<^bold>\<open>How it is modelled.\<close> The tables of one shop are a record \<open>db\<close> of lists of rows (\<open>Schema\<close>, after the migrations); an operation
  is a function from a state to an error or an answer with the new state (\<open>tx\<close> in \<open>Prelude\<close>, \<open>op\<close> in \<open>Schema\<close>), composed as the code
  composes its awaits. A statement that fails its constraint ends the operation with the database's error; an error keeps
  nothing. \<open>NUMERIC(12,2)\<close> amounts are whole satang. A request body is a \<open>jsval\<close> and a JavaScript number a real rounded
  to a double (\<open>Js_Number\<close>), so that where the code computes money with floating point the rounding is in the model. Texts
  are their UTF-8 bytes, instants milliseconds. Transactions are atomic: the locks the code takes are what makes
  them so. Concurrency is modelled where the code is built for it: the order of whole transactions (the step relations), the
  phases of an idempotent request (\<open>Idempotency\<close>), refreshes of a token chain (\<open>Auth_Facts\<close>), the counters of the rate
  limits (\<open>Rate_Limit\<close>) and the readers and writers of the cache (\<open>Tenant_Cache\<close>).

  \<^bold>\<open>The theories.\<close>

  \<^item> \<open>Prelude\<close>, \<open>Js_Number\<close>, \<open>Js_Value\<close>, \<open>Js_Text\<close>, \<open>Js_Date\<close>, \<open>Money\<close>, \<open>Ids\<close>, \<open>Paging\<close>, \<open>Keyset\<close>, \<open>Schema\<close>: transactions and keyed tables; doubles, JSON
    values and their validators, \<open>Number(text)\<close>, \<open>toISOString\<close>; \<open>common/money.ts\<close>, \<open>purchasing/weighted-average.ts\<close>; \<open>common/ids.ts\<close> (UUIDs
    of version 7 on words); \<open>common/paginated.ts\<close>; the cursor of incremental reads; rows, constraints and hooks.
  \<^item> \<open>Doc_Number\<close> (\<open>documents/\<close>), \<open>Shifts\<close> (\<open>shifts/\<close>, \<open>reports/drawer-cash.sql.ts\<close>), \<open>Stock\<close>: document numbers, the cash drawer, and the
    shelf with its log. \<open>Devices\<close> (\<open>devices/\<close>): numbers, enrolment codes, retirement together with the drawer.
  \<^item> \<open>Sales_Dto\<close>, \<open>Sales\<close>, \<open>Sales_Facts\<close>, \<open>Sale_Reads\<close>, \<open>Void_Sale\<close> (\<open>sales/\<close>): the body of a bill, its transaction, replays, reads, the void.
  \<^item> \<open>Returns_Dto\<close>, \<open>Returns\<close>, \<open>Returns_Facts\<close> (\<open>returns/\<close>): credit notes and the guards that bound them.
  \<^item> \<open>Quotes\<close>, \<open>Quotes_Facts\<close> (\<open>quotes/\<close>, \<open>sales/quote-sale.service.ts\<close>): quotes and the one bill each becomes.
  \<^item> \<open>People\<close> (\<open>people/\<close>, \<open>customers/\<close>, \<open>mechanics/\<close>), \<open>Credit_Payments\<close>: codes, patches, tabs and payments on them.
  \<^item> \<open>Catalogue_Dto\<close>, \<open>Products\<close>, \<open>Catalogue\<close> (\<open>products/\<close>): products and manual corrections, categories and their colours, suppliers, the
    ledger's reads. \<open>Purchasing\<close>, \<open>Purchasing_Facts\<close> (\<open>purchasing/\<close>): orders, receipts and the weighted average cost.
  \<^item> \<open>Payment_Accounts\<close> (\<open>payment-accounts/\<close>), \<open>Settings\<close> (\<open>settings/\<close>), \<open>Parked_Sales\<close>, \<open>Review_Items\<close>, \<open>Reports\<close> (\<open>reports/\<close>).
  \<^item> \<open>Idempotency\<close> (\<open>idempotency/\<close>) and \<open>Tenant_Cache\<close> (\<open>infra/tenant-cache.service.ts\<close>): a request's claim, its record and its Redis copy; the
    generations of the read cache.
  \<^item> \<open>Sync_Dto\<close>, \<open>Sync_Push\<close>, \<open>Sync_Facts\<close>, \<open>Sync_Effects\<close> (\<open>sync/\<close>): the outbox of a till - each operation under its own key, dates clamped,
    documents recognised by their ids, errors mapped to what the till does next.
  \<^item> \<open>Rate_Limit\<close>, \<open>Passwords\<close>, \<open>Auth\<close>, \<open>Auth_Account\<close>, \<open>Auth_Facts\<close> (\<open>rate-limit/\<close>, \<open>common/password.ts\<close>, \<open>auth/\<close>, \<open>common/guards/\<close>): counters in Redis, the
    password policy, sign-in with its timing-safe refusals, refresh rotation, password change, enrolment, guards.
  \<^item> \<open>Platform\<close>, \<open>Platform_Facts\<close>, \<open>Platform_Auth\<close>, \<open>Platform_Audit\<close> (\<open>platform/\<close>): administrators open, suspend and close shops, reset an owner,
    replace a device; their own sign-in; the audit log of a shop, paged.
  \<^item> \<open>Shop\<close>, \<open>Shop_Documents\<close>: every transaction of a shop's routes as one step relation - trade, catalogue, paperwork - and what holds
    in every run: closed books, the account of the stock, filed bills, numbers. Pushed operations run the same transactions.

  \<^bold>\<open>Interfaces.\<close> Locales state what a component promises and its clients rely on, each interpreted on the model's own operations: the gate
  that stamps a document with an open drawer and the update of keyed rows (\<open>Shifts\<close>, \<open>Prelude\<close>), a writer of the shelf that logs
  what it moves (\<open>Stock\<close>), the number of a document (\<open>Doc_Number\<close>), the bill a quote is sold through (\<open>Quotes_Facts\<close>).

  \<^bold>\<open>What is shown.\<close> Safety of the money and goods: what comes back never exceeds what was sold, a void undoes a sale, stock and ledger
  move together but for opening stock and clamped corrections, a closed drawer's books never change, a tab is settled once.
  Protocol: one key, one execution; a lost reply can be asked for again; a pushed document is made once; one quote, one bill;
  a refresh token is spent; a cached read is current unless an invalidation failed; an incremental pass misses nothing that
  did not commit late. Invariants of tables under their operations, equivalence of answers with and without the cache,
  bounds, round trips, termination of the cursor's walk, and errors that cannot arise. Some theorems show where the code
  falls short of its comments: a deleted customer stops a till's outbox,
  and a request under way can put a suspended shop's old status back in Redis.

  \<^bold>\<open>Parameters.\<close> Code outside \<open>src/\<close> is an argument: ids and instants of a transaction, Postgres's calendar, \<open>lower()\<close> and
  \<open>jsonb\<close>, argon2, SHA-256 and token signatures, \<open>new Date(text)\<close>, random draws, failures of Redis. Loops recurse on their data; the waiter of
  the cache's lock recurses on the turns it is given. Only the walk through all pages of the audit log has fuel, and one
  page per row, plus one, is shown to be enough. Money is exact below \<open>2 ^ 53\<close> satang;
  the theorems on floating point carry that bound, which the columns (\<open>10 ^ 12\<close>) keep.

  \<^bold>\<open>Not modelled.\<close> The bulk import and backup of a shop's tables (\<open>platform/\<close>, \<open>backup/\<close>), the command line (\<open>cli/\<close>), photos and image codecs,
  runtime configuration, queues, metrics and health checks, framework wiring, messages of errors, row-level security (the
  state is one shop's; \<open>Auth\<close> has several), order of rows that Postgres leaves open, the Flutter client and the generated
  worker under \<open>src/frontend\<close>, and the static page under \<open>src/server/docker\<close>.
\<close>

end
